(* ===== verification/Prelude.thy ===== *)
theory Prelude
  imports Main "HOL-Library.Word"
begin

text \<open>
  Shared vocabulary of the development: the C integer types, pointers, lemma
  collections, and generic facts about machine words and linked lists that the
  component theories use.

  A pointer is a natural number, the address; \<open>NULL\<close> is 0. Each C array of control
  blocks (\<open>OSTCBTbl\<close>, \<open>OSEventTbl\<close>, \<open>OSQTbl\<close>, ...) is a total map from
  pointers to records, so \<open>p->f\<close> is \<open>f (m p)\<close> and \<open>p->f = v\<close> is
  \<open>m(p := (m p)\<lparr>f := v\<rparr>)\<close>.
\<close>

unbundle bit_operations_syntax

type_synonym u8 = "8 word"
type_synonym u16 = "16 word"
type_synonym u32 = "32 word"
type_synonym ptr = nat

abbreviation (input) NULL :: ptr where
  "NULL \<equiv> 0"

named_theorems os_simps \<open>unfolding rules of the kernel's small state transformers\<close>
named_theorems os_frame \<open>which fields an operation leaves alone\<close>

section \<open>Words\<close>

lemma bit_one_shift: "bit (push_bit n (1 :: 'a::len word)) m \<longleftrightarrow> m = n \<and> n < LENGTH('a)"
  by (auto simp: bit_exp_iff push_bit_eq_mult)

lemma u8_bit_less: "bit (w :: u8) n \<Longrightarrow> n < 8"
  using bit_imp_le_length by fastforce

lemma u8_zero_iff: "(w :: u8) = 0 \<longleftrightarrow> (\<forall>n<8. \<not> bit w n)"
  by (auto simp: bit_eq_iff)

lemma u8_unat_less [simp]: "unat (w :: u8) < 256"
  using unsigned_less [of w] by simp

lemma unat_inject [simp]: "unat (a :: 'a::len word) = unat b \<longleftrightarrow> a = b"
  by (simp add: word_unat_eq_iff)

lemma u8_forall: "(\<forall>w :: u8. P w) \<longleftrightarrow> (\<forall>n<256. P (word_of_nat n))"
proof
  assume all: "\<forall>n<256. P (word_of_nat n)"
  show "\<forall>w :: u8. P w"
  proof
    fix w :: u8
    have "P (word_of_nat (unat w))" using all u8_unat_less by blast
    then show "P w" by simp
  qed
qed simp

section \<open>Linked lists in memory\<close>

text \<open>
  \<open>chain nxt p xs\<close>: following \<open>nxt\<close> from \<open>p\<close> visits exactly the blocks \<open>xs\<close>
  and ends at \<open>NULL\<close>. No block of a chain is \<open>NULL\<close>.
\<close>

fun chain :: "(ptr \<Rightarrow> ptr) \<Rightarrow> ptr \<Rightarrow> ptr list \<Rightarrow> bool" where
  "chain nxt p [] \<longleftrightarrow> p = NULL"
| "chain nxt p (x # xs) \<longleftrightarrow> p = x \<and> x \<noteq> NULL \<and> chain nxt (nxt x) xs"

lemma chain_upd_notin [simp]:
  "a \<notin> set xs \<Longrightarrow> chain (nxt(a := q)) p xs \<longleftrightarrow> chain nxt p xs"
  by (induction xs arbitrary: p) auto

lemma chain_cong: "(\<And>x. x \<in> set xs \<Longrightarrow> f x = g x) \<Longrightarrow> chain f p xs \<longleftrightarrow> chain g p xs"
  by (induction xs arbitrary: p) auto

lemma chain_unique: "chain nxt p xs \<Longrightarrow> chain nxt p ys \<Longrightarrow> xs = ys"
proof (induction xs arbitrary: p ys)
  case Nil
  then show ?case by (cases ys) auto
next
  case (Cons x xs)
  then show ?case by (cases ys) auto
qed

lemma chain_NULL [simp]: "chain nxt NULL xs \<longleftrightarrow> xs = []"
  by (cases xs) auto

lemma chain_not_NULL: "chain nxt p xs \<Longrightarrow> NULL \<notin> set xs"
  by (induction xs arbitrary: p) auto

lemma chain_nonempty: "chain nxt p xs \<Longrightarrow> p \<noteq> NULL \<Longrightarrow> \<exists>ys. xs = p # ys \<and> chain nxt (nxt p) ys"
  by (cases xs) auto

lemma chain_append:
  "chain nxt p (xs @ y # ys) \<Longrightarrow> y \<noteq> NULL \<and> chain nxt (nxt y) ys"
  by (induction xs arbitrary: p) auto

text \<open>Integer promotion of unsigned values keeps them.\<close>

lemma unat_promote:
  fixes x :: "'a::len word"
  assumes "LENGTH('a) \<le> LENGTH('b)"
  shows "unat (ucast x :: 'b::len word) = unat x"
proof -
  have "unat x < 2 ^ LENGTH('a)" by (rule unsigned_less)
  also have "(2 :: nat) ^ LENGTH('a) \<le> 2 ^ LENGTH('b)" using assms by simp
  finally show ?thesis by (simp add: unsigned_ucast_eq take_bit_nat_eq_self)
qed

lemma unat_promotions [simp]:
  "unat (ucast (x :: u8) :: u16) = unat x" "unat (ucast (x :: u8) :: u32) = unat x"
  "unat (ucast (y :: u16) :: u32) = unat y"
  by (simp_all add: unat_promote)

lemma unat_shr: "unat (drop_bit k v) = unat v div 2 ^ k"
  by (simp only: unat_drop_bit_eq) (simp add: drop_bit_eq_div)

lemma unat_push:
  fixes v :: "'a::len word"
  shows "push_bit k (unat v) < 2 ^ LENGTH('a) \<Longrightarrow> unat (push_bit k v) = push_bit k (unat v)"
  by (simp add: unsigned_push_bit_eq take_bit_nat_eq_self)

lemma unat_add_small:
  fixes a b :: u32
  shows "unat a + unat b < 4294967296 \<Longrightarrow> unat (a + b) = unat a + unat b"
  by (simp add: unat_word_ariths)

lemma unat_inc:
  fixes x y :: "'a::len word"
  assumes "x < y"
  shows "unat (x + 1) = Suc (unat x)"
proof -
  have "Suc (unat x) \<le> unat y" using assms by (simp add: word_less_nat_alt)
  also have "unat y < 2 ^ LENGTH('a)" by (rule unsigned_less)
  finally have b: "Suc (unat x) < 2 ^ LENGTH('a)" .
  have "unat (1 :: 'a word) \<le> 1" by simp
  moreover have "unat (x + 1) = (unat x + 1) mod 2 ^ LENGTH('a)"
    by (simp add: unat_word_ariths mod_simps)
  ultimately show ?thesis using b by simp
qed

text \<open>Taking out \<open>n\<close> items with an operation that takes out one.\<close>

fun take_out :: "('s \<Rightarrow> 'a \<times> 's) \<Rightarrow> nat \<Rightarrow> 's \<Rightarrow> 'a list \<times> 's" where
  "take_out deq 0 s = ([], s)"
| "take_out deq (Suc n) s = (let (x, s1) = deq s; (xs, s2) = take_out deq n s1 in (x # xs, s2))"

lemma take_out_list:
  assumes step: "\<And>x xs s. I (x # xs) s \<Longrightarrow> fst (deq s) = x \<and> I xs (snd (deq s))"
  shows "I (xs @ ys) s \<Longrightarrow> fst (take_out deq (length xs) s) = xs \<and> I ys (snd (take_out deq (length xs) s))"
proof (induction xs arbitrary: s)
  case (Cons x xs)
  from step [of x "xs @ ys" s] Cons show ?case by (simp add: Let_def split_beta)
qed simp

end
