(* ===== verification/Bitmap.thy ===== *)
theory Bitmap
  imports Prelude
begin

text \<open>
  The priority bitmap of the kernel: a group byte and a table of bytes, one bit
  per priority 0..63 (\<open>OSRdyGrp\<close>/\<open>OSRdyTbl\<close> for the ready list,
  \<open>OSEventGrp\<close>/\<open>OSEventTbl\<close> for the tasks waiting on an event). The code
  repeats three idioms on it, set a bit, clear a bit, find the lowest bit through
  \<open>OSUnMapTbl\<close>. They are defined here once, and the locale \<open>prio_set\<close> states
  what their users rely on: they implement a set of priorities.
\<close>

section \<open>The table of lowest set bits\<close>

definition OSUnMapTbl :: "u8 list" where
  "OSUnMapTbl = [
    0, 0, 1, 0, 2, 0, 1, 0, 3, 0, 1, 0, 2, 0, 1, 0,
    4, 0, 1, 0, 2, 0, 1, 0, 3, 0, 1, 0, 2, 0, 1, 0,
    5, 0, 1, 0, 2, 0, 1, 0, 3, 0, 1, 0, 2, 0, 1, 0,
    4, 0, 1, 0, 2, 0, 1, 0, 3, 0, 1, 0, 2, 0, 1, 0,
    6, 0, 1, 0, 2, 0, 1, 0, 3, 0, 1, 0, 2, 0, 1, 0,
    4, 0, 1, 0, 2, 0, 1, 0, 3, 0, 1, 0, 2, 0, 1, 0,
    5, 0, 1, 0, 2, 0, 1, 0, 3, 0, 1, 0, 2, 0, 1, 0,
    4, 0, 1, 0, 2, 0, 1, 0, 3, 0, 1, 0, 2, 0, 1, 0,
    7, 0, 1, 0, 2, 0, 1, 0, 3, 0, 1, 0, 2, 0, 1, 0,
    4, 0, 1, 0, 2, 0, 1, 0, 3, 0, 1, 0, 2, 0, 1, 0,
    5, 0, 1, 0, 2, 0, 1, 0, 3, 0, 1, 0, 2, 0, 1, 0,
    4, 0, 1, 0, 2, 0, 1, 0, 3, 0, 1, 0, 2, 0, 1, 0,
    6, 0, 1, 0, 2, 0, 1, 0, 3, 0, 1, 0, 2, 0, 1, 0,
    4, 0, 1, 0, 2, 0, 1, 0, 3, 0, 1, 0, 2, 0, 1, 0,
    5, 0, 1, 0, 2, 0, 1, 0, 3, 0, 1, 0, 2, 0, 1, 0,
    4, 0, 1, 0, 2, 0, 1, 0, 3, 0, 1, 0, 2, 0, 1, 0]"

definition OSUnMap :: "u8 \<Rightarrow> u8" where
  "OSUnMap w = OSUnMapTbl ! unat w"

text \<open>Reference: the position of the lowest set bit of a byte, 0 when there is none.\<close>

fun lowest_bit :: "nat list \<Rightarrow> u8 \<Rightarrow> nat" where
  "lowest_bit [] w = 0"
| "lowest_bit (n # ns) w = (if bit w n then n else lowest_bit ns w)"

definition ctz8 :: "u8 \<Rightarrow> nat" where
  "ctz8 w = lowest_bit [0, 1, 2, 3, 4, 5, 6, 7] w"

lemma ctz8_bit: "w \<noteq> 0 \<Longrightarrow> bit w (ctz8 w)"
  by (auto simp: ctz8_def u8_zero_iff less_Suc_eq numeral_eq_Suc split: if_splits)

lemma ctz8_least: "bit w n \<Longrightarrow> ctz8 w \<le> n"
  using u8_bit_less [of w n]
  by (auto simp: ctz8_def less_Suc_eq numeral_eq_Suc)

lemma ctz8_less: "ctz8 w < 8"
  by (simp add: ctz8_def)


lemma OSUnMapTbl_eq: "OSUnMapTbl = map (\<lambda>n. word_of_nat (ctz8 (word_of_nat n))) [0..<256]"
  by code_simp

text \<open>The table is right in every entry: it agrees with the reference on all 256 bytes.\<close>

lemma unat_OSUnMap: "unat (OSUnMap w) = ctz8 w"
  by (simp add: OSUnMap_def OSUnMapTbl_eq unat_of_nat ctz8_less less_trans [OF ctz8_less])

lemma OSUnMap_less: "OSUnMap w < 8"
  by (simp add: word_less_nat_alt unat_OSUnMap ctz8_less)

section \<open>Coordinates of a priority\<close>

definition prio_y :: "u8 \<Rightarrow> u8" where
  "prio_y p = drop_bit 3 p"

definition prio_x :: "u8 \<Rightarrow> u8" where
  "prio_x p = p AND 7"

definition prio_bit :: "u8 \<Rightarrow> u8" where
  "prio_bit n = push_bit (unat n) 1"

lemma unat_prio_y: "unat (prio_y p) = unat p div 8"
  by (simp add: prio_y_def drop_bit_eq_div unat_div)

lemma unat_prio_x: "unat (prio_x p) = unat p mod 8"
proof -
  have "p AND 7 = take_bit 3 p" by (simp add: take_bit_eq_mask mask_eq_exp_minus_1)
  then show ?thesis by (simp add: prio_x_def take_bit_eq_mod unat_mod)
qed

lemma prio_x_less: "prio_x p < 8"
  by (simp add: word_less_nat_alt unat_prio_x)

lemma prio_y_less: "p < 64 \<Longrightarrow> prio_y p < 8"
  by (simp add: word_less_nat_alt unat_prio_y)

lemma bit_prio_bit: "n < 8 \<Longrightarrow> bit (prio_bit n) m \<longleftrightarrow> m = unat n"
  by (auto simp: prio_bit_def push_bit_eq_mult bit_exp_iff word_less_nat_alt)

lemma prio_bit_nonzero: "n < 8 \<Longrightarrow> prio_bit n \<noteq> 0"
  using bit_prio_bit [of n "unat n"] by force

lemma prio_coords_inj: "prio_y p = prio_y q \<Longrightarrow> prio_x p = prio_x q \<Longrightarrow> p = q"
  by (metis mod_mult_div_eq unat_prio_x unat_prio_y word_unat_eq_iff)

definition prio_of :: "u8 \<Rightarrow> u8 \<Rightarrow> u8" where
  "prio_of y x = push_bit 3 y + x"

lemma unat_prio_of: "y < 8 \<Longrightarrow> x < 8 \<Longrightarrow> unat (prio_of y x) = 8 * unat y + unat x"
  by (simp add: prio_of_def word_less_nat_alt push_bit_eq_mult unat_word_ariths take_bit_eq_mod)

lemma prio_of_less: "y < 8 \<Longrightarrow> x < 8 \<Longrightarrow> prio_of y x < 64"
  by (simp add: word_less_nat_alt unat_prio_of)

lemma prio_of_coords [simp]:
  assumes "y < 8" "x < 8"
  shows "prio_y (prio_of y x) = y" "prio_x (prio_of y x) = x"
  using assms by (simp_all add: word_unat_eq_iff unat_prio_y unat_prio_x unat_prio_of word_less_nat_alt)

section \<open>The three idioms\<close>

type_synonym bitmap = "u8 \<times> (u8 \<Rightarrow> u8)"

definition bm_set :: "u8 \<Rightarrow> u8 \<Rightarrow> u8 \<Rightarrow> bitmap \<Rightarrow> bitmap" where
  "bm_set bity y bitx b = (fst b OR bity, (snd b)(y := snd b y OR bitx))"

definition bm_clr :: "u8 \<Rightarrow> u8 \<Rightarrow> u8 \<Rightarrow> bitmap \<Rightarrow> bitmap" where
  "bm_clr bity y bitx b =
     (let tbl = (snd b)(y := snd b y AND NOT bitx)
      in (if tbl y = 0 then fst b AND NOT bity else fst b, tbl))"

definition bm_highest :: "bitmap \<Rightarrow> u8" where
  "bm_highest b = (let y = OSUnMap (fst b) in push_bit 3 y + OSUnMap (snd b y))"

text \<open>What a bitmap stands for, and when its two levels agree.\<close>

definition bm_prios :: "bitmap \<Rightarrow> u8 set" where
  "bm_prios b = {p. p < 64 \<and> bit (snd b (prio_y p)) (unat (prio_x p))}"

definition bm_ok :: "bitmap \<Rightarrow> bool" where
  "bm_ok b \<longleftrightarrow> (\<forall>y<8. bit (fst b) (unat y) \<longleftrightarrow> snd b y \<noteq> 0)"

definition bm_ins :: "u8 \<Rightarrow> bitmap \<Rightarrow> bitmap" where
  "bm_ins p = bm_set (prio_bit (prio_y p)) (prio_y p) (prio_bit (prio_x p))"

definition bm_del :: "u8 \<Rightarrow> bitmap \<Rightarrow> bitmap" where
  "bm_del p = bm_clr (prio_bit (prio_y p)) (prio_y p) (prio_bit (prio_x p))"

section \<open>A bitmap is a set of priorities\<close>

lemma bm_prios_less: "p \<in> bm_prios b \<Longrightarrow> p < 64"
  by (simp add: bm_prios_def)

lemma bm_prios_ins: "p < 64 \<Longrightarrow> bm_prios (bm_ins p b) = insert p (bm_prios b)"
  by (auto simp: bm_prios_def bm_ins_def bm_set_def bit_or_iff bit_prio_bit prio_x_less
      dest: prio_coords_inj split: if_splits)

lemma bm_prios_del: "p < 64 \<Longrightarrow> bm_prios (bm_del p b) = bm_prios b - {p}"
  using prio_coords_inj [of _ p] u8_bit_less
  by (auto simp: bm_prios_def bm_del_def bm_clr_def Let_def bit_and_iff bit_not_iff bit_prio_bit prio_x_less
      split: if_splits)

lemma or_zero: "(a :: u8) OR b = 0 \<longleftrightarrow> a = 0 \<and> b = 0"
  by (auto simp: bit_eq_iff bit_or_iff)

lemma bm_ok_ins: "bm_ok b \<Longrightarrow> p < 64 \<Longrightarrow> bm_ok (bm_ins p b)"
  by (auto simp: bm_ok_def bm_ins_def bm_set_def bit_or_iff bit_prio_bit prio_y_less prio_bit_nonzero prio_x_less or_zero)

lemma bm_ok_del: "bm_ok b \<Longrightarrow> p < 64 \<Longrightarrow> bm_ok (bm_del p b)"
  using prio_y_less [of p] u8_bit_less
  by (auto simp: bm_ok_def bm_del_def bm_clr_def Let_def bit_and_iff bit_not_iff bit_prio_bit) 

lemma bm_empty: "bm_ok b \<Longrightarrow> fst b = 0 \<longleftrightarrow> bm_prios b = {}"
proof 
  assume ok: "bm_ok b" and z: "fst b = 0"
  then have "snd b y = 0" if "y < 8" for y using that by (auto simp: bm_ok_def)
  then show "bm_prios b = {}" by (auto simp: bm_prios_def prio_y_less)
next
  assume ok: "bm_ok b" and e: "bm_prios b = {}"
  show "fst b = 0"
  proof (rule ccontr)
    assume "fst b \<noteq> 0"
    then have y: "bit (fst b) (unat (OSUnMap (fst b)))" by (simp add: unat_OSUnMap ctz8_bit)
    then have "snd b (OSUnMap (fst b)) \<noteq> 0" using ok OSUnMap_less by (auto simp: bm_ok_def)
    then have "bit (snd b (OSUnMap (fst b))) (unat (OSUnMap (snd b (OSUnMap (fst b)))))"
      by (simp add: unat_OSUnMap ctz8_bit)
    then have "prio_of (OSUnMap (fst b)) (OSUnMap (snd b (OSUnMap (fst b)))) \<in> bm_prios b"
      by (simp add: bm_prios_def OSUnMap_less prio_of_less)
    then show False using e by simp
  qed
qed

lemma bm_highest_in: 
  assumes ok: "bm_ok b" and ne: "bm_prios b \<noteq> {}"
  shows "bm_highest b \<in> bm_prios b"
proof -
  have "fst b \<noteq> 0" using bm_empty [OF ok] ne by simp
    then have y: "bit (fst b) (unat (OSUnMap (fst b)))" by (simp add: unat_OSUnMap ctz8_bit)
    then have "snd b (OSUnMap (fst b)) \<noteq> 0" using ok OSUnMap_less by (auto simp: bm_ok_def)
    then have "bit (snd b (OSUnMap (fst b))) (unat (OSUnMap (snd b (OSUnMap (fst b)))))"
      by (simp add: unat_OSUnMap ctz8_bit)
  then show ?thesis
    unfolding bm_highest_def Let_def prio_of_def [symmetric]
    by (simp add: bm_prios_def OSUnMap_less prio_of_less)
qed

lemma bm_highest_le:
  assumes ok: "bm_ok b" and p: "p \<in> bm_prios b"
  shows "bm_highest b \<le> p"
proof -
  let ?y = "OSUnMap (fst b)"  let ?x = "OSUnMap (snd b ?y)"
  from p have p64: "p < 64" and bp: "bit (snd b (prio_y p)) (unat (prio_x p))" by (auto simp: bm_prios_def)
  from bp have "snd b (prio_y p) \<noteq> 0" by auto
  then have "bit (fst b) (unat (prio_y p))" using ok p64 by (auto simp: bm_ok_def prio_y_less)
  then have yle: "unat ?y \<le> unat (prio_y p)" by (simp add: unat_OSUnMap ctz8_least)
  have xle: "unat ?x \<le> unat (prio_x p)" if "?y = prio_y p"
    using that bp by (simp add: unat_OSUnMap [of "snd b (prio_y p)"] ctz8_least)
  have "unat ?x < 8" using OSUnMap_less by (simp add: word_less_nat_alt)
  moreover have "unat p = 8 * unat (prio_y p) + unat (prio_x p)" by (simp add: unat_prio_y unat_prio_x)
  moreover have "?y \<noteq> prio_y p \<Longrightarrow> unat ?y < unat (prio_y p)"
    using yle by (metis le_neq_implies_less unat_inject)
  ultimately have "8 * unat ?y + unat ?x \<le> unat p" using xle
    by (cases "?y = prio_y p") simp_all
  then show ?thesis
    unfolding bm_highest_def Let_def prio_of_def [symmetric] word_le_nat_alt
    by (simp add: unat_prio_of OSUnMap_less)
qed

section \<open>The interface: a set of priorities with a best element\<close>

text \<open>
  What the scheduler and the event services need of the structure that holds
  priorities: \<open>ins\<close>/\<open>del\<close> are set insertion and deletion, \<open>none\<close> is the test the
  loops make, \<open>best\<close> is the priority that is served next.
\<close>

locale prio_set =
  fixes prios :: "'b \<Rightarrow> u8 set"
    and ok :: "'b \<Rightarrow> bool"
    and ins :: "u8 \<Rightarrow> 'b \<Rightarrow> 'b"
    and del :: "u8 \<Rightarrow> 'b \<Rightarrow> 'b"
    and none :: "'b \<Rightarrow> bool"
    and best :: "'b \<Rightarrow> u8"
  assumes prios_bound: "p \<in> prios b \<Longrightarrow> p < 64"
    and prios_ins: "p < 64 \<Longrightarrow> prios (ins p b) = insert p (prios b)"
    and prios_del: "p < 64 \<Longrightarrow> prios (del p b) = prios b - {p}"
    and ok_ins: "ok b \<Longrightarrow> p < 64 \<Longrightarrow> ok (ins p b)"
    and ok_del: "ok b \<Longrightarrow> p < 64 \<Longrightarrow> ok (del p b)"
    and none_iff: "ok b \<Longrightarrow> none b \<longleftrightarrow> prios b = {}"
    and best_in: "ok b \<Longrightarrow> prios b \<noteq> {} \<Longrightarrow> best b \<in> prios b"
    and best_le: "ok b \<Longrightarrow> p \<in> prios b \<Longrightarrow> best b \<le> p"
begin

lemma best_Min: "ok b \<Longrightarrow> prios b \<noteq> {} \<Longrightarrow> best b = Min (prios b)"
  by (rule Min_eqI [symmetric]) (auto simp: best_in best_le)

lemma best_unique: "ok b \<Longrightarrow> p \<in> prios b \<Longrightarrow> (\<And>q. q \<in> prios b \<Longrightarrow> p \<le> q) \<Longrightarrow> best b = p"
  by (metis best_in best_le empty_iff order_antisym)

lemma best_ins:
  "ok b \<Longrightarrow> p < 64 \<Longrightarrow> prios b \<noteq> {} \<Longrightarrow> best (ins p b) = min p (best b)"
  using best_Min [of "ins p b"] best_Min [of b] by (simp add: ok_ins prios_ins)

lemma best_ins_empty: "ok b \<Longrightarrow> p < 64 \<Longrightarrow> prios b = {} \<Longrightarrow> best (ins p b) = p"
  using best_Min [of "ins p b"] by (simp add: ok_ins prios_ins)

lemma card_prios: "card (prios b) \<le> 64"
proof -
  have "prios b \<subseteq> word_of_nat ` {..<64}"
  proof
    fix p
    assume "p \<in> prios b"
    then have "unat p < 64" using prios_bound by (auto simp: word_less_nat_alt)
    then show "p \<in> word_of_nat ` {..<64}" by (intro image_eqI [of _ _ "unat p"]) auto
  qed
  then have "card (prios b) \<le> card (word_of_nat ` {..<64 :: nat} :: u8 set)"
    by (intro card_mono) auto
  also have "\<dots> \<le> 64" using card_image_le [of "{..<64 :: nat}"] by simp
  finally show ?thesis .
qed

lemma card_del_best: "ok b \<Longrightarrow> prios b \<noteq> {} \<Longrightarrow> card (prios (del (best b) b)) < card (prios b)"
  using best_in [of b] prios_bound [OF best_in [of b]]
  by (simp add: prios_del card_gt_0_iff)

end

interpretation bm: prio_set bm_prios bm_ok bm_ins bm_del "\<lambda>b. fst b = 0" bm_highest
  by unfold_locales
    (auto simp: bm_prios_less bm_prios_ins bm_prios_del bm_ok_ins bm_ok_del bm_empty bm_highest_in bm_highest_le)

end
