(* ===== verification/Kernel.thy ===== *)
theory Kernel
  imports Bitmap
begin

text \<open>
  The uC/OS-II kernel state (\<open>ucosII/Source/ucos_ii.h\<close>): constants, control blocks and
  globals in the configuration of \<open>os_app/os_cfg.h\<close> (64 priorities, argument checks off, no
  event names, no multi-pend, no statistics task, tasks created by \<open>OSTaskCreate\<close> only), and
  the field updates all operations are written with. The body of a critical section
  (\<open>OS_ENTER_CRITICAL\<close> .. \<open>OS_EXIT_CRITICAL\<close>) is one state transformer: interrupts are
  masked in it.
\<close>

section \<open>Constants of os_cfg.h and ucos_ii.h\<close>

abbreviation (input) OS_LOWEST_PRIO :: u8 where "OS_LOWEST_PRIO \<equiv> 63"
abbreviation (input) OS_TASK_IDLE_PRIO :: u8 where "OS_TASK_IDLE_PRIO \<equiv> 63"
abbreviation (input) OS_PRIO_SELF :: u8 where "OS_PRIO_SELF \<equiv> 0xFF"
abbreviation (input) OS_MAX_TASKS :: nat where "OS_MAX_TASKS \<equiv> 10"
abbreviation (input) OS_N_SYS_TASKS :: nat where "OS_N_SYS_TASKS \<equiv> 1"
abbreviation (input) OS_MAX_EVENTS :: nat where "OS_MAX_EVENTS \<equiv> 50"
abbreviation (input) OS_MAX_QS :: nat where "OS_MAX_QS \<equiv> 5"
abbreviation (input) OS_MAX_MEM_PART :: nat where "OS_MAX_MEM_PART \<equiv> 5"
abbreviation (input) OS_TICKS_PER_SEC :: u32 where "OS_TICKS_PER_SEC \<equiv> 200"

abbreviation (input) OS_STAT_RDY :: u8 where "OS_STAT_RDY \<equiv> 0x00"
abbreviation (input) OS_STAT_SEM :: u8 where "OS_STAT_SEM \<equiv> 0x01"
abbreviation (input) OS_STAT_MBOX :: u8 where "OS_STAT_MBOX \<equiv> 0x02"
abbreviation (input) OS_STAT_Q :: u8 where "OS_STAT_Q \<equiv> 0x04"
abbreviation (input) OS_STAT_SUSPEND :: u8 where "OS_STAT_SUSPEND \<equiv> 0x08"
abbreviation (input) OS_STAT_MUTEX :: u8 where "OS_STAT_MUTEX \<equiv> 0x10"
abbreviation (input) OS_STAT_PEND_ANY :: u8 where
  "OS_STAT_PEND_ANY \<equiv> 0x37" \<comment> \<open>SEM | MBOX | Q | MUTEX | FLAG\<close>

abbreviation (input) OS_STAT_PEND_OK :: u8 where "OS_STAT_PEND_OK \<equiv> 0"
abbreviation (input) OS_STAT_PEND_TO :: u8 where "OS_STAT_PEND_TO \<equiv> 1"
abbreviation (input) OS_STAT_PEND_ABORT :: u8 where "OS_STAT_PEND_ABORT \<equiv> 2"

abbreviation (input) OS_EVENT_TYPE_UNUSED :: u8 where "OS_EVENT_TYPE_UNUSED \<equiv> 0"
abbreviation (input) OS_EVENT_TYPE_MBOX :: u8 where "OS_EVENT_TYPE_MBOX \<equiv> 1"
abbreviation (input) OS_EVENT_TYPE_Q :: u8 where "OS_EVENT_TYPE_Q \<equiv> 2"
abbreviation (input) OS_EVENT_TYPE_SEM :: u8 where "OS_EVENT_TYPE_SEM \<equiv> 3"
abbreviation (input) OS_EVENT_TYPE_MUTEX :: u8 where "OS_EVENT_TYPE_MUTEX \<equiv> 4"

abbreviation (input) OS_DEL_NO_PEND :: u8 where "OS_DEL_NO_PEND \<equiv> 0"
abbreviation (input) OS_DEL_ALWAYS :: u8 where "OS_DEL_ALWAYS \<equiv> 1"
abbreviation (input) OS_PEND_OPT_NONE :: u8 where "OS_PEND_OPT_NONE \<equiv> 0"
abbreviation (input) OS_PEND_OPT_BROADCAST :: u8 where "OS_PEND_OPT_BROADCAST \<equiv> 1"
abbreviation (input) OS_POST_OPT_BROADCAST :: u8 where "OS_POST_OPT_BROADCAST \<equiv> 0x01"
abbreviation (input) OS_POST_OPT_FRONT :: u8 where "OS_POST_OPT_FRONT \<equiv> 0x02"
abbreviation (input) OS_POST_OPT_NO_SCHED :: u8 where "OS_POST_OPT_NO_SCHED \<equiv> 0x04"

abbreviation (input) OS_ERR_NONE :: u8 where "OS_ERR_NONE \<equiv> 0"
abbreviation (input) OS_ERR_EVENT_TYPE :: u8 where "OS_ERR_EVENT_TYPE \<equiv> 1"
abbreviation (input) OS_ERR_PEND_ISR :: u8 where "OS_ERR_PEND_ISR \<equiv> 2"
abbreviation (input) OS_ERR_PEVENT_NULL :: u8 where "OS_ERR_PEVENT_NULL \<equiv> 4"
abbreviation (input) OS_ERR_POST_ISR :: u8 where "OS_ERR_POST_ISR \<equiv> 5"
abbreviation (input) OS_ERR_QUERY_ISR :: u8 where "OS_ERR_QUERY_ISR \<equiv> 6"
abbreviation (input) OS_ERR_INVALID_OPT :: u8 where "OS_ERR_INVALID_OPT \<equiv> 7"
abbreviation (input) OS_ERR_TIMEOUT :: u8 where "OS_ERR_TIMEOUT \<equiv> 10"
abbreviation (input) OS_ERR_PEND_LOCKED :: u8 where "OS_ERR_PEND_LOCKED \<equiv> 13"
abbreviation (input) OS_ERR_PEND_ABORT :: u8 where "OS_ERR_PEND_ABORT \<equiv> 14"
abbreviation (input) OS_ERR_DEL_ISR :: u8 where "OS_ERR_DEL_ISR \<equiv> 15"
abbreviation (input) OS_ERR_CREATE_ISR :: u8 where "OS_ERR_CREATE_ISR \<equiv> 16"
abbreviation (input) OS_ERR_NAME_GET_ISR :: u8 where "OS_ERR_NAME_GET_ISR \<equiv> 17"
abbreviation (input) OS_ERR_NAME_SET_ISR :: u8 where "OS_ERR_NAME_SET_ISR \<equiv> 18"
abbreviation (input) OS_ERR_MBOX_FULL :: u8 where "OS_ERR_MBOX_FULL \<equiv> 20"
abbreviation (input) OS_ERR_Q_FULL :: u8 where "OS_ERR_Q_FULL \<equiv> 30"
abbreviation (input) OS_ERR_Q_EMPTY :: u8 where "OS_ERR_Q_EMPTY \<equiv> 31"
abbreviation (input) OS_ERR_PRIO_EXIST :: u8 where "OS_ERR_PRIO_EXIST \<equiv> 40"
abbreviation (input) OS_ERR_PRIO :: u8 where "OS_ERR_PRIO \<equiv> 41"
abbreviation (input) OS_ERR_SCHED_LOCKED :: u8 where "OS_ERR_SCHED_LOCKED \<equiv> 50"
abbreviation (input) OS_ERR_SEM_OVF :: u8 where "OS_ERR_SEM_OVF \<equiv> 51"
abbreviation (input) OS_ERR_TASK_CREATE_ISR :: u8 where "OS_ERR_TASK_CREATE_ISR \<equiv> 60"
abbreviation (input) OS_ERR_TASK_DEL :: u8 where "OS_ERR_TASK_DEL \<equiv> 61"
abbreviation (input) OS_ERR_TASK_DEL_IDLE :: u8 where "OS_ERR_TASK_DEL_IDLE \<equiv> 62"
abbreviation (input) OS_ERR_TASK_DEL_REQ :: u8 where "OS_ERR_TASK_DEL_REQ \<equiv> 63"
abbreviation (input) OS_ERR_TASK_DEL_ISR :: u8 where "OS_ERR_TASK_DEL_ISR \<equiv> 64"
abbreviation (input) OS_ERR_TASK_NO_MORE_TCB :: u8 where "OS_ERR_TASK_NO_MORE_TCB \<equiv> 66"
abbreviation (input) OS_ERR_TASK_NOT_EXIST :: u8 where "OS_ERR_TASK_NOT_EXIST \<equiv> 67"
abbreviation (input) OS_ERR_TASK_NOT_SUSPENDED :: u8 where "OS_ERR_TASK_NOT_SUSPENDED \<equiv> 68"
abbreviation (input) OS_ERR_TASK_RESUME_PRIO :: u8 where "OS_ERR_TASK_RESUME_PRIO \<equiv> 70"
abbreviation (input) OS_ERR_TASK_SUSPEND_PRIO :: u8 where "OS_ERR_TASK_SUSPEND_PRIO \<equiv> 72"
abbreviation (input) OS_ERR_TASK_WAITING :: u8 where "OS_ERR_TASK_WAITING \<equiv> 73"
abbreviation (input) OS_ERR_TIME_DLY_ISR :: u8 where "OS_ERR_TIME_DLY_ISR \<equiv> 85"
abbreviation (input) OS_ERR_MEM_INVALID_PART :: u8 where "OS_ERR_MEM_INVALID_PART \<equiv> 90"
abbreviation (input) OS_ERR_MEM_NO_FREE_BLKS :: u8 where "OS_ERR_MEM_NO_FREE_BLKS \<equiv> 93"
abbreviation (input) OS_ERR_MEM_FULL :: u8 where "OS_ERR_MEM_FULL \<equiv> 94"
abbreviation (input) OS_ERR_NOT_MUTEX_OWNER :: u8 where "OS_ERR_NOT_MUTEX_OWNER \<equiv> 100"
abbreviation (input) OS_ERR_PCP_LOWER :: u8 where "OS_ERR_PCP_LOWER \<equiv> 120"

section \<open>Control blocks and the kernel state\<close>

record os_event =
  OSEventType :: u8
  OSEventPtr :: ptr
  OSEventCnt :: u16
  OSEventGrp :: u8
  OSEventTbl :: "u8 \<Rightarrow> u8"

record os_mem =
  OSMemAddr :: ptr
  OSMemFree :: ptr
  OSMemBlkSize :: u32
  OSMemNBlks :: u32
  OSMemNFree :: u32
  OSMemName :: string

record os_q =
  OSQPtr :: ptr
  OSQStart :: ptr
  OSQEnd :: ptr
  OSQIn :: ptr
  OSQOut :: ptr
  OSQSize :: u16
  OSQEntries :: u16

record os_tcb =
  OSTCBStkPtr :: ptr
  OSTCBNext :: ptr
  OSTCBPrev :: ptr
  OSTCBEventPtr :: ptr
  OSTCBMsg :: ptr
  OSTCBDly :: u32
  OSTCBStat :: u8
  OSTCBStatPend :: u8
  OSTCBPrio :: u8
  OSTCBX :: u8
  OSTCBY :: u8
  OSTCBBitX :: u8
  OSTCBBitY :: u8
  OSTCBDelReq :: u8
  OSTCBTaskName :: string

text \<open>
  The kernel's globals. \<open>OSEventMem\<close>, \<open>OSTCBMem\<close>, \<open>OSQMem\<close>, \<open>OSMemMem\<close> are the
  arrays \<open>OSEventTbl\<close>, \<open>OSTCBTbl\<close>, \<open>OSQTbl\<close>, \<open>OSMemTbl\<close> seen through pointers;
  \<open>app_mem\<close> is the memory the application lends to the kernel (message slots of queues,
  blocks of partitions, task stacks), word by word under byte addresses.
\<close>

record os =
  OSCtxSwCtr :: u32
  OSEventFreeList :: ptr
  OSEventMem :: "ptr \<Rightarrow> os_event"
  OSIntNesting :: u8
  OSLockNesting :: u8
  OSPrioCur :: u8
  OSPrioHighRdy :: u8
  OSRdyGrp :: u8
  OSRdyTbl :: "u8 \<Rightarrow> u8"
  OSRunning :: bool
  OSTaskCtr :: u8
  OSIdleCtr :: u32
  OSTCBCur :: ptr
  OSTCBFreeList :: ptr
  OSTCBHighRdy :: ptr
  OSTCBList :: ptr
  OSTCBPrioTbl :: "u8 \<Rightarrow> ptr"
  OSTCBMem :: "ptr \<Rightarrow> os_tcb"
  OSMemFreeList :: ptr
  OSMemMem :: "ptr \<Rightarrow> os_mem"
  OSQFreeList :: ptr
  OSQMem :: "ptr \<Rightarrow> os_q"
  OSTime :: u32
  app_mem :: "ptr \<Rightarrow> ptr"

abbreviation (input) OS_TCB_RESERVED :: ptr where "OS_TCB_RESERVED \<equiv> 1"

definition tcb_addr :: "nat \<Rightarrow> ptr" where "tcb_addr i = i + 2" \<comment> \<open>\<open>&OSTCBTbl[i]\<close>\<close>
definition event_addr :: "nat \<Rightarrow> ptr" where "event_addr i = i + 1" \<comment> \<open>\<open>&OSEventTbl[i]\<close>\<close>
definition q_addr :: "nat \<Rightarrow> ptr" where "q_addr i = i + 1" \<comment> \<open>\<open>&OSQTbl[i]\<close>\<close>
definition mem_addr :: "nat \<Rightarrow> ptr" where "mem_addr i = i + 1" \<comment> \<open>\<open>&OSMemTbl[i]\<close>\<close>

definition upd_tcb :: "ptr \<Rightarrow> (os_tcb \<Rightarrow> os_tcb) \<Rightarrow> os \<Rightarrow> os" where
  "upd_tcb p f s = s\<lparr>OSTCBMem := (OSTCBMem s)(p := f (OSTCBMem s p))\<rparr>"

definition upd_event :: "ptr \<Rightarrow> (os_event \<Rightarrow> os_event) \<Rightarrow> os \<Rightarrow> os" where
  "upd_event p f s = s\<lparr>OSEventMem := (OSEventMem s)(p := f (OSEventMem s p))\<rparr>"

definition upd_q :: "ptr \<Rightarrow> (os_q \<Rightarrow> os_q) \<Rightarrow> os \<Rightarrow> os" where
  "upd_q p f s = s\<lparr>OSQMem := (OSQMem s)(p := f (OSQMem s p))\<rparr>"

definition upd_mem :: "ptr \<Rightarrow> (os_mem \<Rightarrow> os_mem) \<Rightarrow> os \<Rightarrow> os" where
  "upd_mem p f s = s\<lparr>OSMemMem := (OSMemMem s)(p := f (OSMemMem s p))\<rparr>"

text \<open>The ready list and an event's wait list as bitmaps.\<close>

definition rdy :: "os \<Rightarrow> bitmap" where
  "rdy s = (OSRdyGrp s, OSRdyTbl s)"

definition set_rdy :: "bitmap \<Rightarrow> os \<Rightarrow> os" where
  "set_rdy b s = s\<lparr>OSRdyGrp := fst b, OSRdyTbl := snd b\<rparr>"

definition ev_wait :: "os_event \<Rightarrow> bitmap" where
  "ev_wait e = (OSEventGrp e, OSEventTbl e)"

definition set_ev_wait :: "bitmap \<Rightarrow> os_event \<Rightarrow> os_event" where
  "set_ev_wait b e = e\<lparr>OSEventGrp := fst b, OSEventTbl := snd b\<rparr>"

lemmas upd_defs = upd_tcb_def upd_event_def upd_q_def upd_mem_def rdy_def set_rdy_def
  ev_wait_def set_ev_wait_def

section \<open>Selectors of the update functions\<close>

lemma upd_tcb_sel [simp]:
  "OSTCBMem (upd_tcb a f s) = (OSTCBMem s)(a := f (OSTCBMem s a))" "rdy (upd_tcb a f s) = rdy s"
  "OSCtxSwCtr (upd_tcb a f s) = OSCtxSwCtr s"
  "OSEventFreeList (upd_tcb a f s) = OSEventFreeList s"
  "OSEventMem (upd_tcb a f s) = OSEventMem s" "OSIntNesting (upd_tcb a f s) = OSIntNesting s"
  "OSLockNesting (upd_tcb a f s) = OSLockNesting s" "OSPrioCur (upd_tcb a f s) = OSPrioCur s"
  "OSPrioHighRdy (upd_tcb a f s) = OSPrioHighRdy s" "OSRdyGrp (upd_tcb a f s) = OSRdyGrp s"
  "OSRdyTbl (upd_tcb a f s) = OSRdyTbl s" "OSRunning (upd_tcb a f s) = OSRunning s"
  "OSTaskCtr (upd_tcb a f s) = OSTaskCtr s" "OSTCBCur (upd_tcb a f s) = OSTCBCur s"
  "OSTCBFreeList (upd_tcb a f s) = OSTCBFreeList s"
  "OSTCBHighRdy (upd_tcb a f s) = OSTCBHighRdy s" "OSTCBList (upd_tcb a f s) = OSTCBList s"
  "OSTCBPrioTbl (upd_tcb a f s) = OSTCBPrioTbl s"
  "OSMemFreeList (upd_tcb a f s) = OSMemFreeList s" "OSMemMem (upd_tcb a f s) = OSMemMem s"
  "OSQFreeList (upd_tcb a f s) = OSQFreeList s" "OSQMem (upd_tcb a f s) = OSQMem s"
  "OSTime (upd_tcb a f s) = OSTime s" "app_mem (upd_tcb a f s) = app_mem s"
  by (simp_all add: upd_tcb_def rdy_def)

lemma upd_event_sel [simp]:
  "OSEventMem (upd_event a g s) = (OSEventMem s)(a := g (OSEventMem s a))"
  "rdy (upd_event a g s) = rdy s" "OSCtxSwCtr (upd_event a g s) = OSCtxSwCtr s"
  "OSEventFreeList (upd_event a g s) = OSEventFreeList s"
  "OSIntNesting (upd_event a g s) = OSIntNesting s"
  "OSLockNesting (upd_event a g s) = OSLockNesting s"
  "OSPrioCur (upd_event a g s) = OSPrioCur s"
  "OSPrioHighRdy (upd_event a g s) = OSPrioHighRdy s" "OSRdyGrp (upd_event a g s) = OSRdyGrp s"
  "OSRdyTbl (upd_event a g s) = OSRdyTbl s" "OSRunning (upd_event a g s) = OSRunning s"
  "OSTaskCtr (upd_event a g s) = OSTaskCtr s" "OSTCBCur (upd_event a g s) = OSTCBCur s"
  "OSTCBFreeList (upd_event a g s) = OSTCBFreeList s"
  "OSTCBHighRdy (upd_event a g s) = OSTCBHighRdy s" "OSTCBList (upd_event a g s) = OSTCBList s"
  "OSTCBPrioTbl (upd_event a g s) = OSTCBPrioTbl s" "OSTCBMem (upd_event a g s) = OSTCBMem s"
  "OSMemFreeList (upd_event a g s) = OSMemFreeList s" "OSMemMem (upd_event a g s) = OSMemMem s"
  "OSQFreeList (upd_event a g s) = OSQFreeList s" "OSQMem (upd_event a g s) = OSQMem s"
  "OSTime (upd_event a g s) = OSTime s" "app_mem (upd_event a g s) = app_mem s"
  by (simp_all add: upd_event_def rdy_def)

lemma upd_q_sel [simp]:
  "OSQMem (upd_q a h s) = (OSQMem s)(a := h (OSQMem s a))" "rdy (upd_q a h s) = rdy s"
  "OSCtxSwCtr (upd_q a h s) = OSCtxSwCtr s" "OSEventFreeList (upd_q a h s) = OSEventFreeList s"
  "OSEventMem (upd_q a h s) = OSEventMem s" "OSIntNesting (upd_q a h s) = OSIntNesting s"
  "OSLockNesting (upd_q a h s) = OSLockNesting s" "OSPrioCur (upd_q a h s) = OSPrioCur s"
  "OSPrioHighRdy (upd_q a h s) = OSPrioHighRdy s" "OSRdyGrp (upd_q a h s) = OSRdyGrp s"
  "OSRdyTbl (upd_q a h s) = OSRdyTbl s" "OSRunning (upd_q a h s) = OSRunning s"
  "OSTaskCtr (upd_q a h s) = OSTaskCtr s" "OSTCBCur (upd_q a h s) = OSTCBCur s"
  "OSTCBFreeList (upd_q a h s) = OSTCBFreeList s" "OSTCBHighRdy (upd_q a h s) = OSTCBHighRdy s"
  "OSTCBList (upd_q a h s) = OSTCBList s" "OSTCBPrioTbl (upd_q a h s) = OSTCBPrioTbl s"
  "OSTCBMem (upd_q a h s) = OSTCBMem s" "OSMemFreeList (upd_q a h s) = OSMemFreeList s"
  "OSMemMem (upd_q a h s) = OSMemMem s" "OSQFreeList (upd_q a h s) = OSQFreeList s"
  "OSTime (upd_q a h s) = OSTime s" "app_mem (upd_q a h s) = app_mem s"
  by (simp_all add: upd_q_def rdy_def)

lemma upd_mem_sel [simp]:
  "OSMemMem (upd_mem a k s) = (OSMemMem s)(a := k (OSMemMem s a))" "rdy (upd_mem a k s) = rdy s"
  "OSCtxSwCtr (upd_mem a k s) = OSCtxSwCtr s"
  "OSEventFreeList (upd_mem a k s) = OSEventFreeList s"
  "OSEventMem (upd_mem a k s) = OSEventMem s" "OSIntNesting (upd_mem a k s) = OSIntNesting s"
  "OSLockNesting (upd_mem a k s) = OSLockNesting s" "OSPrioCur (upd_mem a k s) = OSPrioCur s"
  "OSPrioHighRdy (upd_mem a k s) = OSPrioHighRdy s" "OSRdyGrp (upd_mem a k s) = OSRdyGrp s"
  "OSRdyTbl (upd_mem a k s) = OSRdyTbl s" "OSRunning (upd_mem a k s) = OSRunning s"
  "OSTaskCtr (upd_mem a k s) = OSTaskCtr s" "OSTCBCur (upd_mem a k s) = OSTCBCur s"
  "OSTCBFreeList (upd_mem a k s) = OSTCBFreeList s"
  "OSTCBHighRdy (upd_mem a k s) = OSTCBHighRdy s" "OSTCBList (upd_mem a k s) = OSTCBList s"
  "OSTCBPrioTbl (upd_mem a k s) = OSTCBPrioTbl s" "OSTCBMem (upd_mem a k s) = OSTCBMem s"
  "OSMemFreeList (upd_mem a k s) = OSMemFreeList s"
  "OSQFreeList (upd_mem a k s) = OSQFreeList s" "OSQMem (upd_mem a k s) = OSQMem s"
  "OSTime (upd_mem a k s) = OSTime s" "app_mem (upd_mem a k s) = app_mem s"
  by (simp_all add: upd_mem_def rdy_def)

lemma set_rdy_sel [simp]:
  "rdy (set_rdy b s) = b" "OSCtxSwCtr (set_rdy b s) = OSCtxSwCtr s"
  "OSEventFreeList (set_rdy b s) = OSEventFreeList s" "OSEventMem (set_rdy b s) = OSEventMem s"
  "OSIntNesting (set_rdy b s) = OSIntNesting s" "OSLockNesting (set_rdy b s) = OSLockNesting s"
  "OSPrioCur (set_rdy b s) = OSPrioCur s" "OSPrioHighRdy (set_rdy b s) = OSPrioHighRdy s"
  "OSRunning (set_rdy b s) = OSRunning s" "OSTaskCtr (set_rdy b s) = OSTaskCtr s"
  "OSTCBCur (set_rdy b s) = OSTCBCur s" "OSTCBFreeList (set_rdy b s) = OSTCBFreeList s"
  "OSTCBHighRdy (set_rdy b s) = OSTCBHighRdy s" "OSTCBList (set_rdy b s) = OSTCBList s"
  "OSTCBPrioTbl (set_rdy b s) = OSTCBPrioTbl s" "OSTCBMem (set_rdy b s) = OSTCBMem s"
  "OSMemFreeList (set_rdy b s) = OSMemFreeList s" "OSMemMem (set_rdy b s) = OSMemMem s"
  "OSQFreeList (set_rdy b s) = OSQFreeList s" "OSQMem (set_rdy b s) = OSQMem s"
  "OSTime (set_rdy b s) = OSTime s" "app_mem (set_rdy b s) = app_mem s"
  by (simp_all add: set_rdy_def rdy_def)

lemma set_ev_wait_sel [simp]:
  "ev_wait (set_ev_wait b e) = b" "OSEventType (set_ev_wait b e) = OSEventType e"
  "OSEventPtr (set_ev_wait b e) = OSEventPtr e" "OSEventCnt (set_ev_wait b e) = OSEventCnt e"
  by (simp_all add: set_ev_wait_def ev_wait_def)

lemma ev_wait_upd [simp]:
  "ev_wait (e\<lparr>OSEventType := ty\<rparr>) = ev_wait e" "ev_wait (e\<lparr>OSEventPtr := q\<rparr>) = ev_wait e"
  "ev_wait (e\<lparr>OSEventCnt := c\<rparr>) = ev_wait e"
  by (simp_all add: ev_wait_def)

lemma rdy_upd [simp]:
  "rdy (s\<lparr>OSCtxSwCtr := v_OSCtxSwCtr\<rparr>) = rdy s"
  "rdy (s\<lparr>OSEventFreeList := v_OSEventFreeList\<rparr>) = rdy s"
  "rdy (s\<lparr>OSEventMem := v_OSEventMem\<rparr>) = rdy s"
  "rdy (s\<lparr>OSIntNesting := v_OSIntNesting\<rparr>) = rdy s"
  "rdy (s\<lparr>OSLockNesting := v_OSLockNesting\<rparr>) = rdy s"
  "rdy (s\<lparr>OSPrioCur := v_OSPrioCur\<rparr>) = rdy s"
  "rdy (s\<lparr>OSPrioHighRdy := v_OSPrioHighRdy\<rparr>) = rdy s"
  "rdy (s\<lparr>OSRunning := v_OSRunning\<rparr>) = rdy s"
  "rdy (s\<lparr>OSTaskCtr := v_OSTaskCtr\<rparr>) = rdy s"
  "rdy (s\<lparr>OSTCBCur := v_OSTCBCur\<rparr>) = rdy s"
  "rdy (s\<lparr>OSTCBFreeList := v_OSTCBFreeList\<rparr>) = rdy s"
  "rdy (s\<lparr>OSTCBHighRdy := v_OSTCBHighRdy\<rparr>) = rdy s"
  "rdy (s\<lparr>OSTCBList := v_OSTCBList\<rparr>) = rdy s"
  "rdy (s\<lparr>OSTCBPrioTbl := v_OSTCBPrioTbl\<rparr>) = rdy s"
  "rdy (s\<lparr>OSTCBMem := v_OSTCBMem\<rparr>) = rdy s"
  "rdy (s\<lparr>OSMemFreeList := v_OSMemFreeList\<rparr>) = rdy s"
  "rdy (s\<lparr>OSMemMem := v_OSMemMem\<rparr>) = rdy s"
  "rdy (s\<lparr>OSQFreeList := v_OSQFreeList\<rparr>) = rdy s"
  "rdy (s\<lparr>OSQMem := v_OSQMem\<rparr>) = rdy s"
  "rdy (s\<lparr>OSTime := v_OSTime\<rparr>) = rdy s"
  "rdy (s\<lparr>app_mem := v_app_mem\<rparr>) = rdy s"
  by (simp_all add: rdy_def)

text \<open>Updates of different parts commute; the ready list goes outermost.\<close>

lemma upd_comm:
  "upd_tcb q f (set_rdy b s) = set_rdy b (upd_tcb q f s)"
  "upd_event e g (set_rdy b s) = set_rdy b (upd_event e g s)"
  "upd_tcb q f (upd_event e g s) = upd_event e g (upd_tcb q f s)"
  by (rule os.equality; simp add: upd_defs)+

lemma upd_same:
  "upd_tcb q f (upd_tcb q h s) = upd_tcb q (\<lambda>t. f (h t)) s"
  "upd_event e g (upd_event e k s) = upd_event e (\<lambda>v. g (k v)) s"
  "set_rdy b (set_rdy c s) = set_rdy b s" "set_rdy (rdy s) s = s"
  by (simp_all add: upd_defs)

lemma set_rdy_id: "rdy s = b \<Longrightarrow> set_rdy b s = s"
  using upd_same(4) by auto

end
