(* ===== verification/OS_Core.thy ===== *)
theory OS_Core
  imports Kernel
begin

text \<open>
  The operations of \<open>ucosII/Source/os_core.c\<close> and of the context switch in
  \<open>ucosII/Ports/os_cpu_a.asm\<close>. \<open>OS_TASK_SW\<close>/\<open>OSIntCtxSw\<close> raise the PendSV exception,
  whose handler runs as soon as no other exception is active and makes
  \<open>OSPrioHighRdy\<close>/\<open>OSTCBHighRdy\<close> current: here the switch is immediate. What the other
  tasks do until the caller is current again is an argument of the blocking services.
\<close>

section \<open>Ready list and wait list updates\<close>

text \<open>\<open>OSRdyGrp |= ptcb->OSTCBBitY; OSRdyTbl[ptcb->OSTCBY] |= ptcb->OSTCBBitX;\<close>\<close>

definition make_ready :: "ptr \<Rightarrow> os \<Rightarrow> os" where
  "make_ready p s =
     (let t = OSTCBMem s p
      in set_rdy (bm_set (OSTCBBitY t) (OSTCBY t) (OSTCBBitX t) (rdy s)) s)"

text \<open>\<open>OSRdyTbl[y] &= ~ptcb->OSTCBBitX; if (OSRdyTbl[y] == 0) OSRdyGrp &= ~ptcb->OSTCBBitY;\<close>\<close>

definition make_unready :: "ptr \<Rightarrow> os \<Rightarrow> os" where
  "make_unready p s =
     (let t = OSTCBMem s p
      in set_rdy (bm_clr (OSTCBBitY t) (OSTCBY t) (OSTCBBitX t) (rdy s)) s)"

definition OS_EventTaskWait :: "ptr \<Rightarrow> os \<Rightarrow> os" where
  "OS_EventTaskWait pevent s =
     (let cur = OSTCBCur s;
          s1 = upd_tcb cur (\<lambda>t. t\<lparr>OSTCBEventPtr := pevent\<rparr>) s;
          t = OSTCBMem s1 cur;
          s2 = upd_event pevent
                 (\<lambda>e. set_ev_wait (bm_set (OSTCBBitY t) (OSTCBY t) (OSTCBBitX t) (ev_wait e)) e) s1
      in make_unready cur s2)"

definition OS_EventTaskRemove :: "ptr \<Rightarrow> ptr \<Rightarrow> os \<Rightarrow> os" where
  "OS_EventTaskRemove ptcb pevent s =
     (let t = OSTCBMem s ptcb;
          s1 = upd_event pevent
                 (\<lambda>e. set_ev_wait (bm_clr (OSTCBBitY t) (OSTCBY t) (OSTCBBitX t) (ev_wait e)) e) s
      in upd_tcb ptcb (\<lambda>t. t\<lparr>OSTCBEventPtr := NULL\<rparr>) s1)"

definition OS_EventTaskRdy :: "ptr \<Rightarrow> ptr \<Rightarrow> u8 \<Rightarrow> u8 \<Rightarrow> os \<Rightarrow> u8 \<times> os" where
  "OS_EventTaskRdy pevent pmsg msk pend_stat s =
     (let e = OSEventMem s pevent;
          y = OSUnMap (OSEventGrp e);
          x = OSUnMap (OSEventTbl e y);
          prio = push_bit 3 y + x;
          ptcb = OSTCBPrioTbl s prio;
          s1 = upd_tcb ptcb (\<lambda>t. t\<lparr>OSTCBDly := 0, OSTCBMsg := pmsg,
                                   OSTCBStat := OSTCBStat t AND NOT msk,
                                   OSTCBStatPend := pend_stat\<rparr>) s;
          t = OSTCBMem s1 ptcb;
          s2 = (if OSTCBStat t AND OS_STAT_SUSPEND = OS_STAT_RDY
                then set_rdy (bm_set (OSTCBBitY t) y (OSTCBBitX t) (rdy s1)) s1
                else s1)
      in (prio, OS_EventTaskRemove ptcb pevent s2))"

text \<open>
  The loop \<open>while (pevent->OSEventGrp != 0u) OS_EventTaskRdy(...)\<close> of the delete, abort
  and broadcast services, counting its iterations (\<open>nbr_tasks\<close>). A wait list holds at
  most 64 priorities and each iteration removes one, so the fuel 64 the services pass
  lets the loop end by its own guard (\<open>OS_EventRdyAll_empties\<close> in \<open>OS_Invariant\<close>).
\<close>

fun OS_EventRdyAll :: "nat \<Rightarrow> ptr \<Rightarrow> ptr \<Rightarrow> u8 \<Rightarrow> u8 \<Rightarrow> os \<Rightarrow> u8 \<times> os" where
  "OS_EventRdyAll 0 pevent pmsg msk pend_stat s = (0, s)"
| "OS_EventRdyAll (Suc n) pevent pmsg msk pend_stat s =
     (if OSEventGrp (OSEventMem s pevent) \<noteq> 0
      then let (c, s') = OS_EventRdyAll n pevent pmsg msk pend_stat
                           (snd (OS_EventTaskRdy pevent pmsg msk pend_stat s))
           in (c + 1, s')
      else (0, s))"

definition OS_EventWaitListInit :: "ptr \<Rightarrow> os \<Rightarrow> os" where
  "OS_EventWaitListInit pevent =
     upd_event pevent (\<lambda>e. e\<lparr>OSEventGrp := 0,
       OSEventTbl := fold (\<lambda>i tbl. tbl(word_of_nat i := 0)) [0..<8] (OSEventTbl e)\<rparr>)"

section \<open>Scheduler\<close>

definition OS_SchedNew :: "os \<Rightarrow> os" where
  "OS_SchedNew s =
     (let y = OSUnMap (OSRdyGrp s)
      in s\<lparr>OSPrioHighRdy := push_bit 3 y + OSUnMap (OSRdyTbl s y)\<rparr>)"

text \<open>\<open>PendSV_Handler\<close>: \<open>OSPrioCur = OSPrioHighRdy; OSTCBCur = OSTCBHighRdy;\<close>\<close>

definition OSCtxSw :: "os \<Rightarrow> os" where
  "OSCtxSw s = s\<lparr>OSPrioCur := OSPrioHighRdy s, OSTCBCur := OSTCBHighRdy s\<rparr>"

definition sched_switch :: "os \<Rightarrow> os" where
  "sched_switch s =
     (let s1 = OS_SchedNew s;
          s2 = s1\<lparr>OSTCBHighRdy := OSTCBPrioTbl s1 (OSPrioHighRdy s1)\<rparr>
      in if OSPrioHighRdy s2 \<noteq> OSPrioCur s2
         then OSCtxSw (s2\<lparr>OSCtxSwCtr := OSCtxSwCtr s2 + 1\<rparr>)
         else s2)"

definition OS_Sched :: "os \<Rightarrow> os" where
  "OS_Sched s =
     (if OSIntNesting s = 0
      then if OSLockNesting s = 0 then sched_switch s else s
      else s)"

definition OSIntEnter :: "os \<Rightarrow> os" where
  "OSIntEnter s =
     (if OSRunning s
      then if OSIntNesting s < 255 then s\<lparr>OSIntNesting := OSIntNesting s + 1\<rparr> else s
      else s)"

definition OSIntExit :: "os \<Rightarrow> os" where
  "OSIntExit s =
     (if OSRunning s
      then let s1 = (if OSIntNesting s > 0 then s\<lparr>OSIntNesting := OSIntNesting s - 1\<rparr> else s)
           in if OSIntNesting s1 = 0
              then if OSLockNesting s1 = 0 then sched_switch s1 else s1
              else s1
      else s)"

definition OSSchedLock :: "os \<Rightarrow> os" where
  "OSSchedLock s =
     (if OSRunning s
      then if OSIntNesting s = 0
           then if OSLockNesting s < 255 then s\<lparr>OSLockNesting := OSLockNesting s + 1\<rparr> else s
           else s
      else s)"

definition OSSchedUnlock :: "os \<Rightarrow> os" where
  "OSSchedUnlock s =
     (if OSRunning s
      then if OSIntNesting s = 0
           then if OSLockNesting s > 0
                then let s1 = s\<lparr>OSLockNesting := OSLockNesting s - 1\<rparr>
                     in if OSLockNesting s1 = 0 then OS_Sched s1 else s1
                else s
           else s
      else s)"

text \<open>\<open>OSStartHighRdy\<close> of the port sets \<open>OSRunning\<close> and raises PendSV for the first task.\<close>

definition OSStartHighRdy :: "os \<Rightarrow> os" where
  "OSStartHighRdy s = OSCtxSw (s\<lparr>OSRunning := True\<rparr>)"

definition OSStart :: "os \<Rightarrow> os" where
  "OSStart s =
     (if \<not> OSRunning s
      then let s1 = OS_SchedNew s;
               s2 = s1\<lparr>OSPrioCur := OSPrioHighRdy s1\<rparr>;
               s3 = s2\<lparr>OSTCBHighRdy := OSTCBPrioTbl s2 (OSPrioHighRdy s2)\<rparr>;
               s4 = s3\<lparr>OSTCBCur := OSTCBHighRdy s3\<rparr>
           in OSStartHighRdy s4
      else s)"

section \<open>Clock tick\<close>

text \<open>The body of the loop of \<open>OSTimeTick\<close> for one task.\<close>

definition tick_task :: "ptr \<Rightarrow> os \<Rightarrow> os" where
  "tick_task p s =
     (if OSTCBDly (OSTCBMem s p) \<noteq> 0
      then let s1 = upd_tcb p (\<lambda>t. t\<lparr>OSTCBDly := OSTCBDly t - 1\<rparr>) s
           in if OSTCBDly (OSTCBMem s1 p) = 0
              then let s2 = (if OSTCBStat (OSTCBMem s1 p) AND OS_STAT_PEND_ANY \<noteq> OS_STAT_RDY
                             then upd_tcb p (\<lambda>t. t\<lparr>OSTCBStat := OSTCBStat t AND NOT OS_STAT_PEND_ANY,
                                                   OSTCBStatPend := OS_STAT_PEND_TO\<rparr>) s1
                             else upd_tcb p (\<lambda>t. t\<lparr>OSTCBStatPend := OS_STAT_PEND_OK\<rparr>) s1)
                   in if OSTCBStat (OSTCBMem s2 p) AND OS_STAT_SUSPEND = OS_STAT_RDY
                      then make_ready p s2 else s2
              else s1
      else s)"

text \<open>
  The walk along \<open>OSTCBList\<close> up to the idle task. Every task has one of the 11 control
  blocks and is in the list once, so fuel 11 reaches the idle task.
\<close>

fun tick_loop :: "nat \<Rightarrow> ptr \<Rightarrow> os \<Rightarrow> os" where
  "tick_loop 0 ptcb s = s"
| "tick_loop (Suc n) ptcb s =
     (if OSTCBPrio (OSTCBMem s ptcb) \<noteq> OS_TASK_IDLE_PRIO
      then let s' = tick_task ptcb s in tick_loop n (OSTCBNext (OSTCBMem s' ptcb)) s'
      else s)"

definition OSTimeTick :: "os \<Rightarrow> os" where
  "OSTimeTick s =
     (let s1 = s\<lparr>OSTime := OSTime s + 1\<rparr>
      in if OSRunning s1
         then tick_loop (OS_MAX_TASKS + OS_N_SYS_TASKS) (OSTCBList s1) s1
         else s1)"

text \<open>One round of the endless loop of the idle task.\<close>

definition OS_TaskIdle_body :: "os \<Rightarrow> os" where
  "OS_TaskIdle_body s = s\<lparr>OSIdleCtr := OSIdleCtr s + 1\<rparr>"

definition OSVersion :: u16 where
  "OSVersion = 29211"

section \<open>Initialisation\<close>

definition OS_InitMisc :: "os \<Rightarrow> os" where
  "OS_InitMisc s = s\<lparr>OSTime := 0, OSIntNesting := 0, OSLockNesting := 0, OSTaskCtr := 0,
     OSRunning := False, OSCtxSwCtr := 0, OSIdleCtr := 0\<rparr>"

definition OS_InitRdyList :: "os \<Rightarrow> os" where
  "OS_InitRdyList s = s\<lparr>OSRdyGrp := 0,
     OSRdyTbl := fold (\<lambda>i tbl. tbl(word_of_nat i := 0)) [0..<8] (OSRdyTbl s),
     OSPrioCur := 0, OSPrioHighRdy := 0, OSTCBHighRdy := NULL, OSTCBCur := NULL\<rparr>"

text \<open>\<open>OS_MemClr\<close> over an array of control blocks leaves blocks of zero bytes.\<close>

definition zero_tcb :: os_tcb where
  "zero_tcb = \<lparr>OSTCBStkPtr = NULL, OSTCBNext = NULL, OSTCBPrev = NULL, OSTCBEventPtr = NULL,
     OSTCBMsg = NULL, OSTCBDly = 0, OSTCBStat = 0, OSTCBStatPend = 0, OSTCBPrio = 0, OSTCBX = 0,
     OSTCBY = 0, OSTCBBitX = 0, OSTCBBitY = 0, OSTCBDelReq = 0, OSTCBTaskName = []\<rparr>"

definition zero_event :: os_event where
  "zero_event = \<lparr>OSEventType = OS_EVENT_TYPE_UNUSED, OSEventPtr = NULL, OSEventCnt = 0,
     OSEventGrp = 0, OSEventTbl = (\<lambda>_. 0)\<rparr>"

definition OS_InitTCBList :: "os \<Rightarrow> os" where
  "OS_InitTCBList s =
     (let n = OS_MAX_TASKS + OS_N_SYS_TASKS;
          m0 = fold (\<lambda>ix m. m(tcb_addr ix := zero_tcb)) [0..<n] (OSTCBMem s);
          m1 = fold (\<lambda>ix m. m(tcb_addr ix := (m (tcb_addr ix))
                 \<lparr>OSTCBNext := tcb_addr (ix + 1), OSTCBTaskName := ''?''\<rparr>)) [0..<n - 1] m0;
          last = tcb_addr (n - 1);
          m2 = m1(last := (m1 last)\<lparr>OSTCBNext := NULL, OSTCBTaskName := ''?''\<rparr>)
      in s\<lparr>OSTCBMem := m2, OSTCBPrioTbl := (\<lambda>_. NULL), OSTCBList := NULL,
           OSTCBFreeList := tcb_addr 0\<rparr>)"

definition OS_InitEventList :: "os \<Rightarrow> os" where
  "OS_InitEventList s =
     (let m0 = fold (\<lambda>ix m. m(event_addr ix := zero_event)) [0..<OS_MAX_EVENTS] (OSEventMem s);
          m1 = fold (\<lambda>ix m. m(event_addr ix := (m (event_addr ix))
                 \<lparr>OSEventType := OS_EVENT_TYPE_UNUSED, OSEventPtr := event_addr (ix + 1)\<rparr>))
                 [0..<OS_MAX_EVENTS - 1] m0;
          last = event_addr (OS_MAX_EVENTS - 1);
          m2 = m1(last := (m1 last)\<lparr>OSEventType := OS_EVENT_TYPE_UNUSED, OSEventPtr := NULL\<rparr>)
      in s\<lparr>OSEventMem := m2, OSEventFreeList := event_addr 0\<rparr>)"

text \<open>
  \<open>OS_TCBInit\<close> with the arguments that the configuration uses: take a control block from
  the free list, fill it in, enter it in the priority table, prepend it to the task list
  and make the task ready.
\<close>

definition tcb_coords :: "u8 \<Rightarrow> os_tcb \<Rightarrow> os_tcb" where
  "tcb_coords prio t = t\<lparr>OSTCBY := prio_y prio, OSTCBX := prio_x prio,
     OSTCBBitY := prio_bit (prio_y prio), OSTCBBitX := prio_bit (prio_x prio)\<rparr>"

definition OS_TCBInit :: "u8 \<Rightarrow> ptr \<Rightarrow> os \<Rightarrow> u8 \<times> os" where
  "OS_TCBInit prio ptos s =
     (let ptcb = OSTCBFreeList s
      in if ptcb \<noteq> NULL
         then let s1 = s\<lparr>OSTCBFreeList := OSTCBNext (OSTCBMem s ptcb)\<rparr>;
                  s2 = upd_tcb ptcb (\<lambda>t. (tcb_coords prio (t\<lparr>OSTCBStkPtr := ptos, OSTCBPrio := prio,
                         OSTCBStat := OS_STAT_RDY, OSTCBStatPend := OS_STAT_PEND_OK, OSTCBDly := 0,
                         OSTCBDelReq := OS_ERR_NONE\<rparr>))\<lparr>OSTCBEventPtr := NULL, OSTCBMsg := NULL,
                         OSTCBTaskName := ''?''\<rparr>) s1;
                  s3 = s2\<lparr>OSTCBPrioTbl := (OSTCBPrioTbl s2)(prio := ptcb)\<rparr>;
                  s4 = upd_tcb ptcb (\<lambda>t. t\<lparr>OSTCBNext := OSTCBList s3, OSTCBPrev := NULL\<rparr>) s3;
                  s5 = (if OSTCBList s4 \<noteq> NULL
                        then upd_tcb (OSTCBList s4) (\<lambda>t. t\<lparr>OSTCBPrev := ptcb\<rparr>) s4 else s4);
                  s6 = make_ready ptcb (s5\<lparr>OSTCBList := ptcb\<rparr>)
              in (OS_ERR_NONE, s6\<lparr>OSTaskCtr := OSTaskCtr s6 + 1\<rparr>)
         else (OS_ERR_TASK_NO_MORE_TCB, s))"

end
