(* ===== verification/Pool.thy ===== *)
theory Pool
  imports Prelude
begin

text \<open>
  Linked structures in memory: the interface of a free list, which event control blocks,
  queue control blocks, task control blocks, partition control blocks and the blocks of a
  partition all implement, and the doubly linked list of tasks.
\<close>

section \<open>The interface of a free list\<close>

text \<open>
  \<open>first\<close> is the head pointer, \<open>link\<close> the field that chains the free blocks, \<open>take\<close> removes
  the head, \<open>give\<close> puts a block in front.
\<close>

locale free_list =
  fixes first :: "'s \<Rightarrow> ptr"
    and link :: "'s \<Rightarrow> ptr \<Rightarrow> ptr"
    and take :: "'s \<Rightarrow> 's"
    and give :: "ptr \<Rightarrow> 's \<Rightarrow> 's"
  assumes first_take: "first s \<noteq> NULL \<Longrightarrow> first (take s) = link s (first s)"
    and link_take: "first s \<noteq> NULL \<Longrightarrow> p \<noteq> first s \<Longrightarrow> link (take s) p = link s p"
    and first_give: "p \<noteq> NULL \<Longrightarrow> first (give p s) = p"
    and link_give: "p \<noteq> NULL \<Longrightarrow> link (give p s) = (link s)(p := first s)"
begin

lemma take_chain:
  assumes "chain (link s) (first s) (x # xs)" "x \<notin> set xs"
  shows "first s = x" "chain (link (take s)) (first (take s)) xs"
proof -
  show x: "first s = x" using assms by simp
  have "chain (link s) (link s x) xs" "x \<noteq> NULL" using assms by auto
  moreover have "chain (link (take s)) (link s x) xs \<longleftrightarrow> chain (link s) (link s x) xs"
    using assms(2) x \<open>x \<noteq> NULL\<close> by (intro chain_cong link_take) auto
  ultimately show "chain (link (take s)) (first (take s)) xs" using x by (simp add: first_take)
qed

lemma give_chain:
  assumes "chain (link s) (first s) xs" "p \<notin> set xs" "p \<noteq> NULL"
  shows "chain (link (give p s)) (first (give p s)) (p # xs)"
  using assms by (simp add: first_give link_give)

lemma empty_iff: "chain (link s) (first s) xs \<Longrightarrow> first s = NULL \<longleftrightarrow> xs = []"
  by (cases xs) auto

lemma nonempty:
  assumes "chain (link s) (first s) xs" "first s \<noteq> NULL"
  obtains ys where "xs = first s # ys"
  using chain_nonempty [OF assms] by auto

lemma give_take:
  assumes "p \<noteq> NULL"
  shows "first (give p s) = p" "first (take (give p s)) = first s"
  using assms by (simp_all add: first_give first_take link_give)

text \<open>Last in, first out: what was given last is taken first, any number of times.\<close>

lemma give_all_chain:
  assumes "chain (link s) (first s) xs" "distinct (ps @ xs)" "NULL \<notin> set ps"
  shows "chain (link (fold give ps s)) (first (fold give ps s)) (rev ps @ xs)"
  using assms
proof (induction ps arbitrary: s xs)
  case (Cons p ps)
  have "chain (link (give p s)) (first (give p s)) (p # xs)"
    using Cons.prems by (intro give_chain) auto
  from Cons.IH [OF this] Cons.prems show ?case by simp
qed simp

lemma take_all:
  assumes "chain (link s) (first s) (ps @ xs)" "distinct (ps @ xs)"
  shows "chain (link ((take ^^ length ps) s)) (first ((take ^^ length ps) s)) xs"
  using assms
proof (induction ps arbitrary: s)
  case (Cons p ps)
  have "chain (link (take s)) (first (take s)) (ps @ xs)"
    using take_chain(2) [of s p "ps @ xs"] Cons.prems by simp
  from Cons.IH [OF this] Cons.prems show ?case by (simp add: funpow_swap1)
qed simp

end

section \<open>Doubly linked lists\<close>

fun prevs :: "(ptr \<Rightarrow> ptr) \<Rightarrow> ptr \<Rightarrow> ptr list \<Rightarrow> bool" where
  "prevs prv p [] \<longleftrightarrow> True"
| "prevs prv p (x # xs) \<longleftrightarrow> prv x = p \<and> prevs prv x xs"

definition dlist :: "(ptr \<Rightarrow> ptr) \<Rightarrow> (ptr \<Rightarrow> ptr) \<Rightarrow> ptr \<Rightarrow> ptr list \<Rightarrow> bool" where
  "dlist nxt prv p xs \<longleftrightarrow> chain nxt p xs \<and> prevs prv NULL xs \<and> distinct xs"

lemma prevs_cong: "(\<And>x. x \<in> set xs \<Longrightarrow> f x = g x) \<Longrightarrow> prevs f p xs \<longleftrightarrow> prevs g p xs"
  by (induction xs arbitrary: p) auto

lemma prevs_upd_notin [simp]: "a \<notin> set xs \<Longrightarrow> prevs (f(a := v)) p xs \<longleftrightarrow> prevs f p xs"
  by (rule prevs_cong) auto

lemma dlist_not_NULL: "dlist nxt prv p xs \<Longrightarrow> NULL \<notin> set xs"
  using chain_not_NULL by (auto simp: dlist_def)

lemma dlist_cong:
  assumes "\<And>x. x \<in> set xs \<Longrightarrow> n x = n' x" "\<And>x. x \<in> set xs \<Longrightarrow> v x = v' x"
  shows "dlist n v p xs \<longleftrightarrow> dlist n' v' p xs"
  using chain_cong [of xs n n' p] prevs_cong [of xs v v' NULL] assms by (simp add: dlist_def)

lemma dlist_push:
  assumes "dlist nxt prv p xs" "q \<notin> set xs" "q \<noteq> NULL"
  shows "dlist (nxt(q := p)) (if p \<noteq> NULL then prv(q := NULL, p := q) else prv(q := NULL)) q (q # xs)"
proof (cases xs)
  case Nil
  then show ?thesis using assms by (auto simp: dlist_def)
next
  case (Cons x ys)
  then show ?thesis using assms by (auto simp: dlist_def)
qed

lemma chain_cut:
  assumes "chain nxt p (as @ x # y # bs)" "distinct (as @ x # y # bs)" "as \<noteq> []"
  shows "chain (nxt(last as := y)) p (as @ y # bs)"
  using assms
proof (induction as arbitrary: p)
  case (Cons a as)
  show ?case
  proof (cases as)
    case Nil
    then have "a \<notin> set (y # bs)" "p = a" "a \<noteq> NULL" "chain nxt y (y # bs)" using Cons.prems by auto
    then have "chain (nxt(a := y)) y (y # bs)" using chain_upd_notin by blast
    then have "chain (nxt(a := y)) p (a # y # bs)"
      using \<open>p = a\<close> \<open>a \<noteq> NULL\<close> by (subst chain.simps) (simp del: chain.simps)
    with Nil show ?thesis by (simp del: chain.simps fun_upd_apply)
  next
    case (Cons b cs)
    then show ?thesis using Cons.IH Cons.prems by auto
  qed
qed simp

lemma prevs_cut:
  assumes "prevs prv p (as @ x # y # bs)" "distinct (as @ x # y # bs)"
  shows "prevs (prv(y := if as = [] then p else last as)) p (as @ y # bs)"
  using assms
proof (induction as arbitrary: p)
  case (Cons a as)
  then show ?case by (cases as) auto
qed auto

lemma chain_at: "chain nxt p (as @ x # y # bs) \<Longrightarrow> nxt x = y"
  by (induction as arbitrary: p) auto

lemma chain_first: "chain nxt p (x # xs) \<Longrightarrow> p = x"
  by simp

lemma prevs_at: "prevs prv p (as @ x # xs) \<Longrightarrow> prv x = (if as = [] then p else last as)"
  by (induction as arbitrary: p) auto

text \<open>Unlinking a block that is not the last.\<close>

lemma dlist_unlink:
  assumes dl: "dlist nxt prv p (as @ x # y # bs)" 
  shows "dlist (if as = [] then nxt else nxt(last as := y)) (prv(y := if as = [] then NULL else last as))
    (if as = [] then y else p) (as @ y # bs)"
proof (cases "as = []")
  case True
  then show ?thesis using assms prevs_cut [of prv NULL as x y bs] by (auto simp: dlist_def)
next
  case False
  then show ?thesis using assms chain_cut [of nxt p as x y bs] prevs_cut [of prv NULL as x y bs]
    by (auto simp: dlist_def)
qed

end
