(* ===== verification/OS_Event.thy ===== *)
theory OS_Event
  imports OS_Core Pool
begin

text \<open>
  Code that \<open>os_sem.c\<close>, \<open>os_mbox.c\<close>, \<open>os_q.c\<close> and \<open>os_mutex.c\<close> repeat word
  for word: taking an event control block from the free list and giving it back, blocking
  the current task on an event and classifying its wake-up, and the three services whose
  text differs only in the event type and the status bit (delete, abort, query).

  A blocking service is split where the caller gives up the processor: \<open>.._enter\<close> is the
  code up to and including \<open>OS_Sched\<close>, \<open>.._resume\<close> the code after it. The service itself
  takes what the other tasks and the interrupts do in between as the argument \<open>others\<close>.
\<close>

datatype 'a call = Ret 'a | Blocked

section \<open>Event control blocks\<close>

definition event_alloc :: "os \<Rightarrow> ptr \<times> os" where
  "event_alloc s =
     (let pevent = OSEventFreeList s
      in (pevent, if OSEventFreeList s \<noteq> NULL
                  then s\<lparr>OSEventFreeList := OSEventPtr (OSEventMem s (OSEventFreeList s))\<rparr>
                  else s))"

definition event_free :: "ptr \<Rightarrow> os \<Rightarrow> os" where
  "event_free pevent s =
     (upd_event pevent (\<lambda>e. e\<lparr>OSEventType := OS_EVENT_TYPE_UNUSED,
        OSEventPtr := OSEventFreeList s, OSEventCnt := 0\<rparr>) s)\<lparr>OSEventFreeList := pevent\<rparr>"

interpretation ev_pool: free_list OSEventFreeList "\<lambda>s a. OSEventPtr (OSEventMem s a)"
    "\<lambda>s. snd (event_alloc s)" event_free
  by unfold_locales (auto simp: event_alloc_def event_free_def Let_def)

text \<open>The body of a create service for an event of type \<open>ty\<close>.\<close>

definition event_create :: "u8 \<Rightarrow> u16 \<Rightarrow> ptr \<Rightarrow> os \<Rightarrow> ptr \<times> os" where
  "event_create ty cnt p s =
     (if OSIntNesting s > 0 then (NULL, s)
      else let (pevent, s1) = event_alloc s
           in (pevent, if pevent \<noteq> NULL
                       then OS_EventWaitListInit pevent
                              (upd_event pevent (\<lambda>e. e\<lparr>OSEventType := ty, OSEventCnt := cnt,
                                                       OSEventPtr := p\<rparr>) s1)
                       else s1))"

section \<open>Blocking and waking up\<close>

definition pend_block :: "u8 \<Rightarrow> u32 \<Rightarrow> ptr \<Rightarrow> os \<Rightarrow> os" where
  "pend_block stat timeout pevent s =
     OS_Sched (OS_EventTaskWait pevent
       (upd_tcb (OSTCBCur s) (\<lambda>t. t\<lparr>OSTCBStat := OSTCBStat t OR stat,
          OSTCBStatPend := OS_STAT_PEND_OK, OSTCBDly := timeout\<rparr>) s))"

text \<open>
  The \<open>switch (OSTCBCur->OSTCBStatPend)\<close> and the clean-up after it; \<open>OSTCBMsg\<close> is read
  and cleared by the message services, which take it from the first component.
\<close>

definition pend_wakeup :: "ptr \<Rightarrow> os \<Rightarrow> u8 \<times> os" where
  "pend_wakeup pevent s =
     (let cur = OSTCBCur s;
          sp = OSTCBStatPend (OSTCBMem s cur);
          (err, s1) = (if sp = OS_STAT_PEND_OK then (OS_ERR_NONE, s)
                       else if sp = OS_STAT_PEND_ABORT then (OS_ERR_PEND_ABORT, s)
                       else (OS_ERR_TIMEOUT, OS_EventTaskRemove cur pevent s))
      in (err, upd_tcb cur (\<lambda>t. t\<lparr>OSTCBStat := OS_STAT_RDY, OSTCBStatPend := OS_STAT_PEND_OK,
                                  OSTCBEventPtr := NULL\<rparr>) s1))"

definition pend_wakeup_msg :: "ptr \<Rightarrow> os \<Rightarrow> (ptr \<times> u8) \<times> os" where
  "pend_wakeup_msg pevent s =
     (let cur = OSTCBCur s;
          sp = OSTCBStatPend (OSTCBMem s cur);
          pmsg = (if sp = OS_STAT_PEND_OK then OSTCBMsg (OSTCBMem s cur) else NULL);
          (err, s1) = pend_wakeup pevent s
      in ((pmsg, err), upd_tcb cur (\<lambda>t. t\<lparr>OSTCBMsg := NULL\<rparr>) s1))"

section \<open>Delete and abort\<close>

definition OS_EventDel ::
  "u8 \<Rightarrow> u8 \<Rightarrow> (ptr \<Rightarrow> os \<Rightarrow> os) \<Rightarrow> ptr \<Rightarrow> u8 \<Rightarrow> os \<Rightarrow> ptr \<times> u8 \<times> os" where
  "OS_EventDel ty msk reclaim pevent opt s =
     (if OSEventType (OSEventMem s pevent) \<noteq> ty then (pevent, OS_ERR_EVENT_TYPE, s)
      else if OSIntNesting s > 0 then (pevent, OS_ERR_DEL_ISR, s)
      else let tasks_waiting = (OSEventGrp (OSEventMem s pevent) \<noteq> 0)
           in if opt = OS_DEL_NO_PEND
              then if \<not> tasks_waiting
                   then (NULL, OS_ERR_NONE, event_free pevent (reclaim pevent s))
                   else (pevent, OS_ERR_TASK_WAITING, s)
              else if opt = OS_DEL_ALWAYS
              then let s1 = snd (OS_EventRdyAll 64 pevent NULL msk OS_STAT_PEND_ABORT s);
                       s2 = event_free pevent (reclaim pevent s1)
                   in (NULL, OS_ERR_NONE, if tasks_waiting then OS_Sched s2 else s2)
              else (pevent, OS_ERR_INVALID_OPT, s))"

definition OS_EventPendAbort :: "u8 \<Rightarrow> u8 \<Rightarrow> ptr \<Rightarrow> u8 \<Rightarrow> os \<Rightarrow> u8 \<times> u8 \<times> os" where
  "OS_EventPendAbort ty msk pevent opt s =
     (if OSEventType (OSEventMem s pevent) \<noteq> ty then (0, OS_ERR_EVENT_TYPE, s)
      else if OSEventGrp (OSEventMem s pevent) \<noteq> 0
      then let (nbr_tasks, s1) =
                 (if opt = OS_PEND_OPT_BROADCAST
                  then OS_EventRdyAll 64 pevent NULL msk OS_STAT_PEND_ABORT s
                  else (1, snd (OS_EventTaskRdy pevent NULL msk OS_STAT_PEND_ABORT s)))
           in (nbr_tasks, OS_ERR_PEND_ABORT, OS_Sched s1)
      else (0, OS_ERR_NONE, s))"

text \<open>The posting half shared by the message services: wake one waiter or all of them.\<close>

definition post_wake :: "u8 \<Rightarrow> ptr \<Rightarrow> ptr \<Rightarrow> u8 \<Rightarrow> os \<Rightarrow> os" where
  "post_wake msk pevent pmsg opt s =
     (let s1 = (if opt AND OS_POST_OPT_BROADCAST \<noteq> 0
                then snd (OS_EventRdyAll 64 pevent pmsg msk OS_STAT_PEND_OK s)
                else snd (OS_EventTaskRdy pevent pmsg msk OS_STAT_PEND_OK s))
      in if opt AND OS_POST_OPT_NO_SCHED = 0 then OS_Sched s1 else s1)"

text \<open>The copy of the eight bytes of a wait list in the query services.\<close>

definition copy_tbl :: "os_event \<Rightarrow> u8 list" where
  "copy_tbl e = map (\<lambda>i. OSEventTbl e (word_of_nat i)) [0..<8]"

end
