(* ===== verification/OS_Invariant.thy ===== *)
theory OS_Invariant
  imports OS_Event
begin

text \<open>
  The invariant that ties the kernel's redundant data together: the priority table, the
  control blocks, the ready list and the wait lists of the events. One task changes at a
  time, so the invariant is a conjunction of one condition per priority, and every
  operation is proved by showing which priority it touches.
\<close>

section \<open>The invariant\<close>

definition is_task :: "ptr \<Rightarrow> bool" where
  "is_task q \<longleftrightarrow> q \<noteq> NULL \<and> q \<noteq> OS_TCB_RESERVED"

definition events :: "ptr set" where
  "events = event_addr ` {..<OS_MAX_EVENTS}"

definition ready :: "os \<Rightarrow> u8 set" where
  "ready s = bm_prios (rdy s)"

definition waiting :: "os \<Rightarrow> ptr \<Rightarrow> u8 set" where
  "waiting s e = bm_prios (ev_wait (OSEventMem s e))"

definition ev_type :: "os \<Rightarrow> ptr \<Rightarrow> u8" where
  "ev_type s e = OSEventType (OSEventMem s e)"

text \<open>The status bit of a task that waits on an event of a type.\<close>

definition ev_bit :: "u8 \<Rightarrow> u8" where
  "ev_bit ty = (if ty = OS_EVENT_TYPE_SEM then OS_STAT_SEM
                else if ty = OS_EVENT_TYPE_MBOX then OS_STAT_MBOX
                else if ty = OS_EVENT_TYPE_Q then OS_STAT_Q
                else if ty = OS_EVENT_TYPE_MUTEX then OS_STAT_MUTEX else 0)"

definition stats :: "u8 set" where
  "stats = {0, 1, 2, 4, 16, 8, 9, 10, 12, 24}"

definition tcb_wf :: "u8 \<Rightarrow> os_tcb \<Rightarrow> bool" where
  "tcb_wf p t \<longleftrightarrow> OSTCBPrio t = p \<and> OSTCBY t = prio_y p \<and> OSTCBX t = prio_x p
     \<and> OSTCBBitY t = prio_bit (prio_y p) \<and> OSTCBBitX t = prio_bit (prio_x p)"

text \<open>
  The control block of priority \<open>p\<close> against the ready list and the wait lists: ready means
  no status bit and no delay; the wait lists that hold \<open>p\<close> are exactly the one
  \<open>OSTCBEventPtr\<close> names; a task with an event either has that event's status bit or has
  timed out and not run since.
\<close>

definition tcb_ok :: "os \<Rightarrow> u8 \<Rightarrow> os_tcb \<Rightarrow> bool" where
  "tcb_ok s p t \<longleftrightarrow> tcb_wf p t \<and> OSTCBStat t \<in> stats
     \<and> (p \<in> ready s \<longleftrightarrow> OSTCBStat t = 0 \<and> OSTCBDly t = 0)
     \<and> (\<forall>e\<in>events. p \<in> waiting s e \<longleftrightarrow> OSTCBEventPtr t = e)
     \<and> (if OSTCBEventPtr t = NULL then OSTCBStat t AND OS_STAT_PEND_ANY = 0
        else OSTCBEventPtr t \<in> events
           \<and> (OSTCBStat t AND OS_STAT_PEND_ANY = ev_bit (ev_type s (OSTCBEventPtr t))
                 \<and> OSTCBStat t AND OS_STAT_PEND_ANY \<noteq> 0
              \<or> OSTCBStat t AND OS_STAT_PEND_ANY = 0 \<and> OSTCBStatPend t = OS_STAT_PEND_TO
                 \<and> OSTCBDly t = 0))"

definition task_ok :: "os \<Rightarrow> u8 \<Rightarrow> bool" where
  "task_ok s p \<longleftrightarrow> (if is_task (OSTCBPrioTbl s p) then tcb_ok s p (OSTCBMem s (OSTCBPrioTbl s p))
                    else p \<notin> ready s \<and> (\<forall>e\<in>events. p \<notin> waiting s e))"

definition task_inv :: "os \<Rightarrow> bool" where
  "task_inv s \<longleftrightarrow> bm_ok (rdy s) \<and> (\<forall>e\<in>events. bm_ok (ev_wait (OSEventMem s e)))
     \<and> (\<forall>e\<in>events. ev_type s e = OS_EVENT_TYPE_UNUSED \<longrightarrow> waiting s e = {})
     \<and> (\<forall>p<64. task_ok s p)"

section \<open>What the invariant depends on\<close>

text \<open>The fields of a control block that the invariant reads.\<close>

definition tcb_data :: "os_tcb \<Rightarrow> u8 \<times> u8 \<times> u8 \<times> u8 \<times> u8 \<times> u8 \<times> u8 \<times> u32 \<times> ptr" where
  "tcb_data t = (OSTCBPrio t, OSTCBY t, OSTCBX t, OSTCBBitY t, OSTCBBitX t, OSTCBStat t,
     OSTCBStatPend t, OSTCBDly t, OSTCBEventPtr t)"

lemma tcb_data_upd [simp]:
  "tcb_data (t\<lparr>OSTCBNext := q\<rparr>) = tcb_data t" "tcb_data (t\<lparr>OSTCBPrev := q\<rparr>) = tcb_data t"
  "tcb_data (t\<lparr>OSTCBMsg := q\<rparr>) = tcb_data t" "tcb_data (t\<lparr>OSTCBStkPtr := q\<rparr>) = tcb_data t"
  "tcb_data (t\<lparr>OSTCBTaskName := n\<rparr>) = tcb_data t" "tcb_data (t\<lparr>OSTCBDelReq := w\<rparr>) = tcb_data t"
  by (simp_all add: tcb_data_def)

definition core ::
  "os \<Rightarrow> (u8 \<Rightarrow> ptr) \<times> (ptr \<Rightarrow> u8 \<times> u8 \<times> u8 \<times> u8 \<times> u8 \<times> u8 \<times> u8 \<times> u32 \<times> ptr) \<times> bitmap
    \<times> (ptr \<Rightarrow> u8 \<times> bitmap)" where
  "core s = (OSTCBPrioTbl s, \<lambda>a. tcb_data (OSTCBMem s a), rdy s,
             \<lambda>e. (OSEventType (OSEventMem s e), ev_wait (OSEventMem s e)))"

lemma core_eqD:
  assumes "core s' = core s"
  shows "OSTCBPrioTbl s' = OSTCBPrioTbl s" "tcb_data (OSTCBMem s' a) = tcb_data (OSTCBMem s a)"
    "rdy s' = rdy s" "ev_type s' e = ev_type s e"
    "ev_wait (OSEventMem s' e) = ev_wait (OSEventMem s e)"
    "ready s' = ready s" "waiting s' e = waiting s e"
  using assms by (auto simp: core_def ev_type_def ready_def waiting_def fun_eq_iff)

lemma tcb_ok_data: "tcb_data t = tcb_data t' \<Longrightarrow> tcb_ok s p t \<longleftrightarrow> tcb_ok s p t'"
  by (simp add: tcb_data_def tcb_ok_def tcb_wf_def)

lemma tcb_ok_core:
  assumes "core s' = core s"
  shows "tcb_ok s' p (OSTCBMem s' a) \<longleftrightarrow> tcb_ok s p (OSTCBMem s a)"
proof -
  have "tcb_ok s' p t \<longleftrightarrow> tcb_ok s p t" for t
    by (simp only: tcb_ok_def core_eqD [OF assms])
  then show ?thesis using tcb_ok_data [OF core_eqD(2) [OF assms]] by simp
qed

lemma task_inv_core:
  assumes "core s' = core s"
  shows "task_inv s' \<longleftrightarrow> task_inv s"
  by (simp only: task_inv_def task_ok_def tcb_ok_core [OF assms] core_eqD [OF assms])

lemma NULL_not_event: "e \<in> events \<Longrightarrow> e \<noteq> NULL"
  by (auto simp: events_def event_addr_def)

text \<open>An operation that touches only the task of priority \<open>p\<close>.\<close>

definition only_task :: "u8 \<Rightarrow> os \<Rightarrow> os \<Rightarrow> bool" where
  "only_task p s s' \<longleftrightarrow> OSTCBPrioTbl s' = OSTCBPrioTbl s
     \<and> (\<forall>a. a \<noteq> OSTCBPrioTbl s p \<longrightarrow> OSTCBMem s' a = OSTCBMem s a)
     \<and> (\<forall>r. r \<noteq> p \<longrightarrow> (r \<in> ready s' \<longleftrightarrow> r \<in> ready s))
     \<and> (\<forall>e\<in>events. \<forall>r. r \<noteq> p \<longrightarrow> (r \<in> waiting s' e \<longleftrightarrow> r \<in> waiting s e))
     \<and> (\<forall>e\<in>events. ev_type s' e = ev_type s e)"

lemma task_tcb:
  "task_inv s \<Longrightarrow> p < 64 \<Longrightarrow> is_task (OSTCBPrioTbl s p) \<Longrightarrow> tcb_ok s p (OSTCBMem s (OSTCBPrioTbl s p))"
  by (simp add: task_inv_def task_ok_def)

lemma tcb_ok_wf: "tcb_ok s p t \<Longrightarrow> tcb_wf p t"
  by (simp add: tcb_ok_def)

text \<open>Different priorities have different control blocks.\<close>

lemma prio_tbl_inj:
  assumes "task_inv s" "p < 64" "r < 64" "is_task (OSTCBPrioTbl s p)"
    "OSTCBPrioTbl s p = OSTCBPrioTbl s r"
  shows "p = r"
  using task_tcb [of s p] task_tcb [of s r] assms by (auto simp: tcb_ok_def tcb_wf_def)

lemma task_inv_unused:
  "task_inv s \<Longrightarrow> e \<in> events \<Longrightarrow> ev_type s e = OS_EVENT_TYPE_UNUSED \<Longrightarrow> waiting s e = {}"
  unfolding task_inv_def by blast

lemma task_inv_bm:
  "task_inv s \<Longrightarrow> bm_ok (rdy s)" "task_inv s \<Longrightarrow> e \<in> events \<Longrightarrow> bm_ok (ev_wait (OSEventMem s e))"
  unfolding task_inv_def by blast+

lemma task_okD: "task_inv s \<Longrightarrow> p < 64 \<Longrightarrow> task_ok s p"
  by (simp add: task_inv_def)

lemma ready_task: "task_inv s \<Longrightarrow> p \<in> ready s \<Longrightarrow> is_task (OSTCBPrioTbl s p) \<and> p < 64"
  using bm_prios_less [of p "rdy s"] task_okD [of s p]
  by (auto simp: task_ok_def ready_def split: if_splits)

lemma waiting_task:
  assumes "task_inv s" "e \<in> events" "p \<in> waiting s e"
  shows "is_task (OSTCBPrioTbl s p)" "p < 64" "OSTCBEventPtr (OSTCBMem s (OSTCBPrioTbl s p)) = e"
proof -
  show p: "p < 64" using assms bm_prios_less by (auto simp: waiting_def)
  show "is_task (OSTCBPrioTbl s p)" using assms task_okD [OF assms(1) p]
    by (auto simp: task_ok_def split: if_splits)
  then show "OSTCBEventPtr (OSTCBMem s (OSTCBPrioTbl s p)) = e"
    using task_tcb [of s p] assms p by (auto simp: tcb_ok_def)
qed

lemma tcb_ok_cong:
  assumes "r \<in> ready s' \<longleftrightarrow> r \<in> ready s"
    and "\<And>e. e \<in> events \<Longrightarrow> r \<in> waiting s' e \<longleftrightarrow> r \<in> waiting s e"
    and "\<And>e. e \<in> events \<Longrightarrow> ev_type s' e = ev_type s e"
  shows "tcb_ok s' r t \<longleftrightarrow> tcb_ok s r t"
proof -
  have "(\<forall>e\<in>events. r \<in> waiting s' e \<longleftrightarrow> OSTCBEventPtr t = e) \<longleftrightarrow>
    (\<forall>e\<in>events. r \<in> waiting s e \<longleftrightarrow> OSTCBEventPtr t = e)" using assms(2) by blast
  moreover have "(OSTCBEventPtr t \<in> events \<and> (a = ev_bit (ev_type s' (OSTCBEventPtr t)) \<and> c \<or> b)) \<longleftrightarrow>
    (OSTCBEventPtr t \<in> events \<and> (a = ev_bit (ev_type s (OSTCBEventPtr t)) \<and> c \<or> b))" for a b c
    using assms(3) by auto
  ultimately show ?thesis by (simp only: tcb_ok_def assms(1))
qed

text \<open>
  The general step: the priorities outside \<open>P\<close> keep their control block (its data), their
  place in the ready list and in the wait lists; those in \<open>P\<close> are checked again.
\<close>

lemma task_inv_change:
  assumes inv: "task_inv s"
    and tbl: "\<And>r. r < 64 \<Longrightarrow> r \<notin> P \<Longrightarrow> OSTCBPrioTbl s' r = OSTCBPrioTbl s r"
    and mem: "\<And>r. r < 64 \<Longrightarrow> r \<notin> P \<Longrightarrow> is_task (OSTCBPrioTbl s r) \<Longrightarrow>
      tcb_data (OSTCBMem s' (OSTCBPrioTbl s r)) = tcb_data (OSTCBMem s (OSTCBPrioTbl s r))"
    and rd: "\<And>r. r < 64 \<Longrightarrow> r \<notin> P \<Longrightarrow> r \<in> ready s' \<longleftrightarrow> r \<in> ready s"
    and wt: "\<And>r e. r < 64 \<Longrightarrow> r \<notin> P \<Longrightarrow> e \<in> events \<Longrightarrow> r \<in> waiting s' e \<longleftrightarrow> r \<in> waiting s e"
    and ty: "\<And>e. e \<in> events \<Longrightarrow> ev_type s' e = ev_type s e"
    and new: "\<And>r. r < 64 \<Longrightarrow> r \<in> P \<Longrightarrow> task_ok s' r"
    and rdy: "bm_ok (rdy s')" and ev: "\<And>e. e \<in> events \<Longrightarrow> bm_ok (ev_wait (OSEventMem s' e))"
    and unused: "\<And>r e. e \<in> events \<Longrightarrow> r \<in> P \<Longrightarrow> r \<in> waiting s' e \<Longrightarrow> ev_type s e \<noteq> OS_EVENT_TYPE_UNUSED"
  shows "task_inv s'"
proof -
  have "task_ok s' r" if r: "r < 64" for r
  proof (cases "r \<in> P")
    case True
    then show ?thesis using new r by simp
  next
    case False
    note old = task_okD [OF inv r]
    show ?thesis
    proof (cases "is_task (OSTCBPrioTbl s r)")
      case True
      have "tcb_ok s' r t \<longleftrightarrow> tcb_ok s r t" for t
        using rd [OF r False] wt [OF r False] ty by (rule tcb_ok_cong)
      moreover have "tcb_ok s r (OSTCBMem s' (OSTCBPrioTbl s r))"
        using old True tcb_ok_data [OF mem [OF r False True]] by (simp add: task_ok_def)
      ultimately show ?thesis using True tbl [OF r False] by (simp add: task_ok_def)
    next
      case F: False
      then have "r \<notin> ready s \<and> (\<forall>e\<in>events. r \<notin> waiting s e)" using old by (auto simp only: task_ok_def if_False)
      then have "r \<notin> ready s' \<and> (\<forall>e\<in>events. r \<notin> waiting s' e)" using rd wt r False by blast
      then show ?thesis using F tbl [OF r False] by (auto simp only: task_ok_def if_False)
    qed
  qed
  moreover have "waiting s' e = {}"
    if e: "e \<in> events" and u: "ev_type s' e = OS_EVENT_TYPE_UNUSED" for e
  proof -
    have u': "ev_type s e = OS_EVENT_TYPE_UNUSED" using ty [OF e] u by simp
    have "r \<notin> waiting s' e" for r
    proof
      assume r: "r \<in> waiting s' e"
      then have "r < 64" using bm_prios_less by (auto simp: waiting_def)
      then have "r \<in> waiting s e" using wt [OF _ _ e] unused [OF e _ r] u' r by metis
      then show False using task_inv_unused [OF inv e u'] by simp
    qed
    then show ?thesis by blast
  qed
  ultimately show ?thesis using rdy ev unfolding task_inv_def by blast
qed

lemma task_inv_only:
  assumes inv: "task_inv s" and only: "only_task p s s'" and p: "p < 64"
    and task: "is_task (OSTCBPrioTbl s p)"
    and ok: "tcb_ok s' p (OSTCBMem s' (OSTCBPrioTbl s p))"
    and rdy: "bm_ok (rdy s')" and ev: "\<And>e. e \<in> events \<Longrightarrow> bm_ok (ev_wait (OSEventMem s' e))"
    and unused: "\<And>e. e \<in> events \<Longrightarrow> p \<in> waiting s' e \<Longrightarrow> ev_type s e \<noteq> OS_EVENT_TYPE_UNUSED"
  shows "task_inv s'"
proof (rule task_inv_change [OF inv, where P = "{p}"])
  show "tcb_data (OSTCBMem s' (OSTCBPrioTbl s r)) = tcb_data (OSTCBMem s (OSTCBPrioTbl s r))"
    if "r < 64" "r \<notin> {p}" "is_task (OSTCBPrioTbl s r)" for r
  proof -
    have "OSTCBPrioTbl s r \<noteq> OSTCBPrioTbl s p" using prio_tbl_inj [OF inv that(1) p that(3)] that(2) by blast
    then show ?thesis using only by (simp add: only_task_def)
  qed
  show "task_ok s' r" if "r \<in> {p}" for r
    using that only ok task by (simp only: task_ok_def only_task_def singleton_iff if_True)
qed (use only rdy ev unused in \<open>auto simp: only_task_def\<close>)

section \<open>Views of an updated state\<close>

lemma view_simps [simp]:
  "ready (upd_tcb a f s) = ready s" "waiting (upd_tcb a f s) e = waiting s e"
  "ev_type (upd_tcb a f s) e = ev_type s e"
  "ready (upd_event x g s) = ready s" "ready (set_rdy b s) = bm_prios b"
  "waiting (set_rdy b s) e = waiting s e" "ev_type (set_rdy b s) e = ev_type s e"
  by (simp_all add: ready_def waiting_def ev_type_def)

lemma view_event [simp]:
  "waiting (upd_event x (\<lambda>v. set_ev_wait (w v) v) s) e =
     (if e = x then bm_prios (w (OSEventMem s x)) else waiting s e)"
  "ev_type (upd_event x (\<lambda>v. set_ev_wait (w v) v) s) e = ev_type s e"
  by (simp_all add: waiting_def ev_type_def)

text \<open>
  The normal form of a primitive on the task of priority \<open>p\<close>: new ready list, new wait
  list of one event, new control block.
\<close>

definition task_step ::
  "ptr \<Rightarrow> bitmap \<Rightarrow> ptr \<Rightarrow> bitmap \<Rightarrow> (os_tcb \<Rightarrow> os_tcb) \<Rightarrow> os \<Rightarrow> os" where
  "task_step q b e w f s = set_rdy b (upd_event e (\<lambda>v. set_ev_wait w v) (upd_tcb q f s))"

lemma task_step_sel [simp]:
  "rdy (task_step q b e w f s) = b" "ready (task_step q b e w f s) = bm_prios b"
  "waiting (task_step q b e w f s) x = (if x = e then bm_prios w else waiting s x)"
  "ev_type (task_step q b e w f s) x = ev_type s x"
  "OSTCBPrioTbl (task_step q b e w f s) = OSTCBPrioTbl s"
  "OSTCBMem (task_step q b e w f s) = (OSTCBMem s)(q := f (OSTCBMem s q))"
  by (simp_all add: task_step_def)

lemma task_inv_step:
  assumes inv: "task_inv s" and p: "p < 64" and task: "is_task (OSTCBPrioTbl s p)" and e: "e \<in> events"
    and b: "b \<in> {rdy s, bm_ins p (rdy s), bm_del p (rdy s)}"
    and w: "w \<in> (let v = ev_wait (OSEventMem s e) in {v, bm_ins p v, bm_del p v})"
    and ok: "tcb_ok (task_step (OSTCBPrioTbl s p) b e w f s) p (f (OSTCBMem s (OSTCBPrioTbl s p)))"
    and unused: "p \<in> bm_prios w \<Longrightarrow> ev_type s e \<noteq> OS_EVENT_TYPE_UNUSED"
  shows "task_inv (task_step (OSTCBPrioTbl s p) b e w f s)" (is "task_inv ?s")
proof (rule task_inv_only [OF inv _ p task])
  have b': "bm_ok b" "r \<noteq> p \<Longrightarrow> r \<in> bm_prios b \<longleftrightarrow> r \<in> ready s" for r
    using b p task_inv_bm(1) [OF inv] by (auto simp: bm.ok_ins bm.ok_del bm.prios_ins bm.prios_del ready_def)
  have w': "bm_ok w" "r \<noteq> p \<Longrightarrow> r \<in> bm_prios w \<longleftrightarrow> r \<in> waiting s e" for r
    using w p task_inv_bm(2) [OF inv e]
    by (auto simp: bm.ok_ins bm.ok_del bm.prios_ins bm.prios_del waiting_def Let_def)
  show "only_task p s ?s" using b' w' by (auto simp: only_task_def)
  show "tcb_ok ?s p (OSTCBMem ?s (OSTCBPrioTbl s p))" using ok by simp
  show "bm_ok (rdy ?s)" using b' by simp
  show "bm_ok (ev_wait (OSEventMem ?s x))" if "x \<in> events" for x
    using w' task_inv_bm(2) [OF inv that] by (simp add: task_step_def)
  show "ev_type s x \<noteq> OS_EVENT_TYPE_UNUSED" if "x \<in> events" "p \<in> waiting ?s x" for x
    using that unused task_inv_unused [OF inv, of x] by (auto split: if_splits)
qed

text \<open>The same without an event.\<close>

lemma set_ev_wait_same: "set_ev_wait (ev_wait v) v = v"
  by (simp add: set_ev_wait_def ev_wait_def)

lemma task_step_same_event:
  "task_step q b e (ev_wait (OSEventMem s e)) f s = set_rdy b (upd_tcb q f s)"
  by (simp add: task_step_def set_ev_wait_same upd_event_def upd_tcb_def)

section \<open>The primitives in normal form\<close>

lemma wf_ins: "tcb_wf p t \<Longrightarrow> bm_set (OSTCBBitY t) (OSTCBY t) (OSTCBBitX t) = bm_ins p"
  and wf_del: "tcb_wf p t \<Longrightarrow> bm_clr (OSTCBBitY t) (OSTCBY t) (OSTCBBitX t) = bm_del p"
  by (simp_all add: tcb_wf_def bm_ins_def bm_del_def)

lemma tcb_wf_upd [simp]:
  "tcb_wf p (t\<lparr>OSTCBEventPtr := x1\<rparr>) = tcb_wf p t" "tcb_wf p (t\<lparr>OSTCBMsg := x2\<rparr>) = tcb_wf p t"
  "tcb_wf p (t\<lparr>OSTCBDly := x3\<rparr>) = tcb_wf p t" "tcb_wf p (t\<lparr>OSTCBStat := x4\<rparr>) = tcb_wf p t"
  "tcb_wf p (t\<lparr>OSTCBStatPend := x5\<rparr>) = tcb_wf p t" "tcb_wf p (t\<lparr>OSTCBNext := x6\<rparr>) = tcb_wf p t"
  "tcb_wf p (t\<lparr>OSTCBPrev := x7\<rparr>) = tcb_wf p t" "tcb_wf p (t\<lparr>OSTCBDelReq := x8\<rparr>) = tcb_wf p t"
  "tcb_wf p (t\<lparr>OSTCBTaskName := x9\<rparr>) = tcb_wf p t" "tcb_wf p (t\<lparr>OSTCBStkPtr := x10\<rparr>) = tcb_wf p t"
  by (simp_all add: tcb_wf_def)

lemma make_ready_nf: "tcb_wf p (OSTCBMem s q) \<Longrightarrow> make_ready q s = set_rdy (bm_ins p (rdy s)) s"
  by (simp add: make_ready_def wf_ins)

lemma make_unready_nf: "tcb_wf p (OSTCBMem s q) \<Longrightarrow> make_unready q s = set_rdy (bm_del p (rdy s)) s"
  by (simp add: make_unready_def wf_del)

lemma OS_EventTaskWait_nf:
  assumes wf: "tcb_wf p (OSTCBMem s (OSTCBCur s))"
  shows "OS_EventTaskWait e s = task_step (OSTCBCur s) (bm_del p (rdy s)) e
    (bm_ins p (ev_wait (OSEventMem s e))) (\<lambda>t. t\<lparr>OSTCBEventPtr := e\<rparr>) s"
proof -
  let ?s1 = "upd_tcb (OSTCBCur s) (\<lambda>t. t\<lparr>OSTCBEventPtr := e\<rparr>) s"
  have "tcb_wf p (OSTCBMem ?s1 (OSTCBCur s))" using wf by simp
  note ins = wf_ins [OF this]
  have "OS_EventTaskWait e s =
    make_unready (OSTCBCur s) (upd_event e (\<lambda>v. set_ev_wait (bm_ins p (ev_wait v)) v) ?s1)"
    by (simp only: OS_EventTaskWait_def Let_def ins)
  also have "\<dots> = task_step (OSTCBCur s) (bm_del p (rdy s)) e
    (bm_ins p (ev_wait (OSEventMem s e))) (\<lambda>t. t\<lparr>OSTCBEventPtr := e\<rparr>) s"
    using wf by (subst make_unready_nf [of p]) (simp_all add: task_step_def upd_event_def)
  finally show ?thesis .
qed

lemma OS_EventTaskRemove_nf:
  assumes wf: "tcb_wf p (OSTCBMem s q)"
  shows "OS_EventTaskRemove q e s = task_step q (rdy s) e
    (bm_del p (ev_wait (OSEventMem s e))) (\<lambda>t. t\<lparr>OSTCBEventPtr := NULL\<rparr>) s"
  by (simp add: OS_EventTaskRemove_def wf_del [OF wf] task_step_def upd_defs)

lemma bm_highest_y: "prio_y (bm_highest b) = OSUnMap (fst b)"
  by (simp add: bm_highest_def Let_def prio_of_def [symmetric] OSUnMap_less)

definition wake_tcb :: "ptr \<Rightarrow> u8 \<Rightarrow> u8 \<Rightarrow> os_tcb \<Rightarrow> os_tcb" where
  "wake_tcb pmsg msk ps t = t\<lparr>OSTCBDly := 0, OSTCBMsg := pmsg,
     OSTCBStat := OSTCBStat t AND NOT msk, OSTCBStatPend := ps, OSTCBEventPtr := NULL\<rparr>"

lemma OS_EventTaskRdy_nf:
  assumes wf: "tcb_wf p (OSTCBMem s q)" and p: "p = bm_highest (ev_wait (OSEventMem s e))"
    and q: "q = OSTCBPrioTbl s p"
  shows "OS_EventTaskRdy e pmsg msk ps s = (p,
    task_step q (if (OSTCBStat (OSTCBMem s q) AND NOT msk) AND OS_STAT_SUSPEND = 0
                 then bm_ins p (rdy s) else rdy s)
      e (bm_del p (ev_wait (OSEventMem s e))) (wake_tcb pmsg msk ps) s)"
proof -
  let ?y = "OSUnMap (OSEventGrp (OSEventMem s e))"
  let ?s1 = "upd_tcb q (\<lambda>t. t\<lparr>OSTCBDly := 0, OSTCBMsg := pmsg,
    OSTCBStat := OSTCBStat t AND NOT msk, OSTCBStatPend := ps\<rparr>) s"
  have y: "prio_y p = ?y" by (simp add: p bm_highest_y ev_wait_def)
  have prio: "push_bit 3 ?y + OSUnMap (OSEventTbl (OSEventMem s e) ?y) = p"
    by (simp add: p bm_highest_def ev_wait_def Let_def)
  have wf1: "tcb_wf p (OSTCBMem ?s1 q)" using wf by simp
  have ins: "bm_set (OSTCBBitY (OSTCBMem ?s1 q)) ?y (OSTCBBitX (OSTCBMem ?s1 q)) = bm_ins p"
    using wf_ins [OF wf1] wf1 y by (simp add: tcb_wf_def)
  let ?b = "if (OSTCBStat (OSTCBMem s q) AND NOT msk) AND OS_STAT_SUSPEND = 0
            then bm_ins p (rdy s) else rdy s"
  let ?s2 = "set_rdy ?b ?s1"
  have s2: "(if OSTCBStat (OSTCBMem ?s1 q) AND OS_STAT_SUSPEND = OS_STAT_RDY
       then set_rdy (bm_ins p (rdy ?s1)) ?s1 else ?s1) = ?s2"
    by (simp add: upd_defs)
  have "OS_EventTaskRdy e pmsg msk ps s = (p, OS_EventTaskRemove q e ?s2)"
    unfolding OS_EventTaskRdy_def Let_def prio q [symmetric] ins s2 ..
  also have "OS_EventTaskRemove q e ?s2 = task_step q ?b e (bm_del p (ev_wait (OSEventMem s e)))
      (wake_tcb pmsg msk ps) s"
    using wf by (subst OS_EventTaskRemove_nf [of p])
      (simp_all add: task_step_def wake_tcb_def upd_defs)
  finally show ?thesis .
qed

section \<open>Primitives preserve the invariant\<close>

lemma prio_task:
  assumes "task_inv s" "p < 64" "is_task (OSTCBPrioTbl s p)"
  shows "tcb_wf p (OSTCBMem s (OSTCBPrioTbl s p))"
  using task_tcb [OF assms] by (simp add: tcb_ok_def)

lemma ev_grp_waiting:
  assumes "task_inv s" "e \<in> events"
  shows "OSEventGrp (OSEventMem s e) = 0 \<longleftrightarrow> waiting s e = {}"
  using bm.none_iff [OF task_inv_bm(2) [OF assms]] by (simp add: waiting_def ev_wait_def)

text \<open>The waiter that is served next.\<close>

definition top_waiter :: "os \<Rightarrow> ptr \<Rightarrow> u8" where
  "top_waiter s e = bm_highest (ev_wait (OSEventMem s e))"

lemma top_waiter:
  assumes "task_inv s" "e \<in> events" "waiting s e \<noteq> {}"
  shows "top_waiter s e \<in> waiting s e" "r \<in> waiting s e \<Longrightarrow> top_waiter s e \<le> r"
  using bm.best_in [OF task_inv_bm(2) [OF assms(1,2)]] bm.best_le [OF task_inv_bm(2) [OF assms(1,2)]]
    assms(3) by (auto simp: top_waiter_def waiting_def)

lemma stats_cases: "x \<in> stats \<Longrightarrow> x AND NOT 8 = 0 \<or> x AND NOT 8 = 1 \<or> x AND NOT 8 = 2 \<or>
    x AND NOT 8 = 4 \<or> x AND NOT 8 = 16"
  by (auto simp: stats_def)

text \<open>Clearing the status bit of the event of a waiting task leaves no pending bit.\<close>

lemma stats_wake:
  assumes "x \<in> stats" "x AND OS_STAT_PEND_ANY = 0 \<or> x AND OS_STAT_PEND_ANY = m" "m \<in> {1, 2, 4, 16}"
  shows "x AND NOT m \<in> {0, 8}"
  using assms by (auto simp: stats_def)

lemma ev_bit_cases: "ev_bit ty \<in> {0, 1, 2, 4, 16}"
  by (simp add: ev_bit_def)

lemma tcb_ok_free:
  assumes "tcb_wf p t" "OSTCBStat t \<in> {0, 8}" "p \<in> ready s \<longleftrightarrow> OSTCBStat t = 0 \<and> OSTCBDly t = 0"
    and "\<And>e. e \<in> events \<Longrightarrow> p \<notin> waiting s e" and "OSTCBEventPtr t = NULL"
  shows "tcb_ok s p t"
proof -
  have "OSTCBStat t \<in> stats" "OSTCBStat t AND OS_STAT_PEND_ANY = 0"
    using assms(2) by (auto simp: stats_def)
  moreover have "\<forall>e\<in>events. p \<in> waiting s e \<longleftrightarrow> OSTCBEventPtr t = e"
    using assms(4,5) NULL_not_event by auto
  ultimately show ?thesis using assms(1,3,5) by (simp add: tcb_ok_def)
qed

lemma tcb_ok_events:
  assumes "tcb_ok s p t" "x \<in> events" "x \<noteq> OSTCBEventPtr t"
  shows "p \<notin> waiting s x"
  using assms by (simp add: tcb_ok_def)

lemma rdy_one_inv:
  assumes inv: "task_inv s" and e: "e \<in> events" and ne: "waiting s e \<noteq> {}"
    and msk: "msk = ev_bit (ev_type s e)" "msk \<noteq> 0"
  shows "task_inv (snd (OS_EventTaskRdy e pmsg msk ps s))"
proof -
  define p where "p = top_waiter s e"
  let ?q = "OSTCBPrioTbl s p"
  let ?t = "OSTCBMem s ?q"
  let ?b = "if (OSTCBStat ?t AND NOT msk) AND OS_STAT_SUSPEND = 0 then bm_ins p (rdy s) else rdy s"
  have pw: "p \<in> waiting s e" using top_waiter(1) [OF inv e ne] by (simp add: p_def)
  note task = waiting_task [OF inv e pw]
  note ok = task_tcb [OF inv task(2,1)]
  have ready: "p \<in> bm_prios (rdy s) \<longleftrightarrow> OSTCBStat ?t = 0 \<and> OSTCBDly ?t = 0"
    using ok by (simp add: tcb_ok_def ready_def)
  have "OSTCBStat ?t \<in> stats" "OSTCBStat ?t AND OS_STAT_PEND_ANY = msk \<or> OSTCBStat ?t AND OS_STAT_PEND_ANY = 0"
    using ok task(3) NULL_not_event [OF e] msk by (auto simp: tcb_ok_def split: if_splits)
  then have st: "OSTCBStat ?t AND NOT msk \<in> {0, 8}"
    using ev_bit_cases [of "ev_type s e"] msk by (intro stats_wake) auto
  have nf: "OS_EventTaskRdy e pmsg msk ps s = (p, task_step ?q ?b e (bm_del p (ev_wait (OSEventMem s e))) (wake_tcb pmsg msk ps) s)"
    by (rule OS_EventTaskRdy_nf [OF prio_task [OF inv task(2,1)]]) (simp_all add: p_def top_waiter_def)
  show ?thesis
    unfolding nf snd_conv
  proof (rule task_inv_step [OF inv task(2,1) e])
    show "tcb_ok (task_step ?q ?b e (bm_del p (ev_wait (OSEventMem s e))) (wake_tcb pmsg msk ps) s)
        p (wake_tcb pmsg msk ps ?t)"
    proof (rule tcb_ok_free)
      have "p \<notin> ready s" if "OSTCBStat ?t AND NOT msk = 8" 
        using that ready by (auto simp: ready_def)
      then show "p \<in> ready (task_step ?q ?b e (bm_del p (ev_wait (OSEventMem s e))) (wake_tcb pmsg msk ps) s)
        \<longleftrightarrow> OSTCBStat (wake_tcb pmsg msk ps ?t) = 0 \<and> OSTCBDly (wake_tcb pmsg msk ps ?t) = 0"
        using st task(2) by (auto simp: wake_tcb_def bm.prios_ins ready_def)
      show "p \<notin> waiting (task_step ?q ?b e (bm_del p (ev_wait (OSEventMem s e))) (wake_tcb pmsg msk ps) s) x"
        if "x \<in> events" for x
        using tcb_ok_events [OF ok that] task by (simp add: bm.prios_del)
    qed (use st prio_task [OF inv task(2,1)] in \<open>simp_all add: wake_tcb_def\<close>)
  qed (use task in \<open>auto simp: Let_def bm.prios_del\<close>)
qed

text \<open>Which fields the event primitives leave alone.\<close>

lemma OS_EventTaskRemove_frame [simp]:
  "OSTCBPrioTbl (OS_EventTaskRemove q e s) = OSTCBPrioTbl s"
  "OSTCBCur (OS_EventTaskRemove q e s) = OSTCBCur s"
  "OSPrioCur (OS_EventTaskRemove q e s) = OSPrioCur s"
  "OSRunning (OS_EventTaskRemove q e s) = OSRunning s"
  "OSIntNesting (OS_EventTaskRemove q e s) = OSIntNesting s"
  "OSLockNesting (OS_EventTaskRemove q e s) = OSLockNesting s"
  "OSTCBList (OS_EventTaskRemove q e s) = OSTCBList s"
  "OSTCBFreeList (OS_EventTaskRemove q e s) = OSTCBFreeList s"
  "OSTaskCtr (OS_EventTaskRemove q e s) = OSTaskCtr s"
  "OSEventFreeList (OS_EventTaskRemove q e s) = OSEventFreeList s"
  "OSQMem (OS_EventTaskRemove q e s) = OSQMem s"
  "OSTime (OS_EventTaskRemove q e s) = OSTime s"
  "app_mem (OS_EventTaskRemove q e s) = app_mem s"
  "rdy (OS_EventTaskRemove q e s) = rdy s"
  "ev_type (OS_EventTaskRemove q e s) x = ev_type s x"
  by (simp_all add: OS_EventTaskRemove_def Let_def ev_type_def)

lemma OS_EventTaskRdy_frame [simp]:
  "OSTCBPrioTbl (snd (OS_EventTaskRdy e m k ps s)) = OSTCBPrioTbl s"
  "OSTCBCur (snd (OS_EventTaskRdy e m k ps s)) = OSTCBCur s"
  "OSPrioCur (snd (OS_EventTaskRdy e m k ps s)) = OSPrioCur s"
  "OSRunning (snd (OS_EventTaskRdy e m k ps s)) = OSRunning s"
  "OSIntNesting (snd (OS_EventTaskRdy e m k ps s)) = OSIntNesting s"
  "OSLockNesting (snd (OS_EventTaskRdy e m k ps s)) = OSLockNesting s"
  "OSTCBList (snd (OS_EventTaskRdy e m k ps s)) = OSTCBList s"
  "OSTCBFreeList (snd (OS_EventTaskRdy e m k ps s)) = OSTCBFreeList s"
  "OSTaskCtr (snd (OS_EventTaskRdy e m k ps s)) = OSTaskCtr s"
  "OSEventFreeList (snd (OS_EventTaskRdy e m k ps s)) = OSEventFreeList s"
  "OSQMem (snd (OS_EventTaskRdy e m k ps s)) = OSQMem s"
  "OSTime (snd (OS_EventTaskRdy e m k ps s)) = OSTime s"
  "app_mem (snd (OS_EventTaskRdy e m k ps s)) = app_mem s"
  "ev_type (snd (OS_EventTaskRdy e m k ps s)) x = ev_type s x"
  by (simp_all add: OS_EventTaskRdy_def Let_def)

lemma rdy_one_nf:
  assumes inv: "task_inv s" and e: "e \<in> events" and ne: "waiting s e \<noteq> {}"
  shows "OS_EventTaskRdy e pmsg msk ps s = (top_waiter s e,
    task_step (OSTCBPrioTbl s (top_waiter s e))
      (if (OSTCBStat (OSTCBMem s (OSTCBPrioTbl s (top_waiter s e))) AND NOT msk) AND OS_STAT_SUSPEND = 0
       then bm_ins (top_waiter s e) (rdy s) else rdy s)
      e (bm_del (top_waiter s e) (ev_wait (OSEventMem s e))) (wake_tcb pmsg msk ps) s)"
  by (rule OS_EventTaskRdy_nf
      [OF prio_task [OF inv waiting_task(2,1) [OF inv e top_waiter(1) [OF inv e ne]]]])
    (simp_all add: top_waiter_def)

lemma rdy_one_waiting:
  assumes inv: "task_inv s" and e: "e \<in> events" and ne: "waiting s e \<noteq> {}"
  shows "fst (OS_EventTaskRdy e pmsg msk ps s) = top_waiter s e"
    "waiting (snd (OS_EventTaskRdy e pmsg msk ps s)) x =
       (if x = e then waiting s e - {top_waiter s e} else waiting s x)"
  using waiting_task(2) [OF inv e top_waiter(1) [OF inv e ne]]
  by (simp_all add: rdy_one_nf [OF assms] bm.prios_del waiting_def [symmetric])

lemma waiting_finite [simp]: "finite (waiting s e)"
  by simp

lemma card_waiting: "card (waiting s e) \<le> 64"
  by (simp add: waiting_def bm.card_prios)

text \<open>The wake-up loop empties the wait list, wakes every waiter and counts them.\<close>

lemma OS_EventRdyAll_inv:
  assumes "task_inv s" "e \<in> events" "msk = ev_bit (ev_type s e)" "msk \<noteq> 0"
    "card (waiting s e) \<le> n"
  shows "task_inv (snd (OS_EventRdyAll n e pmsg msk ps s))
    \<and> waiting (snd (OS_EventRdyAll n e pmsg msk ps s)) x = (if x = e then {} else waiting s x)
    \<and> ev_type (snd (OS_EventRdyAll n e pmsg msk ps s)) x = ev_type s x
    \<and> fst (OS_EventRdyAll n e pmsg msk ps s) = word_of_nat (card (waiting s e))"
  using assms
proof (induction n arbitrary: s)
  case 0
  then have "waiting s e = {}" by simp
  then show ?case using 0 by simp
next
  case (Suc n)
  show ?case
  proof (cases "waiting s e = {}")
    case True
    then show ?thesis using Suc.prems ev_grp_waiting [OF Suc.prems(1,2)] by simp
  next
    case ne: False
    let ?s1 = "snd (OS_EventTaskRdy e pmsg msk ps s)"
    note inv = Suc.prems(1) and e = Suc.prems(2)
    have grp: "OSEventGrp (OSEventMem s e) \<noteq> 0" using ev_grp_waiting [OF inv e] ne by simp
    have inv1: "task_inv ?s1" using rdy_one_inv [OF inv e ne] Suc.prems by simp
    note w1 = rdy_one_waiting(2) [OF inv e ne, of pmsg msk ps]
    have card: "card (waiting s e) = Suc (card (waiting ?s1 e))"
      using card.remove [OF waiting_finite top_waiter(1) [OF inv e ne]] by (simp only: w1 if_True refl)
    have IH: "task_inv (snd (OS_EventRdyAll n e pmsg msk ps ?s1))
      \<and> waiting (snd (OS_EventRdyAll n e pmsg msk ps ?s1)) x = (if x = e then {} else waiting ?s1 x)
      \<and> ev_type (snd (OS_EventRdyAll n e pmsg msk ps ?s1)) x = ev_type ?s1 x
      \<and> fst (OS_EventRdyAll n e pmsg msk ps ?s1) = word_of_nat (card (waiting ?s1 e))"
      by (rule Suc.IH [OF inv1 e]) (use Suc.prems(3-5) card in auto)
    have "OS_EventRdyAll (Suc n) e pmsg msk ps s =
      (fst (OS_EventRdyAll n e pmsg msk ps ?s1) + 1, snd (OS_EventRdyAll n e pmsg msk ps ?s1))"
      using grp by (simp add: split_beta)
    moreover have "word_of_nat (card (waiting ?s1 e)) + 1 = (word_of_nat (card (waiting s e)) :: u8)"
      by (simp only: card of_nat_Suc add.commute)
    moreover have "x \<noteq> e \<Longrightarrow> waiting ?s1 x = waiting s x" by (simp add: w1)
    ultimately show ?thesis using IH by simp
  qed
qed

lemma OS_EventRdyAll_frame [simp]:
  "OSTCBPrioTbl (snd (OS_EventRdyAll n e m k ps s)) = OSTCBPrioTbl s"
  "OSTCBCur (snd (OS_EventRdyAll n e m k ps s)) = OSTCBCur s"
  "OSPrioCur (snd (OS_EventRdyAll n e m k ps s)) = OSPrioCur s"
  "OSRunning (snd (OS_EventRdyAll n e m k ps s)) = OSRunning s"
  "OSIntNesting (snd (OS_EventRdyAll n e m k ps s)) = OSIntNesting s"
  "OSLockNesting (snd (OS_EventRdyAll n e m k ps s)) = OSLockNesting s"
  "OSTCBList (snd (OS_EventRdyAll n e m k ps s)) = OSTCBList s"
  "OSTCBFreeList (snd (OS_EventRdyAll n e m k ps s)) = OSTCBFreeList s"
  "OSTaskCtr (snd (OS_EventRdyAll n e m k ps s)) = OSTaskCtr s"
  "OSEventFreeList (snd (OS_EventRdyAll n e m k ps s)) = OSEventFreeList s"
  "OSQMem (snd (OS_EventRdyAll n e m k ps s)) = OSQMem s"
  "app_mem (snd (OS_EventRdyAll n e m k ps s)) = app_mem s"
  by (induction n arbitrary: s; simp add: split_beta)+

section \<open>Steps on one task without an event\<close>

lemma task_inv_step0:
  assumes inv: "task_inv s" and p: "p < 64" and task: "is_task (OSTCBPrioTbl s p)"
    and b: "b \<in> {rdy s, bm_ins p (rdy s), bm_del p (rdy s)}"
    and ok: "tcb_ok (set_rdy b (upd_tcb (OSTCBPrioTbl s p) f s)) p (f (OSTCBMem s (OSTCBPrioTbl s p)))"
  shows "task_inv (set_rdy b (upd_tcb (OSTCBPrioTbl s p) f s))"
proof -
  let ?e = "event_addr 0"
  let ?w = "ev_wait (OSEventMem s ?e)"
  have e: "?e \<in> events" by (simp add: events_def)
  have "ev_type s ?e \<noteq> OS_EVENT_TYPE_UNUSED" if "p \<in> bm_prios ?w"
    using task_inv_unused [OF inv e] that by (auto simp: waiting_def)
  then show ?thesis
    using task_inv_step [OF inv p task e b, of ?w f] ok
    by (simp add: task_step_same_event Let_def)
qed

end
