(* ===== verification/OS_Time.thy ===== *)
theory OS_Time
  imports OS_Core
begin

text \<open>
  \<open>ucosII/Source/os_time.c\<close>: delaying the current task and reading or setting the
  32-bit tick counter. A delay ends in \<open>OSTimeTick\<close>.
\<close>

section \<open>Operations\<close>

definition OSTimeDly :: "u32 \<Rightarrow> os \<Rightarrow> os" where
  "OSTimeDly ticks s =
     (if OSIntNesting s > 0 then s
      else if OSLockNesting s > 0 then s
      else if ticks > 0
      then let s1 = make_unready (OSTCBCur s) s;
               s2 = upd_tcb (OSTCBCur s1) (\<lambda>t. t\<lparr>OSTCBDly := ticks\<rparr>) s1
           in OS_Sched s2
      else s)"

text \<open>The ticks of a delay given in hours, minutes, seconds and milliseconds.\<close>

definition hmsm_ticks :: "u8 \<Rightarrow> u8 \<Rightarrow> u8 \<Rightarrow> u16 \<Rightarrow> u32" where
  "hmsm_ticks hours minutes seconds ms =
     (ucast hours * 3600 + ucast minutes * 60 + ucast seconds) * OS_TICKS_PER_SEC
     + OS_TICKS_PER_SEC * (ucast ms + 500 div OS_TICKS_PER_SEC) div 1000"

definition OSTimeDlyHMSM :: "u8 \<Rightarrow> u8 \<Rightarrow> u8 \<Rightarrow> u16 \<Rightarrow> os \<Rightarrow> u8 \<times> os" where
  "OSTimeDlyHMSM hours minutes seconds ms s =
     (if OSIntNesting s > 0 then (OS_ERR_TIME_DLY_ISR, s)
      else if OSLockNesting s > 0 then (OS_ERR_SCHED_LOCKED, s)
      else (OS_ERR_NONE, OSTimeDly (hmsm_ticks hours minutes seconds ms) s))"

definition OSTimeGet :: "os \<Rightarrow> u32" where
  "OSTimeGet s = OSTime s"

definition OSTimeSet :: "u32 \<Rightarrow> os \<Rightarrow> os" where
  "OSTimeSet ticks s = s\<lparr>OSTime := ticks\<rparr>"

end
