(* ===== verification/OS_Task.thy ===== *)
theory OS_Task
  imports OS_Core Pool
begin

text \<open>
  \<open>ucosII/Source/os_task.c\<close> and the stack initialisation of
  \<open>ucosII/Ports/os_cpu_c.c\<close>: creating, deleting, suspending, resuming tasks and
  changing their priority. \<open>OSTCBPrioTbl\<close> has 64 entries in C; with argument checks
  off the code does not reject a priority above 63, and the theorems assume one below 64.
  The port hooks the code calls here are empty functions.
\<close>

section \<open>Memory and string helpers of os_core.c\<close>

fun OS_MemClr :: "nat \<Rightarrow> nat \<Rightarrow> (nat \<Rightarrow> u8) \<Rightarrow> nat \<Rightarrow> u8" where
  "OS_MemClr pdest 0 m = m"
| "OS_MemClr pdest (Suc n) m = OS_MemClr (pdest + 1) n (m(pdest := 0))"

fun OS_MemCopy :: "nat \<Rightarrow> nat \<Rightarrow> nat \<Rightarrow> (nat \<Rightarrow> u8) \<Rightarrow> nat \<Rightarrow> u8" where
  "OS_MemCopy pdest psrc 0 m = m"
| "OS_MemCopy pdest psrc (Suc n) m =
     OS_MemCopy (pdest + 1) (psrc + 1) n (m(pdest := m psrc))"

text \<open>The loop of \<open>OS_StrLen\<close> counts in an \<open>INT8U\<close>; a string is the characters before its NUL.\<close>

fun OS_StrLen_loop :: "string \<Rightarrow> u8 \<Rightarrow> u8" where
  "OS_StrLen_loop [] len = len"
| "OS_StrLen_loop (c # psrc) len = OS_StrLen_loop psrc (len + 1)"

definition OS_StrLen :: "string \<Rightarrow> u8" where
  "OS_StrLen psrc = OS_StrLen_loop psrc 0"

section \<open>Task creation and deletion\<close>

text \<open>Addresses the linker assigns: the code of two functions and the idle task's stack.\<close>

record link_addrs =
  ld_OS_TaskReturn :: ptr
  ld_OS_TaskIdle :: ptr
  ld_OSTaskIdleStk :: ptr

text \<open>The register frame in the order it is stored, one word below the other.\<close>

definition stk_frame :: "link_addrs \<Rightarrow> ptr \<Rightarrow> ptr \<Rightarrow> ptr list" where
  "stk_frame ld task p_arg =
     [0x01000000, task, ld_OS_TaskReturn ld, 0x12121212, 0x03030303, 0x02020202, 0x01010101,
      p_arg, 0x11111111, 0x10101010, 0x09090909, 0x08080808, 0x07070707, 0x06060606,
      0x05050505, 0x04040404]"

fun push_words :: "ptr \<Rightarrow> ptr list \<Rightarrow> (ptr \<Rightarrow> ptr) \<Rightarrow> ptr \<times> (ptr \<Rightarrow> ptr)" where
  "push_words stk [] m = (stk, m)"
| "push_words stk (w # ws) m = push_words (stk - 4) ws (m(stk - 4 := w))"

definition OSTaskStkInit :: "link_addrs \<Rightarrow> ptr \<Rightarrow> ptr \<Rightarrow> ptr \<Rightarrow> os \<Rightarrow> ptr \<times> os" where
  "OSTaskStkInit ld task p_arg ptos s =
     (let ws = stk_frame ld task p_arg;
          (stk, m) = push_words ptos (tl ws) ((app_mem s)(ptos := hd ws))
      in (stk, s\<lparr>app_mem := m\<rparr>))"

definition OSTaskCreate :: "link_addrs \<Rightarrow> ptr \<Rightarrow> ptr \<Rightarrow> ptr \<Rightarrow> u8 \<Rightarrow> os \<Rightarrow> u8 \<times> os" where
  "OSTaskCreate ld task p_arg ptos prio s =
     (if OSIntNesting s > 0 then (OS_ERR_TASK_CREATE_ISR, s)
      else if OSTCBPrioTbl s prio = NULL
      then let s1 = s\<lparr>OSTCBPrioTbl := (OSTCBPrioTbl s)(prio := OS_TCB_RESERVED)\<rparr>;
               (psp, s2) = OSTaskStkInit ld task p_arg ptos s1;
               (err, s3) = OS_TCBInit prio psp s2
           in if err = OS_ERR_NONE
              then (err, if OSRunning s3 then OS_Sched s3 else s3)
              else (err, s3\<lparr>OSTCBPrioTbl := (OSTCBPrioTbl s3)(prio := NULL)\<rparr>)
      else (OS_ERR_PRIO_EXIST, s))"

text \<open>
  The unlinking of a control block from \<open>OSTCBList\<close> and its return to the free list.
\<close>

definition tcb_unlink :: "ptr \<Rightarrow> os \<Rightarrow> os" where
  "tcb_unlink ptcb s =
     (let t = OSTCBMem s ptcb
      in if OSTCBPrev t = NULL
         then (upd_tcb (OSTCBNext t) (\<lambda>u. u\<lparr>OSTCBPrev := NULL\<rparr>) s)\<lparr>OSTCBList := OSTCBNext t\<rparr>
         else upd_tcb (OSTCBNext t) (\<lambda>u. u\<lparr>OSTCBPrev := OSTCBPrev t\<rparr>)
                (upd_tcb (OSTCBPrev t) (\<lambda>u. u\<lparr>OSTCBNext := OSTCBNext t\<rparr>) s))"

text \<open>
  \<open>OSTaskDel\<close> in two parts. \<open>del_data\<close>: off the ready list and the wait list, the nesting
  counter around \<open>OS_Dummy()\<close>, off the priority table. \<open>del_links\<close>: off the task list and
  onto the free list.
\<close>

definition del_data :: "u8 \<Rightarrow> ptr \<Rightarrow> os \<Rightarrow> os" where
  "del_data prio ptcb s =
     (let s1 = make_unready ptcb s;
          pevent = OSTCBEventPtr (OSTCBMem s1 ptcb);
          s2 = (if pevent \<noteq> NULL then OS_EventTaskRemove ptcb pevent s1 else s1);
          s3 = upd_tcb ptcb (\<lambda>t. t\<lparr>OSTCBDly := 0, OSTCBStat := OS_STAT_RDY,
                                   OSTCBStatPend := OS_STAT_PEND_OK\<rparr>) s2;
          s4 = (if OSLockNesting s3 < 255 then s3\<lparr>OSLockNesting := OSLockNesting s3 + 1\<rparr> else s3);
          s5 = (if OSLockNesting s4 > 0 then s4\<lparr>OSLockNesting := OSLockNesting s4 - 1\<rparr> else s4)
      in s5\<lparr>OSTaskCtr := OSTaskCtr s5 - 1, OSTCBPrioTbl := (OSTCBPrioTbl s5)(prio := NULL)\<rparr>)"

text \<open>Taking the head of the free list (\<open>OS_TCBInit\<close>) and giving a block back (\<open>OSTaskDel\<close>).\<close>

definition tcb_take :: "os \<Rightarrow> os" where
  "tcb_take s = s\<lparr>OSTCBFreeList := OSTCBNext (OSTCBMem s (OSTCBFreeList s))\<rparr>"

definition tcb_give :: "ptr \<Rightarrow> os \<Rightarrow> os" where
  "tcb_give ptcb s = (upd_tcb ptcb (\<lambda>t. t\<lparr>OSTCBNext := OSTCBFreeList s\<rparr>) s)\<lparr>OSTCBFreeList := ptcb\<rparr>"

interpretation tcb_pool: free_list OSTCBFreeList "\<lambda>s a. OSTCBNext (OSTCBMem s a)" tcb_take tcb_give
  by unfold_locales (auto simp: tcb_take_def tcb_give_def)

definition del_links :: "ptr \<Rightarrow> os \<Rightarrow> os" where
  "del_links ptcb s =
     upd_tcb ptcb (\<lambda>t. t\<lparr>OSTCBTaskName := ''?''\<rparr>) (tcb_give ptcb (tcb_unlink ptcb s))"

definition OSTaskDel :: "u8 \<Rightarrow> os \<Rightarrow> u8 \<times> os" where
  "OSTaskDel prio0 s =
     (if OSIntNesting s > 0 then (OS_ERR_TASK_DEL_ISR, s)
      else if prio0 = OS_TASK_IDLE_PRIO then (OS_ERR_TASK_DEL_IDLE, s)
      else let prio = (if prio0 = OS_PRIO_SELF then OSTCBPrio (OSTCBMem s (OSTCBCur s)) else prio0);
               ptcb = OSTCBPrioTbl s prio
           in if ptcb = NULL then (OS_ERR_TASK_NOT_EXIST, s)
              else if ptcb = OS_TCB_RESERVED then (OS_ERR_TASK_DEL, s)
              else let s9 = del_links ptcb (del_data prio ptcb s)
                   in (OS_ERR_NONE, if OSRunning s9 then OS_Sched s9 else s9))"

definition OSTaskDelReq :: "u8 \<Rightarrow> os \<Rightarrow> u8 \<times> os" where
  "OSTaskDelReq prio s =
     (if prio = OS_TASK_IDLE_PRIO then (OS_ERR_TASK_DEL_IDLE, s)
      else if prio = OS_PRIO_SELF then (OSTCBDelReq (OSTCBMem s (OSTCBCur s)), s)
      else let ptcb = OSTCBPrioTbl s prio
           in if ptcb = NULL then (OS_ERR_TASK_NOT_EXIST, s)
              else if ptcb = OS_TCB_RESERVED then (OS_ERR_TASK_DEL, s)
              else (OS_ERR_NONE,
                    upd_tcb ptcb (\<lambda>t. t\<lparr>OSTCBDelReq := OS_ERR_TASK_DEL_REQ\<rparr>) s))"

definition OS_TaskReturn :: "os \<Rightarrow> os" where
  "OS_TaskReturn s = snd (OSTaskDel OS_PRIO_SELF s)"

section \<open>Suspend, resume, change priority\<close>

definition OSTaskSuspend :: "u8 \<Rightarrow> os \<Rightarrow> u8 \<times> os" where
  "OSTaskSuspend prio0 s =
     (let cur_prio = OSTCBPrio (OSTCBMem s (OSTCBCur s));
          prio = (if prio0 = OS_PRIO_SELF then cur_prio else prio0);
          self = (prio0 = OS_PRIO_SELF \<or> prio0 = cur_prio);
          ptcb = OSTCBPrioTbl s prio
      in if ptcb = NULL then (OS_ERR_TASK_SUSPEND_PRIO, s)
         else if ptcb = OS_TCB_RESERVED then (OS_ERR_TASK_NOT_EXIST, s)
         else let s1 = make_unready ptcb s;
                  s2 = upd_tcb ptcb (\<lambda>t. t\<lparr>OSTCBStat := OSTCBStat t OR OS_STAT_SUSPEND\<rparr>) s1
              in (OS_ERR_NONE, if self then OS_Sched s2 else s2))"

definition OSTaskResume :: "u8 \<Rightarrow> os \<Rightarrow> u8 \<times> os" where
  "OSTaskResume prio s =
     (let ptcb = OSTCBPrioTbl s prio
      in if ptcb = NULL then (OS_ERR_TASK_RESUME_PRIO, s)
         else if ptcb = OS_TCB_RESERVED then (OS_ERR_TASK_NOT_EXIST, s)
         else if OSTCBStat (OSTCBMem s ptcb) AND OS_STAT_SUSPEND \<noteq> OS_STAT_RDY
         then let s1 = upd_tcb ptcb (\<lambda>t. t\<lparr>OSTCBStat := OSTCBStat t AND NOT OS_STAT_SUSPEND\<rparr>) s;
                  t = OSTCBMem s1 ptcb
              in (OS_ERR_NONE,
                  if OSTCBStat t AND OS_STAT_PEND_ANY = OS_STAT_RDY
                  then if OSTCBDly t = 0
                       then let s2 = make_ready ptcb s1
                            in if OSRunning s2 then OS_Sched s2 else s2
                       else s1
                  else s1)
         else (OS_ERR_TASK_NOT_SUSPENDED, s))"

text \<open>
  \<open>move_bits\<close>: the two blocks of \<open>OSTaskChangePrio\<close> that clear the old bits of the task
  and set those of the new priority.
\<close>

definition move_bits :: "os_tcb \<Rightarrow> u8 \<Rightarrow> bitmap \<Rightarrow> bitmap" where
  "move_bits t newprio b = bm_ins newprio (bm_clr (OSTCBBitY t) (OSTCBY t) (OSTCBBitX t) b)"

definition OSTaskChangePrio :: "u8 \<Rightarrow> u8 \<Rightarrow> os \<Rightarrow> u8 \<times> os" where
  "OSTaskChangePrio oldprio0 newprio s =
     (if OSTCBPrioTbl s newprio \<noteq> NULL then (OS_ERR_PRIO_EXIST, s)
      else let oldprio = (if oldprio0 = OS_PRIO_SELF then OSTCBPrio (OSTCBMem s (OSTCBCur s))
                          else oldprio0);
               ptcb = OSTCBPrioTbl s oldprio
           in if ptcb = NULL then (OS_ERR_PRIO, s)
              else if ptcb = OS_TCB_RESERVED then (OS_ERR_TASK_NOT_EXIST, s)
              else let s1 = s\<lparr>OSTCBPrioTbl := (OSTCBPrioTbl s)(oldprio := NULL, newprio := ptcb)\<rparr>;
                       t = OSTCBMem s1 ptcb;
                       s2 = (if OSRdyTbl s1 (OSTCBY t) AND OSTCBBitX t \<noteq> 0
                             then set_rdy (move_bits t newprio (rdy s1)) s1 else s1);
                       pevent = OSTCBEventPtr t;
                       s3 = (if pevent \<noteq> NULL
                             then upd_event pevent
                                    (\<lambda>e. set_ev_wait (move_bits t newprio (ev_wait e)) e) s2
                             else s2);
                       s4 = upd_tcb ptcb (\<lambda>t. tcb_coords newprio (t\<lparr>OSTCBPrio := newprio\<rparr>)) s3
                   in (OS_ERR_NONE, if OSRunning s4 then OS_Sched s4 else s4))"

section \<open>Queries and names\<close>

definition OSTaskQuery :: "u8 \<Rightarrow> os \<Rightarrow> u8 \<times> os_tcb option" where
  "OSTaskQuery prio0 s =
     (let prio = (if prio0 = OS_PRIO_SELF then OSTCBPrio (OSTCBMem s (OSTCBCur s)) else prio0);
          ptcb = OSTCBPrioTbl s prio
      in if ptcb = NULL then (OS_ERR_PRIO, None)
         else if ptcb = OS_TCB_RESERVED then (OS_ERR_TASK_NOT_EXIST, None)
         else (OS_ERR_NONE, Some (OSTCBMem s ptcb)))"

text \<open>Results: the returned length, the name stored through \<open>pname\<close>, and \<open>*perr\<close>.\<close>

definition OSTaskNameGet :: "u8 \<Rightarrow> os \<Rightarrow> u8 \<times> string option \<times> u8" where
  "OSTaskNameGet prio0 s =
     (if OSIntNesting s > 0 then (0, None, OS_ERR_NAME_GET_ISR)
      else let prio = (if prio0 = OS_PRIO_SELF then OSTCBPrio (OSTCBMem s (OSTCBCur s)) else prio0);
               ptcb = OSTCBPrioTbl s prio
           in if ptcb = NULL then (0, None, OS_ERR_TASK_NOT_EXIST)
              else if ptcb = OS_TCB_RESERVED then (0, None, OS_ERR_TASK_NOT_EXIST)
              else let pname = OSTCBTaskName (OSTCBMem s ptcb)
                   in (OS_StrLen pname, Some pname, OS_ERR_NONE))"

definition OSTaskNameSet :: "u8 \<Rightarrow> string \<Rightarrow> os \<Rightarrow> u8 \<times> os" where
  "OSTaskNameSet prio0 pname s =
     (if OSIntNesting s > 0 then (OS_ERR_NAME_SET_ISR, s)
      else let prio = (if prio0 = OS_PRIO_SELF then OSTCBPrio (OSTCBMem s (OSTCBCur s)) else prio0);
               ptcb = OSTCBPrioTbl s prio
           in if ptcb = NULL then (OS_ERR_TASK_NOT_EXIST, s)
              else if ptcb = OS_TCB_RESERVED then (OS_ERR_TASK_NOT_EXIST, s)
              else (OS_ERR_NONE, upd_tcb ptcb (\<lambda>t. t\<lparr>OSTCBTaskName := pname\<rparr>) s))"

end
