(* ===== verification/OS_Sched_Inv.thy ===== *)
theory OS_Sched_Inv
  imports OS_Invariant OS_Time OS_Task
begin

text \<open>
  The scheduler against the invariant: what \<open>OS_Sched\<close> leaves alone, which task it makes
  current, and the invariant of the current task that every kernel call keeps.
\<close>

section \<open>The scheduler changes only the current task\<close>

lemma sched_switch_frame [simp]:
  "OSEventFreeList (sched_switch s) = OSEventFreeList s"
  "OSEventMem (sched_switch s) = OSEventMem s" "OSIntNesting (sched_switch s) = OSIntNesting s"
  "OSLockNesting (sched_switch s) = OSLockNesting s" "OSRdyGrp (sched_switch s) = OSRdyGrp s"
  "OSRdyTbl (sched_switch s) = OSRdyTbl s" "OSRunning (sched_switch s) = OSRunning s"
  "OSTaskCtr (sched_switch s) = OSTaskCtr s" "OSTCBFreeList (sched_switch s) = OSTCBFreeList s"
  "OSTCBList (sched_switch s) = OSTCBList s" "OSTCBPrioTbl (sched_switch s) = OSTCBPrioTbl s"
  "OSTCBMem (sched_switch s) = OSTCBMem s" "OSMemFreeList (sched_switch s) = OSMemFreeList s"
  "OSMemMem (sched_switch s) = OSMemMem s" "OSQFreeList (sched_switch s) = OSQFreeList s"
  "OSQMem (sched_switch s) = OSQMem s" "OSTime (sched_switch s) = OSTime s"
  "app_mem (sched_switch s) = app_mem s" "rdy (sched_switch s) = rdy s"
  "core (sched_switch s) = core s" "ready (sched_switch s) = ready s"
  "waiting (sched_switch s) e = waiting s e" "ev_type (sched_switch s) e = ev_type s e"
  by (simp_all add: sched_switch_def OS_SchedNew_def OSCtxSw_def Let_def core_def ready_def waiting_def ev_type_def rdy_def)

lemma OS_Sched_frame [simp]:
  "OSEventFreeList (OS_Sched s) = OSEventFreeList s" "OSEventMem (OS_Sched s) = OSEventMem s"
  "OSIntNesting (OS_Sched s) = OSIntNesting s" "OSLockNesting (OS_Sched s) = OSLockNesting s"
  "OSRdyGrp (OS_Sched s) = OSRdyGrp s" "OSRdyTbl (OS_Sched s) = OSRdyTbl s"
  "OSRunning (OS_Sched s) = OSRunning s" "OSTaskCtr (OS_Sched s) = OSTaskCtr s"
  "OSTCBFreeList (OS_Sched s) = OSTCBFreeList s" "OSTCBList (OS_Sched s) = OSTCBList s"
  "OSTCBPrioTbl (OS_Sched s) = OSTCBPrioTbl s" "OSTCBMem (OS_Sched s) = OSTCBMem s"
  "OSMemFreeList (OS_Sched s) = OSMemFreeList s" "OSMemMem (OS_Sched s) = OSMemMem s"
  "OSQFreeList (OS_Sched s) = OSQFreeList s" "OSQMem (OS_Sched s) = OSQMem s"
  "OSTime (OS_Sched s) = OSTime s" "app_mem (OS_Sched s) = app_mem s" "rdy (OS_Sched s) = rdy s"
  "core (OS_Sched s) = core s" "ready (OS_Sched s) = ready s"
  "waiting (OS_Sched s) e = waiting s e" "ev_type (OS_Sched s) e = ev_type s e"
  by (simp_all add: OS_Sched_def)

lemma task_inv_switch [simp]: "task_inv (sched_switch s) \<longleftrightarrow> task_inv s"
  by (rule task_inv_core) simp

lemma task_inv_sched [simp]: "task_inv (OS_Sched s) \<longleftrightarrow> task_inv s"
  by (rule task_inv_core) simp

section \<open>The current task\<close>

text \<open>
  While the kernel runs, the current task is the task of priority \<open>OSPrioCur\<close>; outside
  interrupts and with the scheduler unlocked it is ready, and it is the most urgent ready task
  unless a service that was told not to reschedule has deferred the switch (\<open>dfr\<close>). The idle task
  is always ready.
\<close>

definition cur_inv :: "os \<Rightarrow> bool" where
  "cur_inv s \<longleftrightarrow> OSRunning s \<longrightarrow> OSPrioCur s < 64 \<and> is_task (OSTCBCur s)
     \<and> OSTCBCur s = OSTCBPrioTbl s (OSPrioCur s)"

definition sched_inv :: "bool \<Rightarrow> os \<Rightarrow> bool" where
  "sched_inv dfr s \<longleftrightarrow> OSRunning s \<and> OSIntNesting s = 0 \<and> OSLockNesting s = 0
     \<longrightarrow> (if dfr then OSPrioCur s \<in> bm_prios (rdy s) else OSPrioCur s = bm_highest (rdy s))"

definition idle_inv :: "os \<Rightarrow> bool" where
  "idle_inv s \<longleftrightarrow> OS_TASK_IDLE_PRIO \<in> ready s"

definition kernel_inv :: "bool \<Rightarrow> os \<Rightarrow> bool" where
  "kernel_inv dfr s \<longleftrightarrow> task_inv s \<and> idle_inv s \<and> cur_inv s \<and> sched_inv dfr s"

lemma kernel_invD:
  assumes "kernel_inv dfr s"
  shows "task_inv s" "idle_inv s" "cur_inv s" "sched_inv dfr s"
  using assms by (simp_all add: kernel_inv_def)

text \<open>The most urgent ready task.\<close>

definition top_ready :: "os \<Rightarrow> u8" where
  "top_ready s = bm_highest (rdy s)"

lemma top_ready:
  assumes "task_inv s" "idle_inv s"
  shows "top_ready s \<in> ready s" "top_ready s = Min (ready s)"
proof -
  have "bm_prios (rdy s) \<noteq> {}" using assms(2) by (auto simp: ready_def idle_inv_def)
  then show "top_ready s \<in> ready s" "top_ready s = Min (ready s)"
    using bm.best_in bm.best_Min task_inv_bm(1) [OF assms(1)] by (simp_all add: top_ready_def ready_def)
qed

lemma sched_switch_cur:
  assumes inv: "task_inv s" and idle: "idle_inv s"
    and cur: "OSPrioCur s = top_ready s \<Longrightarrow> OSTCBCur s = OSTCBPrioTbl s (OSPrioCur s)"
  shows "OSPrioCur (sched_switch s) = top_ready s"
    "OSTCBCur (sched_switch s) = OSTCBPrioTbl s (top_ready s)"
proof -
  have high: "push_bit 3 (OSUnMap (OSRdyGrp s)) + OSUnMap (OSRdyTbl s (OSUnMap (OSRdyGrp s))) = top_ready s"
    by (simp add: top_ready_def bm_highest_def rdy_def Let_def)
  show "OSPrioCur (sched_switch s) = top_ready s"
    "OSTCBCur (sched_switch s) = OSTCBPrioTbl s (top_ready s)"
    using cur by (auto simp: sched_switch_def OS_SchedNew_def OSCtxSw_def Let_def high)
qed

text \<open>
  \<open>OS_Sched\<close> restores the invariant after a call has changed the ready list. The caller
  itself may have stopped being ready, or have left its priority.
\<close>

lemma OS_Sched_inv:
  assumes inv: "task_inv s" and idle: "idle_inv s" 
    and cur: "cur_inv s \<or> OSIntNesting s = 0 \<and> OSLockNesting s = 0 \<and> OSPrioCur s \<notin> ready s"
  shows "kernel_inv dfr (OS_Sched s)"
proof (cases "OSIntNesting s = 0 \<and> OSLockNesting s = 0")
  case True
  then have sw: "OS_Sched s = sched_switch s" by (simp add: OS_Sched_def)
  note top = top_ready [OF inv idle]
  show ?thesis
  proof (cases "OSRunning s")
    case run: True
    have "OSTCBCur s = OSTCBPrioTbl s (OSPrioCur s)" if "OSPrioCur s = top_ready s"
      using cur top run that by (auto simp: cur_inv_def)
    note new = sched_switch_cur [OF inv idle this]
    have "is_task (OSTCBPrioTbl s (top_ready s))" "top_ready s < 64" using ready_task [OF inv top(1)] by auto
    then show ?thesis unfolding sw kernel_inv_def using inv idle new top
      by (simp add: cur_inv_def sched_inv_def idle_inv_def top_ready_def ready_def)
  next
    case False
    then show ?thesis unfolding sw kernel_inv_def using inv idle
      by (simp add: cur_inv_def sched_inv_def idle_inv_def)
  qed
next
  case False
  then have "OS_Sched s = s" by (auto simp: OS_Sched_def)
  then show ?thesis using False inv idle cur by (auto simp: kernel_inv_def sched_inv_def)
qed

lemma sched_or_inv:
  assumes "task_inv s" "idle_inv s" "cur_inv s" "\<not> c \<Longrightarrow> sched_inv dfr s"
  shows "kernel_inv dfr (if c then OS_Sched s else s)"
  using OS_Sched_inv [of s] assms by (cases c) (simp_all add: kernel_inv_def)

lemma sched_inv_weaken: "task_inv s \<Longrightarrow> idle_inv s \<Longrightarrow> sched_inv False s \<Longrightarrow> sched_inv dfr s"
  using top_ready(1) [of s] by (auto simp: sched_inv_def top_ready_def ready_def)

lemma kernel_inv_weaken: "kernel_inv False s \<Longrightarrow> kernel_inv dfr s"
  using sched_inv_weaken by (simp add: kernel_inv_def)

text \<open>A call that changes neither the task data nor the current task.\<close>

lemma kernel_inv_same:
  assumes "kernel_inv dfr s" "core s' = core s" "OSTCBCur s' = OSTCBCur s" "OSPrioCur s' = OSPrioCur s"
    "OSRunning s' = OSRunning s" "OSIntNesting s' = OSIntNesting s" "OSLockNesting s' = OSLockNesting s"
  shows "kernel_inv dfr s'"
  using assms(1)
  by (simp only: kernel_inv_def task_inv_core [OF assms(2)] cur_inv_def sched_inv_def idle_inv_def
      core_eqD [OF assms(2)] assms(3-7)) blast

end
