(* ===== verification/OS_Steps.thy ===== *)
theory OS_Steps
  imports OS_Sched_Inv
begin

text \<open>
  The building blocks of the kernel services keep the kernel invariant: blocking the current
  task, waking waiters, the wake-up of a blocked call, the clock tick, suspending and
  resuming, changing a priority.
\<close>

lemma task_step_frame [simp]:
  "OSRunning (task_step q b e w f s) = OSRunning s" "OSTCBCur (task_step q b e w f s) = OSTCBCur s"
  "OSPrioCur (task_step q b e w f s) = OSPrioCur s"
  "OSIntNesting (task_step q b e w f s) = OSIntNesting s"
  "OSLockNesting (task_step q b e w f s) = OSLockNesting s"
  by (simp_all add: task_step_def)

lemma cur_inv_frame:
  assumes "OSRunning s' = OSRunning s" "OSTCBCur s' = OSTCBCur s" "OSPrioCur s' = OSPrioCur s"
    "OSTCBPrioTbl s' = OSTCBPrioTbl s" "cur_inv s"
  shows "cur_inv s'"
  using assms by (auto simp: cur_inv_def)

section \<open>The current task\<close>

lemma cur_task:
  assumes "kernel_inv dfr s" "OSRunning s"
  shows "OSPrioCur s < 64" "is_task (OSTCBPrioTbl s (OSPrioCur s))"
    "OSTCBCur s = OSTCBPrioTbl s (OSPrioCur s)"
    "tcb_ok s (OSPrioCur s) (OSTCBMem s (OSTCBCur s))" "tcb_wf (OSPrioCur s) (OSTCBMem s (OSTCBCur s))"
proof -
  show *: "OSPrioCur s < 64" "is_task (OSTCBPrioTbl s (OSPrioCur s))"
    "OSTCBCur s = OSTCBPrioTbl s (OSPrioCur s)"
    using kernel_invD(3) [OF assms(1)] assms(2) by (auto simp: cur_inv_def)
  show "tcb_ok s (OSPrioCur s) (OSTCBMem s (OSTCBCur s))"
    using task_tcb [OF kernel_invD(1) [OF assms(1)] *(1,2)] * by simp
  then show "tcb_wf (OSPrioCur s) (OSTCBMem s (OSTCBCur s))" by (rule tcb_ok_wf)
qed

lemma cur_ready:
  assumes inv: "kernel_inv dfr s" and run: "OSRunning s" and task: "OSIntNesting s = 0" "OSLockNesting s = 0"
  shows "OSPrioCur s \<in> ready s" "OSTCBStat (OSTCBMem s (OSTCBCur s)) = 0"
    "OSTCBDly (OSTCBMem s (OSTCBCur s)) = 0"
proof -
  show r: "OSPrioCur s \<in> ready s"
    using kernel_invD(4) [OF inv] run task top_ready(1) [OF kernel_invD(1,2) [OF inv]]
    by (cases dfr) (simp_all add: sched_inv_def top_ready_def ready_def)
  show "OSTCBStat (OSTCBMem s (OSTCBCur s)) = 0" "OSTCBDly (OSTCBMem s (OSTCBCur s)) = 0"
    using r cur_task(4) [OF inv run] by (auto simp: tcb_ok_def)
qed

section \<open>Delaying\<close>

lemma unready_dly_inv:
  assumes inv: "task_inv s" and p: "p < 64" and task: "is_task (OSTCBPrioTbl s p)"
    and free: "OSTCBEventPtr (OSTCBMem s (OSTCBPrioTbl s p)) = NULL" and n: "n \<noteq> 0"
  shows "task_inv (set_rdy (bm_del p (rdy s)) (upd_tcb (OSTCBPrioTbl s p) (\<lambda>t. t\<lparr>OSTCBDly := n\<rparr>) s))"
proof (rule task_inv_step0 [OF inv p task])
  show "tcb_ok (set_rdy (bm_del p (rdy s)) (upd_tcb (OSTCBPrioTbl s p) (\<lambda>t. t\<lparr>OSTCBDly := n\<rparr>) s)) p
    ((OSTCBMem s (OSTCBPrioTbl s p))\<lparr>OSTCBDly := n\<rparr>)"
    using task_tcb [OF inv p task] free n p by (simp add: tcb_ok_def bm.prios_del)
qed simp

lemma idle_del: "idle_inv s \<Longrightarrow> p < 64 \<Longrightarrow> p \<noteq> 63 \<Longrightarrow> 63 \<in> bm_prios (bm_del p (rdy s))"
  by (auto simp: idle_inv_def ready_def bm.prios_del)

lemma OSTimeDly_inv:
  assumes inv: "kernel_inv dfr s" and run: "OSRunning s" and not_idle: "OSPrioCur s \<noteq> OS_TASK_IDLE_PRIO"
    and free: "OSTCBEventPtr (OSTCBMem s (OSTCBCur s)) = NULL"
  shows "kernel_inv dfr (OSTimeDly n s)"
proof (cases "OSIntNesting s > 0 \<or> OSLockNesting s > 0 \<or> n = 0")
  case True
  then have "OSTimeDly n s = s" by (auto simp: OSTimeDly_def)
  then show ?thesis using inv by simp
next
  case False
  note cur = cur_task [OF inv run]
  let ?p = "OSPrioCur s"
  let ?s = "set_rdy (bm_del ?p (rdy s)) (upd_tcb (OSTCBPrioTbl s ?p) (\<lambda>t. t\<lparr>OSTCBDly := n\<rparr>) s)"
  have "OSTimeDly n s = OS_Sched ?s"
    using False cur by (simp add: OSTimeDly_def make_unready_nf Let_def word_gt_0 upd_comm)
  moreover have "kernel_inv dfr (OS_Sched ?s)"
  proof (rule OS_Sched_inv)
    show "task_inv ?s"
      using unready_dly_inv [OF kernel_invD(1) [OF inv] cur(1,2)] free False cur(3) by simp
    show "idle_inv ?s" using idle_del [OF kernel_invD(2) [OF inv] cur(1) not_idle]
      by (simp add: idle_inv_def)
    show "cur_inv ?s \<or> OSIntNesting ?s = 0 \<and> OSLockNesting ?s = 0 \<and> OSPrioCur ?s \<notin> ready ?s"
      using False cur(1) by (simp add: bm.prios_del word_gt_0)
  qed
  ultimately show ?thesis by simp
qed

section \<open>Blocking on an event\<close>

lemma block_inv:
  assumes inv: "task_inv s" and p: "p < 64" and task: "is_task (OSTCBPrioTbl s p)"
    and free: "OSTCBEventPtr (OSTCBMem s (OSTCBPrioTbl s p)) = NULL"
    and stat: "OSTCBStat (OSTCBMem s (OSTCBPrioTbl s p)) = 0"
    and e: "e \<in> events" and bit: "m = ev_bit (ev_type s e)" "m \<noteq> 0"
  shows "task_inv (task_step (OSTCBPrioTbl s p) (bm_del p (rdy s)) e (bm_ins p (ev_wait (OSEventMem s e)))
    (\<lambda>t. t\<lparr>OSTCBStat := OSTCBStat t OR m, OSTCBStatPend := ps, OSTCBDly := n, OSTCBEventPtr := e\<rparr>) s)"
proof (rule task_inv_step [OF inv p task e])
  let ?t = "OSTCBMem s (OSTCBPrioTbl s p)"
  note ok = task_tcb [OF inv p task]
  have m: "m \<in> {1, 2, 4, 16}" using bit ev_bit_cases [of "ev_type s e"] by auto
  then have "m \<in> stats" "m AND OS_STAT_PEND_ANY = m" by (auto simp: stats_def)
  moreover have "p \<in> waiting s x \<longleftrightarrow> False" if "x \<in> events" for x
    using tcb_ok_events [OF ok that] free NULL_not_event [OF that] by simp
  ultimately show "tcb_ok (task_step (OSTCBPrioTbl s p) (bm_del p (rdy s)) e (bm_ins p (ev_wait (OSEventMem s e)))
      (\<lambda>t. t\<lparr>OSTCBStat := OSTCBStat t OR m, OSTCBStatPend := ps, OSTCBDly := n, OSTCBEventPtr := e\<rparr>) s) p
      (?t\<lparr>OSTCBStat := OSTCBStat ?t OR m, OSTCBStatPend := ps, OSTCBDly := n, OSTCBEventPtr := e\<rparr>)"
    using tcb_ok_wf [OF ok] stat bit e NULL_not_event [OF e] p
    by (auto simp: tcb_ok_def bm.prios_ins bm.prios_del)
  show "ev_type s e \<noteq> OS_EVENT_TYPE_UNUSED" using bit by (auto simp: ev_bit_def)
qed (simp_all add: Let_def)

lemma pend_block_nf:
  assumes wf: "tcb_wf p (OSTCBMem s (OSTCBCur s))"
  shows "pend_block m n e s = OS_Sched (task_step (OSTCBCur s) (bm_del p (rdy s)) e
    (bm_ins p (ev_wait (OSEventMem s e)))
    (\<lambda>t. t\<lparr>OSTCBStat := OSTCBStat t OR m, OSTCBStatPend := OS_STAT_PEND_OK, OSTCBDly := n,
           OSTCBEventPtr := e\<rparr>) s)"
proof -
  let ?s1 = "upd_tcb (OSTCBCur s) (\<lambda>t. t\<lparr>OSTCBStat := OSTCBStat t OR m,
     OSTCBStatPend := OS_STAT_PEND_OK, OSTCBDly := n\<rparr>) s"
  have "tcb_wf p (OSTCBMem ?s1 (OSTCBCur ?s1))" using wf by simp
  then show ?thesis
    by (simp add: pend_block_def OS_EventTaskWait_nf) (simp add: task_step_def upd_defs)
qed

lemma pend_block_inv:
  assumes inv: "kernel_inv dfr s" and run: "OSRunning s" and lev: "OSIntNesting s = 0" "OSLockNesting s = 0"
    and not_idle: "OSPrioCur s \<noteq> OS_TASK_IDLE_PRIO"
    and free: "OSTCBEventPtr (OSTCBMem s (OSTCBCur s)) = NULL"
    and e: "e \<in> events" and bit: "m = ev_bit (ev_type s e)" "m \<noteq> 0"
  shows "kernel_inv dfr (pend_block m n e s)"
  unfolding pend_block_nf [OF cur_task(5) [OF inv run]]
proof (rule OS_Sched_inv)
  note cur = cur_task [OF inv run]
  let ?s = "task_step (OSTCBCur s) (bm_del (OSPrioCur s) (rdy s)) e
    (bm_ins (OSPrioCur s) (ev_wait (OSEventMem s e)))
    (\<lambda>t. t\<lparr>OSTCBStat := OSTCBStat t OR m, OSTCBStatPend := OS_STAT_PEND_OK, OSTCBDly := n,
           OSTCBEventPtr := e\<rparr>) s"
  show "task_inv ?s"
    using block_inv [OF kernel_invD(1) [OF inv] cur(1,2) _ _ e bit] free cur_ready [OF inv run lev] cur(3)
    by simp
  show "idle_inv ?s" using idle_del [OF kernel_invD(2) [OF inv] cur(1) not_idle]
    by (simp add: idle_inv_def)
  show "cur_inv ?s \<or> OSIntNesting ?s = 0 \<and> OSLockNesting ?s = 0 \<and> OSPrioCur ?s \<notin> ready ?s"
    using lev cur(1) by (simp add: bm.prios_del task_step_def)
qed

section \<open>Waking waiters\<close>

lemma rdy_one_ready:
  assumes "task_inv s" "e \<in> events" "waiting s e \<noteq> {}"
  shows "ready s \<subseteq> ready (snd (OS_EventTaskRdy e pmsg msk ps s))"
    "ready (snd (OS_EventTaskRdy e pmsg msk ps s)) \<subseteq> insert (top_waiter s e) (ready s)"
  using waiting_task(2) [OF assms(1,2) top_waiter(1) [OF assms]]
  by (auto simp: rdy_one_nf [OF assms] bm.prios_ins ready_def)

lemma rdy_all_ready:
  assumes "task_inv s" "e \<in> events" "msk = ev_bit (ev_type s e)" "msk \<noteq> 0"
  shows "ready s \<subseteq> ready (snd (OS_EventRdyAll n e pmsg msk ps s))"
  using assms
proof (induction n arbitrary: s)
  case (Suc n)
  show ?case
  proof (cases "waiting s e = {}")
    case True
    then show ?thesis using ev_grp_waiting [OF Suc.prems(1,2)] by simp
  next
    case False
    let ?s1 = "snd (OS_EventTaskRdy e pmsg msk ps s)"
    have "task_inv ?s1" using rdy_one_inv [OF Suc.prems(1,2) False Suc.prems(3,4)] .
    then have "ready ?s1 \<subseteq> ready (snd (OS_EventRdyAll n e pmsg msk ps ?s1))"
      using Suc.IH [of ?s1] Suc.prems by simp
    moreover have "OS_EventRdyAll (Suc n) e pmsg msk ps s =
      (fst (OS_EventRdyAll n e pmsg msk ps ?s1) + 1, snd (OS_EventRdyAll n e pmsg msk ps ?s1))"
      using ev_grp_waiting [OF Suc.prems(1,2)] False by (simp add: split_beta)
    ultimately show ?thesis using rdy_one_ready(1) [OF Suc.prems(1,2) False] by fastforce
  qed
qed simp

lemma rdy_one_sched_inv:
  assumes inv: "kernel_inv dfr s" and e: "e \<in> events" and ne: "waiting s e \<noteq> {}"
    and msk: "msk = ev_bit (ev_type s e)" "msk \<noteq> 0"
  shows "kernel_inv dfr (OS_Sched (snd (OS_EventTaskRdy e pmsg msk ps s)))"
proof (rule OS_Sched_inv)
  note i = kernel_invD [OF inv]
  show "task_inv (snd (OS_EventTaskRdy e pmsg msk ps s))" by (rule rdy_one_inv [OF i(1) e ne msk])
  show "idle_inv (snd (OS_EventTaskRdy e pmsg msk ps s))"
    using rdy_one_ready(1) [OF i(1) e ne] i(2) by (auto simp: idle_inv_def)
  show "cur_inv (snd (OS_EventTaskRdy e pmsg msk ps s)) \<or>
    OSIntNesting (snd (OS_EventTaskRdy e pmsg msk ps s)) = 0 \<and>
    OSLockNesting (snd (OS_EventTaskRdy e pmsg msk ps s)) = 0 \<and>
    OSPrioCur (snd (OS_EventTaskRdy e pmsg msk ps s)) \<notin> ready (snd (OS_EventTaskRdy e pmsg msk ps s))"
    using cur_inv_frame [OF _ _ _ _ i(3)] by simp
qed

lemma rdy_all_props:
  assumes inv: "kernel_inv dfr s" and e: "e \<in> events" and msk: "msk = ev_bit (ev_type s e)" "msk \<noteq> 0"
  shows "task_inv (snd (OS_EventRdyAll 64 e pmsg msk ps s))"
    "idle_inv (snd (OS_EventRdyAll 64 e pmsg msk ps s))"
    "cur_inv (snd (OS_EventRdyAll 64 e pmsg msk ps s))"
    "waiting (snd (OS_EventRdyAll 64 e pmsg msk ps s)) x = (if x = e then {} else waiting s x)"
    "ev_type (snd (OS_EventRdyAll 64 e pmsg msk ps s)) x = ev_type s x"
    "fst (OS_EventRdyAll 64 e pmsg msk ps s) = word_of_nat (card (waiting s e))"
proof -
  note i = kernel_invD [OF inv]
  note all = OS_EventRdyAll_inv [OF i(1) e msk card_waiting, of pmsg ps]
  show "task_inv (snd (OS_EventRdyAll 64 e pmsg msk ps s))"
    "waiting (snd (OS_EventRdyAll 64 e pmsg msk ps s)) x = (if x = e then {} else waiting s x)"
    "ev_type (snd (OS_EventRdyAll 64 e pmsg msk ps s)) x = ev_type s x"
    "fst (OS_EventRdyAll 64 e pmsg msk ps s) = word_of_nat (card (waiting s e))"
    using all [of x] by blast+
  show "idle_inv (snd (OS_EventRdyAll 64 e pmsg msk ps s))"
    using rdy_all_ready [OF i(1) e msk] i(2) by (auto simp: idle_inv_def)
  show "cur_inv (snd (OS_EventRdyAll 64 e pmsg msk ps s))"
    by (rule cur_inv_frame [OF _ _ _ _ i(3)]) simp_all
qed

lemma rdy_all_sched_inv:
  assumes "kernel_inv dfr s" "e \<in> events" "msk = ev_bit (ev_type s e)" "msk \<noteq> 0"
  shows "kernel_inv dfr (OS_Sched (snd (OS_EventRdyAll 64 e pmsg msk ps s)))"
  using rdy_all_props(1-3) [OF assms] by (intro OS_Sched_inv) simp_all

section \<open>After a wake-up\<close>

lemma set_rdy_rdy: "task_step q (rdy s) e w f s = upd_event e (\<lambda>v. set_ev_wait w v) (upd_tcb q f s)"
  by (simp add: task_step_def upd_defs)

text \<open>
  A task that runs again after a blocked call either was posted to (then it has left the wait
  list) or timed out (then \<open>pend_wakeup\<close> takes it off). Either way it waits for nothing after.
\<close>

lemma pend_wakeup_nf:
  assumes inv: "kernel_inv dfr s" and run: "OSRunning s" and lev: "OSIntNesting s = 0" "OSLockNesting s = 0"
    and ev: "OSTCBEventPtr (OSTCBMem s (OSTCBCur s)) \<in> {NULL, e}" and e: "e \<in> events"
  shows "snd (pend_wakeup e s) = task_step (OSTCBCur s) (rdy s) e
     (if OSTCBStatPend (OSTCBMem s (OSTCBCur s)) \<in> {OS_STAT_PEND_OK, OS_STAT_PEND_ABORT}
      then ev_wait (OSEventMem s e) else bm_del (OSPrioCur s) (ev_wait (OSEventMem s e)))
     (\<lambda>t. t\<lparr>OSTCBStat := OS_STAT_RDY, OSTCBStatPend := OS_STAT_PEND_OK, OSTCBEventPtr := NULL\<rparr>) s"
  using OS_EventTaskRemove_nf [OF cur_task(5) [OF inv run], of e]
  by (simp add: pend_wakeup_def Let_def task_step_same_event)
    (simp add: set_rdy_rdy task_step_def upd_defs)

lemma pend_wakeup_inv:
  assumes inv: "kernel_inv dfr s" and run: "OSRunning s" and lev: "OSIntNesting s = 0" "OSLockNesting s = 0"
    and ev: "OSTCBEventPtr (OSTCBMem s (OSTCBCur s)) \<in> {NULL, e}" and e: "e \<in> events"
  shows "kernel_inv dfr (snd (pend_wakeup e s))"
proof -
  note i = kernel_invD [OF inv]
  note cur = cur_task [OF inv run]
  note rdy = cur_ready [OF inv run lev]
  let ?p = "OSPrioCur s" and ?t = "OSTCBMem s (OSTCBCur s)"
  let ?w = "if OSTCBStatPend ?t \<in> {OS_STAT_PEND_OK, OS_STAT_PEND_ABORT}
      then ev_wait (OSEventMem s e) else bm_del ?p (ev_wait (OSEventMem s e))"
  let ?f = "\<lambda>t. t\<lparr>OSTCBStat := OS_STAT_RDY, OSTCBStatPend := OS_STAT_PEND_OK, OSTCBEventPtr := NULL\<rparr>"
  let ?s = "task_step (OSTCBCur s) (rdy s) e ?w ?f s"
  have off: "?p \<notin> bm_prios ?w"
  proof (cases "OSTCBEventPtr ?t = NULL")
    case True
    then have "?p \<notin> waiting s e" using tcb_ok_events [OF cur(4) e] NULL_not_event [OF e] by simp
    then show ?thesis using cur(1) by (simp add: bm.prios_del waiting_def)
  next
    case False
    then have "OSTCBStatPend ?t = OS_STAT_PEND_TO"
      using cur(4) rdy(2) ev e by (auto simp: tcb_ok_def ev_bit_def task_inv_unused split: if_splits)
    then show ?thesis using cur(1) by (simp add: bm.prios_del)
  qed
  have inv': "task_inv ?s"
  proof (rule task_inv_step [OF i(1) cur(1,2) e, folded cur(3)])
    show "?w \<in> (let v = ev_wait (OSEventMem s e) in {v, bm_ins ?p v, bm_del ?p v})"
      by (simp add: Let_def)
    show "tcb_ok ?s ?p (?f ?t)"
    proof (rule tcb_ok_free)
      show "?p \<notin> waiting ?s x" if "x \<in> events" for x
        using off tcb_ok_events [OF cur(4) that] ev NULL_not_event [OF that] by auto
    qed (use cur(5) rdy in \<open>simp_all add: ready_def\<close>)
  qed (use off in simp_all)
  have "kernel_inv dfr ?s"
    unfolding kernel_inv_def
    using i inv' cur_inv_frame [of ?s s] by (simp add: sched_inv_def idle_inv_def ready_def)
  then show ?thesis by (simp add: pend_wakeup_nf [OF assms])
qed

section \<open>The clock tick\<close>

text \<open>What a tick does to one control block.\<close>

definition tick_tcb :: "os_tcb \<Rightarrow> os_tcb" where
  "tick_tcb t =
     (if OSTCBDly t = 0 then t
      else if OSTCBDly t - 1 \<noteq> 0 then t\<lparr>OSTCBDly := OSTCBDly t - 1\<rparr>
      else if OSTCBStat t AND OS_STAT_PEND_ANY \<noteq> 0
      then t\<lparr>OSTCBDly := 0, OSTCBStat := OSTCBStat t AND NOT OS_STAT_PEND_ANY,
             OSTCBStatPend := OS_STAT_PEND_TO\<rparr>
      else t\<lparr>OSTCBDly := 0, OSTCBStatPend := OS_STAT_PEND_OK\<rparr>)"

lemma tick_tcb_wf [simp]: "tcb_wf p (tick_tcb t) = tcb_wf p t"
  by (simp add: tick_tcb_def)

lemma tick_tcb_sel [simp]:
  "OSTCBNext (tick_tcb t) = OSTCBNext t" "OSTCBPrev (tick_tcb t) = OSTCBPrev t"
  "OSTCBPrio (tick_tcb t) = OSTCBPrio t" "OSTCBEventPtr (tick_tcb t) = OSTCBEventPtr t"
  by (simp_all add: tick_tcb_def)

definition tick_wakes :: "os_tcb \<Rightarrow> bool" where
  "tick_wakes t \<longleftrightarrow> OSTCBDly t = 1 \<and> OSTCBStat (tick_tcb t) AND OS_STAT_SUSPEND = 0"

lemma tick_task_nf:
  assumes wf: "tcb_wf p (OSTCBMem s q)"
  shows "tick_task q s = set_rdy (if tick_wakes (OSTCBMem s q) then bm_ins p (rdy s) else rdy s)
    (upd_tcb q tick_tcb s)"
proof -
  let ?t = "OSTCBMem s q"
  consider "OSTCBDly ?t = 0" | "OSTCBDly ?t \<noteq> 0" "OSTCBDly ?t - 1 \<noteq> 0" | "OSTCBDly ?t = 1"
    by force
  then show ?thesis
  proof cases
    case 1
    then have "tick_tcb ?t = ?t" by (simp add: tick_tcb_def)
    then have "upd_tcb q tick_tcb s = s" by (simp add: upd_tcb_def)
    with 1 show ?thesis by (simp add: tick_task_def tick_wakes_def) (simp add: upd_defs)
  next
    case 2
    then have "upd_tcb q tick_tcb s = upd_tcb q (\<lambda>t. t\<lparr>OSTCBDly := OSTCBDly t - 1\<rparr>) s"
      by (simp add: upd_tcb_def tick_tcb_def)
    with 2 show ?thesis by (simp add: tick_task_def tick_wakes_def Let_def) (simp add: upd_defs)
  next
    case 3
    let ?s1 = "upd_tcb q (\<lambda>t. t\<lparr>OSTCBDly := OSTCBDly t - 1\<rparr>) s"
    let ?s2 = "if OSTCBStat (OSTCBMem ?s1 q) AND OS_STAT_PEND_ANY \<noteq> OS_STAT_RDY
      then upd_tcb q (\<lambda>t. t\<lparr>OSTCBStat := OSTCBStat t AND NOT OS_STAT_PEND_ANY,
             OSTCBStatPend := OS_STAT_PEND_TO\<rparr>) ?s1
      else upd_tcb q (\<lambda>t. t\<lparr>OSTCBStatPend := OS_STAT_PEND_OK\<rparr>) ?s1"
    have s2: "?s2 = upd_tcb q tick_tcb s" using 3 by (simp add: upd_tcb_def tick_tcb_def)
    have "tick_task q s = (if OSTCBStat (OSTCBMem (upd_tcb q tick_tcb s) q) AND OS_STAT_SUSPEND = OS_STAT_RDY
      then make_ready q (upd_tcb q tick_tcb s) else upd_tcb q tick_tcb s)"
      using 3 unfolding tick_task_def Let_def s2 by simp
    moreover have "tcb_wf p (OSTCBMem (upd_tcb q tick_tcb s) q)" using wf by simp
    ultimately show ?thesis
      using 3 upd_same(4) [of "upd_tcb q tick_tcb s"] by (simp add: make_ready_nf tick_wakes_def)
  qed
qed

lemma tick_task_frame [simp]:
  "OSTCBPrioTbl (tick_task q s) = OSTCBPrioTbl s" "OSTCBCur (tick_task q s) = OSTCBCur s"
  "OSPrioCur (tick_task q s) = OSPrioCur s" "OSRunning (tick_task q s) = OSRunning s"
  "OSIntNesting (tick_task q s) = OSIntNesting s" "OSLockNesting (tick_task q s) = OSLockNesting s"
  "OSTCBList (tick_task q s) = OSTCBList s" "OSTCBFreeList (tick_task q s) = OSTCBFreeList s"
  "OSTaskCtr (tick_task q s) = OSTaskCtr s" "OSTime (tick_task q s) = OSTime s"
  "waiting (tick_task q s) e = waiting s e" "ev_type (tick_task q s) e = ev_type s e"
  "OSEventMem (tick_task q s) = OSEventMem s" "OSEventFreeList (tick_task q s) = OSEventFreeList s"
  by (simp_all add: tick_task_def make_ready_def Let_def)

lemma stats_clear: "x \<in> stats \<Longrightarrow> x AND NOT OS_STAT_PEND_ANY \<in> {0, 8}"
  and stats_nopend: "x \<in> stats \<Longrightarrow> x AND OS_STAT_PEND_ANY = 0 \<Longrightarrow> x \<in> {0, 8}"
  by (auto simp: stats_def)

lemma tick_tcb_ok:
  assumes ok: "tcb_ok s p t" and p: "p < 64"
  shows "tcb_ok (set_rdy (if tick_wakes t then bm_ins p (rdy s) else rdy s) (upd_tcb q f s)) p (tick_tcb t)"
proof -
  consider "OSTCBDly t = 0" | "OSTCBDly t \<noteq> 0" "OSTCBDly t - 1 \<noteq> 0" | "OSTCBDly t = 1"
    by force
  then show ?thesis
  proof cases
    case 1
    then have "tick_tcb t = t" "\<not> tick_wakes t" by (simp_all add: tick_tcb_def tick_wakes_def)
    with ok show ?thesis by (simp add: tcb_ok_def ready_def)
  next
    case 2
    then have "tick_tcb t = t\<lparr>OSTCBDly := OSTCBDly t - 1\<rparr>" "\<not> tick_wakes t"
      by (auto simp: tick_tcb_def tick_wakes_def)
    with 2 ok show ?thesis by (auto simp: tcb_ok_def ready_def)
  next
    case 3
    have st: "OSTCBStat t \<in> stats" using ok by (simp add: tcb_ok_def)
    have nr: "p \<notin> bm_prios (rdy s)" using ok 3 by (simp add: tcb_ok_def ready_def)
    have st': "OSTCBStat (tick_tcb t) \<in> {0, 8}" "OSTCBDly (tick_tcb t) = 0"
      using 3 stats_clear [OF st] stats_nopend [OF st] by (auto simp: tick_tcb_def)
    have wakes: "tick_wakes t \<longleftrightarrow> OSTCBStat (tick_tcb t) = 0" using 3 st' by (auto simp: tick_wakes_def)
    have "OSTCBEventPtr t \<noteq> NULL \<Longrightarrow> OSTCBStatPend (tick_tcb t) = OS_STAT_PEND_TO"
      using 3 ok by (auto simp: tcb_ok_def tick_tcb_def)
    moreover have "OSTCBStat (tick_tcb t) AND OS_STAT_PEND_ANY = 0" "OSTCBStat (tick_tcb t) \<in> stats"
      using st' by (auto simp: stats_def)
    ultimately show ?thesis
      using ok st' nr wakes p by (simp add: tcb_ok_def bm.prios_ins)
  qed
qed

lemma tick_task_inv:
  assumes inv: "task_inv s" and p: "p < 64" and task: "is_task (OSTCBPrioTbl s p)"
  shows "task_inv (tick_task (OSTCBPrioTbl s p) s)"
  unfolding tick_task_nf [OF prio_task [OF assms]]
  by (rule task_inv_step0 [OF assms]) (simp_all add: tick_tcb_ok [OF task_tcb [OF assms] p])

lemma tick_task_ready:
  assumes "task_inv s" "p < 64" "is_task (OSTCBPrioTbl s p)"
  shows "ready (tick_task (OSTCBPrioTbl s p) s) =
    (if tick_wakes (OSTCBMem s (OSTCBPrioTbl s p)) then insert p (ready s) else ready s)"
  unfolding tick_task_nf [OF prio_task [OF assms]] using assms(2) by (simp add: bm.prios_ins ready_def)

lemma tick_task_mem:
  assumes "task_inv s" "p < 64" "is_task (OSTCBPrioTbl s p)"
  shows "OSTCBMem (tick_task (OSTCBPrioTbl s p) s) =
    (OSTCBMem s)(OSTCBPrioTbl s p := tick_tcb (OSTCBMem s (OSTCBPrioTbl s p)))"
  unfolding tick_task_nf [OF prio_task [OF assms]] by simp

end
