(* ===== verification/OS_Task_Inv.thy ===== *)
theory OS_Task_Inv
  imports OS_Steps Pool
begin

text \<open>
  The task services keep the kernel invariant, and the control blocks stay partitioned into
  the doubly linked list of the existing tasks, the idle task last, and the free list.
\<close>

section \<open>Suspend and resume\<close>

lemma stats_suspend: "x \<in> stats \<Longrightarrow> x OR OS_STAT_SUSPEND \<in> stats"
    "x \<in> stats \<Longrightarrow> x OR OS_STAT_SUSPEND \<noteq> 0"
    "x \<in> stats \<Longrightarrow> (x OR OS_STAT_SUSPEND) AND OS_STAT_PEND_ANY = x AND OS_STAT_PEND_ANY"
  by (auto simp: stats_def)

lemma stats_resume: "x \<in> stats \<Longrightarrow> x AND NOT OS_STAT_SUSPEND \<in> stats"
    "x \<in> stats \<Longrightarrow> (x AND NOT OS_STAT_SUSPEND) AND OS_STAT_PEND_ANY = x AND OS_STAT_PEND_ANY"
    "x \<in> stats \<Longrightarrow> x AND NOT OS_STAT_SUSPEND = 0 \<longleftrightarrow> x AND OS_STAT_PEND_ANY = 0"
  by (auto simp: stats_def)

lemma suspend_inv:
  assumes inv: "task_inv s" and p: "p < 64" and task: "is_task (OSTCBPrioTbl s p)"
  shows "task_inv (set_rdy (bm_del p (rdy s))
    (upd_tcb (OSTCBPrioTbl s p) (\<lambda>t. t\<lparr>OSTCBStat := OSTCBStat t OR OS_STAT_SUSPEND\<rparr>) s))"
proof (rule task_inv_step0 [OF inv p task])
  let ?t = "OSTCBMem s (OSTCBPrioTbl s p)"
  note ok = task_tcb [OF inv p task]
  then have "OSTCBStat ?t \<in> stats" by (simp add: tcb_ok_def)
  note st = stats_suspend [OF this]
  show "tcb_ok (set_rdy (bm_del p (rdy s)) (upd_tcb (OSTCBPrioTbl s p)
      (\<lambda>t. t\<lparr>OSTCBStat := OSTCBStat t OR OS_STAT_SUSPEND\<rparr>) s)) p
      (?t\<lparr>OSTCBStat := OSTCBStat ?t OR OS_STAT_SUSPEND\<rparr>)"
    using ok st p by (simp add: tcb_ok_def bm.prios_del)
qed simp

lemma sched_inv_del:
  assumes inv: "kernel_inv dfr s" and p: "p < 64" and other: "p \<noteq> OSPrioCur s" and run: "OSRunning s"
    and lev: "OSIntNesting s = 0" "OSLockNesting s = 0"
  shows "OSPrioCur s \<in> bm_prios (bm_del p (rdy s))" "\<not> dfr \<Longrightarrow> OSPrioCur s = bm_highest (bm_del p (rdy s))"
proof -
  note i = kernel_invD [OF inv]
  show *: "OSPrioCur s \<in> bm_prios (bm_del p (rdy s))"
    using cur_ready(1) [OF inv run lev] other p by (simp add: bm.prios_del ready_def)
  assume d: "\<not> dfr"
  show "OSPrioCur s = bm_highest (bm_del p (rdy s))"
  proof (rule bm.best_unique [symmetric])
    show "bm_ok (bm_del p (rdy s))" using task_inv_bm(1) [OF i(1)] p by (rule bm.ok_del)
    show "OSPrioCur s \<le> q" if "q \<in> bm_prios (bm_del p (rdy s))" for q
      using that p i(4) run lev d bm.best_le [OF task_inv_bm(1) [OF i(1)], of q]
      by (simp add: bm.prios_del sched_inv_def)
  qed (rule *)
qed

lemma OSTaskSuspend_inv:
  assumes inv: "kernel_inv dfr s" and run: "OSRunning s"
    and p: "prio = OS_PRIO_SELF \<or> prio < 64"
    and not_idle: "prio \<noteq> OS_TASK_IDLE_PRIO" "prio = OS_PRIO_SELF \<longrightarrow> OSPrioCur s \<noteq> OS_TASK_IDLE_PRIO"
  shows "kernel_inv dfr (snd (OSTaskSuspend prio s))"
proof -
  note i = kernel_invD [OF inv]
  note cur = cur_task [OF inv run]
  have cp: "OSTCBPrio (OSTCBMem s (OSTCBCur s)) = OSPrioCur s" using cur(5) by (simp add: tcb_wf_def)
  define r where "r = (if prio = OS_PRIO_SELF then OSPrioCur s else prio)"
  have r: "r < 64" "r \<noteq> OS_TASK_IDLE_PRIO" using p not_idle cur(1) by (auto simp: r_def)
  have self: "prio = OS_PRIO_SELF \<or> prio = OSPrioCur s \<longleftrightarrow> r = OSPrioCur s"
    by (auto simp: r_def)
  show ?thesis
  proof (cases "is_task (OSTCBPrioTbl s r)")
    case False
    then have "snd (OSTaskSuspend prio s) = s"
      by (auto simp: OSTaskSuspend_def cp r_def is_task_def Let_def)
    then show ?thesis using inv by simp
  next
    case True
    let ?s = "set_rdy (bm_del r (rdy s))
      (upd_tcb (OSTCBPrioTbl s r) (\<lambda>t. t\<lparr>OSTCBStat := OSTCBStat t OR OS_STAT_SUSPEND\<rparr>) s)"
    have eq: "upd_tcb (OSTCBPrioTbl s r) (\<lambda>t. t\<lparr>OSTCBStat := OSTCBStat t OR OS_STAT_SUSPEND\<rparr>)
        (make_unready (OSTCBPrioTbl s r) s) = ?s"
      by (simp add: make_unready_nf [OF prio_task [OF i(1) r(1) True]] upd_comm)
    have "snd (OSTaskSuspend prio s) = (if r = OSPrioCur s then OS_Sched ?s else ?s)"
      using True unfolding OSTaskSuspend_def Let_def cp self r_def [symmetric] eq
      by (simp add: is_task_def)
    moreover have "kernel_inv dfr (if r = OSPrioCur s then OS_Sched ?s else ?s)"
    proof (rule sched_or_inv)
      show "task_inv ?s" by (rule suspend_inv [OF i(1) r(1) True])
      show "idle_inv ?s" using idle_del [OF i(2) r] by (simp add: idle_inv_def)
      show "cur_inv ?s" by (rule cur_inv_frame [OF _ _ _ _ i(3)]) simp_all
      show "sched_inv dfr ?s" if "r \<noteq> OSPrioCur s"
        using sched_inv_del [OF inv r(1) that run] by (simp add: sched_inv_def)
    qed
    ultimately show ?thesis by (simp only:)
  qed
qed

lemma resume_inv:
  assumes inv: "task_inv s" and p: "p < 64" and task: "is_task (OSTCBPrioTbl s p)"
    and susp: "OSTCBStat (OSTCBMem s (OSTCBPrioTbl s p)) AND OS_STAT_SUSPEND \<noteq> 0"
  shows "task_inv (set_rdy
    (if OSTCBStat (OSTCBMem s (OSTCBPrioTbl s p)) AND OS_STAT_PEND_ANY = 0
        \<and> OSTCBDly (OSTCBMem s (OSTCBPrioTbl s p)) = 0 then bm_ins p (rdy s) else rdy s)
    (upd_tcb (OSTCBPrioTbl s p) (\<lambda>t. t\<lparr>OSTCBStat := OSTCBStat t AND NOT OS_STAT_SUSPEND\<rparr>) s))"
proof (rule task_inv_step0 [OF inv p task])
  let ?t = "OSTCBMem s (OSTCBPrioTbl s p)"
  note ok = task_tcb [OF inv p task]
  then have st: "OSTCBStat ?t \<in> stats" by (simp add: tcb_ok_def)
  have "p \<notin> ready s" using ok susp by (auto simp: tcb_ok_def)
  then show "tcb_ok (set_rdy (if OSTCBStat ?t AND OS_STAT_PEND_ANY = 0 \<and> OSTCBDly ?t = 0
        then bm_ins p (rdy s) else rdy s) (upd_tcb (OSTCBPrioTbl s p)
      (\<lambda>t. t\<lparr>OSTCBStat := OSTCBStat t AND NOT OS_STAT_SUSPEND\<rparr>) s)) p
      (?t\<lparr>OSTCBStat := OSTCBStat ?t AND NOT OS_STAT_SUSPEND\<rparr>)"
    using ok stats_resume(1,2) [OF st] stats_resume(3) [OF st] p
    by (simp add: tcb_ok_def bm.prios_ins ready_def)
qed simp

lemma OSTaskResume_inv:
  assumes inv: "kernel_inv dfr s" and run: "OSRunning s" and p: "prio < 64"
  shows "kernel_inv dfr (snd (OSTaskResume prio s))"
proof -
  note i = kernel_invD [OF inv]
  let ?q = "OSTCBPrioTbl s prio"
  let ?t = "OSTCBMem s ?q"
  show ?thesis
  proof (cases "is_task ?q \<and> OSTCBStat ?t AND OS_STAT_SUSPEND \<noteq> 0")
    case False
    then have "snd (OSTaskResume prio s) = s"
      by (auto simp: OSTaskResume_def is_task_def Let_def)
    then show ?thesis using inv by simp
  next
    case True
    then have task: "is_task ?q" and susp: "OSTCBStat ?t AND OS_STAT_SUSPEND \<noteq> 0" by auto
    let ?f = "\<lambda>t. t\<lparr>OSTCBStat := OSTCBStat t AND NOT OS_STAT_SUSPEND\<rparr>"
    let ?s1 = "upd_tcb ?q ?f s"
    let ?c = "OSTCBStat ?t AND OS_STAT_PEND_ANY = 0 \<and> OSTCBDly ?t = 0"
    let ?s = "set_rdy (if ?c then bm_ins prio (rdy s) else rdy s) ?s1"
    have st: "OSTCBStat ?t \<in> stats" using task_tcb [OF i(1) p task] by (simp add: tcb_ok_def)
    have mk: "make_ready ?q ?s1 = set_rdy (bm_ins prio (rdy s)) ?s1"
      using prio_task [OF i(1) p task] by (subst make_ready_nf [of prio]) simp_all
    have "snd (OSTaskResume prio s) = (if ?c then OS_Sched ?s else ?s)"
      using task susp run stats_resume(2) [OF st]
      unfolding OSTaskResume_def Let_def mk by (auto simp: is_task_def set_rdy_id)
    moreover have "kernel_inv dfr (if ?c then OS_Sched ?s else ?s)"
    proof (rule sched_or_inv)
      show "task_inv ?s" by (rule resume_inv [OF i(1) p task susp])
      show "idle_inv ?s" using i(2) p by (simp add: idle_inv_def ready_def bm.prios_ins)
      show "cur_inv ?s" by (rule cur_inv_frame [OF _ _ _ _ i(3)]) simp_all
      show "sched_inv dfr ?s" if "\<not> ?c"
        using i(4) that by (simp only: sched_inv_def if_False) simp
    qed
    ultimately show ?thesis by (simp only:)
  qed
qed

section \<open>Changing a priority\<close>

lemma tcb_coords_wf: "p < 64 \<Longrightarrow> tcb_wf p (tcb_coords p (t\<lparr>OSTCBPrio := p\<rparr>))"
  by (simp add: tcb_wf_def tcb_coords_def)

lemma tcb_coords_sel [simp]:
  "OSTCBStat (tcb_coords p t) = OSTCBStat t" "OSTCBDly (tcb_coords p t) = OSTCBDly t"
  "OSTCBStatPend (tcb_coords p t) = OSTCBStatPend t" "OSTCBEventPtr (tcb_coords p t) = OSTCBEventPtr t"
  "OSTCBNext (tcb_coords p t) = OSTCBNext t" "OSTCBPrev (tcb_coords p t) = OSTCBPrev t"
  "OSTCBPrio (tcb_coords p t) = OSTCBPrio t" "OSTCBMsg (tcb_coords p t) = OSTCBMsg t"
  by (simp_all add: tcb_coords_def)

lemma wf_bit_ready:
  assumes "tcb_wf p t" "p < 64"
  shows "OSRdyTbl s (OSTCBY t) AND OSTCBBitX t \<noteq> 0 \<longleftrightarrow> p \<in> ready s"
proof -
  have "OSRdyTbl s (prio_y p) AND prio_bit (prio_x p) \<noteq> 0 \<longleftrightarrow> bit (OSRdyTbl s (prio_y p)) (unat (prio_x p))"
    by (simp add: prio_bit_def push_bit_eq_mult and_exp_eq_0_iff_not_bit)
  then show ?thesis using assms by (simp add: tcb_wf_def ready_def bm_prios_def rdy_def)
qed

lemma move_bits_nf: "tcb_wf p t \<Longrightarrow> move_bits t r b = bm_ins r (bm_del p b)"
  by (simp add: move_bits_def wf_del)

definition chprio_step :: "u8 \<Rightarrow> u8 \<Rightarrow> os \<Rightarrow> os" where
  "chprio_step p r s =
     (let q = OSTCBPrioTbl s p;
          e = OSTCBEventPtr (OSTCBMem s q);
          s1 = s\<lparr>OSTCBPrioTbl := (OSTCBPrioTbl s)(p := NULL, r := q)\<rparr>;
          s2 = (if e \<noteq> NULL
                then upd_event e (\<lambda>v. set_ev_wait (bm_ins r (bm_del p (ev_wait v))) v) s1 else s1)
      in set_rdy (if p \<in> ready s then bm_ins r (bm_del p (rdy s)) else rdy s)
           (upd_tcb q (\<lambda>t. tcb_coords r (t\<lparr>OSTCBPrio := r\<rparr>)) s2))"

lemma view_prio_tbl [simp]:
  "ready (s\<lparr>OSTCBPrioTbl := f\<rparr>) = ready s" "waiting (s\<lparr>OSTCBPrioTbl := f\<rparr>) e = waiting s e"
  "ev_type (s\<lparr>OSTCBPrioTbl := f\<rparr>) e = ev_type s e"
  by (simp_all add: ready_def waiting_def ev_type_def)

lemma chprio_step_sel:
  assumes "q = OSTCBPrioTbl s p" "e = OSTCBEventPtr (OSTCBMem s q)"
  shows "OSTCBPrioTbl (chprio_step p r s) = (OSTCBPrioTbl s)(p := NULL, r := q)"
    "OSTCBMem (chprio_step p r s) = (OSTCBMem s)(q := tcb_coords r ((OSTCBMem s q)\<lparr>OSTCBPrio := r\<rparr>))"
    "rdy (chprio_step p r s) = (if p \<in> ready s then bm_ins r (bm_del p (rdy s)) else rdy s)"
    "ev_wait (OSEventMem (chprio_step p r s) x) =
      (if x = e \<and> e \<noteq> NULL then bm_ins r (bm_del p (ev_wait (OSEventMem s x))) else ev_wait (OSEventMem s x))"
    "ev_type (chprio_step p r s) x = ev_type s x"
    "OSTCBCur (chprio_step p r s) = OSTCBCur s" "OSPrioCur (chprio_step p r s) = OSPrioCur s"
    "OSRunning (chprio_step p r s) = OSRunning s" "OSIntNesting (chprio_step p r s) = OSIntNesting s"
    "OSLockNesting (chprio_step p r s) = OSLockNesting s"
  by (simp_all add: chprio_step_def Let_def assms [symmetric])

lemma chprio_step_ready:
  assumes "p < 64" "r < 64"
  shows "ready (chprio_step p r s) = (if p \<in> ready s then insert r (ready s - {p}) else ready s)"
    "waiting (chprio_step p r s) x = (if x = OSTCBEventPtr (OSTCBMem s (OSTCBPrioTbl s p)) \<and> x \<noteq> NULL
       then insert r (waiting s x - {p}) else waiting s x)"
  using assms by (simp_all add: ready_def waiting_def chprio_step_sel bm.prios_ins bm.prios_del)

lemma OSTaskChangePrio_nf:
  assumes p: "p = (if old = OS_PRIO_SELF then OSTCBPrio (OSTCBMem s (OSTCBCur s)) else old)"
    and free: "OSTCBPrioTbl s r = NULL" and task: "is_task (OSTCBPrioTbl s p)"
    and wf: "tcb_wf p (OSTCBMem s (OSTCBPrioTbl s p))" and p64: "p < 64" and run: "OSRunning s"
  shows "OSTaskChangePrio old r s = (OS_ERR_NONE, OS_Sched (chprio_step p r s))"
proof -
  let ?q = "OSTCBPrioTbl s p"
  let ?t = "OSTCBMem s ?q"
  let ?e = "OSTCBEventPtr ?t"
  let ?s1 = "s\<lparr>OSTCBPrioTbl := (OSTCBPrioTbl s)(p := NULL, r := ?q)\<rparr>"
  have bit: "OSRdyTbl ?s1 (OSTCBY ?t) AND OSTCBBitX ?t \<noteq> 0 \<longleftrightarrow> p \<in> ready s"
    using wf_bit_ready [OF wf p64, of s] by simp
  let ?b = "if p \<in> ready s then bm_ins r (bm_del p (rdy s)) else rdy s"
  let ?s2 = "set_rdy ?b ?s1"
  have s2: "(if p \<in> ready s then set_rdy (bm_ins r (bm_del p (rdy ?s1))) ?s1 else ?s1) = ?s2"
    by (simp add: set_rdy_id)
  let ?s4 = "upd_tcb ?q (\<lambda>t. tcb_coords r (t\<lparr>OSTCBPrio := r\<rparr>)) (if ?e \<noteq> NULL
     then upd_event ?e (\<lambda>v. set_ev_wait (bm_ins r (bm_del p (ev_wait v))) v) ?s2 else ?s2)"
  have s4: "?s4 = chprio_step p r s"
    by (simp add: chprio_step_def Let_def upd_comm)
  have mv: "move_bits ?t r b = bm_ins r (bm_del p b)" for b by (rule move_bits_nf [OF wf])
  have mem: "OSTCBMem ?s1 = OSTCBMem s" by simp
  have "OSTaskChangePrio old r s = (OS_ERR_NONE, if OSRunning ?s4 then OS_Sched ?s4 else ?s4)"
    using free task
    unfolding OSTaskChangePrio_def p [symmetric] Let_def mem bit mv s2
    by (simp add: is_task_def)
  then show ?thesis unfolding s4 using run by (simp add: chprio_step_sel)
qed

lemma chprio_inv:
  assumes inv: "task_inv s" and p: "p < 64" and r: "r < 64" and task: "is_task (OSTCBPrioTbl s p)"
    and free: "OSTCBPrioTbl s r = NULL"
  shows "task_inv (chprio_step p r s)"
proof (rule task_inv_change [OF inv, where P = "{p, r}"])
  let ?q = "OSTCBPrioTbl s p"
  let ?t = "OSTCBMem s ?q"
  let ?s = "chprio_step p r s"
  note ok = task_tcb [OF inv p task]
  have ne: "p \<noteq> r" using task free by (auto simp: is_task_def)
  have old: "r \<notin> ready s" "\<And>e. e \<in> events \<Longrightarrow> r \<notin> waiting s e"
    using task_okD [OF inv r] free by (auto simp: task_ok_def is_task_def)
  note view = chprio_step_ready [OF p r, of s]
  have pw: "p \<in> waiting s e \<longleftrightarrow> OSTCBEventPtr ?t = e" if "e \<in> events" for e
    using ok that by (simp add: tcb_ok_def)
  show "OSTCBPrioTbl ?s k = OSTCBPrioTbl s k" if "k \<notin> {p, r}" for k
    using that by (simp add: chprio_step_sel)
  show "tcb_data (OSTCBMem ?s (OSTCBPrioTbl s k)) = tcb_data (OSTCBMem s (OSTCBPrioTbl s k))"
    if "k < 64" "k \<notin> {p, r}" "is_task (OSTCBPrioTbl s k)" for k
  proof -
    have "OSTCBPrioTbl s k \<noteq> ?q" using prio_tbl_inj [OF inv that(1) p that(3)] that(2) by blast
    then show ?thesis by (simp add: chprio_step_sel)
  qed
  show "k \<in> ready ?s \<longleftrightarrow> k \<in> ready s" if "k \<notin> {p, r}" for k using that by (simp add: view)
  show "k \<in> waiting ?s e \<longleftrightarrow> k \<in> waiting s e" if "k \<notin> {p, r}" for k e using that by (simp add: view)
  show "ev_type ?s e = ev_type s e" for e by (simp add: chprio_step_sel)
  show "bm_ok (rdy ?s)" using task_inv_bm(1) [OF inv] p r by (simp add: chprio_step_sel bm.ok_ins bm.ok_del)
  show "bm_ok (ev_wait (OSEventMem ?s e))" if "e \<in> events" for e
    using task_inv_bm(2) [OF inv that] p r by (auto simp: chprio_step_sel bm.ok_ins bm.ok_del)
  show "ev_type s e \<noteq> OS_EVENT_TYPE_UNUSED" if "e \<in> events" "k \<in> {p, r}" "k \<in> waiting ?s e" for k e
  proof -
    have "p \<in> waiting s e" using that old(2) [OF that(1)] pw [OF that(1)] by (auto simp: view split: if_splits)
    then show ?thesis using task_inv_unused [OF inv that(1)] by auto
  qed
  show "task_ok ?s k" if "k \<in> {p, r}" for k
  proof (cases "k = p")
    case True
    have "p \<notin> waiting ?s e" if "e \<in> events" for e
      using pw [OF that] NULL_not_event [OF that] ne by (auto simp: view)
    then show ?thesis using True ne by (simp add: task_ok_def chprio_step_sel is_task_def view)
  next
    case False
    then have k: "k = r" using that by simp
    let ?t' = "tcb_coords r (?t\<lparr>OSTCBPrio := r\<rparr>)"
    have "r \<in> waiting ?s e \<longleftrightarrow> OSTCBEventPtr ?t' = e" if "e \<in> events" for e
      using old(2) [OF that] NULL_not_event [OF that] by (auto simp: view)
    then have "tcb_ok ?s r ?t'"
      using ok old(1) tcb_coords_wf [OF r, of ?t] ne by (simp add: tcb_ok_def view chprio_step_sel(5))
    then show ?thesis using task k by (simp add: task_ok_def chprio_step_sel)
  qed
qed

lemma OSTaskChangePrio_inv:
  assumes inv: "kernel_inv dfr s" and run: "OSRunning s"
    and old: "old = OS_PRIO_SELF \<or> old < 64" and r: "r < 64"
    and self: "OSIntNesting s = 0 \<and> OSLockNesting s = 0
      \<or> old \<noteq> OS_PRIO_SELF \<and> old \<noteq> OSPrioCur s"
    and not_idle: "old \<noteq> OS_TASK_IDLE_PRIO" "old = OS_PRIO_SELF \<longrightarrow> OSPrioCur s \<noteq> OS_TASK_IDLE_PRIO"
  shows "kernel_inv dfr (snd (OSTaskChangePrio old r s))"
proof -
  note i = kernel_invD [OF inv]
  note cur = cur_task [OF inv run]
  have cp: "OSTCBPrio (OSTCBMem s (OSTCBCur s)) = OSPrioCur s" using cur(5) by (simp add: tcb_wf_def)
  define p where "p = (if old = OS_PRIO_SELF then OSTCBPrio (OSTCBMem s (OSTCBCur s)) else old)"
  have p: "p < 64" "p \<noteq> OS_TASK_IDLE_PRIO" using old not_idle cur(1) by (auto simp: p_def cp)
  have lev: "p = OSPrioCur s \<Longrightarrow> OSIntNesting s = 0 \<and> OSLockNesting s = 0" using self by (auto simp: p_def cp)
  show ?thesis
  proof (cases "is_task (OSTCBPrioTbl s p) \<and> OSTCBPrioTbl s r = NULL")
    case False
    then have "snd (OSTaskChangePrio old r s) = s"
      by (auto simp: OSTaskChangePrio_def p_def [symmetric] is_task_def Let_def)
    then show ?thesis using inv by simp
  next
    case True
    then have task: "is_task (OSTCBPrioTbl s p)" and free: "OSTCBPrioTbl s r = NULL" by auto
    let ?s = "chprio_step p r s"
    have ne: "r \<noteq> p" using task free by (auto simp: is_task_def)
    have "r \<noteq> OSPrioCur s" using cur(2) free by (auto simp: is_task_def)
    then have cur': "cur_inv ?s" if "p \<noteq> OSPrioCur s"
      using i(3) that by (auto simp: cur_inv_def chprio_step_sel)
    have "kernel_inv dfr (OS_Sched ?s)"
    proof (rule OS_Sched_inv)
      show "task_inv ?s" by (rule chprio_inv [OF i(1) p(1) r task free])
      show "idle_inv ?s" using i(2) p(2) by (auto simp: idle_inv_def chprio_step_ready [OF p(1) r])
      show "cur_inv ?s \<or> OSIntNesting ?s = 0 \<and> OSLockNesting ?s = 0 \<and> OSPrioCur ?s \<notin> ready ?s"
        using cur' lev ne by (auto simp: chprio_step_ready [OF p(1) r] chprio_step_sel)
    qed
    then show ?thesis
      using OSTaskChangePrio_nf [OF p_def free task prio_task [OF i(1) p(1) task] p(1) run] by simp
  qed
qed

section \<open>The task list and the free list of control blocks\<close>

definition tasks :: "os \<Rightarrow> ptr set" where
  "tasks s = {OSTCBPrioTbl s p | p. p < 64 \<and> is_task (OSTCBPrioTbl s p)}"

definition tcbs :: "ptr set" where
  "tcbs = tcb_addr ` {..<OS_MAX_TASKS + OS_N_SYS_TASKS}"

abbreviation (input) tcb_next :: "os \<Rightarrow> ptr \<Rightarrow> ptr" where "tcb_next s \<equiv> \<lambda>a. OSTCBNext (OSTCBMem s a)"
abbreviation (input) tcb_prev :: "os \<Rightarrow> ptr \<Rightarrow> ptr" where "tcb_prev s \<equiv> \<lambda>a. OSTCBPrev (OSTCBMem s a)"

text \<open>
  \<open>xs\<close> is the task list, \<open>ys\<close> the free list: together all 11 control blocks, each once;
  the list holds exactly the blocks the priority table names, the idle task's at the end.
\<close>

definition task_lists :: "os \<Rightarrow> ptr list \<Rightarrow> ptr list \<Rightarrow> bool" where
  "task_lists s xs ys \<longleftrightarrow> dlist (tcb_next s) (tcb_prev s) (OSTCBList s) xs
     \<and> chain (tcb_next s) (OSTCBFreeList s) ys \<and> distinct (xs @ ys) \<and> set (xs @ ys) = tcbs
     \<and> set xs = tasks s \<and> OSTaskCtr s = word_of_nat (length xs)
     \<and> (xs \<noteq> [] \<longrightarrow> last xs = OSTCBPrioTbl s OS_TASK_IDLE_PRIO)"

definition pool_inv :: "os \<Rightarrow> bool" where
  "pool_inv s \<longleftrightarrow> (\<exists>xs ys. task_lists s xs ys)"

definition pool_view :: "os \<Rightarrow> (ptr \<Rightarrow> ptr) \<times> (ptr \<Rightarrow> ptr) \<times> ptr \<times> ptr \<times> (u8 \<Rightarrow> ptr) \<times> u8" where
  "pool_view s = (tcb_next s, tcb_prev s, OSTCBList s, OSTCBFreeList s, OSTCBPrioTbl s, OSTaskCtr s)"

lemma task_lists_view:
  assumes "pool_view s' = pool_view s"
  shows "task_lists s' xs ys \<longleftrightarrow> task_lists s xs ys"
  using assms unfolding pool_view_def task_lists_def tasks_def by (simp only: prod.inject)

lemma pool_inv_view: "pool_view s' = pool_view s \<Longrightarrow> pool_inv s' \<longleftrightarrow> pool_inv s"
  unfolding pool_inv_def using task_lists_view by blast

lemma tcbs_task: "q \<in> tcbs \<Longrightarrow> is_task q"
  by (auto simp: tcbs_def tcb_addr_def is_task_def)

lemma tcbs_card: "card tcbs = 11" "finite tcbs"
  by (simp_all add: tcbs_def tcb_addr_def card_image inj_on_def)

lemma task_lists_length:
  assumes "task_lists s xs ys"
  shows "length xs + length ys = 11"
proof -
  have "card (set (xs @ ys)) = length (xs @ ys)"
    using assms unfolding task_lists_def by (intro distinct_card) blast
  moreover have "set (xs @ ys) = tcbs" using assms unfolding task_lists_def by blast
  ultimately show ?thesis using tcbs_card by simp
qed

lemma task_lists_tcbs: "task_lists s xs ys \<Longrightarrow> set xs \<subseteq> tcbs" "task_lists s xs ys \<Longrightarrow> set ys \<subseteq> tcbs"
  unfolding task_lists_def by auto

lemma task_lists_last:
  assumes "task_lists s xs ys" "xs \<noteq> []"
  shows "last xs = OSTCBPrioTbl s OS_TASK_IDLE_PRIO" "last xs \<in> tcbs"
proof -
  show "last xs = OSTCBPrioTbl s OS_TASK_IDLE_PRIO" using assms unfolding task_lists_def by blast
  show "last xs \<in> tcbs" using task_lists_tcbs(1) [OF assms(1)] assms(2) last_in_set by blast
qed

lemma tasks_in_tcbs: "pool_inv s \<Longrightarrow> p < 64 \<Longrightarrow> is_task (OSTCBPrioTbl s p) \<Longrightarrow> OSTCBPrioTbl s p \<in> tcbs"
  unfolding pool_inv_def task_lists_def tasks_def by auto

lemma tasks_upd:
  assumes "p < 64" "\<not> is_task (OSTCBPrioTbl s p)"
  shows "tasks (s\<lparr>OSTCBPrioTbl := (OSTCBPrioTbl s)(p := v)\<rparr>) = (if is_task v then insert v (tasks s) else tasks s)"
  using assms by (auto simp: tasks_def)

section \<open>Creating a task\<close>

text \<open>A priority with no task can be reserved and released again.\<close>

lemma reserve_inv:
  assumes inv: "task_inv s" and free: "\<not> is_task (OSTCBPrioTbl s p)" "\<not> is_task v"
  shows "task_inv (s\<lparr>OSTCBPrioTbl := (OSTCBPrioTbl s)(p := v)\<rparr>)"
proof (rule task_inv_change [OF inv, where P = "{p}"])
  let ?s = "s\<lparr>OSTCBPrioTbl := (OSTCBPrioTbl s)(p := v)\<rparr>"
  show "task_ok ?s r" if "r < 64" "r \<in> {p}" for r
    using task_okD [OF inv that(1)] that free by (simp add: task_ok_def)
  show "ev_type s e \<noteq> OS_EVENT_TYPE_UNUSED" if "e \<in> events" "r \<in> {p}" "r \<in> waiting ?s e" for r e
    using task_inv_unused [OF inv that(1)] that by auto
qed (simp_all add: task_inv_bm [OF inv])

lemma reserve_pool:
  assumes inv: "task_inv s" and lists: "task_lists s xs ys" and p: "p < 64"
    and free: "\<not> is_task (OSTCBPrioTbl s p)" "\<not> is_task v"
  shows "task_lists (s\<lparr>OSTCBPrioTbl := (OSTCBPrioTbl s)(p := v)\<rparr>) xs ys"
proof -
  have "OS_TASK_IDLE_PRIO \<noteq> p" if "xs \<noteq> []"
  proof
    assume "OS_TASK_IDLE_PRIO = p"
    then show False using free(1) tcbs_task task_lists_last [OF lists that] by simp
  qed
  then show ?thesis using lists tasks_upd [OF p free(1), of v] free(2) by (auto simp: task_lists_def)
qed

text \<open>The new control block as \<open>OS_TCBInit\<close> leaves it.\<close>

definition new_tcb :: "u8 \<Rightarrow> ptr \<Rightarrow> ptr \<Rightarrow> os_tcb \<Rightarrow> os_tcb" where
  "new_tcb prio ptos nxt t = (tcb_coords prio (t\<lparr>OSTCBStkPtr := ptos, OSTCBPrio := prio,
     OSTCBStat := OS_STAT_RDY, OSTCBStatPend := OS_STAT_PEND_OK, OSTCBDly := 0,
     OSTCBDelReq := OS_ERR_NONE\<rparr>))\<lparr>OSTCBEventPtr := NULL, OSTCBMsg := NULL,
     OSTCBTaskName := ''?'', OSTCBNext := nxt, OSTCBPrev := NULL\<rparr>"

lemma new_tcb_wf: "p < 64 \<Longrightarrow> tcb_wf p (new_tcb p ptos nxt t)"
  by (simp add: new_tcb_def tcb_wf_def tcb_coords_def)

lemma OS_TCBInit_sel:
  assumes q: "q = OSTCBFreeList s" "q \<noteq> NULL" "q \<noteq> OSTCBList s" and p: "prio < 64"
    and s': "s' = snd (OS_TCBInit prio ptos s)"
  shows "fst (OS_TCBInit prio ptos s) = OS_ERR_NONE"
    "OSTCBPrioTbl s' = (OSTCBPrioTbl s)(prio := q)" "rdy s' = bm_ins prio (rdy s)"
    "OSTCBMem s' = (if OSTCBList s \<noteq> NULL then (OSTCBMem s)(q := new_tcb prio ptos (OSTCBList s) (OSTCBMem s q),
        OSTCBList s := (OSTCBMem s (OSTCBList s))\<lparr>OSTCBPrev := q\<rparr>)
      else (OSTCBMem s)(q := new_tcb prio ptos (OSTCBList s) (OSTCBMem s q)))"
    "OSTCBList s' = q" "OSTCBFreeList s' = OSTCBNext (OSTCBMem s q)" "OSTaskCtr s' = OSTaskCtr s + 1"
    "OSEventMem s' = OSEventMem s" "OSTCBCur s' = OSTCBCur s" "OSPrioCur s' = OSPrioCur s"
    "OSRunning s' = OSRunning s" "OSIntNesting s' = OSIntNesting s" "OSLockNesting s' = OSLockNesting s"
    "OSEventFreeList s' = OSEventFreeList s"
proof -
  let ?s1 = "s\<lparr>OSTCBFreeList := OSTCBNext (OSTCBMem s q)\<rparr>"
  let ?s2 = "upd_tcb q (\<lambda>t. (tcb_coords prio (t\<lparr>OSTCBStkPtr := ptos, OSTCBPrio := prio,
                         OSTCBStat := OS_STAT_RDY, OSTCBStatPend := OS_STAT_PEND_OK, OSTCBDly := 0,
                         OSTCBDelReq := OS_ERR_NONE\<rparr>))\<lparr>OSTCBEventPtr := NULL, OSTCBMsg := NULL,
                         OSTCBTaskName := ''?''\<rparr>) ?s1"
  let ?s3 = "?s2\<lparr>OSTCBPrioTbl := (OSTCBPrioTbl ?s2)(prio := q)\<rparr>"
  let ?s4 = "upd_tcb q (\<lambda>t. t\<lparr>OSTCBNext := OSTCBList ?s3, OSTCBPrev := NULL\<rparr>) ?s3"
  let ?s5 = "if OSTCBList ?s4 \<noteq> NULL
             then upd_tcb (OSTCBList ?s4) (\<lambda>t. t\<lparr>OSTCBPrev := q\<rparr>) ?s4 else ?s4"
  let ?s6 = "make_ready q (?s5\<lparr>OSTCBList := q\<rparr>)"
  have eq: "OS_TCBInit prio ptos s = (OS_ERR_NONE, ?s6\<lparr>OSTaskCtr := OSTaskCtr ?s6 + 1\<rparr>)"
    using q(2) unfolding OS_TCBInit_def Let_def q(1) [symmetric] by (simp only: not_False_eq_True if_True)
  have mem: "OSTCBMem (?s5\<lparr>OSTCBList := q\<rparr>) =
     (if OSTCBList s \<noteq> NULL then (OSTCBMem s)(q := new_tcb prio ptos (OSTCBList s) (OSTCBMem s q),
        OSTCBList s := (OSTCBMem s (OSTCBList s))\<lparr>OSTCBPrev := q\<rparr>)
      else (OSTCBMem s)(q := new_tcb prio ptos (OSTCBList s) (OSTCBMem s q)))"
    using q(3) by (simp add: new_tcb_def)
  then have "tcb_wf prio (OSTCBMem (?s5\<lparr>OSTCBList := q\<rparr>) q)"
    using q(3) new_tcb_wf [OF p] by simp
  from make_ready_nf [OF this]
  have s6: "?s6 = set_rdy (bm_ins prio (rdy s)) (?s5\<lparr>OSTCBList := q\<rparr>)" by simp
  have s'': "s' = (set_rdy (bm_ins prio (rdy s)) (?s5\<lparr>OSTCBList := q\<rparr>))
      \<lparr>OSTaskCtr := OSTaskCtr (set_rdy (bm_ins prio (rdy s)) (?s5\<lparr>OSTCBList := q\<rparr>)) + 1\<rparr>"
    using s' unfolding eq snd_conv s6 .
  show "fst (OS_TCBInit prio ptos s) = OS_ERR_NONE" by (simp only: eq fst_conv)
  show "OSTCBMem s' = (if OSTCBList s \<noteq> NULL then (OSTCBMem s)(q := new_tcb prio ptos (OSTCBList s) (OSTCBMem s q),
        OSTCBList s := (OSTCBMem s (OSTCBList s))\<lparr>OSTCBPrev := q\<rparr>)
      else (OSTCBMem s)(q := new_tcb prio ptos (OSTCBList s) (OSTCBMem s q)))"
    unfolding s'' mem [symmetric] by simp
  show "OSTCBPrioTbl s' = (OSTCBPrioTbl s)(prio := q)" "rdy s' = bm_ins prio (rdy s)"
    "OSTCBList s' = q" "OSTCBFreeList s' = OSTCBNext (OSTCBMem s q)" "OSTaskCtr s' = OSTaskCtr s + 1"
    "OSEventMem s' = OSEventMem s" "OSTCBCur s' = OSTCBCur s" "OSPrioCur s' = OSPrioCur s"
    "OSRunning s' = OSRunning s" "OSIntNesting s' = OSIntNesting s" "OSLockNesting s' = OSLockNesting s"
    "OSEventFreeList s' = OSEventFreeList s"
    unfolding s'' by simp_all
qed

lemma tcb_ok_new:
  assumes "p < 64" "p \<in> ready s" "\<And>e. e \<in> events \<Longrightarrow> p \<notin> waiting s e"
  shows "tcb_ok s p (new_tcb p ptos nxt t)"
  using new_tcb_wf [OF assms(1)] assms by (intro tcb_ok_free) (simp_all add: new_tcb_def)

lemma OS_TCBInit_inv:
  assumes inv: "task_inv s" and lists: "task_lists s xs (q # ys)" and p: "prio < 64"
    and free: "\<not> is_task (OSTCBPrioTbl s prio)" and idle: "xs = [] \<longrightarrow> prio = OS_TASK_IDLE_PRIO"
    and s': "s' = snd (OS_TCBInit prio ptos s)"
  shows "task_inv s'" "task_lists s' (q # xs) ys"
proof -
  have q: "q = OSTCBFreeList s" "q \<noteq> NULL" using lists by (auto simp: task_lists_def)
  have qx: "q \<notin> set xs" "q \<notin> set ys" using lists by (auto simp: task_lists_def)
  have dl: "dlist (tcb_next s) (tcb_prev s) (OSTCBList s) xs" using lists by (simp add: task_lists_def)
  have qt: "q \<notin> tasks s" using lists qx by (auto simp: task_lists_def)
  have hd: "OSTCBList s = (if xs = [] then NULL else hd xs)" using dl by (cases xs) (auto simp: dlist_def)
  then have ql: "q \<noteq> OSTCBList s" using q(2) qx by (auto dest: hd_in_set)
  note sel = OS_TCBInit_sel [OF q ql p s']
  have view: "ready s' = insert prio (ready s)" "waiting s' e = waiting s e" "ev_type s' e = ev_type s e" for e
    using sel p by (simp_all add: ready_def waiting_def ev_type_def bm.prios_ins)
  have off: "prio \<notin> waiting s e" if "e \<in> events" for e
    using task_okD [OF inv p] free that by (simp add: task_ok_def)
  have memq: "OSTCBMem s' q = new_tcb prio ptos (OSTCBList s) (OSTCBMem s q)" using ql by (simp add: sel(4))
  have isq: "is_task q" using lists tcbs_task by (auto simp: task_lists_def)
  show "task_inv s'"
  proof (rule task_inv_change [OF inv, where P = "{prio}"])
    show "tcb_data (OSTCBMem s' (OSTCBPrioTbl s r)) = tcb_data (OSTCBMem s (OSTCBPrioTbl s r))"
      if "r < 64" "is_task (OSTCBPrioTbl s r)" for r
    proof -
      have "OSTCBPrioTbl s r \<noteq> q" using qt that by (auto simp: tasks_def)
      then show ?thesis by (simp add: sel(4))
    qed
    show "task_ok s' r" if "r < 64" "r \<in> {prio}" for r
      using that off memq isq tcb_ok_new [OF p, of s'] by (simp add: task_ok_def sel(2) view)
    show "ev_type s e \<noteq> OS_EVENT_TYPE_UNUSED" if "e \<in> events" "r \<in> {prio}" "r \<in> waiting s' e" for r e
      using that off view by auto
    show "bm_ok (rdy s')" using task_inv_bm(1) [OF inv] p by (simp add: sel(3) bm.ok_ins)
    show "bm_ok (ev_wait (OSEventMem s' e))" if "e \<in> events" for e
      using task_inv_bm(2) [OF inv that] by (simp add: sel(8))
  qed (simp_all add: sel(2) view)
  have nxt: "tcb_next s' = (tcb_next s)(q := OSTCBList s)"
    using ql by (auto simp: sel(4) new_tcb_def)
  have prv: "tcb_prev s' = (if OSTCBList s \<noteq> NULL then (tcb_prev s)(q := NULL, OSTCBList s := q)
      else (tcb_prev s)(q := NULL))"
    using ql by (auto simp: sel(4) new_tcb_def)
  have tk: "tasks s' = insert q (tasks s)"
    using tasks_upd [OF p free, of q] isq by (simp add: tasks_def sel(2))
  have "dlist (tcb_next s') (tcb_prev s') (OSTCBList s') (q # xs)"
    unfolding nxt prv sel(5) by (rule dlist_push [OF dl qx(1) q(2)])
  moreover have "chain (tcb_next s') (OSTCBFreeList s') ys"
    using lists qx by (auto simp: task_lists_def nxt sel(6))
  moreover have "last (q # xs) = OSTCBPrioTbl s' OS_TASK_IDLE_PRIO"
  proof (cases "xs = []")
    case True
    then show ?thesis using idle by (simp add: sel(2))
  next
    case False
    have "prio \<noteq> OS_TASK_IDLE_PRIO"
      using free tcbs_task task_lists_last [OF lists False] by metis
    then show ?thesis using False task_lists_last [OF lists False] by (simp add: sel(2))
  qed
  ultimately show "task_lists s' (q # xs) ys"
    using lists tk by (auto simp: task_lists_def sel(7))
qed

section \<open>Task creation\<close>

lemma push_words_frame [simp]: "core (s\<lparr>app_mem := m\<rparr>) = core s" "pool_view (s\<lparr>app_mem := m\<rparr>) = pool_view s"
  by (simp_all add: core_def pool_view_def rdy_def)

lemma OSTaskStkInit_app: "\<exists>m. snd (OSTaskStkInit ld task arg ptos s) = s\<lparr>app_mem := m\<rparr>"
  by (auto simp: OSTaskStkInit_def Let_def split_beta)

lemma OSTaskCreate_ok:
  assumes inv: "task_inv s" and lists: "task_lists s xs (q # ys)" and p: "prio < 64"
    and free: "OSTCBPrioTbl s prio = NULL" and idle: "xs = [] \<longrightarrow> prio = OS_TASK_IDLE_PRIO"
    and isr: "OSIntNesting s = 0"
  obtains s3 where "OSTaskCreate ld task arg ptos prio s = (OS_ERR_NONE, if OSRunning s then OS_Sched s3 else s3)"
    "task_inv s3" "task_lists s3 (q # xs) ys" "ready s3 = insert prio (ready s)"
    "OSTCBPrioTbl s3 = (OSTCBPrioTbl s)(prio := q)" "rdy s3 = bm_ins prio (rdy s)"
    "OSTCBCur s3 = OSTCBCur s" "OSPrioCur s3 = OSPrioCur s" "OSRunning s3 = OSRunning s"
    "OSIntNesting s3 = OSIntNesting s" "OSLockNesting s3 = OSLockNesting s"
    "OSEventMem s3 = OSEventMem s" "OSEventFreeList s3 = OSEventFreeList s"
proof -
  define s1 where "s1 = s\<lparr>OSTCBPrioTbl := (OSTCBPrioTbl s)(prio := OS_TCB_RESERVED)\<rparr>"
  define psp where "psp = fst (OSTaskStkInit ld task arg ptos s1)"
  define s2 where "s2 = snd (OSTaskStkInit ld task arg ptos s1)"
  define s3 where "s3 = snd (OS_TCBInit prio psp s2)"
  obtain m where s2m: "s2 = s1\<lparr>app_mem := m\<rparr>" using OSTaskStkInit_app s2_def by metis
  have nt: "\<not> is_task (OSTCBPrioTbl s prio)" "\<not> is_task OS_TCB_RESERVED" using free by (simp_all add: is_task_def)
  have s2: "core s2 = core s1" "pool_view s2 = pool_view s1" "rdy s2 = rdy s" 
    "OSTCBPrioTbl s2 = (OSTCBPrioTbl s)(prio := OS_TCB_RESERVED)"
    "OSTCBCur s2 = OSTCBCur s" "OSPrioCur s2 = OSPrioCur s" "OSRunning s2 = OSRunning s"
    "OSIntNesting s2 = OSIntNesting s" "OSLockNesting s2 = OSLockNesting s"
    "OSEventMem s2 = OSEventMem s" "OSEventFreeList s2 = OSEventFreeList s"
    unfolding s2m by (simp_all add: s1_def)
  have inv2: "task_inv s2"
    using reserve_inv [OF inv nt] unfolding task_inv_core [OF s2(1)] s1_def .
  have lists2: "task_lists s2 xs (q # ys)"
    using reserve_pool [OF inv lists p nt] unfolding task_lists_view [OF s2(2)] s1_def .
  have nt2: "\<not> is_task (OSTCBPrioTbl s2 prio)" using nt(2) by (simp add: s2(4))
  note new = OS_TCBInit_inv [OF inv2 lists2 p nt2 idle s3_def]
  have q: "q = OSTCBFreeList s2" "q \<noteq> NULL" using lists2 by (auto simp: task_lists_def)
  have "q \<noteq> OSTCBList s2"
    using lists2 q(2) by (cases xs) (auto simp: task_lists_def dlist_def)
  note sel = OS_TCBInit_sel [OF q this p s3_def]
  have "OSTaskCreate ld task arg ptos prio s = (OS_ERR_NONE, if OSRunning s3 then OS_Sched s3 else s3)"
    using isr free sel(1)
    unfolding OSTaskCreate_def Let_def s1_def [symmetric]
    by (simp add: split_beta psp_def [symmetric] s2_def [symmetric] s3_def [symmetric])
  then show thesis
    using new sel p s2(3-) by (intro that [of s3]) (simp_all add: ready_def bm.prios_ins)
qed

section \<open>Deleting a task\<close>

lemma OSTaskDel_split:
  assumes "OSIntNesting s = 0" "prio0 \<noteq> OS_TASK_IDLE_PRIO"
    "prio = (if prio0 = OS_PRIO_SELF then OSTCBPrio (OSTCBMem s (OSTCBCur s)) else prio0)"
    "is_task (OSTCBPrioTbl s prio)" "s9 = del_links (OSTCBPrioTbl s prio) (del_data prio (OSTCBPrioTbl s prio) s)"
  shows "OSTaskDel prio0 s = (OS_ERR_NONE, if OSRunning s9 then OS_Sched s9 else s9)"
  using assms(1,2,4) unfolding OSTaskDel_def is_task_def assms(3) [symmetric] assms(5) Let_def
  by simp

text \<open>\<open>OSLockNesting\<close> after the increment and decrement: unchanged, but 255 becomes 254.\<close>

lemma del_data_sel:
  assumes wf: "tcb_wf p (OSTCBMem s q)" and p: "p < 64"
  shows "OSTCBPrioTbl (del_data p q s) = (OSTCBPrioTbl s)(p := NULL)"
    "rdy (del_data p q s) = bm_del p (rdy s)"
    "ev_wait (OSEventMem (del_data p q s) e) =
       (if e = OSTCBEventPtr (OSTCBMem s q) \<and> e \<noteq> NULL then bm_del p (ev_wait (OSEventMem s e))
        else ev_wait (OSEventMem s e))"
    "ev_type (del_data p q s) e = ev_type s e"
    "a \<noteq> q \<Longrightarrow> OSTCBMem (del_data p q s) a = OSTCBMem s a"
    "tcb_next (del_data p q s) = tcb_next s" "tcb_prev (del_data p q s) = tcb_prev s"
    "OSTCBList (del_data p q s) = OSTCBList s" "OSTCBFreeList (del_data p q s) = OSTCBFreeList s"
    "OSTaskCtr (del_data p q s) = OSTaskCtr s - 1" "OSTCBCur (del_data p q s) = OSTCBCur s"
    "OSPrioCur (del_data p q s) = OSPrioCur s" "OSRunning (del_data p q s) = OSRunning s"
    "OSIntNesting (del_data p q s) = OSIntNesting s"
    "OSLockNesting (del_data p q s) = (if OSLockNesting s < 255 then OSLockNesting s else 254)"
    "OSEventFreeList (del_data p q s) = OSEventFreeList s"
proof -
  let ?e = "OSTCBEventPtr (OSTCBMem s q)"
  define s2 where "s2 = (if ?e \<noteq> NULL then OS_EventTaskRemove q ?e (set_rdy (bm_del p (rdy s)) s)
    else set_rdy (bm_del p (rdy s)) s)"
  have nf: "OS_EventTaskRemove q ?e (set_rdy (bm_del p (rdy s)) s) =
    task_step q (bm_del p (rdy s)) ?e (bm_del p (ev_wait (OSEventMem s ?e))) (\<lambda>t. t\<lparr>OSTCBEventPtr := NULL\<rparr>)
      (set_rdy (bm_del p (rdy s)) s)"
    using OS_EventTaskRemove_nf [of p "set_rdy (bm_del p (rdy s)) s" q ?e] wf by simp
  have s2: "OSTCBPrioTbl s2 = OSTCBPrioTbl s" "rdy s2 = bm_del p (rdy s)"
    "ev_wait (OSEventMem s2 e) = (if e = ?e \<and> e \<noteq> NULL then bm_del p (ev_wait (OSEventMem s e))
        else ev_wait (OSEventMem s e))"
    "ev_type s2 e = ev_type s e"
    "a \<noteq> q \<Longrightarrow> OSTCBMem s2 a = OSTCBMem s a"
    "tcb_next s2 = tcb_next s" "tcb_prev s2 = tcb_prev s" "OSLockNesting s2 = OSLockNesting s"
    "OSTCBList s2 = OSTCBList s" "OSTCBFreeList s2 = OSTCBFreeList s" "OSTaskCtr s2 = OSTaskCtr s"
    "OSTCBCur s2 = OSTCBCur s" "OSPrioCur s2 = OSPrioCur s" "OSRunning s2 = OSRunning s"
    "OSIntNesting s2 = OSIntNesting s" "OSEventFreeList s2 = OSEventFreeList s"
    unfolding s2_def nf by (auto simp: task_step_def)
  let ?r = "set_rdy (bm_del p (rdy s)) s"
  have s2': "(if OSTCBEventPtr (OSTCBMem ?r q) \<noteq> NULL then OS_EventTaskRemove q (OSTCBEventPtr (OSTCBMem ?r q)) ?r
    else ?r) = s2" by (simp add: s2_def)
  define l where "l = (if OSLockNesting s < 255 then OSLockNesting s else 254)"
  have lk: "OSLockNesting s < 255 \<Longrightarrow> OSLockNesting s + 1 > 0" "\<not> OSLockNesting s < 255 \<Longrightarrow> OSLockNesting s = 255"
    by (auto simp: word_less_nat_alt unat_word_ariths word_unat_eq_iff)
       (use u8_unat_less [of "OSLockNesting s"] in linarith)
  define s5 where "s5 = (upd_tcb q (\<lambda>t. t\<lparr>OSTCBDly := 0, OSTCBStat := OS_STAT_RDY,
      OSTCBStatPend := OS_STAT_PEND_OK\<rparr>) s2)\<lparr>OSLockNesting := l\<rparr>"
  have "del_data p q s = s5\<lparr>OSTaskCtr := OSTaskCtr s5 - 1, OSTCBPrioTbl := (OSTCBPrioTbl s5)(p := NULL)\<rparr>"
    unfolding del_data_def Let_def make_unready_nf [OF wf] s2' s5_def l_def
    using lk by (auto simp: s2(8))
  then show "OSTCBPrioTbl (del_data p q s) = (OSTCBPrioTbl s)(p := NULL)"
    "rdy (del_data p q s) = bm_del p (rdy s)"
    "ev_wait (OSEventMem (del_data p q s) e) =
       (if e = ?e \<and> e \<noteq> NULL then bm_del p (ev_wait (OSEventMem s e))
        else ev_wait (OSEventMem s e))"
    "ev_type (del_data p q s) e = ev_type s e"
    "a \<noteq> q \<Longrightarrow> OSTCBMem (del_data p q s) a = OSTCBMem s a"
    "tcb_next (del_data p q s) = tcb_next s" "tcb_prev (del_data p q s) = tcb_prev s"
    "OSTCBList (del_data p q s) = OSTCBList s" "OSTCBFreeList (del_data p q s) = OSTCBFreeList s"
    "OSTaskCtr (del_data p q s) = OSTaskCtr s - 1" "OSTCBCur (del_data p q s) = OSTCBCur s"
    "OSPrioCur (del_data p q s) = OSPrioCur s" "OSRunning (del_data p q s) = OSRunning s"
    "OSIntNesting (del_data p q s) = OSIntNesting s"
    "OSLockNesting (del_data p q s) = (if OSLockNesting s < 255 then OSLockNesting s else 254)"
    "OSEventFreeList (del_data p q s) = OSEventFreeList s"
    using s2 by (auto simp: s5_def l_def ev_type_def fun_eq_iff)
qed

lemma del_data_inv:
  assumes inv: "task_inv s" and p: "p < 64" and task: "is_task (OSTCBPrioTbl s p)"
  shows "task_inv (del_data p (OSTCBPrioTbl s p) s)"
proof (rule task_inv_change [OF inv, where P = "{p}"])
  let ?q = "OSTCBPrioTbl s p"
  let ?s = "del_data p ?q s"
  note sel = del_data_sel [OF prio_task [OF assms] p]
  note ok = task_tcb [OF assms]
  have rdy: "ready ?s = ready s - {p}" using p by (simp add: ready_def sel(2) bm.prios_del)
  have wt: "waiting ?s e = (if e = OSTCBEventPtr (OSTCBMem s ?q) \<and> e \<noteq> NULL then waiting s e - {p} else waiting s e)"
    for e using p by (simp add: waiting_def sel(3) bm.prios_del)
  have off: "p \<notin> waiting ?s e" if "e \<in> events" for e
    using tcb_ok_events [OF ok that] NULL_not_event [OF that] by (auto simp: wt)
  show "tcb_data (OSTCBMem ?s (OSTCBPrioTbl s r)) = tcb_data (OSTCBMem s (OSTCBPrioTbl s r))"
    if "r < 64" "r \<notin> {p}" "is_task (OSTCBPrioTbl s r)" for r
  proof -
    have "OSTCBPrioTbl s r \<noteq> ?q" using prio_tbl_inj [OF inv that(1) p that(3)] that(2) by blast
    then show ?thesis by (simp add: sel(5))
  qed
  show "task_ok ?s r" if "r \<in> {p}" for r
    using that off by (simp add: task_ok_def sel(1) is_task_def rdy)
  show "bm_ok (rdy ?s)" using task_inv_bm(1) [OF inv] p by (simp add: sel(2) bm.ok_del)
  show "bm_ok (ev_wait (OSEventMem ?s e))" if "e \<in> events" for e
    using task_inv_bm(2) [OF inv that] p by (auto simp: sel(3) bm.ok_del)
  show "ev_type s e \<noteq> OS_EVENT_TYPE_UNUSED" if "e \<in> events" "r \<in> {p}" "r \<in> waiting ?s e" for e r
    using that off by auto
qed (auto simp: del_data_sel [OF prio_task [OF assms] p] ready_def waiting_def bm.prios_del p)

lemma tcb_unlink_sel:
  assumes dl: "dlist (tcb_next s) (tcb_prev s) (OSTCBList s) (as @ q # y # bs)"
  shows "tcb_next (tcb_unlink q s) = (if as = [] then tcb_next s else (tcb_next s)(last as := y))"
    "tcb_prev (tcb_unlink q s) = (tcb_prev s)(y := if as = [] then NULL else last as)"
    "OSTCBList (tcb_unlink q s) = (if as = [] then y else OSTCBList s)"
    "core (tcb_unlink q s) = core s" "OSTCBFreeList (tcb_unlink q s) = OSTCBFreeList s"
    "OSTaskCtr (tcb_unlink q s) = OSTaskCtr s" "OSTCBPrioTbl (tcb_unlink q s) = OSTCBPrioTbl s"
    "OSTCBCur (tcb_unlink q s) = OSTCBCur s" "OSPrioCur (tcb_unlink q s) = OSPrioCur s"
    "OSRunning (tcb_unlink q s) = OSRunning s" "OSIntNesting (tcb_unlink q s) = OSIntNesting s"
    "OSLockNesting (tcb_unlink q s) = OSLockNesting s" "OSEventMem (tcb_unlink q s) = OSEventMem s"
    "OSEventFreeList (tcb_unlink q s) = OSEventFreeList s"
proof -
  have nxt: "OSTCBNext (OSTCBMem s q) = y" using dl chain_at by (auto simp: dlist_def)
  have prv: "OSTCBPrev (OSTCBMem s q) = (if as = [] then NULL else last as)"
    using dl prevs_at [of "tcb_prev s" NULL as q "y # bs"] by (simp add: dlist_def)
  have ne: "as \<noteq> [] \<Longrightarrow> last as \<noteq> NULL"
    using dlist_not_NULL [OF dl] by (metis Un_iff last_in_set set_append)
  have ly: "as \<noteq> [] \<Longrightarrow> last as \<noteq> y" using dl by (auto simp: dlist_def)
  show "tcb_next (tcb_unlink q s) = (if as = [] then tcb_next s else (tcb_next s)(last as := y))"
    "tcb_prev (tcb_unlink q s) = (tcb_prev s)(y := if as = [] then NULL else last as)"
    "OSTCBList (tcb_unlink q s) = (if as = [] then y else OSTCBList s)"
    "core (tcb_unlink q s) = core s" "OSTCBFreeList (tcb_unlink q s) = OSTCBFreeList s"
    "OSTaskCtr (tcb_unlink q s) = OSTaskCtr s" "OSTCBPrioTbl (tcb_unlink q s) = OSTCBPrioTbl s"
    "OSTCBCur (tcb_unlink q s) = OSTCBCur s" "OSPrioCur (tcb_unlink q s) = OSPrioCur s"
    "OSRunning (tcb_unlink q s) = OSRunning s" "OSIntNesting (tcb_unlink q s) = OSIntNesting s"
    "OSLockNesting (tcb_unlink q s) = OSLockNesting s" "OSEventMem (tcb_unlink q s) = OSEventMem s"
    "OSEventFreeList (tcb_unlink q s) = OSEventFreeList s"
    using ne ly by (auto simp: tcb_unlink_def Let_def nxt prv core_def fun_eq_iff)
qed

text \<open>The unlinked block moves from the task list to the head of the free list.\<close>

lemma del_links_sel:
  assumes dl: "dlist (tcb_next s) (tcb_prev s) (OSTCBList s) (as @ q # y # bs)"
    and ch: "chain (tcb_next s) (OSTCBFreeList s) ys" and dist: "distinct ((as @ q # y # bs) @ ys)"
    and s': "s' = del_links q s"
  shows "dlist (tcb_next s') (tcb_prev s') (OSTCBList s') (as @ y # bs)"
    "chain (tcb_next s') (OSTCBFreeList s') (q # ys)"
    "core s' = core s" "OSTaskCtr s' = OSTaskCtr s" "OSTCBPrioTbl s' = OSTCBPrioTbl s"
    "OSTCBCur s' = OSTCBCur s" "OSPrioCur s' = OSPrioCur s" "OSRunning s' = OSRunning s"
    "OSIntNesting s' = OSIntNesting s" "OSLockNesting s' = OSLockNesting s" "OSEventMem s' = OSEventMem s"
    "OSEventFreeList s' = OSEventFreeList s"
proof -
  let ?u = "tcb_unlink q s"
  note u = tcb_unlink_sel [OF dl]
  have nxt: "tcb_next s' = (tcb_next ?u)(q := OSTCBFreeList s)" and prv: "tcb_prev s' = tcb_prev ?u"
    by (auto simp: s' del_links_def tcb_give_def u(5) fun_eq_iff)
  have lst: "OSTCBList s' = OSTCBList ?u" "OSTCBFreeList s' = q" by (simp_all add: s' del_links_def tcb_give_def)
  have "dlist (tcb_next ?u) (tcb_prev ?u) (OSTCBList ?u) (as @ y # bs)"
    unfolding u by (rule dlist_unlink [OF dl])
  moreover have "q \<notin> set (as @ y # bs)" using dist by auto
  ultimately show "dlist (tcb_next s') (tcb_prev s') (OSTCBList s') (as @ y # bs)"
    unfolding nxt prv lst dlist_def by simp
  have "NULL \<noteq> q" using dlist_not_NULL [OF dl] by auto
  moreover have "chain (tcb_next ?u) (OSTCBFreeList s) ys"
    unfolding u using ch dist by (auto dest: last_in_set)
  ultimately show "chain (tcb_next s') (OSTCBFreeList s') (q # ys)"
    unfolding nxt lst using dist by simp
  show "core s' = core s" using u(4) by (auto simp: s' del_links_def tcb_give_def core_def fun_eq_iff)
  show "OSTaskCtr s' = OSTaskCtr s" "OSTCBPrioTbl s' = OSTCBPrioTbl s"
    "OSTCBCur s' = OSTCBCur s" "OSPrioCur s' = OSPrioCur s" "OSRunning s' = OSRunning s"
    "OSIntNesting s' = OSIntNesting s" "OSLockNesting s' = OSLockNesting s" "OSEventMem s' = OSEventMem s"
    "OSEventFreeList s' = OSEventFreeList s"
    by (simp_all add: s' del_links_def tcb_give_def u)
qed

lemma tasks_del:
  assumes inv: "task_inv s" and p: "p < 64" and task: "is_task (OSTCBPrioTbl s p)"
    and tbl: "OSTCBPrioTbl s' = (OSTCBPrioTbl s)(p := NULL)"
  shows "tasks s' = tasks s - {OSTCBPrioTbl s p}"
proof (intro set_eqI iffI)
  fix x
  assume "x \<in> tasks s'"
  then obtain r where r: "r < 64" "is_task x" "x = OSTCBPrioTbl s' r" by (auto simp: tasks_def)
  then have ne: "r \<noteq> p" by (auto simp: tbl is_task_def)
  then have x: "x = OSTCBPrioTbl s r" using r by (simp add: tbl)
  then have "x \<noteq> OSTCBPrioTbl s p" using prio_tbl_inj [OF inv r(1) p] r(2) ne by auto
  moreover have "x \<in> tasks s" using r(1,2) x unfolding tasks_def by blast
  ultimately show "x \<in> tasks s - {OSTCBPrioTbl s p}" by blast
next
  fix x
  assume "x \<in> tasks s - {OSTCBPrioTbl s p}"
  then obtain r where r: "r < 64" "is_task x" "x = OSTCBPrioTbl s r" "r \<noteq> p" by (auto simp: tasks_def)
  then have "x = OSTCBPrioTbl s' r" by (simp add: tbl)
  then show "x \<in> tasks s'" using r unfolding tasks_def by blast
qed

lemma OSTaskDel_inv:
  assumes inv: "kernel_inv dfr s" and pool: "pool_inv s" and run: "OSRunning s"
    and old: "prio0 = OS_PRIO_SELF \<or> prio0 < 64"
    and self: "OSLockNesting s = 0 \<or> prio0 \<noteq> OS_PRIO_SELF \<and> prio0 \<noteq> OSPrioCur s"
    and not_idle: "prio0 = OS_PRIO_SELF \<longrightarrow> OSPrioCur s \<noteq> OS_TASK_IDLE_PRIO"
    and s': "s' = snd (OSTaskDel prio0 s)"
  shows "kernel_inv dfr s'" "pool_inv s'"
proof -
  note i = kernel_invD [OF inv]
  note cur = cur_task [OF inv run]
  have cp: "OSTCBPrio (OSTCBMem s (OSTCBCur s)) = OSPrioCur s" using cur(5) by (simp add: tcb_wf_def)
  define p where "p = (if prio0 = OS_PRIO_SELF then OSTCBPrio (OSTCBMem s (OSTCBCur s)) else prio0)"
  let ?q = "OSTCBPrioTbl s p"
  have "kernel_inv dfr s' \<and> pool_inv s'"
  proof (cases "OSIntNesting s = 0 \<and> prio0 \<noteq> OS_TASK_IDLE_PRIO \<and> is_task ?q")
    case False
    then have "s' = s"
      by (auto simp: s' OSTaskDel_def p_def [symmetric] is_task_def Let_def word_gt_0)
    then show ?thesis using inv pool by simp
  next
    case True
    then have isr: "OSIntNesting s = 0" and nid: "prio0 \<noteq> OS_TASK_IDLE_PRIO" and task: "is_task ?q" by auto
    have p: "p < 64" "p \<noteq> OS_TASK_IDLE_PRIO" using old not_idle nid cur(1) by (auto simp: p_def cp)
    have lev: "p = OSPrioCur s \<Longrightarrow> OSLockNesting s = 0" using self by (auto simp: p_def cp)
    define s1 where "s1 = del_data p ?q s"
    define s9 where "s9 = del_links ?q s1"
    note d = del_data_sel [OF prio_task [OF i(1) p(1) task] p(1), folded s1_def]
    obtain xs ys where lists: "task_lists s xs ys" using pool by (auto simp: pool_inv_def)
    have "?q \<in> set xs" using lists p task unfolding task_lists_def tasks_def by blast
    then obtain as zs where xs: "xs = as @ ?q # zs" by (meson split_list)
    have "last xs \<noteq> ?q"
      using task_lists_last(1) [OF lists] xs prio_tbl_inj [OF i(1) p(1) _ task, of OS_TASK_IDLE_PRIO] p(2) by auto
    then obtain y bs where zs: "zs = y # bs" using xs by (cases zs) auto
    have dl: "dlist (tcb_next s1) (tcb_prev s1) (OSTCBList s1) (as @ ?q # y # bs)"
      and ch: "chain (tcb_next s1) (OSTCBFreeList s1) ys" and dist: "distinct ((as @ ?q # y # bs) @ ys)"
      using lists unfolding task_lists_def d xs zs by blast+
    note l = del_links_sel [OF dl ch dist s9_def]
    have "OSTaskDel prio0 s = (OS_ERR_NONE, if OSRunning s9 then OS_Sched s9 else s9)"
      by (rule OSTaskDel_split [OF isr nid p_def task]) (simp add: s9_def s1_def)
    then have s9: "s' = OS_Sched s9" using run by (simp add: s' l d)
    have t9: "task_inv s9" using del_data_inv [OF i(1) p(1) task] task_inv_core [OF l(3)] by (simp add: s1_def)
    have rdy: "ready s9 = ready s - {p}" using core_eqD(3) [OF l(3)] p(1) by (simp add: ready_def d bm.prios_del)
    have "kernel_inv dfr (OS_Sched s9)"
    proof (rule OS_Sched_inv [OF t9])
      show "idle_inv s9" using i(2) p(2) by (simp add: idle_inv_def rdy)
      show "cur_inv s9 \<or> OSIntNesting s9 = 0 \<and> OSLockNesting s9 = 0 \<and> OSPrioCur s9 \<notin> ready s9"
        using i(3) lev isr by (cases "p = OSPrioCur s") (auto simp: cur_inv_def l d rdy)
    qed
    moreover have "task_lists s9 (as @ y # bs) (?q # ys)"
    proof -
      have "tasks s9 = tasks s - {?q}"
        by (rule tasks_del [OF i(1) p(1) task]) (simp add: l d)
      moreover have "set xs = tasks s" "OSTaskCtr s = word_of_nat (length xs)" "set (xs @ ys) = tcbs"
        "last xs = OSTCBPrioTbl s OS_TASK_IDLE_PRIO"
        using lists xs unfolding task_lists_def by blast+
      ultimately show ?thesis using l(1,2) dist p(2)
        by (auto simp: task_lists_def xs zs l d)
    qed
    then have "pool_inv (OS_Sched s9)"
      using pool_inv_view [of "OS_Sched s9" s9] by (auto simp: pool_inv_def pool_view_def)
    ultimately show ?thesis using s9 by simp
  qed
  then show "kernel_inv dfr s'" "pool_inv s'" by auto
qed

lemma OSTaskCreate_inv:
  assumes inv: "kernel_inv dfr s" and pool: "pool_inv s" and p: "prio < 64"
    and s': "s' = snd (OSTaskCreate ld task arg ptos prio s)"
  shows "kernel_inv dfr s'" "pool_inv s'"
proof -
  note i = kernel_invD [OF inv]
  obtain xs ys where lists: "task_lists s xs ys" using pool by (auto simp: pool_inv_def)
  have idle: "is_task (OSTCBPrioTbl s OS_TASK_IDLE_PRIO)" using ready_task [OF i(1)] i(2) by (simp add: idle_inv_def)
  then have ne: "xs \<noteq> []" using lists unfolding task_lists_def tasks_def by force
  have "kernel_inv dfr s' \<and> pool_inv s'"
  proof (cases "OSIntNesting s = 0 \<and> OSTCBPrioTbl s prio = NULL")
    case False
    then have "s' = s" by (auto simp: s' OSTaskCreate_def word_gt_0)
    then show ?thesis using inv pool by simp
  next
    case True
    then have isr: "OSIntNesting s = 0" and free: "OSTCBPrioTbl s prio = NULL" by auto
    show ?thesis
    proof (cases ys)
      case Nil
      obtain m where m: "snd (OSTaskStkInit ld task arg ptos (s\<lparr>OSTCBPrioTbl := (OSTCBPrioTbl s)(prio := 1)\<rparr>))
          = s\<lparr>OSTCBPrioTbl := (OSTCBPrioTbl s)(prio := 1), app_mem := m\<rparr>" using OSTaskStkInit_app by blast
      have "OSTCBFreeList s = NULL" using lists Nil by (simp add: task_lists_def)
      then have "s' = s\<lparr>OSTCBPrioTbl := (OSTCBPrioTbl s)(prio := NULL), app_mem := m\<rparr>"
        using isr free m by (simp add: s' OSTaskCreate_def OS_TCBInit_def Let_def split_beta)
      moreover have "(OSTCBPrioTbl s)(prio := NULL) = OSTCBPrioTbl s" using free by auto
      ultimately have s'': "s' = s\<lparr>app_mem := m\<rparr>" by simp
      show ?thesis using kernel_inv_same [OF inv, of s'] pool pool_inv_view [of s' s] unfolding s'' by simp
    next
      case (Cons q zs)
      have "xs = [] \<longrightarrow> prio = OS_TASK_IDLE_PRIO" using ne by simp
      note ok = OSTaskCreate_ok [OF i(1) lists [unfolded Cons] p free this isr]
      obtain s3 where s3: "OSTaskCreate ld task arg ptos prio s = (OS_ERR_NONE, if OSRunning s then OS_Sched s3 else s3)"
        "task_inv s3" "task_lists s3 (q # xs) zs" "ready s3 = insert prio (ready s)"
        "OSTCBPrioTbl s3 = (OSTCBPrioTbl s)(prio := q)" "rdy s3 = bm_ins prio (rdy s)"
        "OSTCBCur s3 = OSTCBCur s" "OSPrioCur s3 = OSPrioCur s"
        "OSRunning s3 = OSRunning s" "OSIntNesting s3 = OSIntNesting s" "OSLockNesting s3 = OSLockNesting s"
        "OSEventMem s3 = OSEventMem s" "OSEventFreeList s3 = OSEventFreeList s"
        by (rule ok)
      have "prio \<noteq> OSPrioCur s \<or> \<not> OSRunning s"
        using cur_task(2) [OF inv] free by (auto simp: is_task_def)
      then have c: "cur_inv s3" using i(3) s3(5,7-9) by (auto simp: cur_inv_def)
      have d: "idle_inv s3" using i(2) s3(4) by (simp add: idle_inv_def)
      have "s' = (if OSRunning s then OS_Sched s3 else s3)" using s3(1) s' by simp
      moreover have "kernel_inv dfr (if OSRunning s then OS_Sched s3 else s3)"
        by (rule sched_or_inv [OF s3(2) d c]) (simp add: sched_inv_def s3(9))
      moreover have "pool_view (OS_Sched s3) = pool_view s3" by (simp add: pool_view_def)
      then have "pool_inv (OS_Sched s3) \<longleftrightarrow> pool_inv s3" by (rule pool_inv_view)
      moreover have "pool_inv s3" using s3(3) unfolding pool_inv_def by blast
      ultimately show ?thesis by simp
    qed
  qed
  then show "kernel_inv dfr s'" "pool_inv s'" by auto
qed

section \<open>The other operations keep the lists\<close>

lemma pool_view_simps [simp]:
  "(\<And>t. OSTCBNext (f t) = OSTCBNext t) \<Longrightarrow> (\<And>t. OSTCBPrev (f t) = OSTCBPrev t) \<Longrightarrow>
     pool_view (upd_tcb q f s) = pool_view s"
  "pool_view (upd_event e g s) = pool_view s" "pool_view (set_rdy b s) = pool_view s"
  "pool_view (upd_q a h s) = pool_view s" "pool_view (upd_mem a k s) = pool_view s"
  "pool_view (OS_Sched s) = pool_view s"
  by (auto simp: pool_view_def fun_eq_iff)

lemma pool_view_ops [simp]:
  "pool_view (make_ready q s) = pool_view s" "pool_view (make_unready q s) = pool_view s"
  "pool_view (OS_EventTaskRemove q e s) = pool_view s" "pool_view (OS_EventTaskWait e s) = pool_view s"
  "pool_view (snd (OS_EventTaskRdy e m k ps s)) = pool_view s"
  "pool_view (OSTimeDly n s) = pool_view s" "pool_view (pend_block b n e s) = pool_view s"
  "pool_view (snd (pend_wakeup e s)) = pool_view s" "pool_view (tick_task q s) = pool_view s"
  "pool_view (snd (OSTaskSuspend p s)) = pool_view s" "pool_view (snd (OSTaskResume p s)) = pool_view s"
  by (simp_all add: make_ready_def make_unready_def OS_EventTaskRemove_def OS_EventTaskWait_def
      OS_EventTaskRdy_def OSTimeDly_def pend_block_def pend_wakeup_def tick_task_def OSTaskSuspend_def
      OSTaskResume_def Let_def)

lemma pool_view_rdy_all [simp]: "pool_view (snd (OS_EventRdyAll n e m k ps s)) = pool_view s"
  by (induction n arbitrary: s) (simp_all add: split_beta)

end
