(* ===== verification/OS_Tick_Inv.thy ===== *)
theory OS_Tick_Inv
  imports OS_Task_Inv
begin

text \<open>
  The clock tick reaches every task but the idle task exactly once, and keeps the invariant.
\<close>

lemma pool_view_sel:
  assumes "pool_view s' = pool_view s"
  shows "tcb_next s' = tcb_next s" "tcb_prev s' = tcb_prev s" "OSTCBList s' = OSTCBList s"
    "OSTCBFreeList s' = OSTCBFreeList s" "OSTCBPrioTbl s' = OSTCBPrioTbl s" "OSTaskCtr s' = OSTaskCtr s"
    "tasks s' = tasks s"
  using assms by (simp_all add: pool_view_def tasks_def)

lemma set_butlast: "distinct xs \<Longrightarrow> xs \<noteq> [] \<Longrightarrow> set (butlast xs) = set xs - {last xs}"
  by (cases xs rule: rev_cases) auto

lemma tasksE:
  assumes "q \<in> tasks s"
  obtains p where "p < 64" "is_task q" "q = OSTCBPrioTbl s p"
  using assms by (auto simp: tasks_def)

text \<open>The tasks of the list segment \<open>zs\<close> that a tick makes ready.\<close>

definition woken :: "os \<Rightarrow> ptr set \<Rightarrow> u8 set" where
  "woken s Q = {p. p < 64 \<and> OSTCBPrioTbl s p \<in> Q \<and> tick_wakes (OSTCBMem s (OSTCBPrioTbl s p))}"

lemma tick_loop_props:
  assumes "task_inv s" "chain (tcb_next s) q zs" "distinct zs" "set zs \<subseteq> tasks s" "zs \<noteq> []"
    "last zs = OSTCBPrioTbl s OS_TASK_IDLE_PRIO" "length zs \<le> n" "s' = tick_loop n q s"
  shows "task_inv s' \<and> pool_view s' = pool_view s
    \<and> OSTCBMem s' = (\<lambda>a. if a \<in> set (butlast zs) then tick_tcb (OSTCBMem s a) else OSTCBMem s a)
    \<and> ready s' = ready s \<union> woken s (set (butlast zs))
    \<and> OSTCBCur s' = OSTCBCur s \<and> OSPrioCur s' = OSPrioCur s \<and> OSRunning s' = OSRunning s
    \<and> OSIntNesting s' = OSIntNesting s \<and> OSLockNesting s' = OSLockNesting s \<and> OSTime s' = OSTime s
    \<and> OSEventMem s' = OSEventMem s \<and> OSEventFreeList s' = OSEventFreeList s"
  using assms
proof (induction zs arbitrary: s q n s')
  case (Cons x zs)
  note inv = Cons.prems(1)
  from Cons.prems have q: "q = x" and x: "x \<in> tasks s" by auto
  from Cons.prems(7) obtain n' where n: "n = Suc n'" by (cases n) auto
  obtain p where p: "p < 64" "is_task x" "x = OSTCBPrioTbl s p" by (rule tasksE [OF x])
  have prio: "OSTCBPrio (OSTCBMem s x) = p" using prio_task [OF inv p(1)] p by (simp add: tcb_wf_def)
  show ?case
  proof (cases zs)
    case Nil
    have eq: "OSTCBPrioTbl s p = OSTCBPrioTbl s OS_TASK_IDLE_PRIO" using Cons.prems(6) Nil p(3) by simp
    have "is_task (OSTCBPrioTbl s p)" using p by simp
    then have "p = OS_TASK_IDLE_PRIO" using prio_tbl_inj [OF inv p(1) _ _ eq] by simp
    then have "s' = s" using Cons.prems(8) prio by (simp add: n q)
    then show ?thesis using inv Nil by (simp add: woken_def)
  next
    case zs: (Cons y ws)
    have ne: "p \<noteq> OS_TASK_IDLE_PRIO"
    proof
      assume "p = OS_TASK_IDLE_PRIO"
      then have "last zs = x" using Cons.prems(6) p(3) zs by simp
      then show False using Cons.prems(3) zs by (metis distinct.simps(2) last_in_set list.discI)
    qed
    let ?s1 = "tick_task x s"
    have task: "is_task (OSTCBPrioTbl s p)" using p by simp
    have inv1: "task_inv ?s1" using tick_task_inv [OF inv p(1) task] p(3) by simp
    have pv: "pool_view ?s1 = pool_view s" by simp
    have nx: "OSTCBNext (OSTCBMem ?s1 x) = y" using Cons.prems(2) zs pool_view_sel(1) [OF pv] by (auto dest: fun_cong)
    have s': "s' = tick_loop n' y ?s1" using Cons.prems(8) prio ne nx by (simp add: n q Let_def)
    have ch: "chain (tcb_next ?s1) y zs" unfolding pool_view_sel(1) [OF pv] using Cons.prems(2) zs by auto
    note IH = Cons.IH [OF inv1 ch _ _ _ _ _ s']
    have IH': "task_inv s' \<and> pool_view s' = pool_view ?s1
      \<and> OSTCBMem s' = (\<lambda>a. if a \<in> set (butlast zs) then tick_tcb (OSTCBMem ?s1 a) else OSTCBMem ?s1 a)
      \<and> ready s' = ready ?s1 \<union> woken ?s1 (set (butlast zs))
      \<and> OSTCBCur s' = OSTCBCur ?s1 \<and> OSPrioCur s' = OSPrioCur ?s1 \<and> OSRunning s' = OSRunning ?s1
      \<and> OSIntNesting s' = OSIntNesting ?s1 \<and> OSLockNesting s' = OSLockNesting ?s1 \<and> OSTime s' = OSTime ?s1
      \<and> OSEventMem s' = OSEventMem ?s1 \<and> OSEventFreeList s' = OSEventFreeList ?s1"
      by (rule IH) (use Cons.prems(3-7) zs n pool_view_sel(7) [OF pv] in auto)
    have mem: "OSTCBMem ?s1 = (OSTCBMem s)(x := tick_tcb (OSTCBMem s x))"
      using tick_task_mem [OF inv p(1) task] p(3) by simp
    have rdy: "ready ?s1 = ready s \<union> woken s {x}"
      using tick_task_ready [OF inv p(1) task] p prio_tbl_inj [OF inv _ p(1)] by (auto simp: woken_def)
    have xz: "x \<notin> set (butlast zs)" using Cons.prems(3) by (auto dest: in_set_butlastD)
    have mem': "OSTCBMem s' = (\<lambda>a. if a \<in> set (butlast (x # zs)) then tick_tcb (OSTCBMem s a) else OSTCBMem s a)"
      using IH' xz zs by (auto simp: mem fun_eq_iff)
    have "woken ?s1 (set (butlast zs)) = woken s (set (butlast zs))"
      using xz by (auto simp: woken_def mem)
    then have "ready s' = ready s \<union> woken s (set (butlast (x # zs)))"
      using IH' zs by (auto simp: rdy woken_def)
    then show ?thesis using IH' mem' by simp
  qed
qed simp

text \<open>The tasks a tick visits: all but the idle task.\<close>

definition timed_tasks :: "os \<Rightarrow> ptr set" where
  "timed_tasks s = tasks s - {OSTCBPrioTbl s OS_TASK_IDLE_PRIO}"

lemma OSTimeTick_props:
  assumes inv: "kernel_inv dfr s" and pool: "pool_inv s" and run: "OSRunning s" and s': "s' = OSTimeTick s"
  shows "task_inv s'" "pool_view s' = pool_view s" "OSTime s' = OSTime s + 1"
    "OSTCBMem s' = (\<lambda>a. if a \<in> timed_tasks s then tick_tcb (OSTCBMem s a) else OSTCBMem s a)"
    "ready s' = ready s \<union> woken s (timed_tasks s)"
    "OSTCBCur s' = OSTCBCur s" "OSPrioCur s' = OSPrioCur s" "OSRunning s' = OSRunning s"
    "OSIntNesting s' = OSIntNesting s" "OSLockNesting s' = OSLockNesting s"
    "OSEventMem s' = OSEventMem s" "OSEventFreeList s' = OSEventFreeList s"
proof -
  note i = kernel_invD [OF inv]
  define s1 where "s1 = s\<lparr>OSTime := OSTime s + 1\<rparr>"
  have c: "core s1 = core s" "pool_view s1 = pool_view s" by (simp_all add: s1_def core_def pool_view_def)
  have eq: "OSTimeTick s = tick_loop 11 (OSTCBList s1) s1" using run by (simp add: OSTimeTick_def s1_def Let_def)
  obtain xs ys where lists: "task_lists s1 xs ys" using pool task_lists_view [OF c(2)] by (auto simp: pool_inv_def)
  have idle: "is_task (OSTCBPrioTbl s OS_TASK_IDLE_PRIO)" using ready_task [OF i(1)] i(2) by (simp add: idle_inv_def)
  have tk: "tasks s1 = tasks s" by (rule pool_view_sel(7) [OF c(2)])
  have xs: "chain (tcb_next s1) (OSTCBList s1) xs" "distinct xs" "set xs = tasks s1"
    using lists unfolding task_lists_def dlist_def by blast+
  then have ne: "xs \<noteq> []" using idle tk by (auto simp: tasks_def)
  have len: "length xs \<le> 11" using task_lists_length [OF lists] by simp
  have i1: "task_inv s1" using i(1) task_inv_core [OF c(1)] by simp
  have sub: "set xs \<subseteq> tasks s1" using xs(3) by simp
  note props = tick_loop_props [OF i1 xs(1,2) sub ne task_lists_last(1) [OF lists ne] len refl]
  have "set (butlast xs) = set xs - {last xs}"
    by (rule set_butlast [OF xs(2) ne])
  then have bl: "set (butlast xs) = timed_tasks s"
    using task_lists_last(1) [OF lists ne] xs(3) tk by (simp add: timed_tasks_def s1_def)
  have w: "woken s1 (timed_tasks s) = woken s (timed_tasks s)" "ready s1 = ready s"
    by (simp_all add: woken_def s1_def ready_def)
  have m: "OSTCBMem s1 = OSTCBMem s" by (simp add: s1_def)
  show "task_inv s'" "pool_view s' = pool_view s" "OSTime s' = OSTime s + 1"
    "OSTCBMem s' = (\<lambda>a. if a \<in> timed_tasks s then tick_tcb (OSTCBMem s a) else OSTCBMem s a)"
    "ready s' = ready s \<union> woken s (timed_tasks s)"
    "OSTCBCur s' = OSTCBCur s" "OSPrioCur s' = OSPrioCur s" "OSRunning s' = OSRunning s"
    "OSIntNesting s' = OSIntNesting s" "OSLockNesting s' = OSLockNesting s"
    "OSEventMem s' = OSEventMem s" "OSEventFreeList s' = OSEventFreeList s"
    using props unfolding s' eq bl w c(2) m by (simp_all add: s1_def)
qed

lemma OSTimeTick_inv:
  assumes inv: "kernel_inv dfr s" and pool: "pool_inv s" and run: "OSRunning s" and isr: "OSIntNesting s \<noteq> 0"
  shows "kernel_inv dfr (OSTimeTick s)" "pool_inv (OSTimeTick s)"
proof -
  note i = kernel_invD [OF inv]
  note t = OSTimeTick_props [OF inv pool run refl]
  have "idle_inv (OSTimeTick s)" using i(2) t(5) by (simp add: idle_inv_def)
  moreover have "cur_inv (OSTimeTick s)"
    by (rule cur_inv_frame [OF t(8,6,7) pool_view_sel(5) [OF t(2)] i(3)])
  ultimately show "kernel_inv dfr (OSTimeTick s)"
    using t(1) isr by (simp add: kernel_inv_def sched_inv_def t(9))
  show "pool_inv (OSTimeTick s)" using pool pool_inv_view [OF t(2)] by simp
qed

end
