(* ===== verification/OS_Event_Inv.thy ===== *)
theory OS_Event_Inv
  imports OS_Tick_Inv
begin

text \<open>
  Event control blocks: creating, deleting and aborting keep the invariant; a block is on the
  free list only while its type is \<open>OS_EVENT_TYPE_UNUSED\<close>, and then nobody waits on it.
\<close>

section \<open>The pool of event control blocks\<close>

definition ev_lists :: "os \<Rightarrow> ptr list \<Rightarrow> bool" where
  "ev_lists s fs \<longleftrightarrow> chain (\<lambda>a. OSEventPtr (OSEventMem s a)) (OSEventFreeList s) fs \<and> distinct fs
     \<and> set fs \<subseteq> events \<and> (\<forall>e\<in>set fs. ev_type s e = OS_EVENT_TYPE_UNUSED)"

definition ev_inv :: "os \<Rightarrow> bool" where
  "ev_inv s \<longleftrightarrow> (\<exists>fs. ev_lists s fs)"

text \<open>An operation that leaves the types, the free list and the pointers of unused events alone.\<close>

lemma ev_lists_frame:
  assumes "ev_lists s fs" "OSEventFreeList s' = OSEventFreeList s"
    "\<And>e. e \<in> set fs \<Longrightarrow> ev_type s e = OS_EVENT_TYPE_UNUSED \<Longrightarrow>
      ev_type s' e = ev_type s e \<and> OSEventPtr (OSEventMem s' e) = OSEventPtr (OSEventMem s e)"
  shows "ev_lists s' fs"
proof -
  have t: "\<forall>e\<in>set fs. ev_type s e = OS_EVENT_TYPE_UNUSED"
    and c: "chain (\<lambda>a. OSEventPtr (OSEventMem s a)) (OSEventFreeList s) fs"
    and d: "distinct fs" "set fs \<subseteq> events"
    using assms(1) unfolding ev_lists_def by blast+
  have "chain (\<lambda>a. OSEventPtr (OSEventMem s' a)) (OSEventFreeList s) fs \<longleftrightarrow>
    chain (\<lambda>a. OSEventPtr (OSEventMem s a)) (OSEventFreeList s) fs"
    by (rule chain_cong) (use assms(3) t in blast)
  moreover have "\<forall>e\<in>set fs. ev_type s' e = OS_EVENT_TYPE_UNUSED" using assms(3) t by metis
  ultimately show ?thesis unfolding ev_lists_def using c d assms(2) by simp
qed

lemma ev_inv_frame:
  assumes "ev_inv s" "OSEventFreeList s' = OSEventFreeList s"
    "\<And>e. ev_type s e = OS_EVENT_TYPE_UNUSED \<Longrightarrow>
      ev_type s' e = ev_type s e \<and> OSEventPtr (OSEventMem s' e) = OSEventPtr (OSEventMem s e)"
  shows "ev_inv s'"
  using assms ev_lists_frame unfolding ev_inv_def by blast

section \<open>Changing the type of an event nobody waits on\<close>

lemma task_inv_retype:
  assumes inv: "task_inv s" and x: "waiting s x = {}" "waiting s' x = {}" "bm_ok (ev_wait (OSEventMem s' x))"
    and same: "OSTCBPrioTbl s' = OSTCBPrioTbl s" "OSTCBMem s' = OSTCBMem s" "rdy s' = rdy s"
      "\<And>e. e \<noteq> x \<Longrightarrow> OSEventMem s' e = OSEventMem s e"
  shows "task_inv s'"
proof -
  have w: "waiting s' e = waiting s e" for e using x same(4) by (cases "e = x") (simp_all add: waiting_def)
  have r: "ready s' = ready s" by (simp add: ready_def same(3))
  have ty: "ev_type s' e = ev_type s e" if "e \<noteq> x" for e using same(4) [OF that] by (simp add: ev_type_def)
  have "task_ok s' p" if p: "p < 64" for p
  proof -
    note old = task_okD [OF inv p]
    show ?thesis
    proof (cases "is_task (OSTCBPrioTbl s p)")
      case True
      let ?t = "OSTCBMem s (OSTCBPrioTbl s p)"
      note ok = task_tcb [OF inv p True]
      have "ev_type s' (OSTCBEventPtr ?t) = ev_type s (OSTCBEventPtr ?t)"
        if "OSTCBEventPtr ?t \<noteq> NULL"
      proof -
        have "OSTCBEventPtr ?t \<in> events" using ok that by (simp add: tcb_ok_def)
        then have "p \<in> waiting s (OSTCBEventPtr ?t)" using ok by (simp add: tcb_ok_def)
        then have "OSTCBEventPtr ?t \<noteq> x" using x(1) by auto
        then show ?thesis by (rule ty)
      qed
      then have "tcb_ok s' p ?t" using ok by (auto simp: tcb_ok_def w r)
      then show ?thesis using True by (simp add: task_ok_def same)
    next
      case False
      then show ?thesis using old by (simp add: task_ok_def same w r)
    qed
  qed
  moreover have "bm_ok (ev_wait (OSEventMem s' e))" if "e \<in> events" for e
    using task_inv_bm(2) [OF inv that] x(3) same(4) by (cases "e = x") simp_all
  moreover have "waiting s' e = {}" if "e \<in> events" "ev_type s' e = OS_EVENT_TYPE_UNUSED" for e
    using task_inv_unused [OF inv that(1)] that(2) ty x w by (cases "e = x") simp_all
  ultimately show ?thesis unfolding task_inv_def using task_inv_bm(1) [OF inv] same(3) by simp
qed

lemma kernel_inv_retype:
  assumes inv: "kernel_inv dfr s" and x: "waiting s x = {}" "waiting s' x = {}" "bm_ok (ev_wait (OSEventMem s' x))"
    and same: "OSTCBPrioTbl s' = OSTCBPrioTbl s" "OSTCBMem s' = OSTCBMem s" "rdy s' = rdy s"
      "\<And>e. e \<noteq> x \<Longrightarrow> OSEventMem s' e = OSEventMem s e"
    and ctl: "OSTCBCur s' = OSTCBCur s" "OSPrioCur s' = OSPrioCur s"
    "OSRunning s' = OSRunning s" "OSIntNesting s' = OSIntNesting s" "OSLockNesting s' = OSLockNesting s"
  shows "kernel_inv dfr s'"
  using task_inv_retype [OF kernel_invD(1) [OF inv] x same] kernel_invD(2-4) [OF inv]
  by (auto simp: kernel_inv_def cur_inv_def sched_inv_def idle_inv_def ready_def same ctl)

section \<open>Create\<close>

lemma fold_upd: "fold (\<lambda>i f. f(g i := v)) xs f y = (if y \<in> g ` set xs then v else f y)"
  by (induction xs arbitrary: f) auto

lemma wait_init_tbl: "y < 8 \<Longrightarrow> fold (\<lambda>i tbl. tbl(word_of_nat i := 0)) [0..<8] (f :: u8 \<Rightarrow> u8) y = 0"
  by (auto simp: fold_upd word_less_nat_alt intro!: image_eqI [of _ _ "unat y"])

lemma wait_init:
  "bm_ok (ev_wait (OSEventMem (OS_EventWaitListInit e s) e))" "waiting (OS_EventWaitListInit e s) e = {}"
proof -
  have t: "OSEventGrp (OSEventMem (OS_EventWaitListInit e s) e) = 0"
    "y < 8 \<Longrightarrow> OSEventTbl (OSEventMem (OS_EventWaitListInit e s) e) y = 0" for y
    using wait_init_tbl by (simp_all add: OS_EventWaitListInit_def)
  show ok: "bm_ok (ev_wait (OSEventMem (OS_EventWaitListInit e s) e))"
    using t by (simp add: bm_ok_def ev_wait_def)
  show "waiting (OS_EventWaitListInit e s) e = {}"
    using bm.none_iff [OF ok] t(1) by (simp add: waiting_def ev_wait_def)
qed

lemma OS_EventWaitListInit_frame [simp]:
  "OSTCBPrioTbl (OS_EventWaitListInit e s) = OSTCBPrioTbl s" "OSTCBMem (OS_EventWaitListInit e s) = OSTCBMem s"
  "rdy (OS_EventWaitListInit e s) = rdy s" "x \<noteq> e \<Longrightarrow> OSEventMem (OS_EventWaitListInit e s) x = OSEventMem s x"
  "OSTCBCur (OS_EventWaitListInit e s) = OSTCBCur s" "OSPrioCur (OS_EventWaitListInit e s) = OSPrioCur s"
  "OSRunning (OS_EventWaitListInit e s) = OSRunning s"
  "OSIntNesting (OS_EventWaitListInit e s) = OSIntNesting s"
  "OSLockNesting (OS_EventWaitListInit e s) = OSLockNesting s"
  "OSEventFreeList (OS_EventWaitListInit e s) = OSEventFreeList s"
  "ev_type (OS_EventWaitListInit e s) x = ev_type s x"
  "OSEventPtr (OSEventMem (OS_EventWaitListInit e s) x) = OSEventPtr (OSEventMem s x)"
  "OSEventCnt (OSEventMem (OS_EventWaitListInit e s) x) = OSEventCnt (OSEventMem s x)"
  "pool_view (OS_EventWaitListInit e s) = pool_view s" "OSQMem (OS_EventWaitListInit e s) = OSQMem s"
  "OSQFreeList (OS_EventWaitListInit e s) = OSQFreeList s" "app_mem (OS_EventWaitListInit e s) = app_mem s"
  by (simp_all add: OS_EventWaitListInit_def ev_type_def)

section \<open>The whole invariant\<close>

definition os_inv :: "bool \<Rightarrow> os \<Rightarrow> bool" where
  "os_inv dfr s \<longleftrightarrow> kernel_inv dfr s \<and> pool_inv s \<and> ev_inv s"

lemma os_invD:
  assumes "os_inv dfr s"
  shows "kernel_inv dfr s" "pool_inv s" "ev_inv s" "task_inv s" "idle_inv s" "cur_inv s" "sched_inv dfr s"
  using assms by (simp_all add: os_inv_def kernel_inv_def)

text \<open>An update of an event in use that keeps its type and its waiters.\<close>

lemma os_inv_upd:
  assumes inv: "os_inv dfr s" and core: "core s' = core s" and pv: "pool_view s' = pool_view s"
    and ctl: "OSTCBCur s' = OSTCBCur s" "OSPrioCur s' = OSPrioCur s" "OSRunning s' = OSRunning s"
      "OSIntNesting s' = OSIntNesting s" "OSLockNesting s' = OSLockNesting s"
    and fl: "OSEventFreeList s' = OSEventFreeList s"
    and ptr: "\<And>e. ev_type s e = OS_EVENT_TYPE_UNUSED \<Longrightarrow>
      OSEventPtr (OSEventMem s' e) = OSEventPtr (OSEventMem s e)"
  shows "os_inv dfr s'"
  using kernel_inv_same [OF os_invD(1) [OF inv] core ctl] pool_inv_view [OF pv] os_invD(2) [OF inv]
    ev_inv_frame [OF os_invD(3) [OF inv] fl] ptr core_eqD(4) [OF core]
  by (simp add: os_inv_def)

lemma ev_inv_core:
  assumes "ev_inv s" "OSEventFreeList s' = OSEventFreeList s" "\<And>e. ev_type s' e = ev_type s e"
    "\<And>e. OSEventPtr (OSEventMem s' e) = OSEventPtr (OSEventMem s e)"
  shows "ev_inv s'"
  using assms by (intro ev_inv_frame [of s s']) simp_all

lemma pool_view_fields [simp]:
  "pool_view (s\<lparr>OSEventFreeList := x1\<rparr>) = pool_view s" "pool_view (s\<lparr>OSQFreeList := x2\<rparr>) = pool_view s"
  "pool_view (s\<lparr>OSTime := x3\<rparr>) = pool_view s" "pool_view (s\<lparr>OSIntNesting := x4\<rparr>) = pool_view s"
  "pool_view (s\<lparr>OSLockNesting := x5\<rparr>) = pool_view s" "pool_view (s\<lparr>OSIdleCtr := x6\<rparr>) = pool_view s"
  "pool_view (s\<lparr>OSMemFreeList := x7\<rparr>) = pool_view s"
  by (simp_all add: pool_view_def)

lemma ev_type_fields [simp]:
  "ev_type (s\<lparr>OSTaskCtr := x1\<rparr>) e = ev_type s e" "ev_type (s\<lparr>OSLockNesting := x2\<rparr>) e = ev_type s e"
  "ev_type (s\<lparr>OSIntNesting := x3\<rparr>) e = ev_type s e" "ev_type (s\<lparr>OSTCBList := x4\<rparr>) e = ev_type s e"
  "ev_type (s\<lparr>OSTCBFreeList := x5\<rparr>) e = ev_type s e"
  by (simp_all add: ev_type_def)

lemma event_core_upd:
  "(\<And>v. OSEventType (f v) = OSEventType v \<and> ev_wait (f v) = ev_wait v) \<Longrightarrow> core (upd_event e f s) = core s"
  by (auto simp: core_def fun_eq_iff)

lemma ptr_wait [simp]:
  "OSEventPtr (OSEventMem (task_step q b e w f s) x) = OSEventPtr (OSEventMem s x)"
  "OSEventFreeList (task_step q b e w f s) = OSEventFreeList s"
  "pool_view (OS_Sched s) = pool_view s"
  by (simp_all add: task_step_def)

lemma ptr_prims [simp]:
  "OSEventPtr (OSEventMem (OS_EventTaskRemove q e s) x) = OSEventPtr (OSEventMem s x)"
  "OSEventPtr (OSEventMem (snd (OS_EventTaskRdy e m k ps s)) x) = OSEventPtr (OSEventMem s x)"
  "OSEventCnt (OSEventMem (OS_EventTaskRemove q e s) x) = OSEventCnt (OSEventMem s x)"
  "OSEventCnt (OSEventMem (snd (OS_EventTaskRdy e m k ps s)) x) = OSEventCnt (OSEventMem s x)"
  "OSEventPtr (OSEventMem (OS_EventTaskWait e s) x) = OSEventPtr (OSEventMem s x)"
  "OSEventFreeList (OS_EventTaskWait e s) = OSEventFreeList s" "ev_type (OS_EventTaskWait e s) x = ev_type s x"
  by (simp_all add: OS_EventTaskRemove_def OS_EventTaskRdy_def OS_EventTaskWait_def make_unready_def Let_def
      ev_type_def)

lemma ptr_rdy_all [simp]:
  "OSEventPtr (OSEventMem (snd (OS_EventRdyAll n e m k ps s)) x) = OSEventPtr (OSEventMem s x)"
  "OSEventCnt (OSEventMem (snd (OS_EventRdyAll n e m k ps s)) x) = OSEventCnt (OSEventMem s x)"
  "ev_type (snd (OS_EventRdyAll n e m k ps s)) x = ev_type s x"
  by (induction n arbitrary: s; simp add: split_beta)+

section \<open>Create and delete\<close>

lemma event_alloc_props:
  assumes inv: "os_inv dfr s"
  obtains "event_alloc s = (NULL, s)"
  | e fs where "event_alloc s = (e, s\<lparr>OSEventFreeList := OSEventPtr (OSEventMem s e)\<rparr>)" "e \<noteq> NULL" "e \<in> events"
      "ev_lists s (e # fs)" "ev_type s e = OS_EVENT_TYPE_UNUSED" "waiting s e = {}"
proof -
  obtain fs where fs: "ev_lists s fs" using os_invD(3) [OF inv] by (auto simp: ev_inv_def)
  show thesis
  proof (cases fs)
    case Nil
    then have "event_alloc s = (NULL, s)" using fs by (simp add: ev_lists_def event_alloc_def)
    then show thesis by (rule that(1))
  next
    case (Cons e gs)
    then have e: "OSEventFreeList s = e" "e \<noteq> NULL" "e \<in> events" "ev_type s e = OS_EVENT_TYPE_UNUSED"
      using fs by (auto simp: ev_lists_def)
    have "waiting s e = {}" by (rule task_inv_unused [OF os_invD(4) [OF inv] e(3,4)])
    then show thesis using that(2) [of e gs] fs Cons e by (simp add: event_alloc_def Let_def)
  qed
qed

text \<open>A freshly allocated event of type \<open>ty\<close> keeps the invariant, whatever else is initialised.\<close>

lemma event_new_inv:
  assumes inv: "os_inv dfr s" and lists: "ev_lists s (e # fs)"
    and w: "waiting s' e = {}" "bm_ok (ev_wait (OSEventMem s' e))"
    and same: "OSTCBPrioTbl s' = OSTCBPrioTbl s" "OSTCBMem s' = OSTCBMem s" "rdy s' = rdy s"
      "\<And>x. x \<noteq> e \<Longrightarrow> OSEventMem s' x = OSEventMem s x"
    and ctl: "OSTCBCur s' = OSTCBCur s" "OSPrioCur s' = OSPrioCur s" "OSRunning s' = OSRunning s"
      "OSIntNesting s' = OSIntNesting s" "OSLockNesting s' = OSLockNesting s"
    and pv: "pool_view s' = pool_view s" and fl: "OSEventFreeList s' = OSEventPtr (OSEventMem s e)"
  shows "os_inv dfr s'" "ev_lists s' fs"
proof -
  have e: "e \<in> events" "ev_type s e = OS_EVENT_TYPE_UNUSED" "e \<notin> set fs" using lists by (auto simp: ev_lists_def)
  have w0: "waiting s e = {}" by (rule task_inv_unused [OF os_invD(4) [OF inv] e(1,2)])
  have "chain (\<lambda>a. OSEventPtr (OSEventMem s' a)) (OSEventFreeList s') fs \<longleftrightarrow>
    chain (\<lambda>a. OSEventPtr (OSEventMem s a)) (OSEventFreeList s') fs"
    by (rule chain_cong) (use e(3) same(4) in metis)
  moreover have "\<forall>x\<in>set fs. ev_type s' x = OS_EVENT_TYPE_UNUSED"
  proof
    fix x
    assume x: "x \<in> set fs"
    then have "OSEventMem s' x = OSEventMem s x" using e(3) by (intro same(4)) auto
    then show "ev_type s' x = OS_EVENT_TYPE_UNUSED" using lists x by (simp add: ev_lists_def ev_type_def)
  qed
  ultimately show l: "ev_lists s' fs" using lists fl by (auto simp: ev_lists_def)
  show "os_inv dfr s'"
    unfolding os_inv_def ev_inv_def
    using kernel_inv_retype [OF os_invD(1) [OF inv] w0 w same ctl] pool_inv_view [OF pv] os_invD(2) [OF inv] l
    by blast
qed

lemma event_create_inv:
  assumes inv: "os_inv dfr s" and s': "s' = snd (event_create ty cnt q s)"
  shows "os_inv dfr s'"
proof (cases "OSIntNesting s > 0")
  case True
  then show ?thesis using inv by (simp add: s' event_create_def)
next
  case False
  show ?thesis
  proof (rule event_alloc_props [OF inv])
    assume "event_alloc s = (NULL, s)"
    then show ?thesis using False inv by (simp add: s' event_create_def)
  next
    fix e fs
    assume a: "event_alloc s = (e, s\<lparr>OSEventFreeList := OSEventPtr (OSEventMem s e)\<rparr>)" "e \<noteq> NULL"
      and lists: "ev_lists s (e # fs)"
    let ?s1 = "upd_event e (\<lambda>v. v\<lparr>OSEventType := ty, OSEventCnt := cnt, OSEventPtr := q\<rparr>)
      (s\<lparr>OSEventFreeList := OSEventPtr (OSEventMem s e)\<rparr>)"
    have s'': "s' = OS_EventWaitListInit e ?s1" using False a by (simp add: s' event_create_def)
    show ?thesis unfolding s''
      by (rule event_new_inv [OF inv lists]) (simp_all add: wait_init)
  qed
qed

text \<open>What a deletion may do besides: give back other resources, leaving the kernel's view alone.\<close>

definition quiet :: "(ptr \<Rightarrow> os \<Rightarrow> os) \<Rightarrow> bool" where
  "quiet r \<longleftrightarrow> (\<forall>e s. core (r e s) = core s \<and> pool_view (r e s) = pool_view s
     \<and> OSEventMem (r e s) = OSEventMem s \<and> OSEventFreeList (r e s) = OSEventFreeList s
     \<and> OSTCBCur (r e s) = OSTCBCur s \<and> OSPrioCur (r e s) = OSPrioCur s \<and> OSRunning (r e s) = OSRunning s
     \<and> OSIntNesting (r e s) = OSIntNesting s \<and> OSLockNesting (r e s) = OSLockNesting s
     \<and> OSTCBMem (r e s) = OSTCBMem s)"

lemma quietD:
  assumes "quiet r"
  shows "core (r e s) = core s" "pool_view (r e s) = pool_view s"
    "OSEventMem (r e s) = OSEventMem s" "OSEventFreeList (r e s) = OSEventFreeList s"
    "OSTCBCur (r e s) = OSTCBCur s" "OSPrioCur (r e s) = OSPrioCur s" "OSRunning (r e s) = OSRunning s"
    "OSIntNesting (r e s) = OSIntNesting s" "OSLockNesting (r e s) = OSLockNesting s"
    "OSTCBMem (r e s) = OSTCBMem s" "OSTCBPrioTbl (r e s) = OSTCBPrioTbl s" "rdy (r e s) = rdy s"
  using assms core_eqD [of "r e s" s] by (simp_all add: quiet_def)

lemma event_free_frame [simp]:
  "OSTCBPrioTbl (event_free e s) = OSTCBPrioTbl s" "OSTCBMem (event_free e s) = OSTCBMem s"
  "rdy (event_free e s) = rdy s" "x \<noteq> e \<Longrightarrow> OSEventMem (event_free e s) x = OSEventMem s x"
  "OSTCBCur (event_free e s) = OSTCBCur s" "OSPrioCur (event_free e s) = OSPrioCur s"
  "OSRunning (event_free e s) = OSRunning s" "OSIntNesting (event_free e s) = OSIntNesting s"
  "OSLockNesting (event_free e s) = OSLockNesting s" "pool_view (event_free e s) = pool_view s"
  "ready (event_free e s) = ready s" "waiting (event_free e s) x = waiting s x"
  "ev_wait (OSEventMem (event_free e s) x) = ev_wait (OSEventMem s x)"
  "ev_type (event_free e s) x = (if x = e then OS_EVENT_TYPE_UNUSED else ev_type s x)"
  by (simp_all add: event_free_def ready_def waiting_def ev_type_def)

text \<open>Giving an event in use, with no waiters, back to the pool.\<close>

lemma event_free_lists:
  assumes "ev_lists s fs" "e \<in> events" "ev_type s e \<noteq> OS_EVENT_TYPE_UNUSED"
  shows "ev_lists (event_free e s) (e # fs)"
proof -
  have e: "e \<notin> set fs" "e \<noteq> NULL" using assms NULL_not_event by (auto simp: ev_lists_def)
  then show ?thesis
    using ev_pool.give_chain [of s fs e] assms by (auto simp: ev_lists_def)
qed

lemma ev_grp_task:
  assumes "os_inv dfr s" "e \<in> events"
  shows "OSEventGrp (OSEventMem s e) \<noteq> 0 \<longleftrightarrow> waiting s e \<noteq> {}"
  using ev_grp_waiting [OF os_invD(4) [OF assms(1)] assms(2)] by simp

lemma OS_EventRdyAll_none: "OSEventGrp (OSEventMem s e) = 0 \<Longrightarrow> OS_EventRdyAll n e m k ps s = (0, s)"
  by (cases n) simp_all

lemma OS_EventDel_inv:
  assumes inv: "os_inv dfr s" and e: "e \<in> events" and q: "quiet r" and bit: "k = ev_bit ty" "k \<noteq> 0"
    and s': "s' = snd (snd (OS_EventDel ty k r e opt s))"
  shows "os_inv dfr s'"
proof (cases "ev_type s e = ty \<and> OSIntNesting s = 0 \<and>
    (opt = OS_DEL_NO_PEND \<and> OSEventGrp (OSEventMem s e) = 0 \<or> opt = OS_DEL_ALWAYS)")
  case False
  then have "s' = s" by (auto simp: s' OS_EventDel_def ev_type_def Let_def word_gt_0)
  then show ?thesis using inv by simp
next
  case True
  then have ty: "ev_type s e = ty" and used: "ev_type s e \<noteq> OS_EVENT_TYPE_UNUSED"
    using bit by (auto simp: ev_bit_def)
  have k: "k = ev_bit (ev_type s e)" "k \<noteq> 0" using bit ty by auto
  let ?w = "OSEventGrp (OSEventMem s e) \<noteq> 0"
  define s1 where "s1 = snd (OS_EventRdyAll 64 e NULL k OS_STAT_PEND_ABORT s)"
  note all = rdy_all_props [OF os_invD(1) [OF inv] e k, of NULL OS_STAT_PEND_ABORT, folded s1_def]
  define s2 where "s2 = event_free e (r e s1)"
  note qd = quietD [OF q, of e s1]
  have s'2: "s' = (if opt = OS_DEL_ALWAYS \<and> ?w then OS_Sched s2 else s2)"
    using True OS_EventRdyAll_none [of s e] unfolding s' OS_EventDel_def Let_def s2_def s1_def ev_type_def
    by (auto simp: word_gt_0)
  have w1: "waiting s1 e = {}" "waiting (r e s1) e = {}"
    using all(4) [of e] core_eqD(7) [OF qd(1)] by auto
  have "task_inv s2"
    by (rule task_inv_retype [OF all(1) w1(1)])
      (use w1 task_inv_bm(2) [OF all(1) e] qd in \<open>simp_all add: s2_def\<close>)
  moreover have "idle_inv s2" using all(2) core_eqD(6) [OF qd(1)] by (simp add: s2_def idle_inv_def)
  moreover have "cur_inv s2"
    by (rule cur_inv_frame [OF _ _ _ _ all(3)]) (simp_all add: s2_def qd)
  moreover have "sched_inv dfr s2" if "\<not> ?w"
  proof -
    have "s1 = s" using OS_EventRdyAll_none [of s e] that by (simp add: s1_def)
    then show ?thesis using os_invD(7) [OF inv] qd by (simp add: s2_def sched_inv_def)
  qed
  ultimately have "kernel_inv dfr (if ?w then OS_Sched s2 else s2)" by (intro sched_or_inv) auto
  then have "kernel_inv dfr s'" using True by (auto simp: s'2 split: if_splits)
  moreover have "pool_view s1 = pool_view s" "OSEventFreeList s1 = OSEventFreeList s" by (simp_all add: s1_def)
  then have pv: "pool_view s' = pool_view s" unfolding s'2 by (simp add: s2_def qd)
  moreover have "ev_inv s2"
  proof -
    obtain fs where fs: "ev_lists s fs" using os_invD(3) [OF inv] by (auto simp: ev_inv_def)
    have "OSEventFreeList s1 = OSEventFreeList s" "\<And>x. OSEventPtr (OSEventMem s1 x) = OSEventPtr (OSEventMem s x)"
      by (simp_all add: s1_def)
    then have "ev_lists (r e s1) fs"
      by (intro ev_lists_frame [OF fs]) (simp_all add: qd all(5) core_eqD(4) [OF qd(1)])
    moreover have "ev_type (r e s1) e \<noteq> OS_EVENT_TYPE_UNUSED"
      using used all(5) [of e] core_eqD(4) [OF qd(1)] by simp
    ultimately have "ev_lists s2 (e # fs)" unfolding s2_def by (intro event_free_lists e)
    then show ?thesis by (auto simp: ev_inv_def)
  qed
  then have "ev_inv s'" unfolding s'2 using ev_inv_core [of s2 "OS_Sched s2"] by simp
  ultimately show ?thesis using os_invD(2) [OF inv] pool_inv_view [OF pv] by (simp add: os_inv_def)
qed

section \<open>Waking, blocking, aborting\<close>

lemma os_inv_kernel:
  assumes "os_inv dfr s" "kernel_inv d s'" "pool_view s' = pool_view s" "OSEventFreeList s' = OSEventFreeList s"
    "\<And>e. ev_type s' e = ev_type s e" "\<And>e. OSEventPtr (OSEventMem s' e) = OSEventPtr (OSEventMem s e)"
  shows "os_inv d s'"
  using assms(2) pool_inv_view [OF assms(3)] ev_inv_core [OF _ assms(4-6)] os_invD(2,3) [OF assms(1)]
  by (simp add: os_inv_def)

lemma wake_one_inv:
  assumes inv: "os_inv dfr s" and e: "e \<in> events" "OSEventGrp (OSEventMem s e) \<noteq> 0"
    and k: "k = ev_bit (ev_type s e)" "k \<noteq> 0"
  shows "os_inv dfr (OS_Sched (snd (OS_EventTaskRdy e m k ps s)))"
  using rdy_one_sched_inv [OF os_invD(1) [OF inv] e(1) _ k] ev_grp_task [OF inv e(1)] e(2)
  by (intro os_inv_kernel [OF inv]) simp_all

lemma wake_all_inv:
  assumes inv: "os_inv dfr s" and e: "e \<in> events" and k: "k = ev_bit (ev_type s e)" "k \<noteq> 0"
  shows "os_inv dfr (OS_Sched (snd (OS_EventRdyAll 64 e m k ps s)))"
  using rdy_all_sched_inv [OF os_invD(1) [OF inv] e k]
  by (intro os_inv_kernel [OF inv]) simp_all

lemma OS_EventPendAbort_inv:
  assumes inv: "os_inv dfr s" and e: "e \<in> events" and k: "k = ev_bit ty" "k \<noteq> 0"
  shows "os_inv dfr (snd (snd (OS_EventPendAbort ty k e opt s)))"
proof (cases "ev_type s e = ty \<and> OSEventGrp (OSEventMem s e) \<noteq> 0")
  case True
  then show ?thesis
    using wake_one_inv [OF inv e, of k] wake_all_inv [OF inv e, of k] k
    by (simp add: OS_EventPendAbort_def ev_type_def split_beta)
next
  case False
  then show ?thesis using inv by (simp add: OS_EventPendAbort_def ev_type_def)
qed

lemma post_wake_inv:
  assumes inv: "os_inv dfr s" and e: "e \<in> events" "OSEventGrp (OSEventMem s e) \<noteq> 0"
    and k: "k = ev_bit (ev_type s e)" "k \<noteq> 0" and opt: "opt AND OS_POST_OPT_NO_SCHED = 0"
  shows "os_inv dfr (post_wake k e m opt s)"
  using wake_one_inv [OF inv e k] wake_all_inv [OF inv e(1) k] opt
  by (simp add: post_wake_def Let_def)

lemma ptr_pend [simp]:
  "OSEventPtr (OSEventMem (pend_block k n e s) x) = OSEventPtr (OSEventMem s x)"
  "OSEventFreeList (pend_block k n e s) = OSEventFreeList s" "ev_type (pend_block k n e s) x = ev_type s x"
  "OSEventPtr (OSEventMem (snd (pend_wakeup e s)) x) = OSEventPtr (OSEventMem s x)"
  "OSEventFreeList (snd (pend_wakeup e s)) = OSEventFreeList s"
  "ev_type (snd (pend_wakeup e s)) x = ev_type s x"
  by (simp_all add: pend_block_def pend_wakeup_def Let_def)

text \<open>
  A task may block when it is not the idle task and is not inside another blocking call;
  the kernel's contract for the caller.
\<close>

definition may_block :: "os \<Rightarrow> bool" where
  "may_block s \<longleftrightarrow> OSRunning s \<and> OSPrioCur s \<noteq> OS_TASK_IDLE_PRIO
     \<and> OSTCBEventPtr (OSTCBMem s (OSTCBCur s)) = NULL"

text \<open>The current task runs on after a blocking call on \<open>e\<close>.\<close>

definition may_resume :: "ptr \<Rightarrow> os \<Rightarrow> bool" where
  "may_resume e s \<longleftrightarrow> OSRunning s \<and> OSIntNesting s = 0 \<and> OSLockNesting s = 0
     \<and> OSTCBEventPtr (OSTCBMem s (OSTCBCur s)) \<in> {NULL, e}"

lemma pend_block_os_inv:
  assumes inv: "os_inv dfr s" and may: "may_block s" and lev: "OSIntNesting s = 0" "OSLockNesting s = 0"
    and e: "e \<in> events" and k: "k = ev_bit (ev_type s e)" "k \<noteq> 0"
  shows "os_inv dfr (pend_block k n e s)"
  using pend_block_inv [OF os_invD(1) [OF inv] _ lev _ _ e k] may
  by (intro os_inv_kernel [OF inv]) (simp_all add: may_block_def)

lemma pend_wakeup_os_inv:
  assumes inv: "os_inv dfr s" and may: "may_resume e s" and e: "e \<in> events"
  shows "os_inv dfr (snd (pend_wakeup e s))"
  using pend_wakeup_inv [OF os_invD(1) [OF inv] _ _ _ _ e] may
  by (intro os_inv_kernel [OF inv]) (simp_all add: may_resume_def)

lemma core_fields [simp]:
  "core (s\<lparr>OSTime := x1\<rparr>) = core s" "core (s\<lparr>OSIntNesting := x2\<rparr>) = core s"
  "core (s\<lparr>OSLockNesting := x3\<rparr>) = core s" "core (s\<lparr>OSQFreeList := x4\<rparr>) = core s"
  "core (s\<lparr>OSMemFreeList := x5\<rparr>) = core s" "core (s\<lparr>OSIdleCtr := x6\<rparr>) = core s"
  "core (upd_q a h s) = core s" "core (upd_mem a j s) = core s"
  by (simp_all add: core_def rdy_def)

lemma core_tcb:
  "(\<And>t. tcb_data (f t) = tcb_data t) \<Longrightarrow> core (upd_tcb q f s) = core s"
  by (auto simp: core_def fun_eq_iff)

lemma pend_wakeup_msg_os_inv:
  assumes "os_inv dfr s" "may_resume e s" "e \<in> events"
  shows "os_inv dfr (snd (pend_wakeup_msg e s))"
proof -
  have "snd (pend_wakeup_msg e s) = upd_tcb (OSTCBCur s) (\<lambda>t. t\<lparr>OSTCBMsg := NULL\<rparr>) (snd (pend_wakeup e s))"
    by (simp add: pend_wakeup_msg_def Let_def split_beta)
  moreover have "os_inv dfr (upd_tcb (OSTCBCur s) (\<lambda>t. t\<lparr>OSTCBMsg := NULL\<rparr>) (snd (pend_wakeup e s)))"
    by (rule os_inv_upd [OF pend_wakeup_os_inv [OF assms]]) (simp_all add: core_tcb)
  ultimately show ?thesis by simp
qed

end
