(* ===== verification/OS_Mutex.thy ===== *)
theory OS_Mutex
  imports OS_Event OS_Task
begin

text \<open>
  \<open>ucosII/Source/os_mutex.c\<close>: mutual exclusion with priority inheritance. The upper byte of
  \<open>OSEventCnt\<close> is the ceiling priority (255: none), the lower byte the owner's priority,
  0xFF when the mutex is free; \<open>OSEventPtr\<close> is the owner.
\<close>

section \<open>Packing of OSEventCnt\<close>

abbreviation (input) OS_MUTEX_KEEP_LOWER_8 :: u16 where "OS_MUTEX_KEEP_LOWER_8 \<equiv> 0x00FF"
abbreviation (input) OS_MUTEX_KEEP_UPPER_8 :: u16 where "OS_MUTEX_KEEP_UPPER_8 \<equiv> 0xFF00"
abbreviation (input) OS_MUTEX_AVAILABLE :: u16 where "OS_MUTEX_AVAILABLE \<equiv> 0x00FF"
abbreviation (input) OS_PRIO_MUTEX_CEIL_DIS :: u8 where "OS_PRIO_MUTEX_CEIL_DIS \<equiv> 0xFF"

definition mutex_pcp :: "u16 \<Rightarrow> u8" where
  "mutex_pcp cnt = ucast (drop_bit 8 cnt)"

definition mutex_prio :: "u16 \<Rightarrow> u8" where
  "mutex_prio cnt = ucast (cnt AND OS_MUTEX_KEEP_LOWER_8)"

text \<open>\<open>OSEventCnt &= KEEP_UPPER_8; OSEventCnt |= prio;\<close>\<close>

definition mutex_set_prio :: "u8 \<Rightarrow> u16 \<Rightarrow> u16" where
  "mutex_set_prio prio cnt = (cnt AND OS_MUTEX_KEEP_UPPER_8) OR ucast prio"

section \<open>Operations\<close>

text \<open>The block that both \<open>OSMutexAccept\<close> and \<open>OSMutexPend\<close> run on an available mutex.\<close>

definition mutex_acquire :: "ptr \<Rightarrow> os \<Rightarrow> u8 \<times> os" where
  "mutex_acquire pevent s =
     (let pcp = mutex_pcp (OSEventCnt (OSEventMem s pevent));
          cur = OSTCBCur s;
          prio = OSTCBPrio (OSTCBMem s cur);
          s1 = upd_event pevent (\<lambda>e. e\<lparr>OSEventCnt := mutex_set_prio prio (OSEventCnt e),
                                       OSEventPtr := cur\<rparr>) s
      in (if pcp \<noteq> OS_PRIO_MUTEX_CEIL_DIS \<and> prio \<le> pcp then OS_ERR_PCP_LOWER else OS_ERR_NONE, s1))"

definition OSMutexAccept :: "ptr \<Rightarrow> os \<Rightarrow> bool \<times> u8 \<times> os" where
  "OSMutexAccept pevent s =
     (if OSEventType (OSEventMem s pevent) \<noteq> OS_EVENT_TYPE_MUTEX then (False, OS_ERR_EVENT_TYPE, s)
      else if OSIntNesting s > 0 then (False, OS_ERR_PEND_ISR, s)
      else if OSEventCnt (OSEventMem s pevent) AND OS_MUTEX_KEEP_LOWER_8 = OS_MUTEX_AVAILABLE
      then (True, mutex_acquire pevent s)
      else (False, OS_ERR_NONE, s))"

definition OSMutexCreate :: "u8 \<Rightarrow> os \<Rightarrow> ptr \<times> u8 \<times> os" where
  "OSMutexCreate prio s =
     (if OSIntNesting s > 0 then (NULL, OS_ERR_CREATE_ISR, s)
      else if prio \<noteq> OS_PRIO_MUTEX_CEIL_DIS \<and> OSTCBPrioTbl s prio \<noteq> NULL
      then (NULL, OS_ERR_PRIO_EXIST, s)
      else let s1 = (if prio \<noteq> OS_PRIO_MUTEX_CEIL_DIS
                     then s\<lparr>OSTCBPrioTbl := (OSTCBPrioTbl s)(prio := OS_TCB_RESERVED)\<rparr> else s);
               pevent = OSEventFreeList s1
           in if pevent = NULL
              then (pevent, OS_ERR_PEVENT_NULL,
                    if prio \<noteq> OS_PRIO_MUTEX_CEIL_DIS
                    then s1\<lparr>OSTCBPrioTbl := (OSTCBPrioTbl s1)(prio := NULL)\<rparr> else s1)
              else let s2 = s1\<lparr>OSEventFreeList := OSEventPtr (OSEventMem s1 (OSEventFreeList s1))\<rparr>;
                       s3 = upd_event pevent (\<lambda>e. e\<lparr>OSEventType := OS_EVENT_TYPE_MUTEX,
                              OSEventCnt := push_bit 8 (ucast prio) OR OS_MUTEX_AVAILABLE,
                              OSEventPtr := NULL\<rparr>) s2
                   in (pevent, OS_ERR_NONE, OS_EventWaitListInit pevent s3))"

definition OSMutex_RdyAtPrio :: "ptr \<Rightarrow> u8 \<Rightarrow> os \<Rightarrow> os" where
  "OSMutex_RdyAtPrio ptcb prio s =
     (let s1 = make_unready ptcb s;
          s2 = (upd_tcb ptcb (\<lambda>t. t\<lparr>OSTCBPrio := prio\<rparr>) s1)\<lparr>OSPrioCur := prio\<rparr>;
          y = prio_y prio AND 7;
          s3 = upd_tcb ptcb (\<lambda>t. t\<lparr>OSTCBY := y, OSTCBX := prio_x prio, OSTCBBitY := prio_bit y,
                                   OSTCBBitX := prio_bit (prio_x prio)\<rparr>) s2;
          s4 = make_ready ptcb s3
      in s4\<lparr>OSTCBPrioTbl := (OSTCBPrioTbl s4)(prio := ptcb)\<rparr>)"

text \<open>
  Releasing the ceiling slot and the control block of a mutex, at the end of both options
  of \<open>OSMutexDel\<close>.
\<close>

definition mutex_free :: "ptr \<Rightarrow> os \<Rightarrow> os" where
  "mutex_free pevent s =
     (let pcp = mutex_pcp (OSEventCnt (OSEventMem s pevent));
          s1 = (if pcp \<noteq> OS_PRIO_MUTEX_CEIL_DIS
                then s\<lparr>OSTCBPrioTbl := (OSTCBPrioTbl s)(pcp := NULL)\<rparr> else s)
      in event_free pevent s1)"

definition OSMutexDel :: "ptr \<Rightarrow> u8 \<Rightarrow> os \<Rightarrow> ptr \<times> u8 \<times> os" where
  "OSMutexDel pevent opt s =
     (if OSEventType (OSEventMem s pevent) \<noteq> OS_EVENT_TYPE_MUTEX
      then (pevent, OS_ERR_EVENT_TYPE, s)
      else if OSIntNesting s > 0 then (pevent, OS_ERR_DEL_ISR, s)
      else let tasks_waiting = (OSEventGrp (OSEventMem s pevent) \<noteq> 0)
           in if opt = OS_DEL_NO_PEND
              then if \<not> tasks_waiting then (NULL, OS_ERR_NONE, mutex_free pevent s)
                   else (pevent, OS_ERR_TASK_WAITING, s)
              else if opt = OS_DEL_ALWAYS
              then let e = OSEventMem s pevent;
                       pcp = mutex_pcp (OSEventCnt e);
                       ptcb = OSEventPtr e;
                       s1 = (if pcp \<noteq> OS_PRIO_MUTEX_CEIL_DIS \<and> ptcb \<noteq> NULL
                                \<and> OSTCBPrio (OSTCBMem s ptcb) = pcp
                             then OSMutex_RdyAtPrio ptcb (mutex_prio (OSEventCnt e)) s else s);
                       s2 = snd (OS_EventRdyAll 64 pevent NULL OS_STAT_MUTEX OS_STAT_PEND_ABORT s1);
                       s3 = mutex_free pevent s2
                   in (NULL, OS_ERR_NONE, if tasks_waiting then OS_Sched s3 else s3)
              else (pevent, OS_ERR_INVALID_OPT, s))"

text \<open>
  \<open>mutex_inherit\<close>: the block of \<open>OSMutexPend\<close> that raises the owner to the ceiling
  priority, moving it within the ready list or within the wait list it is in.
\<close>

definition mutex_raise :: "ptr \<Rightarrow> u8 \<Rightarrow> os \<Rightarrow> os" where
  "mutex_raise ptcb pcp s =
     (let t = OSTCBMem s ptcb;
          is_rdy = (OSRdyTbl s (OSTCBY t) AND OSTCBBitX t \<noteq> 0);
          pevent2 = OSTCBEventPtr t;
          s1 = (if is_rdy then make_unready ptcb s
                else if pevent2 \<noteq> NULL
                then upd_event pevent2
                       (\<lambda>e. set_ev_wait (bm_clr (OSTCBBitY t) (OSTCBY t) (OSTCBBitX t) (ev_wait e)) e) s
                else s);
          s2 = upd_tcb ptcb (\<lambda>t. tcb_coords pcp (t\<lparr>OSTCBPrio := pcp\<rparr>)) s1;
          t2 = OSTCBMem s2 ptcb;
          s3 = (if is_rdy then make_ready ptcb s2
                else if pevent2 \<noteq> NULL
                then upd_event pevent2
                       (\<lambda>e. set_ev_wait (bm_set (OSTCBBitY t2) (OSTCBY t2) (OSTCBBitX t2) (ev_wait e)) e) s2
                else s2)
      in s3\<lparr>OSTCBPrioTbl := (OSTCBPrioTbl s3)(pcp := ptcb)\<rparr>)"

definition mutex_inherit :: "ptr \<Rightarrow> os \<Rightarrow> os" where
  "mutex_inherit pevent s =
     (let cnt = OSEventCnt (OSEventMem s pevent);
          pcp = mutex_pcp cnt;
          mprio = mutex_prio cnt;
          ptcb = OSEventPtr (OSEventMem s pevent)
      in if pcp \<noteq> OS_PRIO_MUTEX_CEIL_DIS \<and> OSTCBPrio (OSTCBMem s ptcb) > pcp
            \<and> mprio > OSTCBPrio (OSTCBMem s (OSTCBCur s))
         then mutex_raise ptcb pcp s else s)"

definition OSMutexPend_enter :: "ptr \<Rightarrow> u32 \<Rightarrow> os \<Rightarrow> u8 call \<times> os" where
  "OSMutexPend_enter pevent timeout s =
     (if OSEventType (OSEventMem s pevent) \<noteq> OS_EVENT_TYPE_MUTEX then (Ret OS_ERR_EVENT_TYPE, s)
      else if OSIntNesting s > 0 then (Ret OS_ERR_PEND_ISR, s)
      else if OSLockNesting s > 0 then (Ret OS_ERR_PEND_LOCKED, s)
      else if mutex_prio (OSEventCnt (OSEventMem s pevent)) = ucast OS_MUTEX_AVAILABLE
      then let (err, s1) = mutex_acquire pevent s in (Ret err, s1)
      else (Blocked, pend_block OS_STAT_MUTEX timeout pevent (mutex_inherit pevent s)))"

definition OSMutexPend_resume :: "ptr \<Rightarrow> os \<Rightarrow> u8 \<times> os" where
  "OSMutexPend_resume pevent s = pend_wakeup pevent s"

definition OSMutexPend :: "(os \<Rightarrow> os) \<Rightarrow> ptr \<Rightarrow> u32 \<Rightarrow> os \<Rightarrow> u8 \<times> os" where
  "OSMutexPend others pevent timeout s =
     (case OSMutexPend_enter pevent timeout s of
        (Ret err, s') \<Rightarrow> (err, s')
      | (Blocked, s') \<Rightarrow> OSMutexPend_resume pevent (others s'))"

definition OSMutexPost :: "ptr \<Rightarrow> os \<Rightarrow> u8 \<times> os" where
  "OSMutexPost pevent s =
     (if OSIntNesting s > 0 then (OS_ERR_POST_ISR, s)
      else if OSEventType (OSEventMem s pevent) \<noteq> OS_EVENT_TYPE_MUTEX then (OS_ERR_EVENT_TYPE, s)
      else let e = OSEventMem s pevent;
               pcp = mutex_pcp (OSEventCnt e);
               prio = mutex_prio (OSEventCnt e);
               cur = OSTCBCur s
           in if cur \<noteq> OSEventPtr e then (OS_ERR_NOT_MUTEX_OWNER, s)
              else let s1 = (if pcp \<noteq> OS_PRIO_MUTEX_CEIL_DIS
                             then let s0 = (if OSTCBPrio (OSTCBMem s cur) = pcp
                                            then OSMutex_RdyAtPrio cur prio s else s)
                                  in s0\<lparr>OSTCBPrioTbl := (OSTCBPrioTbl s0)(pcp := OS_TCB_RESERVED)\<rparr>
                             else s)
                   in if OSEventGrp (OSEventMem s1 pevent) \<noteq> 0
                      then let (prio', s2) = OS_EventTaskRdy pevent NULL OS_STAT_MUTEX OS_STAT_PEND_OK s1;
                               s3 = upd_event pevent
                                      (\<lambda>e. e\<lparr>OSEventCnt := mutex_set_prio prio' (OSEventCnt e),
                                             OSEventPtr := OSTCBPrioTbl s2 prio'\<rparr>) s2
                           in (if pcp \<noteq> OS_PRIO_MUTEX_CEIL_DIS \<and> prio' \<le> pcp
                               then OS_ERR_PCP_LOWER else OS_ERR_NONE, OS_Sched s3)
                      else (OS_ERR_NONE,
                            upd_event pevent (\<lambda>e. e\<lparr>OSEventCnt := OSEventCnt e OR OS_MUTEX_AVAILABLE,
                                                    OSEventPtr := NULL\<rparr>) s1))"

record os_mutex_data =
  xd_OSMutexPCP :: u8
  xd_OSOwnerPrio :: u8
  xd_OSValue :: bool
  xd_OSEventTbl :: "u8 list"
  xd_OSEventGrp :: u8

definition OSMutexQuery :: "ptr \<Rightarrow> os \<Rightarrow> u8 \<times> os_mutex_data option" where
  "OSMutexQuery pevent s =
     (if OSIntNesting s > 0 then (OS_ERR_QUERY_ISR, None)
      else if OSEventType (OSEventMem s pevent) \<noteq> OS_EVENT_TYPE_MUTEX then (OS_ERR_EVENT_TYPE, None)
      else let e = OSEventMem s pevent
           in (OS_ERR_NONE, Some \<lparr>xd_OSMutexPCP = mutex_pcp (OSEventCnt e),
                 xd_OSOwnerPrio = mutex_prio (OSEventCnt e),
                 xd_OSValue = (mutex_prio (OSEventCnt e) = 0xFF),
                 xd_OSEventTbl = copy_tbl e, xd_OSEventGrp = OSEventGrp e\<rparr>))"

end
