(* ===== verification/OS_Mutex_Inv.thy ===== *)
theory OS_Mutex_Inv
  imports OS_Event_Inv OS_Mutex
begin

text \<open>
  Mutexes against the kernel's invariant. As long as no owner is raised to the ceiling of its
  mutex, the ceiling of every mutex is a reserved slot of the priority table that belongs to no
  task, and the services of \<open>os_mutex.c\<close> are services of an event like any other. What
  the inheritance does to the tables is in \<open>OS_Mutex_Props\<close>.
\<close>

section \<open>Packing\<close>

lemma keep_bits: "bit (0x00FF :: int) n \<longleftrightarrow> n < 8" "bit (0xFF00 :: int) n \<longleftrightarrow> 8 \<le> n \<and> n < 16"
proof -
  have eq: "(0x00FF :: int) = mask 8" "(0xFF00 :: int) = push_bit 8 (mask 8)"
    by (simp_all add: mask_eq_exp_minus_1)
  show "bit (0x00FF :: int) n \<longleftrightarrow> n < 8" unfolding eq(1) bit_mask_iff by auto
  show "bit (0xFF00 :: int) n \<longleftrightarrow> 8 \<le> n \<and> n < 16" unfolding eq(2) bit_push_bit_iff bit_mask_iff by auto
qed

lemma mutex_bits:
  "bit (mutex_prio c) n \<longleftrightarrow> n < 8 \<and> bit c n" "bit (mutex_pcp c) n \<longleftrightarrow> n < 8 \<and> bit c (n + 8)"
  "bit (mutex_set_prio p c) n \<longleftrightarrow> 8 \<le> n \<and> bit c n \<or> bit p n"
  using u8_bit_less [of p n] bit_imp_le_length [of c n]
  by (auto simp: mutex_prio_def mutex_pcp_def mutex_set_prio_def bit_and_iff bit_or_iff bit_ucast_iff bit_drop_bit_eq
      keep_bits add.commute)

lemma mutex_prio_set [simp]: "mutex_prio (mutex_set_prio p c) = p"
  and mutex_pcp_set [simp]: "mutex_pcp (mutex_set_prio p c) = mutex_pcp c"
  using u8_bit_less [of p] by (auto simp: bit_eq_iff mutex_bits)

lemma mutex_new:
  "mutex_pcp (push_bit 8 (ucast p) OR OS_MUTEX_AVAILABLE) = p"
  "mutex_prio (push_bit 8 (ucast p) OR OS_MUTEX_AVAILABLE) = 0xFF"
  using u8_bit_less [of p]
  by (auto simp: bit_eq_iff mutex_bits bit_or_iff bit_push_bit_iff bit_ucast_iff keep_bits)

lemma mutex_free_iff: "c AND OS_MUTEX_KEEP_LOWER_8 = OS_MUTEX_AVAILABLE \<longleftrightarrow> mutex_prio c = 0xFF"
proof -
  have "c AND OS_MUTEX_KEEP_LOWER_8 = OS_MUTEX_AVAILABLE \<longleftrightarrow> (\<forall>n<16. n < 8 \<longrightarrow> bit c n)"
    by (auto simp: bit_eq_iff bit_and_iff keep_bits)
  also have "\<dots> \<longleftrightarrow> (\<forall>n<8. bit c n)"
    using less_le_trans [of _ 8 "16 :: nat"] by auto
  also have "\<dots> \<longleftrightarrow> mutex_prio c = 0xFF" by (auto simp: bit_eq_iff mutex_bits keep_bits)
  finally show ?thesis .
qed

lemma mutex_release:
  "mutex_prio (c OR OS_MUTEX_AVAILABLE) = 0xFF" "mutex_pcp (c OR OS_MUTEX_AVAILABLE) = mutex_pcp c"
  using bit_imp_le_length [of "mutex_pcp c"]
  by (auto simp: bit_eq_iff mutex_bits bit_or_iff keep_bits)

abbreviation (input) ceiling :: "os \<Rightarrow> ptr \<Rightarrow> u8" where
  "ceiling s e \<equiv> mutex_pcp (OSEventCnt (OSEventMem s e))"

section \<open>When inheritance acts\<close>

text \<open>
  \<open>raises\<close>: blocking the current task on the mutex raises the owner to the ceiling;
  \<open>raised\<close>: the owner runs at the ceiling.
\<close>

definition raises :: "ptr \<Rightarrow> os \<Rightarrow> bool" where
  "raises e s \<longleftrightarrow> ev_type s e = OS_EVENT_TYPE_MUTEX \<and> ceiling s e \<noteq> OS_PRIO_MUTEX_CEIL_DIS
     \<and> ceiling s e < OSTCBPrio (OSTCBMem s (OSEventPtr (OSEventMem s e)))
     \<and> OSTCBPrio (OSTCBMem s (OSTCBCur s)) < mutex_prio (OSEventCnt (OSEventMem s e))
     \<and> mutex_prio (OSEventCnt (OSEventMem s e)) \<noteq> 0xFF"

definition raised :: "ptr \<Rightarrow> os \<Rightarrow> bool" where
  "raised e s \<longleftrightarrow> ev_type s e = OS_EVENT_TYPE_MUTEX \<and> ceiling s e \<noteq> OS_PRIO_MUTEX_CEIL_DIS
     \<and> OSEventPtr (OSEventMem s e) \<noteq> NULL
     \<and> OSTCBPrio (OSTCBMem s (OSEventPtr (OSEventMem s e))) = ceiling s e"

text \<open>Every mutex with a ceiling holds a slot of the priority table of its own.\<close>

definition mx_inv :: "os \<Rightarrow> bool" where
  "mx_inv s \<longleftrightarrow> (\<forall>e\<in>events. ev_type s e = OS_EVENT_TYPE_MUTEX \<and> ceiling s e \<noteq> OS_PRIO_MUTEX_CEIL_DIS \<longrightarrow>
     ceiling s e < 64 \<and> OSTCBPrioTbl s (ceiling s e) = OS_TCB_RESERVED
     \<and> (\<forall>x\<in>events. ev_type s x = OS_EVENT_TYPE_MUTEX \<and> ceiling s x = ceiling s e \<longrightarrow> x = e))"

lemma mx_invD:
  assumes "mx_inv s" "e \<in> events" "ev_type s e = OS_EVENT_TYPE_MUTEX" "ceiling s e \<noteq> OS_PRIO_MUTEX_CEIL_DIS"
  shows "ceiling s e < 64" "OSTCBPrioTbl s (ceiling s e) = OS_TCB_RESERVED"
    "x \<in> events \<Longrightarrow> ev_type s x = OS_EVENT_TYPE_MUTEX \<Longrightarrow> ceiling s x = ceiling s e \<Longrightarrow> x = e"
  using assms unfolding mx_inv_def by blast+

text \<open>
  A step that keeps reserved slots reserved and neither makes an event a mutex nor changes the
  ceiling of one keeps this.
\<close>

definition mx_step :: "os \<Rightarrow> os \<Rightarrow> bool" where
  "mx_step s s' \<longleftrightarrow> (\<forall>p. OSTCBPrioTbl s p = OS_TCB_RESERVED \<longrightarrow> OSTCBPrioTbl s' p = OS_TCB_RESERVED)
     \<and> (\<forall>e. ev_type s' e = OS_EVENT_TYPE_MUTEX \<longrightarrow>
          ev_type s e = OS_EVENT_TYPE_MUTEX \<and> ceiling s' e = ceiling s e)"

lemma mx_step_refl [simp]: "mx_step s s"
  by (simp add: mx_step_def)

lemma mx_step_trans: "mx_step s s1 \<Longrightarrow> mx_step s1 s2 \<Longrightarrow> mx_step s s2"
  by (simp add: mx_step_def)

lemma mx_inv_step: "mx_inv s \<Longrightarrow> mx_step s s' \<Longrightarrow> mx_inv s'"
  unfolding mx_inv_def mx_step_def by metis

section \<open>The invariant without the scheduler's part\<close>

definition os_pre :: "os \<Rightarrow> bool" where
  "os_pre s \<longleftrightarrow> task_inv s \<and> idle_inv s \<and> cur_inv s \<and> pool_inv s \<and> ev_inv s"

lemma os_inv_pre: "os_inv dfr s \<longleftrightarrow> os_pre s \<and> sched_inv dfr s"
  by (auto simp: os_inv_def os_pre_def kernel_inv_def)

lemma os_preD:
  assumes "os_pre s"
  shows "task_inv s" "idle_inv s" "cur_inv s" "pool_inv s" "ev_inv s"
  using assms by (simp_all add: os_pre_def)

lemma os_pre_sched: "os_pre s \<Longrightarrow> os_inv dfr (OS_Sched s)"
  using OS_Sched_inv [of s dfr] pool_inv_view [of "OS_Sched s" s] ev_inv_core [of s "OS_Sched s"]
  by (simp add: os_pre_def os_inv_def)

lemma os_inv_more: "os_inv False s \<Longrightarrow> os_inv d s"
  using kernel_inv_weaken by (simp add: os_inv_def)

lemma cur_prio_ready:
  assumes "os_inv dfr s" "OSRunning s" "OSIntNesting s = 0" "OSLockNesting s = 0"
  shows "OSPrioCur s \<in> ready s"
  using os_invD(7) [OF assms(1)] assms top_ready(1) [OF os_invD(4,5) [OF assms(1)]]
  by (cases dfr) (simp_all add: sched_inv_def top_ready_def ready_def)

text \<open>Making more tasks ready without rescheduling defers the switch.\<close>

lemma deferred_inv:
  assumes inv: "os_inv dfr s" and pre: "os_pre s'" and ready: "ready s \<subseteq> ready s'"
    and ctl: "OSPrioCur s' = OSPrioCur s" "OSRunning s' = OSRunning s" "OSIntNesting s' = OSIntNesting s"
      "OSLockNesting s' = OSLockNesting s"
  shows "os_inv True s'"
proof -
  have "sched_inv True s'"
    using cur_prio_ready [OF inv] ready by (auto simp: sched_inv_def ctl ready_def [symmetric])
  then show ?thesis using pre by (simp add: os_inv_pre)
qed

lemma wake_pre:
  assumes inv: "os_inv dfr s" and e: "e \<in> events" and k: "k = ev_bit (ev_type s e)" "k \<noteq> 0"
  shows "os_pre (snd (OS_EventRdyAll 64 e m k ps s))"
    "OSEventGrp (OSEventMem s e) \<noteq> 0 \<Longrightarrow> os_pre (snd (OS_EventTaskRdy e m k ps s))"
    "ready s \<subseteq> ready (snd (OS_EventRdyAll 64 e m k ps s))"
    "OSEventGrp (OSEventMem s e) \<noteq> 0 \<Longrightarrow> ready s \<subseteq> ready (snd (OS_EventTaskRdy e m k ps s))"
proof -
  note i = os_invD [OF inv]
  let ?a = "snd (OS_EventRdyAll 64 e m k ps s)" and ?o = "snd (OS_EventTaskRdy e m k ps s)"
  have "pool_inv ?a" using pool_inv_view [of ?a s] i(2) by simp
  moreover have "ev_inv ?a" by (rule ev_inv_core [OF i(3)]) simp_all
  ultimately show "os_pre ?a" using rdy_all_props(1-3) [OF i(1) e k, of m ps] by (simp add: os_pre_def)
  show "ready s \<subseteq> ready ?a" by (rule rdy_all_ready [OF i(4) e k])
  assume g: "OSEventGrp (OSEventMem s e) \<noteq> 0"
  then have ne: "waiting s e \<noteq> {}" using ev_grp_task [OF inv e] by simp
  show r: "ready s \<subseteq> ready ?o" by (rule rdy_one_ready(1) [OF i(4) e ne])
  have "pool_inv ?o" using pool_inv_view [of ?o s] i(2) by simp
  moreover have "ev_inv ?o" by (rule ev_inv_core [OF i(3)]) simp_all
  moreover have "cur_inv ?o" by (rule cur_inv_frame [OF _ _ _ _ i(6)]) simp_all
  moreover have "idle_inv ?o" using i(5) r by (auto simp: idle_inv_def)
  ultimately show "os_pre ?o" using rdy_one_inv [OF i(4) e ne k] by (simp add: os_pre_def)
qed

lemma post_wake_any:
  assumes inv: "os_inv dfr s" and e: "e \<in> events" "OSEventGrp (OSEventMem s e) \<noteq> 0"
    and k: "k = ev_bit (ev_type s e)" "k \<noteq> 0"
  shows "os_inv (dfr \<or> opt AND OS_POST_OPT_NO_SCHED \<noteq> 0) (post_wake k e m opt s)"
proof (cases "opt AND OS_POST_OPT_NO_SCHED = 0")
  case True
  then show ?thesis using post_wake_inv [OF inv e k] by simp
next
  case False
  note w = wake_pre [OF inv e(1) k]
  have "os_inv True (snd (OS_EventTaskRdy e m k OS_STAT_PEND_OK s))"
    by (rule deferred_inv [OF inv w(2,4) [OF e(2)]]) simp_all
  moreover have "os_inv True (snd (OS_EventRdyAll 64 e m k OS_STAT_PEND_OK s))"
    by (rule deferred_inv [OF inv w(1,3)]) simp_all
  ultimately show ?thesis using False by (simp add: post_wake_def Let_def)
qed

section \<open>Slots of the priority table without a task\<close>

definition put_slot :: "u8 \<Rightarrow> ptr \<Rightarrow> os \<Rightarrow> os" where
  "put_slot p v s = s\<lparr>OSTCBPrioTbl := (OSTCBPrioTbl s)(p := v)\<rparr>"

lemma put_slot_sel [simp]:
  "OSTCBPrioTbl (put_slot p v s) = (OSTCBPrioTbl s)(p := v)" "OSTCBMem (put_slot p v s) = OSTCBMem s"
  "OSEventMem (put_slot p v s) = OSEventMem s" "rdy (put_slot p v s) = rdy s" "ready (put_slot p v s) = ready s"
  "waiting (put_slot p v s) e = waiting s e" "ev_type (put_slot p v s) e = ev_type s e"
  "OSTCBCur (put_slot p v s) = OSTCBCur s" "OSPrioCur (put_slot p v s) = OSPrioCur s"
  "OSRunning (put_slot p v s) = OSRunning s" "OSIntNesting (put_slot p v s) = OSIntNesting s"
  "OSLockNesting (put_slot p v s) = OSLockNesting s" "OSEventFreeList (put_slot p v s) = OSEventFreeList s"
  "tcb_ok (put_slot p v s) r t = tcb_ok s r t" "OSTCBList (put_slot p v s) = OSTCBList s"
  "OSTCBFreeList (put_slot p v s) = OSTCBFreeList s" "OSTaskCtr (put_slot p v s) = OSTaskCtr s"
  by (simp_all add: put_slot_def tcb_ok_def ready_def waiting_def ev_type_def rdy_def)

lemma put_slot_pre:
  assumes pre: "os_pre s" and p: "\<not> is_task (OSTCBPrioTbl s p)" "\<not> is_task v"
  shows "os_pre (put_slot p v s)"
proof -
  let ?s = "put_slot p v s"
  note i = os_preD [OF pre]
  have "task_ok ?s r" if "r < 64" for r
    using task_okD [OF i(1) that] p by (cases "r = p") (simp_all add: task_ok_def)
  then have t: "task_inv ?s"
    using task_inv_bm [OF i(1)] task_inv_unused [OF i(1)] unfolding task_inv_def by simp
  have c: "cur_inv ?s" using i(3) p by (auto simp: cur_inv_def)
  have "is_task (OSTCBPrioTbl s OS_TASK_IDLE_PRIO)" using ready_task [OF i(1)] i(2) by (simp add: idle_inv_def)
  then have top: "OSTCBPrioTbl ?s OS_TASK_IDLE_PRIO = OSTCBPrioTbl s OS_TASK_IDLE_PRIO" using p by auto
  have "tasks ?s = tasks s"
    using p unfolding tasks_def by (auto simp: fun_upd_def split: if_splits)
  then have "task_lists ?s xs ys = task_lists s xs ys" for xs ys
    by (simp add: task_lists_def top del: put_slot_sel(1))
  then have "pool_inv ?s" using i(4) by (simp add: pool_inv_def)
  moreover have "ev_inv ?s" by (rule ev_inv_core [OF i(5)]) simp_all
  moreover have "idle_inv ?s" using i(2) by (simp add: idle_inv_def)
  ultimately show ?thesis using t c by (simp add: os_pre_def)
qed

lemma put_slot_inv:
  assumes "os_inv dfr s" "\<not> is_task (OSTCBPrioTbl s p)" "\<not> is_task v"
  shows "os_inv dfr (put_slot p v s)"
  using put_slot_pre [of s] assms by (simp add: os_inv_pre sched_inv_def)

lemma not_tasks [simp]: "\<not> is_task NULL" "\<not> is_task OS_TCB_RESERVED" "\<not> is_task (Suc 0)"
  by (simp_all add: is_task_def)

text \<open>No task has the priority of a slot that holds no task.\<close>

lemma cur_not_slot:
  assumes "os_inv dfr s" "OSRunning s" "\<not> is_task (OSTCBPrioTbl s p)"
  shows "OSTCBPrio (OSTCBMem s (OSTCBCur s)) \<noteq> p"
  using cur_task(3,5) [OF os_invD(1) [OF assms(1)] assms(2)] cur_task(2) [OF os_invD(1) [OF assms(1)] assms(2)] assms(3)
  by (auto simp: tcb_wf_def)

section \<open>Giving an event back\<close>

lemma event_free_pre:
  assumes pre: "os_pre s" and e: "e \<in> events" "ev_type s e \<noteq> OS_EVENT_TYPE_UNUSED" and w: "waiting s e = {}"
  shows "os_pre (event_free e s)"
proof -
  note i = os_preD [OF pre]
  have "task_inv (event_free e s)"
    by (rule task_inv_retype [OF i(1) w]) (use w task_inv_bm(2) [OF i(1) e(1)] in simp_all)
  moreover have "cur_inv (event_free e s)" by (rule cur_inv_frame [OF _ _ _ _ i(3)]) simp_all
  moreover have "idle_inv (event_free e s)" using i(2) by (simp add: idle_inv_def)
  moreover obtain fs where "ev_lists s fs" using i(5) by (auto simp: ev_inv_def)
  then have "ev_inv (event_free e s)" using event_free_lists [OF _ e] by (auto simp: ev_inv_def)
  moreover have "pool_inv (event_free e s)" using pool_inv_view [of "event_free e s" s] i(4) by simp
  ultimately show ?thesis by (simp add: os_pre_def)
qed

section \<open>The services\<close>

lemma mutex_upd_inv:
  assumes "os_inv dfr s" "ev_type s e \<noteq> OS_EVENT_TYPE_UNUSED"
  shows "os_inv dfr (upd_event e (\<lambda>v. v\<lparr>OSEventCnt := f v, OSEventPtr := g v\<rparr>) s)"
  using assms(2) by (intro os_inv_upd [OF assms(1)]; auto simp: event_core_upd ev_type_def)

lemma mutex_acquire_inv:
  assumes "os_inv dfr s" "ev_type s e = OS_EVENT_TYPE_MUTEX"
  shows "os_inv dfr (snd (mutex_acquire e s))"
  using mutex_upd_inv [OF assms(1)] assms(2) by (simp add: mutex_acquire_def Let_def)

lemma OSMutexAccept_inv:
  assumes "os_inv dfr s"
  shows "os_inv dfr (snd (snd (OSMutexAccept e s)))"
  using assms mutex_acquire_inv [OF assms, of e] by (simp add: OSMutexAccept_def ev_type_def)

lemma OSMutexPend_inv:
  assumes inv: "os_inv dfr s" and may: "may_block s" and e: "e \<in> events" and nr: "\<not> raises e s"
  shows "os_inv dfr (snd (OSMutexPend_enter e n s))"
proof -
  have bit: "OS_STAT_MUTEX = ev_bit OS_EVENT_TYPE_MUTEX" "(OS_STAT_MUTEX :: u8) \<noteq> 0" by (simp_all add: ev_bit_def)
  have "mutex_inherit e s = s"
    if "ev_type s e = OS_EVENT_TYPE_MUTEX" "mutex_prio (OSEventCnt (OSEventMem s e)) \<noteq> 0xFF"
    using nr that by (auto simp: mutex_inherit_def raises_def Let_def)
  then show ?thesis
    using inv mutex_acquire_inv [OF inv, of e] pend_block_os_inv [OF inv may _ _ e _ bit(2)] bit(1)
    by (simp add: OSMutexPend_enter_def ev_type_def word_gt_0 split_beta)
qed

lemma sched_upd_event: "OS_Sched (upd_event e f s) = upd_event e f (OS_Sched s)"
  by (simp add: OS_Sched_def sched_switch_def OS_SchedNew_def OSCtxSw_def upd_event_def Let_def)

text \<open>With the ceiling slot reserved, the owner is not raised and the post only passes the mutex on.\<close>

lemma OSMutexPost_eq:
  assumes inv: "os_inv dfr s" and mx: "mx_inv s" and run: "OSRunning s" and e: "e \<in> events"
    and ok: "OSIntNesting s = 0" "ev_type s e = OS_EVENT_TYPE_MUTEX" "OSTCBCur s = OSEventPtr (OSEventMem s e)"
  shows "snd (OSMutexPost e s) = (if OSEventGrp (OSEventMem s e) \<noteq> 0
     then let (p, s2) = OS_EventTaskRdy e NULL OS_STAT_MUTEX OS_STAT_PEND_OK s
          in upd_event e (\<lambda>v. v\<lparr>OSEventCnt := mutex_set_prio p (OSEventCnt v), OSEventPtr := OSTCBPrioTbl s2 p\<rparr>)
               (OS_Sched s2)
     else upd_event e (\<lambda>v. v\<lparr>OSEventCnt := OSEventCnt v OR OS_MUTEX_AVAILABLE, OSEventPtr := NULL\<rparr>) s)"
proof -
  let ?c = "ceiling s e"
  have slot: "OSTCBPrioTbl s ?c = OS_TCB_RESERVED" if "?c \<noteq> OS_PRIO_MUTEX_CEIL_DIS"
    by (rule mx_invD(2) [OF mx e ok(2) that])
  have "OSTCBPrio (OSTCBMem s (OSTCBCur s)) \<noteq> ?c" if "?c \<noteq> OS_PRIO_MUTEX_CEIL_DIS"
    by (rule cur_not_slot [OF inv run]) (use slot [OF that] in simp)
  moreover have "s\<lparr>OSTCBPrioTbl := (OSTCBPrioTbl s)(?c := OS_TCB_RESERVED)\<rparr> = s" if "?c \<noteq> OS_PRIO_MUTEX_CEIL_DIS"
    using fun_upd_idem [of "OSTCBPrioTbl s" ?c, OF slot [OF that]] by simp
  ultimately have "(if ?c \<noteq> OS_PRIO_MUTEX_CEIL_DIS
      then let s0 = (if OSTCBPrio (OSTCBMem s (OSTCBCur s)) = ?c
          then OSMutex_RdyAtPrio (OSTCBCur s) (mutex_prio (OSEventCnt (OSEventMem s e))) s else s)
        in s0\<lparr>OSTCBPrioTbl := (OSTCBPrioTbl s0)(?c := OS_TCB_RESERVED)\<rparr> else s) = s"
    by (simp add: Let_def)
  note eq = this
  show ?thesis
    using ok unfolding OSMutexPost_def Let_def [of "OSEventMem s e"] Let_def [of "OSTCBCur s"]
      Let_def [of "mutex_pcp _"] Let_def [of "mutex_prio _"] eq
    by (simp add: ev_type_def sched_upd_event split_beta Let_def)
qed

lemma OSMutexPost_refused:
  "\<not> (OSIntNesting s = 0 \<and> ev_type s e = OS_EVENT_TYPE_MUTEX \<and> OSTCBCur s = OSEventPtr (OSEventMem s e))
    \<Longrightarrow> snd (OSMutexPost e s) = s"
  by (auto simp: OSMutexPost_def ev_type_def Let_def word_gt_0)

lemma OSMutexPost_inv:
  assumes inv: "os_inv dfr s" and mx: "mx_inv s" and run: "OSRunning s" and e: "e \<in> events"
  shows "os_inv dfr (snd (OSMutexPost e s))"
proof (cases "OSIntNesting s = 0 \<and> ev_type s e = OS_EVENT_TYPE_MUTEX \<and> OSTCBCur s = OSEventPtr (OSEventMem s e)")
  case True
  have bit: "OS_STAT_MUTEX = ev_bit (ev_type s e)" "(OS_STAT_MUTEX :: u8) \<noteq> 0" using True by (simp_all add: ev_bit_def)
  let ?w = "snd (OS_EventTaskRdy e NULL OS_STAT_MUTEX OS_STAT_PEND_OK s)"
  show ?thesis
  proof (cases "OSEventGrp (OSEventMem s e) = 0")
    case no: True
    then show ?thesis using mutex_upd_inv [OF inv, of e] True OSMutexPost_eq [OF inv mx run e] by simp
  next
    case False
    have "os_inv dfr (OS_Sched ?w)" by (rule wake_one_inv [OF inv e False bit])
    then show ?thesis
      using mutex_upd_inv [of dfr "OS_Sched ?w" e] False True OSMutexPost_eq [OF inv mx run e]
      by (simp add: split_beta)
  qed
next
  case False
  then show ?thesis using OSMutexPost_refused [OF False] inv by simp
qed

lemma OSMutexCreate_inv:
  assumes inv: "os_inv dfr s"
  shows "os_inv dfr (snd (snd (OSMutexCreate prio s)))"
proof (cases "OSIntNesting s > 0 \<or> prio \<noteq> OS_PRIO_MUTEX_CEIL_DIS \<and> OSTCBPrioTbl s prio \<noteq> NULL")
  case True
  then show ?thesis using inv by (auto simp: OSMutexCreate_def)
next
  case False
  define t where "t = (if prio \<noteq> OS_PRIO_MUTEX_CEIL_DIS then put_slot prio OS_TCB_RESERVED s else s)"
  have t: "os_inv dfr t" using put_slot_inv [OF inv, of prio OS_TCB_RESERVED] inv False by (auto simp: t_def)
  have eq: "snd (snd (OSMutexCreate prio s)) = (if OSEventFreeList t = NULL
      then (if prio \<noteq> OS_PRIO_MUTEX_CEIL_DIS then put_slot prio NULL t else t)
      else OS_EventWaitListInit (OSEventFreeList t) (upd_event (OSEventFreeList t) (\<lambda>e. e\<lparr>OSEventType := OS_EVENT_TYPE_MUTEX,
        OSEventCnt := push_bit 8 (ucast prio) OR OS_MUTEX_AVAILABLE, OSEventPtr := NULL\<rparr>)
        (t\<lparr>OSEventFreeList := OSEventPtr (OSEventMem t (OSEventFreeList t))\<rparr>)))"
    using False by (auto simp: OSMutexCreate_def t_def put_slot_def Let_def)
  show ?thesis
  proof (rule event_alloc_props [OF t])
    assume "event_alloc t = (NULL, t)"
    then have "OSEventFreeList t = NULL" by (simp add: event_alloc_def)
    moreover have "prio \<noteq> OS_PRIO_MUTEX_CEIL_DIS \<Longrightarrow> os_inv dfr (put_slot prio NULL t)"
      by (rule put_slot_inv [OF t]) (simp_all add: t_def)
    ultimately show ?thesis unfolding eq using t by simp
  next
    fix e fs
    assume a: "event_alloc t = (e, t\<lparr>OSEventFreeList := OSEventPtr (OSEventMem t e)\<rparr>)" "e \<noteq> NULL"
      and lists: "ev_lists t (e # fs)"
    then have fl: "OSEventFreeList t = e" by (simp add: event_alloc_def)
    show ?thesis unfolding eq fl using a(2)
      by (simp only: if_False) (rule event_new_inv [OF t lists]; simp add: wait_init)
  qed
qed

lemma mutex_free_eq:
  "mutex_free e s = event_free e (if ceiling s e \<noteq> OS_PRIO_MUTEX_CEIL_DIS then put_slot (ceiling s e) NULL s else s)"
  by (simp add: mutex_free_def put_slot_def Let_def)

lemma mutex_free_pre:
  assumes pre: "os_pre s" and e: "e \<in> events" "ev_type s e = OS_EVENT_TYPE_MUTEX" and w: "waiting s e = {}"
    and slot: "ceiling s e \<noteq> OS_PRIO_MUTEX_CEIL_DIS \<Longrightarrow> OSTCBPrioTbl s (ceiling s e) = OS_TCB_RESERVED"
  shows "os_pre (mutex_free e s)"
proof -
  have "os_pre (if ceiling s e \<noteq> OS_PRIO_MUTEX_CEIL_DIS then put_slot (ceiling s e) NULL s else s)"
    using put_slot_pre [OF pre] slot pre by simp
  then show ?thesis unfolding mutex_free_eq by (rule event_free_pre [OF _ e(1)]) (use e w in simp_all)
qed

lemma mutex_free_frame:
  "OSPrioCur (mutex_free e s) = OSPrioCur s" "OSRunning (mutex_free e s) = OSRunning s"
  "OSIntNesting (mutex_free e s) = OSIntNesting s" "OSLockNesting (mutex_free e s) = OSLockNesting s"
  "rdy (mutex_free e s) = rdy s" "OSTCBCur (mutex_free e s) = OSTCBCur s"
  by (simp_all add: mutex_free_eq)

lemma OSMutexDel_eq:
  assumes "\<not> raised e s"
  shows "snd (snd (OSMutexDel e opt s)) = (if ev_type s e = OS_EVENT_TYPE_MUTEX \<and> OSIntNesting s = 0 \<and>
      (opt = OS_DEL_NO_PEND \<and> OSEventGrp (OSEventMem s e) = 0 \<or> opt = OS_DEL_ALWAYS)
     then if OSEventGrp (OSEventMem s e) = 0 then mutex_free e s
       else OS_Sched (mutex_free e (snd (OS_EventRdyAll 64 e NULL OS_STAT_MUTEX OS_STAT_PEND_ABORT s)))
     else s)"
proof -
  have "ev_type s e = OS_EVENT_TYPE_MUTEX \<Longrightarrow> (if ceiling s e \<noteq> OS_PRIO_MUTEX_CEIL_DIS
      \<and> OSEventPtr (OSEventMem s e) \<noteq> NULL \<and> OSTCBPrio (OSTCBMem s (OSEventPtr (OSEventMem s e))) = ceiling s e
    then OSMutex_RdyAtPrio (OSEventPtr (OSEventMem s e)) (mutex_prio (OSEventCnt (OSEventMem s e))) s else s) = s"
    using assms by (auto simp: raised_def)
  note eq = this
  show ?thesis
  proof (cases "ev_type s e = OS_EVENT_TYPE_MUTEX")
    case True
    show ?thesis
      unfolding OSMutexDel_def Let_def eq [OF True]
      using True OS_EventRdyAll_none [of s e 64 NULL OS_STAT_MUTEX OS_STAT_PEND_ABORT] 
      by (auto simp: ev_type_def word_gt_0)
  next
    case False
    then show ?thesis by (simp add: OSMutexDel_def ev_type_def)
  qed
qed

lemma OSMutexDel_inv:
  assumes inv: "os_inv dfr s" and mx: "mx_inv s" and e: "e \<in> events" and nr: "\<not> raised e s"
  shows "os_inv dfr (snd (snd (OSMutexDel e opt s)))"
proof (cases "ev_type s e = OS_EVENT_TYPE_MUTEX")
  case False
  then show ?thesis using inv by (simp add: OSMutexDel_eq [OF nr])
next
  case ty: True
  have bit: "OS_STAT_MUTEX = ev_bit (ev_type s e)" "(OS_STAT_MUTEX :: u8) \<noteq> 0" using ty by (simp_all add: ev_bit_def)
  note slot = mx_invD(2) [OF mx e ty]
  let ?a = "snd (OS_EventRdyAll 64 e NULL OS_STAT_MUTEX OS_STAT_PEND_ABORT s)"
  have free: "os_inv dfr (mutex_free e s)" if "OSEventGrp (OSEventMem s e) = 0"
  proof -
    have "waiting s e = {}" using that ev_grp_task [OF inv e] by simp
    then have "os_pre (mutex_free e s)" using mutex_free_pre [OF _ e ty _ slot] inv by (simp add: os_inv_pre)
    then show ?thesis using os_invD(7) [OF inv] by (simp add: os_inv_pre sched_inv_def mutex_free_frame)
  qed
  have "os_pre (mutex_free e ?a)"
    by (rule mutex_free_pre [OF wake_pre(1) [OF inv e bit] e])
      (use ty slot rdy_all_props(4) [OF os_invD(1) [OF inv] e bit] in simp_all)
  then have "os_inv dfr (OS_Sched (mutex_free e ?a))" by (rule os_pre_sched)
  then show ?thesis using free inv by (simp add: OSMutexDel_eq [OF nr])
qed

end
