(* ===== verification/OS_Sem.thy ===== *)
theory OS_Sem
  imports OS_Event
begin

text \<open>\<open>ucosII/Source/os_sem.c\<close>: counting semaphores with a 16-bit count.\<close>

section \<open>Operations\<close>

definition OSSemAccept :: "ptr \<Rightarrow> os \<Rightarrow> u16 \<times> os" where
  "OSSemAccept pevent s =
     (if OSEventType (OSEventMem s pevent) \<noteq> OS_EVENT_TYPE_SEM then (0, s)
      else let cnt = OSEventCnt (OSEventMem s pevent)
           in (cnt, if cnt > 0
                    then upd_event pevent (\<lambda>e. e\<lparr>OSEventCnt := OSEventCnt e - 1\<rparr>) s else s))"

definition OSSemCreate :: "u16 \<Rightarrow> os \<Rightarrow> ptr \<times> os" where
  "OSSemCreate cnt = event_create OS_EVENT_TYPE_SEM cnt NULL"

definition OSSemDel :: "ptr \<Rightarrow> u8 \<Rightarrow> os \<Rightarrow> ptr \<times> u8 \<times> os" where
  "OSSemDel = OS_EventDel OS_EVENT_TYPE_SEM OS_STAT_SEM (\<lambda>pevent s. s)"

definition OSSemPend_enter :: "ptr \<Rightarrow> u32 \<Rightarrow> os \<Rightarrow> u8 call \<times> os" where
  "OSSemPend_enter pevent timeout s =
     (if OSEventType (OSEventMem s pevent) \<noteq> OS_EVENT_TYPE_SEM then (Ret OS_ERR_EVENT_TYPE, s)
      else if OSIntNesting s > 0 then (Ret OS_ERR_PEND_ISR, s)
      else if OSLockNesting s > 0 then (Ret OS_ERR_PEND_LOCKED, s)
      else if OSEventCnt (OSEventMem s pevent) > 0
      then (Ret OS_ERR_NONE, upd_event pevent (\<lambda>e. e\<lparr>OSEventCnt := OSEventCnt e - 1\<rparr>) s)
      else (Blocked, pend_block OS_STAT_SEM timeout pevent s))"

definition OSSemPend_resume :: "ptr \<Rightarrow> os \<Rightarrow> u8 \<times> os" where
  "OSSemPend_resume pevent s = pend_wakeup pevent s"

definition OSSemPend :: "(os \<Rightarrow> os) \<Rightarrow> ptr \<Rightarrow> u32 \<Rightarrow> os \<Rightarrow> u8 \<times> os" where
  "OSSemPend others pevent timeout s =
     (case OSSemPend_enter pevent timeout s of
        (Ret err, s') \<Rightarrow> (err, s')
      | (Blocked, s') \<Rightarrow> OSSemPend_resume pevent (others s'))"

definition OSSemPendAbort :: "ptr \<Rightarrow> u8 \<Rightarrow> os \<Rightarrow> u8 \<times> u8 \<times> os" where
  "OSSemPendAbort = OS_EventPendAbort OS_EVENT_TYPE_SEM OS_STAT_SEM"

definition OSSemPost :: "ptr \<Rightarrow> os \<Rightarrow> u8 \<times> os" where
  "OSSemPost pevent s =
     (if OSEventType (OSEventMem s pevent) \<noteq> OS_EVENT_TYPE_SEM then (OS_ERR_EVENT_TYPE, s)
      else if OSEventGrp (OSEventMem s pevent) \<noteq> 0
      then (OS_ERR_NONE,
            OS_Sched (snd (OS_EventTaskRdy pevent NULL OS_STAT_SEM OS_STAT_PEND_OK s)))
      else if OSEventCnt (OSEventMem s pevent) < 65535
      then (OS_ERR_NONE, upd_event pevent (\<lambda>e. e\<lparr>OSEventCnt := OSEventCnt e + 1\<rparr>) s)
      else (OS_ERR_SEM_OVF, s))"

record os_sem_data =
  sd_OSCnt :: u16
  sd_OSEventTbl :: "u8 list"
  sd_OSEventGrp :: u8

definition OSSemQuery :: "ptr \<Rightarrow> os \<Rightarrow> u8 \<times> os_sem_data option" where
  "OSSemQuery pevent s =
     (if OSEventType (OSEventMem s pevent) \<noteq> OS_EVENT_TYPE_SEM then (OS_ERR_EVENT_TYPE, None)
      else let e = OSEventMem s pevent
           in (OS_ERR_NONE, Some \<lparr>sd_OSCnt = OSEventCnt e, sd_OSEventTbl = copy_tbl e,
                                  sd_OSEventGrp = OSEventGrp e\<rparr>))"

definition OSSemSet :: "ptr \<Rightarrow> u16 \<Rightarrow> os \<Rightarrow> u8 \<times> os" where
  "OSSemSet pevent cnt s =
     (if OSEventType (OSEventMem s pevent) \<noteq> OS_EVENT_TYPE_SEM then (OS_ERR_EVENT_TYPE, s)
      else if OSEventCnt (OSEventMem s pevent) > 0
      then (OS_ERR_NONE, upd_event pevent (\<lambda>e. e\<lparr>OSEventCnt := cnt\<rparr>) s)
      else if OSEventGrp (OSEventMem s pevent) = 0
      then (OS_ERR_NONE, upd_event pevent (\<lambda>e. e\<lparr>OSEventCnt := cnt\<rparr>) s)
      else (OS_ERR_TASK_WAITING, s))"

end
