(* ===== verification/OS_Mbox.thy ===== *)
theory OS_Mbox
  imports OS_Event
begin

text \<open>\<open>ucosII/Source/os_mbox.c\<close>: mailboxes of one message, empty when \<open>OSEventPtr\<close> is \<open>NULL\<close>.\<close>

section \<open>Operations\<close>

definition OSMboxAccept :: "ptr \<Rightarrow> os \<Rightarrow> ptr \<times> os" where
  "OSMboxAccept pevent s =
     (if OSEventType (OSEventMem s pevent) \<noteq> OS_EVENT_TYPE_MBOX then (NULL, s)
      else (OSEventPtr (OSEventMem s pevent),
            upd_event pevent (\<lambda>e. e\<lparr>OSEventPtr := NULL\<rparr>) s))"

definition OSMboxCreate :: "ptr \<Rightarrow> os \<Rightarrow> ptr \<times> os" where
  "OSMboxCreate pmsg = event_create OS_EVENT_TYPE_MBOX 0 pmsg"

definition OSMboxDel :: "ptr \<Rightarrow> u8 \<Rightarrow> os \<Rightarrow> ptr \<times> u8 \<times> os" where
  "OSMboxDel = OS_EventDel OS_EVENT_TYPE_MBOX OS_STAT_MBOX (\<lambda>pevent s. s)"

definition OSMboxPend_enter :: "ptr \<Rightarrow> u32 \<Rightarrow> os \<Rightarrow> (ptr \<times> u8) call \<times> os" where
  "OSMboxPend_enter pevent timeout s =
     (if OSEventType (OSEventMem s pevent) \<noteq> OS_EVENT_TYPE_MBOX
      then (Ret (NULL, OS_ERR_EVENT_TYPE), s)
      else if OSIntNesting s > 0 then (Ret (NULL, OS_ERR_PEND_ISR), s)
      else if OSLockNesting s > 0 then (Ret (NULL, OS_ERR_PEND_LOCKED), s)
      else let pmsg = OSEventPtr (OSEventMem s pevent)
           in if pmsg \<noteq> NULL
              then (Ret (pmsg, OS_ERR_NONE), upd_event pevent (\<lambda>e. e\<lparr>OSEventPtr := NULL\<rparr>) s)
              else (Blocked, pend_block OS_STAT_MBOX timeout pevent s))"

definition OSMboxPend_resume :: "ptr \<Rightarrow> os \<Rightarrow> (ptr \<times> u8) \<times> os" where
  "OSMboxPend_resume pevent s = pend_wakeup_msg pevent s"

definition OSMboxPend :: "(os \<Rightarrow> os) \<Rightarrow> ptr \<Rightarrow> u32 \<Rightarrow> os \<Rightarrow> (ptr \<times> u8) \<times> os" where
  "OSMboxPend others pevent timeout s =
     (case OSMboxPend_enter pevent timeout s of
        (Ret r, s') \<Rightarrow> (r, s')
      | (Blocked, s') \<Rightarrow> OSMboxPend_resume pevent (others s'))"

definition OSMboxPendAbort :: "ptr \<Rightarrow> u8 \<Rightarrow> os \<Rightarrow> u8 \<times> u8 \<times> os" where
  "OSMboxPendAbort = OS_EventPendAbort OS_EVENT_TYPE_MBOX OS_STAT_MBOX"

definition OSMboxPost :: "ptr \<Rightarrow> ptr \<Rightarrow> os \<Rightarrow> u8 \<times> os" where
  "OSMboxPost pevent pmsg s =
     (if OSEventType (OSEventMem s pevent) \<noteq> OS_EVENT_TYPE_MBOX then (OS_ERR_EVENT_TYPE, s)
      else if OSEventGrp (OSEventMem s pevent) \<noteq> 0
      then (OS_ERR_NONE,
            OS_Sched (snd (OS_EventTaskRdy pevent pmsg OS_STAT_MBOX OS_STAT_PEND_OK s)))
      else if OSEventPtr (OSEventMem s pevent) \<noteq> NULL then (OS_ERR_MBOX_FULL, s)
      else (OS_ERR_NONE, upd_event pevent (\<lambda>e. e\<lparr>OSEventPtr := pmsg\<rparr>) s))"

definition OSMboxPostOpt :: "ptr \<Rightarrow> ptr \<Rightarrow> u8 \<Rightarrow> os \<Rightarrow> u8 \<times> os" where
  "OSMboxPostOpt pevent pmsg opt s =
     (if OSEventType (OSEventMem s pevent) \<noteq> OS_EVENT_TYPE_MBOX then (OS_ERR_EVENT_TYPE, s)
      else if OSEventGrp (OSEventMem s pevent) \<noteq> 0
      then (OS_ERR_NONE, post_wake OS_STAT_MBOX pevent pmsg opt s)
      else if OSEventPtr (OSEventMem s pevent) \<noteq> NULL then (OS_ERR_MBOX_FULL, s)
      else (OS_ERR_NONE, upd_event pevent (\<lambda>e. e\<lparr>OSEventPtr := pmsg\<rparr>) s))"

record os_mbox_data =
  bd_OSMsg :: ptr
  bd_OSEventTbl :: "u8 list"
  bd_OSEventGrp :: u8

definition OSMboxQuery :: "ptr \<Rightarrow> os \<Rightarrow> u8 \<times> os_mbox_data option" where
  "OSMboxQuery pevent s =
     (if OSEventType (OSEventMem s pevent) \<noteq> OS_EVENT_TYPE_MBOX then (OS_ERR_EVENT_TYPE, None)
      else let e = OSEventMem s pevent
           in (OS_ERR_NONE, Some \<lparr>bd_OSMsg = OSEventPtr e, bd_OSEventTbl = copy_tbl e,
                                  bd_OSEventGrp = OSEventGrp e\<rparr>))"

end
