(* ===== verification/OS_Q.thy ===== *)
theory OS_Q
  imports OS_Event
begin

text \<open>
  \<open>ucosII/Source/os_q.c\<close>: message queues, a ring of pointers in an array the application
  provides. \<open>OSQStart\<close> and \<open>OSQEnd\<close> are the array's bounds, a slot is 4 bytes wide.
\<close>

section \<open>The ring\<close>

abbreviation (input) slot_bytes :: nat where "slot_bytes \<equiv> 4" \<comment> \<open>\<open>sizeof(void *)\<close>\<close>

text \<open>\<open>pmsg = *pq->OSQOut++; pq->OSQEntries--; if (OSQOut == OSQEnd) OSQOut = OSQStart\<close>\<close>

definition q_get :: "ptr \<Rightarrow> os \<Rightarrow> ptr \<times> os" where
  "q_get pq s =
     (let pmsg = app_mem s (OSQOut (OSQMem s pq));
          s1 = upd_q pq (\<lambda>q. q\<lparr>OSQOut := OSQOut q + slot_bytes, OSQEntries := OSQEntries q - 1\<rparr>) s
      in (pmsg, upd_q pq (\<lambda>q. if OSQOut q = OSQEnd q then q\<lparr>OSQOut := OSQStart q\<rparr> else q) s1))"

definition q_put :: "ptr \<Rightarrow> ptr \<Rightarrow> os \<Rightarrow> os" where
  "q_put pq pmsg s =
     (let s1 = s\<lparr>app_mem := (app_mem s)(OSQIn (OSQMem s pq) := pmsg)\<rparr>;
          s2 = upd_q pq (\<lambda>q. q\<lparr>OSQIn := OSQIn q + slot_bytes, OSQEntries := OSQEntries q + 1\<rparr>) s1
      in upd_q pq (\<lambda>q. if OSQIn q = OSQEnd q then q\<lparr>OSQIn := OSQStart q\<rparr> else q) s2)"

definition q_put_front :: "ptr \<Rightarrow> ptr \<Rightarrow> os \<Rightarrow> os" where
  "q_put_front pq pmsg s =
     (let s1 = upd_q pq (\<lambda>q. if OSQOut q = OSQStart q then q\<lparr>OSQOut := OSQEnd q\<rparr> else q) s;
          s2 = upd_q pq (\<lambda>q. q\<lparr>OSQOut := OSQOut q - slot_bytes\<rparr>) s1;
          s3 = s2\<lparr>app_mem := (app_mem s2)(OSQOut (OSQMem s2 pq) := pmsg)\<rparr>
      in upd_q pq (\<lambda>q. q\<lparr>OSQEntries := OSQEntries q + 1\<rparr>) s3)"

definition q_flush :: "ptr \<Rightarrow> os \<Rightarrow> os" where
  "q_flush pq = upd_q pq (\<lambda>q. q\<lparr>OSQIn := OSQStart q, OSQOut := OSQStart q, OSQEntries := 0\<rparr>)"

section \<open>Services\<close>

definition OSQAccept :: "ptr \<Rightarrow> os \<Rightarrow> (ptr \<times> u8) \<times> os" where
  "OSQAccept pevent s =
     (if OSEventType (OSEventMem s pevent) \<noteq> OS_EVENT_TYPE_Q then ((NULL, OS_ERR_EVENT_TYPE), s)
      else let pq = OSEventPtr (OSEventMem s pevent)
           in if OSQEntries (OSQMem s pq) > 0
              then let (pmsg, s1) = q_get pq s in ((pmsg, OS_ERR_NONE), s1)
              else ((NULL, OS_ERR_Q_EMPTY), s))"

definition q_take :: "os \<Rightarrow> os" where
  "q_take s = s\<lparr>OSQFreeList := OSQPtr (OSQMem s (OSQFreeList s))\<rparr>"

definition OSQCreate :: "ptr \<Rightarrow> u16 \<Rightarrow> os \<Rightarrow> ptr \<times> os" where
  "OSQCreate start n s =
     (if OSIntNesting s > 0 then (NULL, s)
      else let (pevent, s1) = event_alloc s
           in if pevent \<noteq> NULL
              then let pq = OSQFreeList s1
                   in if pq \<noteq> NULL
                      then let s2 = q_take s1;
                               s3 = upd_q pq (\<lambda>q. q\<lparr>OSQStart := start,
                                      OSQEnd := start + slot_bytes * unat n, OSQIn := start,
                                      OSQOut := start, OSQSize := n, OSQEntries := 0\<rparr>) s2;
                               s4 = upd_event pevent (\<lambda>e. e\<lparr>OSEventType := OS_EVENT_TYPE_Q,
                                      OSEventCnt := 0, OSEventPtr := pq\<rparr>) s3
                           in (pevent, OS_EventWaitListInit pevent s4)
                      else (NULL, (upd_event pevent (\<lambda>e. e\<lparr>OSEventPtr := OSEventFreeList s1\<rparr>) s1)
                                    \<lparr>OSEventFreeList := pevent\<rparr>)
              else (pevent, s1))"

text \<open>\<open>pq->OSQPtr = OSQFreeList; OSQFreeList = pq;\<close>, for the queue of an event in \<open>q_free\<close>.\<close>

definition q_give :: "ptr \<Rightarrow> os \<Rightarrow> os" where
  "q_give pq s = (upd_q pq (\<lambda>q. q\<lparr>OSQPtr := OSQFreeList s\<rparr>) s)\<lparr>OSQFreeList := pq\<rparr>"

definition q_free :: "ptr \<Rightarrow> os \<Rightarrow> os" where
  "q_free pevent s = q_give (OSEventPtr (OSEventMem s pevent)) s"

interpretation q_pool: free_list OSQFreeList "\<lambda>s a. OSQPtr (OSQMem s a)" q_take q_give
  by unfold_locales (auto simp: q_take_def q_give_def)

definition OSQDel :: "ptr \<Rightarrow> u8 \<Rightarrow> os \<Rightarrow> ptr \<times> u8 \<times> os" where
  "OSQDel = OS_EventDel OS_EVENT_TYPE_Q OS_STAT_Q q_free"

definition OSQFlush :: "ptr \<Rightarrow> os \<Rightarrow> u8 \<times> os" where
  "OSQFlush pevent s = (OS_ERR_NONE, q_flush (OSEventPtr (OSEventMem s pevent)) s)"

definition OSQPend_enter :: "ptr \<Rightarrow> u32 \<Rightarrow> os \<Rightarrow> (ptr \<times> u8) call \<times> os" where
  "OSQPend_enter pevent timeout s =
     (if OSEventType (OSEventMem s pevent) \<noteq> OS_EVENT_TYPE_Q
      then (Ret (NULL, OS_ERR_EVENT_TYPE), s)
      else if OSIntNesting s > 0 then (Ret (NULL, OS_ERR_PEND_ISR), s)
      else if OSLockNesting s > 0 then (Ret (NULL, OS_ERR_PEND_LOCKED), s)
      else let pq = OSEventPtr (OSEventMem s pevent)
           in if OSQEntries (OSQMem s pq) > 0
              then let (pmsg, s1) = q_get pq s in (Ret (pmsg, OS_ERR_NONE), s1)
              else (Blocked, pend_block OS_STAT_Q timeout pevent s))"

definition OSQPend_resume :: "ptr \<Rightarrow> os \<Rightarrow> (ptr \<times> u8) \<times> os" where
  "OSQPend_resume pevent s = pend_wakeup_msg pevent s"

definition OSQPend :: "(os \<Rightarrow> os) \<Rightarrow> ptr \<Rightarrow> u32 \<Rightarrow> os \<Rightarrow> (ptr \<times> u8) \<times> os" where
  "OSQPend others pevent timeout s =
     (case OSQPend_enter pevent timeout s of
        (Ret r, s') \<Rightarrow> (r, s')
      | (Blocked, s') \<Rightarrow> OSQPend_resume pevent (others s'))"

definition OSQPendAbort :: "ptr \<Rightarrow> u8 \<Rightarrow> os \<Rightarrow> u8 \<times> u8 \<times> os" where
  "OSQPendAbort = OS_EventPendAbort OS_EVENT_TYPE_Q OS_STAT_Q"

definition OSQPost :: "ptr \<Rightarrow> ptr \<Rightarrow> os \<Rightarrow> u8 \<times> os" where
  "OSQPost pevent pmsg s =
     (if OSEventType (OSEventMem s pevent) \<noteq> OS_EVENT_TYPE_Q then (OS_ERR_EVENT_TYPE, s)
      else if OSEventGrp (OSEventMem s pevent) \<noteq> 0
      then (OS_ERR_NONE, OS_Sched (snd (OS_EventTaskRdy pevent pmsg OS_STAT_Q OS_STAT_PEND_OK s)))
      else let pq = OSEventPtr (OSEventMem s pevent)
           in if OSQEntries (OSQMem s pq) \<ge> OSQSize (OSQMem s pq) then (OS_ERR_Q_FULL, s)
              else (OS_ERR_NONE, q_put pq pmsg s))"

definition OSQPostFront :: "ptr \<Rightarrow> ptr \<Rightarrow> os \<Rightarrow> u8 \<times> os" where
  "OSQPostFront pevent pmsg s =
     (if OSEventType (OSEventMem s pevent) \<noteq> OS_EVENT_TYPE_Q then (OS_ERR_EVENT_TYPE, s)
      else if OSEventGrp (OSEventMem s pevent) \<noteq> 0
      then (OS_ERR_NONE, OS_Sched (snd (OS_EventTaskRdy pevent pmsg OS_STAT_Q OS_STAT_PEND_OK s)))
      else let pq = OSEventPtr (OSEventMem s pevent)
           in if OSQEntries (OSQMem s pq) \<ge> OSQSize (OSQMem s pq) then (OS_ERR_Q_FULL, s)
              else (OS_ERR_NONE, q_put_front pq pmsg s))"

definition OSQPostOpt :: "ptr \<Rightarrow> ptr \<Rightarrow> u8 \<Rightarrow> os \<Rightarrow> u8 \<times> os" where
  "OSQPostOpt pevent pmsg opt s =
     (if OSEventType (OSEventMem s pevent) \<noteq> OS_EVENT_TYPE_Q then (OS_ERR_EVENT_TYPE, s)
      else if OSEventGrp (OSEventMem s pevent) \<noteq> 0
      then (OS_ERR_NONE, post_wake OS_STAT_Q pevent pmsg opt s)
      else let pq = OSEventPtr (OSEventMem s pevent)
           in if OSQEntries (OSQMem s pq) \<ge> OSQSize (OSQMem s pq) then (OS_ERR_Q_FULL, s)
              else if opt AND OS_POST_OPT_FRONT \<noteq> 0 then (OS_ERR_NONE, q_put_front pq pmsg s)
              else (OS_ERR_NONE, q_put pq pmsg s))"

record os_q_data =
  qd_OSMsg :: ptr
  qd_OSNMsgs :: u16
  qd_OSQSize :: u16
  qd_OSEventTbl :: "u8 list"
  qd_OSEventGrp :: u8

definition OSQQuery :: "ptr \<Rightarrow> os \<Rightarrow> u8 \<times> os_q_data option" where
  "OSQQuery pevent s =
     (if OSEventType (OSEventMem s pevent) \<noteq> OS_EVENT_TYPE_Q then (OS_ERR_EVENT_TYPE, None)
      else let e = OSEventMem s pevent;
               q = OSQMem s (OSEventPtr e)
           in (OS_ERR_NONE, Some \<lparr>qd_OSMsg = (if OSQEntries q > 0 then app_mem s (OSQOut q) else NULL),
                                  qd_OSNMsgs = OSQEntries q, qd_OSQSize = OSQSize q,
                                  qd_OSEventTbl = copy_tbl e, qd_OSEventGrp = OSEventGrp e\<rparr>))"

definition zero_q :: os_q where
  "zero_q = \<lparr>OSQPtr = NULL, OSQStart = NULL, OSQEnd = NULL, OSQIn = NULL, OSQOut = NULL,
     OSQSize = 0, OSQEntries = 0\<rparr>"

definition OS_QInit :: "os \<Rightarrow> os" where
  "OS_QInit s =
     (let m0 = fold (\<lambda>ix m. m(q_addr ix := zero_q)) [0..<OS_MAX_QS] (OSQMem s);
          m1 = fold (\<lambda>ix m. m(q_addr ix := (m (q_addr ix))\<lparr>OSQPtr := q_addr (ix + 1)\<rparr>))
                 [0..<OS_MAX_QS - 1] m0;
          last = q_addr (OS_MAX_QS - 1)
      in s\<lparr>OSQMem := m1(last := (m1 last)\<lparr>OSQPtr := NULL\<rparr>), OSQFreeList := q_addr 0\<rparr>)"

end
