(* ===== verification/OS_Mem.thy ===== *)
theory OS_Mem
  imports OS_Core OS_Task
begin

text \<open>
  \<open>ucosII/Source/os_mem.c\<close>: partitions of fixed-size blocks. The free blocks of a partition
  form a list through their first words, in the memory the application lends.
\<close>

section \<open>Operations\<close>

text \<open>The loop that links the blocks of a new partition; it returns the last \<open>plink\<close>.\<close>

fun mem_link :: "nat \<Rightarrow> ptr \<Rightarrow> nat \<Rightarrow> (ptr \<Rightarrow> ptr) \<Rightarrow> ptr \<times> (ptr \<Rightarrow> ptr)" where
  "mem_link 0 plink blksize m = (plink, m)"
| "mem_link (Suc n) plink blksize m =
     (let pblk = plink + blksize in mem_link n pblk blksize (m(plink := pblk)))"

text \<open>\<open>loops = nblks - 1\<close> wraps to 0xFFFFFFFF for \<open>nblks = 0\<close>.\<close>

definition OSMemCreate :: "ptr \<Rightarrow> u32 \<Rightarrow> u32 \<Rightarrow> os \<Rightarrow> (ptr \<times> u8) \<times> os" where
  "OSMemCreate addr nblks blksize s =
     (let pmem = OSMemFreeList s;
          s1 = (if OSMemFreeList s \<noteq> NULL
                then s\<lparr>OSMemFreeList := OSMemFree (OSMemMem s (OSMemFreeList s))\<rparr> else s)
      in if pmem = NULL then ((NULL, OS_ERR_MEM_INVALID_PART), s1)
         else let (plink, m) = mem_link (unat (nblks - 1)) addr (unat blksize) (app_mem s1);
                  s2 = s1\<lparr>app_mem := m(plink := NULL)\<rparr>
              in ((pmem, OS_ERR_NONE),
                  upd_mem pmem (\<lambda>p. p\<lparr>OSMemAddr := addr, OSMemFree := addr, OSMemNFree := nblks,
                                      OSMemNBlks := nblks, OSMemBlkSize := blksize\<rparr>) s2))"

text \<open>
  Taking the first free block of a partition and putting one in front; the interface of a
  free list again, for every partition.
\<close>

definition blk_take :: "ptr \<Rightarrow> os \<Rightarrow> os" where
  "blk_take pmem s = upd_mem pmem (\<lambda>p. p\<lparr>OSMemFree := app_mem s (OSMemFree (OSMemMem s pmem)),
     OSMemNFree := OSMemNFree p - 1\<rparr>) s"

definition blk_give :: "ptr \<Rightarrow> ptr \<Rightarrow> os \<Rightarrow> os" where
  "blk_give pmem pblk s =
     (let s1 = s\<lparr>app_mem := (app_mem s)(pblk := OSMemFree (OSMemMem s pmem))\<rparr>
      in upd_mem pmem (\<lambda>p. p\<lparr>OSMemFree := pblk, OSMemNFree := OSMemNFree p + 1\<rparr>) s1)"

interpretation blk: free_list "\<lambda>s. OSMemFree (OSMemMem s pmem)" app_mem "blk_take pmem" "blk_give pmem"
  for pmem
  by unfold_locales (auto simp: blk_take_def blk_give_def Let_def)

definition OSMemGet :: "ptr \<Rightarrow> os \<Rightarrow> (ptr \<times> u8) \<times> os" where
  "OSMemGet pmem s =
     (if OSMemNFree (OSMemMem s pmem) > 0
      then ((OSMemFree (OSMemMem s pmem), OS_ERR_NONE), blk_take pmem s)
      else ((NULL, OS_ERR_MEM_NO_FREE_BLKS), s))"

definition OSMemPut :: "ptr \<Rightarrow> ptr \<Rightarrow> os \<Rightarrow> u8 \<times> os" where
  "OSMemPut pmem pblk s =
     (if OSMemNFree (OSMemMem s pmem) \<ge> OSMemNBlks (OSMemMem s pmem) then (OS_ERR_MEM_FULL, s)
      else (OS_ERR_NONE, blk_give pmem pblk s))"

definition OSMemNameGet :: "ptr \<Rightarrow> os \<Rightarrow> u8 \<times> string option \<times> u8" where
  "OSMemNameGet pmem s =
     (if OSIntNesting s > 0 then (0, None, OS_ERR_NAME_GET_ISR)
      else let pname = OSMemName (OSMemMem s pmem)
           in (OS_StrLen pname, Some pname, OS_ERR_NONE))"

definition OSMemNameSet :: "ptr \<Rightarrow> string \<Rightarrow> os \<Rightarrow> u8 \<times> os" where
  "OSMemNameSet pmem pname s =
     (if OSIntNesting s > 0 then (OS_ERR_NAME_SET_ISR, s)
      else (OS_ERR_NONE, upd_mem pmem (\<lambda>p. p\<lparr>OSMemName := pname\<rparr>) s))"

record os_mem_data =
  md_OSAddr :: ptr
  md_OSFreeList :: ptr
  md_OSBlkSize :: u32
  md_OSNBlks :: u32
  md_OSNFree :: u32
  md_OSNUsed :: u32

definition OSMemQuery :: "ptr \<Rightarrow> os \<Rightarrow> u8 \<times> os_mem_data" where
  "OSMemQuery pmem s =
     (let p = OSMemMem s pmem
      in (OS_ERR_NONE, \<lparr>md_OSAddr = OSMemAddr p, md_OSFreeList = OSMemFree p,
            md_OSBlkSize = OSMemBlkSize p, md_OSNBlks = OSMemNBlks p, md_OSNFree = OSMemNFree p,
            md_OSNUsed = OSMemNBlks p - OSMemNFree p\<rparr>))"

definition zero_mem :: os_mem where
  "zero_mem = \<lparr>OSMemAddr = NULL, OSMemFree = NULL, OSMemBlkSize = 0, OSMemNBlks = 0,
     OSMemNFree = 0, OSMemName = []\<rparr>"

definition OS_MemInit :: "os \<Rightarrow> os" where
  "OS_MemInit s =
     (let m0 = fold (\<lambda>i m. m(mem_addr i := zero_mem)) [0..<OS_MAX_MEM_PART] (OSMemMem s);
          m1 = fold (\<lambda>i m. m(mem_addr i := (m (mem_addr i))
                 \<lparr>OSMemFree := mem_addr (i + 1), OSMemName := ''?''\<rparr>)) [0..<OS_MAX_MEM_PART - 1] m0;
          last = mem_addr (OS_MAX_MEM_PART - 1)
      in s\<lparr>OSMemMem := m1(last := (m1 last)\<lparr>OSMemFree := NULL, OSMemName := ''?''\<rparr>),
           OSMemFreeList := mem_addr 0\<rparr>)"

end
