(* ===== verification/OS_Init.thy ===== *)
theory OS_Init
  imports OS_Task OS_Q OS_Mem
begin

text \<open>\<open>OSInit\<close> of \<open>os_core.c\<close>: the initial state of the kernel, with the idle task.\<close>

definition OS_InitTaskIdle :: "link_addrs \<Rightarrow> os \<Rightarrow> os" where
  "OS_InitTaskIdle ld s =
     (let s1 = snd (OSTaskCreate ld (ld_OS_TaskIdle ld) NULL (ld_OSTaskIdleStk ld)
                      OS_TASK_IDLE_PRIO s)
      in snd (OSTaskNameSet OS_TASK_IDLE_PRIO ''uC/OS-II Idle'' s1))"

text \<open>\<open>OSInitHookBegin\<close> clears the exception stack, which nothing else in the model reads.\<close>

definition OSInit :: "link_addrs \<Rightarrow> os \<Rightarrow> os" where
  "OSInit ld s =
     OS_InitTaskIdle ld (OS_QInit (OS_MemInit (OS_InitEventList (OS_InitTCBList
       (OS_InitRdyList (OS_InitMisc s))))))"

text \<open>Memory of zero bytes, as after reset.\<close>

definition ram0 :: os where
  "ram0 = \<lparr>OSCtxSwCtr = 0, OSEventFreeList = 0, OSEventMem = (\<lambda>_. zero_event), OSIntNesting = 0,
     OSLockNesting = 0, OSPrioCur = 0, OSPrioHighRdy = 0, OSRdyGrp = 0, OSRdyTbl = (\<lambda>_. 0),
     OSRunning = False, OSTaskCtr = 0, OSIdleCtr = 0, OSTCBCur = 0, OSTCBFreeList = 0, OSTCBHighRdy = 0,
     OSTCBList = 0, OSTCBPrioTbl = (\<lambda>_. 0), OSTCBMem = (\<lambda>_. zero_tcb), OSMemFreeList = 0,
     OSMemMem = (\<lambda>_. zero_mem), OSQFreeList = 0, OSQMem = (\<lambda>_. zero_q), OSTime = 0, app_mem = (\<lambda>_. 0)\<rparr>"

end
