(* ===== verification/OS_Init_Inv.thy ===== *)
theory OS_Init_Inv
  imports OS_Init OS_Event_Inv
begin

text \<open>\<open>OSInit\<close> establishes the invariant from any memory contents, and \<open>OSStart\<close> keeps it.\<close>

section \<open>Arrays of control blocks\<close>

lemma fold_array:
  assumes "inj g"
  shows "fold (\<lambda>i m. m(g i := h i (m (g i)))) [a..<n] m (g j) = (if a \<le> j \<and> j < n then h j (m (g j)) else m (g j))"
proof (induction n)
  case (Suc n)
  show ?case
  proof (cases "a \<le> n")
    case True
    then have "[a..<Suc n] = [a..<n] @ [n]" by simp
    then show ?thesis using Suc True assms by (auto simp: less_Suc_eq dest: injD)
  qed auto
qed simp

lemma chain_range:
  assumes "\<And>i. i < n \<Longrightarrow> nxt (f i) = f (Suc i)" "nxt (f n) = NULL" "\<And>i. f i \<noteq> NULL" "j \<le> n"
  shows "chain nxt (f j) (map f [j..<Suc n])"
  using assms(4)
proof (induction "n - j" arbitrary: j)
  case 0
  then have "j = n" by simp
  then show ?case using assms by simp
next
  case (Suc k)
  then have "j < n" by simp
  then have "[j..<Suc n] = j # [Suc j..<Suc n]" by (simp add: upt_rec)
  moreover have "chain nxt (f (Suc j)) (map f [Suc j..<Suc n])" using Suc by auto
  ultimately show ?case using assms(1,3) \<open>j < n\<close> by simp
qed

lemma addr_inj: "inj tcb_addr" "inj event_addr"
  by (simp_all add: inj_def tcb_addr_def event_addr_def)

lemma event_addr_nonzero: "event_addr i \<noteq> NULL"
  by (simp add: event_addr_def)

definition tcb_all :: "ptr list" where "tcb_all = map tcb_addr [0..<Suc 10]"
definition event_all :: "ptr list" where "event_all = map event_addr [0..<Suc 49]"

lemma init_tcbs:
  "chain (tcb_next (OS_InitTCBList s)) (OSTCBFreeList (OS_InitTCBList s)) tcb_all"
proof -
  let ?m = "OSTCBMem (OS_InitTCBList s)"
  have "OSTCBNext (?m (tcb_addr i)) = tcb_addr (Suc i)" if "i < 10" for i
    using that injD [OF addr_inj(1), of i 10]
    by (auto simp: OS_InitTCBList_def Let_def fold_array [OF addr_inj(1), where h = "\<lambda>ix t. t\<lparr>OSTCBNext := tcb_addr (Suc ix), OSTCBTaskName := ''?''\<rparr>"])
  moreover have "OSTCBNext (?m (tcb_addr 10)) = NULL" by (simp add: OS_InitTCBList_def Let_def)
  ultimately have "chain (tcb_next (OS_InitTCBList s)) (tcb_addr 0) tcb_all"
    unfolding tcb_all_def by (intro chain_range) (simp_all add: tcb_addr_def)
  moreover have "OSTCBFreeList (OS_InitTCBList s) = tcb_addr 0" by (simp add: OS_InitTCBList_def Let_def)
  ultimately show ?thesis by simp
qed

lemma init_event_mem:
  assumes "i < 50"
  shows "OSEventPtr (OSEventMem (OS_InitEventList s) (event_addr i)) = (if i < 49 then event_addr (Suc i) else NULL)"
    "OSEventType (OSEventMem (OS_InitEventList s) (event_addr i)) = OS_EVENT_TYPE_UNUSED"
    "ev_wait (OSEventMem (OS_InitEventList s) (event_addr i)) = (0, \<lambda>_. 0)"
proof -
  let ?z = "fold (\<lambda>ix m. m(event_addr ix := zero_event)) [0..<50] (OSEventMem s)"
  have z: "?z (event_addr i) = zero_event"
    using fold_array [OF addr_inj(2), of "\<lambda>_ _. zero_event" 0 50 "OSEventMem s" i] assms by simp
  have m: "OSEventMem (OS_InitEventList s) (event_addr i) = (if i < 49
      then zero_event\<lparr>OSEventType := OS_EVENT_TYPE_UNUSED, OSEventPtr := event_addr (Suc i)\<rparr>
      else zero_event\<lparr>OSEventType := OS_EVENT_TYPE_UNUSED, OSEventPtr := NULL\<rparr>)"
  proof -
    note f = fold_array [OF addr_inj(2), of "\<lambda>ix t. t\<lparr>OSEventType := 0, OSEventPtr := event_addr (Suc ix)\<rparr>" 0 49 ?z i]
    show ?thesis
    proof (cases "i < 49")
      case True
      then have "event_addr i \<noteq> event_addr 49" using injD [OF addr_inj(2)] by blast
      then show ?thesis using True z f by (simp add: OS_InitEventList_def Let_def)
    next
      case False
      then have "i = 49" using assms by simp
      then show ?thesis using z f by (simp add: OS_InitEventList_def Let_def)
    qed
  qed
  show "OSEventPtr (OSEventMem (OS_InitEventList s) (event_addr i)) = (if i < 49 then event_addr (Suc i) else NULL)"
    "OSEventType (OSEventMem (OS_InitEventList s) (event_addr i)) = OS_EVENT_TYPE_UNUSED"
    "ev_wait (OSEventMem (OS_InitEventList s) (event_addr i)) = (0, \<lambda>_. 0)"
    unfolding m by (simp_all add: zero_event_def ev_wait_def)
qed

section \<open>The state before the idle task is created\<close>

definition boot :: "os \<Rightarrow> os" where
  "boot s = OS_QInit (OS_MemInit (OS_InitEventList (OS_InitTCBList (OS_InitRdyList (OS_InitMisc s)))))"

lemma init_frame [simp]:
  "OSTCBPrioTbl (OS_InitTCBList s) = (\<lambda>_. NULL)" "OSTCBList (OS_InitTCBList s) = NULL"
  "rdy (OS_InitTCBList s) = rdy s" "OSTaskCtr (OS_InitTCBList s) = OSTaskCtr s"
  "OSRunning (OS_InitTCBList s) = OSRunning s" "OSIntNesting (OS_InitTCBList s) = OSIntNesting s"
  "OSLockNesting (OS_InitTCBList s) = OSLockNesting s"
  by (simp_all add: OS_InitTCBList_def Let_def rdy_def)

lemma boot_frame:
  "OSTCBPrioTbl (boot s) = (\<lambda>_. NULL)" "OSTCBList (boot s) = NULL" "OSTaskCtr (boot s) = 0"
  "\<not> OSRunning (boot s)" "OSIntNesting (boot s) = 0" "OSLockNesting (boot s) = 0"
  "OSTCBMem (boot s) = OSTCBMem (OS_InitTCBList s)" "OSTCBFreeList (boot s) = OSTCBFreeList (OS_InitTCBList s)"
  "OSEventMem (boot s) = OSEventMem (OS_InitEventList s)" "OSEventFreeList (boot s) = event_addr 0"
  "OSRdyGrp (boot s) = 0" "y < 8 \<Longrightarrow> OSRdyTbl (boot s) y = 0"
  using wait_init_tbl
  by (simp_all add: boot_def OS_QInit_def OS_MemInit_def OS_InitEventList_def OS_InitTCBList_def OS_InitMisc_def
      OS_InitRdyList_def Let_def)

lemma boot_ready: "bm_ok (rdy (boot s))" "ready (boot s) = {}"
proof -
  show ok: "bm_ok (rdy (boot s))" by (simp add: bm_ok_def rdy_def boot_frame)
  show "ready (boot s) = {}" using bm.none_iff [OF ok] by (simp add: ready_def rdy_def boot_frame)
qed

lemma boot_event:
  assumes "e \<in> events"
  shows "ev_type (boot s) e = OS_EVENT_TYPE_UNUSED" "bm_ok (ev_wait (OSEventMem (boot s) e))"
    "waiting (boot s) e = {}"
proof -
  obtain i where i: "e = event_addr i" "i < 50" using assms by (auto simp: events_def)
  note m = init_event_mem [OF i(2), of s, folded i(1)]
  show "ev_type (boot s) e = OS_EVENT_TYPE_UNUSED" using m(2) by (simp add: ev_type_def boot_frame)
  show ok: "bm_ok (ev_wait (OSEventMem (boot s) e))" using m(3) by (simp add: boot_frame bm_ok_def)
  show "waiting (boot s) e = {}" using bm.none_iff [OF ok] m(3) by (simp add: waiting_def boot_frame)
qed

lemma boot_task_inv: "task_inv (boot s)"
  unfolding task_inv_def task_ok_def using boot_ready [of s] boot_event [of _ s]
  by (simp add: boot_frame is_task_def)

lemma boot_lists: "task_lists (boot s) [] tcb_all"
proof -
  have "tasks (boot s) = {}" by (simp add: tasks_def boot_frame is_task_def)
  moreover have "set tcb_all = tcbs" "distinct tcb_all"
    using addr_inj(1) by (auto simp: tcb_all_def tcbs_def distinct_map inj_on_def inj_def)
  ultimately show ?thesis using init_tcbs [of s] by (simp add: task_lists_def dlist_def boot_frame)
qed

lemma event_all_events: "set event_all = events"
  by (auto simp: event_all_def events_def)

lemma boot_events: "ev_lists (boot s) event_all"
proof -
  let ?nxt = "\<lambda>a. OSEventPtr (OSEventMem (boot s) a)"
  have "chain ?nxt (event_addr 0) event_all"
    unfolding event_all_def
    by (rule chain_range) (simp_all add: boot_frame init_event_mem(1) event_addr_nonzero)
  moreover have "set event_all = events" "distinct event_all"
    using addr_inj(2) by (auto simp: event_all_def events_def distinct_map inj_on_def inj_def)
  ultimately show ?thesis using boot_event(1) by (auto simp: ev_lists_def boot_frame)
qed

section \<open>The state after OSInit\<close>

lemma OSInit_inv:
  shows "os_inv dfr (OSInit ld s)" "\<not> OSRunning (OSInit ld s)" "ready (OSInit ld s) = {OS_TASK_IDLE_PRIO}"
    "OSIntNesting (OSInit ld s) = 0" "OSLockNesting (OSInit ld s) = 0" "ev_lists (OSInit ld s) event_all"
    "task_lists (OSInit ld s) [tcb_addr 0] (map tcb_addr [1..<11])"
    "OSTCBPrioTbl (OSInit ld s) = (\<lambda>_. NULL)(OS_TASK_IDLE_PRIO := tcb_addr 0)"
proof -
  let ?b = "boot s"
  define q where "q = tcb_addr 0"
  define ys where "ys = map tcb_addr [1..<11]"
  have "[0..<Suc 10] = 0 # [1..<11]" by (simp add: upt_rec)
  then have all: "tcb_all = q # ys" by (simp add: tcb_all_def q_def ys_def)
  note ok = OSTaskCreate_ok [where ld = ld and task = "ld_OS_TaskIdle ld" and arg = NULL
      and ptos = "ld_OSTaskIdleStk ld" and prio = 63,
      OF boot_task_inv [of s] boot_lists [of s, unfolded all]]
  obtain s3 where s3: "OSTaskCreate ld (ld_OS_TaskIdle ld) NULL (ld_OSTaskIdleStk ld) 63 ?b
      = (OS_ERR_NONE, if OSRunning ?b then OS_Sched s3 else s3)"
    "task_inv s3" "task_lists s3 [q] ys" "ready s3 = insert 63 (ready ?b)"
    "OSTCBPrioTbl s3 = (OSTCBPrioTbl ?b)(63 := q)" "rdy s3 = bm_ins 63 (rdy ?b)"
    "OSTCBCur s3 = OSTCBCur ?b" "OSPrioCur s3 = OSPrioCur ?b" "OSRunning s3 = OSRunning ?b"
    "OSIntNesting s3 = OSIntNesting ?b" "OSLockNesting s3 = OSLockNesting ?b"
    "OSEventMem s3 = OSEventMem ?b" "OSEventFreeList s3 = OSEventFreeList ?b"
    by (rule ok) (simp_all add: boot_frame)
  have k3: "kernel_inv dfr s3" using s3(2,4,9) boot_frame(4) by (simp add: kernel_inv_def idle_inv_def cur_inv_def sched_inv_def)
  have "ev_lists s3 event_all"
    by (rule ev_lists_frame [OF boot_events [of s] s3(13)]) (simp add: ev_type_def s3(12))
  moreover have "pool_inv s3" using s3(3) unfolding pool_inv_def by blast
  ultimately have i3: "os_inv dfr s3" using k3 unfolding os_inv_def ev_inv_def by blast
  have "q \<in> tcbs" using boot_lists [of s, unfolded all] by (auto simp: task_lists_def)
  then have "is_task q" by (rule tcbs_task)
  then have "OSInit ld s = upd_tcb q (\<lambda>t. t\<lparr>OSTCBTaskName := ''uC/OS-II Idle''\<rparr>) s3"
    using s3(1,5,10) boot_frame(4,5)
    by (simp add: OSInit_def boot_def [symmetric] OS_InitTaskIdle_def OSTaskNameSet_def is_task_def)
  moreover have "os_inv dfr (upd_tcb q (\<lambda>t. t\<lparr>OSTCBTaskName := ''uC/OS-II Idle''\<rparr>) s3)"
    by (rule os_inv_upd [OF i3]) (simp_all add: core_tcb)
  moreover have "ev_lists (upd_tcb q (\<lambda>t. t\<lparr>OSTCBTaskName := ''uC/OS-II Idle''\<rparr>) s3) event_all"
    by (rule ev_lists_frame [OF \<open>ev_lists s3 event_all\<close>]) simp_all
  moreover have "task_lists (upd_tcb q (\<lambda>t. t\<lparr>OSTCBTaskName := ''uC/OS-II Idle''\<rparr>) s3) [q] ys"
    using s3(3) task_lists_view [of "upd_tcb q (\<lambda>t. t\<lparr>OSTCBTaskName := ''uC/OS-II Idle''\<rparr>) s3" s3] by simp
  ultimately show "os_inv dfr (OSInit ld s)" "\<not> OSRunning (OSInit ld s)" "ready (OSInit ld s) = {OS_TASK_IDLE_PRIO}"
    "OSIntNesting (OSInit ld s) = 0" "OSLockNesting (OSInit ld s) = 0" "ev_lists (OSInit ld s) event_all"
    "task_lists (OSInit ld s) [tcb_addr 0] (map tcb_addr [1..<11])"
    "OSTCBPrioTbl (OSInit ld s) = (\<lambda>_. NULL)(OS_TASK_IDLE_PRIO := tcb_addr 0)"
    using s3 boot_frame boot_ready(2) by (simp_all add: q_def ys_def)
qed

lemma OSStart_inv:
  assumes inv: "os_inv dfr s" and off: "\<not> OSRunning s"
  shows "os_inv dfr (OSStart s)" "OSRunning (OSStart s)" "OSPrioCur (OSStart s) = top_ready s"
    "OSTCBCur (OSStart s) = OSTCBPrioTbl s (top_ready s)"
proof -
  have high: "push_bit 3 (OSUnMap (OSRdyGrp s)) + OSUnMap (OSRdyTbl s (OSUnMap (OSRdyGrp s))) = top_ready s"
    by (simp add: top_ready_def bm_highest_def rdy_def Let_def)
  have sel: "OSRunning (OSStart s)" "OSPrioCur (OSStart s) = top_ready s"
    "OSTCBCur (OSStart s) = OSTCBPrioTbl s (top_ready s)" "core (OSStart s) = core s"
    "pool_view (OSStart s) = pool_view s" "OSEventFreeList (OSStart s) = OSEventFreeList s"
    "OSEventMem (OSStart s) = OSEventMem s"
    using off by (simp_all add: OSStart_def OSStartHighRdy_def OSCtxSw_def OS_SchedNew_def Let_def high
        core_def pool_view_def rdy_def)
  note top = top_ready [OF os_invD(4,5) [OF inv]]
  have "kernel_inv dfr (OSStart s)"
    unfolding kernel_inv_def task_inv_core [OF sel(4)] cur_inv_def sched_inv_def idle_inv_def core_eqD [OF sel(4)]
    using os_invD(4,5) [OF inv] ready_task [OF os_invD(4) [OF inv] top(1)] sel(2,3) top(1)
    by (simp add: idle_inv_def top_ready_def ready_def)
  then show "os_inv dfr (OSStart s)"
    by (rule os_inv_kernel [OF inv]) (simp_all add: sel core_eqD(4) [OF sel(4)])
  show "OSRunning (OSStart s)" "OSPrioCur (OSStart s) = top_ready s"
    "OSTCBCur (OSStart s) = OSTCBPrioTbl s (top_ready s)" using sel by simp_all
qed

end
