(* ===== verification/OS_Mutex_Frame.thy ===== *)
theory OS_Mutex_Frame
  imports OS_Mutex_Inv OS_Sem OS_Mbox OS_Q OS_Mem OS_Init_Inv
begin

text \<open>
  Every kernel call keeps the ceilings of the mutexes: the slots they reserve in the priority
  table stay reserved, and no two mutexes share one.
\<close>

section \<open>Primitives that change nothing a mutex depends on\<close>

definition mxv :: "os \<Rightarrow> (u8 \<Rightarrow> ptr) \<times> (ptr \<Rightarrow> u8 \<times> u16)" where
  "mxv s = (OSTCBPrioTbl s, \<lambda>e. (OSEventType (OSEventMem s e), OSEventCnt (OSEventMem s e)))"

lemma mxv_step: "mxv s' = mxv s \<Longrightarrow> mx_step s s'"
  by (simp add: mxv_def mx_step_def ev_type_def fun_eq_iff)

named_theorems mxv_frame

lemma mxv_upd [mxv_frame]:
  "mxv (upd_tcb q f s) = mxv s" "mxv (upd_mem m h s) = mxv s" "mxv (upd_q a k s) = mxv s" "mxv (set_rdy b s) = mxv s"
  "mxv (s\<lparr>OSEventFreeList := x1\<rparr>) = mxv s" "mxv (s\<lparr>OSQFreeList := x2\<rparr>) = mxv s"
  "mxv (s\<lparr>OSMemFreeList := x3\<rparr>) = mxv s" "mxv (s\<lparr>app_mem := x4\<rparr>) = mxv s"
  "mxv (s\<lparr>OSTCBFreeList := x5\<rparr>) = mxv s" "mxv (s\<lparr>OSTCBList := x6\<rparr>) = mxv s"
  "mxv (s\<lparr>OSTaskCtr := x7\<rparr>) = mxv s" "mxv (s\<lparr>OSTime := x8\<rparr>) = mxv s" "mxv (s\<lparr>OSIdleCtr := x9\<rparr>) = mxv s"
  "mxv (s\<lparr>OSIntNesting := x10\<rparr>) = mxv s" "mxv (s\<lparr>OSLockNesting := x11\<rparr>) = mxv s" "mxv (OS_Sched s) = mxv s"
  by (simp_all add: mxv_def)

lemma mxv_event [mxv_frame]:
  "mxv (upd_event e (\<lambda>v. set_ev_wait (w v) v) s) = mxv s" "mxv (upd_event e (\<lambda>v. v\<lparr>OSEventPtr := p v\<rparr>) s) = mxv s"
  "mxv (OS_EventWaitListInit e s) = mxv s"
  by (auto simp: mxv_def OS_EventWaitListInit_def)

lemma mxv_prims [mxv_frame]:
  "mxv (make_ready q s) = mxv s" "mxv (make_unready q s) = mxv s" "mxv (OS_EventTaskRemove q e s) = mxv s"
  "mxv (OS_EventTaskWait e s) = mxv s"
  "mxv (q_put a m s) = mxv s" "mxv (q_put_front a m s) = mxv s" "mxv (q_flush a s) = mxv s" "mxv (q_take s) = mxv s"
  "mxv (q_give a s) = mxv s" "mxv (q_free e s) = mxv s" "mxv (blk_take a s) = mxv s" "mxv (blk_give a b s) = mxv s"
  "mxv (tick_task q s) = mxv s" "mxv (del_links q s) = mxv s"
  by (simp_all add: make_ready_def make_unready_def OS_EventTaskRemove_def OS_EventTaskWait_def q_put_def
      q_put_front_def q_flush_def q_take_def q_give_def q_free_def blk_take_def blk_give_def tick_task_def
      del_links_def tcb_give_def tcb_unlink_def Let_def mxv_frame)

lemma mxv_rdy [mxv_frame]: "mxv (snd (OS_EventTaskRdy e m k ps s)) = mxv s"
  by (simp add: OS_EventTaskRdy_def Let_def mxv_frame)

lemma mxv_rdy_all [mxv_frame]: "mxv (snd (OS_EventRdyAll n e m k ps s)) = mxv s"
  by (induction n arbitrary: s) (simp_all add: split_beta mxv_frame)

lemma mxv_tick_loop [mxv_frame]: "mxv (tick_loop n q s) = mxv s"
  by (induction n arbitrary: q s) (simp_all add: Let_def mxv_frame)

lemma mxv_wait [mxv_frame]:
  "mxv (snd (q_get a s)) = mxv s" "mxv (snd (pend_wakeup e s)) = mxv s" "mxv (snd (pend_wakeup_msg e s)) = mxv s"
  "mxv (pend_block k n e s) = mxv s" "mxv (post_wake k e m opt s) = mxv s"
  "mxv (snd (snd (OS_EventPendAbort ty k e opt s))) = mxv s"
  by (simp_all add: q_get_def pend_wakeup_def pend_wakeup_msg_def pend_block_def post_wake_def OS_EventPendAbort_def
      Let_def split_beta mxv_frame)

lemma mxv_stk_init [mxv_frame]: "mxv (snd (OSTaskStkInit ld task arg ptos s)) = mxv s"
  by (simp add: OSTaskStkInit_def Let_def split_beta mxv_frame)

section \<open>Services that do not concern mutexes\<close>

lemma mxv_services:
  "mxv (OSIntEnter s) = mxv s" "mxv (OSSchedLock s) = mxv s" "mxv (OSSchedUnlock s) = mxv s"
  "mxv (OSTimeTick s) = mxv s" "mxv (OSTimeDly n s) = mxv s" "mxv (snd (OSTimeDlyHMSM h m sc ms s)) = mxv s"
  "mxv (OSTimeSet t s) = mxv s" "mxv (OS_TaskIdle_body s) = mxv s"
  "mxv (snd (OSTaskSuspend p s)) = mxv s" "mxv (snd (OSTaskResume p s)) = mxv s"
  "mxv (snd (OSTaskDelReq p s)) = mxv s" "mxv (snd (OSTaskNameSet p nm s)) = mxv s"
  "mxv (snd (OSMboxAccept e s)) = mxv s" "mxv (snd (OSMboxPost e msg s)) = mxv s"
  "mxv (snd (OSMboxPostOpt e msg opt s)) = mxv s" "mxv (snd (OSMboxPend_enter e n s)) = mxv s"
  "mxv (snd (OSQAccept e s)) = mxv s" "mxv (snd (OSQPost e msg s)) = mxv s" "mxv (snd (OSQPostFront e msg s)) = mxv s"
  "mxv (snd (OSQPostOpt e msg opt s)) = mxv s" "mxv (snd (OSQPend_enter e n s)) = mxv s" "mxv (snd (OSQFlush e s)) = mxv s"
  "mxv (snd (OSMemCreate a b sz s)) = mxv s"
  "mxv (snd (OSMemGet pm s)) = mxv s" "mxv (snd (OSMemPut pm blk s)) = mxv s" "mxv (snd (OSMemNameSet pm nm s)) = mxv s"
  by (simp_all add: OSIntEnter_def OSSchedLock_def OSSchedUnlock_def OSTimeTick_def OSTimeDly_def OSTimeDlyHMSM_def
      OSTimeSet_def OS_TaskIdle_body_def OSTaskSuspend_def OSTaskResume_def OSTaskDelReq_def OSTaskNameSet_def
      OSMboxAccept_def OSMboxPost_def OSMboxPostOpt_def OSMboxPend_enter_def OSQAccept_def OSQPost_def
      OSQPostFront_def OSQPostOpt_def OSQPend_enter_def OSQFlush_def OSMemCreate_def OSMemGet_def OSMemPut_def
      OSMemNameSet_def Let_def split_beta mxv_frame)

lemma mxv_exit: "OSRunning s \<Longrightarrow> mxv (OSIntExit s) = mxv s"
  by (simp add: OSIntExit_def mxv_def Let_def)

text \<open>An event that is not a mutex afterwards is free to change.\<close>

lemma mx_step_event:
  assumes "OSEventType (g (OSEventMem s e)) = OS_EVENT_TYPE_MUTEX \<Longrightarrow>
    ev_type s e = OS_EVENT_TYPE_MUTEX \<and> mutex_pcp (OSEventCnt (g (OSEventMem s e))) = ceiling s e"
  shows "mx_step s (upd_event e g s)"
  using assms by (auto simp: mx_step_def ev_type_def)

lemma mx_step_after: "mx_step s s1 \<Longrightarrow> mxv s' = mxv s1 \<Longrightarrow> mx_step s s'"
  using mx_step_trans mxv_step by blast

lemma mx_sem_services:
  "mx_step s (snd (OSSemAccept e s))" "mx_step s (snd (OSSemPost e s))" "mx_step s (snd (OSSemSet e c s))"
  "mx_step s (snd (OSSemPend_enter e n s))"
proof -
  have upd: "mx_step s (upd_event e (\<lambda>v. v\<lparr>OSEventCnt := f v\<rparr>) s)"
    if "OSEventType (OSEventMem s e) = OS_EVENT_TYPE_SEM" for f
    by (rule mx_step_event) (use that in simp)
  have same: "mxv s' = mxv s \<Longrightarrow> mx_step s s'" for s' by (rule mxv_step)
  show "mx_step s (snd (OSSemAccept e s))" "mx_step s (snd (OSSemPost e s))" "mx_step s (snd (OSSemSet e c s))"
    "mx_step s (snd (OSSemPend_enter e n s))"
    using upd by (auto simp: OSSemAccept_def OSSemPost_def OSSemSet_def OSSemPend_enter_def Let_def mxv_frame
        intro!: same)
qed

lemma mx_event_free: "mx_step s (event_free e s)"
  by (simp add: mx_step_def event_free_def ev_type_def)

lemma mx_event_del:
  assumes "\<And>s. mxv (r e s) = mxv s"
  shows "mx_step s (snd (snd (OS_EventDel ty k r e opt s)))"
proof -
  have free: "mx_step s (event_free e (r e s1))" if "mxv s1 = mxv s" for s1
    using mx_step_trans [OF mxv_step mx_event_free] assms that by simp
  then have "mx_step s (OS_Sched (event_free e (r e s1)))" if "mxv s1 = mxv s" for s1
    using that mx_step_after mxv_upd(16) by blast
  then show ?thesis using free by (simp add: OS_EventDel_def Let_def mxv_frame)
qed

lemma mx_event_create: "ty \<noteq> OS_EVENT_TYPE_MUTEX \<Longrightarrow> mx_step s (snd (event_create ty c p s))"
  by (simp add: mx_step_def event_create_def event_alloc_def OS_EventWaitListInit_def Let_def ev_type_def)

lemma mx_q_create: "mx_step s (snd (OSQCreate a n s))"
  by (simp add: mx_step_def OSQCreate_def event_alloc_def q_take_def OS_EventWaitListInit_def Let_def ev_type_def)

section \<open>Services that change the priority table\<close>

lemma mx_slots:
  assumes "\<And>p. OSTCBPrioTbl s p = OS_TCB_RESERVED \<Longrightarrow> OSTCBPrioTbl s' p = OS_TCB_RESERVED"
    and "\<And>e. OSEventType (OSEventMem s' e) = OSEventType (OSEventMem s e)"
    and "\<And>e. OSEventCnt (OSEventMem s' e) = OSEventCnt (OSEventMem s e)"
  shows "mx_step s s'"
  using assms by (simp add: mx_step_def ev_type_def)

lemma mxv_sel:
  assumes "mxv s' = mxv s"
  shows "OSTCBPrioTbl s' = OSTCBPrioTbl s" "OSEventType (OSEventMem s' e) = OSEventType (OSEventMem s e)"
    "OSEventCnt (OSEventMem s' e) = OSEventCnt (OSEventMem s e)"
  using assms by (simp_all add: mxv_def fun_eq_iff)

lemma mx_task_create: "mx_step s (snd (OSTaskCreate ld task arg ptos p s))"
proof (cases "OSIntNesting s > 0 \<or> OSTCBPrioTbl s p \<noteq> NULL")
  case True
  then show ?thesis by (auto simp: OSTaskCreate_def)
next
  case False
  obtain m where m: "snd (OSTaskStkInit ld task arg ptos (s\<lparr>OSTCBPrioTbl := (OSTCBPrioTbl s)(p := 1)\<rparr>))
      = s\<lparr>OSTCBPrioTbl := (OSTCBPrioTbl s)(p := 1), app_mem := m\<rparr>" using OSTaskStkInit_app by blast
  have ev: "OSEventMem (snd (OSTaskCreate ld task arg ptos p s)) = OSEventMem s"
    using m by (simp add: OSTaskCreate_def OS_TCBInit_def Let_def split_beta make_ready_def)
  have "OSTCBPrioTbl (snd (OSTaskCreate ld task arg ptos p s)) r = OSTCBPrioTbl s r" if "r \<noteq> p" for r
    using m that by (simp add: OSTaskCreate_def OS_TCBInit_def Let_def split_beta make_ready_def)
  note slots = this
  have "OSTCBPrioTbl (snd (OSTaskCreate ld task arg ptos p s)) r = OS_TCB_RESERVED"
    if "OSTCBPrioTbl s r = OS_TCB_RESERVED" for r
    using slots [of r] that False by (cases "r = p") auto
  then show ?thesis by (rule mx_slots) (simp_all add: ev)
qed

lemma del_data_mx:
  "OSTCBPrioTbl (del_links q (del_data p q s)) = (OSTCBPrioTbl s)(p := NULL)"
  "OSEventType (OSEventMem (del_links q (del_data p q s)) e) = OSEventType (OSEventMem s e)"
  "OSEventCnt (OSEventMem (del_links q (del_data p q s)) e) = OSEventCnt (OSEventMem s e)"
proof -
  have ty: "OSEventType (OSEventMem (OS_EventTaskRemove q x t) e) = OSEventType (OSEventMem t e)" for x t
    using mxv_sel(2) [of "OS_EventTaskRemove q x t" t] by (simp add: mxv_frame)
  have "OSTCBPrioTbl (del_data p q s) = (OSTCBPrioTbl s)(p := NULL)"
    "OSEventType (OSEventMem (del_data p q s) e) = OSEventType (OSEventMem s e)"
    "OSEventCnt (OSEventMem (del_data p q s) e) = OSEventCnt (OSEventMem s e)"
    by (simp_all add: del_data_def Let_def make_unready_def ty)
  moreover have "mxv (del_links q (del_data p q s)) = mxv (del_data p q s)" by (simp add: mxv_frame)
  note mxv_sel [OF this]
  ultimately show "OSTCBPrioTbl (del_links q (del_data p q s)) = (OSTCBPrioTbl s)(p := NULL)"
    "OSEventType (OSEventMem (del_links q (del_data p q s)) e) = OSEventType (OSEventMem s e)"
    "OSEventCnt (OSEventMem (del_links q (del_data p q s)) e) = OSEventCnt (OSEventMem s e)"
    by simp_all
qed

lemma mx_task_del: "mx_step s (snd (OSTaskDel p s))"
proof -
  have d: "mx_step s (del_links q (del_data r q s))" if "OSTCBPrioTbl s r \<noteq> OS_TCB_RESERVED" for q r
    by (rule mx_slots) (use that in \<open>auto simp: del_data_mx\<close>)
  have "mx_step s (OS_Sched (del_links q (del_data r q s)))" if "OSTCBPrioTbl s r \<noteq> OS_TCB_RESERVED" for q r
    by (rule mx_step_after [OF d [OF that] mxv_upd(16)])
  with d show ?thesis by (simp add: OSTaskDel_def Let_def)
qed

lemma mx_chprio: "mx_step s (snd (OSTaskChangePrio old r s))"
proof -
  define p where "p = (if old = OS_PRIO_SELF then OSTCBPrio (OSTCBMem s (OSTCBCur s)) else old)"
  let ?q = "OSTCBPrioTbl s p"
  let ?s1 = "s\<lparr>OSTCBPrioTbl := (OSTCBPrioTbl s)(p := NULL, r := ?q)\<rparr>"
  note eq = OSTaskChangePrio_def [of old r s, folded p_def] Let_def
  consider "OSTCBPrioTbl s r \<noteq> NULL" | "?q = NULL" | "?q = OS_TCB_RESERVED"
    | "OSTCBPrioTbl s r = NULL" "?q \<noteq> NULL" "?q \<noteq> OS_TCB_RESERVED" by blast
  then show ?thesis
  proof cases
    case 4
    have "mx_step s ?s1" by (rule mx_slots) (use 4 in auto)
    moreover have "mxv (snd (OSTaskChangePrio old r s)) = mxv ?s1" using 4 by (simp add: eq mxv_frame)
    ultimately show ?thesis by (rule mx_step_after)
  qed (simp_all add: eq)
qed

section \<open>Mutexes\<close>

lemma mx_acquire: "ev_type s e = OS_EVENT_TYPE_MUTEX \<Longrightarrow> mx_step s (snd (mutex_acquire e s))"
  unfolding mutex_acquire_def Let_def snd_conv by (rule mx_step_event) simp

lemma mx_mutex_accept: "mx_step s (snd (snd (OSMutexAccept e s)))"
  using mx_acquire [of s e] by (simp add: OSMutexAccept_def ev_type_def)

lemma mx_mutex_pend: "\<not> raises e s \<Longrightarrow> mx_step s (snd (OSMutexPend_enter e n s))"
proof -
  assume nr: "\<not> raises e s"
  have "mutex_inherit e s = s"
    if "ev_type s e = OS_EVENT_TYPE_MUTEX" "mutex_prio (OSEventCnt (OSEventMem s e)) \<noteq> 0xFF"
    using nr that by (auto simp: mutex_inherit_def raises_def Let_def)
  then show ?thesis
    using mx_acquire [of s e] mxv_step [of "pend_block OS_STAT_MUTEX n e s" s]
    by (simp add: OSMutexPend_enter_def ev_type_def split_beta mxv_frame)
qed

lemma mx_mutex_post:
  assumes inv: "os_inv dfr s" and mx: "mx_inv s" and run: "OSRunning s" and e: "e \<in> events"
  shows "mx_step s (snd (OSMutexPost e s))"
proof (cases "OSIntNesting s = 0 \<and> ev_type s e = OS_EVENT_TYPE_MUTEX \<and> OSTCBCur s = OSEventPtr (OSEventMem s e)")
  case True
  let ?w = "OS_Sched (snd (OS_EventTaskRdy e NULL OS_STAT_MUTEX OS_STAT_PEND_OK s))"
  have w: "mxv ?w = mxv s" by (simp add: mxv_frame)
  have "mx_step ?w (upd_event e (\<lambda>v. v\<lparr>OSEventCnt := mutex_set_prio p (OSEventCnt v), OSEventPtr := x\<rparr>) ?w)" for p x
    by (rule mx_step_event) (simp add: ev_type_def)
  then have 1: "mx_step s (upd_event e (\<lambda>v. v\<lparr>OSEventCnt := mutex_set_prio p (OSEventCnt v), OSEventPtr := x\<rparr>) ?w)" for p x
    using mx_step_trans [OF mxv_step [OF w]] by blast
  have 2: "mx_step s (upd_event e (\<lambda>v. v\<lparr>OSEventCnt := OSEventCnt v OR OS_MUTEX_AVAILABLE, OSEventPtr := NULL\<rparr>) s)"
    by (rule mx_step_event) (simp add: ev_type_def mutex_release)
  show ?thesis using 1 2 True OSMutexPost_eq [OF inv mx run e] by (simp add: split_beta)
next
  case False
  then show ?thesis using OSMutexPost_refused [OF False] by simp
qed

lemma mx_inv_mxv: "mx_inv s \<Longrightarrow> mxv s' = mxv s \<Longrightarrow> mx_inv s'"
  using mx_inv_step mxv_step by blast

lemma mx_mutex_create:
  assumes inv: "os_inv dfr s" and mx: "mx_inv s" and p: "p < 64 \<or> p = OS_PRIO_MUTEX_CEIL_DIS"
  shows "mx_inv (snd (snd (OSMutexCreate p s)))"
proof (cases "OSIntNesting s > 0 \<or> p \<noteq> OS_PRIO_MUTEX_CEIL_DIS \<and> OSTCBPrioTbl s p \<noteq> NULL \<or> OSEventFreeList s = NULL")
  case True
  then have "mxv (snd (snd (OSMutexCreate p s))) = mxv s"
    by (auto simp: OSMutexCreate_def mxv_def Let_def)
  then show ?thesis by (rule mx_inv_mxv [OF mx])
next
  case False
  let ?e = "OSEventFreeList s" and ?s = "snd (snd (OSMutexCreate p s))"
  obtain fs where "ev_lists s fs" using os_invD(3) [OF inv] by (auto simp: ev_inv_def)
  then have e: "ev_type s ?e = OS_EVENT_TYPE_UNUSED" using False by (cases fs) (auto simp: ev_lists_def)
  have none: "mutex_pcp 65535 = 255" by (simp add: mutex_pcp_def)
  have new: "ev_type ?s x = (if x = ?e then OS_EVENT_TYPE_MUTEX else ev_type s x)"
    "ceiling ?s x = (if x = ?e then p else ceiling s x)"
    "OSTCBPrioTbl ?s = (if p \<noteq> OS_PRIO_MUTEX_CEIL_DIS then (OSTCBPrioTbl s)(p := OS_TCB_RESERVED) else OSTCBPrioTbl s)" for x
    using False by (auto simp: OSMutexCreate_def Let_def ev_type_def OS_EventWaitListInit_def mutex_new none)
  have slot: "OSTCBPrioTbl s (ceiling s x) = OS_TCB_RESERVED" "ceiling s x < 64"
    if "x \<in> events" "ev_type s x = OS_EVENT_TYPE_MUTEX" "ceiling s x \<noteq> OS_PRIO_MUTEX_CEIL_DIS" for x
    using mx_invD(1,2) [OF mx that] by blast+
  have other: "ceiling s x \<noteq> p"
    if "x \<in> events" "ev_type s x = OS_EVENT_TYPE_MUTEX" "p \<noteq> OS_PRIO_MUTEX_CEIL_DIS" for x
    using slot [of x] that False by auto
  show ?thesis
    unfolding mx_inv_def
  proof (intro ballI impI conjI)
    fix x assume x: "x \<in> events" and m: "ev_type ?s x = OS_EVENT_TYPE_MUTEX \<and> ceiling ?s x \<noteq> OS_PRIO_MUTEX_CEIL_DIS"
    show "ceiling ?s x < 64" using m p slot(2) [OF x] by (auto simp: new split: if_splits)
    show "OSTCBPrioTbl ?s (ceiling ?s x) = OS_TCB_RESERVED"
      using m slot(1) [OF x] by (auto simp: new split: if_splits)
    show "y = x" if "y \<in> events" "ev_type ?s y = OS_EVENT_TYPE_MUTEX \<and> ceiling ?s y = ceiling ?s x" for y
      using that x m other mx_invD(3) [OF mx x] by (auto simp: new split: if_splits)
  qed
qed

lemma mx_mutex_free:
  assumes mx: "mx_inv s" and e: "e \<in> events" "ev_type s e = OS_EVENT_TYPE_MUTEX"
  shows "mx_inv (mutex_free e s)"
proof -
  let ?s = "mutex_free e s"
  have new: "ev_type ?s x = (if x = e then OS_EVENT_TYPE_UNUSED else ev_type s x)"
    "x \<noteq> e \<Longrightarrow> ceiling ?s x = ceiling s x"
    "OSTCBPrioTbl ?s = (if ceiling s e \<noteq> OS_PRIO_MUTEX_CEIL_DIS then (OSTCBPrioTbl s)(ceiling s e := NULL)
      else OSTCBPrioTbl s)" for x
    by (simp_all add: mutex_free_eq)
  have ne: "x \<noteq> e" if "ev_type ?s x = OS_EVENT_TYPE_MUTEX" for x using that by (auto simp: new)
  show ?thesis
    unfolding mx_inv_def
  proof (intro ballI impI conjI)
    fix x assume x: "x \<in> events" and m: "ev_type ?s x = OS_EVENT_TYPE_MUTEX \<and> ceiling ?s x \<noteq> OS_PRIO_MUTEX_CEIL_DIS"
    have xe: "x \<noteq> e" using m ne by blast
    then have old: "ev_type s x = OS_EVENT_TYPE_MUTEX" "ceiling s x \<noteq> OS_PRIO_MUTEX_CEIL_DIS" using m by (simp_all add: new)
    have d: "ceiling s x \<noteq> ceiling s e" using mx_invD(3) [OF mx x old e(1)] e(2) xe by metis
    show "ceiling ?s x < 64" "OSTCBPrioTbl ?s (ceiling ?s x) = OS_TCB_RESERVED"
      using mx_invD(1,2) [OF mx x old] d xe by (simp_all add: new)
    show "y = x" if "y \<in> events" "ev_type ?s y = OS_EVENT_TYPE_MUTEX \<and> ceiling ?s y = ceiling ?s x" for y
    proof -
      have ye: "y \<noteq> e" using ne that(2) by blast
      then have "ev_type s y = OS_EVENT_TYPE_MUTEX" "ceiling s y = ceiling s x"
        using that(2) xe by (simp_all add: new(1) new(2))
      then show ?thesis by (rule mx_invD(3) [OF mx x old that(1)])
    qed
  qed
qed

lemma mx_mutex_del:
  assumes mx: "mx_inv s" and e: "e \<in> events" and nr: "\<not> raised e s"
  shows "mx_inv (snd (snd (OSMutexDel e opt s)))"
proof (cases "ev_type s e = OS_EVENT_TYPE_MUTEX")
  case True
  let ?a = "snd (OS_EventRdyAll 64 e NULL OS_STAT_MUTEX OS_STAT_PEND_ABORT s)"
  have "mx_inv (mutex_free e ?a)"
    by (rule mx_mutex_free [OF mx_inv_mxv [OF mx] e]) (use True in \<open>simp_all add: mxv_frame\<close>)
  then have "mx_inv (OS_Sched (mutex_free e ?a))" by (rule mx_inv_mxv) (simp add: mxv_frame)
  then show ?thesis using mx_mutex_free [OF mx e True] mx by (simp add: OSMutexDel_eq [OF nr])
next
  case False
  then show ?thesis using mx by (simp add: OSMutexDel_eq [OF nr])
qed

end
