(* ===== verification/OS_Reach.thy ===== *)
theory OS_Reach
  imports OS_Mutex_Frame
begin

text \<open>
  The kernel as a state machine: one step is one kernel call (or one interrupt hook) by the
  current task or an interrupt handler, a blocking call being two steps, one up to the switch
  away from the caller and one from its return on. The side conditions of a step are the
  documented obligations of the caller; the invariant of \<open>OS_Event_Inv\<close> holds in every
  reachable state.
\<close>

section \<open>Calls\<close>

datatype os_call =
    C_Start
  | C_IntEnter | C_IntExit | C_Tick | C_SchedLock | C_SchedUnlock | C_Idle
  | C_TimeDly u32 | C_TimeDlyHMSM u8 u8 u8 u16 | C_TimeSet u32
  | C_TaskCreate link_addrs ptr ptr ptr u8 | C_TaskDel u8 | C_TaskDelReq u8
  | C_TaskSuspend u8 | C_TaskResume u8 | C_TaskChangePrio u8 u8 | C_TaskNameSet u8 string
  | C_SemCreate u16 | C_SemDel ptr u8 | C_SemPend ptr u32 | C_SemAccept ptr | C_SemPost ptr
  | C_SemPendAbort ptr u8 | C_SemSet ptr u16
  | C_MboxCreate ptr | C_MboxDel ptr u8 | C_MboxPend ptr u32 | C_MboxAccept ptr
  | C_MboxPost ptr ptr | C_MboxPostOpt ptr ptr u8 | C_MboxPendAbort ptr u8
  | C_QCreate ptr u16 | C_QDel ptr u8 | C_QPend ptr u32 | C_QAccept ptr | C_QFlush ptr
  | C_QPost ptr ptr | C_QPostFront ptr ptr | C_QPostOpt ptr ptr u8 | C_QPendAbort ptr u8
  | C_MutexCreate u8 | C_MutexDel ptr u8 | C_MutexPend ptr u32 | C_MutexAccept ptr | C_MutexPost ptr
  | C_Resume ptr | C_ResumeMsg ptr
  | C_MemCreate ptr u32 u32 | C_MemGet ptr | C_MemPut ptr ptr | C_MemNameSet ptr string

fun exec :: "os_call \<Rightarrow> os \<Rightarrow> os" where
  "exec C_Start s = OSStart s"
| "exec C_IntEnter s = OSIntEnter s"
| "exec C_IntExit s = OSIntExit s"
| "exec C_Tick s = OSTimeTick s"
| "exec C_SchedLock s = OSSchedLock s"
| "exec C_SchedUnlock s = OSSchedUnlock s"
| "exec C_Idle s = OS_TaskIdle_body s"
| "exec (C_TimeDly n) s = OSTimeDly n s"
| "exec (C_TimeDlyHMSM h m sec ms) s = snd (OSTimeDlyHMSM h m sec ms s)"
| "exec (C_TimeSet n) s = OSTimeSet n s"
| "exec (C_TaskCreate ld task arg ptos prio) s = snd (OSTaskCreate ld task arg ptos prio s)"
| "exec (C_TaskDel prio) s = snd (OSTaskDel prio s)"
| "exec (C_TaskDelReq prio) s = snd (OSTaskDelReq prio s)"
| "exec (C_TaskSuspend prio) s = snd (OSTaskSuspend prio s)"
| "exec (C_TaskResume prio) s = snd (OSTaskResume prio s)"
| "exec (C_TaskChangePrio old new) s = snd (OSTaskChangePrio old new s)"
| "exec (C_TaskNameSet prio n) s = snd (OSTaskNameSet prio n s)"
| "exec (C_SemCreate cnt) s = snd (OSSemCreate cnt s)"
| "exec (C_SemDel e opt) s = snd (snd (OSSemDel e opt s))"
| "exec (C_SemPend e n) s = snd (OSSemPend_enter e n s)"
| "exec (C_SemAccept e) s = snd (OSSemAccept e s)"
| "exec (C_SemPost e) s = snd (OSSemPost e s)"
| "exec (C_SemPendAbort e opt) s = snd (snd (OSSemPendAbort e opt s))"
| "exec (C_SemSet e cnt) s = snd (OSSemSet e cnt s)"
| "exec (C_MboxCreate m) s = snd (OSMboxCreate m s)"
| "exec (C_MboxDel e opt) s = snd (snd (OSMboxDel e opt s))"
| "exec (C_MboxPend e n) s = snd (OSMboxPend_enter e n s)"
| "exec (C_MboxAccept e) s = snd (OSMboxAccept e s)"
| "exec (C_MboxPost e m) s = snd (OSMboxPost e m s)"
| "exec (C_MboxPostOpt e m opt) s = snd (OSMboxPostOpt e m opt s)"
| "exec (C_MboxPendAbort e opt) s = snd (snd (OSMboxPendAbort e opt s))"
| "exec (C_QCreate start n) s = snd (OSQCreate start n s)"
| "exec (C_QDel e opt) s = snd (snd (OSQDel e opt s))"
| "exec (C_QPend e n) s = snd (OSQPend_enter e n s)"
| "exec (C_QAccept e) s = snd (OSQAccept e s)"
| "exec (C_QFlush e) s = snd (OSQFlush e s)"
| "exec (C_QPost e m) s = snd (OSQPost e m s)"
| "exec (C_QPostFront e m) s = snd (OSQPostFront e m s)"
| "exec (C_QPostOpt e m opt) s = snd (OSQPostOpt e m opt s)"
| "exec (C_QPendAbort e opt) s = snd (snd (OSQPendAbort e opt s))"
| "exec (C_MutexCreate prio) s = snd (snd (OSMutexCreate prio s))"
| "exec (C_MutexDel e opt) s = snd (snd (OSMutexDel e opt s))"
| "exec (C_MutexPend e n) s = snd (OSMutexPend_enter e n s)"
| "exec (C_MutexAccept e) s = snd (snd (OSMutexAccept e s))"
| "exec (C_MutexPost e) s = snd (OSMutexPost e s)"
| "exec (C_Resume e) s = snd (OSSemPend_resume e s)"
| "exec (C_ResumeMsg e) s = snd (OSQPend_resume e s)"
| "exec (C_MemCreate addr n sz) s = snd (OSMemCreate addr n sz s)"
| "exec (C_MemGet p) s = snd (OSMemGet p s)"
| "exec (C_MemPut p b) s = snd (OSMemPut p b s)"
| "exec (C_MemNameSet p n) s = snd (OSMemNameSet p n s)"

text \<open>
  The caller's obligations. Event arguments point into \<open>OSEventTbl\<close> and priorities are below
  64, \<open>OS_PRIO_SELF\<close> or (of a mutex) \<open>OS_PRIO_MUTEX_CEIL_DIS\<close>: \<open>OS_ARG_CHK_EN\<close> is 0, the
  code does not check them. The idle task neither blocks nor is suspended or renumbered; the
  current task is not deleted or renumbered under a scheduler lock or from an interrupt handler;
  before \<open>OSStart\<close> objects are only created. Priority inheritance does not act: no task blocks
  on a mutex whose owner that would raise, and no mutex is deleted whose owner runs at its
  ceiling; mutexes without a ceiling, and those with one as long as nobody more urgent than the
  owner blocks on them, are covered. A raised owner breaks the agreement of the kernel's tables,
  which \<open>OS_Mutex_Props\<close> shows.
\<close>

definition prio_arg :: "u8 \<Rightarrow> bool" where
  "prio_arg p \<longleftrightarrow> p = OS_PRIO_SELF \<or> p < 64"

definition not_idle :: "u8 \<Rightarrow> os \<Rightarrow> bool" where
  "not_idle p s \<longleftrightarrow> p \<noteq> OS_TASK_IDLE_PRIO \<and> (p = OS_PRIO_SELF \<longrightarrow> OSPrioCur s \<noteq> OS_TASK_IDLE_PRIO)"

definition not_self :: "u8 \<Rightarrow> os \<Rightarrow> bool" where
  "not_self p s \<longleftrightarrow> p \<noteq> OS_PRIO_SELF \<and> p \<noteq> OSPrioCur s"

fun allowed :: "os_call \<Rightarrow> os \<Rightarrow> bool" where
  "allowed C_Start s \<longleftrightarrow> True"
| "allowed C_Tick s \<longleftrightarrow> OSRunning s \<and> OSIntNesting s \<noteq> 0"
| "allowed (C_TimeDly n) s \<longleftrightarrow> may_block s"
| "allowed (C_TimeDlyHMSM h m sec ms) s \<longleftrightarrow> may_block s"
| "allowed (C_TaskCreate ld task arg ptos prio) s \<longleftrightarrow> prio < 64"
| "allowed (C_TaskDel prio) s \<longleftrightarrow> OSRunning s \<and> prio_arg prio
     \<and> (prio = OS_PRIO_SELF \<longrightarrow> OSPrioCur s \<noteq> OS_TASK_IDLE_PRIO) \<and> (OSLockNesting s = 0 \<or> not_self prio s)"
| "allowed (C_TaskSuspend prio) s \<longleftrightarrow> OSRunning s \<and> prio_arg prio \<and> not_idle prio s"
| "allowed (C_TaskResume prio) s \<longleftrightarrow> OSRunning s \<and> prio < 64"
| "allowed (C_TaskChangePrio old new) s \<longleftrightarrow> OSRunning s \<and> prio_arg old \<and> new < 64 \<and> not_idle old s
     \<and> (OSIntNesting s = 0 \<and> OSLockNesting s = 0 \<or> not_self old s)"
| "allowed (C_SemCreate cnt) s \<longleftrightarrow> True"
| "allowed (C_MboxCreate m) s \<longleftrightarrow> True"
| "allowed (C_QCreate start n) s \<longleftrightarrow> True"
| "allowed (C_MemCreate addr n sz) s \<longleftrightarrow> True"
| "allowed (C_SemDel e opt) s \<longleftrightarrow> OSRunning s \<and> e \<in> events"
| "allowed (C_MboxDel e opt) s \<longleftrightarrow> OSRunning s \<and> e \<in> events"
| "allowed (C_QDel e opt) s \<longleftrightarrow> OSRunning s \<and> e \<in> events"
| "allowed (C_SemPend e n) s \<longleftrightarrow> may_block s \<and> e \<in> events"
| "allowed (C_MboxPend e n) s \<longleftrightarrow> may_block s \<and> e \<in> events"
| "allowed (C_QPend e n) s \<longleftrightarrow> may_block s \<and> e \<in> events"
| "allowed (C_Resume e) s \<longleftrightarrow> may_resume e s \<and> e \<in> events"
| "allowed (C_ResumeMsg e) s \<longleftrightarrow> may_resume e s \<and> e \<in> events"
| "allowed (C_SemAccept e) s \<longleftrightarrow> OSRunning s \<and> e \<in> events"
| "allowed (C_SemPost e) s \<longleftrightarrow> OSRunning s \<and> e \<in> events"
| "allowed (C_SemPendAbort e opt) s \<longleftrightarrow> OSRunning s \<and> e \<in> events"
| "allowed (C_SemSet e cnt) s \<longleftrightarrow> OSRunning s \<and> e \<in> events"
| "allowed (C_MboxAccept e) s \<longleftrightarrow> OSRunning s \<and> e \<in> events"
| "allowed (C_MboxPost e m) s \<longleftrightarrow> OSRunning s \<and> e \<in> events"
| "allowed (C_MboxPostOpt e m opt) s \<longleftrightarrow> OSRunning s \<and> e \<in> events"
| "allowed (C_MboxPendAbort e opt) s \<longleftrightarrow> OSRunning s \<and> e \<in> events"
| "allowed (C_QAccept e) s \<longleftrightarrow> OSRunning s \<and> e \<in> events"
| "allowed (C_QFlush e) s \<longleftrightarrow> OSRunning s \<and> e \<in> events"
| "allowed (C_QPost e m) s \<longleftrightarrow> OSRunning s \<and> e \<in> events"
| "allowed (C_QPostFront e m) s \<longleftrightarrow> OSRunning s \<and> e \<in> events"
| "allowed (C_QPostOpt e m opt) s \<longleftrightarrow> OSRunning s \<and> e \<in> events"
| "allowed (C_QPendAbort e opt) s \<longleftrightarrow> OSRunning s \<and> e \<in> events"
| "allowed (C_MutexCreate prio) s \<longleftrightarrow> prio < 64 \<or> prio = OS_PRIO_MUTEX_CEIL_DIS"
| "allowed (C_MutexDel e opt) s \<longleftrightarrow> OSRunning s \<and> e \<in> events \<and> \<not> raised e s"
| "allowed (C_MutexPend e n) s \<longleftrightarrow> may_block s \<and> e \<in> events \<and> \<not> raises e s"
| "allowed (C_MutexAccept e) s \<longleftrightarrow> OSRunning s \<and> e \<in> events"
| "allowed (C_MutexPost e) s \<longleftrightarrow> OSRunning s \<and> e \<in> events"
| "allowed _ s \<longleftrightarrow> OSRunning s"

text \<open>
  The second argument of \<open>reachable\<close> says that a post with \<open>OS_POST_OPT_NO_SCHED\<close> may have
  left a task ready that is more urgent than the current one; the next interrupt reschedules.
\<close>

fun deferred :: "os_call \<Rightarrow> bool \<Rightarrow> bool" where
  "deferred C_IntExit d = False"
| "deferred (C_MboxPostOpt e m opt) d = (d \<or> opt AND OS_POST_OPT_NO_SCHED \<noteq> 0)"
| "deferred (C_QPostOpt e m opt) d = (d \<or> opt AND OS_POST_OPT_NO_SCHED \<noteq> 0)"
| "deferred _ d = d"

inductive reachable :: "link_addrs \<Rightarrow> bool \<Rightarrow> os \<Rightarrow> bool" for ld where
  init: "reachable ld False (OSInit ld s0)"
| step: "reachable ld d s \<Longrightarrow> allowed c s \<Longrightarrow> reachable ld (deferred c d) (exec c s)"

text \<open>A run of several calls, stopping at one that is not allowed.\<close>

fun run :: "os_call list \<Rightarrow> os \<Rightarrow> os option" where
  "run [] s = Some s"
| "run (c # cs) s = (if allowed c s then run cs (exec c s) else None)"

lemma reachable_run: "reachable ld d s \<Longrightarrow> run cs s = Some s' \<Longrightarrow> reachable ld (fold deferred cs d) s'"
  by (induction cs arbitrary: s d) (auto split: if_splits intro: reachable.step)

section \<open>Every allowed call keeps the invariant\<close>

lemma quiet_skip: "quiet (\<lambda>e s. s)"
  by (simp add: quiet_def)

lemma quiet_q_free: "quiet q_free"
  by (simp add: quiet_def q_free_def q_give_def)

lemma core_more [simp]:
  "core (s\<lparr>OSEventFreeList := x\<rparr>) = core s" "core (q_take s) = core s"
  by (simp_all add: core_def rdy_def q_take_def)

lemma q_ops_view [simp]:
  "core (snd (q_get a s)) = core s" "core (q_put a m s) = core s" "core (q_put_front a m s) = core s"
  "core (q_flush a s) = core s"
  "pool_view (snd (q_get a s)) = pool_view s" "pool_view (q_put a m s) = pool_view s"
  "pool_view (q_put_front a m s) = pool_view s" "pool_view (q_flush a s) = pool_view s"
  "OSEventMem (snd (q_get a s)) = OSEventMem s" "OSEventMem (q_put a m s) = OSEventMem s"
  "OSEventMem (q_put_front a m s) = OSEventMem s" "OSEventMem (q_flush a s) = OSEventMem s"
  "OSEventFreeList (snd (q_get a s)) = OSEventFreeList s" "OSEventFreeList (q_put a m s) = OSEventFreeList s"
  "OSEventFreeList (q_put_front a m s) = OSEventFreeList s" "OSEventFreeList (q_flush a s) = OSEventFreeList s"
  by (simp_all add: q_get_def q_put_def q_put_front_def q_flush_def Let_def)

lemma q_ops_ctl [simp]:
  "OSTCBCur (snd (q_get a s)) = OSTCBCur s" "OSPrioCur (snd (q_get a s)) = OSPrioCur s"
  "OSRunning (snd (q_get a s)) = OSRunning s" "OSIntNesting (snd (q_get a s)) = OSIntNesting s"
  "OSLockNesting (snd (q_get a s)) = OSLockNesting s"
  "OSTCBCur (q_put a m s) = OSTCBCur s" "OSPrioCur (q_put a m s) = OSPrioCur s"
  "OSRunning (q_put a m s) = OSRunning s" "OSIntNesting (q_put a m s) = OSIntNesting s"
  "OSLockNesting (q_put a m s) = OSLockNesting s"
  "OSTCBCur (q_put_front a m s) = OSTCBCur s" "OSPrioCur (q_put_front a m s) = OSPrioCur s"
  "OSRunning (q_put_front a m s) = OSRunning s" "OSIntNesting (q_put_front a m s) = OSIntNesting s"
  "OSLockNesting (q_put_front a m s) = OSLockNesting s"
  "OSTCBCur (q_flush a s) = OSTCBCur s" "OSPrioCur (q_flush a s) = OSPrioCur s"
  "OSRunning (q_flush a s) = OSRunning s" "OSIntNesting (q_flush a s) = OSIntNesting s"
  "OSLockNesting (q_flush a s) = OSLockNesting s"
  by (simp_all add: q_get_def q_put_def q_put_front_def q_flush_def Let_def)

lemma q_ops_inv:
  assumes "os_inv dfr s"
  shows "os_inv dfr (snd (q_get a s))" "os_inv dfr (q_put a m s)" "os_inv dfr (q_put_front a m s)" "os_inv dfr (q_flush a s)"
  by (rule os_inv_upd [OF assms]; simp)+

text \<open>Updating the count or the message of an event in use.\<close>

lemma event_upd_inv:
  assumes "os_inv dfr s" "ev_type s e \<noteq> OS_EVENT_TYPE_UNUSED"
  shows "os_inv dfr (upd_event e (\<lambda>v. v\<lparr>OSEventCnt := f v\<rparr>) s)"
    "os_inv dfr (upd_event e (\<lambda>v. v\<lparr>OSEventPtr := g v\<rparr>) s)"
  using assms(2) by (intro os_inv_upd [OF assms(1)]; auto simp: event_core_upd ev_type_def)+

lemma ctl_inv:
  assumes inv: "os_inv dfr s" and view: "core s' = core s" "pool_view s' = pool_view s"
    and ctl: "OSTCBCur s' = OSTCBCur s" "OSPrioCur s' = OSPrioCur s" "OSRunning s' = OSRunning s"
    and ev: "OSEventFreeList s' = OSEventFreeList s" "OSEventMem s' = OSEventMem s"
  shows "os_inv dfr' (OS_Sched s')" "OSIntNesting s' \<noteq> 0 \<or> OSLockNesting s' \<noteq> 0 \<Longrightarrow> os_inv dfr s'"
proof -
  have t: "task_inv s'" using os_invD(4) [OF inv] task_inv_core [OF view(1)] by simp
  have d: "idle_inv s'" using os_invD(5) [OF inv] core_eqD(6) [OF view(1)] by (simp add: idle_inv_def)
  have c: "cur_inv s'" by (rule cur_inv_frame [OF ctl(3,1,2) core_eqD(1) [OF view(1)] os_invD(6) [OF inv]])
  have "kernel_inv dfr' (OS_Sched s')" by (rule OS_Sched_inv [OF t d disjI1 [OF c]])
  then show "os_inv dfr' (OS_Sched s')"
    by (rule os_inv_kernel [OF inv]) (simp_all add: view ev core_eqD(4) [OF view(1)])
  show "os_inv dfr s'" if "OSIntNesting s' \<noteq> 0 \<or> OSLockNesting s' \<noteq> 0"
  proof (rule os_inv_kernel [OF inv])
    show "kernel_inv dfr s'" using t d c that by (auto simp: kernel_inv_def sched_inv_def)
  qed (simp_all add: view ev core_eqD(4) [OF view(1)])
qed

lemma inc_nonzero: "(x :: u8) < 255 \<Longrightarrow> x + 1 \<noteq> 0"
  by (auto simp: word_less_nat_alt word_unat_eq_iff unat_word_ariths)

lemma OSIntEnter_inv: "os_inv dfr s \<Longrightarrow> os_inv dfr (OSIntEnter s)"
  using ctl_inv(2) [where s = s and s' = "s\<lparr>OSIntNesting := OSIntNesting s + 1\<rparr>"] inc_nonzero
  by (auto simp: OSIntEnter_def)

lemma OSSchedLock_inv: "os_inv dfr s \<Longrightarrow> os_inv dfr (OSSchedLock s)"
  using ctl_inv(2) [where s = s and s' = "s\<lparr>OSLockNesting := OSLockNesting s + 1\<rparr>"] inc_nonzero
  by (auto simp: OSSchedLock_def)

lemma OSIntExit_eq:
  assumes "OSRunning s"
  shows "OSIntExit s = OS_Sched (if OSIntNesting s > 0 then s\<lparr>OSIntNesting := OSIntNesting s - 1\<rparr> else s)"
  using assms by (simp add: OSIntExit_def OS_Sched_def Let_def)

lemma OSIntExit_inv: "os_inv dfr s \<Longrightarrow> OSRunning s \<Longrightarrow> os_inv d (OSIntExit s)"
  using ctl_inv(1) [where s = s and s' = "s\<lparr>OSIntNesting := OSIntNesting s - 1\<rparr>"] ctl_inv(1) [where s = s and s' = s]
  by (simp add: OSIntExit_eq)

lemma OSSchedUnlock_inv:
  assumes "os_inv dfr s"
  shows "os_inv dfr (OSSchedUnlock s)"
proof (cases "OSRunning s \<and> OSIntNesting s = 0 \<and> OSLockNesting s > 0")
  case True
  let ?s1 = "s\<lparr>OSLockNesting := OSLockNesting s - 1\<rparr>"
  have "OSSchedUnlock s = (if OSLockNesting ?s1 = 0 then OS_Sched ?s1 else ?s1)"
    using True by (simp add: OSSchedUnlock_def Let_def)
  then show ?thesis using ctl_inv [where s = s and s' = ?s1] assms by auto
next
  case False
  then have "OSSchedUnlock s = s" by (auto simp: OSSchedUnlock_def)
  then show ?thesis using assms by simp
qed

text \<open>Calls that touch nothing the invariant reads.\<close>

lemma inert_inv:
  assumes "os_inv dfr s"
  shows "os_inv dfr (OSTimeSet n s)" "os_inv dfr (OS_TaskIdle_body s)" "os_inv dfr (snd (OSTaskDelReq p s))"
    "os_inv dfr (snd (OSTaskNameSet p nm s))" "os_inv dfr (snd (OSMemCreate a nb sz s))" "os_inv dfr (snd (OSMemGet m s))"
    "os_inv dfr (snd (OSMemPut m b s))" "os_inv dfr (snd (OSMemNameSet m nm s))"
  by (rule os_inv_upd [OF assms];
      simp add: OSTimeSet_def OS_TaskIdle_body_def OSTaskDelReq_def OSTaskNameSet_def OSMemCreate_def OSMemGet_def
        OSMemPut_def OSMemNameSet_def blk_take_def blk_give_def Let_def split_beta core_tcb)+

text \<open>The services of each file.\<close>

lemma task_services_inv:
  assumes inv: "os_inv dfr s"
  shows "may_block s \<Longrightarrow> os_inv dfr (OSTimeDly n s)"
    "OSRunning s \<Longrightarrow> prio_arg p \<Longrightarrow> not_idle p s \<Longrightarrow> os_inv dfr (snd (OSTaskSuspend p s))"
    "OSRunning s \<Longrightarrow> p < 64 \<Longrightarrow> os_inv dfr (snd (OSTaskResume p s))"
proof -
  have ev: "\<And>e. OSEventPtr (OSEventMem (OSTimeDly n s) e) = OSEventPtr (OSEventMem s e)"
    "\<And>e. ev_type (OSTimeDly n s) e = ev_type s e" "OSEventFreeList (OSTimeDly n s) = OSEventFreeList s"
    "\<And>e. OSEventPtr (OSEventMem (snd (OSTaskSuspend p s)) e) = OSEventPtr (OSEventMem s e)"
    "\<And>e. ev_type (snd (OSTaskSuspend p s)) e = ev_type s e"
    "OSEventFreeList (snd (OSTaskSuspend p s)) = OSEventFreeList s"
    "\<And>e. OSEventPtr (OSEventMem (snd (OSTaskResume p s)) e) = OSEventPtr (OSEventMem s e)"
    "\<And>e. ev_type (snd (OSTaskResume p s)) e = ev_type s e"
    "OSEventFreeList (snd (OSTaskResume p s)) = OSEventFreeList s"
    by (simp_all add: OSTimeDly_def OSTaskSuspend_def OSTaskResume_def make_ready_def make_unready_def Let_def)
  show "os_inv dfr (OSTimeDly n s)" if "may_block s"
    using OSTimeDly_inv [OF os_invD(1) [OF inv]] that
    by (intro os_inv_kernel [OF inv]) (simp_all add: may_block_def ev)
  show "os_inv dfr (snd (OSTaskSuspend p s))" if "OSRunning s" "prio_arg p" "not_idle p s"
    using OSTaskSuspend_inv [OF os_invD(1) [OF inv]] that
    by (intro os_inv_kernel [OF inv]) (simp_all add: prio_arg_def not_idle_def ev)
  show "os_inv dfr (snd (OSTaskResume p s))" if "OSRunning s" "p < 64"
    using OSTaskResume_inv [OF os_invD(1) [OF inv] that]
    by (intro os_inv_kernel [OF inv]) (simp_all add: ev)
qed

lemma tick_os_inv:
  assumes inv: "os_inv dfr s" and run: "OSRunning s" and isr: "OSIntNesting s \<noteq> 0"
  shows "os_inv dfr (OSTimeTick s)"
proof -
  note i = os_invD(1,2) [OF inv]
  note t = OSTimeTick_props [OF i run refl]
  have "ev_inv (OSTimeTick s)"
    by (rule ev_inv_core [OF os_invD(3) [OF inv] t(12)]) (simp_all only: ev_type_def t(11))
  then show ?thesis using OSTimeTick_inv [OF i run isr] unfolding os_inv_def by blast
qed

lemma OSTaskCreate_frame:
  "OSEventMem (snd (OSTaskCreate ld task arg ptos p s)) = OSEventMem s"
  "OSEventFreeList (snd (OSTaskCreate ld task arg ptos p s)) = OSEventFreeList s"
proof -
  have t: "OSEventMem (snd (OS_TCBInit p psp s')) = OSEventMem s'"
    "OSEventFreeList (snd (OS_TCBInit p psp s')) = OSEventFreeList s'" for psp s'
    by (simp_all add: OS_TCBInit_def Let_def make_ready_def)
  obtain m where m: "snd (OSTaskStkInit ld task arg ptos (s\<lparr>OSTCBPrioTbl := (OSTCBPrioTbl s)(p := 1)\<rparr>))
      = s\<lparr>OSTCBPrioTbl := (OSTCBPrioTbl s)(p := 1), app_mem := m\<rparr>" using OSTaskStkInit_app by blast
  show "OSEventMem (snd (OSTaskCreate ld task arg ptos p s)) = OSEventMem s"
    "OSEventFreeList (snd (OSTaskCreate ld task arg ptos p s)) = OSEventFreeList s"
    using m t by (simp_all add: OSTaskCreate_def Let_def split_beta)
qed

lemma create_os_inv:
  assumes inv: "os_inv dfr s" and p: "p < 64"
  shows "os_inv dfr (snd (OSTaskCreate ld task arg ptos p s))"
  using OSTaskCreate_inv [OF os_invD(1,2) [OF inv] p refl] os_invD(3) [OF inv]
    ev_inv_core [of s "snd (OSTaskCreate ld task arg ptos p s)"]
  by (simp add: os_inv_def OSTaskCreate_frame ev_type_def)

lemma del_data_frame:
  "OSEventFreeList (del_links q (del_data p q s)) = OSEventFreeList s"
  "OSEventPtr (OSEventMem (del_links q (del_data p q s)) e) = OSEventPtr (OSEventMem s e)"
  "ev_type (del_links q (del_data p q s)) e = ev_type s e"
proof -
  have d: "OSEventFreeList (del_data p q s) = OSEventFreeList s"
    "OSEventPtr (OSEventMem (del_data p q s) e) = OSEventPtr (OSEventMem s e)" "ev_type (del_data p q s) e = ev_type s e"
    by (simp_all add: del_data_def Let_def make_unready_def)
  show "OSEventFreeList (del_links q (del_data p q s)) = OSEventFreeList s"
    "OSEventPtr (OSEventMem (del_links q (del_data p q s)) e) = OSEventPtr (OSEventMem s e)"
    "ev_type (del_links q (del_data p q s)) e = ev_type s e"
    using d by (simp_all add: del_links_def tcb_give_def tcb_unlink_def Let_def ev_type_def)
qed

lemma del_os_inv:
  assumes inv: "os_inv dfr s" and run: "OSRunning s" and p: "prio_arg p"
    and lev: "OSLockNesting s = 0 \<or> not_self p s" and idle: "p = OS_PRIO_SELF \<longrightarrow> OSPrioCur s \<noteq> OS_TASK_IDLE_PRIO"
  shows "os_inv dfr (snd (OSTaskDel p s))"
proof -
  note d = OSTaskDel_inv [OF os_invD(1,2) [OF inv] run _ _ idle refl]
  have "ev_inv (snd (OSTaskDel p s))"
    by (rule ev_inv_core [OF os_invD(3) [OF inv]]) (simp_all add: OSTaskDel_def Let_def del_data_frame)
  then show ?thesis using d p lev by (simp add: os_inv_def prio_arg_def not_self_def)
qed

lemma chprio_pool:
  assumes inv: "task_inv s" and pool: "pool_inv s" and p: "p < 64" "p \<noteq> OS_TASK_IDLE_PRIO" and r: "r < 64"
    and task: "is_task (OSTCBPrioTbl s p)" and free: "OSTCBPrioTbl s r = NULL" and idle: "idle_inv s"
  shows "pool_inv (chprio_step p r s)"
proof -
  let ?s = "chprio_step p r s"
  obtain xs ys where l: "task_lists s xs ys" using pool by (auto simp: pool_inv_def)
  have ne: "p \<noteq> r" using task free by (auto simp: is_task_def)
  have "is_task (OSTCBPrioTbl s OS_TASK_IDLE_PRIO)" using ready_task [OF inv] idle by (simp add: idle_inv_def)
  then have r63: "r \<noteq> OS_TASK_IDLE_PRIO" using free by (auto simp: is_task_def)
  have "tasks ?s = tasks s"
  proof (intro set_eqI iffI)
    fix x assume "x \<in> tasks ?s"
    then obtain k where k: "k < 64" "is_task x" "x = OSTCBPrioTbl ?s k" by (rule tasksE) auto
    show "x \<in> tasks s"
    proof (cases "k = r")
      case True
      then have "x = OSTCBPrioTbl s p" using k by (simp add: chprio_step_sel)
      then show ?thesis using p(1) k(2) unfolding tasks_def by blast
    next
      case False
      then have "x = OSTCBPrioTbl s k" using k by (auto simp: chprio_step_sel is_task_def split: if_splits)
      then show ?thesis using k unfolding tasks_def by blast
    qed
  next
    fix x assume "x \<in> tasks s"
    then obtain k where k: "k < 64" "is_task x" "x = OSTCBPrioTbl s k" by (rule tasksE) auto
    have "x = OSTCBPrioTbl ?s (if k = p then r else k)"
      using k free ne by (auto simp: chprio_step_sel is_task_def)
    then show "x \<in> tasks ?s" using k r unfolding tasks_def by (cases "k = p") auto
  qed
  moreover have "tcb_next ?s = tcb_next s" "tcb_prev ?s = tcb_prev s"
    by (auto simp: chprio_step_sel fun_eq_iff)
  moreover have "OSTCBList ?s = OSTCBList s" "OSTCBFreeList ?s = OSTCBFreeList s" "OSTaskCtr ?s = OSTaskCtr s"
    by (simp_all add: chprio_step_def Let_def)
  moreover have "OSTCBPrioTbl ?s OS_TASK_IDLE_PRIO = OSTCBPrioTbl s OS_TASK_IDLE_PRIO"
    using p(2) r63 by (simp add: chprio_step_sel)
  ultimately have "task_lists ?s xs ys" using l unfolding task_lists_def by (simp only:) blast
  then show ?thesis unfolding pool_inv_def by blast
qed

lemma chprio_os_inv:
  assumes inv: "os_inv dfr s" and run: "OSRunning s" and old: "prio_arg old" and r: "r < 64" and idle: "not_idle old s"
    and self: "OSIntNesting s = 0 \<and> OSLockNesting s = 0 \<or> not_self old s"
  shows "os_inv dfr (snd (OSTaskChangePrio old r s))"
proof -
  note i = os_invD [OF inv]
  have k: "kernel_inv dfr (snd (OSTaskChangePrio old r s))"
    using OSTaskChangePrio_inv [OF i(1) run _ r] old idle self
    by (simp add: prio_arg_def not_idle_def not_self_def)
  define p where "p = (if old = OS_PRIO_SELF then OSTCBPrio (OSTCBMem s (OSTCBCur s)) else old)"
  have cp: "OSTCBPrio (OSTCBMem s (OSTCBCur s)) = OSPrioCur s"
    using cur_task(5) [OF i(1) run] by (simp add: tcb_wf_def)
  have p: "p < 64" "p \<noteq> OS_TASK_IDLE_PRIO"
    using old idle cur_task(1) [OF i(1) run] by (auto simp: p_def cp prio_arg_def not_idle_def)
  show ?thesis
  proof (cases "is_task (OSTCBPrioTbl s p) \<and> OSTCBPrioTbl s r = NULL")
    case False
    then have "snd (OSTaskChangePrio old r s) = s"
      by (auto simp: OSTaskChangePrio_def p_def [symmetric] is_task_def Let_def)
    then show ?thesis using inv by simp
  next
    case True
    then have task: "is_task (OSTCBPrioTbl s p)" and free: "OSTCBPrioTbl s r = NULL" by auto
    let ?s = "chprio_step p r s"
    have eq: "snd (OSTaskChangePrio old r s) = OS_Sched ?s"
      using OSTaskChangePrio_nf [OF p_def free task prio_task [OF i(4) p(1) task] p(1) run] by simp
    have "pool_inv ?s" by (rule chprio_pool [OF i(4,2) p r task free i(5)])
    then have pool: "pool_inv (OS_Sched ?s)" using pool_inv_view [of "OS_Sched ?s" ?s] by simp
    have "ev_inv (OS_Sched ?s)"
      by (rule ev_inv_core [OF i(3)]) (simp_all add: chprio_step_sel, simp_all add: chprio_step_def Let_def)
    then show ?thesis using k pool unfolding eq os_inv_def by blast
  qed
qed

lemma sem_services_inv:
  assumes inv: "os_inv dfr s" and e: "e \<in> events"
  shows "os_inv dfr (snd (OSSemAccept e s))" "os_inv dfr (snd (OSSemPost e s))" "os_inv dfr (snd (OSSemSet e c s))"
    "os_inv dfr (snd (snd (OSSemDel e opt s)))" "os_inv dfr (snd (snd (OSSemPendAbort e opt s)))"
    "may_block s \<Longrightarrow> os_inv dfr (snd (OSSemPend_enter e n s))"
proof -
  have bit: "OS_STAT_SEM = ev_bit OS_EVENT_TYPE_SEM" "(OS_STAT_SEM :: u8) \<noteq> 0" by (simp_all add: ev_bit_def)
  have used: "ev_type s e = OS_EVENT_TYPE_SEM \<Longrightarrow> ev_type s e \<noteq> OS_EVENT_TYPE_UNUSED" by simp
  note upd = event_upd_inv [OF inv used]
  show "os_inv dfr (snd (OSSemAccept e s))" using inv upd(1) by (simp add: OSSemAccept_def ev_type_def Let_def)
  show "os_inv dfr (snd (OSSemSet e c s))" using inv upd(1) by (simp add: OSSemSet_def ev_type_def)
  show "os_inv dfr (snd (OSSemPost e s))"
    using inv upd(1) wake_one_inv [OF inv e _ _ bit(2)] bit(1) by (simp add: OSSemPost_def ev_type_def)
  show "os_inv dfr (snd (snd (OSSemDel e opt s)))"
    unfolding OSSemDel_def by (rule OS_EventDel_inv [OF inv e quiet_skip bit refl])
  show "os_inv dfr (snd (snd (OSSemPendAbort e opt s)))"
    unfolding OSSemPendAbort_def by (rule OS_EventPendAbort_inv [OF inv e bit])
  show "os_inv dfr (snd (OSSemPend_enter e n s))" if "may_block s"
    using inv upd(1) pend_block_os_inv [OF inv that _ _ e _ bit(2)] bit(1)
    by (simp add: OSSemPend_enter_def ev_type_def word_gt_0)
qed

lemma mbox_services_inv:
  assumes inv: "os_inv dfr s" and e: "e \<in> events"
  shows "os_inv dfr (snd (OSMboxAccept e s))" "os_inv dfr (snd (OSMboxPost e m s))"
    "os_inv (dfr \<or> opt AND OS_POST_OPT_NO_SCHED \<noteq> 0) (snd (OSMboxPostOpt e m opt s))"
    "os_inv dfr (snd (snd (OSMboxDel e opt s)))" "os_inv dfr (snd (snd (OSMboxPendAbort e opt s)))"
    "may_block s \<Longrightarrow> os_inv dfr (snd (OSMboxPend_enter e n s))"
proof -
  have bit: "OS_STAT_MBOX = ev_bit OS_EVENT_TYPE_MBOX" "(OS_STAT_MBOX :: u8) \<noteq> 0" by (simp_all add: ev_bit_def)
  have used: "ev_type s e = OS_EVENT_TYPE_MBOX \<Longrightarrow> ev_type s e \<noteq> OS_EVENT_TYPE_UNUSED" by simp
  note upd = event_upd_inv [OF inv used]
  show "os_inv dfr (snd (OSMboxAccept e s))" using inv upd(2) by (simp add: OSMboxAccept_def ev_type_def)
  show "os_inv dfr (snd (OSMboxPost e m s))"
    using inv upd(2) wake_one_inv [OF inv e _ _ bit(2)] bit(1) by (simp add: OSMboxPost_def ev_type_def)
  have more: "os_inv dfr s' \<Longrightarrow> os_inv (dfr \<or> b) s'" for s' b by (cases dfr; cases b) (simp_all add: os_inv_more)
  show "os_inv (dfr \<or> opt AND OS_POST_OPT_NO_SCHED \<noteq> 0) (snd (OSMboxPostOpt e m opt s))"
    using more [OF inv] more [OF upd(2)] post_wake_any [OF inv e _ _ bit(2), of opt] bit(1)
    by (simp add: OSMboxPostOpt_def ev_type_def)
  show "os_inv dfr (snd (snd (OSMboxDel e opt s)))"
    unfolding OSMboxDel_def by (rule OS_EventDel_inv [OF inv e quiet_skip bit refl])
  show "os_inv dfr (snd (snd (OSMboxPendAbort e opt s)))"
    unfolding OSMboxPendAbort_def by (rule OS_EventPendAbort_inv [OF inv e bit])
  show "os_inv dfr (snd (OSMboxPend_enter e n s))" if "may_block s"
    using inv upd(2) pend_block_os_inv [OF inv that _ _ e _ bit(2)] bit(1)
    by (simp add: OSMboxPend_enter_def ev_type_def word_gt_0 Let_def)
qed

lemma q_services_inv:
  assumes inv: "os_inv dfr s" and e: "e \<in> events"
  shows "os_inv dfr (snd (OSQAccept e s))" "os_inv dfr (snd (OSQPost e m s))" "os_inv dfr (snd (OSQPostFront e m s))"
    "os_inv (dfr \<or> opt AND OS_POST_OPT_NO_SCHED \<noteq> 0) (snd (OSQPostOpt e m opt s))" "os_inv dfr (snd (OSQFlush e s))"
    "os_inv dfr (snd (snd (OSQDel e opt s)))" "os_inv dfr (snd (snd (OSQPendAbort e opt s)))"
    "may_block s \<Longrightarrow> os_inv dfr (snd (OSQPend_enter e n s))"
proof -
  have bit: "OS_STAT_Q = ev_bit OS_EVENT_TYPE_Q" "(OS_STAT_Q :: u8) \<noteq> 0" by (simp_all add: ev_bit_def)
  note upd = q_ops_inv [OF inv]
  show "os_inv dfr (snd (OSQAccept e s))" using inv upd by (simp add: OSQAccept_def Let_def split_beta)
  show "os_inv dfr (snd (OSQFlush e s))" using upd by (simp add: OSQFlush_def)
  show "os_inv dfr (snd (OSQPost e m s))"
    using inv upd wake_one_inv [OF inv e _ _ bit(2)] bit(1) by (simp add: OSQPost_def ev_type_def Let_def)
  show "os_inv dfr (snd (OSQPostFront e m s))"
    using inv upd wake_one_inv [OF inv e _ _ bit(2)] bit(1) by (simp add: OSQPostFront_def ev_type_def Let_def)
  have more: "os_inv dfr s' \<Longrightarrow> os_inv (dfr \<or> b) s'" for s' b by (cases dfr; cases b) (simp_all add: os_inv_more)
  show "os_inv (dfr \<or> opt AND OS_POST_OPT_NO_SCHED \<noteq> 0) (snd (OSQPostOpt e m opt s))"
    using more [OF inv] more [OF upd(2)] more [OF upd(3)] post_wake_any [OF inv e _ _ bit(2), of opt] bit(1)
    by (simp add: OSQPostOpt_def ev_type_def Let_def)
  show "os_inv dfr (snd (snd (OSQDel e opt s)))"
    unfolding OSQDel_def by (rule OS_EventDel_inv [OF inv e quiet_q_free bit refl])
  show "os_inv dfr (snd (snd (OSQPendAbort e opt s)))"
    unfolding OSQPendAbort_def by (rule OS_EventPendAbort_inv [OF inv e bit])
  show "os_inv dfr (snd (OSQPend_enter e n s))" if "may_block s"
    using inv upd pend_block_os_inv [OF inv that _ _ e _ bit(2)] bit(1)
    by (simp add: OSQPend_enter_def ev_type_def word_gt_0 Let_def split_beta)
qed

lemma OSQCreate_inv:
  assumes inv: "os_inv dfr s"
  shows "os_inv dfr (snd (OSQCreate start n s))"
proof (cases "OSIntNesting s > 0")
  case True
  then show ?thesis using inv by (simp add: OSQCreate_def)
next
  case False
  show ?thesis
  proof (rule event_alloc_props [OF inv])
    assume "event_alloc s = (NULL, s)"
    then show ?thesis using False inv by (simp add: OSQCreate_def)
  next
    fix e fs
    let ?s1 = "s\<lparr>OSEventFreeList := OSEventPtr (OSEventMem s e)\<rparr>"
    assume a: "event_alloc s = (e, ?s1)" "e \<noteq> NULL" and lists: "ev_lists s (e # fs)"
    show ?thesis
    proof (cases "OSQFreeList s = NULL")
      case True
      have e: "OSEventFreeList s = e" using lists by (simp add: ev_lists_def)
      have "upd_event e (\<lambda>v. v\<lparr>OSEventPtr := OSEventPtr (OSEventMem s e)\<rparr>) ?s1 = ?s1"
        by (simp add: upd_event_def)
      then have "snd (OSQCreate start n s) = s"
        using False a True e by (simp add: OSQCreate_def)
      then show ?thesis using inv by simp
    next
      case q: False
      have "snd (OSQCreate start n s) = OS_EventWaitListInit e (upd_event e (\<lambda>v. v\<lparr>OSEventType := OS_EVENT_TYPE_Q,
          OSEventCnt := 0, OSEventPtr := OSQFreeList s\<rparr>) (upd_q (OSQFreeList s) (\<lambda>q. q\<lparr>OSQStart := start,
          OSQEnd := start + slot_bytes * unat n, OSQIn := start, OSQOut := start, OSQSize := n,
          OSQEntries := 0\<rparr>) (q_take ?s1)))"
        using False a q by (simp add: OSQCreate_def Let_def)
      then show ?thesis
        by (simp only:) (rule event_new_inv [OF inv lists]; simp add: wait_init q_take_def)
    qed
  qed
qed

lemma exec_os_inv:
  assumes inv: "os_inv dfr s" and mx: "mx_inv s" and ok: "allowed c s"
  shows "os_inv (deferred c dfr) (exec c s)"
proof (cases c)
  case C_Start
  then show ?thesis using OSStart_inv(1) [OF inv] inv by (cases "OSRunning s") (simp_all add: OSStart_def)
next
  case C_IntExit
  then show ?thesis using OSIntExit_inv [OF inv] ok by simp
next
  case (C_TimeDlyHMSM h m sec ms)
  then show ?thesis using task_services_inv(1) [OF inv] ok inv by (simp add: OSTimeDlyHMSM_def)
next
  case (C_SemCreate n)
  then show ?thesis using event_create_inv [OF inv refl] by (simp add: OSSemCreate_def)
next
  case (C_MboxCreate m)
  then show ?thesis using event_create_inv [OF inv refl] by (simp add: OSMboxCreate_def)
next
  case (C_Resume e)
  then show ?thesis using pend_wakeup_os_inv [OF inv] ok by (simp add: OSSemPend_resume_def)
next
  case (C_ResumeMsg e)
  then show ?thesis using pend_wakeup_msg_os_inv [OF inv] ok by (simp add: OSQPend_resume_def)
qed (use inv ok inert_inv [OF inv] task_services_inv [OF inv] sem_services_inv [OF inv] mbox_services_inv [OF inv]
      q_services_inv [OF inv] tick_os_inv [OF inv] create_os_inv [OF inv] del_os_inv [OF inv] chprio_os_inv [OF inv]
      OSQCreate_inv [OF inv] OSIntEnter_inv [OF inv] OSSchedLock_inv [OF inv] OSSchedUnlock_inv [OF inv]
      OSMutexCreate_inv [OF inv] OSMutexDel_inv [OF inv mx] OSMutexPend_inv [OF inv] OSMutexAccept_inv [OF inv]
      OSMutexPost_inv [OF inv mx] in simp_all)

lemma mxv_start: "mxv (OSStart s) = mxv s"
  by (simp add: mxv_def OSStart_def OSStartHighRdy_def OSCtxSw_def OS_SchedNew_def Let_def)

lemma exec_mx_inv:
  assumes inv: "os_inv dfr s" and mx: "mx_inv s" and ok: "allowed c s"
  shows "mx_inv (exec c s)"
proof -
  note same = mx_inv_mxv [OF mx] and step = mx_inv_step [OF mx]
  have del: "mx_step s (snd (snd (OSSemDel e opt s)))" "mx_step s (snd (snd (OSMboxDel e opt s)))"
    "mx_step s (snd (snd (OSQDel e opt s)))" for e opt
    unfolding OSSemDel_def OSMboxDel_def OSQDel_def by (rule mx_event_del; simp add: mxv_frame)+
  have new: "mx_step s (snd (OSSemCreate n s))" "mx_step s (snd (OSMboxCreate m s))" for n m
    unfolding OSSemCreate_def OSMboxCreate_def by (rule mx_event_create; simp)+
  show ?thesis
    using ok
    by (cases c) (simp_all add: same step mxv_services mxv_exit mxv_start mx_sem_services mx_task_create mx_task_del
        mx_chprio mx_q_create del new mx_mutex_accept mx_mutex_pend mx_mutex_post [OF inv mx]
        mx_mutex_create [OF inv mx] mx_mutex_del [OF mx] mxv_frame OSSemPendAbort_def OSMboxPendAbort_def
        OSQPendAbort_def OSSemPend_resume_def OSQPend_resume_def)
qed

text \<open>The invariant of the reachable states.\<close>

definition sys_inv :: "bool \<Rightarrow> os \<Rightarrow> bool" where
  "sys_inv d s \<longleftrightarrow> os_inv d s \<and> mx_inv s"

theorem exec_inv: "sys_inv d s \<Longrightarrow> allowed c s \<Longrightarrow> sys_inv (deferred c d) (exec c s)"
  unfolding sys_inv_def using exec_os_inv exec_mx_inv by blast

lemma OSInit_mx: "mx_inv (OSInit ld s)"
  using OSInit_inv(6) [of ld s] unfolding mx_inv_def ev_lists_def
  by (auto simp: event_all_events)

lemma reachable_inv: "reachable ld d s \<Longrightarrow> sys_inv d s"
  by (induction rule: reachable.induct) (auto simp: sys_inv_def OSInit_mx intro: OSInit_inv(1) exec_os_inv exec_mx_inv)

lemma reachable_os_inv: "reachable ld d s \<Longrightarrow> os_inv d s"
  using reachable_inv by (simp add: sys_inv_def)

end
