(* ===== verification/OS_Demo.thy ===== *)
theory OS_Demo
  imports OS_Reach
begin

text \<open>
  What creating and blocking do to the views of the state, and a concrete run built from
  \<open>OSInit\<close>: a semaphore, two tasks of priorities 10 and 5, start, the urgent task blocks on
  the semaphore. The witnesses of the kernel properties are instances at its states.
\<close>

section \<open>Effects\<close>

lemma event_create_ok:
  assumes inv: "os_inv dfr s" and lists: "ev_lists s (e # fs)" and isr: "OSIntNesting s = 0"
    and s': "s' = snd (event_create ty cnt q s)"
  shows "fst (event_create ty cnt q s) = e" "ev_type s' x = (if x = e then ty else ev_type s x)"
    "OSEventCnt (OSEventMem s' e) = cnt" "OSEventPtr (OSEventMem s' e) = q" "waiting s' x = waiting s x"
    "x \<noteq> e \<Longrightarrow> OSEventMem s' x = OSEventMem s x"
    "ready s' = ready s" "OSTCBMem s' = OSTCBMem s" "OSTCBPrioTbl s' = OSTCBPrioTbl s"
    "OSRunning s' = OSRunning s" "OSIntNesting s' = OSIntNesting s" "OSLockNesting s' = OSLockNesting s"
    "pool_view s' = pool_view s" "ev_lists s' fs" "OSPrioCur s' = OSPrioCur s" "OSTCBCur s' = OSTCBCur s"
proof -
  have e: "e \<in> events" "ev_type s e = OS_EVENT_TYPE_UNUSED" "OSEventFreeList s = e" "e \<noteq> NULL"
    using lists by (auto simp: ev_lists_def)
  let ?s1 = "upd_event e (\<lambda>v. v\<lparr>OSEventType := ty, OSEventCnt := cnt, OSEventPtr := q\<rparr>)
      (s\<lparr>OSEventFreeList := OSEventPtr (OSEventMem s e)\<rparr>)"
  have w0: "waiting s e = {}" by (rule task_inv_unused [OF os_invD(4) [OF inv] e(1,2)])
  have eq: "event_create ty cnt q s = (e, OS_EventWaitListInit e ?s1)"
    using isr e by (simp add: event_create_def event_alloc_def)
  have s'': "s' = OS_EventWaitListInit e ?s1" using s' eq by simp
  show "fst (event_create ty cnt q s) = e" using eq by simp
  show "ev_type s' x = (if x = e then ty else ev_type s x)"
    "OSEventCnt (OSEventMem s' e) = cnt" "OSEventPtr (OSEventMem s' e) = q"
    "x \<noteq> e \<Longrightarrow> OSEventMem s' x = OSEventMem s x"
    "ready s' = ready s" "OSTCBMem s' = OSTCBMem s" "OSTCBPrioTbl s' = OSTCBPrioTbl s"
    "OSRunning s' = OSRunning s" "OSIntNesting s' = OSIntNesting s" "OSLockNesting s' = OSLockNesting s"
    "pool_view s' = pool_view s" "OSPrioCur s' = OSPrioCur s" "OSTCBCur s' = OSTCBCur s"
    unfolding s'' by (simp_all add: ready_def) (simp add: ev_type_def)
  show "waiting s' x = waiting s x"
    unfolding s'' using wait_init(2) [of e ?s1] w0 by (cases "x = e") (simp_all add: waiting_def)
  show "ev_lists s' fs"
    unfolding s'' by (rule event_new_inv(2) [OF inv lists]) (simp_all add: wait_init)
qed

lemma pend_block_view:
  assumes inv: "os_inv dfr s" and run: "OSRunning s" and e: "e \<in> events"
  shows "ready (pend_block k n e s) = ready s - {OSPrioCur s}"
    "waiting (pend_block k n e s) x = (if x = e then insert (OSPrioCur s) (waiting s e) else waiting s x)"
    "OSRunning (pend_block k n e s) = OSRunning s" "OSIntNesting (pend_block k n e s) = OSIntNesting s"
    "OSLockNesting (pend_block k n e s) = OSLockNesting s" "OSTCBPrioTbl (pend_block k n e s) = OSTCBPrioTbl s"
    "OSTCBMem (pend_block k n e s) = (OSTCBMem s)(OSTCBCur s := (OSTCBMem s (OSTCBCur s))
       \<lparr>OSTCBStat := OSTCBStat (OSTCBMem s (OSTCBCur s)) OR k, OSTCBStatPend := OS_STAT_PEND_OK,
        OSTCBDly := n, OSTCBEventPtr := e\<rparr>)"
    "OSEventCnt (OSEventMem (pend_block k n e s) x) = OSEventCnt (OSEventMem s x)"
proof -
  let ?f = "\<lambda>t. t\<lparr>OSTCBStat := OSTCBStat t OR k, OSTCBStatPend := OS_STAT_PEND_OK, OSTCBDly := n,
           OSTCBEventPtr := e\<rparr>"
  note nf = pend_block_nf [OF cur_task(5) [OF os_invD(1) [OF inv] run], of k n e]
  note p = cur_task(1) [OF os_invD(1) [OF inv] run]
  show "ready (pend_block k n e s) = ready s - {OSPrioCur s}"
    using bm.prios_del [OF p, of "rdy s"] by (simp add: nf ready_def)
  show "waiting (pend_block k n e s) x = (if x = e then insert (OSPrioCur s) (waiting s e) else waiting s x)"
    using bm.prios_ins [OF p, of "ev_wait (OSEventMem s e)"] by (simp add: nf waiting_def [of s])
  show "OSRunning (pend_block k n e s) = OSRunning s" "OSIntNesting (pend_block k n e s) = OSIntNesting s"
    "OSLockNesting (pend_block k n e s) = OSLockNesting s" "OSTCBPrioTbl (pend_block k n e s) = OSTCBPrioTbl s"
    "OSTCBMem (pend_block k n e s) = (OSTCBMem s)(OSTCBCur s := (OSTCBMem s (OSTCBCur s))
       \<lparr>OSTCBStat := OSTCBStat (OSTCBMem s (OSTCBCur s)) OR k, OSTCBStatPend := OS_STAT_PEND_OK,
        OSTCBDly := n, OSTCBEventPtr := e\<rparr>)"
    "OSEventCnt (OSEventMem (pend_block k n e s) x) = OSEventCnt (OSEventMem s x)"
    by (simp_all add: nf) (simp add: task_step_def)
qed

section \<open>The run\<close>

definition ld0 :: link_addrs where
  "ld0 = \<lparr>ld_OS_TaskReturn = 0x8000100, ld_OS_TaskIdle = 0x8000200, ld_OSTaskIdleStk = 0x20001000\<rparr>"

abbreviation (input) e0 :: ptr where "e0 \<equiv> event_addr 0"

definition demo0 :: os where "demo0 = OSInit ld0 ram0"
definition demo1 :: os where "demo1 = exec (C_SemCreate 0) demo0"
definition demo2 :: os where "demo2 = exec (C_TaskCreate ld0 0x8001000 0 0x20002000 10) demo1"
definition demo3 :: os where "demo3 = exec (C_TaskCreate ld0 0x8002000 0 0x20003000 5) demo2"
definition demo4 :: os where "demo4 = exec C_Start demo3"
definition demo5 :: os where "demo5 = exec (C_SemPend e0 2) demo4"

lemma e0_event: "e0 \<in> events"
  by (simp add: events_def)

lemma demo0: "reachable ld0 False demo0" "os_inv dfr demo0" "\<not> OSRunning demo0" "ready demo0 = {63}" "OSIntNesting demo0 = 0"
  "OSLockNesting demo0 = 0" "ev_lists demo0 (e0 # map event_addr [1..<50])" 
  "task_lists demo0 [tcb_addr 0] (tcb_addr 1 # tcb_addr 2 # map tcb_addr [3..<11])"
  "OSTCBPrioTbl demo0 = (\<lambda>_. NULL)(63 := tcb_addr 0)"
proof -
  have e: "event_all = e0 # map event_addr [1..<50]" by (simp add: event_all_def upt_conv_Cons)
  have "[1..<11] = 1 # 2 # [3..<11::nat]" by code_simp
  then have t: "map tcb_addr [1..<11] = tcb_addr 1 # tcb_addr 2 # map tcb_addr [3..<11]" by simp
  show "reachable ld0 False demo0" unfolding demo0_def by (rule reachable.init)
  show "os_inv dfr demo0" "\<not> OSRunning demo0" "ready demo0 = {63}" "OSIntNesting demo0 = 0"
    "OSLockNesting demo0 = 0" "ev_lists demo0 (e0 # map event_addr [1..<50])" 
    "task_lists demo0 [tcb_addr 0] (tcb_addr 1 # tcb_addr 2 # map tcb_addr [3..<11])"
    "OSTCBPrioTbl demo0 = (\<lambda>_. NULL)(63 := tcb_addr 0)"
    using OSInit_inv [where ld = ld0 and s = ram0] unfolding demo0_def e t by blast+
qed

lemma demo1: "reachable ld0 False demo1" "os_inv dfr demo1" "\<not> OSRunning demo1" "ready demo1 = {63}" "OSIntNesting demo1 = 0"
  "OSLockNesting demo1 = 0" "ev_lists demo1 (map event_addr [1..<50])" "ev_type demo1 e0 = OS_EVENT_TYPE_SEM"
  "OSEventCnt (OSEventMem demo1 e0) = 0" "waiting demo1 e0 = {}"
  "task_lists demo1 [tcb_addr 0] (tcb_addr 1 # tcb_addr 2 # map tcb_addr [3..<11])"
  "OSTCBPrioTbl demo1 = (\<lambda>_. NULL)(63 := tcb_addr 0)"
proof -
  have eq: "demo1 = snd (event_create OS_EVENT_TYPE_SEM 0 NULL demo0)" by (simp add: demo1_def OSSemCreate_def)
  note c = event_create_ok [OF demo0(2,7,5) eq]
  show r: "reachable ld0 False demo1" unfolding demo1_def using reachable.step [OF demo0(1), of "C_SemCreate 0"] by simp
  show "os_inv dfr demo1" by (rule os_inv_more [OF reachable_os_inv [OF r]])
  have "waiting demo0 e0 = {}"
    using task_inv_unused [OF os_invD(4) [OF demo0(2)] e0_event] demo0(7) by (simp add: ev_lists_def)
  then show "\<not> OSRunning demo1" "ready demo1 = {63}" "OSIntNesting demo1 = 0"
    "OSLockNesting demo1 = 0" "ev_lists demo1 (map event_addr [1..<50])" "ev_type demo1 e0 = OS_EVENT_TYPE_SEM"
    "OSEventCnt (OSEventMem demo1 e0) = 0" "waiting demo1 e0 = {}"
    "task_lists demo1 [tcb_addr 0] (tcb_addr 1 # tcb_addr 2 # map tcb_addr [3..<11])"
    "OSTCBPrioTbl demo1 = (\<lambda>_. NULL)(63 := tcb_addr 0)"
    using c demo0 task_lists_view [OF c(13)] by simp_all
qed

lemma demo1_waiting: "x \<in> events \<Longrightarrow> waiting demo1 x = {}"
proof -
  assume x: "x \<in> events"
  have eq: "demo1 = snd (event_create OS_EVENT_TYPE_SEM 0 NULL demo0)" by (simp add: demo1_def OSSemCreate_def)
  have "set (e0 # map event_addr [1..<50]) = events"
  proof -
    have "{..<50} = insert 0 {1..<50 :: nat}" by auto
    then show ?thesis by (simp only: events_def image_insert set_map list.set set_upt)
  qed
  then have "ev_type demo0 x = OS_EVENT_TYPE_UNUSED" using demo0(7) x unfolding ev_lists_def by blast
  then have "waiting demo0 x = {}" using task_inv_unused [OF os_invD(4) [OF demo0(2)] x] by simp
  then show ?thesis using event_create_ok(5) [OF demo0(2,7,5) eq] by simp
qed

lemma create_step:
  assumes reach: "reachable ld False s" and lists: "task_lists s xs (q # ys)" and p: "prio < 64"
    and free: "OSTCBPrioTbl s prio = NULL" and ne: "xs \<noteq> []" and isr: "OSIntNesting s = 0" and off: "\<not> OSRunning s"
    and s': "s' = exec (C_TaskCreate ld' task arg ptos prio) s"
  shows "reachable ld False s'" "task_lists s' (q # xs) ys" "ready s' = insert prio (ready s)"
    "OSTCBPrioTbl s' = (OSTCBPrioTbl s)(prio := q)" "\<not> OSRunning s'" "OSIntNesting s' = 0"
    "OSLockNesting s' = OSLockNesting s" "OSEventMem s' = OSEventMem s"
proof -
  note inv = os_invD(4) [OF reachable_os_inv [OF reach]]
  have "xs = [] \<longrightarrow> prio = OS_TASK_IDLE_PRIO" using ne by simp
  note ok = OSTaskCreate_ok [OF inv lists p free this isr]
  obtain s3 where s3: "OSTaskCreate ld' task arg ptos prio s = (OS_ERR_NONE, if OSRunning s then OS_Sched s3 else s3)"
    "task_inv s3" "task_lists s3 (q # xs) ys" "ready s3 = insert prio (ready s)"
    "OSTCBPrioTbl s3 = (OSTCBPrioTbl s)(prio := q)" "rdy s3 = bm_ins prio (rdy s)"
    "OSTCBCur s3 = OSTCBCur s" "OSPrioCur s3 = OSPrioCur s"
    "OSRunning s3 = OSRunning s" "OSIntNesting s3 = OSIntNesting s" "OSLockNesting s3 = OSLockNesting s"
    "OSEventMem s3 = OSEventMem s" "OSEventFreeList s3 = OSEventFreeList s"
    by (rule ok)
  have "s' = s3" using s3(1) off s' by simp
  then show "task_lists s' (q # xs) ys" "ready s' = insert prio (ready s)"
    "OSTCBPrioTbl s' = (OSTCBPrioTbl s)(prio := q)" "\<not> OSRunning s'" "OSIntNesting s' = 0"
    "OSLockNesting s' = OSLockNesting s" "OSEventMem s' = OSEventMem s"
    using s3 off isr by simp_all
  show "reachable ld False s'" unfolding s' using reachable.step [OF reach, of "C_TaskCreate ld' task arg ptos prio"] p by simp
qed

lemma demo2: "reachable ld0 False demo2" "task_lists demo2 [tcb_addr 1, tcb_addr 0] (tcb_addr 2 # map tcb_addr [3..<11])"
    "ready demo2 = {10, 63}" "OSTCBPrioTbl demo2 = (\<lambda>_. NULL)(63 := tcb_addr 0, 10 := tcb_addr 1)"
    "\<not> OSRunning demo2" "OSIntNesting demo2 = 0" "OSLockNesting demo2 = 0" "OSEventMem demo2 = OSEventMem demo1"
  using create_step [OF demo1(1,11) _ _ _ demo1(5,3) demo2_def] demo1(4,6,12) by simp_all

lemma demo3: "reachable ld0 False demo3" "ready demo3 = {5, 10, 63}"
    "OSTCBPrioTbl demo3 = (\<lambda>_. NULL)(63 := tcb_addr 0, 10 := tcb_addr 1, 5 := tcb_addr 2)"
    "\<not> OSRunning demo3" "OSIntNesting demo3 = 0" "OSLockNesting demo3 = 0" "OSEventMem demo3 = OSEventMem demo1"
  using create_step [OF demo2(1,2) _ _ _ demo2(6,5) demo3_def] demo2(3,4,7,8) by simp_all

lemma demo4: "reachable ld0 False demo4" "os_inv dfr demo4" "OSRunning demo4" "OSIntNesting demo4 = 0" "OSLockNesting demo4 = 0"
    "ready demo4 = {5, 10, 63}" "OSPrioCur demo4 = 5" "OSTCBCur demo4 = tcb_addr 2"
    "x \<in> events \<Longrightarrow> waiting demo4 x = {}" "ev_type demo4 e0 = OS_EVENT_TYPE_SEM"
    "OSEventCnt (OSEventMem demo4 e0) = 0" "OSTCBEventPtr (OSTCBMem demo4 (tcb_addr 2)) = NULL"
    "OSTCBPrioTbl demo4 = OSTCBPrioTbl demo3"
proof -
  have inv3: "os_inv d demo3" for d by (rule os_inv_more [OF reachable_os_inv [OF demo3(1)]])
  note st = OSStart_inv [OF inv3 demo3(4)]
  have d: "demo4 = OSStart demo3" by (simp add: demo4_def)
  have top: "top_ready demo3 = 5"
    using top_ready(2) [OF os_invD(4,5) [OF inv3]] by (simp add: demo3(2))
  show r: "reachable ld0 False demo4" unfolding demo4_def using reachable.step [OF demo3(1), of C_Start] by simp
  show inv: "os_inv dfr demo4" by (rule os_inv_more [OF reachable_os_inv [OF r]])
  have f: "OSIntNesting demo4 = OSIntNesting demo3" "OSLockNesting demo4 = OSLockNesting demo3"
    "rdy demo4 = rdy demo3" "OSEventMem demo4 = OSEventMem demo3" "OSTCBPrioTbl demo4 = OSTCBPrioTbl demo3"
    unfolding d by (simp_all add: OSStart_def OSStartHighRdy_def OSCtxSw_def OS_SchedNew_def Let_def rdy_def)
  show run: "OSRunning demo4" "OSIntNesting demo4 = 0" "OSLockNesting demo4 = 0" "ready demo4 = {5, 10, 63}"
    "OSPrioCur demo4 = 5" "OSTCBCur demo4 = tcb_addr 2"
    using st f demo3 top by (simp_all add: d ready_def)
  show w: "waiting demo4 x = {}" if "x \<in> events" for x
    using demo1_waiting [OF that] f(4) demo3(7) by (simp add: waiting_def)
  show "ev_type demo4 e0 = OS_EVENT_TYPE_SEM" "OSEventCnt (OSEventMem demo4 e0) = 0"
    using demo1(8,9) f(4) demo3(7) by (simp_all add: ev_type_def)
  show "OSTCBPrioTbl demo4 = OSTCBPrioTbl demo3" by (rule f(5))
  have ok: "tcb_ok demo4 5 (OSTCBMem demo4 (tcb_addr 2))"
    using cur_task(4) [OF os_invD(1) [OF inv] run(1)] run by simp
  have "OSTCBEventPtr (OSTCBMem demo4 (tcb_addr 2)) \<notin> events"
    using ok w by (auto simp: tcb_ok_def)
  then show "OSTCBEventPtr (OSTCBMem demo4 (tcb_addr 2)) = NULL" using ok by (simp add: tcb_ok_def split: if_splits)
qed

lemma demo5: "reachable ld0 False demo5" "os_inv dfr demo5" "OSRunning demo5" "OSIntNesting demo5 = 0" "OSLockNesting demo5 = 0"
    "ready demo5 = {10, 63}" "OSPrioCur demo5 = 10" "OSTCBCur demo5 = tcb_addr 1" "waiting demo5 e0 = {5}"
    "ev_type demo5 e0 = OS_EVENT_TYPE_SEM" "OSEventCnt (OSEventMem demo5 e0) = 0"
    "OSTCBPrioTbl demo5 = OSTCBPrioTbl demo3"
    "OSTCBDly (OSTCBMem demo5 (tcb_addr 2)) = 2" "OSTCBStat (OSTCBMem demo5 (tcb_addr 2)) = OS_STAT_SEM"
proof -
  have ok: "may_block demo4" by (simp add: may_block_def demo4)
  show r: "reachable ld0 False demo5" unfolding demo5_def
    using reachable.step [OF demo4(1), of "C_SemPend e0 2"] by (simp add: ok e0_event)
  note inv = reachable_os_inv [OF r]
  show "os_inv dfr demo5" by (rule os_inv_more [OF inv])
  have d: "demo5 = pend_block OS_STAT_SEM 2 e0 demo4"
    using demo4(10) by (simp add: demo5_def OSSemPend_enter_def demo4 ev_type_def)
  note v = pend_block_view [OF demo4(2,3) e0_event, of OS_STAT_SEM 2, folded d]
  show rr: "OSRunning demo5" "OSIntNesting demo5 = 0" "OSLockNesting demo5 = 0" "ready demo5 = {10, 63}"
    "waiting demo5 e0 = {5}" "OSEventCnt (OSEventMem demo5 e0) = 0" "OSTCBPrioTbl demo5 = OSTCBPrioTbl demo3"
    "ev_type demo5 e0 = OS_EVENT_TYPE_SEM"
    using v demo4 e0_event by (auto simp: d)
  show "OSTCBDly (OSTCBMem demo5 (tcb_addr 2)) = 2" "OSTCBStat (OSTCBMem demo5 (tcb_addr 2)) = OS_STAT_SEM"
    using v(7) demo4 cur_ready(2) [OF os_invD(1) [OF demo4(2)]] by simp_all
  have "OSPrioCur demo5 = Min {10, 63}"
    using os_invD(7) [OF inv] rr top_ready(2) [OF os_invD(4,5) [OF inv]] by (simp add: sched_inv_def top_ready_def)
  then show "OSPrioCur demo5 = 10" by simp
  then show "OSTCBCur demo5 = tcb_addr 1"
    using os_invD(6) [OF inv] rr by (simp add: cur_inv_def demo3)
qed

end
