(* ===== verification/OS_Clock.thy ===== *)
theory OS_Clock
  imports OS_Demo
begin

text \<open>
  The tick interrupt \<open>SysTick_Handler\<close> of \<open>user/stm32f10x_it.c\<close>, which drives the kernel
  clock and lwIP's millisecond counter, and what a number of ticks does to one task.
\<close>

section \<open>The handler\<close>

definition SysTick_Handler :: "u32 \<times> os \<Rightarrow> u32 \<times> os" where
  "SysTick_Handler = (\<lambda>(system_tick_num, s).
     (system_tick_num + 1000 div OS_TICKS_PER_SEC, OSIntExit (OSTimeTick (OSIntEnter s))))"

abbreviation (input) tick_irq :: "os \<Rightarrow> os" where
  "tick_irq s \<equiv> OSIntExit (OSTimeTick (OSIntEnter s))"

lemma SysTick_Handler_pow: "snd ((SysTick_Handler ^^ k) (n, s)) = (tick_irq ^^ k) s"
  by (induction k) (simp_all add: SysTick_Handler_def split_beta)

lemma ms_per_tick: "(1000 :: u32) div 200 = 5"
  by (simp only: word_unat_eq_iff unat_div) simp

lemma system_tick_num_pow: "fst ((SysTick_Handler ^^ k) (n, s)) = n + 5 * word_of_nat k"
proof -
  have eq: "SysTick_Handler = (\<lambda>(m, s). (m + 5, tick_irq s))"
    unfolding SysTick_Handler_def ms_per_tick ..
  show ?thesis by (induction k) (simp_all add: eq split_beta algebra_simps)
qed

lemma OSIntExit_frame:
  "OSTCBMem (OSIntExit s) = OSTCBMem s" "ready (OSIntExit s) = ready s" "OSTime (OSIntExit s) = OSTime s"
  "OSTCBPrioTbl (OSIntExit s) = OSTCBPrioTbl s" "OSRunning (OSIntExit s) = OSRunning s"
  "OSLockNesting (OSIntExit s) = OSLockNesting s" "waiting (OSIntExit s) e = waiting s e"
  by (simp_all add: OSIntExit_def Let_def ready_def waiting_def)

lemma OSIntExit_nesting: "OSRunning s \<Longrightarrow> OSIntNesting s = 1 \<Longrightarrow> OSIntNesting (OSIntExit s) = 0"
  by (simp add: OSIntExit_def Let_def)

lemma tick_irq_props:
  assumes inv: "os_inv dfr s" and run: "OSRunning s" and isr: "OSIntNesting s = 0" and s': "s' = tick_irq s"
  shows "os_inv dfr s'" "OSRunning s'" "OSIntNesting s' = 0" "OSLockNesting s' = OSLockNesting s"
    "OSTCBPrioTbl s' = OSTCBPrioTbl s" "OSTime s' = OSTime s + 1"
    "OSTCBMem s' = (\<lambda>a. if a \<in> timed_tasks s then tick_tcb (OSTCBMem s a) else OSTCBMem s a)"
    "ready s' = ready s \<union> woken s (timed_tasks s)" "waiting s' e = waiting s e"
proof -
  define s1 where "s1 = OSIntEnter s"
  have s1: "OSRunning s1" "OSIntNesting s1 = 1" "OSTCBMem s1 = OSTCBMem s" "OSTCBPrioTbl s1 = OSTCBPrioTbl s"
    "ready s1 = ready s" "OSTime s1 = OSTime s" "OSLockNesting s1 = OSLockNesting s" "OSEventMem s1 = OSEventMem s"
    using run isr by (simp_all add: s1_def OSIntEnter_def ready_def)
  have inv1: "os_inv dfr s1" unfolding s1_def by (rule OSIntEnter_inv [OF inv])
  note i = os_invD [OF inv1]
  have t: "timed_tasks s1 = timed_tasks s" "woken s1 Q = woken s Q" for Q
    by (simp_all add: timed_tasks_def tasks_def woken_def s1)
  define s2 where "s2 = OSTimeTick s1"
  note p = OSTimeTick_props [OF i(1,2) s1(1) s2_def]
  have run2: "OSRunning s2" by (simp only: p(8) s1(1))
  have "os_inv dfr s2" unfolding s2_def by (rule tick_os_inv [OF inv1 s1(1)]) (simp add: s1)
  then show "os_inv dfr s'" unfolding s' s1_def [symmetric] s2_def [symmetric] using run2 by (rule OSIntExit_inv)
  show "OSTCBPrioTbl s' = OSTCBPrioTbl s" 
    unfolding s' s1_def [symmetric] s2_def [symmetric] OSIntExit_frame
    using pool_view_sel(5) [OF p(2)] s1(4) by simp
  show "OSRunning s'" "OSIntNesting s' = 0" "OSLockNesting s' = OSLockNesting s" "OSTime s' = OSTime s + 1"
    "OSTCBMem s' = (\<lambda>a. if a \<in> timed_tasks s then tick_tcb (OSTCBMem s a) else OSTCBMem s a)"
    "ready s' = ready s \<union> woken s (timed_tasks s)" "waiting s' e = waiting s e"
    unfolding s' s1_def [symmetric] s2_def [symmetric] OSIntExit_frame
    using p(3-5) p(9-11) s1 t run2 OSIntExit_nesting [OF run2] p(4) [unfolded s1(3)]
    by (simp_all add: waiting_def del: fun_upd_apply)
qed

text \<open>One task over several ticks, as long as its delay has not run out.\<close>

lemma ticks_task:
  assumes inv: "os_inv dfr s" and run: "OSRunning s" "OSIntNesting s = 0"
    and p: "p < 64" "p \<noteq> OS_TASK_IDLE_PRIO" "is_task (OSTCBPrioTbl s p)"
    and s': "s' = (tick_irq ^^ k) s"
  shows "os_inv dfr s' \<and> OSRunning s' \<and> OSIntNesting s' = 0 \<and> OSLockNesting s' = OSLockNesting s
    \<and> OSTCBPrioTbl s' = OSTCBPrioTbl s \<and> waiting s' e = waiting s e \<and> OSTime s' = OSTime s + word_of_nat k
    \<and> OSTCBMem s' (OSTCBPrioTbl s p) = (tick_tcb ^^ k) (OSTCBMem s (OSTCBPrioTbl s p))"
  using s'
proof (induction k arbitrary: s')
  case 0
  then show ?case using inv run by simp
next
  case (Suc k)
  define s1 where "s1 = (tick_irq ^^ k) s"
  note IH = Suc.IH [OF s1_def]
  have inv1: "os_inv dfr s1" and r1: "OSRunning s1" "OSIntNesting s1 = 0" and tbl: "OSTCBPrioTbl s1 = OSTCBPrioTbl s"
    using IH by blast+
  have "s' = tick_irq s1" using Suc.prems by (simp add: s1_def)
  note t = tick_irq_props [OF inv1 r1 this]
  have task: "is_task (OSTCBPrioTbl s1 p)" using p(3) tbl by simp
  have "OSTCBPrioTbl s1 p \<noteq> OSTCBPrioTbl s1 OS_TASK_IDLE_PRIO"
    using prio_tbl_inj [OF os_invD(4) [OF inv1] p(1) _ task, of OS_TASK_IDLE_PRIO] p(2) by auto
  then have "OSTCBPrioTbl s1 p \<in> timed_tasks s1" using p(1) task by (auto simp: timed_tasks_def tasks_def)
  then have mem: "OSTCBMem s' (OSTCBPrioTbl s p) = tick_tcb (OSTCBMem s1 (OSTCBPrioTbl s p))"
    by (simp add: t(7) tbl)
  show ?case
    using IH t(1-6) t(9) [of e] mem by (simp add: algebra_simps)
qed

lemma tick_tcb_pow:
  assumes "k < unat (OSTCBDly t)"
  shows "(tick_tcb ^^ k) t = t\<lparr>OSTCBDly := OSTCBDly t - word_of_nat k\<rparr>"
  using assms
proof (induction k)
  case (Suc k)
  have bound: "unat (OSTCBDly t) < 2 ^ LENGTH(32)" by (rule unsigned_less)
  have le: "unat (OSTCBDly t - word_of_nat j) = unat (OSTCBDly t) - j" if "j < unat (OSTCBDly t)" for j
    using that unat_sub_if' [of "OSTCBDly t" "word_of_nat j"] bound
    by (simp add: unat_of_nat word_le_nat_alt)
  have "OSTCBDly t - word_of_nat k \<noteq> 0" "OSTCBDly t - word_of_nat k - 1 \<noteq> 0"
    using le [of k] le [of "Suc k"] Suc.prems by (force simp: algebra_simps)+
  then show ?case using Suc by (simp add: tick_tcb_def algebra_simps)
qed simp

text \<open>The tick at which the delay runs out.\<close>

lemma tick_tcb_end:
  assumes n: "OSTCBDly t = n" "n \<noteq> 0"
  shows "(tick_tcb ^^ unat n) t = tick_tcb (t\<lparr>OSTCBDly := 1\<rparr>)"
proof -
  obtain k where k: "unat n = Suc k" using n(2) by (cases "unat n") (auto simp: unat_eq_0)
  have "word_of_nat (Suc k) = n" by (simp only: k [symmetric]) simp
  then have "n - word_of_nat k = 1" by (auto simp: algebra_simps)
  then show ?thesis using tick_tcb_pow [of k t] n k by simp
qed

end
