(* ===== verification/OS_Lock.thy ===== *)
theory OS_Lock
  imports OS_Reach
begin

text \<open>
  While an interrupt handler runs or the scheduler is locked, no kernel call switches tasks:
  \<open>OS_Sched\<close> is the identity then, and no other part of a service touches the current task.
\<close>

definition held :: "os \<Rightarrow> bool" where
  "held s \<longleftrightarrow> OSIntNesting s \<noteq> 0 \<or> OSLockNesting s \<noteq> 0"

definition cur :: "os \<Rightarrow> ptr \<times> u8" where
  "cur s = (OSTCBCur s, OSPrioCur s)"

definition ctl :: "os \<Rightarrow> ptr \<times> u8 \<times> u8 \<times> u8" where
  "ctl s = (OSTCBCur s, OSPrioCur s, OSIntNesting s, OSLockNesting s)"

lemma ctl_views:
  "held s \<longleftrightarrow> fst (snd (snd (ctl s))) \<noteq> 0 \<or> snd (snd (snd (ctl s))) \<noteq> 0"
  "cur s = (fst (ctl s), fst (snd (ctl s)))"
  by (simp_all add: ctl_def cur_def held_def)

lemma held_sched: "held s \<Longrightarrow> OS_Sched s = s"
  by (auto simp: held_def OS_Sched_def)

lemma cur_sched: "held s \<Longrightarrow> cur s = c \<Longrightarrow> cur (OS_Sched s) = c"
  by (simp add: held_sched)

named_theorems ctl_frame

lemma ctl_upd [ctl_frame]:
  "ctl (upd_tcb q f s) = ctl s" "ctl (upd_event e g s) = ctl s" "ctl (upd_mem m h s) = ctl s"
  "ctl (upd_q a k s) = ctl s" "ctl (set_rdy b s) = ctl s"
  "ctl (s\<lparr>OSEventFreeList := x1\<rparr>) = ctl s" "ctl (s\<lparr>OSQFreeList := x2\<rparr>) = ctl s"
  "ctl (s\<lparr>OSMemFreeList := x3\<rparr>) = ctl s" "ctl (s\<lparr>app_mem := x4\<rparr>) = ctl s"
  "ctl (s\<lparr>OSTCBFreeList := x5\<rparr>) = ctl s" "ctl (s\<lparr>OSTCBList := x6\<rparr>) = ctl s"
  "ctl (s\<lparr>OSTaskCtr := x7\<rparr>) = ctl s" "ctl (s\<lparr>OSTCBPrioTbl := x8\<rparr>) = ctl s"
  "ctl (s\<lparr>OSTime := x9\<rparr>) = ctl s" "ctl (s\<lparr>OSIdleCtr := x10\<rparr>) = ctl s"
  by (simp_all add: ctl_def)

lemma ctl_prims [ctl_frame]:
  "ctl (make_ready q s) = ctl s" "ctl (make_unready q s) = ctl s"
  "ctl (OS_EventTaskRemove q e s) = ctl s" "ctl (OS_EventWaitListInit e s) = ctl s"
  "ctl (event_free e s) = ctl s" "ctl (q_put a m s) = ctl s" "ctl (q_put_front a m s) = ctl s"
  "ctl (q_flush a s) = ctl s" "ctl (q_take s) = ctl s" "ctl (q_give a s) = ctl s" "ctl (q_free e s) = ctl s"
  "ctl (blk_take a s) = ctl s" "ctl (blk_give a b s) = ctl s" "ctl (tick_task q s) = ctl s"
  by (simp_all add: make_ready_def make_unready_def OS_EventTaskRemove_def OS_EventWaitListInit_def
      event_free_def q_put_def q_put_front_def q_flush_def q_take_def q_give_def q_free_def blk_take_def
      blk_give_def tick_task_def Let_def ctl_frame)


lemma ctl_rdy [ctl_frame]: "ctl (snd (OS_EventTaskRdy e m k ps s)) = ctl s"
  by (simp add: OS_EventTaskRdy_def Let_def ctl_frame)

lemma ctl_rdy_all [ctl_frame]: "ctl (snd (OS_EventRdyAll n e m k ps s)) = ctl s"
  by (induction n arbitrary: s) (simp_all add: split_beta ctl_frame)

lemma ctl_tick_loop [ctl_frame]: "ctl (tick_loop n q s) = ctl s"
  by (induction n arbitrary: q s) (simp_all add: Let_def ctl_frame)

lemma ctl_event [ctl_frame]:
  "ctl (snd (event_alloc s)) = ctl s" "ctl (snd (event_create ty c p s)) = ctl s"
  "ctl (snd (q_get a s)) = ctl s" "ctl (snd (pend_wakeup e s)) = ctl s" "ctl (snd (pend_wakeup_msg e s)) = ctl s"
  by (simp_all add: event_alloc_def event_create_def q_get_def pend_wakeup_def pend_wakeup_msg_def Let_def
      split_beta ctl_frame)

lemma cur_post_wake: "held s \<Longrightarrow> cur (post_wake k e m opt s) = cur s"
  by (simp add: post_wake_def Let_def held_sched ctl_views ctl_frame)

lemma cur_event_del:
  assumes h: "held s" and r: "\<And>e s. ctl (r e s) = ctl s"
  shows "cur (snd (snd (OS_EventDel ty k r e opt s))) = cur s"
  using h unfolding OS_EventDel_def Let_def
  by (simp add: held_sched ctl_views ctl_frame r)

lemma cur_event_abort: "held s \<Longrightarrow> cur (snd (snd (OS_EventPendAbort ty k e opt s))) = cur s"
  by (simp add: OS_EventPendAbort_def Let_def split_beta held_sched ctl_views ctl_frame)

lemma ctl_tcb_init [ctl_frame]: "ctl (snd (OS_TCBInit p stk s)) = ctl s"
  by (simp add: OS_TCBInit_def Let_def ctl_frame)

lemma ctl_stk_init [ctl_frame]: "ctl (snd (OSTaskStkInit ld task arg ptos s)) = ctl s"
  by (simp add: OSTaskStkInit_def Let_def split_beta ctl_frame)

lemma cur_create: "held s \<Longrightarrow> cur (snd (OSTaskCreate ld task arg ptos prio s)) = cur s"
  by (simp add: OSTaskCreate_def Let_def split_beta held_sched ctl_views ctl_frame)

lemma ctl_unlink [ctl_frame]: "ctl (del_links q s) = ctl s"
  by (simp add: del_links_def tcb_give_def tcb_unlink_def Let_def ctl_frame)

lemma del_data_ctl:
  "cur (del_data p q s) = cur s" "held s \<Longrightarrow> OSIntNesting s = 0 \<Longrightarrow> held (del_data p q s)"
  by (auto simp: del_data_def make_unready_def OS_EventTaskRemove_def Let_def cur_def held_def
      word_less_nat_alt unat_word_ariths)

lemma cur_OSTaskDel: 
  assumes h: "held s"
  shows "cur (snd (OSTaskDel p s)) = cur s"
proof (cases "OSIntNesting s = 0")
  case False
  then show ?thesis by (simp add: OSTaskDel_def word_gt_0)
next
  case True
  have "cur (OS_Sched (del_links q (del_data p q s))) = cur s" "cur (del_links q (del_data p q s)) = cur s" for p q
  proof -
    have "ctl (del_links q (del_data p q s)) = ctl (del_data p q s)" by (simp add: ctl_frame)
    then show "cur (del_links q (del_data p q s)) = cur s" "cur (OS_Sched (del_links q (del_data p q s))) = cur s"
      using del_data_ctl(1) [of p q s] del_data_ctl(2) [of s p q] h True by (simp_all add: held_sched ctl_views)
  qed
  then show ?thesis using True by (simp add: OSTaskDel_def Let_def)
qed

lemma cur_task_services:
  assumes "held s"
  shows "cur (OSTimeDly n s) = cur s" "cur (snd (OSTimeDlyHMSM h m sc ms s)) = cur s"
    "cur (snd (OSTaskSuspend p s)) = cur s" "cur (snd (OSTaskResume p s)) = cur s"
    "cur (snd (OSTaskChangePrio p p' s)) = cur s" "cur (snd (OSTaskDelReq p s)) = cur s"
    "cur (snd (OSTaskNameSet p nm s)) = cur s"
proof -
  have blocked: "OSIntNesting s > 0 \<or> OSLockNesting s > 0"
    using assms by (auto simp: held_def word_gt_0)
  then show "cur (OSTimeDly n s) = cur s" "cur (snd (OSTimeDlyHMSM h m sc ms s)) = cur s"
    by (auto simp: OSTimeDly_def OSTimeDlyHMSM_def)
  show "cur (snd (OSTaskSuspend p s)) = cur s" "cur (snd (OSTaskResume p s)) = cur s"
    "cur (snd (OSTaskDelReq p s)) = cur s" "cur (snd (OSTaskNameSet p nm s)) = cur s"
    using assms by (simp_all add: OSTaskSuspend_def OSTaskResume_def OSTaskDelReq_def OSTaskNameSet_def Let_def
        held_sched ctl_views ctl_frame)
  show "cur (snd (OSTaskChangePrio p p' s)) = cur s"
    using assms by (simp add: OSTaskChangePrio_def Let_def held_sched ctl_views ctl_frame)
qed

lemma cur_event_services:
  assumes "held s"
  shows "cur (snd (OSSemPost e s)) = cur s" "cur (snd (OSMboxPost e m s)) = cur s"
    "cur (snd (OSMboxPostOpt e m opt s)) = cur s" "cur (snd (OSQPost e m s)) = cur s"
    "cur (snd (OSQPostFront e m s)) = cur s" "cur (snd (OSQPostOpt e m opt s)) = cur s"
    "cur (snd (OSSemPend_enter e n s)) = cur s" "cur (snd (OSMboxPend_enter e n s)) = cur s"
    "cur (snd (OSQPend_enter e n s)) = cur s"
proof -
  have pend: "OSIntNesting s \<noteq> 0 \<or> OSLockNesting s \<noteq> 0" using assms by (simp add: held_def)
  show "cur (snd (OSSemPost e s)) = cur s" "cur (snd (OSMboxPost e m s)) = cur s"
    "cur (snd (OSMboxPostOpt e m opt s)) = cur s" "cur (snd (OSQPost e m s)) = cur s"
    "cur (snd (OSQPostFront e m s)) = cur s" "cur (snd (OSQPostOpt e m opt s)) = cur s"
    using assms cur_post_wake [OF assms]
    by (simp_all add: OSSemPost_def OSMboxPost_def OSMboxPostOpt_def OSQPost_def OSQPostFront_def
        OSQPostOpt_def Let_def held_sched ctl_views ctl_frame)
  show "cur (snd (OSSemPend_enter e n s)) = cur s" "cur (snd (OSMboxPend_enter e n s)) = cur s"
    "cur (snd (OSQPend_enter e n s)) = cur s"
    using pend by (auto simp: OSSemPend_enter_def OSMboxPend_enter_def OSQPend_enter_def word_gt_0)
qed

lemma ctl_quiet_services:
  "ctl (snd (OSSemCreate c s)) = ctl s" "ctl (snd (OSMboxCreate m s)) = ctl s" "ctl (snd (OSQCreate a k s)) = ctl s"
  "ctl (snd (OSSemAccept e s)) = ctl s" "ctl (snd (OSMboxAccept e s)) = ctl s" "ctl (snd (OSQAccept e s)) = ctl s"
  "ctl (snd (OSSemSet e c s)) = ctl s" "ctl (snd (OSQFlush e s)) = ctl s" "ctl (OSTimeTick s) = ctl s"
  "ctl (OSTimeSet t s) = ctl s" "ctl (OS_TaskIdle_body s) = ctl s" "ctl (snd (OSMemCreate a b sz s)) = ctl s"
  "ctl (snd (OSMemGet pm s)) = ctl s" "ctl (snd (OSMemPut pm blk s)) = ctl s" "ctl (snd (OSMemNameSet pm nm s)) = ctl s"
  by (simp_all add: OSSemCreate_def OSMboxCreate_def OSQCreate_def OSSemAccept_def OSMboxAccept_def OSQAccept_def
      OSSemSet_def OSQFlush_def OSTimeTick_def OSTimeSet_def OS_TaskIdle_body_def OSMemCreate_def OSMemGet_def
      OSMemPut_def OSMemNameSet_def Let_def split_beta ctl_frame)

lemma ctl_mutex [ctl_frame]:
  "ctl (snd (mutex_acquire e s)) = ctl s" "ctl (mutex_inherit e s) = ctl s" "ctl (mutex_free e s) = ctl s"
  "ctl (snd (snd (OSMutexAccept e s))) = ctl s" "ctl (snd (snd (OSMutexCreate pr s))) = ctl s"
  by (simp_all add: mutex_acquire_def mutex_inherit_def mutex_raise_def mutex_free_def OSMutexAccept_def
      OSMutexCreate_def Let_def ctl_frame)

lemma ctl_rdy_at [ctl_frame]:
  "ctl (OSMutex_RdyAtPrio q p s) = (fst (ctl s), p, snd (snd (ctl s)))"
  by (simp add: OSMutex_RdyAtPrio_def make_ready_def make_unready_def Let_def ctl_def)

text \<open>
  Posting and deleting a mutex lower an owner that runs at the ceiling, and \<open>OSPrioCur\<close>
  with it.
\<close>

definition lowers :: "ptr \<Rightarrow> os \<Rightarrow> bool" where
  "lowers e s \<longleftrightarrow> ceiling s e \<noteq> OS_PRIO_MUTEX_CEIL_DIS \<and> OSTCBPrio (OSTCBMem s (OSEventPtr (OSEventMem s e))) = ceiling s e"

lemma held_mutex:
  assumes "held s"
  shows "fst (cur (snd (OSMutexPost e s))) = fst (cur s)" "\<not> lowers e s \<Longrightarrow> cur (snd (OSMutexPost e s)) = cur s"
    "fst (cur (snd (snd (OSMutexDel e opt s)))) = fst (cur s)"
    "\<not> lowers e s \<Longrightarrow> cur (snd (snd (OSMutexDel e opt s))) = cur s"
    "cur (snd (OSMutexPend_enter e n s)) = cur s"
proof -
  show "fst (cur (snd (OSMutexPost e s))) = fst (cur s)" "\<not> lowers e s \<Longrightarrow> cur (snd (OSMutexPost e s)) = cur s"
    using assms by (auto simp: OSMutexPost_def Let_def split_beta held_sched ctl_views ctl_frame lowers_def word_gt_0)
  show "fst (cur (snd (snd (OSMutexDel e opt s)))) = fst (cur s)"
    "\<not> lowers e s \<Longrightarrow> cur (snd (snd (OSMutexDel e opt s))) = cur s"
    using assms by (auto simp: OSMutexDel_def Let_def split_beta held_sched ctl_views ctl_frame lowers_def word_gt_0)
  show "cur (snd (OSMutexPend_enter e n s)) = cur s"
    using assms by (auto simp: OSMutexPend_enter_def held_def word_gt_0 split_beta ctl_views ctl_frame)
qed

lemma ctl_int_lock:
  "OSIntNesting s > 1 \<or> OSLockNesting s \<noteq> 0 \<Longrightarrow> cur (OSIntExit s) = cur s"
  "OSIntNesting s \<noteq> 0 \<or> OSLockNesting s > 1 \<Longrightarrow> cur (OSSchedUnlock s) = cur s"
proof -
  have one: "(x :: u8) > 1 \<Longrightarrow> x - 1 \<noteq> 0" for x by auto
  show "OSIntNesting s > 1 \<or> OSLockNesting s \<noteq> 0 \<Longrightarrow> cur (OSIntExit s) = cur s"
    using one [of "OSIntNesting s"] by (auto simp: OSIntExit_def Let_def cur_def)
  show "OSIntNesting s \<noteq> 0 \<or> OSLockNesting s > 1 \<Longrightarrow> cur (OSSchedUnlock s) = cur s"
    using one [of "OSLockNesting s"] by (auto simp: OSSchedUnlock_def Let_def cur_def)
qed

text \<open>A call that leaves the processor inside an interrupt handler or the scheduler locked.\<close>

fun stays_held :: "os_call \<Rightarrow> os \<Rightarrow> bool" where
  "stays_held C_IntExit s \<longleftrightarrow> OSIntNesting s > 1 \<or> OSLockNesting s \<noteq> 0"
| "stays_held C_SchedUnlock s \<longleftrightarrow> OSIntNesting s \<noteq> 0 \<or> OSLockNesting s > 1"
| "stays_held _ s \<longleftrightarrow> OSIntNesting s \<noteq> 0 \<or> OSLockNesting s \<noteq> 0"

text \<open>A call that lowers an owner from the ceiling of its mutex.\<close>

fun lowers_owner :: "os_call \<Rightarrow> os \<Rightarrow> bool" where
  "lowers_owner (C_MutexPost e) s \<longleftrightarrow> lowers e s"
| "lowers_owner (C_MutexDel e opt) s \<longleftrightarrow> lowers e s"
| "lowers_owner _ s \<longleftrightarrow> False"

lemma cur_exec:
  assumes st: "stays_held c s" and on: "c = C_Start \<longrightarrow> OSRunning s"
  shows "fst (cur (exec c s)) = fst (cur s)" "\<not> lowers_owner c s \<Longrightarrow> cur (exec c s) = cur s"
proof -
  have ex: "cur (exec c s) = cur s" if "c \<in> {C_Start, C_IntExit, C_SchedUnlock}"
    using that st on ctl_int_lock by (auto simp: OSStart_def)
  have h: "held s" if "c \<notin> {C_IntExit, C_SchedUnlock}" using st that by (cases c) (simp_all add: held_def)
  have mx: "fst (cur (exec c s)) = fst (cur s) \<and> (\<not> lowers_owner c s \<longrightarrow> cur (exec c s) = cur s)"
    if "c = C_MutexPost e \<or> c = C_MutexDel e opt \<or> c = C_MutexPend e n" for e opt n
    using that held_mutex [of s e] h by auto
  have "cur (exec c s) = cur s" 
    if "held s" "c \<notin> {C_Start, C_IntExit, C_SchedUnlock}" "\<forall>e. c \<noteq> C_MutexPost e" "\<forall>e opt. c \<noteq> C_MutexDel e opt"
      "\<forall>e n. c \<noteq> C_MutexPend e n"
    using that(2-5) cur_OSTaskDel [OF that(1)] cur_task_services [OF that(1)] cur_event_services [OF that(1)]
      cur_create [OF that(1)] cur_event_abort [OF that(1)] cur_event_del [OF that(1)]
    by (cases c) (simp_all add: ctl_views ctl_frame ctl_quiet_services OSSemDel_def OSMboxDel_def OSQDel_def
        OSSemPendAbort_def OSMboxPendAbort_def OSQPendAbort_def OSSemPend_resume_def OSQPend_resume_def,
        simp_all add: OSIntEnter_def OSSchedLock_def ctl_def)
  then have "fst (cur (exec c s)) = fst (cur s) \<and> (\<not> lowers_owner c s \<longrightarrow> cur (exec c s) = cur s)"
    using ex mx h by (cases "c \<in> {C_Start, C_IntExit, C_SchedUnlock}") (simp, metis insert_iff)
  then show "fst (cur (exec c s)) = fst (cur s)" "\<not> lowers_owner c s \<Longrightarrow> cur (exec c s) = cur s" by blast+
qed

end
