(* ===== verification/OS_Props.thy ===== *)
theory OS_Props
  imports OS_Clock OS_Lock
begin

text \<open>
  The properties of the kernel core: the scheduler, the redundant bookkeeping of tasks and
  events, the pools, the clock tick and the delays. Each one holds in every reachable state
  or is stated for the state an operation starts from.
\<close>

section \<open>Scheduling\<close>

text \<open>
  C1: Outside interrupt handlers and with the scheduler unlocked, the current task is the ready
  task with the smallest priority number; the current control block is that task's, and the task
  is neither delayed, suspended nor waiting. This holds in every state the services of tasks,
  time, semaphores, mutexes, mailboxes, queues and memory partitions reach, as long as no mutex
  owner is raised to its ceiling by priority inheritance and no message has been posted with
  \<open>OS_POST_OPT_NO_SCHED\<close> since the last interrupt.
\<close>

theorem highest_priority_runs:
  assumes "reachable ld False s" "OSRunning s" "OSIntNesting s = 0" "OSLockNesting s = 0"
  shows "OSPrioCur s = Min (ready s) \<and> OSTCBCur s = OSTCBPrioTbl s (OSPrioCur s)
    \<and> OSTCBPrio (OSTCBMem s (OSTCBCur s)) = OSPrioCur s
    \<and> OSTCBStat (OSTCBMem s (OSTCBCur s)) = 0 \<and> OSTCBDly (OSTCBMem s (OSTCBCur s)) = 0"
proof -
  note i = os_invD [OF reachable_os_inv [OF assms(1)]]
  have cur: "OSPrioCur s = Min (ready s)"
    using i(7) assms top_ready(2) [OF i(4,5)] by (simp add: sched_inv_def top_ready_def)
  with cur_ready [OF i(1) assms(2-4)] cur_task(3,5) [OF i(1) assms(2)]
  show ?thesis by (simp add: tcb_wf_def)
qed

theorem highest_priority_runs_witness:
  "OSPrioCur demo5 = Min (ready demo5) \<and> OSTCBCur demo5 = OSTCBPrioTbl demo5 (OSPrioCur demo5)
    \<and> OSTCBPrio (OSTCBMem demo5 (OSTCBCur demo5)) = OSPrioCur demo5
    \<and> OSTCBStat (OSTCBMem demo5 (OSTCBCur demo5)) = 0 \<and> OSTCBDly (OSTCBMem demo5 (OSTCBCur demo5)) = 0"
  by (rule highest_priority_runs [OF demo5(1,3-5)])

text \<open>
  C2: The kernel's redundant records agree in every state its services reach, those of mutexes
  and posts without rescheduling included, as long as no mutex owner is raised to its ceiling. A
  task is in the ready list exactly when it has no status bit and no delay left; it is in the
  wait list of exactly the event its control block points to; and a priority without a task, a
  mutex ceiling among them, is in no list.
\<close>

theorem task_accounting:
  assumes "reachable ld d s" "p < 64" "e \<in> events"
  shows "if is_task (OSTCBPrioTbl s p)
    then (p \<in> ready s \<longleftrightarrow> OSTCBStat (OSTCBMem s (OSTCBPrioTbl s p)) = 0 \<and> OSTCBDly (OSTCBMem s (OSTCBPrioTbl s p)) = 0)
      \<and> (p \<in> waiting s e \<longleftrightarrow> OSTCBEventPtr (OSTCBMem s (OSTCBPrioTbl s p)) = e)
      \<and> OSTCBPrio (OSTCBMem s (OSTCBPrioTbl s p)) = p
    else p \<notin> ready s \<and> p \<notin> waiting s e"
proof -
  have "task_ok s p" using reachable_os_inv [OF assms(1), THEN os_invD(4)] assms(2) by (simp add: task_inv_def)
  then show ?thesis using assms(3) by (auto simp: task_ok_def tcb_ok_def tcb_wf_def)
qed

theorem task_accounting_witness:
  "reachable ld0 False demo5 \<and> (if is_task (OSTCBPrioTbl demo5 5)
    then (5 \<in> ready demo5 \<longleftrightarrow> OSTCBStat (OSTCBMem demo5 (OSTCBPrioTbl demo5 5)) = 0 \<and> OSTCBDly (OSTCBMem demo5 (OSTCBPrioTbl demo5 5)) = 0)
      \<and> (5 \<in> waiting demo5 e0 \<longleftrightarrow> OSTCBEventPtr (OSTCBMem demo5 (OSTCBPrioTbl demo5 5)) = e0)
      \<and> OSTCBPrio (OSTCBMem demo5 (OSTCBPrioTbl demo5 5)) = 5
    else 5 \<notin> ready demo5 \<and> 5 \<notin> waiting demo5 e0)"
  using task_accounting [OF demo5(1) _ e0_event, of 5] demo5(1) by simp



text \<open>
  C4: While an interrupt handler is running or the scheduler is locked, no service switches
  tasks. This is every call of the kernel, mutexes and all posts included, in any state: one that
  leaves the nesting counters such that the kernel is still held, as the end of an inner interrupt
  handler, of an interrupt handler under a scheduler lock and the unlocking of an inner lock do,
  leaves the current control block what it is, and also the current priority, unless a mutex is
  posted or deleted whose owner runs at the ceiling and is lowered.
\<close>

theorem no_switch_while_held:
  assumes "stays_held c s" "c = C_Start \<longrightarrow> OSRunning s"
  shows "OSTCBCur (exec c s) = OSTCBCur s \<and> (\<not> lowers_owner c s \<longrightarrow> OSPrioCur (exec c s) = OSPrioCur s)"
  using cur_exec [OF assms] by (simp add: cur_def)

theorem no_switch_while_held_witness:
  "OSIntNesting (exec C_IntEnter demo5) = 1
    \<and> OSPrioCur (exec (C_SemPost e0) (exec C_IntEnter demo5)) = OSPrioCur (exec C_IntEnter demo5)
    \<and> OSTCBCur (exec C_IntExit (demo5\<lparr>OSIntNesting := 1, OSLockNesting := 1\<rparr>)) = OSTCBCur demo5"
proof -
  have n: "OSIntNesting (exec C_IntEnter demo5) = 1" by (simp add: OSIntEnter_def demo5)
  then show ?thesis using no_switch_while_held [of "C_SemPost e0" "exec C_IntEnter demo5"]
      no_switch_while_held [of C_IntExit "demo5\<lparr>OSIntNesting := 1, OSLockNesting := 1\<rparr>"] by simp
qed

section \<open>Time\<close>

text \<open>
  C5: \<open>OSTimeTick\<close> treats every task but the idle task, exactly once: it takes one tick off
  a running delay and, when that was the last one, clears the task's pend bits (recording a
  timeout if there was one) and makes the task ready unless it is suspended. No other task
  becomes ready, no control block outside the list changes, and the time advances by one.
\<close>

theorem OSTimeTick_effect:
  assumes "reachable ld d s" "OSRunning s"
  shows "OSTime (OSTimeTick s) = OSTime s + 1
    \<and> OSTCBMem (OSTimeTick s) = (\<lambda>a. if a \<in> timed_tasks s then tick_tcb (OSTCBMem s a) else OSTCBMem s a)
    \<and> ready (OSTimeTick s) = ready s \<union> woken s (timed_tasks s)
    \<and> OSEventMem (OSTimeTick s) = OSEventMem s"
  using OSTimeTick_props [OF os_invD(1,2) [OF reachable_os_inv [OF assms(1)]] assms(2) refl] by blast

theorem OSTimeTick_effect_witness:
  "OSTime (OSTimeTick demo5) = OSTime demo5 + 1
    \<and> OSTCBMem (OSTimeTick demo5) = (\<lambda>a. if a \<in> timed_tasks demo5 then tick_tcb (OSTCBMem demo5 a) else OSTCBMem demo5 a)
    \<and> ready (OSTimeTick demo5) = ready demo5 \<union> woken demo5 (timed_tasks demo5)
    \<and> OSEventMem (OSTimeTick demo5) = OSEventMem demo5"
  by (rule OSTimeTick_effect [OF demo5(1,3)])

lemma OSTimeDly_effect:
  assumes inv: "os_inv dfr s" and may: "may_block s" and lev: "OSIntNesting s = 0" "OSLockNesting s = 0" and n: "n \<noteq> 0"
  shows "OSTCBMem (OSTimeDly n s) (OSTCBCur s) = (OSTCBMem s (OSTCBCur s))\<lparr>OSTCBDly := n\<rparr>"
    "OSTCBPrioTbl (OSTimeDly n s) = OSTCBPrioTbl s" "OSRunning (OSTimeDly n s) = OSRunning s"
    "OSIntNesting (OSTimeDly n s) = 0"
  using lev n by (simp_all add: OSTimeDly_def make_unready_def Let_def word_gt_0)

text \<open>
  C6: A task that delays itself by \<open>n\<close> ticks is made ready by the \<open>n\<close>-th tick interrupt and
  by no earlier one, for every \<open>n\<close> from 1 to \<open>2^32 - 1\<close>.
\<close>

theorem OSTimeDly_exact:
  assumes "reachable ld d s" "may_block s" "OSIntNesting s = 0" "OSLockNesting s = 0" "n \<noteq> 0" "k \<le> unat n"
  shows "OSPrioCur s \<in> ready (snd ((SysTick_Handler ^^ k) (t, OSTimeDly n s))) \<longleftrightarrow> k = unat n"
proof -
  let ?p = "OSPrioCur s" and ?s0 = "OSTimeDly n s" and ?s' = "(tick_irq ^^ k) (OSTimeDly n s)"
  note inv = reachable_os_inv [OF assms(1)]
  have run: "OSRunning s" and ne: "?p \<noteq> OS_TASK_IDLE_PRIO" using assms(2) by (simp_all add: may_block_def)
  note c = cur_task [OF os_invD(1) [OF inv] run]
  note d = OSTimeDly_effect [OF inv assms(2-5)]
  have inv0: "os_inv d ?s0" using task_services_inv(1) [OF inv assms(2)] .
  have q: "OSTCBPrioTbl ?s0 ?p = OSTCBCur s" using d(2) c(3) by simp
  then have task: "is_task (OSTCBPrioTbl ?s0 ?p)" using c by simp
  have t0: "OSTCBMem ?s0 (OSTCBPrioTbl ?s0 ?p) = (OSTCBMem s (OSTCBCur s))\<lparr>OSTCBDly := n\<rparr>" unfolding q d(1) ..
  have stat: "OSTCBStat (OSTCBMem s (OSTCBCur s)) = 0"
    by (rule cur_ready [OF os_invD(1) [OF inv] run assms(3,4)])
  have runs: "OSRunning ?s0" using d(3) run by simp
  note tk = ticks_task [OF inv0 runs d(4) c(1) ne task refl, of k]
  have mem: "OSTCBMem ?s' (OSTCBPrioTbl ?s' ?p) = (tick_tcb ^^ k) ((OSTCBMem s (OSTCBCur s))\<lparr>OSTCBDly := n\<rparr>)"
    using tk t0 by simp
  have acc: "?p \<in> ready ?s' \<longleftrightarrow> OSTCBStat (OSTCBMem ?s' (OSTCBPrioTbl ?s' ?p)) = 0
      \<and> OSTCBDly (OSTCBMem ?s' (OSTCBPrioTbl ?s' ?p)) = 0"
    using task_tcb [of ?s' ?p] tk task c(1) os_invD(4) [where s = ?s' and dfr = d] by (simp add: tcb_ok_def)
  show ?thesis
  proof (cases "k = unat n")
    case True
    have "(tick_tcb ^^ k) ((OSTCBMem s (OSTCBCur s))\<lparr>OSTCBDly := n\<rparr>)
        = (OSTCBMem s (OSTCBCur s))\<lparr>OSTCBDly := 0, OSTCBStatPend := OS_STAT_PEND_OK\<rparr>"
      using tick_tcb_end [of "(OSTCBMem s (OSTCBCur s))\<lparr>OSTCBDly := n\<rparr>" n] assms(5) stat True
      by (simp add: tick_tcb_def)
    then show ?thesis unfolding SysTick_Handler_pow acc mem using stat True by simp
  next
    case False
    then have k: "k < unat n" using assms(6) by simp
    have "unat (word_of_nat k :: u32) = k"
      using k unsigned_less [of n, where 'a = nat] by (simp add: unat_of_nat)
    then have "n - word_of_nat k \<noteq> 0" using k by auto
    then show ?thesis unfolding SysTick_Handler_pow acc mem
      using tick_tcb_pow [of k "(OSTCBMem s (OSTCBCur s))\<lparr>OSTCBDly := n\<rparr>"] k by simp
  qed
qed

theorem OSTimeDly_exact_witness:
  "5 \<notin> ready (snd ((SysTick_Handler ^^ 1) (0, OSTimeDly 2 demo4)))
    \<and> 5 \<in> ready (snd ((SysTick_Handler ^^ 2) (0, OSTimeDly 2 demo4)))"
proof -
  have may: "may_block demo4" by (simp add: may_block_def demo4)
  have n: "(2 :: u32) \<noteq> 0" by simp
  note w = OSTimeDly_exact [OF demo4(1) may demo4(4,5) n, of _ 0, unfolded demo4(7)]
  show ?thesis using w [of 1] w [of 2] by simp
qed

text \<open>
  \<open>OSTimeDlyHMSM\<close> computes its ticks without wrap-around for every argument: 200 ticks per
  second, plus the milliseconds rounded to the nearest tick of 5 ms.
\<close>

theorem hmsm_ticks_exact:
  "unat (hmsm_ticks h m s ms) = (unat h * 3600 + unat m * 60 + unat s) * 200 + (unat ms + 2) div 5"
proof -
  obtain a b c d where v: "unat h = a" "unat m = b" "unat s = c" "unat ms = d" by blast
  have less: "a < 256" "b < 256" "c < 256" "d < 65536"
    using unsigned_less [of h, where 'a = nat] unsigned_less [of m, where 'a = nat]
      unsigned_less [of s, where 'a = nat] unsigned_less [of ms, where 'a = nat] by (simp_all add: v)
  have k: "(500 :: u32) div 200 = 2" by (simp only: word_unat_eq_iff unat_div) simp
  have p: "unat (200 * (ucast ms + 2) div 1000 :: u32) = (d + 2) div 5"
    using less(4) by (simp add: unat_div unat_word_ariths v)
  show ?thesis
    unfolding hmsm_ticks_def k
    using less p by (simp add: unat_word_ariths v)
qed

end
