(* ===== verification/Fifo.thy ===== *)
theory Fifo
  imports Prelude
begin

text \<open>
  The interface of a bounded queue, and of one that also takes items at the front: what the
  clients of a message queue of the kernel and of a mailbox of lwIP rely on.
\<close>

section \<open>The interface\<close>

locale bounded_fifo =
  fixes ok :: "'s \<Rightarrow> bool"
    and items :: "'s \<Rightarrow> 'a list"
    and cap :: "'s \<Rightarrow> nat"
    and enq :: "'a \<Rightarrow> 's \<Rightarrow> 's"
    and deq :: "'s \<Rightarrow> 'a \<times> 's"
  assumes bounded: "ok s \<Longrightarrow> length (items s) \<le> cap s"
    and enq: "ok s \<Longrightarrow> length (items s) < cap s \<Longrightarrow>
      ok (enq x s) \<and> items (enq x s) = items s @ [x] \<and> cap (enq x s) = cap s"
    and deq: "ok s \<Longrightarrow> items s \<noteq> [] \<Longrightarrow>
      ok (snd (deq s)) \<and> items s = fst (deq s) # items (snd (deq s)) \<and> cap (snd (deq s)) = cap s"
begin

lemma enq_all:
  "ok s \<Longrightarrow> length (items s) + length xs \<le> cap s \<Longrightarrow>
    ok (fold enq xs s) \<and> items (fold enq xs s) = items s @ xs \<and> cap (fold enq xs s) = cap s"
proof (induction xs arbitrary: s)
  case (Cons x xs)
  then have e: "ok (enq x s)" "items (enq x s) = items s @ [x]" "cap (enq x s) = cap s"
    using enq [of s x] by auto
  with Cons.IH [of "enq x s"] Cons.prems show ?case by simp
qed simp

lemma deqs:
  "ok s \<Longrightarrow> n \<le> length (items s) \<Longrightarrow>
    ok (snd (take_out deq n s)) \<and> items s = fst (take_out deq n s) @ items (snd (take_out deq n s)) \<and> length (fst (take_out deq n s)) = n"
proof (induction n arbitrary: s)
  case (Suc n)
  then have ne: "items s \<noteq> []" by auto
  obtain x s1 where d: "deq s = (x, s1)" by (cases "deq s")
  then have s1: "ok s1" "items s = x # items s1" using deq [OF Suc.prems(1) ne] by auto
  with Suc.IH [of s1] Suc.prems show ?case by (auto simp: d split_beta Let_def)
qed simp

text \<open>First in, first out: what an empty queue is given comes back in the same order.\<close>

lemma fifo:
  assumes "ok s" "items s = []" "length xs \<le> cap s"
  shows "fst (take_out deq (length xs) (fold enq xs s)) = xs"
proof -
  have e: "ok (fold enq xs s)" "items (fold enq xs s) = xs" using enq_all [of s xs] assms by auto
  from deqs [OF e(1), of "length xs"] e(2) show ?thesis
    by (metis append_eq_append_conv append_Nil2 le_refl)
qed

end

locale bounded_deque = bounded_fifo ok items cap enq deq
  for ok :: "'s \<Rightarrow> bool"
    and items :: "'s \<Rightarrow> 'a list"
    and cap :: "'s \<Rightarrow> nat"
    and enq :: "'a \<Rightarrow> 's \<Rightarrow> 's"
    and deq :: "'s \<Rightarrow> 'a \<times> 's" +
  fixes push :: "'a \<Rightarrow> 's \<Rightarrow> 's"
  assumes push: "ok s \<Longrightarrow> length (items s) < cap s \<Longrightarrow>
      ok (push x s) \<and> items (push x s) = x # items s \<and> cap (push x s) = cap s"
begin

text \<open>Last in, first out at the front.\<close>

lemma lifo:
  assumes "ok s" "length (items s) < cap s"
  shows "fst (deq (push x s)) = x" "items (snd (deq (push x s))) = items s"
  using push [OF assms, of x] deq [of "push x s"] by auto

end

end
