(* ===== verification/OS_Q_Props.thy ===== *)
theory OS_Q_Props
  imports OS_Init Fifo
begin

text \<open>
  The ring of a message queue implements a bounded double-ended queue: the interpretation of
  \<open>bounded_deque\<close> on \<open>q_put\<close>, \<open>q_get\<close> and \<open>q_put_front\<close>. The services of \<open>os_q.c\<close> are these three with guards.
\<close>

section \<open>The ring\<close>

definition q_out :: "os_q \<Rightarrow> nat" where
  "q_out q = (OSQOut q - OSQStart q) div slot_bytes"

definition q_slot :: "os_q \<Rightarrow> nat \<Rightarrow> ptr" where
  "q_slot q i = OSQStart q + slot_bytes * (i mod unat (OSQSize q))"

definition q_items :: "ptr \<Rightarrow> os \<Rightarrow> ptr list" where
  "q_items pq s = (let q = OSQMem s pq
     in map (\<lambda>i. app_mem s (q_slot q (q_out q + i))) [0..<unat (OSQEntries q)])"

definition q_ok :: "ptr \<Rightarrow> os \<Rightarrow> bool" where
  "q_ok pq s = (let q = OSQMem s pq
     in OSQSize q \<noteq> 0 \<and> OSQEnd q = OSQStart q + slot_bytes * unat (OSQSize q)
        \<and> OSQEntries q \<le> OSQSize q \<and> q_out q < unat (OSQSize q)
        \<and> OSQOut q = OSQStart q + slot_bytes * q_out q
        \<and> OSQIn q = q_slot q (q_out q + unat (OSQEntries q)))"

definition q_cap :: "ptr \<Rightarrow> os \<Rightarrow> nat" where
  "q_cap pq s = unat (OSQSize (OSQMem s pq))"

lemma slot_next:
  assumes "n \<noteq> 0"
  shows "(if a + 4 * (i mod n) + 4 = a + 4 * n then a else a + 4 * (i mod n) + 4) = a + 4 * (Suc i mod n)"
  using assms mod_less_divisor [of n i] by (auto simp: mod_Suc)

lemma slot_inj_le:
  assumes "i \<le> j" "j < n" "(k + i) mod n = (k + j) mod n"
  shows "i = (j :: nat)"
proof -
  have "n dvd (k + j) - (k + i)" using assms mod_eq_dvd_iff_nat [of "k + i" "k + j" n] by simp
  then have "n dvd j - i" by simp
  with assms show ?thesis by (auto dest: dvd_imp_le)
qed

lemma slot_inj: "i < n \<Longrightarrow> j < n \<Longrightarrow> (k + i) mod n = (k + j) mod n \<Longrightarrow> i = (j :: nat)"
  using slot_inj_le [of i j n k] slot_inj_le [of j i n k] by (cases "i \<le> j") auto

lemma q_slot_eq: "i < unat (OSQSize q) \<Longrightarrow> j < unat (OSQSize q) \<Longrightarrow>
    q_slot q (k + i) = q_slot q (k + j) \<longleftrightarrow> i = j"
  by (auto simp: q_slot_def dest: slot_inj)

text \<open>What the three operations do to a queue control block and the slots.\<close>

lemma q_put_sel:
  "OSQMem (q_put pq m s) pq = (let q = OSQMem s pq; i = OSQIn q + slot_bytes
     in q\<lparr>OSQIn := (if i = OSQEnd q then OSQStart q else i), OSQEntries := OSQEntries q + 1\<rparr>)"
  "app_mem (q_put pq m s) = (app_mem s)(OSQIn (OSQMem s pq) := m)"
  by (simp_all add: q_put_def Let_def)

lemma q_get_sel:
  "fst (q_get pq s) = app_mem s (OSQOut (OSQMem s pq))"
  "OSQMem (snd (q_get pq s)) pq = (let q = OSQMem s pq; i = OSQOut q + slot_bytes
     in q\<lparr>OSQOut := (if i = OSQEnd q then OSQStart q else i), OSQEntries := OSQEntries q - 1\<rparr>)"
  "app_mem (snd (q_get pq s)) = app_mem s"
  by (simp_all add: q_get_def Let_def)

lemma q_put_front_sel:
  "OSQMem (q_put_front pq m s) pq = (let q = OSQMem s pq
     in q\<lparr>OSQOut := (if OSQOut q = OSQStart q then OSQEnd q else OSQOut q) - slot_bytes,
          OSQEntries := OSQEntries q + 1\<rparr>)"
  "app_mem (q_put_front pq m s)
     = (app_mem s)((if OSQOut (OSQMem s pq) = OSQStart (OSQMem s pq) then OSQEnd (OSQMem s pq)
                    else OSQOut (OSQMem s pq)) - slot_bytes := m)"
  by (simp_all add: q_put_front_def Let_def)

lemma q_put_ok:
  assumes ok: "q_ok pq s" and room: "length (q_items pq s) < q_cap pq s"
  shows "q_ok pq (q_put pq m s) \<and> q_items pq (q_put pq m s) = q_items pq s @ [m]
    \<and> q_cap pq (q_put pq m s) = q_cap pq s"
proof -
  define q n k e where "q = OSQMem s pq" and "n = unat (OSQSize q)" and "k = q_out q" and "e = unat (OSQEntries q)"
  have q: "OSQSize q \<noteq> 0" "n \<noteq> 0" "OSQEnd q = OSQStart q + 4 * n" "k < n" "OSQOut q = OSQStart q + 4 * k"
    "OSQIn q = q_slot q (k + e)"
    using ok by (simp_all add: q_ok_def q_def n_def k_def e_def Let_def unat_eq_0)
  have e: "e < n" using room by (simp add: q_items_def q_cap_def q_def n_def e_def Let_def)
  define q' where "q' = OSQMem (q_put pq m s) pq"
  have nxt: "OSQIn q' = q_slot q (k + Suc e)"
    using slot_next [OF q(2), of "OSQStart q" "k + e"] q(3,6)
    by (simp add: q'_def q_put_sel q_def [symmetric] Let_def q_slot_def n_def [symmetric] split: if_splits)
  have n: "n < 65536" unfolding n_def using unsigned_less [of "OSQSize q", where 'a = nat] by simp
  have ent: "unat (OSQEntries q') = Suc e"
    using e n by (simp add: q'_def q_put_sel q_def [symmetric] Let_def e_def unat_word_ariths)
  have same: "OSQStart q' = OSQStart q" "OSQSize q' = OSQSize q" "OSQEnd q' = OSQEnd q" "OSQOut q' = OSQOut q"
    by (simp_all add: q'_def q_put_sel q_def [symmetric] Let_def)
  then have slot: "q_slot q' = q_slot q" "q_out q' = k" by (simp_all add: q_slot_def q_out_def k_def fun_eq_iff)
  have "q_ok pq (q_put pq m s)"
    using q nxt same slot ent e by (simp add: q_ok_def q'_def [symmetric] n_def word_le_nat_alt Let_def)
  moreover have "q_items pq (q_put pq m s) = q_items pq s @ [m]"
  proof -
    have "app_mem (q_put pq m s) (q_slot q (k + i)) = (if i = e then m else app_mem s (q_slot q (k + i)))" if "i \<le> e" for i
      using q_slot_eq [of i q e k] that e q(6) by (simp add: q_put_sel q_def [symmetric] n_def)
    then show ?thesis
      by (simp add: q_items_def q'_def [symmetric] q_def [symmetric] slot ent Let_def k_def [symmetric] e_def [symmetric])
  qed
  moreover have "q_cap pq (q_put pq m s) = q_cap pq s"
    using same by (simp add: q_cap_def q'_def [symmetric] q_def [symmetric])
  ultimately show ?thesis by blast
qed


lemma q_get_ok:
  assumes ok: "q_ok pq s" and ne: "q_items pq s \<noteq> []"
  shows "q_ok pq (snd (q_get pq s)) \<and> q_items pq s = fst (q_get pq s) # q_items pq (snd (q_get pq s))
    \<and> q_cap pq (snd (q_get pq s)) = q_cap pq s"
proof -
  define q n k e where "q = OSQMem s pq" and "n = unat (OSQSize q)" and "k = q_out q" and "e = unat (OSQEntries q)"
  have q: "OSQSize q \<noteq> 0" "n \<noteq> 0" "OSQEnd q = OSQStart q + 4 * n" "k < n" "OSQOut q = OSQStart q + 4 * k"
    "OSQIn q = q_slot q (k + e)" "e \<le> n"
    using ok by (simp_all add: q_ok_def q_def n_def k_def e_def Let_def unat_eq_0 word_le_nat_alt)
  have e: "e \<noteq> 0" using ne by (simp add: q_items_def q_def e_def Let_def)
  then have nz: "OSQEntries q \<noteq> 0" by (auto simp: e_def)
  define q' where "q' = OSQMem (snd (q_get pq s)) pq"
  have out: "OSQOut q' = OSQStart q + 4 * (Suc k mod n)"
    using slot_next [OF q(2), of "OSQStart q" k] q(3-5)
    by (simp add: q'_def q_get_sel q_def [symmetric] Let_def split: if_splits)
  have ent: "unat (OSQEntries q') = e - 1"
    using nz unat_minus_one [OF nz]
    by (simp add: q'_def q_get_sel q_def [symmetric] Let_def e_def)
  have same: "OSQStart q' = OSQStart q" "OSQSize q' = OSQSize q" "OSQEnd q' = OSQEnd q" "OSQIn q' = OSQIn q"
    by (simp_all add: q'_def q_get_sel q_def [symmetric] Let_def)
  then have slot: "q_slot q' = q_slot q" "q_out q' = Suc k mod n"
    using out by (simp_all add: q_slot_def q_out_def fun_eq_iff)
  have wrap: "q_slot q (Suc k mod n + i) = q_slot q (k + Suc i)" for i
    by (simp add: q_slot_def n_def mod_simps)
  have "OSQIn q = q_slot q (Suc k mod n + (e - 1))" using wrap [of "e - 1"] e q(6) by simp
  moreover have "Suc k mod n < n" using q(2) by simp
  ultimately have "q_ok pq (snd (q_get pq s))"
    using q out same slot ent by (simp add: q_ok_def q'_def [symmetric] n_def word_le_nat_alt Let_def)
  moreover have "q_items pq s = fst (q_get pq s) # q_items pq (snd (q_get pq s))"
  proof -
    have "[0..<e] = 0 # map Suc [0..<e - 1]" using e by (simp add: map_Suc_upt upt_conv_Cons)
    moreover have "OSQOut q = q_slot q k" using q(4,5) by (simp add: q_slot_def n_def)
    ultimately show ?thesis
      by (simp add: q_items_def q_get_sel(1,3) q'_def [symmetric] q_def [symmetric] slot ent wrap Let_def
          k_def [symmetric] e_def [symmetric] comp_def)
  qed
  moreover have "q_cap pq (snd (q_get pq s)) = q_cap pq s"
    using same by (simp add: q_cap_def q'_def [symmetric] q_def [symmetric])
  ultimately show ?thesis by blast
qed

lemma slot_prev:
  assumes "k < n"
  shows "(if k = 0 then a + 4 * n else a + 4 * k) - 4 = a + 4 * ((k + (n - 1)) mod n)"
    "((k + (n - 1)) mod n + 1) mod n = (k :: nat)"
  using assms by (cases k; simp add: mod_simps)+

lemma q_put_front_ok:
  assumes ok: "q_ok pq s" and room: "length (q_items pq s) < q_cap pq s"
  shows "q_ok pq (q_put_front pq m s) \<and> q_items pq (q_put_front pq m s) = m # q_items pq s
    \<and> q_cap pq (q_put_front pq m s) = q_cap pq s"
proof -
  define q n k e where "q = OSQMem s pq" and "n = unat (OSQSize q)" and "k = q_out q" and "e = unat (OSQEntries q)"
  have q: "OSQSize q \<noteq> 0" "n \<noteq> 0" "OSQEnd q = OSQStart q + 4 * n" "k < n" "OSQOut q = OSQStart q + 4 * k"
    "OSQIn q = q_slot q (k + e)"
    using ok by (simp_all add: q_ok_def q_def n_def k_def e_def Let_def unat_eq_0)
  have e: "e < n" using room by (simp add: q_items_def q_cap_def q_def n_def e_def Let_def)
  define k' where "k' = (k + (n - 1)) mod n"
  note prev = slot_prev [OF q(4), folded k'_def]
  have k': "k' < n" using q(2) by (simp add: k'_def)
  define q' where "q' = OSQMem (q_put_front pq m s) pq"
  have out: "OSQOut q' = OSQStart q + 4 * k'"
    using prev(1) [of "OSQStart q"] q(3,5)
    by (simp add: q'_def q_put_front_sel q_def [symmetric] Let_def split: if_splits)
  have n: "n < 65536" unfolding n_def using unsigned_less [of "OSQSize q", where 'a = nat] by simp
  have ent: "unat (OSQEntries q') = Suc e"
    using e n by (simp add: q'_def q_put_front_sel q_def [symmetric] Let_def e_def unat_word_ariths)
  have same: "OSQStart q' = OSQStart q" "OSQSize q' = OSQSize q" "OSQEnd q' = OSQEnd q" "OSQIn q' = OSQIn q"
    by (simp_all add: q'_def q_put_front_sel q_def [symmetric] Let_def)
  then have slot: "q_slot q' = q_slot q" "q_out q' = k'"
    using out by (simp_all add: q_slot_def q_out_def fun_eq_iff)
  have wrap: "q_slot q (k' + Suc i) = q_slot q (k + i)" for i
  proof -
    have "(k' + Suc i) mod n = ((k' + 1) mod n + i) mod n" by (simp add: mod_simps)
    then show ?thesis by (simp add: q_slot_def n_def [symmetric] prev(2) [unfolded Suc_eq_plus1 [symmetric]])
  qed
  have "q_ok pq (q_put_front pq m s)"
    using q out same slot ent e k' wrap [of e] by (simp add: q_ok_def q'_def [symmetric] n_def word_le_nat_alt Let_def)
  moreover have "q_items pq (q_put_front pq m s) = m # q_items pq s"
  proof -
    have at: "app_mem (q_put_front pq m s) = (app_mem s)(q_slot q k' := m)"
      using prev(1) [of "OSQStart q"] q(3,5) k'
      by (simp add: q_put_front_sel q_def [symmetric] q_slot_def n_def [symmetric] split: if_splits)
    have "q_slot q (k + i) \<noteq> q_slot q k'" if "i < e" for i
      using q_slot_eq [of 0 q "Suc i" k'] that e wrap [of i] by (simp add: n_def)
    then have "map (\<lambda>i. app_mem (q_put_front pq m s) (q_slot q (k' + i))) [0..<Suc e]
        = m # map (\<lambda>i. app_mem s (q_slot q (k + i))) [0..<e]"
      unfolding upt_conv_Cons [OF zero_less_Suc] map_Suc_upt [symmetric]
      by (auto simp: at wrap comp_def simp del: add_Suc_right)
    then show ?thesis
      by (simp only: q_items_def q'_def [symmetric] q_def [symmetric] slot ent Let_def k_def [symmetric] e_def [symmetric])
  qed
  moreover have "q_cap pq (q_put_front pq m s) = q_cap pq s"
    using same by (simp add: q_cap_def q'_def [symmetric] q_def [symmetric])
  ultimately show ?thesis by blast
qed

lemma q_bounded: "q_ok pq s \<Longrightarrow> length (q_items pq s) \<le> q_cap pq s"
  by (simp add: q_ok_def q_items_def q_cap_def Let_def word_le_nat_alt)

interpretation msgq: bounded_deque "q_ok pq" "q_items pq" "q_cap pq" "q_put pq" "q_get pq" "q_put_front pq"
  for pq
  by unfold_locales (fact q_bounded q_put_ok q_get_ok q_put_front_ok)+

section \<open>The services\<close>

definition q_svc_ok :: "ptr \<Rightarrow> ptr \<Rightarrow> os \<Rightarrow> bool" where
  "q_svc_ok e pq s \<longleftrightarrow> OSEventType (OSEventMem s e) = OS_EVENT_TYPE_Q \<and> OSEventGrp (OSEventMem s e) = 0
     \<and> OSEventPtr (OSEventMem s e) = pq \<and> q_ok pq s"

lemma q_event_frame [simp]:
  "OSEventMem (q_put pq m s) = OSEventMem s" "OSEventMem (q_put_front pq m s) = OSEventMem s"
  "OSEventMem (snd (q_get pq s)) = OSEventMem s" "OSEventMem (q_flush pq s) = OSEventMem s"
  by (simp_all add: q_put_def q_put_front_def q_get_def q_flush_def Let_def)

lemma q_full_iff: "q_ok pq s \<Longrightarrow> OSQSize (OSQMem s pq) \<le> OSQEntries (OSQMem s pq)
    \<longleftrightarrow> \<not> length (q_items pq s) < q_cap pq s"
  by (simp add: q_items_def q_cap_def Let_def word_le_nat_alt not_less)

lemma q_empty_iff: "OSQEntries (OSQMem s pq) > 0 \<longleftrightarrow> q_items pq s \<noteq> []"
  by (auto simp: q_items_def Let_def word_gt_0 unat_eq_0)

lemma OSQ_svc:
  assumes "q_svc_ok e pq s"
  shows "OSQPost e m s = (if length (q_items pq s) < q_cap pq s then (OS_ERR_NONE, q_put pq m s) else (OS_ERR_Q_FULL, s))"
    "OSQPostFront e m s
       = (if length (q_items pq s) < q_cap pq s then (OS_ERR_NONE, q_put_front pq m s) else (OS_ERR_Q_FULL, s))"
    "OSQAccept e s = (if q_items pq s \<noteq> [] then ((fst (q_get pq s), OS_ERR_NONE), snd (q_get pq s))
       else ((NULL, OS_ERR_Q_EMPTY), s))"
    "snd (OSQFlush e s) = q_flush pq s"
  using assms
  by (simp_all add: q_svc_ok_def OSQPost_def OSQPostFront_def OSQAccept_def OSQFlush_def Let_def
      q_full_iff q_empty_iff split_beta)

lemma q_flush_ok: "q_ok pq s \<Longrightarrow> q_ok pq (q_flush pq s) \<and> q_items pq (q_flush pq s) = []"
  by (simp add: q_flush_def q_ok_def q_items_def q_out_def q_slot_def Let_def unat_gt_0)

abbreviation (input) accept1 :: "ptr \<Rightarrow> os \<Rightarrow> ptr \<times> os" where
  "accept1 e s \<equiv> (fst (fst (OSQAccept e s)), snd (OSQAccept e s))"

interpretation svcq: bounded_deque "q_svc_ok e pq" "q_items pq" "q_cap pq" "\<lambda>m s. snd (OSQPost e m s)"
    "accept1 e" "\<lambda>m s. snd (OSQPostFront e m s)"
  for e pq
proof unfold_locales
  fix s assume ok: "q_svc_ok e pq s"
  then have r: "q_ok pq s" by (simp add: q_svc_ok_def)
  show "length (q_items pq s) \<le> q_cap pq s" using r by (rule msgq.bounded)
  show "q_svc_ok e pq (snd (OSQPost e m s)) \<and> q_items pq (snd (OSQPost e m s)) = q_items pq s @ [m]
    \<and> q_cap pq (snd (OSQPost e m s)) = q_cap pq s" if "length (q_items pq s) < q_cap pq s" for m
    using ok msgq.enq [OF r that, of m] that by (simp add: OSQ_svc [OF ok]) (simp add: q_svc_ok_def)
  show "q_svc_ok e pq (snd (OSQPostFront e m s)) \<and> q_items pq (snd (OSQPostFront e m s)) = m # q_items pq s
    \<and> q_cap pq (snd (OSQPostFront e m s)) = q_cap pq s" if "length (q_items pq s) < q_cap pq s" for m
    using ok msgq.push [OF r that, of m] that by (simp add: OSQ_svc [OF ok]) (simp add: q_svc_ok_def)
  show "q_svc_ok e pq (snd (accept1 e s)) \<and> q_items pq s = fst (accept1 e s) # q_items pq (snd (accept1 e s))
    \<and> q_cap pq (snd (accept1 e s)) = q_cap pq s" if "q_items pq s \<noteq> []"
    using ok msgq.deq [OF r that] that by (simp add: OSQ_svc [OF ok]) (simp add: q_svc_ok_def)
qed

text \<open>A queue that the ring serves, for the witnesses: 2 slots, empty, its output slot the second.\<close>

definition demo_q :: os where
  "demo_q = ram0\<lparr>OSEventMem := (\<lambda>_. \<lparr>OSEventType = OS_EVENT_TYPE_Q, OSEventPtr = 8, OSEventCnt = 0,
       OSEventGrp = 0, OSEventTbl = (\<lambda>_. 0)\<rparr>),
     OSQMem := (\<lambda>_. \<lparr>OSQPtr = NULL, OSQStart = 100, OSQEnd = 108, OSQIn = 104, OSQOut = 104, OSQSize = 2,
       OSQEntries = 0\<rparr>)\<rparr>"

lemma demo_q: "q_svc_ok 5 8 demo_q" "q_items 8 demo_q = []" "q_cap 8 demo_q = 2"
  by (simp_all add: demo_q_def q_svc_ok_def q_ok_def q_items_def q_cap_def q_out_def q_slot_def Let_def)

text \<open>
  C7: A message queue without waiters is a bounded list of messages. \<open>OSQPost\<close> appends and
  \<open>OSQPostFront\<close> prepends unless the queue is full, in which case they report
  \<open>OS_ERR_Q_FULL\<close> and change nothing; \<open>OSQAccept\<close> returns and removes the first message, or
  reports \<open>OS_ERR_Q_EMPTY\<close>; \<open>OSQFlush\<close> empties the queue.
\<close>

theorem OSQ_refines_list:
  assumes "q_svc_ok e pq s"
  shows "(fst (OSQPost e m s), q_items pq (snd (OSQPost e m s))) =
      (if length (q_items pq s) < q_cap pq s then (OS_ERR_NONE, q_items pq s @ [m]) else (OS_ERR_Q_FULL, q_items pq s))
    \<and> (fst (OSQPostFront e m s), q_items pq (snd (OSQPostFront e m s))) =
      (if length (q_items pq s) < q_cap pq s then (OS_ERR_NONE, m # q_items pq s) else (OS_ERR_Q_FULL, q_items pq s))
    \<and> (fst (OSQAccept e s), q_items pq (snd (OSQAccept e s))) =
      (case q_items pq s of [] \<Rightarrow> ((NULL, OS_ERR_Q_EMPTY), []) | m' # ms \<Rightarrow> ((m', OS_ERR_NONE), ms))
    \<and> q_items pq (snd (OSQFlush e s)) = []
    \<and> q_svc_ok e pq (snd (OSQPost e m s)) \<and> q_svc_ok e pq (snd (OSQPostFront e m s))
    \<and> q_svc_ok e pq (snd (OSQAccept e s)) \<and> q_svc_ok e pq (snd (OSQFlush e s))"
proof -
  note svc = OSQ_svc [OF assms]
  have r: "q_ok pq s" using assms by (simp add: q_svc_ok_def)
  have acc: "(fst (OSQAccept e s), q_items pq (snd (OSQAccept e s))) =
      (case q_items pq s of [] \<Rightarrow> ((NULL, OS_ERR_Q_EMPTY), []) | m' # ms \<Rightarrow> ((m', OS_ERR_NONE), ms))
      \<and> q_svc_ok e pq (snd (OSQAccept e s))"
  proof (cases "q_items pq s = []")
    case False
    from svcq.deq [OF assms this] False show ?thesis by (simp add: svc(3) split: list.split)
  qed (use assms in \<open>simp add: svc(3)\<close>)
  have "q_svc_ok e pq (snd (OSQFlush e s))" "q_items pq (snd (OSQFlush e s)) = []"
    using q_flush_ok [OF r] assms by (simp_all add: svc(4) q_svc_ok_def)
  then show ?thesis
    using acc svcq.enq [OF assms, of m] svcq.push [OF assms, of m] assms
    by (cases "length (q_items pq s) < q_cap pq s") (simp_all add: svc(1,2))
qed

theorem OSQ_refines_list_witness:
  "fst (OSQPost 5 7 demo_q) = OS_ERR_NONE \<and> q_items 8 (snd (OSQPost 5 7 demo_q)) = [7]
    \<and> fst (OSQAccept 5 demo_q) = (NULL, OS_ERR_Q_EMPTY)"
  using OSQ_refines_list [OF demo_q(1), of 7] by (simp add: demo_q)

text \<open>
  First in, first out: messages posted to an empty queue with room for all of them come
  out of \<open>OSQAccept\<close> in the order they were posted, wherever in its array the ring stands.
\<close>

theorem OSQ_fifo:
  assumes "q_svc_ok e pq s" "q_items pq s = []" "length ms \<le> q_cap pq s"
  shows "fst (take_out (\<lambda>s. (fst (fst (OSQAccept e s)), snd (OSQAccept e s))) (length ms)
      (fold (\<lambda>m s. snd (OSQPost e m s)) ms s)) = ms"
  by (rule svcq.fifo [OF assms])

theorem OSQ_fifo_witness:
  "fst (take_out (\<lambda>s. (fst (fst (OSQAccept 5 s)), snd (OSQAccept 5 s))) (length [7 :: ptr, 9])
      (fold (\<lambda>m s. snd (OSQPost 5 m s)) [7 :: ptr, 9] demo_q)) = [7, 9]"
  by (rule OSQ_fifo [OF demo_q(1,2)]) (simp add: demo_q)

end
