(* ===== verification/OS_Mem_Props.thy ===== *)
theory OS_Mem_Props
  imports OS_Init
begin

text \<open>
  A memory partition is a stack of distinct blocks: what \<open>OSMemCreate\<close> builds, and what
  \<open>OSMemGet\<close> and \<open>OSMemPut\<close> do to it. The facts about the linked list come from the
  \<open>free_list\<close> interpretation \<open>blk\<close> in \<open>OS_Mem\<close>.
\<close>

definition mem_blocks :: "ptr \<Rightarrow> ptr list \<Rightarrow> os \<Rightarrow> bool" where
  "mem_blocks pm bs s \<longleftrightarrow> chain (app_mem s) (OSMemFree (OSMemMem s pm)) bs \<and> distinct bs
     \<and> length bs = unat (OSMemNFree (OSMemMem s pm))"




lemma OSMemGet_blocks:
  assumes "mem_blocks pm bs s"
  shows "case bs of [] \<Rightarrow> OSMemGet pm s = ((NULL, OS_ERR_MEM_NO_FREE_BLKS), s)
    | b # bs' \<Rightarrow> fst (OSMemGet pm s) = (b, OS_ERR_NONE) \<and> mem_blocks pm bs' (snd (OSMemGet pm s))
        \<and> OSMemNBlks (OSMemMem (snd (OSMemGet pm s)) pm) = OSMemNBlks (OSMemMem s pm)"
proof (cases bs)
  case Nil
  then show ?thesis using assms by (simp add: mem_blocks_def OSMemGet_def word_gt_0 unat_eq_0)
next
  case (Cons b bs')
  then have c: "chain (app_mem s) (OSMemFree (OSMemMem s pm)) (b # bs')" "b \<notin> set bs'" "distinct bs'"
    and len: "unat (OSMemNFree (OSMemMem s pm)) = Suc (length bs')"
    using assms by (auto simp: mem_blocks_def)
  from len have ne: "OSMemNFree (OSMemMem s pm) \<noteq> 0" by auto
  then have eq: "OSMemGet pm s = ((OSMemFree (OSMemMem s pm), OS_ERR_NONE), blk_take pm s)"
    by (simp add: OSMemGet_def word_gt_0)
  have "mem_blocks pm bs' (blk_take pm s)"
    unfolding mem_blocks_def
    using blk.take_chain(2) [OF c(1,2)] c(3) len unat_minus_one [OF ne] by (simp add: blk_take_def)
  then show ?thesis using blk.take_chain(1) [OF c(1,2)] Cons eq by (simp add: blk_take_def)
qed

lemma OSMemPut_blocks:
  assumes "mem_blocks pm bs s"
  shows "OSMemNFree (OSMemMem s pm) \<ge> OSMemNBlks (OSMemMem s pm) \<Longrightarrow> OSMemPut pm b s = (OS_ERR_MEM_FULL, s)"
    "OSMemNFree (OSMemMem s pm) < OSMemNBlks (OSMemMem s pm) \<Longrightarrow> b \<notin> set bs \<Longrightarrow> b \<noteq> NULL \<Longrightarrow>
      fst (OSMemPut pm b s) = OS_ERR_NONE \<and> mem_blocks pm (b # bs) (snd (OSMemPut pm b s))
        \<and> OSMemNBlks (OSMemMem (snd (OSMemPut pm b s)) pm) = OSMemNBlks (OSMemMem s pm)"
proof -
  show "OSMemNFree (OSMemMem s pm) \<ge> OSMemNBlks (OSMemMem s pm) \<Longrightarrow> OSMemPut pm b s = (OS_ERR_MEM_FULL, s)"
    by (simp add: OSMemPut_def)
  assume less: "OSMemNFree (OSMemMem s pm) < OSMemNBlks (OSMemMem s pm)" and b: "b \<notin> set bs" "b \<noteq> NULL"
  have eq: "OSMemPut pm b s = (OS_ERR_NONE, blk_give pm b s)" using less by (simp add: OSMemPut_def)
  have c: "chain (app_mem s) (OSMemFree (OSMemMem s pm)) bs" using assms by (simp add: mem_blocks_def)
  have "unat (OSMemNFree (OSMemMem s pm) + 1) = Suc (unat (OSMemNFree (OSMemMem s pm)))"
    by (rule unat_inc [OF less])
  then have "mem_blocks pm (b # bs) (blk_give pm b s)"
    unfolding mem_blocks_def
    using blk.give_chain [OF c b] assms b by (simp add: mem_blocks_def blk_give_def Let_def)
  then show "fst (OSMemPut pm b s) = OS_ERR_NONE \<and> mem_blocks pm (b # bs) (snd (OSMemPut pm b s))
        \<and> OSMemNBlks (OSMemMem (snd (OSMemPut pm b s)) pm) = OSMemNBlks (OSMemMem s pm)"
    by (simp add: eq blk_give_def Let_def)
qed

section \<open>Properties\<close>




text \<open>
  C9: The free blocks of a partition are a stack. \<open>OSMemGet\<close> pops the top; \<open>OSMemPut\<close> of a
  block that is not free pushes it, and is refused with \<open>OS_ERR_MEM_FULL\<close> when all blocks
  are already free; getting after putting returns the block that was put.
\<close>

theorem OSMem_stack:
  assumes "mem_blocks pm bs s" "blk \<notin> set bs" "blk \<noteq> NULL"
  shows "(case bs of [] \<Rightarrow> OSMemGet pm s = ((NULL, OS_ERR_MEM_NO_FREE_BLKS), s)
      | b # bs' \<Rightarrow> fst (OSMemGet pm s) = (b, OS_ERR_NONE) \<and> mem_blocks pm bs' (snd (OSMemGet pm s)))
    \<and> (if OSMemNFree (OSMemMem s pm) < OSMemNBlks (OSMemMem s pm)
       then fst (OSMemPut pm blk s) = OS_ERR_NONE \<and> mem_blocks pm (blk # bs) (snd (OSMemPut pm blk s))
         \<and> fst (OSMemGet pm (snd (OSMemPut pm blk s))) = (blk, OS_ERR_NONE)
         \<and> mem_blocks pm bs (snd (OSMemGet pm (snd (OSMemPut pm blk s))))
       else OSMemPut pm blk s = (OS_ERR_MEM_FULL, s))"
proof (intro conjI)
  show "case bs of [] \<Rightarrow> OSMemGet pm s = ((NULL, OS_ERR_MEM_NO_FREE_BLKS), s)
      | b # bs' \<Rightarrow> fst (OSMemGet pm s) = (b, OS_ERR_NONE) \<and> mem_blocks pm bs' (snd (OSMemGet pm s))"
    using OSMemGet_blocks [OF assms(1)] by (auto split: list.splits)
  show "if OSMemNFree (OSMemMem s pm) < OSMemNBlks (OSMemMem s pm)
       then fst (OSMemPut pm blk s) = OS_ERR_NONE \<and> mem_blocks pm (blk # bs) (snd (OSMemPut pm blk s))
         \<and> fst (OSMemGet pm (snd (OSMemPut pm blk s))) = (blk, OS_ERR_NONE)
         \<and> mem_blocks pm bs (snd (OSMemGet pm (snd (OSMemPut pm blk s))))
       else OSMemPut pm blk s = (OS_ERR_MEM_FULL, s)"
  proof (cases "OSMemNFree (OSMemMem s pm) < OSMemNBlks (OSMemMem s pm)")
    case True
    note p = OSMemPut_blocks(2) [OF assms(1) True assms(2,3)]
    then show ?thesis using OSMemGet_blocks [of pm "blk # bs" "snd (OSMemPut pm blk s)"] True by simp
  qed (use OSMemPut_blocks(1) [OF assms(1)] in \<open>simp add: not_less\<close>)
qed

theorem OSMem_stack_witness:
  "fst (OSMemPut 7 500 (ram0\<lparr>OSMemMem := (\<lambda>_. zero_mem\<lparr>OSMemNBlks := 1\<rparr>)\<rparr>)) = OS_ERR_NONE"
proof -
  let ?s = "ram0\<lparr>OSMemMem := (\<lambda>_. zero_mem\<lparr>OSMemNBlks := 1\<rparr>)\<rparr>"
  have "mem_blocks 7 [] ?s" by (simp add: mem_blocks_def zero_mem_def)
  then have "fst (OSMemPut 7 500 ?s) = OS_ERR_NONE"
    using OSMem_stack [of 7 "[]" ?s 500] by (simp add: zero_mem_def)
  then show ?thesis .
qed

end
