(* ===== verification/OS_Event_Props.thy ===== *)
theory OS_Event_Props
  imports OS_Clock
begin

text \<open>
  Waiting and waking: which task an event wakes, the hand-over from a post to a blocked pend,
  and the timeout of a pend, for semaphores and for the code the event types share.
\<close>

lemma top_waiter_Min:
  assumes "task_inv s" "e \<in> events" "waiting s e \<noteq> {}"
  shows "top_waiter s e = Min (waiting s e)"
  using top_waiter [OF assms] by (intro Min_eqI [symmetric]) auto

lemma waiting_tcb:
  assumes inv: "task_inv s" and e: "e \<in> events" and p: "p \<in> waiting s e"
  shows "p < 64" "is_task (OSTCBPrioTbl s p)" "OSTCBEventPtr (OSTCBMem s (OSTCBPrioTbl s p)) = e"
    "tcb_ok s p (OSTCBMem s (OSTCBPrioTbl s p))"
proof -
  show lt: "p < 64" using p by (simp add: waiting_def bm_prios_less)
  then have ok: "task_ok s p" using inv by (simp add: task_inv_def)
  show t: "is_task (OSTCBPrioTbl s p)" using ok p e by (auto simp: task_ok_def split: if_splits)
  show "tcb_ok s p (OSTCBMem s (OSTCBPrioTbl s p))" using ok t by (simp add: task_ok_def)
  then show "OSTCBEventPtr (OSTCBMem s (OSTCBPrioTbl s p)) = e" using p e by (auto simp: tcb_ok_def)
qed

lemma rdy_one_effect:
  assumes inv: "task_inv s" and e: "e \<in> events" and ne: "waiting s e \<noteq> {}"
    and s': "s' = snd (OS_EventTaskRdy e pmsg msk ps s)" and p: "p = Min (waiting s e)" and q: "q = OSTCBPrioTbl s p"
  shows "fst (OS_EventTaskRdy e pmsg msk ps s) = p"
    "waiting s' x = (if x = e then waiting s e - {p} else waiting s x)"
    "ready s' = (if (OSTCBStat (OSTCBMem s q) AND NOT msk) AND OS_STAT_SUSPEND = 0 then insert p (ready s) else ready s)"
    "OSTCBMem s' = (OSTCBMem s)(q := (OSTCBMem s q)\<lparr>OSTCBDly := 0, OSTCBMsg := pmsg,
       OSTCBStat := OSTCBStat (OSTCBMem s q) AND NOT msk, OSTCBStatPend := ps, OSTCBEventPtr := NULL\<rparr>)"
proof -
  have t: "top_waiter s e = p" using top_waiter_Min [OF inv e ne] p by simp
  then have pw: "p \<in> waiting s e" using top_waiter(1) [OF inv e ne] by simp
  note w = waiting_tcb [OF inv e pw]
  note nf = rdy_one_nf [OF inv e ne, of pmsg msk ps, unfolded t, folded q]
  show "fst (OS_EventTaskRdy e pmsg msk ps s) = p" by (simp add: nf)
  show "waiting s' x = (if x = e then waiting s e - {p} else waiting s x)"
    using bm.prios_del [OF w(1), of "ev_wait (OSEventMem s e)"] by (simp add: s' nf waiting_def [of s])
  show "ready s' = (if (OSTCBStat (OSTCBMem s q) AND NOT msk) AND OS_STAT_SUSPEND = 0 then insert p (ready s) else ready s)"
    using bm.prios_ins [OF w(1), of "rdy s"] by (simp add: s' nf ready_def [of s])
  show "OSTCBMem s' = (OSTCBMem s)(q := (OSTCBMem s q)\<lparr>OSTCBDly := 0, OSTCBMsg := pmsg,
       OSTCBStat := OSTCBStat (OSTCBMem s q) AND NOT msk, OSTCBStatPend := ps, OSTCBEventPtr := NULL\<rparr>)"
    by (simp add: s' nf wake_tcb_def)
qed

lemma cur_Min:
  assumes "os_inv False s" "OSRunning s" "OSIntNesting s = 0" "OSLockNesting s = 0"
  shows "OSPrioCur s = Min (ready s)" "finite (ready s)" "OSPrioCur s \<in> ready s"
    "OSTCBCur s = OSTCBPrioTbl s (OSPrioCur s)" 
proof -
  note i = os_invD [OF assms(1)]
  show "OSPrioCur s = Min (ready s)" using i(7) assms top_ready(2) [OF i(4,5)] by (simp add: sched_inv_def top_ready_def)
  show "finite (ready s)" by simp
  show "OSPrioCur s \<in> ready s" by (rule cur_ready [OF i(1) assms(2-4)])
  show "OSTCBCur s = OSTCBPrioTbl s (OSPrioCur s)" by (rule cur_task [OF i(1) assms(2)])
qed

text \<open>
  C10: Waking one task of an event wakes the waiting task with the smallest priority number,
  and no other: it leaves the wait list with the message and the wake-up reason in its
  control block, its delay is cancelled, and it becomes ready unless it is suspended.
\<close>

theorem wakes_highest_waiter:
  assumes "reachable ld d s" "e \<in> events" "waiting s e \<noteq> {}"
    and "s' = snd (OS_EventTaskRdy e pmsg msk ps s)" "p = Min (waiting s e)" "q = OSTCBPrioTbl s p"
  shows "fst (OS_EventTaskRdy e pmsg msk ps s) = p
    \<and> waiting s' x = (if x = e then waiting s e - {p} else waiting s x)
    \<and> ready s' = (if (OSTCBStat (OSTCBMem s q) AND NOT msk) AND OS_STAT_SUSPEND = 0 then insert p (ready s) else ready s)
    \<and> OSTCBMem s' = (OSTCBMem s)(q := (OSTCBMem s q)\<lparr>OSTCBDly := 0, OSTCBMsg := pmsg,
       OSTCBStat := OSTCBStat (OSTCBMem s q) AND NOT msk, OSTCBStatPend := ps, OSTCBEventPtr := NULL\<rparr>)"
  using rdy_one_effect [OF os_invD(4) [OF reachable_os_inv [OF assms(1)]] assms(2-6)] by blast

theorem wakes_highest_waiter_witness:
  "fst (OS_EventTaskRdy e0 NULL OS_STAT_SEM OS_STAT_PEND_OK demo5) = 5
    \<and> waiting (snd (OS_EventTaskRdy e0 NULL OS_STAT_SEM OS_STAT_PEND_OK demo5)) e0 = {}"
  using wakes_highest_waiter [OF demo5(1) e0_event _ refl refl refl, of NULL OS_STAT_SEM OS_STAT_PEND_OK e0]
  by (simp add: demo5)

section \<open>Posting to a semaphore\<close>

lemma OSSemPost_wakes:
  assumes inv: "os_inv dfr s" and e: "e \<in> events" and ty: "ev_type s e = OS_EVENT_TYPE_SEM" and ne: "waiting s e \<noteq> {}"
  shows "OSSemPost e s = (OS_ERR_NONE, OS_Sched (snd (OS_EventTaskRdy e NULL OS_STAT_SEM OS_STAT_PEND_OK s)))"
  using ev_grp_task [OF inv e] ty ne by (simp add: OSSemPost_def ev_type_def)

text \<open>
  C11: Posting to a semaphore that tasks wait on does not change the count. It hands the
  token to the waiting task with the smallest priority number and, when that task is not
  suspended and more urgent than the poster, the poster is preempted at once.
\<close>

theorem OSSemPost_preempts:
  assumes "reachable ld False s" "OSRunning s" "OSIntNesting s = 0" "OSLockNesting s = 0"
    and "e \<in> events" "ev_type s e = OS_EVENT_TYPE_SEM" "waiting s e \<noteq> {}" "p = Min (waiting s e)"
    and "OSTCBStat (OSTCBMem s (OSTCBPrioTbl s p)) AND OS_STAT_SUSPEND = 0" "s' = snd (OSSemPost e s)"
  shows "fst (OSSemPost e s) = OS_ERR_NONE \<and> OSEventCnt (OSEventMem s' e) = OSEventCnt (OSEventMem s e)
    \<and> waiting s' e = waiting s e - {p} \<and> ready s' = insert p (ready s) \<and> OSPrioCur s' = min p (OSPrioCur s)"
proof -
  note inv = reachable_os_inv [OF assms(1)]
  define s1 where "s1 = snd (OS_EventTaskRdy e NULL OS_STAT_SEM OS_STAT_PEND_OK s)"
  note eff = rdy_one_effect [OF os_invD(4) [OF inv] assms(5,7) s1_def assms(8) refl]
  have post: "OSSemPost e s = (OS_ERR_NONE, OS_Sched s1)"
    unfolding s1_def by (rule OSSemPost_wakes [OF inv assms(5-7)])
  have inv': "os_inv False s'"
    unfolding assms(10) post snd_conv s1_def
    using ev_grp_task [OF inv assms(5)] assms(6,7)
    by (intro wake_one_inv [OF inv assms(5)]) (simp_all add: ev_bit_def)
  have "(OSTCBStat (OSTCBMem s (OSTCBPrioTbl s p)) AND NOT OS_STAT_SEM) AND OS_STAT_SUSPEND = 0"
    using assms(9) by (simp add: and.assoc and.commute and.left_commute)
  then have r: "ready s' = insert p (ready s)" using eff(3) by (simp add: assms(10) post)
  have lev: "OSRunning s'" "OSIntNesting s' = 0" "OSLockNesting s' = 0"
    using assms(2-4) by (simp_all add: assms(10) post s1_def)
  have "OSPrioCur s' = min p (OSPrioCur s)"
    unfolding cur_Min(1) [OF inv' lev] cur_Min(1) [OF inv assms(2-4)] r
    using cur_Min(2,3) [OF inv assms(2-4)] by (intro Min_insert) auto
  then show ?thesis using r eff(2) [of e] by (simp add: assms(10) post) (simp add: s1_def)
qed

theorem OSSemPost_preempts_witness:
  "waiting (snd (OSSemPost e0 demo5)) e0 = {} \<and> OSPrioCur (snd (OSSemPost e0 demo5)) = 5
    \<and> OSEventCnt (OSEventMem (snd (OSSemPost e0 demo5)) e0) = 0"
proof -
  have q: "OSTCBStat (OSTCBMem demo5 (OSTCBPrioTbl demo5 5)) AND OS_STAT_SUSPEND = 0"
    using demo5(12,14) demo3(3) by simp
  have m: "5 = Min (waiting demo5 e0)" by (simp add: demo5)
  show ?thesis
    using OSSemPost_preempts [OF demo5(1,3-5) e0_event demo5(10) _ m q refl] by (simp add: demo5)
qed

section \<open>From pend to post and to timeout\<close>

text \<open>The state right after the current task has blocked on an event.\<close>

lemma pend_block_props:
  assumes inv: "os_inv dfr s" and may: "may_block s" and lev: "OSIntNesting s = 0" "OSLockNesting s = 0"
    and e: "e \<in> events" and k: "k = ev_bit (ev_type s e)" "k \<noteq> 0"
    and s': "s' = pend_block k n e s" and p: "p = OSPrioCur s"
  shows "os_inv dfr s'" "OSRunning s'" "OSIntNesting s' = 0" "OSLockNesting s' = 0" "ready s' = ready s - {p}"
    "waiting s' x = (if x = e then insert p (waiting s e) else waiting s x)" "ev_type s' x = ev_type s x"
    "OSTCBPrioTbl s' = OSTCBPrioTbl s" "p < 64" "p \<noteq> OS_TASK_IDLE_PRIO" "is_task (OSTCBPrioTbl s p)"
    "OSTCBStat (OSTCBMem s' (OSTCBPrioTbl s p)) = k" "OSTCBDly (OSTCBMem s' (OSTCBPrioTbl s p)) = n"
    "OSTCBStatPend (OSTCBMem s' (OSTCBPrioTbl s p)) = OS_STAT_PEND_OK"
    "OSTCBEventPtr (OSTCBMem s' (OSTCBPrioTbl s p)) = e"
    "OSEventCnt (OSEventMem s' x) = OSEventCnt (OSEventMem s x)"
proof -
  have run: "OSRunning s" using may by (simp add: may_block_def)
  note v = pend_block_view [OF inv run e, of k n, folded s', folded p]
  note c = cur_task [OF os_invD(1) [OF inv] run, folded p]
  show "os_inv dfr s'" unfolding s' by (rule pend_block_os_inv [OF inv may lev e k])
  show "OSRunning s'" "OSIntNesting s' = 0" "OSLockNesting s' = 0" "ready s' = ready s - {p}"
    "waiting s' x = (if x = e then insert p (waiting s e) else waiting s x)"
    "OSTCBPrioTbl s' = OSTCBPrioTbl s" "OSEventCnt (OSEventMem s' x) = OSEventCnt (OSEventMem s x)"
    using v run lev by simp_all
  show "ev_type s' x = ev_type s x" by (simp add: s')
  show "p < 64" "is_task (OSTCBPrioTbl s p)" "p \<noteq> OS_TASK_IDLE_PRIO" using c may by (simp_all add: may_block_def p)
  have "OSTCBStat (OSTCBMem s (OSTCBCur s)) = 0" by (rule cur_ready [OF os_invD(1) [OF inv] run lev])
  then show "OSTCBStat (OSTCBMem s' (OSTCBPrioTbl s p)) = k" "OSTCBDly (OSTCBMem s' (OSTCBPrioTbl s p)) = n"
    "OSTCBStatPend (OSTCBMem s' (OSTCBPrioTbl s p)) = OS_STAT_PEND_OK"
    "OSTCBEventPtr (OSTCBMem s' (OSTCBPrioTbl s p)) = e"
    using v(7) c(3) by simp_all
qed

text \<open>
  Hand-over. A task that pends on an empty semaphore nobody else waits on blocks; a post
  by the task that runs instead makes it current again with \<open>OS_ERR_NONE\<close>, and the ready
  list, the wait list and the count are as they were before the pend.
\<close>

theorem sem_hand_over:
  assumes "reachable ld False s" "may_block s" "OSIntNesting s = 0" "OSLockNesting s = 0"
    and "e \<in> events" "ev_type s e = OS_EVENT_TYPE_SEM" "OSEventCnt (OSEventMem s e) = 0" "waiting s e = {}"
    and "r = OSSemPend (\<lambda>s1. snd (OSSemPost e s1)) e n s"
  shows "fst r = OS_ERR_NONE \<and> OSPrioCur (snd r) = OSPrioCur s \<and> ready (snd r) = ready s
    \<and> waiting (snd r) e = {} \<and> OSEventCnt (OSEventMem (snd r) e) = 0"
proof -
  let ?p = "OSPrioCur s"
  note inv = reachable_os_inv [OF assms(1)]
  have run: "OSRunning s" using assms(2) by (simp add: may_block_def)
  define s1 where "s1 = pend_block OS_STAT_SEM n e s"
  have k: "OS_STAT_SEM = ev_bit (ev_type s e)" "(OS_STAT_SEM :: u8) \<noteq> 0" using assms(6) by (simp_all add: ev_bit_def)
  have enter: "OSSemPend_enter e n s = (Blocked, s1)"
    using assms(3,4,6,7) by (simp add: OSSemPend_enter_def ev_type_def s1_def)
  note b = pend_block_props [OF inv assms(2-5) k s1_def refl]
  have w1: "waiting s1 e = {?p}" using b(6) [of e] assms(8) by simp
  define s2 where "s2 = snd (OS_EventTaskRdy e NULL OS_STAT_SEM OS_STAT_PEND_OK s1)"
  have ne: "waiting s1 e \<noteq> {}" using w1 by simp
  have m: "?p = Min (waiting s1 e)" using w1 by simp
  note eff = rdy_one_effect [OF os_invD(4) [OF b(1)] assms(5) ne s2_def m refl]
  have post: "OSSemPost e s1 = (OS_ERR_NONE, OS_Sched s2)"
    unfolding s2_def by (rule OSSemPost_wakes [OF b(1) assms(5) _ ne]) (simp add: b(7) assms(6))
  have inv3: "os_inv False (OS_Sched s2)"
    unfolding s2_def using ev_grp_task [OF b(1) assms(5)] ne b(7) assms(6)
    by (intro wake_one_inv [OF b(1) assms(5)]) (simp_all add: ev_bit_def)
  have r2: "ready (OS_Sched s2) = ready s"
    using eff(3) b(5,8,12) cur_Min(3) [OF inv run assms(3,4)] by auto
  have lev: "OSRunning (OS_Sched s2)" "OSIntNesting (OS_Sched s2) = 0" "OSLockNesting (OS_Sched s2) = 0"
    using b(2-4) by (simp_all add: s2_def)
  have cur: "OSPrioCur (OS_Sched s2) = ?p"
    unfolding cur_Min(1) [OF inv3 lev] cur_Min(1) [OF inv run assms(3,4)] r2 ..
  have q: "OSTCBCur (OS_Sched s2) = OSTCBPrioTbl s1 ?p" using cur_Min(4) [OF inv3 lev] cur by (simp add: s2_def)
  have tcb: "OSTCBStatPend (OSTCBMem (OS_Sched s2) (OSTCBCur (OS_Sched s2))) = OS_STAT_PEND_OK"
    "OSTCBEventPtr (OSTCBMem (OS_Sched s2) (OSTCBCur (OS_Sched s2))) = NULL"
    unfolding q using eff(4) by simp_all
  have nf: "snd (pend_wakeup e (OS_Sched s2)) = task_step (OSTCBCur (OS_Sched s2)) (rdy (OS_Sched s2)) e
      (ev_wait (OSEventMem (OS_Sched s2) e))
      (\<lambda>t. t\<lparr>OSTCBStat := OS_STAT_RDY, OSTCBStatPend := OS_STAT_PEND_OK, OSTCBEventPtr := NULL\<rparr>) (OS_Sched s2)"
    using pend_wakeup_nf [OF os_invD(1) [OF inv3] lev _ assms(5)] tcb by simp
  have err: "fst (pend_wakeup e (OS_Sched s2)) = OS_ERR_NONE"
    using tcb(1) by (simp add: pend_wakeup_def Let_def)
  have r: "r = pend_wakeup e (OS_Sched s2)"
    by (simp add: assms(9) OSSemPend_def enter post OSSemPend_resume_def)
  have cnt: "OSEventCnt (OSEventMem (snd (pend_wakeup e (OS_Sched s2))) e) = 0"
    unfolding nf using b(16) [of e] assms(7) by (simp add: task_step_def) (simp add: s2_def)
  have "ready (snd r) = ready (OS_Sched s2)" unfolding r nf by (simp add: ready_def)
  then have "ready (snd r) = ready s" unfolding r2 .
  moreover have "waiting (snd r) e = {}"
    unfolding r nf using eff(2) [of e] w1 by (simp add: waiting_def [of s2, symmetric])
  moreover have "OSPrioCur (snd r) = ?p" unfolding r nf by (simp add: cur)
  ultimately show ?thesis using err cnt by (simp add: r)
qed

theorem sem_hand_over_witness:
  "fst (OSSemPend (\<lambda>s1. snd (OSSemPost e0 s1)) e0 0 demo4) = OS_ERR_NONE
    \<and> OSPrioCur (snd (OSSemPend (\<lambda>s1. snd (OSSemPost e0 s1)) e0 0 demo4)) = 5"
proof -
  have may: "may_block demo4" by (simp add: may_block_def demo4)
  show ?thesis
    using sem_hand_over [OF demo4(1) may demo4(4,5) e0_event demo4(10,11) demo4(9) [OF e0_event] refl, of 0]
    by (simp add: demo4)
qed

text \<open>
  C12: Timeout. A task that pends on an empty semaphore with a timeout of \<open>n\<close> ticks, and
  gets no post, becomes ready at the \<open>n\<close>-th tick interrupt and not before. When it runs
  again then, the pend returns \<open>OS_ERR_TIMEOUT\<close> and the task is out of the wait list.
\<close>

theorem sem_pend_timeout:
  assumes "reachable ld d s" "may_block s" "OSIntNesting s = 0" "OSLockNesting s = 0"
    and "e \<in> events" "ev_type s e = OS_EVENT_TYPE_SEM" "OSEventCnt (OSEventMem s e) = 0" "n \<noteq> 0" "k \<le> unat n"
    and "s1 = snd (OSSemPend_enter e n s)" "s2 = snd ((SysTick_Handler ^^ k) (t, s1))" "p = OSPrioCur s"
  shows "fst (OSSemPend_enter e n s) = Blocked \<and> (p \<in> ready s2 \<longleftrightarrow> k = unat n)
    \<and> (k = unat n \<and> OSPrioCur s2 = p \<longrightarrow> fst (OSSemPend_resume e s2) = OS_ERR_TIMEOUT
        \<and> p \<notin> waiting (snd (OSSemPend_resume e s2)) e)"
proof -
  note inv = reachable_os_inv [OF assms(1)]
  have bit: "OS_STAT_SEM = ev_bit (ev_type s e)" "(OS_STAT_SEM :: u8) \<noteq> 0" using assms(6) by (simp_all add: ev_bit_def)
  have enter: "OSSemPend_enter e n s = (Blocked, s1)" "s1 = pend_block OS_STAT_SEM n e s"
    using assms(3,4,6,7) by (simp_all add: OSSemPend_enter_def ev_type_def assms(10))
  note b = pend_block_props [OF inv assms(2-5) bit enter(2) assms(12)]
  have s2: "s2 = (tick_irq ^^ k) s1" by (simp add: assms(11) SysTick_Handler_pow)
  let ?q = "OSTCBPrioTbl s p"
  have task: "is_task (OSTCBPrioTbl s1 p)" using b(8,11) by simp
  note tk = ticks_task [OF b(1-3) b(9,10) task s2, of e, unfolded b(8)]
  define t1 where "t1 = OSTCBMem s1 ?q"
  have t1: "OSTCBStat t1 = OS_STAT_SEM" "OSTCBDly t1 = n" "OSTCBEventPtr t1 = e"
    using b(12,13,15) by (simp_all add: t1_def)
  have mem: "OSTCBMem s2 (OSTCBPrioTbl s2 p) = (tick_tcb ^^ k) t1" using tk by (simp add: t1_def)
  have acc: "p \<in> ready s2 \<longleftrightarrow> OSTCBStat ((tick_tcb ^^ k) t1) = 0 \<and> OSTCBDly ((tick_tcb ^^ k) t1) = 0"
    using task_tcb [of s2 p] tk b(9,11) os_invD(4) [where s = s2 and dfr = d] mem by (simp add: tcb_ok_def)
  show ?thesis
  proof (cases "k = unat n")
    case False
    then have "k < unat n" using assms(9) by simp
    then have "OSTCBStat ((tick_tcb ^^ k) t1) = OS_STAT_SEM" using tick_tcb_pow [of k t1] t1 by simp
    then show ?thesis using acc False enter by simp
  next
    case True
    have e1: "(tick_tcb ^^ k) t1 = t1\<lparr>OSTCBDly := 0, OSTCBStat := 0, OSTCBStatPend := OS_STAT_PEND_TO\<rparr>"
      using tick_tcb_end [of t1 n] t1 assms(8) True by (simp add: tick_tcb_def)
    have res: "fst (OSSemPend_resume e s2) = OS_ERR_TIMEOUT \<and> p \<notin> waiting (snd (OSSemPend_resume e s2)) e"
      if cur: "OSPrioCur s2 = p"
    proof -
      have i2: "os_inv d s2" and lev: "OSRunning s2" "OSIntNesting s2 = 0" "OSLockNesting s2 = 0" using tk b(4) by auto
      have q: "OSTCBCur s2 = OSTCBPrioTbl s2 p" using cur_task(3) [OF os_invD(1) [OF i2] lev(1)] cur by simp
      have st: "OSTCBStatPend (OSTCBMem s2 (OSTCBCur s2)) = OS_STAT_PEND_TO" unfolding q mem e1 by simp
      have ev: "OSTCBEventPtr (OSTCBMem s2 (OSTCBCur s2)) \<in> {NULL, e}" unfolding q mem e1 using t1 by simp
      have "fst (pend_wakeup e s2) = OS_ERR_TIMEOUT" using st by (simp add: pend_wakeup_def Let_def)
      moreover have "p \<notin> waiting (snd (pend_wakeup e s2)) e"
        unfolding pend_wakeup_nf [OF os_invD(1) [OF i2] lev ev assms(5)]
        using st cur bm.prios_del [OF b(9)] by simp
      ultimately show ?thesis by (simp add: OSSemPend_resume_def)
    qed
    then show ?thesis using acc e1 True enter by simp
  qed
qed

theorem sem_pend_timeout_witness:
  "5 \<notin> ready (snd ((SysTick_Handler ^^ 1) (0, snd (OSSemPend_enter e0 2 demo4))))
    \<and> 5 \<in> ready (snd ((SysTick_Handler ^^ 2) (0, snd (OSSemPend_enter e0 2 demo4))))"
proof -
  have may: "may_block demo4" by (simp add: may_block_def demo4)
  have n: "(2 :: u32) \<noteq> 0" by simp
  note w = sem_pend_timeout [OF demo4(1) may demo4(4,5) e0_event demo4(10,11) n _ refl refl refl, unfolded demo4(7)]
  show ?thesis using w [of 1 0] w [of 2 0] by simp
qed

section \<open>Without waiters\<close>

text \<open>
  The count of a semaphore nobody waits on. A post adds one, and reports
  \<open>OS_ERR_SEM_OVF\<close> at 65535; an accept returns the count and takes one when there is one; a
  pend takes one without blocking; and a post followed by an accept restores the count. An
  event that is not a semaphore is refused and left alone.
\<close>

theorem sem_count:
  assumes "c = OSEventCnt (OSEventMem s e)" "OSEventGrp (OSEventMem s e) = 0" "OSIntNesting s = 0" "OSLockNesting s = 0"
  shows "if ev_type s e = OS_EVENT_TYPE_SEM
    then (fst (OSSemPost e s), OSEventCnt (OSEventMem (snd (OSSemPost e s)) e))
          = (if c < 65535 then (OS_ERR_NONE, c + 1) else (OS_ERR_SEM_OVF, c))
      \<and> (fst (OSSemAccept e s), OSEventCnt (OSEventMem (snd (OSSemAccept e s)) e)) = (c, if 0 < c then c - 1 else 0)
      \<and> (0 < c \<longrightarrow> fst (OSSemPend_enter e n s) = Ret OS_ERR_NONE
          \<and> OSEventCnt (OSEventMem (snd (OSSemPend_enter e n s)) e) = c - 1)
      \<and> (c < 65535 \<longrightarrow> OSSemAccept e (snd (OSSemPost e s)) = (c + 1, s))
    else OSSemPost e s = (OS_ERR_EVENT_TYPE, s) \<and> OSSemAccept e s = (0, s)
      \<and> OSSemPend_enter e n s = (Ret OS_ERR_EVENT_TYPE, s) \<and> OSSemDel e opt s = (e, OS_ERR_EVENT_TYPE, s)"
proof (cases "ev_type s e = OS_EVENT_TYPE_SEM")
  case True
  have pos: "0 < c + 1" if c: "c < 65535"
    using unat_inc [OF c] by (auto simp: word_gt_0)
  have undo: "upd_event e (\<lambda>v. v\<lparr>OSEventCnt := OSEventCnt v - 1\<rparr>) (upd_event e (\<lambda>v. v\<lparr>OSEventCnt := OSEventCnt v + 1\<rparr>) s) = s"
    by (simp add: upd_event_def)
  have "c = 0" if "\<not> 0 < c" using that by (simp add: word_gt_0)
  then show ?thesis using True assms pos undo
    by (auto simp: ev_type_def OSSemPost_def OSSemAccept_def OSSemPend_enter_def Let_def)
next
  case False
  then show ?thesis
    by (simp add: ev_type_def OSSemPost_def OSSemAccept_def OSSemPend_enter_def OSSemDel_def OS_EventDel_def)
qed

theorem sem_count_witness:
  "fst (OSSemPost e0 demo4) = OS_ERR_NONE \<and> OSEventCnt (OSEventMem (snd (OSSemPost e0 demo4)) e0) = 1
    \<and> OSSemAccept e0 (snd (OSSemPost e0 demo4)) = (1, demo4)"
proof -
  have "OSEventGrp (OSEventMem demo4 e0) = 0"
    using ev_grp_task [OF demo4(2) e0_event] demo4(9) [OF e0_event] by simp
  from sem_count [OF refl this demo4(4,5)] show ?thesis by (simp add: demo4)
qed

end
