(* ===== verification/OS_Mutex_Props.thy ===== *)
theory OS_Mutex_Props
  imports OS_Mutex_Inv OS_Clock
begin

text \<open>
  Mutexes: the packing of ceiling and owner in \<open>OSEventCnt\<close>, mutual exclusion, release by the
  owner only, and the effect of priority inheritance on the ready list and the wait lists.
  A raised owner occupies two slots of the priority table, which the invariant of
  \<open>OS_Invariant\<close> rules out; so these facts are about single operations.
\<close>

section \<open>Mutual exclusion\<close>

text \<open>
  C13: Mutual exclusion. A free mutex is given to the caller of \<open>OSMutexAccept\<close>, whose
  priority and control block it then records, keeping the ceiling; as long as it is not
  released, a further \<open>OSMutexAccept\<close> by anyone fails and changes nothing, \<open>OSMutexPend\<close>
  blocks, and \<open>OSMutexPost\<close> by a task that is not the owner is refused with
  \<open>OS_ERR_NOT_MUTEX_OWNER\<close> and changes nothing.
\<close>

theorem mutex_exclusion:
  assumes "OSEventType (OSEventMem s e) = OS_EVENT_TYPE_MUTEX" "OSIntNesting s = 0" "OSLockNesting s = 0"
    and "mutex_prio (OSEventCnt (OSEventMem s e)) = 0xFF" "OSTCBPrio (OSTCBMem s (OSTCBCur s)) \<noteq> 0xFF"
    and "s' = snd (snd (OSMutexAccept e s))" "other = s'\<lparr>OSTCBCur := q\<rparr>" "q \<noteq> OSTCBCur s"
  shows "fst (OSMutexAccept e s) \<and> OSEventPtr (OSEventMem s' e) = OSTCBCur s
    \<and> mutex_prio (OSEventCnt (OSEventMem s' e)) = OSTCBPrio (OSTCBMem s (OSTCBCur s)) \<and> ceiling s' e = ceiling s e
    \<and> OSMutexAccept e other = (False, OS_ERR_NONE, other)
    \<and> fst (OSMutexPend_enter e n other) = Blocked
    \<and> OSMutexPost e other = (OS_ERR_NOT_MUTEX_OWNER, other)"
proof -
  have acc: "OSMutexAccept e s = (True, mutex_acquire e s)"
    using assms(1-4) by (simp add: OSMutexAccept_def mutex_free_iff)
  have s': "OSEventType (OSEventMem s' e) = OS_EVENT_TYPE_MUTEX" "OSEventPtr (OSEventMem s' e) = OSTCBCur s"
    "OSEventCnt (OSEventMem s' e) = mutex_set_prio (OSTCBPrio (OSTCBMem s (OSTCBCur s))) (OSEventCnt (OSEventMem s e))"
    "OSIntNesting s' = 0" "OSLockNesting s' = 0"
    using assms(1-3) by (simp_all add: assms(6) acc mutex_acquire_def Let_def)
  have busy: "mutex_prio (OSEventCnt (OSEventMem s' e)) \<noteq> 0xFF" using assms(5) by (simp add: s')
  have "OSMutexAccept e other = (False, OS_ERR_NONE, other)" 
    using s' busy by (simp add: OSMutexAccept_def assms(7) mutex_free_iff)
  moreover have "fst (OSMutexPend_enter e n other) = Blocked"
    using s' busy by (simp add: OSMutexPend_enter_def assms(7))
  moreover have "OSMutexPost e other = (OS_ERR_NOT_MUTEX_OWNER, other)"
    using s' assms(8) by (simp add: OSMutexPost_def assms(7) Let_def)
  ultimately show ?thesis using s' by (simp add: acc)
qed

definition demo_mutex :: os where
  "demo_mutex = ram0\<lparr>OSTCBCur := 7, OSEventMem := (\<lambda>_. zero_event\<lparr>OSEventType := OS_EVENT_TYPE_MUTEX, OSEventCnt := 0x03FF\<rparr>)\<rparr>"

theorem mutex_exclusion_witness:
  "fst (OSMutexAccept 5 demo_mutex)
    \<and> OSMutexPost 5 ((snd (snd (OSMutexAccept 5 demo_mutex)))\<lparr>OSTCBCur := 9\<rparr>)
      = (OS_ERR_NOT_MUTEX_OWNER, (snd (snd (OSMutexAccept 5 demo_mutex)))\<lparr>OSTCBCur := 9\<rparr>)"
  using mutex_exclusion [of demo_mutex 5, OF _ _ _ _ _ refl refl, of 9]
  by (simp add: demo_mutex_def mutex_prio_def ram0_def zero_tcb_def)

text \<open>
  Release. When the owner, not raised, posts a mutex nobody waits on, the mutex is free
  again with the same ceiling and no owner, and the ceiling's slot of the priority table is
  reserved as after \<open>OSMutexCreate\<close>.
\<close>

theorem mutex_release_free:
  assumes "OSEventType (OSEventMem s e) = OS_EVENT_TYPE_MUTEX" "OSIntNesting s = 0"
    and "OSEventPtr (OSEventMem s e) = OSTCBCur s" "OSEventGrp (OSEventMem s e) = 0"
    and "OSTCBPrio (OSTCBMem s (OSTCBCur s)) \<noteq> ceiling s e" "s' = snd (OSMutexPost e s)"
  shows "fst (OSMutexPost e s) = OS_ERR_NONE \<and> mutex_prio (OSEventCnt (OSEventMem s' e)) = 0xFF
    \<and> ceiling s' e = ceiling s e \<and> OSEventPtr (OSEventMem s' e) = NULL \<and> OSTCBMem s' = OSTCBMem s \<and> rdy s' = rdy s
    \<and> OSTCBPrioTbl s' = (if ceiling s e \<noteq> OS_PRIO_MUTEX_CEIL_DIS
        then (OSTCBPrioTbl s)(ceiling s e := OS_TCB_RESERVED) else OSTCBPrioTbl s)"
  using assms by (simp add: OSMutexPost_def Let_def mutex_release)

theorem mutex_release_free_witness:
  "fst (OSMutexPost 5 (snd (snd (OSMutexAccept 5 demo_mutex)))) = OS_ERR_NONE"
proof -
  let ?s = "snd (snd (OSMutexAccept 5 demo_mutex))"
  have acc: "OSMutexAccept 5 demo_mutex = (True, mutex_acquire 5 demo_mutex)"
    by (simp add: OSMutexAccept_def demo_mutex_def ram0_def mutex_free_iff mutex_prio_def)
  have c: "mutex_pcp (0x03FF :: u16) = 3" by (simp add: mutex_pcp_def)
  have "OSEventType (OSEventMem ?s 5) = OS_EVENT_TYPE_MUTEX" "OSIntNesting ?s = 0"
    "OSEventPtr (OSEventMem ?s 5) = OSTCBCur ?s" "OSEventGrp (OSEventMem ?s 5) = 0"
    "OSTCBPrio (OSTCBMem ?s (OSTCBCur ?s)) \<noteq> ceiling ?s 5"
    unfolding acc using c by (simp_all add: mutex_acquire_def Let_def demo_mutex_def ram0_def zero_tcb_def zero_event_def)
  from mutex_release_free [OF this refl] show ?thesis by blast
qed

section \<open>Priority inheritance\<close>

lemma set_ev_wait_twice: "set_ev_wait w (set_ev_wait w' v) = set_ev_wait w v"
  by (simp add: set_ev_wait_def)

lemma mutex_raise_props:
  assumes wf: "tcb_wf p (OSTCBMem s q)" and p: "p < 64" "r < 64" and s': "s' = mutex_raise q r s"
  shows "tcb_wf r (OSTCBMem s' q)"
    "ready s' = (if p \<in> ready s then insert r (ready s - {p}) else ready s)"
    "waiting s' x = (if p \<notin> ready s \<and> x = OSTCBEventPtr (OSTCBMem s q) \<and> x \<noteq> NULL
       then insert r (waiting s x - {p}) else waiting s x)"
    "OSTCBPrioTbl s' = (OSTCBPrioTbl s)(r := q)" "a \<noteq> q \<Longrightarrow> OSTCBMem s' a = OSTCBMem s a"
proof -
  let ?t = "OSTCBMem s q" and ?e = "OSTCBEventPtr (OSTCBMem s q)"
  let ?t' = "tcb_coords r (?t\<lparr>OSTCBPrio := r\<rparr>)"
  have wf': "tcb_wf r ?t'" by (rule tcb_coords_wf [OF p(2)])
  note rdy = wf_bit_ready [OF wf p(1), of s]
  note ops = wf_ins [OF wf'] wf_del [OF wf] make_unready_nf [OF wf]
  define s2 where "s2 = (if p \<in> ready s then set_rdy (bm_ins r (bm_del p (rdy s))) (upd_tcb q (\<lambda>_. ?t') s)
    else if ?e \<noteq> NULL then upd_event ?e (\<lambda>v. set_ev_wait (bm_ins r (bm_del p (ev_wait v))) v) (upd_tcb q (\<lambda>_. ?t') s)
    else upd_tcb q (\<lambda>_. ?t') s)"
  have eq: "s' = s2\<lparr>OSTCBPrioTbl := (OSTCBPrioTbl s)(r := q)\<rparr>"
    using ops make_ready_nf [of r "upd_tcb q (\<lambda>_. ?t') (set_rdy (bm_del p (rdy s)) s)" q] wf'
    unfolding s' mutex_raise_def s2_def Let_def rdy
    by (simp add: upd_comm) (simp add: upd_tcb_def upd_event_def upd_same set_ev_wait_twice)
  show "tcb_wf r (OSTCBMem s' q)" "OSTCBPrioTbl s' = (OSTCBPrioTbl s)(r := q)"
    "a \<noteq> q \<Longrightarrow> OSTCBMem s' a = OSTCBMem s a"
    using wf' by (simp_all add: eq s2_def)
  show "ready s' = (if p \<in> ready s then insert r (ready s - {p}) else ready s)"
    using p by (simp add: eq s2_def bm.prios_ins bm.prios_del) (simp add: ready_def)
  show "waiting s' x = (if p \<notin> ready s \<and> x = ?e \<and> x \<noteq> NULL then insert r (waiting s x - {p}) else waiting s x)"
    using p by (simp add: eq s2_def bm.prios_ins bm.prios_del) (simp add: waiting_def)
qed

lemma prio_y_mask: "p < 64 \<Longrightarrow> prio_y p AND 7 = prio_y p"
proof -
  assume "p < 64"
  then have "unat (prio_x (prio_y p)) = unat (prio_y p)"
    unfolding unat_prio_x using prio_y_less [of p] by (simp add: word_less_nat_alt)
  then show ?thesis unfolding prio_x_def [symmetric] by (simp only: word_unat_eq_iff)
qed

lemma OSMutex_RdyAtPrio_props:
  assumes wf: "tcb_wf p (OSTCBMem s q)" and p: "p < 64" "r < 64" and s': "s' = OSMutex_RdyAtPrio q r s"
  shows "tcb_wf r (OSTCBMem s' q)" "ready s' = insert r (ready s - {p})" "OSPrioCur s' = r"
    "OSTCBPrioTbl s' = (OSTCBPrioTbl s)(r := q)" "OSEventMem s' = OSEventMem s"
    "OSTCBCur s' = OSTCBCur s" "OSRunning s' = OSRunning s" "rdy s' = bm_ins r (bm_del p (rdy s))"
    "OSTCBMem s' = (OSTCBMem s)(q := tcb_coords r ((OSTCBMem s q)\<lparr>OSTCBPrio := r\<rparr>))"
    "OSIntNesting s' = OSIntNesting s" "OSLockNesting s' = OSLockNesting s"
proof -
  let ?t' = "tcb_coords r ((OSTCBMem s q)\<lparr>OSTCBPrio := r\<rparr>)"
  have wf': "tcb_wf r ?t'" by (rule tcb_coords_wf [OF p(2)])
  define s2 where "s2 = upd_tcb q (\<lambda>_. ?t') ((set_rdy (bm_del p (rdy s)) s)\<lparr>OSPrioCur := r\<rparr>)"
  have "tcb_wf r (OSTCBMem s2 q)" using wf' by (simp add: s2_def)
  then have mr: "make_ready q s2 = set_rdy (bm_ins r (rdy s2)) s2" by (rule make_ready_nf)
  have eq: "s' = (make_ready q s2)\<lparr>OSTCBPrioTbl := (OSTCBPrioTbl s)(r := q)\<rparr>"
    unfolding s' OSMutex_RdyAtPrio_def Let_def make_unready_nf [OF wf] prio_y_mask [OF p(2)]
    by (simp add: s2_def tcb_coords_def upd_tcb_def make_ready_def)
  show "tcb_wf r (OSTCBMem s' q)" "OSPrioCur s' = r" "OSTCBPrioTbl s' = (OSTCBPrioTbl s)(r := q)"
    "OSEventMem s' = OSEventMem s" "OSTCBCur s' = OSTCBCur s" "OSRunning s' = OSRunning s"
    "OSIntNesting s' = OSIntNesting s" "OSLockNesting s' = OSLockNesting s"
    using wf' by (simp_all add: eq mr) (simp_all add: s2_def)
  show "OSTCBMem s' = (OSTCBMem s)(q := ?t')" by (simp add: eq make_ready_def Let_def s2_def fun_eq_iff)
  have d: "rdy s2 = bm_del p (rdy s)" by (simp add: s2_def)
  then show "rdy s' = bm_ins r (bm_del p (rdy s))" by (simp add: eq mr)
  from d show "ready s' = insert r (ready s - {p})"
    using p by (simp add: eq mr bm.prios_ins bm.prios_del) (simp add: ready_def)
qed

text \<open>
  C14: Priority inheritance. When a more urgent task pends on a mutex whose owner runs below
  the ceiling, the owner takes the ceiling priority wherever it is: in the ready list its bit
  moves from the old to the ceiling priority, otherwise it moves in the wait list of the event
  the owner itself waits on; no other task moves, and the ceiling's slot of the priority table
  becomes the owner's. When the raised owner, now current, posts, its bit in the ready list
  goes back to the owner's priority recorded in the mutex and the slot is reserved again.
\<close>

theorem mutex_inheritance:
  assumes "tcb_wf p (OSTCBMem s q)" "p < 64" "q = OSEventPtr (OSEventMem s e)" "c = ceiling s e" "c < 64" "c < p"
    and "OSTCBPrio (OSTCBMem s (OSTCBCur s)) < mutex_prio (OSEventCnt (OSEventMem s e))" "s' = mutex_inherit e s"
  shows "tcb_wf c (OSTCBMem s' q) \<and> OSTCBPrioTbl s' = (OSTCBPrioTbl s)(c := q)
    \<and> ready s' = (if p \<in> ready s then insert c (ready s - {p}) else ready s)
    \<and> waiting s' x = (if p \<notin> ready s \<and> x = OSTCBEventPtr (OSTCBMem s q) \<and> x \<noteq> NULL
        then insert c (waiting s x - {p}) else waiting s x)
    \<and> (a \<noteq> q \<longrightarrow> OSTCBMem s' a = OSTCBMem s a)"
proof -
  have "c \<noteq> 0xFF" using assms(5) by auto
  moreover have "OSTCBPrio (OSTCBMem s q) = p" using assms(1) by (simp add: tcb_wf_def)
  ultimately have eq: "s' = mutex_raise q c s" using assms(3-8) by (simp add: mutex_inherit_def Let_def)
  show ?thesis using mutex_raise_props [OF assms(1,2,5) eq] by blast
qed

definition demo_inherit :: os where
  "demo_inherit = ram0\<lparr>OSTCBCur := 7,
     OSEventMem := (\<lambda>_. zero_event\<lparr>OSEventType := OS_EVENT_TYPE_MUTEX, OSEventCnt := 0x0309, OSEventPtr := 9\<rparr>),
     OSTCBMem := (\<lambda>_. zero_tcb)(7 := tcb_coords 4 (zero_tcb\<lparr>OSTCBPrio := 4\<rparr>), 9 := tcb_coords 9 (zero_tcb\<lparr>OSTCBPrio := 9\<rparr>)),
     OSRdyGrp := 3, OSRdyTbl := (\<lambda>_. 0)(0 := 16, 1 := 2)\<rparr>"

theorem mutex_inheritance_witness:
  "tcb_wf 3 (OSTCBMem (mutex_inherit 5 demo_inherit) 9) \<and> OSTCBPrioTbl (mutex_inherit 5 demo_inherit) 3 = 9"
proof -
  have wf: "tcb_wf 9 (OSTCBMem demo_inherit 9)"
    unfolding demo_inherit_def using tcb_coords_wf [of 9 zero_tcb] by simp
  have c: "mutex_pcp (0x0309 :: u16) = 3" "mutex_prio (0x0309 :: u16) = 9" by (simp_all add: mutex_pcp_def mutex_prio_def)
  have "9 = OSEventPtr (OSEventMem demo_inherit 5)" "3 = ceiling demo_inherit 5"
    "OSTCBPrio (OSTCBMem demo_inherit (OSTCBCur demo_inherit)) < mutex_prio (OSEventCnt (OSEventMem demo_inherit 5))"
    using c by (simp_all add: demo_inherit_def)
  from mutex_inheritance [OF wf _ this(1,2) _ _ this(3) refl, of 0 0] show ?thesis by simp
qed

text \<open>Waking the most urgent waiter of an event, from the two bitmaps alone.\<close>

lemma wake_effect:
  assumes ok: "bm_ok (ev_wait (OSEventMem s e))" and ne: "waiting s e \<noteq> {}" and p: "p = Min (waiting s e)"
    and w: "w = OSTCBPrioTbl s p" "tcb_wf p (OSTCBMem s w)" and s': "s' = snd (OS_EventTaskRdy e m k ps s)"
  shows "fst (OS_EventTaskRdy e m k ps s) = p" "waiting s' e = waiting s e - {p}"
    "rdy s' = (if (OSTCBStat (OSTCBMem s w) AND NOT k) AND OS_STAT_SUSPEND = 0 then bm_ins p (rdy s) else rdy s)"
    "OSTCBMem s' = (OSTCBMem s)(w := wake_tcb m k ps (OSTCBMem s w))" "p < 64"
proof -
  have top: "p = bm_highest (ev_wait (OSEventMem s e))" using bm.best_Min [OF ok] ne p by (simp add: waiting_def)
  have "p \<in> waiting s e" using ne p by simp
  then show p64: "p < 64" by (simp add: waiting_def bm_prios_less)
  note nf = OS_EventTaskRdy_nf [OF w(2) top w(1), of m k ps]
  show "fst (OS_EventTaskRdy e m k ps s) = p" by (simp add: nf)
  show "rdy s' = (if (OSTCBStat (OSTCBMem s w) AND NOT k) AND OS_STAT_SUSPEND = 0 then bm_ins p (rdy s) else rdy s)"
    "OSTCBMem s' = (OSTCBMem s)(w := wake_tcb m k ps (OSTCBMem s w))"
    by (simp_all add: s' nf)
  show "waiting s' e = waiting s e - {p}"
    using bm.prios_del [OF p64, of "ev_wait (OSEventMem s e)"] by (simp add: s' nf waiting_def [of s])
qed

lemma sched_top:
  assumes ok: "bm_ok (rdy s)" and ne: "ready s \<noteq> {}" and lev: "OSIntNesting s = 0" "OSLockNesting s = 0"
    and cur: "OSTCBCur s = OSTCBPrioTbl s (OSPrioCur s)"
  shows "OSPrioCur (OS_Sched s) = Min (ready s)" "OSTCBCur (OS_Sched s) = OSTCBPrioTbl s (Min (ready s))"
proof -
  have high: "push_bit 3 (OSUnMap (OSRdyGrp s)) + OSUnMap (OSRdyTbl s (OSUnMap (OSRdyGrp s))) = Min (ready s)"
    using bm.best_Min [OF ok] ne by (simp add: ready_def bm_highest_def rdy_def Let_def)
  show "OSPrioCur (OS_Sched s) = Min (ready s)" "OSTCBCur (OS_Sched s) = OSTCBPrioTbl s (Min (ready s))"
    using lev cur by (auto simp: OS_Sched_def sched_switch_def OS_SchedNew_def OSCtxSw_def Let_def high)
qed

text \<open>The post of a raised owner as its two parts, lowering the owner and passing the mutex on.\<close>

lemma OSMutexPost_raised:
  assumes "OSEventType (OSEventMem s e) = OS_EVENT_TYPE_MUTEX" "OSIntNesting s = 0" "q = OSTCBCur s"
    and "OSEventPtr (OSEventMem s e) = q" "c = ceiling s e" "c < 64"
    and "tcb_wf c (OSTCBMem s q)" "r = mutex_prio (OSEventCnt (OSEventMem s e))" "r < 64"
    and "s1 = (OSMutex_RdyAtPrio q r s)\<lparr>OSTCBPrioTbl := (OSTCBPrioTbl s)(r := q, c := OS_TCB_RESERVED)\<rparr>"
  shows "OSMutexPost e s = (if OSEventGrp (OSEventMem s e) \<noteq> 0
    then let (p, s2) = OS_EventTaskRdy e NULL OS_STAT_MUTEX OS_STAT_PEND_OK s1
         in (if p \<le> c then OS_ERR_PCP_LOWER else OS_ERR_NONE,
             OS_Sched (upd_event e (\<lambda>v. v\<lparr>OSEventCnt := mutex_set_prio p (OSEventCnt v),
               OSEventPtr := OSTCBPrioTbl s2 p\<rparr>) s2))
    else (OS_ERR_NONE, upd_event e (\<lambda>v. v\<lparr>OSEventCnt := OSEventCnt v OR OS_MUTEX_AVAILABLE, OSEventPtr := NULL\<rparr>) s1))"
proof -
  note pr = OSMutex_RdyAtPrio_props [OF assms(7,6,9) refl]
  have c: "c \<noteq> 0xFF" "OSTCBPrio (OSTCBMem s q) = c" using assms(6,7) by (auto simp: tcb_wf_def)
  have "(OSMutex_RdyAtPrio q r s)\<lparr>OSTCBPrioTbl := (OSTCBPrioTbl (OSMutex_RdyAtPrio q r s))(c := OS_TCB_RESERVED)\<rparr> = s1"
    by (simp add: pr(4) assms(10))
  then show ?thesis using assms(1-5,8) c pr(5) by (simp add: OSMutexPost_def Let_def assms(10))
qed

text \<open>
  C15: Undoing inheritance. A raised owner that posts its mutex gets the priority recorded in the
  mutex back, in its control block, in the ready list and in the priority table, whose ceiling
  slot is reserved again; the ceiling stays. If tasks wait on the mutex, the most urgent of them
  is taken off the wait list, made ready unless it is suspended and recorded as the new owner,
  and, unless the scheduler is locked, the most urgent ready task runs; the result is
  \<open>OS_ERR_PCP_LOWER\<close> exactly if the new owner is not below the ceiling. If nobody waits, the
  mutex is free, and the task that posted goes on running at its lower priority, whatever else
  is ready: this branch does not call the scheduler.
\<close>

theorem mutex_post_restores:
  assumes "OSEventType (OSEventMem s e) = OS_EVENT_TYPE_MUTEX" "OSIntNesting s = 0" "q = OSTCBCur s"
    and "OSEventPtr (OSEventMem s e) = q" "c = ceiling s e" "c < r"
    and "tcb_wf c (OSTCBMem s q)" "r = mutex_prio (OSEventCnt (OSEventMem s e))" "r < 64"
    and "bm_ok (rdy s)" "bm_ok (ev_wait (OSEventMem s e))" "s' = snd (OSMutexPost e s)"
    and "p = Min (waiting s e)" "w = OSTCBPrioTbl s p" "waiting s e \<noteq> {} \<Longrightarrow> p \<notin> {r, c} \<and> tcb_wf p (OSTCBMem s w)"
  shows "tcb_wf r (OSTCBMem s' q) \<and> OSTCBPrioTbl s' = (OSTCBPrioTbl s)(r := q, c := OS_TCB_RESERVED) \<and> ceiling s' e = c
    \<and> (if waiting s e = {} then fst (OSMutexPost e s) = OS_ERR_NONE \<and> ready s' = insert r (ready s - {c})
         \<and> mutex_prio (OSEventCnt (OSEventMem s' e)) = 0xFF \<and> OSEventPtr (OSEventMem s' e) = NULL
         \<and> OSTCBCur s' = q \<and> OSPrioCur s' = r
       else fst (OSMutexPost e s) = (if p \<le> c then OS_ERR_PCP_LOWER else OS_ERR_NONE)
         \<and> waiting s' e = waiting s e - {p} \<and> mutex_prio (OSEventCnt (OSEventMem s' e)) = p
         \<and> OSEventPtr (OSEventMem s' e) = w
         \<and> OSTCBMem s' w = wake_tcb NULL OS_STAT_MUTEX OS_STAT_PEND_OK (OSTCBMem s w)
         \<and> ready s' = (if OSTCBStat (OSTCBMem s w) AND OS_STAT_SUSPEND = 0 then {p} else {}) \<union> insert r (ready s - {c})
         \<and> (OSLockNesting s = 0 \<longrightarrow> OSPrioCur s' = Min (ready s') \<and> OSTCBCur s' = OSTCBPrioTbl s' (Min (ready s'))))"
proof -
  have c64: "c < 64" by (rule less_trans [OF assms(6,9)])
  note pr = OSMutex_RdyAtPrio_props [OF assms(7) c64 assms(9) refl]
  define s1 where "s1 = (OSMutex_RdyAtPrio q r s)\<lparr>OSTCBPrioTbl := (OSTCBPrioTbl s)(r := q, c := OS_TCB_RESERVED)\<rparr>"
  note post = OSMutexPost_raised [OF assms(1-5) c64 assms(7-9) s1_def]
  have f: "OSEventMem s1 = OSEventMem s" "rdy s1 = bm_ins r (bm_del c (rdy s))" "OSTCBCur s1 = q" "OSPrioCur s1 = r"
    "OSTCBMem s1 = (OSTCBMem s)(q := tcb_coords r ((OSTCBMem s q)\<lparr>OSTCBPrio := r\<rparr>))"
    "OSIntNesting s1 = 0" "OSLockNesting s1 = OSLockNesting s" "tcb_wf r (OSTCBMem s1 q)" "ready s1 = insert r (ready s - {c})"
    "OSTCBPrioTbl s1 = (OSTCBPrioTbl s)(r := q, c := OS_TCB_RESERVED)"
    unfolding s1_def using pr assms(2,3) by (simp_all add: rdy_def ready_def)
  have grp: "OSEventGrp (OSEventMem s e) = 0 \<longleftrightarrow> waiting s e = {}"
    using bm.none_iff [OF assms(11)] by (simp add: waiting_def ev_wait_def)
  show ?thesis
  proof (cases "waiting s e = {}")
    case True
    then have "OSMutexPost e s = (OS_ERR_NONE,
        upd_event e (\<lambda>v. v\<lparr>OSEventCnt := OSEventCnt v OR OS_MUTEX_AVAILABLE, OSEventPtr := NULL\<rparr>) s1)"
      using grp post by simp
    then show ?thesis using True f assms(5) unfolding assms(12) by (simp add: mutex_release)
  next
    case ne: False
    note wt = assms(15) [OF ne]
    have wq: "w \<noteq> q" using wt assms(7) by (auto simp: tcb_wf_def)
    have w1: "waiting s1 e = waiting s e" by (simp add: waiting_def f)
    note eff = wake_effect [of s1 e p w _ NULL OS_STAT_MUTEX OS_STAT_PEND_OK, OF _ _ _ _ _ refl]
    define s2 where "s2 = snd (OS_EventTaskRdy e NULL OS_STAT_MUTEX OS_STAT_PEND_OK s1)"
    have ev: "fst (OS_EventTaskRdy e NULL OS_STAT_MUTEX OS_STAT_PEND_OK s1) = p" "waiting s2 e = waiting s e - {p}"
      "rdy s2 = (if (OSTCBStat (OSTCBMem s w) AND NOT OS_STAT_MUTEX) AND OS_STAT_SUSPEND = 0 then bm_ins p (rdy s1) else rdy s1)"
      "OSTCBMem s2 = (OSTCBMem s1)(w := wake_tcb NULL OS_STAT_MUTEX OS_STAT_PEND_OK (OSTCBMem s w))" "p < 64"
      using eff wt wq ne assms(11,13,14) by (simp_all add: f w1 s2_def)
    have st: "(x AND NOT OS_STAT_MUTEX) AND OS_STAT_SUSPEND = x AND OS_STAT_SUSPEND" for x :: u8
      by (simp add: and.assoc and.commute and.left_commute)
    have rd: "rdy s2 = (if OSTCBStat (OSTCBMem s w) AND OS_STAT_SUSPEND = 0 then bm_ins p (rdy s1) else rdy s1)"
      by (simp only: ev(3) st)
    have r2: "ready s2 = (if OSTCBStat (OSTCBMem s w) AND OS_STAT_SUSPEND = 0 then {p} else {}) \<union> insert r (ready s - {c})"
      using f(9) bm.prios_ins [OF ev(5), of "rdy s1"] by (auto simp: ready_def rd)
    have ok2: "bm_ok (rdy s2)"
      using assms(9,10) ev(5) c64 by (simp add: ev(3) f(2) bm.ok_ins bm.ok_del)
    define s3 where "s3 = upd_event e (\<lambda>v. v\<lparr>OSEventCnt := mutex_set_prio p (OSEventCnt v), OSEventPtr := w\<rparr>) s2"
    have tbl: "OSTCBPrioTbl s2 = OSTCBPrioTbl s1" by (simp add: s2_def)
    have "OSTCBPrioTbl s1 p = w" using wt by (simp add: f(10) assms(14))
    then have eq: "OSMutexPost e s = (if p \<le> c then OS_ERR_PCP_LOWER else OS_ERR_NONE, OS_Sched s3)"
      using ne grp post ev(1) unfolding s3_def s2_def [symmetric]
      by (simp add: split_beta s2_def [symmetric] tbl)
    have c3: "OSTCBCur s3 = OSTCBPrioTbl s3 (OSPrioCur s3)" "OSIntNesting s3 = 0" "OSLockNesting s3 = OSLockNesting s"
      "rdy s3 = rdy s2" "ready s3 = ready s2"
      using f assms(6) by (auto simp: s3_def s2_def ready_def)
    have sch: "OSPrioCur (OS_Sched s3) = Min (ready s2)" "OSTCBCur (OS_Sched s3) = OSTCBPrioTbl s3 (Min (ready s2))"
      if "OSLockNesting s = 0"
      using sched_top [of s3] ok2 c3 that r2 by simp_all
    have "OSTCBMem s3 w = wake_tcb NULL OS_STAT_MUTEX OS_STAT_PEND_OK (OSTCBMem s w)" "tcb_wf r (OSTCBMem s3 q)"
      "OSTCBPrioTbl s3 = (OSTCBPrioTbl s)(r := q, c := OS_TCB_RESERVED)" "waiting s3 e = waiting s e - {p}"
      "OSEventPtr (OSEventMem s3 e) = w" "mutex_prio (OSEventCnt (OSEventMem s3 e)) = p" "ceiling s3 e = c"
      using ev f wq assms(5) by (simp_all add: s3_def tbl) (simp_all add: s2_def waiting_def)
    with sch r2 c3(5) ne show ?thesis unfolding assms(12) eq by simp
  qed
qed

definition demo_post :: os where
  "demo_post = set_rdy (bm_ins 3 (0, \<lambda>_. 0)) (ram0\<lparr>OSTCBCur := 9, OSPrioCur := 3,
     OSEventMem := (\<lambda>_. set_ev_wait (bm_ins 4 (0, \<lambda>_. 0))
       (zero_event\<lparr>OSEventType := OS_EVENT_TYPE_MUTEX, OSEventCnt := 0x0309, OSEventPtr := 9\<rparr>)),
     OSTCBMem := (\<lambda>_. zero_tcb)(9 := tcb_coords 3 (zero_tcb\<lparr>OSTCBPrio := 3\<rparr>),
       7 := tcb_coords 4 (zero_tcb\<lparr>OSTCBStat := OS_STAT_MUTEX, OSTCBEventPtr := 5, OSTCBPrio := 4\<rparr>)),
     OSTCBPrioTbl := (\<lambda>_. NULL)(3 := 9, 9 := 9, 4 := 7)\<rparr>)"

theorem mutex_post_restores_witness:
  "tcb_wf 9 (OSTCBMem (snd (OSMutexPost 5 demo_post)) 9) \<and> OSTCBCur (snd (OSMutexPost 5 demo_post)) = 7
    \<and> OSEventPtr (OSEventMem (snd (OSMutexPost 5 demo_post)) 5) = 7"
proof -
  have c: "mutex_pcp (0x0309 :: u16) = 3" "mutex_prio (0x0309 :: u16) = 9" by (simp_all add: mutex_pcp_def mutex_prio_def)
  have b: "bm_ok (0, \<lambda>_. 0)" "bm_prios (0, \<lambda>_. 0) = {}" by (simp_all add: bm_ok_def bm_prios_def)
  have w: "waiting demo_post 5 = {4}" "ready demo_post = {3}" "bm_ok (rdy demo_post)" "bm_ok (ev_wait (OSEventMem demo_post 5))"
    using b bm.prios_ins [of _ "(0, \<lambda>_. 0)"] bm.ok_ins [of "(0, \<lambda>_. 0)"] by (simp_all add: demo_post_def waiting_def ready_def)
  have t: "tcb_wf 3 (OSTCBMem demo_post 9)" "tcb_wf 4 (OSTCBMem demo_post 7)" "OSTCBPrioTbl demo_post 4 = 7"
    unfolding demo_post_def using tcb_coords_wf [of 3 zero_tcb]
      tcb_coords_wf [of 4 "zero_tcb\<lparr>OSTCBStat := OS_STAT_MUTEX, OSTCBEventPtr := 5\<rparr>"] by simp_all
  have e: "OSEventType (OSEventMem demo_post 5) = OS_EVENT_TYPE_MUTEX" "OSIntNesting demo_post = 0" "9 = OSTCBCur demo_post"
    "OSEventPtr (OSEventMem demo_post 5) = 9" "3 = ceiling demo_post 5" "9 = mutex_prio (OSEventCnt (OSEventMem demo_post 5))"
    "OSLockNesting demo_post = 0"
    "OSTCBStat (OSTCBMem demo_post 7) AND OS_STAT_SUSPEND = 0" "OSTCBPrioTbl demo_post = (\<lambda>_. NULL)(3 := 9, 9 := 9, 4 := 7)"
    using c by (simp_all add: demo_post_def ram0_def zero_event_def zero_tcb_def set_ev_wait_def tcb_coords_def)
  have m: "4 = Min (waiting demo_post 5)" "7 = OSTCBPrioTbl demo_post 4" using w t by simp_all
  have n: "4 \<notin> {9, 3 :: u8} \<and> tcb_wf 4 (OSTCBMem demo_post 7)" using t by simp
  show ?thesis
    using mutex_post_restores [OF e(1-5) _ t(1) e(6) _ w(3,4) refl m n] w e t by simp
qed

end
