(* ===== verification/Sys_Arch.thy ===== *)
theory Sys_Arch
  imports OS_Sem OS_Task OS_Time
begin

text \<open>
  \<open>lwip1.4/src/arch/sys_arch.c\<close>: the semaphores, mailboxes and threads lwIP asks of its
  port, on top of uC/OS-II. A failed \<open>LWIP_ASSERT\<close> prints a message and loops for ever
  (\<open>LWIP_PLATFORM_ASSERT\<close> of \<open>cc.h\<close>): such an operation returns \<open>None\<close>. Where an operation
  may give up the processor, \<open>others\<close> is what the other tasks and the interrupts do until
  the caller runs again. Mutexes are semaphores of count 1 (\<open>LWIP_COMPAT_MUTEX\<close>).
\<close>

section \<open>State\<close>

type_synonym err_t = int

abbreviation (input) ERR_OK :: err_t where "ERR_OK \<equiv> 0"
abbreviation (input) ERR_MEM :: err_t where "ERR_MEM \<equiv> -1"
abbreviation (input) SYS_ARCH_TIMEOUT :: u32 where "SYS_ARCH_TIMEOUT \<equiv> 0xFFFFFFFF"
abbreviation (input) SYS_MBOX_EMPTY :: u32 where "SYS_MBOX_EMPTY \<equiv> SYS_ARCH_TIMEOUT"
abbreviation (input) MAX_QUEUE_ENTRIES :: u32 where "MAX_QUEUE_ENTRIES \<equiv> 100"
abbreviation (input) LWIP_MAX_TASKS :: nat where "LWIP_MAX_TASKS \<equiv> 2"
abbreviation (input) LWIP_STK_SIZE :: nat where "LWIP_STK_SIZE \<equiv> 800"

record lwip_mbox =
  mb_sem :: ptr
  mb_mutex :: ptr
  q_mem :: "u32 \<Rightarrow> ptr"
  mb_head :: u32
  mb_tail :: u32
  msg_num :: u32

text \<open>\<open>lwip_task_stk\<close> is the address of \<open>LWIP_TASK_STK\<close>, \<open>mbox_mem\<close> the mailboxes by address.\<close>

record net =
  system_tick_num :: u32
  kern :: os
  mbox_mem :: "ptr \<Rightarrow> lwip_mbox"
  TaskCreateFlag :: u32
  lwip_task_stk :: ptr

definition upd_mbox :: "ptr \<Rightarrow> (lwip_mbox \<Rightarrow> lwip_mbox) \<Rightarrow> net \<Rightarrow> net" where
  "upd_mbox m f n = n\<lparr>mbox_mem := (mbox_mem n)(m := f (mbox_mem n m))\<rparr>"

definition sys_now :: "net \<Rightarrow> u32" where
  "sys_now n = system_tick_num n"

section \<open>Semaphores\<close>

definition sys_sem_new :: "u8 \<Rightarrow> net \<Rightarrow> (err_t \<times> ptr \<times> net) option" where
  "sys_sem_new count n =
     (let (new_sem, s) = OSSemCreate (ucast count) (kern n)
      in if new_sem \<noteq> NULL then Some (ERR_OK, new_sem, n\<lparr>kern := s\<rparr>) else None)"

definition sys_sem_signal :: "ptr \<Rightarrow> net \<Rightarrow> net option" where
  "sys_sem_signal sem n =
     (let (err, s) = OSSemPost sem (kern n)
      in if err = OS_ERR_NONE then Some (n\<lparr>kern := s\<rparr>) else None)"

text \<open>The conversion of milliseconds to ticks; the product is taken in 32 bits.\<close>

definition sem_wait_ticks :: "u32 \<Rightarrow> u32" where
  "sem_wait_ticks timeout =
     (if timeout \<noteq> 0
      then let wait_ticks = timeout * OS_TICKS_PER_SEC div 1000
           in if wait_ticks < 1 then 1 else if wait_ticks > 65535 then 65535 else wait_ticks
      else 0)"

definition sys_arch_sem_wait :: "(net \<Rightarrow> net) \<Rightarrow> ptr \<Rightarrow> u32 \<Rightarrow> net \<Rightarrow> u32 \<times> net" where
  "sys_arch_sem_wait others sem timeout n =
     (let (cnt, s) = OSSemAccept sem (kern n)
      in if cnt \<noteq> 0 then (0, n\<lparr>kern := s\<rparr>)
         else let start = sys_now n;
                  (err, n') =
                    (case OSSemPend_enter sem (sem_wait_ticks timeout) s of
                       (Ret err, s') \<Rightarrow> (err, n\<lparr>kern := s'\<rparr>)
                     | (Blocked, s') \<Rightarrow>
                         let n1 = others (n\<lparr>kern := s'\<rparr>);
                             (err, s2) = OSSemPend_resume sem (kern n1)
                         in (err, n1\<lparr>kern := s2\<rparr>))
              in (if err = OS_ERR_NONE then sys_now n' - start else SYS_ARCH_TIMEOUT, n'))"

text \<open>\<open>*sem = NULL\<close> at the end is the second component.\<close>

definition sys_sem_free :: "ptr \<Rightarrow> net \<Rightarrow> ptr \<times> net" where
  "sys_sem_free sem n = (NULL, n\<lparr>kern := snd (snd (OSSemDel sem OS_DEL_ALWAYS (kern n)))\<rparr>)"

text \<open>\<open>sys_msleep\<close> of \<open>core/sys.c\<close>.\<close>

definition sys_msleep :: "(net \<Rightarrow> net) \<Rightarrow> u32 \<Rightarrow> net \<Rightarrow> net option" where
  "sys_msleep others ms n =
     (if ms > 0
      then case sys_sem_new 0 n of
             None \<Rightarrow> None
           | Some (err, delaysem, n1) \<Rightarrow>
               Some (snd (sys_sem_free delaysem (snd (sys_arch_sem_wait others delaysem ms n1))))
      else Some n)"

section \<open>Mailboxes\<close>

definition sys_mutex_lock :: "(net \<Rightarrow> net) \<Rightarrow> ptr \<Rightarrow> net \<Rightarrow> net" where
  "sys_mutex_lock others mutex n = snd (sys_arch_sem_wait others mutex 0 n)"

definition sys_mbox_new :: "ptr \<Rightarrow> net \<Rightarrow> (err_t \<times> net) option" where
  "sys_mbox_new mbox n =
     (case sys_sem_new 0 n of
        None \<Rightarrow> None
      | Some (err, sem, n1) \<Rightarrow>
          let n2 = upd_mbox mbox (\<lambda>b. b\<lparr>mb_sem := sem\<rparr>) n1
          in case sys_sem_new 1 n2 of
               None \<Rightarrow> None
             | Some (err, mutex, n3) \<Rightarrow>
                 Some (ERR_OK, upd_mbox mbox (\<lambda>b. b\<lparr>mb_mutex := mutex, q_mem := (\<lambda>_. NULL),
                                  mb_head := 0, mb_tail := 0, msg_num := 0\<rparr>) n3))"

definition sys_mbox_free :: "ptr \<Rightarrow> net \<Rightarrow> net" where
  "sys_mbox_free mbox n =
     (let n1 = snd (sys_sem_free (mb_sem (mbox_mem n mbox)) n);
          n2 = upd_mbox mbox (\<lambda>b. b\<lparr>mb_sem := NULL\<rparr>) n1;
          n3 = snd (sys_sem_free (mb_mutex (mbox_mem n2 mbox)) n2)
      in upd_mbox mbox (\<lambda>b. b\<lparr>mb_sem := NULL, mb_mutex := NULL\<rparr>) n3)"

text \<open>The ring update that both post operations run between lock and unlock, and its inverse.\<close>

definition mbox_put :: "ptr \<Rightarrow> lwip_mbox \<Rightarrow> lwip_mbox" where
  "mbox_put msg b =
     (let b1 = b\<lparr>q_mem := (q_mem b)(mb_head b := msg), mb_head := mb_head b + 1\<rparr>;
          b2 = (if mb_head b1 \<ge> MAX_QUEUE_ENTRIES then b1\<lparr>mb_head := 0\<rparr> else b1)
      in b2\<lparr>msg_num := msg_num b2 + 1\<rparr>)"

definition mbox_get :: "lwip_mbox \<Rightarrow> ptr \<times> lwip_mbox" where
  "mbox_get b =
     (let msg = q_mem b (mb_tail b);
          b1 = b\<lparr>mb_tail := mb_tail b + 1\<rparr>;
          b2 = (if mb_tail b1 \<ge> MAX_QUEUE_ENTRIES then b1\<lparr>mb_tail := 0\<rparr> else b1)
      in (msg, if msg_num b2 > 0 then b2\<lparr>msg_num := msg_num b2 - 1\<rparr> else b2))"

text \<open>Locking, enqueueing, signalling and unlocking, once there was room.\<close>

definition mbox_send :: "ptr \<Rightarrow> ptr \<Rightarrow> net \<Rightarrow> net option" where
  "mbox_send mbox msg n =
     (let n1 = upd_mbox mbox (mbox_put msg) n
      in case sys_sem_signal (mb_sem (mbox_mem n1 mbox)) n1 of
           None \<Rightarrow> None
         | Some n2 \<Rightarrow> sys_sem_signal (mb_mutex (mbox_mem n2 mbox)) n2)"

text \<open>
  The loop of \<open>sys_mbox_post\<close> sleeps until there is room, which may never be: \<open>others\<close> gives
  what happens in each sleep, and \<open>None\<close> is also the value of a loop that does not end. In
  the critical section a mailbox that is full again is a failed assertion.
\<close>

partial_function (option) mbox_wait_room :: "(net \<Rightarrow> net) \<Rightarrow> ptr \<Rightarrow> net \<Rightarrow> net option" where
  "mbox_wait_room others mbox n =
     (if msg_num (mbox_mem n mbox) \<ge> MAX_QUEUE_ENTRIES
      then Option.bind (sys_msleep others 1 n) (mbox_wait_room others mbox)
      else Some n)"

definition sys_mbox_post :: "(net \<Rightarrow> net) \<Rightarrow> ptr \<Rightarrow> ptr \<Rightarrow> net \<Rightarrow> net option" where
  "sys_mbox_post others mbox msg n =
     (case mbox_wait_room others mbox n of
        None \<Rightarrow> None
      | Some n1 \<Rightarrow>
          let n2 = sys_mutex_lock others (mb_mutex (mbox_mem n1 mbox)) n1
          in if msg_num (mbox_mem n2 mbox) \<ge> MAX_QUEUE_ENTRIES then None
             else mbox_send mbox msg n2)"

definition sys_mbox_trypost :: "(net \<Rightarrow> net) \<Rightarrow> ptr \<Rightarrow> ptr \<Rightarrow> net \<Rightarrow> (err_t \<times> net) option" where
  "sys_mbox_trypost others mbox msg n =
     (let n1 = sys_mutex_lock others (mb_mutex (mbox_mem n mbox)) n
      in if msg_num (mbox_mem n1 mbox) \<ge> MAX_QUEUE_ENTRIES
         then map_option (\<lambda>n2. (ERR_MEM, n2)) (sys_sem_signal (mb_mutex (mbox_mem n1 mbox)) n1)
         else map_option (\<lambda>n2. (ERR_OK, n2)) (mbox_send mbox msg n1))"

text \<open>Taking a message once the semaphore was obtained.\<close>

definition mbox_receive :: "(net \<Rightarrow> net) \<Rightarrow> ptr \<Rightarrow> net \<Rightarrow> (ptr \<times> net) option" where
  "mbox_receive others mbox n =
     (let n1 = sys_mutex_lock others (mb_mutex (mbox_mem n mbox)) n;
          msg = fst (mbox_get (mbox_mem n1 mbox));
          n2 = upd_mbox mbox (\<lambda>b. snd (mbox_get b)) n1
      in map_option (\<lambda>n3. (msg, n3)) (sys_sem_signal (mb_mutex (mbox_mem n2 mbox)) n2))"

definition sys_arch_mbox_fetch :: "(net \<Rightarrow> net) \<Rightarrow> ptr \<Rightarrow> u32 \<Rightarrow> net \<Rightarrow> ((u32 \<times> ptr) \<times> net) option" where
  "sys_arch_mbox_fetch others mbox timeout n =
     (let (wait_ticks, n1) = sys_arch_sem_wait others (mb_sem (mbox_mem n mbox)) timeout n
      in if wait_ticks \<noteq> SYS_ARCH_TIMEOUT
         then map_option (\<lambda>(msg, n2). ((wait_ticks, msg), n2)) (mbox_receive others mbox n1)
         else Some ((SYS_ARCH_TIMEOUT, NULL), n1))"

text \<open>The message is \<open>None\<close> where \<open>*msg\<close> is not written.\<close>

definition sys_arch_mbox_tryfetch :: "(net \<Rightarrow> net) \<Rightarrow> ptr \<Rightarrow> net \<Rightarrow> ((u32 \<times> ptr option) \<times> net) option" where
  "sys_arch_mbox_tryfetch others mbox n =
     (if msg_num (mbox_mem n mbox) = 0 then Some ((SYS_MBOX_EMPTY, None), n)
      else let (wait_ticks, n1) = sys_arch_sem_wait others (mb_sem (mbox_mem n mbox)) 1 n
           in if wait_ticks \<noteq> SYS_ARCH_TIMEOUT
              then map_option (\<lambda>(msg, n2). ((0, Some msg), n2)) (mbox_receive others mbox n1)
              else Some ((SYS_ARCH_TIMEOUT, Some NULL), n1))"

section \<open>Threads\<close>

text \<open>
  The loop that looks for a clear bit of \<open>TaskCreateFlag\<close>. \<open>i\<close> stops at \<open>LWIP_MAX_TASKS\<close>,
  so fuel 3 is enough.
\<close>

fun thread_slot :: "nat \<Rightarrow> u32 \<Rightarrow> nat \<Rightarrow> nat option" where
  "thread_slot 0 flag i = None"
| "thread_slot (Suc k) flag i =
     (if drop_bit i flag AND 1 \<noteq> 0
      then if i < LWIP_MAX_TASKS \<and> i < 32 then thread_slot k flag (i + 1) else None
      else Some i)"

text \<open>\<open>&LWIP_TASK_STK[i][LWIP_STK_SIZE - 1]\<close>, words of four bytes.\<close>

definition lwip_stk_top :: "net \<Rightarrow> nat \<Rightarrow> ptr" where
  "lwip_stk_top n i = lwip_task_stk n + 4 * (LWIP_STK_SIZE * i + (LWIP_STK_SIZE - 1))"

definition sys_thread_new :: "link_addrs \<Rightarrow> ptr \<Rightarrow> ptr \<Rightarrow> int \<Rightarrow> net \<Rightarrow> u8 \<times> net" where
  "sys_thread_new ld thread arg prio n =
     (case thread_slot 3 (TaskCreateFlag n) 0 of
        None \<Rightarrow> (0, n)
      | Some i \<Rightarrow>
          let (err, s) = OSTaskCreate ld thread arg (lwip_stk_top n i) (word_of_int prio) (kern n);
              n1 = n\<lparr>kern := s\<rparr>
          in (word_of_int prio,
              if err = OS_ERR_NONE then n1\<lparr>TaskCreateFlag := TaskCreateFlag n1 OR push_bit i 1\<rparr> else n1))"

end
