(* ===== verification/Sys_Arch_Props.thy ===== *)
theory Sys_Arch_Props
  imports Sys_Arch Fifo OS_Demo
begin

text \<open>
  A mailbox of lwIP that no other task is using is a bounded queue of 100 messages: the
  interface \<open>bounded_fifo\<close> interpreted on \<open>sys_mbox_trypost\<close> and \<open>sys_arch_mbox_fetch\<close>. The
  semaphore counts the messages, the mutex is free between calls.
\<close>

section \<open>Semaphores without waiters\<close>

definition sem_free :: "ptr \<Rightarrow> u16 \<Rightarrow> os \<Rightarrow> bool" where
  "sem_free e c s \<longleftrightarrow> OSEventType (OSEventMem s e) = OS_EVENT_TYPE_SEM \<and> OSEventGrp (OSEventMem s e) = 0
     \<and> OSEventCnt (OSEventMem s e) = c"

definition set_cnt :: "ptr \<Rightarrow> u16 \<Rightarrow> os \<Rightarrow> os" where
  "set_cnt e c = upd_event e (\<lambda>v. v\<lparr>OSEventCnt := c\<rparr>)"

lemma sem_free_set [simp]:
  "sem_free e c (set_cnt x d s) \<longleftrightarrow> (if e = x then (\<exists>c'. sem_free e c' s) \<and> c = d else sem_free e c s)"
  by (auto simp: sem_free_def set_cnt_def)

lemma set_cnt_twice [simp]: "set_cnt e c (set_cnt e d s) = set_cnt e c s"
  by (simp add: set_cnt_def upd_event_def)

lemma set_cnt_id: "sem_free e c s \<Longrightarrow> set_cnt e c s = s"
  by (auto simp: set_cnt_def upd_event_def sem_free_def)

lemma set_cnt_comm: "x \<noteq> y \<Longrightarrow> set_cnt x c (set_cnt y d s) = set_cnt y d (set_cnt x c s)"
  by (simp add: set_cnt_def upd_event_def fun_upd_twist)

lemma set_cnt_other: "sem_free y d s \<Longrightarrow> x \<noteq> y \<Longrightarrow> set_cnt y d (set_cnt x c s) = set_cnt x c s"
  by (simp add: set_cnt_id)

lemma accept_free: "sem_free e c s \<Longrightarrow> c \<noteq> 0 \<Longrightarrow> OSSemAccept e s = (c, set_cnt e (c - 1) s)"
  by (auto simp: OSSemAccept_def sem_free_def set_cnt_def upd_event_def Let_def word_gt_0)

lemma post_free: "sem_free e c s \<Longrightarrow> c < 65535 \<Longrightarrow> OSSemPost e s = (OS_ERR_NONE, set_cnt e (c + 1) s)"
  by (auto simp: OSSemPost_def sem_free_def set_cnt_def upd_event_def)

lemma signal_free: "sem_free e c (kern n) \<Longrightarrow> c < 65535 \<Longrightarrow>
    sys_sem_signal e n = Some (n\<lparr>kern := set_cnt e (c + 1) (kern n)\<rparr>)"
  by (simp add: sys_sem_signal_def post_free)

lemma wait_free: "sem_free e c (kern n) \<Longrightarrow> c \<noteq> 0 \<Longrightarrow>
    sys_arch_sem_wait others e t n = (0, n\<lparr>kern := set_cnt e (c - 1) (kern n)\<rparr>)"
  by (simp add: sys_arch_sem_wait_def accept_free)

section \<open>The ring\<close>

definition mbox_items :: "ptr \<Rightarrow> net \<Rightarrow> ptr list" where
  "mbox_items m n = (let b = mbox_mem n m
     in map (\<lambda>i. q_mem b (word_of_nat ((unat (mb_tail b) + i) mod 100))) [0..<unat (msg_num b)])"

definition ring_ok :: "lwip_mbox \<Rightarrow> bool" where
  "ring_ok b \<longleftrightarrow> unat (mb_head b) < 100 \<and> unat (mb_tail b) < 100 \<and> unat (msg_num b) \<le> 100
     \<and> unat (mb_head b) = (unat (mb_tail b) + unat (msg_num b)) mod 100"

definition mbox_ok :: "ptr \<Rightarrow> net \<Rightarrow> bool" where
  "mbox_ok m n \<longleftrightarrow> (let b = mbox_mem n m
     in ring_ok b \<and> mb_sem b \<noteq> mb_mutex b \<and> sem_free (mb_sem b) (ucast (msg_num b)) (kern n)
        \<and> sem_free (mb_mutex b) 1 (kern n))"

lemma step100:
  fixes w :: u32
  assumes "unat w < 100"
  shows "unat (if w + 1 \<ge> 100 then 0 else w + 1) = (unat w + 1) mod 100"
proof -
  have "unat (w + 1) = unat w + 1" using unat_inc [of w 100] assms by (simp add: word_less_nat_alt)
  then show ?thesis using assms by (cases "unat w = 99") (simp_all add: word_le_nat_alt)
qed

lemma ring_put:
  assumes ok: "ring_ok b" and room: "unat (msg_num b) < 100"
  shows "ring_ok (mbox_put x b)" "msg_num (mbox_put x b) = msg_num b + 1" "unat (msg_num b + 1) = unat (msg_num b) + 1"
    "mb_sem (mbox_put x b) = mb_sem b" "mb_mutex (mbox_put x b) = mb_mutex b" "mb_tail (mbox_put x b) = mb_tail b"
    "q_mem (mbox_put x b) = (q_mem b)(mb_head b := x)"
proof -
  have n: "unat (msg_num b + 1) = unat (msg_num b) + 1"
    using unat_inc [of "msg_num b" 100] room by (simp add: word_less_nat_alt)
  have h: "mb_head (mbox_put x b) = (if mb_head b + 1 \<ge> 100 then 0 else mb_head b + 1)"
    "mb_tail (mbox_put x b) = mb_tail b" "msg_num (mbox_put x b) = msg_num b + 1"
    by (simp_all add: mbox_put_def Let_def)
  have "unat (mb_head (mbox_put x b)) = (unat (mb_head b) + 1) mod 100"
    unfolding h(1) using ok by (intro step100) (simp add: ring_ok_def)
  then show "ring_ok (mbox_put x b)" using ok room n by (simp add: ring_ok_def h(2,3) mod_simps)
  show "msg_num (mbox_put x b) = msg_num b + 1" "unat (msg_num b + 1) = unat (msg_num b) + 1"
    "mb_sem (mbox_put x b) = mb_sem b" "mb_mutex (mbox_put x b) = mb_mutex b" "mb_tail (mbox_put x b) = mb_tail b"
    "q_mem (mbox_put x b) = (q_mem b)(mb_head b := x)"
    using n by (simp_all add: mbox_put_def Let_def)
qed

lemma ring_get:
  assumes ok: "ring_ok b" and ne: "msg_num b \<noteq> 0"
  shows "ring_ok (snd (mbox_get b))" "msg_num (snd (mbox_get b)) = msg_num b - 1"
    "unat (msg_num b - 1) = unat (msg_num b) - 1"
    "mb_sem (snd (mbox_get b)) = mb_sem b" "mb_mutex (snd (mbox_get b)) = mb_mutex b"
    "unat (mb_tail (snd (mbox_get b))) = (unat (mb_tail b) + 1) mod 100"
    "q_mem (snd (mbox_get b)) = q_mem b" "fst (mbox_get b) = q_mem b (mb_tail b)"
proof -
  have n: "unat (msg_num b - 1) = unat (msg_num b) - 1" "unat (msg_num b) \<noteq> 0"
    using unat_minus_one [OF ne] ne by (simp_all add: unat_eq_0)
  have h: "mb_tail (snd (mbox_get b)) = (if mb_tail b + 1 \<ge> 100 then 0 else mb_tail b + 1)"
    "mb_head (snd (mbox_get b)) = mb_head b" "msg_num (snd (mbox_get b)) = msg_num b - 1"
    using ne by (simp_all add: mbox_get_def Let_def word_gt_0)
  show t: "unat (mb_tail (snd (mbox_get b))) = (unat (mb_tail b) + 1) mod 100"
    unfolding h(1) using ok by (intro step100) (simp add: ring_ok_def)
  obtain k where k: "unat (msg_num b) = Suc k" using n(2) by (cases "unat (msg_num b)") auto
  show "ring_ok (snd (mbox_get b))" using ok n t k by (simp add: ring_ok_def h(2,3) mod_simps)
  show "msg_num (snd (mbox_get b)) = msg_num b - 1" "unat (msg_num b - 1) = unat (msg_num b) - 1"
    "mb_sem (snd (mbox_get b)) = mb_sem b" "mb_mutex (snd (mbox_get b)) = mb_mutex b"
    "q_mem (snd (mbox_get b)) = q_mem b" "fst (mbox_get b) = q_mem b (mb_tail b)"
    using n(1) ne by (simp_all add: mbox_get_def Let_def word_gt_0)
qed

section \<open>The operations\<close>

lemma upd_mbox_sel [simp]:
  "mbox_mem (upd_mbox m f n) x = (if x = m then f (mbox_mem n m) else mbox_mem n x)"
  "kern (upd_mbox m f n) = kern n"
  by (simp_all add: upd_mbox_def)

lemma net_upd_comm: "n\<lparr>kern := s, mbox_mem := mm\<rparr> = n\<lparr>mbox_mem := mm, kern := s\<rparr>" for n :: net
  by simp

lemma mbox_cnt:
  assumes "ring_ok b"
  shows "(ucast (msg_num b) :: u16) < 65535" "msg_num b \<noteq> 0 \<Longrightarrow> (ucast (msg_num b) :: u16) \<noteq> 0"
    "unat (msg_num b) < 100 \<Longrightarrow> (ucast (msg_num b + 1) :: u16) = ucast (msg_num b) + 1"
    "msg_num b \<noteq> 0 \<Longrightarrow> (ucast (msg_num b - 1) :: u16) = ucast (msg_num b) - 1"
proof -
  have u: "unat (ucast (msg_num b) :: u16) = unat (msg_num b)"
    using assms by (simp add: ring_ok_def unsigned_ucast_eq take_bit_nat_eq_self)
  then show "(ucast (msg_num b) :: u16) < 65535" using assms by (simp add: word_less_nat_alt ring_ok_def)
  show nz: "(ucast (msg_num b) :: u16) \<noteq> 0" if "msg_num b \<noteq> 0" using u that by (metis unat_eq_0)
  show "(ucast (msg_num b + 1) :: u16) = ucast (msg_num b) + 1" if "unat (msg_num b) < 100"
    using u unat_inc [of "msg_num b" 100] unat_inc [of "ucast (msg_num b) :: u16" 100] that
    by (simp add: word_unat_eq_iff unsigned_ucast_eq take_bit_nat_eq_self word_less_nat_alt)
  show "(ucast (msg_num b - 1) :: u16) = ucast (msg_num b) - 1" if "msg_num b \<noteq> 0"
  proof -
    have "unat (msg_num b) - 1 < 65536" using assms unfolding ring_ok_def by linarith
    then show ?thesis
      using u unat_minus_one [OF that] unat_minus_one [OF nz [OF that]]
      by (simp add: word_unat_eq_iff unsigned_ucast_eq take_bit_eq_mod)
  qed
qed

lemma trypost_free:
  assumes ok: "mbox_ok m n"
  shows "sys_mbox_trypost others m x n =
    (if unat (msg_num (mbox_mem n m)) < 100
     then Some (ERR_OK, (upd_mbox m (mbox_put x) n)\<lparr>kern := set_cnt (mb_sem (mbox_mem n m))
                           (ucast (msg_num (mbox_mem n m) + 1)) (kern n)\<rparr>)
     else Some (ERR_MEM, n))"
proof -
  let ?b = "mbox_mem n m"
  have ring: "ring_ok ?b" and ne: "mb_sem ?b \<noteq> mb_mutex ?b" and sem: "sem_free (mb_sem ?b) (ucast (msg_num ?b)) (kern n)"
    and mut: "sem_free (mb_mutex ?b) 1 (kern n)" using ok by (simp_all add: mbox_ok_def Let_def)
  have lock: "sys_mutex_lock others (mb_mutex ?b) n = n\<lparr>kern := set_cnt (mb_mutex ?b) 0 (kern n)\<rparr>"
    using wait_free [OF mut] by (simp add: sys_mutex_lock_def)
  show ?thesis
  proof (cases "unat (msg_num ?b) < 100")
    case True
    have mut': "\<exists>c. sem_free (mb_mutex ?b) c (kern n)" using mut by blast
    have comm: "set_cnt (mb_mutex ?b) 1 (set_cnt (mb_sem ?b) c (set_cnt (mb_mutex ?b) 0 (kern n))) = set_cnt (mb_sem ?b) c (kern n)" for c
      using set_cnt_other [OF mut ne] by (simp add: set_cnt_comm [OF ne])
    have "mbox_send m x (n\<lparr>kern := set_cnt (mb_mutex ?b) 0 (kern n)\<rparr>)
        = Some ((upd_mbox m (mbox_put x) n)\<lparr>kern := set_cnt (mb_sem ?b) (ucast (msg_num ?b + 1)) (kern n)\<rparr>)"
      using ring_put(2,4,5) [OF ring True, of x] ne mut' sem mbox_cnt(1,3) [OF ring] True comm
      by (simp add: mbox_send_def Let_def signal_free [of _ "ucast (msg_num ?b)"] signal_free [of _ 0] upd_mbox_def)
    then show ?thesis using True lock by (simp add: sys_mbox_trypost_def word_le_nat_alt Let_def)
  next
    case False
    have "sys_sem_signal (mb_mutex ?b) (n\<lparr>kern := set_cnt (mb_mutex ?b) 0 (kern n)\<rparr>) = Some n"
      using mut set_cnt_id [OF mut] by (subst signal_free [of _ 0]) auto
    then show ?thesis using False lock by (simp add: sys_mbox_trypost_def word_le_nat_alt Let_def)
  qed
qed

lemma fetch_free:
  assumes ok: "mbox_ok m n" and ne0: "msg_num (mbox_mem n m) \<noteq> 0"
  shows "sys_arch_mbox_fetch others m t n =
     Some ((0, fst (mbox_get (mbox_mem n m))), (upd_mbox m (\<lambda>b. snd (mbox_get b)) n)
       \<lparr>kern := set_cnt (mb_sem (mbox_mem n m)) (ucast (msg_num (mbox_mem n m) - 1)) (kern n)\<rparr>)"
proof -
  let ?b = "mbox_mem n m" and ?c = "ucast (msg_num (mbox_mem n m) - 1) :: u16"
  have ring: "ring_ok ?b" and ne: "mb_sem ?b \<noteq> mb_mutex ?b" and sem: "sem_free (mb_sem ?b) (ucast (msg_num ?b)) (kern n)"
    and mut: "sem_free (mb_mutex ?b) 1 (kern n)" using ok by (simp_all add: mbox_ok_def Let_def)
  have w: "sys_arch_sem_wait others (mb_sem ?b) t n = (0, n\<lparr>kern := set_cnt (mb_sem ?b) ?c (kern n)\<rparr>)"
    using wait_free [OF sem] mbox_cnt(2,4) [OF ring] ne0 by simp
  let ?n1 = "n\<lparr>kern := set_cnt (mb_sem ?b) ?c (kern n)\<rparr>"
  have lock: "sys_mutex_lock others (mb_mutex ?b) ?n1 = ?n1\<lparr>kern := set_cnt (mb_mutex ?b) 0 (kern ?n1)\<rparr>"
    using wait_free [of "mb_mutex ?b" 1 ?n1] mut ne by (simp add: sys_mutex_lock_def)
  have comm: "set_cnt (mb_mutex ?b) 1 (set_cnt (mb_sem ?b) ?c (kern n)) = set_cnt (mb_sem ?b) ?c (kern n)"
    by (rule set_cnt_other [OF mut ne])
  have "mbox_receive others m ?n1 = Some (fst (mbox_get ?b), (upd_mbox m (\<lambda>b. snd (mbox_get b)) n)
       \<lparr>kern := set_cnt (mb_sem ?b) ?c (kern n)\<rparr>)"
    using lock ring_get(4,5) [OF ring ne0] mut ne comm
      signal_free [of "mb_mutex ?b" 0 "(upd_mbox m (\<lambda>b. snd (mbox_get b)) n)
        \<lparr>kern := set_cnt (mb_mutex ?b) 0 (set_cnt (mb_sem ?b) ?c (kern n))\<rparr>"]
    by (auto simp: mbox_receive_def Let_def upd_mbox_def net_upd_comm)
  then show ?thesis by (simp add: sys_arch_mbox_fetch_def w)
qed

section \<open>The mailbox is a bounded queue\<close>

definition mb_enq :: "ptr \<Rightarrow> ptr \<Rightarrow> net \<Rightarrow> net" where
  "mb_enq m x n = (case sys_mbox_trypost id m x n of Some (err, n1) \<Rightarrow> n1 | None \<Rightarrow> n)"

definition mb_deq :: "ptr \<Rightarrow> net \<Rightarrow> ptr \<times> net" where
  "mb_deq m n = (case sys_arch_mbox_fetch id m 0 n of Some ((t, msg), n1) \<Rightarrow> (msg, n1) | None \<Rightarrow> (NULL, n))"

lemma length_mbox_items [simp]: "length (mbox_items m n) = unat (msg_num (mbox_mem n m))"
  by (simp add: mbox_items_def Let_def)

lemma ring_inj: "t < 100 \<Longrightarrow> i < m \<Longrightarrow> m < 100 \<Longrightarrow> (t + i) mod 100 \<noteq> (t + m) mod (100 :: nat)"
proof
  assume a: "t < 100" "i < m" "m < 100" "(t + i) mod 100 = (t + m) mod 100"
  have r: "x mod 100 = (if x < 100 then x else x - 100)" if "x < 200" for x :: nat
    using that by (auto simp: mod_if)
  show False using a r [of "t + i"] r [of "t + m"] by (auto split: if_splits)
qed

lemma mbox_items_put:
  assumes "ring_ok (mbox_mem n m)" "unat (msg_num (mbox_mem n m)) < 100" "mbox_mem n' m = mbox_put x (mbox_mem n m)"
  shows "mbox_items m n' = mbox_items m n @ [x]"
proof -
  let ?b = "mbox_mem n m"
  have r: "unat (mb_tail ?b) < 100" "unat (mb_head ?b) = (unat (mb_tail ?b) + unat (msg_num ?b)) mod 100"
    using assms(1) by (auto simp: ring_ok_def)
  have h: "mb_head ?b = word_of_nat ((unat (mb_tail ?b) + unat (msg_num ?b)) mod 100)"
    by (simp flip: r(2))
  have neq: "(word_of_nat ((unat (mb_tail ?b) + i) mod 100) :: u32) \<noteq> mb_head ?b" if i: "i < unat (msg_num ?b)" for i
  proof
    assume "(word_of_nat ((unat (mb_tail ?b) + i) mod 100) :: u32) = mb_head ?b"
    then have "unat (word_of_nat ((unat (mb_tail ?b) + i) mod 100) :: u32) = unat (mb_head ?b)" by simp
    then have "(unat (mb_tail ?b) + i) mod 100 = (unat (mb_tail ?b) + unat (msg_num ?b)) mod 100"
      unfolding r(2) by (subst (asm) unsigned_of_nat) (simp add: take_bit_nat_eq_self)
    with ring_inj [OF r(1) i assms(2)] show False by simp
  qed
  show ?thesis using neq unfolding mbox_items_def Let_def assms(3) ring_put(2) [OF assms(1,2), of x] ring_put(3) [OF assms(1,2)]
      ring_put(6,7) [OF assms(1,2), of x]
    by (simp flip: h)
qed

lemma mbox_items_get:
  assumes "ring_ok (mbox_mem n m)" "msg_num (mbox_mem n m) \<noteq> 0" "mbox_mem n' m = snd (mbox_get (mbox_mem n m))"
  shows "mbox_items m n = fst (mbox_get (mbox_mem n m)) # mbox_items m n'"
proof -
  let ?b = "mbox_mem n m"
  have t: "unat (mb_tail ?b) < 100" using assms(1) by (simp add: ring_ok_def)
  obtain k where k: "unat (msg_num ?b) = Suc k" using assms(2) by (cases "unat (msg_num ?b)") (auto simp: unat_eq_0)
  have idx: "((unat (mb_tail ?b) + 1) mod 100 + i) mod 100 = (unat (mb_tail ?b) + Suc i) mod 100" for i
    by (simp add: mod_simps)
  have t0: "word_of_nat (unat (mb_tail ?b) mod 100) = mb_tail ?b" using t by simp
  have "map f [0..<Suc k] = f 0 # map (\<lambda>i. f (Suc i)) [0..<k]" for f :: "nat \<Rightarrow> ptr"
    by (simp add: upt_conv_Cons map_Suc_upt [symmetric] del: upt_Suc)
  then show ?thesis
    using ring_get(2,3,6,7,8) [OF assms(1,2)] k t0 assms(3) idx
    by (simp add: mbox_items_def Let_def del: upt_Suc)
qed

lemma mbox_ok_put:
  assumes "mbox_ok m n" "unat (msg_num (mbox_mem n m)) < 100"
  shows "mbox_ok m ((upd_mbox m (mbox_put x) n)\<lparr>kern := set_cnt (mb_sem (mbox_mem n m)) (ucast (msg_num (mbox_mem n m) + 1)) (kern n)\<rparr>)"
  using assms ring_put(1,2,4,5) [OF _ assms(2), of x]
  by (auto simp: mbox_ok_def Let_def)

lemma mbox_ok_get:
  assumes "mbox_ok m n" "msg_num (mbox_mem n m) \<noteq> 0"
  shows "mbox_ok m ((upd_mbox m (\<lambda>b. snd (mbox_get b)) n)\<lparr>kern := set_cnt (mb_sem (mbox_mem n m)) (ucast (msg_num (mbox_mem n m) - 1)) (kern n)\<rparr>)"
  using assms ring_get(1,2,4,5) [OF _ assms(2)] by (auto simp: mbox_ok_def Let_def)

interpretation mbq: bounded_fifo "mbox_ok m" "mbox_items m" "\<lambda>_. 100" "mb_enq m" "mb_deq m" for m
proof unfold_locales
  fix n x
  assume ok: "mbox_ok m n"
  then have ring: "ring_ok (mbox_mem n m)" by (simp add: mbox_ok_def Let_def)
  then show "length (mbox_items m n) \<le> 100" by (simp add: ring_ok_def)
  show "mbox_ok m (mb_enq m x n) \<and> mbox_items m (mb_enq m x n) = mbox_items m n @ [x] \<and> 100 = (100::nat)"
    if "length (mbox_items m n) < 100"
    using trypost_free [OF ok] that mbox_ok_put [OF ok] mbox_items_put [OF ring] by (simp add: mb_enq_def)
  show "mbox_ok m (snd (mb_deq m n)) \<and> mbox_items m n = fst (mb_deq m n) # mbox_items m (snd (mb_deq m n)) \<and> 100 = (100::nat)"
    if "mbox_items m n \<noteq> []"
  proof -
    have ne: "msg_num (mbox_mem n m) \<noteq> 0" using that length_mbox_items [of m n] by (auto simp del: length_mbox_items)
    show ?thesis using fetch_free [OF ok ne] mbox_ok_get [OF ok ne] mbox_items_get [OF ring ne] by (simp add: mb_deq_def)
  qed
qed

section \<open>Creation\<close>

text \<open>A kernel with two free event blocks gives \<open>sys_mbox_new\<close> a mailbox that is in order and empty.\<close>

definition mbox_kernel :: "net \<Rightarrow> bool" where
  "mbox_kernel n \<longleftrightarrow> os_inv True (kern n) \<and> OSIntNesting (kern n) = 0
     \<and> (\<exists>a b es. ev_lists (kern n) (a # b # es))"

lemma event_create_sem_free:
  assumes inv: "os_inv dfr s" and lists: "ev_lists s (e # fs)" and isr: "OSIntNesting s = 0"
    and eq: "OSSemCreate c s = (e', s')"
  shows "e' = e" "e \<noteq> NULL" "sem_free e c s'" "ev_lists s' fs" "OSIntNesting s' = 0" "os_inv dfr s'"
    "x \<noteq> e \<Longrightarrow> OSEventMem s' x = OSEventMem s x"
proof -
  have s': "s' = snd (event_create OS_EVENT_TYPE_SEM c NULL s)" "e' = fst (event_create OS_EVENT_TYPE_SEM c NULL s)"
    using eq by (simp_all add: OSSemCreate_def)
  note c = event_create_ok [OF inv lists isr s'(1)]
  have e: "e \<in> events" "ev_type s e = OS_EVENT_TYPE_UNUSED" using lists by (auto simp: ev_lists_def)
  show "e' = e" using c(1) s'(2) by simp
  show "e \<noteq> NULL" using lists by (auto simp: ev_lists_def)
  show i: "os_inv dfr s'" unfolding s'(1) by (rule event_create_inv [OF inv refl])
  have "waiting s' e = {}" using task_inv_unused [OF os_invD(4) [OF inv] e] c(5) by simp
  then have "OSEventGrp (OSEventMem s' e) = 0" using ev_grp_task [OF i e(1)] by simp
  then show "sem_free e c s'" using c(2) [of e] c(3) by (simp add: sem_free_def ev_type_def)
  show "ev_lists s' fs" by (rule c(14))
  show "OSIntNesting s' = 0" using c(11) isr by simp
  show "x \<noteq> e \<Longrightarrow> OSEventMem s' x = OSEventMem s x" by (rule c(6))
qed

lemma sys_mbox_new_ok:
  assumes "mbox_kernel n"
  obtains n' where "sys_mbox_new m n = Some (ERR_OK, n')" "mbox_ok m n'" "mbox_items m n' = []"
proof -
  obtain a b es where inv: "os_inv True (kern n)" and isr: "OSIntNesting (kern n) = 0" and l: "ev_lists (kern n) (a # b # es)"
    using assms by (auto simp: mbox_kernel_def)
  have ab: "a \<noteq> b" using l by (auto simp: ev_lists_def)
  obtain s1 where c1: "OSSemCreate 0 (kern n) = (a, s1)"
    using event_create_sem_free(1) [OF inv l isr] by (metis surj_pair)
  note p1 = event_create_sem_free [OF inv l isr c1]
  obtain s2 where c2: "OSSemCreate 1 s1 = (b, s2)"
    using event_create_sem_free(1) [OF p1(6,4,5)] by (metis surj_pair)
  note p2 = event_create_sem_free [OF p1(6,4,5) c2]
  have "OSEventMem s2 a = OSEventMem s1 a" using p2(7) ab by blast
  then have sem: "sem_free a 0 s2" using p1(3) by (simp add: sem_free_def)
  let ?n = "upd_mbox m (\<lambda>v. v\<lparr>mb_mutex := b, q_mem := (\<lambda>_. NULL), mb_head := 0, mb_tail := 0, msg_num := 0\<rparr>)
      ((upd_mbox m (\<lambda>v. v\<lparr>mb_sem := a\<rparr>) (n\<lparr>kern := s1\<rparr>))\<lparr>kern := s2\<rparr>)"
  have "sys_mbox_new m n = Some (ERR_OK, ?n)"
    using c1 c2 p1(2) p2(2) by (simp add: sys_mbox_new_def sys_sem_new_def)
  moreover have "mbox_ok m ?n" using sem p2(3) ab by (simp add: mbox_ok_def ring_ok_def)
  moreover have "mbox_items m ?n = []" by (simp add: mbox_items_def Let_def)
  ultimately show thesis by (rule that)
qed

section \<open>Properties\<close>

text \<open>
  C16: a mailbox in order holds at most 100 messages. Posting without waiting appends the
  message while there is room and otherwise returns \<open>ERR_MEM\<close> and changes nothing; fetching from a
  mailbox with messages returns the oldest one without waiting; both leave the mailbox in
  order.
\<close>

theorem mbox_refines_list:
  assumes ok: "mbox_ok m n"
  shows "length (mbox_items m n) \<le> 100
    \<and> (length (mbox_items m n) < 100 \<longrightarrow> (\<exists>n'. sys_mbox_trypost others m x n = Some (ERR_OK, n')
         \<and> mbox_ok m n' \<and> mbox_items m n' = mbox_items m n @ [x]))
    \<and> (length (mbox_items m n) = 100 \<longrightarrow> sys_mbox_trypost others m x n = Some (ERR_MEM, n))
    \<and> (mbox_items m n \<noteq> [] \<longrightarrow> (\<exists>n'. sys_arch_mbox_fetch others m t n = Some ((0, hd (mbox_items m n)), n')
         \<and> mbox_ok m n' \<and> mbox_items m n' = tl (mbox_items m n)))"
proof (intro conjI impI)
  have ring: "ring_ok (mbox_mem n m)" using ok by (simp add: mbox_ok_def Let_def)
  show "length (mbox_items m n) \<le> 100" by (rule mbq.bounded [OF ok])
  show "\<exists>n'. sys_mbox_trypost others m x n = Some (ERR_OK, n') \<and> mbox_ok m n' \<and> mbox_items m n' = mbox_items m n @ [x]"
    if "length (mbox_items m n) < 100"
    using trypost_free [OF ok] that mbox_ok_put [OF ok] mbox_items_put [OF ring] by simp
  show "sys_mbox_trypost others m x n = Some (ERR_MEM, n)" if "length (mbox_items m n) = 100"
    using trypost_free [OF ok] that by simp
  show "\<exists>n'. sys_arch_mbox_fetch others m t n = Some ((0, hd (mbox_items m n)), n')
         \<and> mbox_ok m n' \<and> mbox_items m n' = tl (mbox_items m n)" if "mbox_items m n \<noteq> []"
  proof -
    have ne: "msg_num (mbox_mem n m) \<noteq> 0" using that length_mbox_items [of m n] by (auto simp del: length_mbox_items)
    let ?n = "(upd_mbox m (\<lambda>b. snd (mbox_get b)) n)
       \<lparr>kern := set_cnt (mb_sem (mbox_mem n m)) (ucast (msg_num (mbox_mem n m) - 1)) (kern n)\<rparr>"
    have "mbox_items m n = fst (mbox_get (mbox_mem n m)) # mbox_items m ?n" by (rule mbox_items_get [OF ring ne]) simp
    then show ?thesis using fetch_free [OF ok ne, of others t] mbox_ok_get [OF ok ne]
      by (intro exI [of _ ?n]) simp
  qed
qed

definition demo_net :: net where
  "demo_net = \<lparr>system_tick_num = 0, kern = demo0, mbox_mem = (\<lambda>_. \<lparr>mb_sem = 0, mb_mutex = 0, q_mem = (\<lambda>_. 0),
     mb_head = 0, mb_tail = 0, msg_num = 0\<rparr>), TaskCreateFlag = 3, lwip_task_stk = 0x20004000\<rparr>"

lemma demo_net: "mbox_kernel demo_net"
proof -
  have "[1..<50] = 1 # [2..<50::nat]" by (simp add: upt_conv_Cons)
  then show ?thesis using demo0(2,5,7) by (auto simp: mbox_kernel_def demo_net_def)
qed

lemma mbox_refines_list_witness:
  "\<exists>n'. mbox_ok 7 n' \<and> (\<exists>n''. sys_mbox_trypost id 7 9 n' = Some (ERR_OK, n'') \<and> mbox_items 7 n'' = [9])"
proof -
  obtain n' where n: "sys_mbox_new 7 demo_net = Some (ERR_OK, n')" "mbox_ok 7 n'" "mbox_items 7 n' = []"
    by (rule sys_mbox_new_ok [OF demo_net])
  from mbox_refines_list [OF n(2), of id 9 0] n(2,3) show ?thesis by auto
qed

text \<open>
  On a kernel with two free event blocks a new mailbox is made without a failed
  assertion, and at most 100 messages posted to it come out in the order they went in.
\<close>

theorem mbox_fifo:
  assumes "mbox_kernel n" "length xs \<le> 100"
  shows "\<exists>n'. sys_mbox_new m n = Some (ERR_OK, n') \<and> fst (take_out (mb_deq m) (length xs) (fold (mb_enq m) xs n')) = xs"
proof -
  obtain n' where n: "sys_mbox_new m n = Some (ERR_OK, n')" "mbox_ok m n'" "mbox_items m n' = []"
    by (rule sys_mbox_new_ok [OF assms(1)])
  then show ?thesis using mbq.fifo [OF n(2,3) assms(2)] by blast
qed

lemma mbox_fifo_witness:
  "mbox_kernel demo_net \<and> (\<exists>n'. sys_mbox_new 7 demo_net = Some (ERR_OK, n')
     \<and> fst (take_out (mb_deq 7) 3 (fold (mb_enq 7) [4, 5, 6] n')) = [4, 5, 6])"
  using mbox_fifo [OF demo_net, of "[4, 5, 6]" 7] demo_net
  by (simp add: numeral_3_eq_3 del: take_out.simps)

text \<open>
  C17: the number of ticks a wait of \<open>timeout\<close> milliseconds asks of the kernel: none only for
  \<open>timeout\<close> 0, which waits for ever, else between 1 and 65535, and the exact quotient in
  between as long as the product fits in 32 bits. From 21474837 ms on it wraps: a timeout of
  about six hours waits one tick.
\<close>

theorem sem_wait_ticks_exact:
  "(sem_wait_ticks t = 0 \<longleftrightarrow> t = 0) \<and> unat (sem_wait_ticks t) \<le> 65535
   \<and> (t \<noteq> 0 \<and> unat t \<le> 21474836 \<longrightarrow> unat (sem_wait_ticks t) = min 65535 (max 1 (unat t * 200 div 1000)))
   \<and> sem_wait_ticks 21474837 = 1"
proof -
  have p: "unat (t * 200) = unat t * 200" if "unat t \<le> 21474836"
    using that by (simp add: unat_word_ariths)
  have w: "unat (t * 200 div 1000) = unat (t * 200) div 1000" by (simp add: unat_div_distrib)
  have u: "unat (sem_wait_ticks t) = (if t = 0 then 0 else min 65535 (max 1 (unat (t * 200) div 1000)))"
    by (simp add: sem_wait_ticks_def Let_def word_less_nat_alt w min_def max_def)
  have "sem_wait_ticks t = 0 \<longleftrightarrow> unat (sem_wait_ticks t) = 0" by (simp add: unat_eq_0)
  then have a: "sem_wait_ticks t = 0 \<longleftrightarrow> t = 0" by (simp add: u min_def max_def)
  have "sem_wait_ticks 21474837 = 1" by code_simp
  then show ?thesis using a u p by auto
qed

lemma sem_wait_ticks_exact_witness: "unat (sem_wait_ticks 1500) = 300"
  using sem_wait_ticks_exact [of 1500] by simp

text \<open>
  A thread takes the lowest clear bit of \<open>TaskCreateFlag\<close>. With a free bit among the first
  two its stack lies in \<open>LWIP_TASK_STK\<close>; with both taken the search still answers 2, and the top
  of the stack it gives the new task lies past the end of the array, which has two rows.
\<close>

theorem thread_slot_lowest:
  "thread_slot 3 flag 0 =
     (if \<not> bit flag 0 then Some 0 else if \<not> bit flag 1 then Some 1 else if \<not> bit flag 2 then Some 2 else None)
   \<and> (i < 2 \<longleftrightarrow> lwip_stk_top n i < lwip_task_stk n + 4 * (LWIP_STK_SIZE * LWIP_MAX_TASKS))
   \<and> (bit flag 0 \<and> bit flag 1 \<and> \<not> bit flag 2 \<longrightarrow>
        (\<exists>j. thread_slot 3 flag 0 = Some j \<and> lwip_stk_top n j \<ge> lwip_task_stk n + 4 * (LWIP_STK_SIZE * LWIP_MAX_TASKS)))"
proof -
  have b: "drop_bit k flag AND 1 \<noteq> 0 \<longleftrightarrow> bit flag k" for k
    by (simp add: and_one_eq bit_iff_odd_drop_bit odd_iff_mod_2_eq_one)
  have three: "(3 :: nat) = Suc (Suc (Suc 0))" by simp
  have s: "thread_slot 3 flag 0 =
     (if \<not> bit flag 0 then Some 0 else if \<not> bit flag 1 then Some 1 else if \<not> bit flag 2 then Some 2 else None)"
    unfolding three 
    by (simp only: thread_slot.simps b) (simp add: numeral_2_eq_2)
  show ?thesis unfolding s by (auto simp: lwip_stk_top_def)
qed

lemma thread_slot_lowest_witness:
  "\<exists>j. thread_slot 3 (TaskCreateFlag demo_net) 0 = Some j \<and> lwip_stk_top demo_net j \<ge> 0x20004000 + 6400"
  using thread_slot_lowest [of 3 2 demo_net] by (simp add: demo_net_def bit_simps)

end
