(* ===== verification/Lw_State.thy ===== *)
theory Lw_State
  imports Prelude
begin

text \<open>
  The memory lwIP works on, in the configuration of \<open>lwipopts.h\<close>: packet buffers
  (\<open>pbuf.h\<close>), the bytes they carry, the heap of \<open>mem.c\<close> and the pools of \<open>memp.c\<close>. Structures
  are maps from addresses to records, payload bytes a map from addresses to bytes; the \<open>next\<close>
  field that overlays a free pool element and the heap headers are maps of their own, which
  is right for a program that keeps to its blocks. Also the byte order functions of \<open>def.c\<close>.
\<close>

section \<open>State\<close>

text \<open>\<open>pbuf_type\<close> and \<open>pbuf_layer\<close>.\<close>

abbreviation (input) PBUF_RAM :: u8 where "PBUF_RAM \<equiv> 0"
abbreviation (input) PBUF_ROM :: u8 where "PBUF_ROM \<equiv> 1"
abbreviation (input) PBUF_REF :: u8 where "PBUF_REF \<equiv> 2"
abbreviation (input) PBUF_POOL :: u8 where "PBUF_POOL \<equiv> 3"

datatype pbuf_layer = PBUF_TRANSPORT | PBUF_IP | PBUF_LINK | PBUF_RAW

record pbuf =
  pb_next :: ptr
  payload :: ptr
  tot_len :: u16
  pb_len :: u16
  pb_type :: u8
  pb_flags :: u8
  pb_ref :: u16

text \<open>The header of a heap block; \<open>next\<close> and \<open>prev\<close> are offsets in the heap.\<close>

record mem_hdr =
  m_next :: u16
  m_prev :: u16
  m_used :: u8

record lw =
  octet :: "ptr \<Rightarrow> u8"
  pbufs :: "ptr \<Rightarrow> pbuf"
  mem_ram :: ptr
  mem_hdrs :: "ptr \<Rightarrow> mem_hdr"
  lfree :: ptr
  memp_tab :: "nat \<Rightarrow> ptr"
  memp_next :: "ptr \<Rightarrow> ptr"

definition upd_pbuf :: "ptr \<Rightarrow> (pbuf \<Rightarrow> pbuf) \<Rightarrow> lw \<Rightarrow> lw" where
  "upd_pbuf p f w = w\<lparr>pbufs := (pbufs w)(p := f (pbufs w p))\<rparr>"

definition pbuf_next :: "lw \<Rightarrow> ptr \<Rightarrow> ptr" where
  "pbuf_next w p = pb_next (pbufs w p)"

text \<open>The \<open>n\<close> bytes at an address, and storing bytes (\<open>MEMCPY\<close>).\<close>

definition bytes_at :: "(ptr \<Rightarrow> u8) \<Rightarrow> ptr \<Rightarrow> nat \<Rightarrow> u8 list" where
  "bytes_at m p n = map (\<lambda>i. m (p + i)) [0..<n]"

fun store_bytes :: "ptr \<Rightarrow> u8 list \<Rightarrow> (ptr \<Rightarrow> u8) \<Rightarrow> ptr \<Rightarrow> u8" where
  "store_bytes p [] m = m"
| "store_bytes p (b # bs) m = store_bytes (p + 1) bs (m(p := b))"

text \<open>The bytes a list of packet buffers carries.\<close>

definition pbuf_bytes :: "lw \<Rightarrow> ptr list \<Rightarrow> u8 list" where
  "pbuf_bytes w ps = concat (map (\<lambda>p. bytes_at (octet w) (payload (pbufs w p)) (unat (pb_len (pbufs w p)))) ps)"

section \<open>Byte order\<close>

definition lwip_htons :: "u16 \<Rightarrow> u16" where
  "lwip_htons n = push_bit 8 (n AND 0xff) OR drop_bit 8 (n AND 0xff00)"

definition lwip_ntohs :: "u16 \<Rightarrow> u16" where
  "lwip_ntohs n = lwip_htons n"

definition lwip_htonl :: "u32 \<Rightarrow> u32" where
  "lwip_htonl n = push_bit 24 (n AND 0xff) OR push_bit 8 (n AND 0xff00)
     OR drop_bit 8 (n AND 0xff0000) OR drop_bit 24 (n AND 0xff000000)"

definition lwip_ntohl :: "u32 \<Rightarrow> u32" where
  "lwip_ntohl n = lwip_htonl n"

section \<open>Facts\<close>

lemma upd_pbuf_sel [simp]:
  "pbufs (upd_pbuf p f w) x = (if x = p then f (pbufs w p) else pbufs w x)"
  "octet (upd_pbuf p f w) = octet w" "mem_hdrs (upd_pbuf p f w) = mem_hdrs w" "lfree (upd_pbuf p f w) = lfree w"
  "mem_ram (upd_pbuf p f w) = mem_ram w" "memp_tab (upd_pbuf p f w) = memp_tab w"
  "memp_next (upd_pbuf p f w) = memp_next w"
  by (simp_all add: upd_pbuf_def)

lemma length_bytes_at [simp]: "length (bytes_at m p n) = n"
  by (simp add: bytes_at_def)

lemma bytes_at_0 [simp]: "bytes_at m p 0 = []"
  by (simp add: bytes_at_def)

lemma bytes_at_Suc: "bytes_at m p (Suc n) = m p # bytes_at m (Suc p) n"
  by (simp add: bytes_at_def upt_conv_Cons map_Suc_upt [symmetric] del: upt_Suc)

lemma bytes_at_append: "bytes_at m p (a + b) = bytes_at m p a @ bytes_at m (p + a) b"
  by (induction a arbitrary: p) (simp_all add: bytes_at_Suc)

lemma bytes_at_cong: "(\<And>i. i < n \<Longrightarrow> m (p + i) = m' (p + i)) \<Longrightarrow> bytes_at m p n = bytes_at m' p n"
  by (simp add: bytes_at_def)

lemma store_bytes_outside: "q < p \<or> p + length bs \<le> q \<Longrightarrow> store_bytes p bs m q = m q"
  by (induction bs arbitrary: p m) auto

lemma store_bytes_inside: "i < length bs \<Longrightarrow> store_bytes p bs m (p + i) = bs ! i"
proof (induction bs arbitrary: p i m)
  case (Cons b bs)
  show ?case
  proof (cases i)
    case 0
    then show ?thesis by (simp add: store_bytes_outside)
  next
    case (Suc j)
    then show ?thesis using Cons.IH [of j "p + 1"] Cons.prems by simp
  qed
qed simp

lemma bytes_store: "bytes_at (store_bytes p bs m) p (length bs) = bs"
  by (rule nth_equalityI) (auto simp: bytes_at_def store_bytes_inside)

end
