(* ===== verification/Inet_Chksum.thy ===== *)
theory Inet_Chksum
  imports Lw_State
begin

text \<open>\<open>core/ipv4/inet_chksum.c\<close> with \<open>LWIP_CHKSUM_ALGORITHM 1\<close>: the Internet checksum.\<close>

definition SWAP_BYTES_IN_WORD :: "u32 \<Rightarrow> u32" where
  "SWAP_BYTES_IN_WORD w = push_bit 8 (w AND 0xff) OR drop_bit 8 (w AND 0xff00)"

definition FOLD_U32T :: "u32 \<Rightarrow> u32" where
  "FOLD_U32T u = drop_bit 16 u + (u AND 0x0000ffff)"

text \<open>The loop of \<open>lwip_standard_chksum\<close> with the odd byte after it.\<close>

fun chksum_loop :: "(ptr \<Rightarrow> u8) \<Rightarrow> ptr \<Rightarrow> nat \<Rightarrow> u32 \<Rightarrow> u32" where
  "chksum_loop m octetptr len acc =
     (if len > 1
      then let src = push_bit 8 (ucast (m octetptr)) OR ucast (m (octetptr + 1)) :: u16
           in chksum_loop m (octetptr + 2) (len - 2) (acc + ucast src)
      else if len > 0
      then let src = push_bit 8 (ucast (m octetptr)) :: u16 in acc + ucast src
      else acc)"

declare chksum_loop.simps [simp del]

definition lwip_standard_chksum :: "(ptr \<Rightarrow> u8) \<Rightarrow> ptr \<Rightarrow> u16 \<Rightarrow> u16" where
  "lwip_standard_chksum m dataptr len =
     (let acc = chksum_loop m dataptr (unat len) 0;
          acc = FOLD_U32T acc;
          acc = (if acc AND 0xffff0000 \<noteq> 0 then FOLD_U32T acc else acc)
      in lwip_htons (ucast acc))"

definition inet_chksum :: "(ptr \<Rightarrow> u8) \<Rightarrow> ptr \<Rightarrow> u16 \<Rightarrow> u16" where
  "inet_chksum m dataptr len = NOT (lwip_standard_chksum m dataptr len)"

text \<open>
  The loops over a chain of buffers end at \<open>NULL\<close>; on a chain with a cycle they do not end
  and the value is \<open>None\<close>. The state of the loop is \<open>(acc, swapped)\<close>.
\<close>

definition pbuf_chksum_step :: "lw \<Rightarrow> ptr \<Rightarrow> u32 \<times> u8 \<Rightarrow> u32 \<times> u8" where
  "pbuf_chksum_step w q st =
     (let (acc, swapped) = st;
          acc = FOLD_U32T (acc + ucast (lwip_standard_chksum (octet w) (payload (pbufs w q)) (pb_len (pbufs w q))))
      in if pb_len (pbufs w q) mod 2 \<noteq> 0 then (SWAP_BYTES_IN_WORD acc, 1 - swapped) else (acc, swapped))"

partial_function (option) pbuf_chksum_loop :: "lw \<Rightarrow> ptr \<Rightarrow> u32 \<times> u8 \<Rightarrow> (u32 \<times> u8) option" where
  "pbuf_chksum_loop w q st =
     (if q \<noteq> NULL then pbuf_chksum_loop w (pbuf_next w q) (pbuf_chksum_step w q st) else Some st)"

definition unswap :: "u32 \<times> u8 \<Rightarrow> u32" where
  "unswap st = (if snd st \<noteq> 0 then SWAP_BYTES_IN_WORD (fst st) else fst st)"

definition inet_chksum_pbuf :: "lw \<Rightarrow> ptr \<Rightarrow> u16 option" where
  "inet_chksum_pbuf w p =
     map_option (\<lambda>st. NOT (ucast (unswap st AND 0xffff))) (pbuf_chksum_loop w p (0, 0))"

text \<open>Adding the pseudo header, shared by the two functions that have one.\<close>

definition pseudo_hdr :: "u32 \<Rightarrow> u32 \<Rightarrow> u8 \<Rightarrow> u16 \<Rightarrow> u32 \<Rightarrow> u32" where
  "pseudo_hdr src dest proto proto_len acc =
     (let acc = acc + (src AND 0xffff);
          acc = acc + (drop_bit 16 src AND 0xffff);
          acc = acc + (dest AND 0xffff);
          acc = acc + (drop_bit 16 dest AND 0xffff);
          acc = acc + ucast (lwip_htons (ucast proto));
          acc = acc + ucast (lwip_htons proto_len)
      in FOLD_U32T (FOLD_U32T acc))"

definition inet_chksum_pseudo :: "lw \<Rightarrow> ptr \<Rightarrow> u32 \<Rightarrow> u32 \<Rightarrow> u8 \<Rightarrow> u16 \<Rightarrow> u16 option" where
  "inet_chksum_pseudo w p src dest proto proto_len =
     map_option (\<lambda>st. NOT (ucast (pseudo_hdr src dest proto proto_len (unswap st) AND 0xffff)))
       (pbuf_chksum_loop w p (0, 0))"

text \<open>
  The partial variant stops after \<open>chksum_len\<close> bytes. Its assertion \<open>chksum_len < 0x7fff\<close>
  loops for ever when it fails.
\<close>

partial_function (option) pbuf_chksum_partial_loop :: "lw \<Rightarrow> ptr \<Rightarrow> u16 \<Rightarrow> u32 \<times> u8 \<Rightarrow> (u32 \<times> u8) option" where
  "pbuf_chksum_partial_loop w q chksum_len st =
     (if q \<noteq> NULL \<and> chksum_len > 0
      then let (acc, swapped) = st;
               chklen = (if pb_len (pbufs w q) > chksum_len then chksum_len else pb_len (pbufs w q));
               acc = acc + ucast (lwip_standard_chksum (octet w) (payload (pbufs w q)) chklen);
               chksum_len = chksum_len - chklen
           in if chksum_len < 0x7fff
              then let acc = FOLD_U32T acc
                   in pbuf_chksum_partial_loop w (pbuf_next w q) chksum_len
                        (if pb_len (pbufs w q) mod 2 \<noteq> 0 then (SWAP_BYTES_IN_WORD acc, 1 - swapped) else (acc, swapped))
              else None
      else Some st)"

definition inet_chksum_pseudo_partial ::
  "lw \<Rightarrow> ptr \<Rightarrow> u32 \<Rightarrow> u32 \<Rightarrow> u8 \<Rightarrow> u16 \<Rightarrow> u16 \<Rightarrow> u16 option" where
  "inet_chksum_pseudo_partial w p src dest proto proto_len chksum_len =
     map_option (\<lambda>st. NOT (ucast (pseudo_hdr src dest proto proto_len (unswap st) AND 0xffff)))
       (pbuf_chksum_partial_loop w p chksum_len (0, 0))"

end
