(* ===== verification/Inet_Chksum_Props.thy ===== *)
theory Inet_Chksum_Props
  imports Inet_Chksum
begin

text \<open>
  The checksum functions compute the ones' complement sum of RFC 1071: the reference is the
  natural number \<open>wsum\<close> of the 16-bit words of the data, reduced by \<open>ones\<close>. The sum over a
  chain of buffers is that of the concatenated bytes, however they are cut.
\<close>

section \<open>Ones' complement numbers\<close>

fun wsum :: "u8 list \<Rightarrow> nat" where
  "wsum [] = 0"
| "wsum [a] = 256 * unat a"
| "wsum (a # b # bs) = 256 * unat a + unat b + wsum bs"

definition ones :: "nat \<Rightarrow> nat" where
  "ones n = (if n = 0 then 0 else Suc ((n - 1) mod 65535))"

lemma ones_0 [simp]: "ones n = 0 \<longleftrightarrow> n = 0"
  by (simp add: ones_def)

lemma ones_le: "ones n \<le> 65535"
  by (simp add: ones_def Suc_le_eq)

lemma ones_mod: "ones n mod 65535 = n mod 65535"
  by (cases n) (simp_all add: ones_def mod_Suc_eq)

lemma ones_unique: "x \<le> 65535 \<Longrightarrow> x mod 65535 = n mod 65535 \<Longrightarrow> (x = 0 \<longleftrightarrow> n = 0) \<Longrightarrow> x = ones n"
proof -
  assume a: "x \<le> 65535" "x mod 65535 = n mod 65535" "x = 0 \<longleftrightarrow> n = 0"
  have small: "y mod 65535 = (if y = 65535 then 0 else y)" if "y \<le> 65535" for y :: nat using that by auto
  show ?thesis
  proof (cases "n = 0")
    case False
    then have "x \<noteq> 0" "ones n \<noteq> 0" using a by simp_all
    then show ?thesis using a(2) small [OF a(1)] small [OF ones_le [of n]] ones_mod [of n]
      by (auto split: if_splits)
  qed (use a in \<open>simp add: ones_def\<close>)
qed

lemma ones_cong: "a mod 65535 = b mod 65535 \<Longrightarrow> (a = 0 \<longleftrightarrow> b = 0) \<Longrightarrow> ones a = ones b"
  by (rule ones_unique) (auto simp: ones_le ones_mod)

lemma ones_small: "n \<le> 65535 \<Longrightarrow> ones n = n"
  using ones_unique [of n n] by simp

lemma ones_add [simp]: "ones (ones a + b) = ones (a + b)" "ones (a + ones b) = ones (a + b)"
proof -
  have "(ones x + y) mod 65535 = (x + y) mod 65535" for x y using ones_mod [of x] by (metis mod_add_left_eq)
  then show "ones (ones a + b) = ones (a + b)" "ones (a + ones b) = ones (a + b)"
    by (auto intro!: ones_cong simp: add.commute)
qed

lemma ones_mult [simp]: "ones (a * ones b) = ones (a * b)"
proof (rule ones_cong)
  show "a * ones b mod 65535 = a * b mod 65535" using ones_mod [of b] by (metis mod_mult_right_eq)
qed simp

lemma ones_65536 [simp]: "ones (65536 * a + b) = ones (a + b)"
proof (rule ones_cong)
  have "65536 * a + b = (a + b) + 65535 * a" by simp
  then show "(65536 * a + b) mod 65535 = (a + b) mod 65535" by (metis mod_mult_self2)
qed simp

lemma ones_swap2: "ones (256 * (256 * a)) = ones a"
  using ones_65536 [of a 0] by simp

lemma ones_swap2_add: "ones (256 * (256 * a) + b) = ones (a + b)"
  by simp

section \<open>The sum of a list\<close>

lemma wsum_le: "wsum bs \<le> 65535 * ((length bs + 1) div 2)"
proof (induction bs rule: wsum.induct)
  case (2 a)
  then show ?case using u8_unat_less [of a] by (simp del: u8_unat_less)
next
  case (3 a b bs)
  then show ?case using u8_unat_less [of a] u8_unat_less [of b] by (simp del: u8_unat_less)
qed simp

lemma wsum_even: "even (length xs) \<Longrightarrow> wsum (xs @ ys) = wsum xs + wsum ys"
  by (induction xs rule: wsum.induct) auto

lemma wsum_Cons: "ones (wsum (a # ys)) = ones (256 * unat a + 256 * wsum ys)"
proof (induction ys arbitrary: a rule: wsum.induct)
  case (2 b)
  show ?case using ones_swap2_add [of "unat b" "256 * unat a"] by (simp add: add.commute)
next
  case (3 b c bs)
  have "ones (wsum (a # b # c # bs)) = ones (256 * unat a + unat b + wsum (c # bs))" by simp
  also have "\<dots> = ones (256 * unat a + unat b + (256 * unat c + 256 * wsum bs))"
    using 3 [of c] ones_add(2) by metis
  also have "\<dots> = ones (256 * (256 * unat b) + (256 * unat a + 256 * unat c + 256 * wsum bs))"
    by (subst ones_swap2_add) (simp add: algebra_simps)
  finally show ?case by (simp add: algebra_simps)
qed simp

lemma wsum_odd: "odd (length xs) \<Longrightarrow> ones (wsum (xs @ ys)) = ones (wsum xs + 256 * wsum ys)"
proof (induction xs rule: wsum.induct)
  case (2 a)
  then show ?case by (simp add: wsum_Cons)
next
  case (3 a b bs)
  then have "ones (256 * unat a + unat b + wsum (bs @ ys)) = ones (256 * unat a + unat b + (wsum bs + 256 * wsum ys))"
    using ones_add(2) [of "256 * unat a + unat b"] by (metis even_Suc_Suc_iff length_Cons)
  then show ?case by (simp add: add.assoc)
qed simp

section \<open>Folding and swapping\<close>

lemma or_low: "b < 2 ^ k \<Longrightarrow> push_bit k a OR b = push_bit k a + (b :: nat)"
proof -
  assume b: "b < 2 ^ k"
  have "\<not> bit b n" if "k \<le> n" for n
    using b that by (metis bit_take_bit_iff linorder_not_less take_bit_nat_eq_self)
  then have "push_bit k a AND b = 0" by (intro bit_eqI) (auto simp: bit_and_iff bit_push_bit_iff)
  then show ?thesis by (simp add: disjunctive_add_eq_or)
qed

lemma unat_FOLD: "unat (FOLD_U32T u) = unat u div 65536 + unat u mod 65536"
proof -
  have "unat u < 2 ^ 32" using unsigned_less [of u, where 'a = nat] by simp
  then have "unat u div 65536 + unat u mod 65536 < 2 ^ 32" by linarith
  moreover have "unat (u AND 0xffff) = unat u mod 65536"
    using take_bit_eq_mask [of 16 "unat u"] by (simp add: unsigned_and_eq mask_numeral take_bit_eq_mod flip: take_bit_eq_mask)
  ultimately show ?thesis
    by (simp add: FOLD_U32T_def unat_word_ariths unsigned_drop_bit_eq drop_bit_eq_div)
qed

lemma FOLD_small: "unat u \<le> 131070 \<Longrightarrow> unat (FOLD_U32T u) = ones (unat u)"
proof -
  assume u: "unat u \<le> 131070"
  let ?h = "unat u div 65536" and ?l = "unat u mod 65536"
  have "?h + ?l \<le> 65535"
  proof (cases "unat u < 65536")
    case False
    then have "?h = 1" "?l = unat u - 65536" using u by (simp_all add: div_if mod_if)
    then show ?thesis using u by linarith
  qed simp
  then have "?h + ?l = ones (?h + ?l)" by (simp add: ones_small)
  also have "\<dots> = ones (65536 * ?h + ?l)" by (rule ones_65536 [symmetric])
  finally show ?thesis unfolding unat_FOLD by simp
qed

lemma ones_FOLD: "ones (unat (FOLD_U32T u)) = ones (unat u)"
proof -
  have "ones (unat u div 65536 + unat u mod 65536) = ones (65536 * (unat u div 65536) + unat u mod 65536)"
    by (rule ones_65536 [symmetric])
  then show ?thesis unfolding unat_FOLD by simp
qed

lemma FOLD_twice: "unat (FOLD_U32T (FOLD_U32T u)) = ones (unat u)"
proof -
  have "unat u < 4294967296" using unsigned_less [of u, where 'a = nat] by simp
  then have "unat (FOLD_U32T u) \<le> 131070" unfolding unat_FOLD by linarith
  from FOLD_small [OF this] show ?thesis by (simp add: ones_FOLD)
qed

lemma swap_nat:
  assumes "x \<le> 65535"
  shows "256 * (x mod 256) + x div 256 = ones (256 * x)"
proof -
  have "256 * (x mod 256) + x div 256 \<le> 65535" using assms by linarith
  then have "256 * (x mod 256) + x div 256 = ones (256 * (x mod 256) + x div 256)" by (simp add: ones_small)
  also have "\<dots> = ones (65536 * (x div 256) + 256 * (x mod 256))"
    by (simp only: ones_65536 add.commute [of "x div 256"])
  also have "65536 * (x div 256) + 256 * (x mod 256) = 256 * x" using mult_div_mod_eq [of 256 x] by linarith
  finally show ?thesis .
qed

lemma swap_bits: "x \<le> 65535 \<Longrightarrow> push_bit 8 (x AND 255) OR drop_bit 8 (x AND 65280) = 256 * (x mod 256) + x div (256 :: nat)"
proof -
  assume x: "x \<le> 65535"
  have lo: "x AND 255 = x mod 256" using take_bit_eq_mask [of 8 x] by (simp add: mask_numeral take_bit_eq_mod)
  have "drop_bit 8 (x AND 65280) = drop_bit 8 x AND drop_bit 8 65280" by (simp add: drop_bit_and)
  also have "drop_bit 8 (65280 :: nat) = 255" by simp
  also have "drop_bit 8 x AND 255 = (x div 256) mod 256"
    using take_bit_eq_mask [of 8 "x div 256"] by (simp add: mask_numeral take_bit_eq_mod drop_bit_eq_div)
  also have "\<dots> = x div 256" using x by simp
  finally have hi: "drop_bit 8 (x AND 65280) = x div 256" .
  have "push_bit 8 (x mod 256) OR x div 256 = push_bit 8 (x mod 256) + x div 256" using x by (intro or_low) simp
  then show ?thesis unfolding lo hi by (simp add: push_bit_eq_mult)
qed


lemma and_255: "(x :: nat) AND 255 < 256"
  using take_bit_eq_mask [of 8 x] by (simp add: mask_numeral take_bit_eq_mod)

lemma swap_word:
  fixes w :: "'a::len word"
  assumes "16 \<le> LENGTH('a)" "unat w \<le> 65535" "unat (w AND 0xff) = unat w AND 255"
    "unat (w AND 0xff00) = unat w AND 65280"
  shows "unat (push_bit 8 (w AND 0xff) OR drop_bit 8 (w AND 0xff00)) = ones (256 * unat w)"
proof -
  have "push_bit 8 (unat w AND 255) < 2 ^ 16" using and_255 [of "unat w"] by (simp add: push_bit_eq_mult)
  also have "(2 :: nat) ^ 16 \<le> 2 ^ LENGTH('a)" using assms(1) by (rule power_increasing) simp
  finally have "unat (push_bit 8 (w AND 0xff)) = push_bit 8 (unat w AND 255)"
    using unat_push [of 8 "w AND 0xff"] assms(3) by simp
  moreover have "unat (drop_bit 8 (w AND 0xff00)) = drop_bit 8 (unat w AND 65280)"
    by (simp only: unat_drop_bit_eq assms(4))
  ultimately show ?thesis by (simp only: unsigned_or_eq swap_bits [OF assms(2)] swap_nat [OF assms(2)])
qed

lemma swap32: "unat w \<le> 65535 \<Longrightarrow> unat (SWAP_BYTES_IN_WORD w) = ones (256 * unat w)"
  unfolding SWAP_BYTES_IN_WORD_def by (rule swap_word) (simp_all add: unsigned_and_eq)

lemma htons_nat: "unat (lwip_htons n) = ones (256 * unat n)"
proof -
  have "unat n \<le> 65535" using unsigned_less [of n, where 'a = nat] by simp
  then show ?thesis unfolding lwip_htons_def by (intro swap_word) (simp_all add: unsigned_and_eq)
qed

section \<open>One buffer\<close>

lemma src_nat: "unat (push_bit 8 (ucast (a :: u8)) OR ucast (b :: u8) :: u16) = 256 * unat a + unat b"
proof -
  have a: "unat a < 256" and b: "unat b < 2 ^ 8" using u8_unat_less by simp_all
  then have p: "unat (push_bit 8 (ucast a :: u16)) = push_bit 8 (unat a)"
    using unat_push [of 8 "ucast a :: u16"] by (simp add: push_bit_eq_mult del: u8_unat_less)
  have "unat (push_bit 8 (ucast a) OR ucast b :: u16) = push_bit 8 (unat a) OR unat b"
    unfolding unsigned_or_eq p by simp
  also have "\<dots> = push_bit 8 (unat a) + unat b" by (rule or_low [OF b])
  finally show ?thesis by (simp add: push_bit_eq_mult)
qed

lemma chksum_loop_sum:
  "unat acc + 65535 * ((n + 1) div 2) < 4294967296 \<Longrightarrow>
    unat (chksum_loop m p n acc) = unat acc + wsum (bytes_at m p n)"
proof (induction n arbitrary: p acc rule: nat_less_induct)
  case (1 n)
  consider "n = 0" | "n = 1" | k where "n = Suc (Suc k)" by (metis One_nat_def not0_implies_Suc)
  then show ?case
  proof cases
    case 2
    let ?s = "push_bit 8 (ucast (m p)) :: u16"
    have s: "unat ?s = 256 * unat (m p)" using src_nat [of "m p" 0] by simp
    have "unat (acc + ucast ?s) = unat acc + unat (ucast ?s :: u32)"
      using 1(2) 2 s u8_unat_less [of "m p"] by (intro unat_add_small) (simp del: u8_unat_less)
    then show ?thesis using 2 s by (simp add: chksum_loop.simps [of m p "Suc 0"] bytes_at_Suc Let_def)
  next
    case 3
    let ?s = "push_bit 8 (ucast (m p)) OR ucast (m (p + 1)) :: u16"
    have s: "unat ?s \<le> 65535" using unsigned_less [of ?s, where 'a = nat] by simp
    have half: "unat acc + 65535 * Suc ((k + 1) div 2) < 4294967296" using 1(2) 3 by simp
    have sp: "unat (ucast ?s :: u32) = unat ?s" by (rule unat_promote) simp
    have half': "unat acc + 65535 + 65535 * ((k + 1) div 2) < 4294967296" using half by simp
    have add: "unat (acc + ucast ?s) = unat acc + unat (ucast ?s :: u32)"
      by (rule unat_add_small) (unfold sp, use half' s in linarith)
    have "unat (acc + ucast ?s) + 65535 * ((k + 1) div 2) < 4294967296"
      unfolding add sp using half' s by linarith
    then have "unat (chksum_loop m (p + 2) k (acc + ucast ?s)) = unat (acc + ucast ?s) + wsum (bytes_at m (p + 2) k)"
      using 1(1) 3 by simp
    then show ?thesis using 3 add
      
      by (simp only: chksum_loop.simps [of m p "Suc (Suc k)"] bytes_at_Suc wsum.simps Let_def src_nat unat_promotions) simp
  qed (simp add: chksum_loop.simps)
qed

lemma standard_nat: "unat (lwip_standard_chksum m p len) = ones (256 * wsum (bytes_at m p (unat len)))"
proof -
  let ?a = "chksum_loop m p (unat len) 0"
  have len: "unat len \<le> 65535" using unsigned_less [of len, where 'a = nat] by simp
  then have a: "unat ?a = wsum (bytes_at m p (unat len))" by (subst chksum_loop_sum) simp_all
  have hi: "u AND 0xffff0000 \<noteq> 0 \<longleftrightarrow> 65535 < unat u" for u :: u32
  proof -
    have m: "(0xffff0000 :: u32) = NOT (mask 16)" by (simp add: mask_numeral)
    have "u AND 0xffff0000 = push_bit 16 (drop_bit 16 u)" unfolding m
      by (rule bit_word_eqI) (auto simp: bit_simps)
    moreover have "drop_bit 16 (push_bit 16 (drop_bit 16 u)) = drop_bit 16 u"
      by (rule bit_word_eqI) (auto simp: bit_simps dest: bit_imp_le_length)
    ultimately have "u AND 0xffff0000 = 0 \<longleftrightarrow> drop_bit 16 u = 0"
      by (metis drop_bit_of_0 push_bit_of_0)
    then have "u AND 0xffff0000 = 0 \<longleftrightarrow> unat (drop_bit 16 u) = 0" by (simp only: unat_eq_0)
    then show ?thesis by (simp only: unat_shr) (auto simp: div_eq_0_iff)
  qed
  let ?b = "if FOLD_U32T ?a AND 0xffff0000 \<noteq> 0 then FOLD_U32T (FOLD_U32T ?a) else FOLD_U32T ?a"
  have b: "unat ?b = ones (unat ?a)"
    using FOLD_twice [of ?a] ones_small [of "unat (FOLD_U32T ?a)"] ones_FOLD [of ?a] by (auto simp: hi)
  then have "unat (ucast ?b :: u16) = ones (unat ?a)"
    using ones_le [of "unat ?a"] by (simp add: unsigned_ucast_eq take_bit_nat_eq_self)
  then show ?thesis unfolding lwip_standard_chksum_def Let_def htons_nat by (simp add: a)
qed

section \<open>A chain of buffers\<close>

text \<open>After data of sum \<open>n\<close> and even or odd length the loop holds the sum, swapped when odd.\<close>

definition chk_inv :: "nat \<Rightarrow> nat \<Rightarrow> u32 \<times> u8 \<Rightarrow> bool" where
  "chk_inv n len st \<longleftrightarrow> snd st = (if even len then 0 else 1)
     \<and> unat (fst st) = ones ((if even len then 256 else 1) * n)"

lemma even_word: "(l :: u16) mod 2 \<noteq> 0 \<longleftrightarrow> odd (unat l)"
proof -
  have "unat (l mod 2) = unat l mod 2" by (simp add: unat_mod_distrib)
  then show ?thesis by (metis odd_iff_mod_2_eq_one not_mod_2_eq_1_eq_0 unat_eq_0)
qed

lemma chk_step:
  fixes w q
  assumes inv: "chk_inv (wsum bs) (length bs) st"
  defines "new \<equiv> bytes_at (octet w) (payload (pbufs w q)) (unat (pb_len (pbufs w q)))"
  shows "chk_inv (wsum (bs @ new)) (length (bs @ new)) (pbuf_chksum_step w q st)"
proof -
  obtain acc sw where st: "st = (acc, sw)" by (cases st)
  let ?c = "lwip_standard_chksum (octet w) (payload (pbufs w q)) (pb_len (pbufs w q))"
  let ?f = "FOLD_U32T (acc + ucast ?c)"
  let ?k = "if even (length bs) then 256 else 1 :: nat"
  have acc: "unat acc = ones (?k * wsum bs)" "sw = (if even (length bs) then 0 else 1)"
    using inv st by (simp_all add: chk_inv_def)
  have c: "unat (ucast ?c :: u32) = ones (256 * wsum new)" by (simp add: standard_nat new_def)
  have "unat acc + unat (ucast ?c :: u32) \<le> 131070"
    using ones_le [of "?k * wsum bs"] ones_le [of "256 * wsum new"] unfolding acc c by linarith
  moreover from this have "unat (acc + ucast ?c) = unat acc + unat (ucast ?c :: u32)"
    by (intro unat_add_small) linarith
  ultimately have "unat ?f = ones (unat acc + unat (ucast ?c :: u32))" using FOLD_small [of "acc + ucast ?c"] by simp
  then have f: "unat ?f = ones (?k * wsum bs + 256 * wsum new)" unfolding acc(1) c by (simp only: ones_add)
  have f': "unat ?f = ones (?k * wsum (bs @ new))"
  proof (cases "even (length bs)")
    case True
    then show ?thesis using f by (simp add: wsum_even algebra_simps)
  next
    case False
    then show ?thesis using f wsum_odd [of bs new] by simp
  qed
  have swap: "unat (SWAP_BYTES_IN_WORD ?f) = ones (256 * (?k * wsum (bs @ new)))"
    using swap32 [of ?f] ones_le [of "?k * wsum (bs @ new)"] unfolding f' by (simp only: ones_mult)
  show ?thesis
  proof (cases "even (length new)")
    case True
    then have "pbuf_chksum_step w q st = (?f, sw)"
      using even_word [of "pb_len (pbufs w q)"] by (simp add: pbuf_chksum_step_def st Let_def new_def)
    then show ?thesis using True f' acc(2) by (simp add: chk_inv_def)
  next
    case False
    then have "pbuf_chksum_step w q st = (SWAP_BYTES_IN_WORD ?f, 1 - sw)"
      using even_word [of "pb_len (pbufs w q)"] by (simp add: pbuf_chksum_step_def st Let_def new_def)
    then show ?thesis using False swap acc(2) ones_swap2 [of "wsum (bs @ new)"] by (auto simp: chk_inv_def)
  qed
qed

lemma chk_loop:
  assumes "chain (pbuf_next w) q qs" "chk_inv (wsum bs) (length bs) st"
  obtains st' where "pbuf_chksum_loop w q st = Some st'"
    "chk_inv (wsum (bs @ pbuf_bytes w qs)) (length (bs @ pbuf_bytes w qs)) st'"
  using assms
proof (induction qs arbitrary: q bs st thesis)
  case Nil
  then show ?case by (simp add: pbuf_bytes_def pbuf_chksum_loop.simps [of w NULL])
next
  case (Cons p qs)
  then have q: "q = p" "p \<noteq> NULL" "chain (pbuf_next w) (pbuf_next w p) qs" by auto
  from chk_step [OF Cons.prems(3), of w p] obtain st' where st': "pbuf_chksum_loop w (pbuf_next w p) (pbuf_chksum_step w p st) = Some st'"
    "chk_inv (wsum ((bs @ bytes_at (octet w) (payload (pbufs w p)) (unat (pb_len (pbufs w p)))) @ pbuf_bytes w qs))
       (length ((bs @ bytes_at (octet w) (payload (pbufs w p)) (unat (pb_len (pbufs w p)))) @ pbuf_bytes w qs)) st'"
    using Cons.IH [OF _ q(3)] by blast
  show ?case
  proof (rule Cons.prems(1))
    show "pbuf_chksum_loop w q st = Some st'" using q st'(1) by (subst pbuf_chksum_loop.simps) simp
    show "chk_inv (wsum (bs @ pbuf_bytes w (p # qs))) (length (bs @ pbuf_bytes w (p # qs))) st'"
      using st'(2) by (simp add: pbuf_bytes_def)
  qed
qed

lemma chk_unswap:
  assumes "chk_inv n len st"
  shows "unat (unswap st) = ones (256 * n)"
  using assms swap32 [of "fst st"] ones_le [of "256 * n"] ones_le [of n] by (auto simp: chk_inv_def unswap_def)

lemma chain_sum:
  assumes "chain (pbuf_next w) p ps"
  obtains st where "pbuf_chksum_loop w p (0, 0) = Some st" "unat (unswap st) = ones (256 * wsum (pbuf_bytes w ps))"
proof -
  have "chk_inv (wsum []) (length ([] :: u8 list)) (0, 0)" by (simp add: chk_inv_def ones_def)
  from chk_loop [OF assms this] chk_unswap that show thesis by (metis append_Nil)
qed

lemma unat_NOT: "unat (NOT (x :: u16)) = 65535 - unat x"
proof -
  have "NOT x = -1 - x" by (simp add: not_eq_complement)
  moreover have "unat (-1 - x) = unat (-1 :: u16) - unat x" by (rule unat_sub) simp
  moreover have "unat (-1 :: u16) = 65535" by (simp add: unsigned_minus_1_eq_mask mask_numeral)
  ultimately show ?thesis by simp
qed

lemma not_low:
  assumes "unat (x :: u32) = ones n"
  shows "unat (NOT (ucast (x AND 0xffff)) :: u16) = 65535 - ones n"
proof -
  have m: "(0xffff :: u32) = mask 16" by (simp add: mask_numeral)
  have "take_bit 16 (unat x) = unat x" using ones_le [of n] assms by (intro take_bit_nat_eq_self) simp
  then have "unat (ucast (x AND 0xffff) :: u16) = unat x"
    unfolding m take_bit_eq_mask [symmetric] by (simp add: unsigned_ucast_eq unsigned_take_bit_eq)
  then show ?thesis using assms by (simp add: unat_NOT)
qed

section \<open>A chain of two buffers\<close>

definition demo_pbuf :: "ptr \<Rightarrow> ptr \<Rightarrow> u16 \<Rightarrow> u16 \<Rightarrow> pbuf" where
  "demo_pbuf nxt data tot len = \<lparr>pb_next = nxt, payload = data, tot_len = tot, pb_len = len, pb_type = PBUF_POOL,
     pb_flags = 0, pb_ref = 1\<rparr>"

definition demo_lw :: lw where
  "demo_lw = \<lparr>octet = (\<lambda>_. 0)(500 := 0x45, 501 := 0x10, 502 := 0x80, 600 := 0x7f, 601 := 0x33),
     pbufs = (\<lambda>_. demo_pbuf 0 0 0 0)(100 := demo_pbuf 200 500 5 3, 200 := demo_pbuf 0 600 2 2),
     mem_ram = 0, mem_hdrs = (\<lambda>_. \<lparr>m_next = 0, m_prev = 0, m_used = 0\<rparr>), lfree = 0, memp_tab = (\<lambda>_. 0), memp_next = (\<lambda>_. 0)\<rparr>"

lemma demo_lw: "chain (pbuf_next demo_lw) 100 [100, 200]" "pbuf_bytes demo_lw [100, 200] = [0x45, 0x10, 0x80, 0x7f, 0x33]"
proof -
  show "chain (pbuf_next demo_lw) 100 [100, 200]" by (simp add: demo_lw_def demo_pbuf_def pbuf_next_def)
  have b: "bytes_at (octet demo_lw) 500 (Suc (Suc (Suc 0))) = [0x45, 0x10, 0x80]"
    "bytes_at (octet demo_lw) 600 (Suc (Suc 0)) = [0x7f, 0x33]"
    by (simp_all add: bytes_at_Suc demo_lw_def)
  show "pbuf_bytes demo_lw [100, 200] = [0x45, 0x10, 0x80, 0x7f, 0x33]"
  proof -
    have l: "unat (3 :: u16) = Suc (Suc (Suc 0))" "unat (2 :: u16) = Suc (Suc 0)" by simp_all
    have p: "payload (pbufs demo_lw 100) = 500" "pb_len (pbufs demo_lw 100) = 3"
      "payload (pbufs demo_lw 200) = 600" "pb_len (pbufs demo_lw 200) = 2"
      by (simp_all add: demo_lw_def demo_pbuf_def)
    show ?thesis by (simp only: pbuf_bytes_def list.map concat.simps p l b append.simps)
  qed
qed

section \<open>Properties\<close>

lemma inet_chksum_nat: "unat (inet_chksum m a len) = 65535 - ones (256 * wsum (bytes_at m a (unat len)))"
  by (simp add: inet_chksum_def unat_NOT standard_nat)

text \<open>
  C18: for every chain of buffers the checksum function ends, and its value is the complement
  of the ones' complement sum of all bytes of the chain: it is what \<open>inet_chksum\<close> gives for the
  same bytes in one piece, wherever the chain cuts them.
\<close>

theorem chksum_pbuf_concat:
  assumes "chain (pbuf_next w) p ps"
  shows "\<exists>c. inet_chksum_pbuf w p = Some c \<and> unat c = 65535 - ones (256 * wsum (pbuf_bytes w ps))
    \<and> (\<forall>m a len. bytes_at m a (unat len) = pbuf_bytes w ps \<longrightarrow> inet_chksum m a len = c)"
proof -
  obtain st where st: "pbuf_chksum_loop w p (0, 0) = Some st" "unat (unswap st) = ones (256 * wsum (pbuf_bytes w ps))"
    by (rule chain_sum [OF assms])
  let ?c = "NOT (ucast (unswap st AND 0xffff)) :: u16"
  have c: "unat ?c = 65535 - ones (256 * wsum (pbuf_bytes w ps))" by (rule not_low [OF st(2)])
  have "inet_chksum m a len = ?c" if "bytes_at m a (unat len) = pbuf_bytes w ps" for m a len
    using c inet_chksum_nat [of m a len] that by (simp add: word_unat_eq_iff)
  then show ?thesis using st(1) c by (intro exI [of _ ?c]) (simp add: inet_chksum_pbuf_def)
qed

lemma chksum_pbuf_concat_witness: "\<exists>c. inet_chksum_pbuf demo_lw 100 = Some c \<and> unat c = 28679"
  using chksum_pbuf_concat [OF demo_lw(1)] by (auto simp: demo_lw(2) ones_def)

text \<open>
  Writing the checksum of a buffer into its checksum field, which was zero and lies at an
  even offset, makes the checksum of the buffer 0, which is how a receiver checks it.
\<close>

theorem chksum_verifies:
  assumes "bytes_at m a (unat len) = xs @ 0 # 0 # ys" "even (length xs)"
    and "c = inet_chksum m a len"
    and "bytes_at m' a (unat len) = xs @ ucast c # ucast (drop_bit 8 c) # ys"
  shows "inet_chksum m' a len = 0"
proof -
  let ?S = "wsum xs + wsum ys"
  have W: "wsum (xs @ 0 # 0 # ys) = ?S" using wsum_even [OF assms(2)] by simp
  have c: "unat c = 65535 - ones (256 * ?S)" using inet_chksum_nat [of m a len] assms(1,3) W by simp
  have cb: "unat c \<le> 65535" using c by simp
  have lo: "unat (ucast c :: u8) = unat c mod 256"
    by (simp add: unsigned_ucast_eq take_bit_eq_mod)
  have hi: "unat (ucast (drop_bit 8 c) :: u8) = unat c div 256"
  proof -
    have "unat (drop_bit 8 c) = unat c div 256" by (simp only: unat_shr) simp
    moreover have "unat c div 256 mod 256 = unat c div 256" using cb by (intro mod_less) linarith
    ultimately show ?thesis by (simp only: unsigned_ucast_eq take_bit_eq_mod) simp
  qed
  have "256 * unat (ucast c :: u8) + unat (ucast (drop_bit 8 c) :: u8) = ones (256 * unat c)"
    unfolding lo hi by (rule swap_nat [OF cb])
  then have W': "wsum (xs @ ucast c # ucast (drop_bit 8 c) # ys) = ?S + ones (256 * unat c)"
    using wsum_even [OF assms(2)] by simp
  have "ones (256 * (?S + ones (256 * unat c))) = ones (256 * ?S + 256 * (256 * unat c))"
    using ones_add(2) [of "256 * ?S" "256 * ones (256 * unat c)"]
    by (simp only: distrib_left ones_mult ones_add)
  also have "\<dots> = ones (256 * ?S + unat c)" by (simp only: add.commute [of "256 * ?S"] ones_swap2_add)
  also have "\<dots> = ones (ones (256 * ?S) + unat c)" by (simp only: ones_add)
  also have "ones (256 * ?S) + unat c = 65535" using c ones_le [of "256 * ?S"] by simp
  finally have "ones (256 * wsum (bytes_at m' a (unat len))) = 65535"
    using assms(4) W' ones_small [of 65535] by simp
  then show ?thesis using inet_chksum_nat [of m' a len] by (simp add: unat_eq_0 [symmetric])
qed

lemma chksum_verifies_witness:
  "\<exists>m'. inet_chksum m' 0 4 = 0 \<and> m' 2 = 0x45"
proof -
  let ?m = "(\<lambda>_. 0)(2 := 0x45, 3 := 0x10) :: ptr \<Rightarrow> u8" and ?c = "inet_chksum ((\<lambda>_. 0)(2 := 0x45, 3 := 0x10)) 0 4"
  let ?m' = "?m(0 := ucast ?c, 1 := ucast (drop_bit 8 ?c))"
  have four: "unat (4 :: u16) = Suc (Suc (Suc (Suc 0)))" by simp
  have "bytes_at ?m 0 (unat (4 :: u16)) = [] @ 0 # 0 # [0x45, 0x10]"
    unfolding four by (simp add: bytes_at_Suc)
  moreover have "bytes_at ?m' 0 (unat (4 :: u16)) = [] @ ucast ?c # ucast (drop_bit 8 ?c) # [0x45, 0x10]"
    unfolding four by (simp add: bytes_at_Suc)
  ultimately have "inet_chksum ?m' 0 4 = 0" by (intro chksum_verifies [of ?m 0 4 "[]" "[0x45, 0x10]"]) simp_all
  moreover have "?m' 2 = 0x45" by simp
  ultimately show ?thesis by blast
qed

text \<open>The pseudo header of RFC 768 as bytes: addresses as they lie in memory, zero, protocol, length.\<close>

definition le32 :: "u32 \<Rightarrow> u8 list" where
  "le32 x = [ucast x, ucast (drop_bit 8 x), ucast (drop_bit 16 x), ucast (drop_bit 24 x)]"

definition pseudo_bytes :: "u32 \<Rightarrow> u32 \<Rightarrow> u8 \<Rightarrow> u16 \<Rightarrow> u8 list" where
  "pseudo_bytes src dest proto proto_len =
     le32 src @ le32 dest @ [0, proto, ucast (drop_bit 8 proto_len), ucast proto_len]"

lemma unat_low8: "unat (ucast (x :: 'a::len word) :: u8) = unat x mod 256"
  by (simp only: unsigned_ucast_eq take_bit_eq_mod) simp

lemma split256: "x < 65536 \<Longrightarrow> ones (256 * (256 * (x mod 256) + x div 256 mod 256) + b) = ones (x + b)"
proof -
  assume x: "x < 65536"
  then have d: "x div 256 mod 256 = x div 256" by (intro mod_less) linarith
  have "256 * (256 * (x mod 256) + x div 256) + b = 65536 * (x mod 256) + (256 * (x div 256) + b)" by simp
  then have "ones (256 * (256 * (x mod 256) + x div 256) + b) = ones (x mod 256 + (256 * (x div 256) + b))"
    by (simp only: ones_65536)
  also have "x mod 256 + (256 * (x div 256) + b) = x + b" using mult_div_mod_eq [of 256 x] by linarith
  finally show ?thesis by (simp only: d)
qed

lemma wsum_le32: "ones (256 * wsum (le32 x) + b) = ones (unat x mod 65536 + (unat x div 65536 + b))"
proof -
  let ?lo = "unat x mod 65536" and ?hi = "unat x div 65536"
  have x: "unat x < 4294967296" using unsigned_less [of x, where 'a = nat] by simp
  have "?lo = 256 * (unat x div 256 mod 256) + unat x mod 256" using mod_mult2_eq [of "unat x" 256 256] by simp
  then have lo: "?lo mod 256 = unat x mod 256" "?lo div 256 mod 256 = unat x div 256 mod 256" by simp_all
  have hi: "?hi div 256 = unat x div 16777216" by (simp flip: div_mult2_eq)
  have "wsum (le32 x) = (256 * (?lo mod 256) + ?lo div 256 mod 256) + (256 * (?hi mod 256) + ?hi div 256 mod 256)"
    unfolding le32_def by (simp only: wsum.simps unat_low8 unat_shr lo hi) simp
  then have "ones (256 * wsum (le32 x) + b)
      = ones (256 * (256 * (?lo mod 256) + ?lo div 256 mod 256) + (256 * (256 * (?hi mod 256) + ?hi div 256 mod 256) + b))"
    by (simp only: distrib_left add.assoc)
  also have "\<dots> = ones (?lo + (256 * (256 * (?hi mod 256) + ?hi div 256 mod 256) + b))"
    by (rule split256) simp
  also have "\<dots> = ones (256 * (256 * (?hi mod 256) + ?hi div 256 mod 256) + (?lo + b))"
    by (simp only: add.left_commute)
  also have "\<dots> = ones (?hi + (?lo + b))" by (rule split256) (use x in simp)
  finally show ?thesis by (simp only: add.left_commute)
qed

lemma wsum_pseudo:
  "ones (256 * wsum (pseudo_bytes src dest proto len @ bs)) = ones (unat src mod 65536 + (unat src div 65536
     + (unat dest mod 65536 + (unat dest div 65536 + (256 * unat proto + (256 * unat len + 256 * wsum bs))))))"
proof -
  have len: "256 * (unat len div 256 mod 256) + unat len mod 256 = unat len"
  proof -
    have "unat len < 65536" using unsigned_less [of len, where 'a = nat] by simp
    then have "unat len div 256 mod 256 = unat len div 256" by (intro mod_less) linarith
    then show ?thesis by simp
  qed
  have "wsum (pseudo_bytes src dest proto len @ bs) = wsum (le32 src) + (wsum (le32 dest) + (unat proto + (unat len + wsum bs)))"
    using len by (simp add: pseudo_bytes_def wsum_even le32_def unat_low8 unat_shr)
  then have "ones (256 * wsum (pseudo_bytes src dest proto len @ bs)) = ones (256 * wsum (le32 src)
      + (256 * wsum (le32 dest) + (256 * unat proto + (256 * unat len + 256 * wsum bs))))"
    by (simp only: distrib_left)
  also have "\<dots> = ones (256 * wsum (le32 dest) + (unat src mod 65536 + (unat src div 65536
      + (256 * unat proto + (256 * unat len + 256 * wsum bs)))))"
    by (simp only: wsum_le32 add.left_commute [of "256 * wsum (le32 dest)"])
  also have "\<dots> = ones (unat dest mod 65536 + (unat dest div 65536 + (unat src mod 65536 + (unat src div 65536
      + (256 * unat proto + (256 * unat len + 256 * wsum bs))))))"
    by (rule wsum_le32)
  finally show ?thesis by (simp only: ac_simps)
qed

lemma foldl_unat:
  fixes acc :: u32
  shows "(\<And>x. x \<in> set xs \<Longrightarrow> unat x \<le> 65535) \<Longrightarrow> unat acc + 65535 * length xs < 4294967296 \<Longrightarrow>
    unat (foldl (+) acc xs) = unat acc + sum_list (map unat xs)"
proof (induction xs arbitrary: acc)
  case (Cons x xs)
  have x: "unat x \<le> 65535" using Cons.prems(1) by simp
  have add: "unat (acc + x) = unat acc + unat x" using x Cons.prems(2) by (intro unat_add_small) simp
  have "unat (acc + x) + 65535 * length xs < 4294967296" unfolding add using x Cons.prems(2) by simp
  then have "unat (foldl (+) (acc + x) xs) = unat (acc + x) + sum_list (map unat xs)"
    using Cons.prems(1) by (intro Cons.IH) auto
  then show ?case by (simp add: add)
qed simp

lemma pseudo_hdr_nat:
  assumes "unat acc = ones (256 * n)"
  shows "unat (pseudo_hdr src dest proto len acc) = ones (unat src mod 65536 + (unat src div 65536
     + (unat dest mod 65536 + (unat dest div 65536 + (256 * unat proto + (256 * unat len + 256 * n))))))"
proof -
  have lo: "unat (x AND 0xffff) = unat x mod 65536" for x :: u32
    using take_bit_eq_mask [of 16 "unat x"] by (simp add: unsigned_and_eq mask_numeral take_bit_eq_mod)
  have hi: "unat (drop_bit 16 x AND 0xffff) = unat x div 65536" for x :: u32
  proof -
    have "unat x < 4294967296" using unsigned_less [of x, where 'a = nat] by simp
    then have "unat x div 65536 mod 65536 = unat x div 65536" by (intro mod_less) linarith
    then show ?thesis by (simp only: lo unat_shr) simp
  qed
  let ?a = "[src AND 0xffff, drop_bit 16 src AND 0xffff, dest AND 0xffff, drop_bit 16 dest AND 0xffff,
     ucast (lwip_htons (ucast proto)), ucast (lwip_htons len)]"
  have big: "unat x div 65536 \<le> 65535" "unat x mod 65536 \<le> 65535" for x :: u32
    using unsigned_less [of x, where 'a = nat] by simp_all
  have ht: "unat (ucast (lwip_htons k) :: u32) = ones (256 * unat k)" for k by (simp add: htons_nat)
  have small: "unat x \<le> 65535" if "x \<in> set ?a" for x
    using that ones_le [of "256 * unat len"] ones_le [of "256 * unat (ucast proto :: u16)"] big
    by (simp only: list.set insert_iff empty_iff) (elim disjE, simp_all only: lo hi ht)
  have "pseudo_hdr src dest proto len acc = FOLD_U32T (FOLD_U32T (foldl (+) acc ?a))"
    by (simp only: pseudo_hdr_def Let_def foldl.simps)
  moreover have "unat (foldl (+) acc ?a) = ones (256 * n) + sum_list (map unat ?a)"
    using foldl_unat [of ?a acc] small ones_le [of "256 * n"] unfolding assms by simp
  moreover have "ones (256 * n) + sum_list (map unat ?a) = ones (256 * n) + (unat src mod 65536 + (unat src div 65536
     + (unat dest mod 65536 + (unat dest div 65536 + (ones (256 * unat proto) + ones (256 * unat len))))))"
    by (simp only: list.map sum_list.Cons sum_list.Nil hi) (simp only: lo htons_nat add_0_right unat_promotions add.assoc)
  ultimately have "unat (pseudo_hdr src dest proto len acc) = ones (ones (256 * n) + (unat src mod 65536 + (unat src div 65536
     + (unat dest mod 65536 + (unat dest div 65536 + (ones (256 * unat proto) + ones (256 * unat len)))))))"
    by (simp only: FOLD_twice)
  also have "\<dots> = ones (256 * n + (unat src mod 65536 + (unat src div 65536
     + (unat dest mod 65536 + (unat dest div 65536 + (256 * unat proto + 256 * unat len))))))"
    using ones_add by (metis (no_types, lifting) add.assoc)
  finally show ?thesis by (simp only: ac_simps)
qed

text \<open>
  C19: the checksum with pseudo header, which UDP uses, is the complement of the ones'
  complement sum of the pseudo header of RFC 768 followed by the bytes of the chain.
\<close>

theorem chksum_pseudo_rfc:
  assumes "chain (pbuf_next w) p ps"
  shows "\<exists>c. inet_chksum_pseudo w p src dest proto len = Some c
    \<and> unat c = 65535 - ones (256 * wsum (pseudo_bytes src dest proto len @ pbuf_bytes w ps))"
proof -
  obtain st where st: "pbuf_chksum_loop w p (0, 0) = Some st" "unat (unswap st) = ones (256 * wsum (pbuf_bytes w ps))"
    by (rule chain_sum [OF assms])
  have "unat (pseudo_hdr src dest proto len (unswap st)) = ones (256 * wsum (pseudo_bytes src dest proto len @ pbuf_bytes w ps))"
    unfolding wsum_pseudo by (rule pseudo_hdr_nat [OF st(2)])
  from not_low [OF this] show ?thesis using st(1) by (simp add: inet_chksum_pseudo_def)
qed

lemma chksum_pseudo_rfc_witness:
  "\<exists>c. inet_chksum_pseudo demo_lw 100 0x0100A8C0 0x0200A8C0 17 5 = Some c
     \<and> unat c = 65535 - ones (256 * wsum (pseudo_bytes 0x0100A8C0 0x0200A8C0 17 5 @ [0x45, 0x10, 0x80, 0x7f, 0x33]))"
  using chksum_pseudo_rfc [OF demo_lw(1), of "0x0100A8C0" "0x0200A8C0" 17 5] unfolding demo_lw(2) .

end
