(* ===== verification/Ip_Addr.thy ===== *)
theory Ip_Addr
  imports Lw_State
begin

text \<open>
  \<open>core/ipv4/ip_addr.c\<close>: addresses and their dotted decimal text. An address is the 32-bit
  value as it lies in memory, in network byte order. A C string is the list of its bytes
  without the final NUL, and reading at its end gives NUL.
\<close>

section \<open>Broadcast addresses and net masks\<close>

abbreviation (input) IPADDR_ANY :: u32 where "IPADDR_ANY \<equiv> 0"
abbreviation (input) IPADDR_NONE :: u32 where "IPADDR_NONE \<equiv> 0xffffffff"
abbreviation (input) IPADDR_BROADCAST :: u32 where "IPADDR_BROADCAST \<equiv> 0xffffffff"
abbreviation (input) NETIF_FLAG_BROADCAST :: u8 where "NETIF_FLAG_BROADCAST \<equiv> 2"

text \<open>The fields of \<open>struct netif\<close> that the address functions read.\<close>

record netif_addr =
  nif_ip_addr :: u32
  nif_netmask :: u32
  nif_flags :: u8

definition ip4_addr_isbroadcast :: "u32 \<Rightarrow> 'a netif_addr_scheme \<Rightarrow> bool" where
  "ip4_addr_isbroadcast addr nif =
     (if NOT addr = IPADDR_ANY \<or> addr = IPADDR_ANY then True
      else if nif_flags nif AND NETIF_FLAG_BROADCAST = 0 then False
      else if addr = nif_ip_addr nif then False
      else if addr AND nif_netmask nif = nif_ip_addr nif AND nif_netmask nif
              \<and> addr AND NOT (nif_netmask nif) = IPADDR_BROADCAST AND NOT (nif_netmask nif) then True
      else False)"

text \<open>The two loops of \<open>ip4_addr_netmask_valid\<close>; the bit \<open>msk\<close> moves down to 0.\<close>

function netmask_ones :: "u32 \<Rightarrow> u32 \<Rightarrow> u32" where
  "netmask_ones nm msk =
     (if msk \<noteq> 0 then if nm AND msk = 0 then msk else netmask_ones nm (drop_bit 1 msk) else msk)"
  by pat_completeness auto

function netmask_zeros :: "u32 \<Rightarrow> u32 \<Rightarrow> bool" where
  "netmask_zeros nm msk =
     (if msk \<noteq> 0 then if nm AND msk \<noteq> 0 then False else netmask_zeros nm (drop_bit 1 msk) else True)"
  by pat_completeness auto

lemma mask_shift_less: "msk \<noteq> 0 \<Longrightarrow> unat (drop_bit 1 msk :: 'a::len word) < unat msk"
  by (simp only: unat_shr) (simp add: unat_eq_0 [symmetric] del: unat_eq_0)

termination netmask_ones
  by (relation "measure (\<lambda>(nm, msk). unat msk)") (use mask_shift_less in auto)

termination netmask_zeros
  by (relation "measure (\<lambda>(nm, msk). unat msk)") (use mask_shift_less in auto)

declare netmask_ones.simps [simp del] netmask_zeros.simps [simp del]

definition ip4_addr_netmask_valid :: "u32 \<Rightarrow> bool" where
  "ip4_addr_netmask_valid netmask =
     (let nm_hostorder = lwip_htonl netmask
      in netmask_zeros nm_hostorder (netmask_ones nm_hostorder (push_bit 31 1)))"

section \<open>Text to address\<close>

definition in_range :: "u8 \<Rightarrow> u8 \<Rightarrow> u8 \<Rightarrow> bool" where
  "in_range c lo up \<longleftrightarrow> c \<ge> lo \<and> c \<le> up"

definition isdigit :: "u8 \<Rightarrow> bool" where "isdigit c \<longleftrightarrow> in_range c 48 57"
definition islower :: "u8 \<Rightarrow> bool" where "islower c \<longleftrightarrow> in_range c 97 122"
definition isxdigit :: "u8 \<Rightarrow> bool" where
  "isxdigit c \<longleftrightarrow> isdigit c \<or> in_range c 97 102 \<or> in_range c 65 70"
definition isspace :: "u8 \<Rightarrow> bool" where
  "isspace c \<longleftrightarrow> c = 32 \<or> c = 12 \<or> c = 10 \<or> c = 13 \<or> c = 9 \<or> c = 11"

definition cur_char :: "u8 list \<Rightarrow> u8" where
  "cur_char cp = (case cp of [] \<Rightarrow> 0 | c # cs \<Rightarrow> c)"

text \<open>The inner loop of \<open>ipaddr_aton\<close>.\<close>

fun aton_digits :: "u8 \<Rightarrow> u32 \<Rightarrow> u8 list \<Rightarrow> u32 \<times> u8 list" where
  "aton_digits base val [] = (val, [])"
| "aton_digits base val (c # cs) =
     (if isdigit c then aton_digits base (val * ucast base + ucast (c - 48)) cs
      else if base = 16 \<and> isxdigit c
      then aton_digits base (push_bit 4 val OR (ucast c + 10 - (if islower c then 97 else 65))) cs
      else (val, c # cs))"

text \<open>The base of a number and where its digits start.\<close>

definition aton_base :: "u8 list \<Rightarrow> u8 \<times> u8 list" where
  "aton_base cp =
     (if cur_char cp = 48
      then let cp = tl cp in if cur_char cp = 120 \<or> cur_char cp = 88 then (16, tl cp) else (8, cp)
      else (10, cp))"

text \<open>The outer loop: the parts before the last, the last value and the rest of the text.\<close>

function aton_parts :: "u32 list \<Rightarrow> u8 list \<Rightarrow> (u32 list \<times> u32 \<times> u8 list) option" where
  "aton_parts parts cp =
     (if \<not> isdigit (cur_char cp) then None
      else let (base, cp) = aton_base cp; (val, cp) = aton_digits base 0 cp
           in if cur_char cp = 46
              then if length parts \<ge> 3 then None else aton_parts (parts @ [val]) (tl cp)
              else Some (parts, val, cp))"
  by pat_completeness auto
termination by (relation "measure (\<lambda>(parts, cp). 4 - length parts)") auto

declare aton_parts.simps [simp del]

definition aton_value :: "u32 list \<Rightarrow> u32 \<Rightarrow> u32 option" where
  "aton_value parts val =
     (case parts of
        [] \<Rightarrow> Some val
      | [a] \<Rightarrow> if val > 0xffffff then None else Some (val OR push_bit 24 a)
      | [a, b] \<Rightarrow> if val > 0xffff then None else Some (val OR (push_bit 24 a OR push_bit 16 b))
      | a # b # c # _ \<Rightarrow> if val > 0xff then None
                        else Some (val OR (push_bit 24 a OR push_bit 16 b OR push_bit 8 c)))"

text \<open>\<open>None\<close> is the return value 0; \<open>Some\<close> is 1 with \<open>*addr\<close>.\<close>

definition ipaddr_aton :: "u8 list \<Rightarrow> u32 option" where
  "ipaddr_aton cp =
     (case aton_parts [] cp of
        None \<Rightarrow> None
      | Some (parts, val, rest) \<Rightarrow>
          if cur_char rest \<noteq> 0 \<and> \<not> isspace (cur_char rest) then None
          else map_option lwip_htonl (aton_value parts val))"

definition ipaddr_addr :: "u8 list \<Rightarrow> u32" where
  "ipaddr_addr cp = (case ipaddr_aton cp of Some val \<Rightarrow> val | None \<Rightarrow> IPADDR_NONE)"

section \<open>Address to text\<close>

text \<open>The characters of one byte in \<open>inv\<close>, least significant first.\<close>

function ntoa_inv :: "u8 \<Rightarrow> u8 list" where
  "ntoa_inv ap = (let r = ap mod 10; ap = ap div 10 in (48 + r) # (if ap \<noteq> 0 then ntoa_inv ap else []))"
  by pat_completeness auto
termination
proof (relation "measure unat")
  fix ap r x :: u8
  assume "x = ap div 10" "x \<noteq> 0"
  then have "unat x = unat ap div 10" "unat x \<noteq> 0" by (simp add: unat_div_distrib) (use \<open>x \<noteq> 0\<close> in \<open>simp only: unat_eq_0\<close>, simp)
  then show "(x, ap) \<in> measure unat" by simp
qed simp

declare ntoa_inv.simps [simp del]

text \<open>Writing characters with the check \<open>len++ >= buflen\<close>; the text written so far.\<close>

fun put_chars :: "int \<Rightarrow> u8 list \<Rightarrow> u8 list \<Rightarrow> u8 list option" where
  "put_chars buflen out [] = Some out"
| "put_chars buflen out (c # cs) =
     (if int (length out) \<ge> buflen then None else put_chars buflen (out @ [c]) cs)"

fun ntoa_bytes :: "int \<Rightarrow> u8 list \<Rightarrow> u8 list \<Rightarrow> u8 list option" where
  "ntoa_bytes buflen out [] = Some out"
| "ntoa_bytes buflen out (ap # aps) =
     (case put_chars buflen out (rev (ntoa_inv ap) @ [46]) of
        None \<Rightarrow> None
      | Some out \<Rightarrow> ntoa_bytes buflen out aps)"

definition addr_bytes :: "u32 \<Rightarrow> u8 list" where
  "addr_bytes x = [ucast x, ucast (drop_bit 8 x), ucast (drop_bit 16 x), ucast (drop_bit 24 x)]"

text \<open>The last dot becomes the NUL.\<close>

definition ipaddr_ntoa_r :: "u32 \<Rightarrow> int \<Rightarrow> u8 list option" where
  "ipaddr_ntoa_r addr buflen = map_option butlast (ntoa_bytes buflen [] (addr_bytes addr))"

definition ipaddr_ntoa :: "u32 \<Rightarrow> u8 list option" where
  "ipaddr_ntoa addr = ipaddr_ntoa_r addr 16"

end
