(* ===== verification/Ip_Addr_Props.thy ===== *)
theory Ip_Addr_Props
  imports Ip_Addr
begin

text \<open>
  The text of an address is read back as the address, a net mask is valid exactly when it is
  ones followed by zeros, and which leading parts the parser lets through.
\<close>

section \<open>Decimal text\<close>

text \<open>The decimal digits of a byte, the reference for \<open>ntoa_inv\<close>.\<close>

definition dig :: "nat \<Rightarrow> u8" where
  "dig d = word_of_nat (48 + d)"

definition digits8 :: "nat \<Rightarrow> nat list" where
  "digits8 n = (if n < 10 then [n] else if n < 100 then [n div 10, n mod 10]
     else [n div 100, n div 10 mod 10, n mod 10])"

definition dec8 :: "nat \<Rightarrow> u8 list" where
  "dec8 n = map dig (digits8 n)"

lemma digit_word: "48 + (x :: u8) mod 10 = dig (unat x mod 10)"
proof -
  have "word_of_nat (unat x mod 10) = (word_of_nat (unat (x mod 10)) :: u8)" by (simp add: unat_mod_distrib)
  then show ?thesis by (simp add: dig_def)
qed

lemma div10: "unat ((x :: u8) div 10) = unat x div 10"
  by (simp add: unat_div_distrib)

lemma ntoa_inv_dec: "rev (ntoa_inv x) = dec8 (unat x)"
proof -
  have z: "y = 0 \<longleftrightarrow> unat y = 0" for y :: u8 by (simp add: unat_eq_0)
  have d: "unat (x div 10) = unat x div 10" "unat (x div 10 div 10) = unat x div 100"
    "unat (x div 10 div 10 div 10) = unat x div 1000" by (simp_all add: div10 flip: div_mult2_eq)
  have x: "unat x < 256" by simp
  consider "unat x < 10" | "10 \<le> unat x" "unat x < 100" | "100 \<le> unat x" by linarith
  then show ?thesis
  proof cases
    case 1
    then have "x div 10 = 0" using z d(1) by simp
    then show ?thesis using 1 by (subst ntoa_inv.simps) (simp add: Let_def dec8_def digits8_def digit_word)
  next
    case 2
    then have "x div 10 \<noteq> 0" "x div 10 div 10 = 0" using z d(1,2) by simp_all
    then show ?thesis using 2
      by (subst ntoa_inv.simps, subst ntoa_inv.simps) (simp add: Let_def dec8_def digits8_def digit_word d)
  next
    case 3
    then have "x div 10 \<noteq> 0" "x div 10 div 10 \<noteq> 0" "x div 10 div 10 div 10 = 0" using z d x by simp_all
    moreover have "unat x div 100 mod 10 = unat x div 100" using x by (intro mod_less) linarith
    ultimately show ?thesis using 3
      by (subst ntoa_inv.simps, subst ntoa_inv.simps, subst ntoa_inv.simps) (simp add: Let_def dec8_def digits8_def digit_word d)
  qed
qed

lemma put_chars: "put_chars n out cs = (if cs = [] \<or> int (length out + length cs) \<le> n then Some (out @ cs) else None)"
  by (induction n out cs rule: put_chars.induct) auto

definition dotted :: "u8 list \<Rightarrow> u8 list" where
  "dotted bs = concat (map (\<lambda>b. dec8 (unat b) @ [46]) bs)"

lemma ntoa_bytes: "ntoa_bytes n out bs = (if bs = [] \<or> int (length (out @ dotted bs)) \<le> n then Some (out @ dotted bs) else None)"
proof (induction n out bs rule: ntoa_bytes.induct)
  case (2 n out b bs)
  show ?case using 2 by (auto simp: put_chars ntoa_inv_dec dotted_def)
qed (simp add: dotted_def)

lemma length_dec8: "1 \<le> length (dec8 n)" "length (dec8 n) \<le> 3"
  by (simp_all add: dec8_def digits8_def)

lemma dec8_nonempty [simp]: "dec8 n \<noteq> []"
  using length_dec8(1) [of n] by auto

section \<open>Reading decimal text\<close>

lemma unat_u8: "n < 256 \<Longrightarrow> unat (word_of_nat n :: u8) = n"
  by (simp add: unsigned_of_nat take_bit_nat_eq_self)

lemma isdigit_nat: "isdigit c \<longleftrightarrow> 48 \<le> unat c \<and> unat c \<le> 57"
  by (simp add: isdigit_def in_range_def word_le_nat_alt)

lemma unat_dig: "d < 10 \<Longrightarrow> unat (dig d) = 48 + d"
  unfolding dig_def by (rule unat_u8) simp

lemma isdigit_dig: "d < 10 \<Longrightarrow> isdigit (dig d)"
  by (simp add: isdigit_nat unat_dig)

lemma dig_nz: "d < 10 \<Longrightarrow> dig d = 48 \<longleftrightarrow> d = 0"
  using unat_dig [of d] by (simp add: word_unat_eq_iff)

lemma aton_digit: "d < 10 \<Longrightarrow> aton_digits b v (dig d # cs) = aton_digits b (v * ucast b + word_of_nat d) cs"
proof -
  assume d: "d < 10"
  have "dig d - 48 = word_of_nat d" by (simp add: dig_def)
  moreover have "(ucast (word_of_nat d :: u8) :: u32) = word_of_nat d"
    using d by (simp add: word_unat_eq_iff unsigned_of_nat take_bit_nat_eq_self)
  ultimately show ?thesis using isdigit_dig [OF d] by (simp only: aton_digits.simps if_True)
qed

lemma aton_stop: "\<not> isdigit (cur_char cs) \<Longrightarrow> aton_digits 10 v cs = (v, cs)" "\<not> isdigit (cur_char cs) \<Longrightarrow> aton_digits 8 v cs = (v, cs)"
  by (cases cs; simp add: cur_char_def)+

lemma digits8: "n < 256 \<Longrightarrow> d \<in> set (digits8 n) \<Longrightarrow> d < 10"
  "n < 256 \<Longrightarrow> foldl (\<lambda>v d. 10 * v + d) 0 (digits8 n) = n"
  "n < 256 \<Longrightarrow> n \<noteq> 0 \<Longrightarrow> hd (digits8 n) \<noteq> 0" "digits8 n \<noteq> []"
proof -
  have e: "10 * (10 * (n div 100) + n div 10 mod 10) + n mod 10 = n"
  proof -
    have "n div 100 = n div 10 div 10" by (simp flip: div_mult2_eq)
    then have "10 * (n div 100) + n div 10 mod 10 = n div 10" by simp
    then show ?thesis by simp
  qed
  show "n < 256 \<Longrightarrow> d \<in> set (digits8 n) \<Longrightarrow> d < 10" by (auto simp: digits8_def split: if_splits)
  show "n < 256 \<Longrightarrow> foldl (\<lambda>v d. 10 * v + d) 0 (digits8 n) = n" using e by (simp add: digits8_def)
  show "n < 256 \<Longrightarrow> n \<noteq> 0 \<Longrightarrow> hd (digits8 n) \<noteq> 0" by (simp add: digits8_def div_greater_zero_iff)
  show "digits8 n \<noteq> []" by (simp add: digits8_def)
qed

lemma aton_run:
  assumes "\<forall>d\<in>set ds. d < 10" "\<not> isdigit (cur_char cs)"
  shows "aton_digits 10 (word_of_nat v) (map dig ds @ cs) = (word_of_nat (foldl (\<lambda>v d. 10 * v + d) v ds), cs)"
  using assms(1)
proof (induction ds arbitrary: v)
  case (Cons d ds)
  then have "aton_digits 10 (word_of_nat v) (map dig (d # ds) @ cs) = aton_digits 10 (word_of_nat (10 * v + d)) (map dig ds @ cs)"
    by (simp add: aton_digit mult.commute del: aton_digits.simps)
  also have "\<dots> = (word_of_nat (foldl (\<lambda>v d. 10 * v + d) (10 * v + d) ds), cs)"
    using Cons.prems by (intro Cons.IH) simp
  finally show ?case by simp
qed (simp add: aton_stop(1) [OF assms(2)])

lemma aton_dec8:
  assumes "n < 256" "\<not> isdigit (cur_char cs)" "cur_char cs \<noteq> 120" "cur_char cs \<noteq> 88"
  shows "isdigit (cur_char (dec8 n @ cs))"
    "(let (base, cp) = aton_base (dec8 n @ cs) in aton_digits base 0 cp) = (word_of_nat n, cs)"
proof -
  obtain d ds where ds: "digits8 n = d # ds" "d < 10"
    using digits8(1) [OF assms(1)] digits8(4) [of n] by (metis list.exhaust list.set_intros(1))
  then show "isdigit (cur_char (dec8 n @ cs))" by (simp add: dec8_def cur_char_def isdigit_dig)
  show "(let (base, cp) = aton_base (dec8 n @ cs) in aton_digits base 0 cp) = (word_of_nat n, cs)"
  proof (cases "n = 0")
    case True
    then have "dec8 n = [48]" by (simp add: dec8_def digits8_def dig_def)
    then show ?thesis using True assms(3,4) aton_stop(2) [OF assms(2), of 0] by (simp add: aton_base_def cur_char_def [of "48 # cs"])
  next
    case False
    then have "d \<noteq> 0" using digits8(3) [OF assms(1)] ds(1) by simp
    then have "aton_base (dec8 n @ cs) = (10, dec8 n @ cs)"
      using ds dig_nz [OF ds(2)] by (simp add: aton_base_def dec8_def cur_char_def)
    moreover have "aton_digits 10 0 (dec8 n @ cs) = (word_of_nat n, cs)"
      using aton_run [of "digits8 n" cs 0] digits8(1,2) [OF assms(1)] assms(2) by (simp add: dec8_def)
    ultimately show ?thesis by simp
  qed
qed

lemma aton_part:
  assumes "n < 256" "length parts < 3"
  shows "aton_parts parts (dec8 n @ 46 # cs) = aton_parts (parts @ [word_of_nat n]) cs"
proof -
  have s: "\<not> isdigit (cur_char (46 # cs))" "cur_char (46 # cs) = 46" by (simp_all add: isdigit_nat cur_char_def)
  then show ?thesis using aton_dec8 [OF assms(1), of "46 # cs"] assms(2)
    by (subst aton_parts.simps) (simp add: Let_def split_beta)
qed

lemma aton_last:
  assumes "n < 256" "cs = [] \<or> isspace (hd cs)"
  shows "aton_parts parts (dec8 n @ cs) = Some (parts, word_of_nat n, cs)"
proof -
  have s: "\<not> isdigit (cur_char cs)" "cur_char cs \<noteq> 120" "cur_char cs \<noteq> 88" "cur_char cs \<noteq> 46"
    using assms(2) by (cases cs; auto simp: isdigit_nat cur_char_def isspace_def)+
  then show ?thesis using aton_dec8 [OF assms(1) s(1-3)]
    by (subst aton_parts.simps) (simp add: Let_def split_beta)
qed

section \<open>Words from bytes\<close>

lemma bit_htonl:
  "bit (lwip_htonl x) n \<longleftrightarrow> n < 32 \<and> bit x (if n < 8 then 24 + n else if n < 16 then 8 + n else if n < 24 then n - 8 else n - 24)"
proof -
  have m: "(0xff :: u32) = mask 8" "(0xff00 :: u32) = push_bit 8 (mask 8)" "(0xff0000 :: u32) = push_bit 16 (mask 8)"
    "(0xff000000 :: u32) = push_bit 24 (mask 8)" by (simp_all add: mask_numeral)
  show ?thesis unfolding lwip_htonl_def m
    by (cases "n < 8"; cases "n < 16"; cases "n < 24"; cases "n < 32")
      (auto simp: bit_simps add.commute dest: bit_imp_le_length)
qed

definition word4 :: "u8 \<Rightarrow> u8 \<Rightarrow> u8 \<Rightarrow> u8 \<Rightarrow> u32" where
  "word4 a b c d = ucast a OR push_bit 8 (ucast b) OR push_bit 16 (ucast c) OR push_bit 24 (ucast d)"

lemma bit_word4: "bit (word4 a b c d) n \<longleftrightarrow>
    n < 32 \<and> (if n < 8 then bit a n else if n < 16 then bit b (n - 8) else if n < 24 then bit c (n - 16) else bit d (n - 24))"
  unfolding word4_def
  by (cases "n < 8"; cases "n < 16"; cases "n < 24"; cases "n < 32") (auto simp: bit_simps dest: u8_bit_less)

lemma htonl_word4: "lwip_htonl (word4 a b c d) = word4 d c b a"
  by (rule bit_word_eqI) (auto simp: bit_htonl bit_word4)

lemma addr_word4: "addr_bytes x = [a, b, c, d] \<Longrightarrow> x = word4 a b c d"
  by (rule bit_word_eqI) (auto simp: bit_word4 addr_bytes_def bit_simps)

section \<open>Net masks\<close>

lemma and_bit: "nm AND push_bit j 1 = 0 \<longleftrightarrow> \<not> bit (nm :: u32) j" if "j < 32"
proof
  assume "nm AND push_bit j 1 = 0"
  then have "\<not> bit (nm AND push_bit j 1) j" by simp
  then show "\<not> bit nm j" using that by (simp add: bit_simps bit_one_shift)
next
  assume "\<not> bit nm j"
  then show "nm AND push_bit j 1 = 0" by (intro bit_word_eqI) (auto simp: bit_and_iff bit_exp_iff)
qed

lemma shift_bit: "j < 32 \<Longrightarrow> push_bit j (1 :: u32) \<noteq> 0" "drop_bit 1 (push_bit 0 (1 :: u32)) = 0"
  "Suc j < 32 \<Longrightarrow> drop_bit 1 (push_bit (Suc j) (1 :: u32)) = push_bit j 1"
proof -
  show "push_bit j (1 :: u32) \<noteq> 0" if "j < 32"
  proof
    assume "push_bit j (1 :: u32) = 0"
    then show False using that bit_one_shift [where 'a = 32, of j j] by simp
  qed
  show "drop_bit 1 (push_bit 0 (1 :: u32)) = 0" by (rule bit_word_eqI) (auto simp: bit_simps)
  show "drop_bit 1 (push_bit (Suc j) (1 :: u32)) = push_bit j 1" if "Suc j < 32"
    by (rule bit_word_eqI) (use that in \<open>auto simp: bit_drop_bit_eq bit_exp_iff simp del: power_Suc push_bit_Suc\<close>)
qed

lemma netmask_0: "netmask_zeros nm 0" "netmask_ones nm 0 = 0"
  by (simp_all add: netmask_zeros.simps [of nm 0] netmask_ones.simps [of nm 0])

lemma netmask_zeros_bits: "j < 32 \<Longrightarrow> netmask_zeros nm (push_bit j 1) \<longleftrightarrow> (\<forall>b\<le>j. \<not> bit nm b)"
proof (induction j)
  case 0
  then show ?case using and_bit [of 0 nm] shift_bit(1) [of 0] shift_bit(2)
    by (subst netmask_zeros.simps) (simp add: netmask_0 del: push_bit_0_id)
next
  case (Suc j)
  show ?case using Suc and_bit [of "Suc j" nm] shift_bit(1) [of "Suc j"] shift_bit(3) [of j]
    by (subst netmask_zeros.simps) (auto simp: le_Suc_eq simp del: push_bit_Suc)
qed

lemma netmask_bits:
  "j < 32 \<Longrightarrow> netmask_zeros nm (netmask_ones nm (push_bit j 1)) \<longleftrightarrow> (\<exists>k\<le>Suc j. \<forall>b\<le>j. bit nm b \<longleftrightarrow> k \<le> b)"
proof (induction j)
  case 0
  have "(\<exists>k\<le>Suc 0. \<forall>b\<le>0. bit nm b \<longleftrightarrow> k \<le> b)" by (cases "bit nm 0") (auto intro: exI [of _ 0] exI [of _ "Suc 0"])
  moreover have "netmask_zeros nm (netmask_ones nm (push_bit 0 1))"
    using and_bit [of 0 nm] shift_bit(1) [of 0] shift_bit(2) netmask_zeros_bits [of 0 nm]
    by (subst netmask_ones.simps) (simp add: netmask_0 del: push_bit_0_id)
  ultimately show ?case by blast
next
  case (Suc j)
  show ?case
  proof (cases "bit nm (Suc j)")
    case True
    have "netmask_ones nm (push_bit (Suc j) 1) = netmask_ones nm (push_bit j 1)"
      using True and_bit [of "Suc j" nm] shift_bit(1) [of "Suc j"] shift_bit(3) [of j] Suc.prems
      by (subst netmask_ones.simps) (simp del: push_bit_Suc)
    moreover have "(\<exists>k\<le>Suc j. \<forall>b\<le>j. bit nm b \<longleftrightarrow> k \<le> b) \<longleftrightarrow> (\<exists>k\<le>Suc (Suc j). \<forall>b\<le>Suc j. bit nm b \<longleftrightarrow> k \<le> b)"
      using True by (metis le_Suc_eq not_less_eq_eq order_refl)
    ultimately show ?thesis using Suc by simp
  next
    case False
    have "netmask_ones nm (push_bit (Suc j) 1) = push_bit (Suc j) 1"
      using False and_bit [of "Suc j" nm] shift_bit(1) [of "Suc j"] Suc.prems
      by (subst netmask_ones.simps) (simp del: push_bit_Suc)
    moreover have "(\<forall>b\<le>Suc j. \<not> bit nm b) \<longleftrightarrow> (\<exists>k\<le>Suc (Suc j). \<forall>b\<le>Suc j. bit nm b \<longleftrightarrow> k \<le> b)"
      using False by (metis le_SucE nle_le not_less_eq_eq)
    ultimately show ?thesis using netmask_zeros_bits [OF Suc.prems, of nm] by simp
  qed
qed

section \<open>Properties\<close>

text \<open>
  C20: the dotted text of every address fits in the 16 bytes of \<open>ipaddr_ntoa\<close>, with a smaller
  buffer the conversion fails exactly when text and NUL do not fit, and \<open>ipaddr_aton\<close> reads the
  text back as the address, also before white space.
\<close>

theorem ipaddr_text_roundtrip:
  "\<exists>s. ipaddr_ntoa a = Some s \<and> (\<forall>n. ipaddr_ntoa_r a n = (if int (length s) < n then Some s else None))
     \<and> ipaddr_aton s = Some a \<and> ipaddr_aton (s @ 32 # rest) = Some a"
proof -
  obtain b0 b1 b2 b3 where b: "addr_bytes a = [b0, b1, b2, b3]" by (simp add: addr_bytes_def)
  let ?s = "dec8 (unat b0) @ 46 # dec8 (unat b1) @ 46 # dec8 (unat b2) @ 46 # dec8 (unat b3)"
  have d: "dotted (addr_bytes a) = ?s @ [46]" by (simp add: b dotted_def)
  have r: "ipaddr_ntoa_r a n = (if int (length ?s) < n then Some ?s else None)" for n
    unfolding ipaddr_ntoa_r_def ntoa_bytes d by (simp add: b butlast_append)
  have "length ?s \<le> 15"
    using length_dec8(2) [of "unat b0"] length_dec8(2) [of "unat b1"] length_dec8(2) [of "unat b2"] length_dec8(2) [of "unat b3"]
    by simp
  then have n: "ipaddr_ntoa a = Some ?s" unfolding ipaddr_ntoa_def r by simp
  have p: "aton_parts [] (?s @ cs) = Some ([ucast b0, ucast b1, ucast b2], ucast b3, cs)" if "cs = [] \<or> isspace (hd cs)" for cs
  proof -
    have "aton_parts [] (?s @ cs) = aton_parts [ucast b0, ucast b1, ucast b2] (dec8 (unat b3) @ cs)"
      by (simp add: aton_part)
    then show ?thesis by (simp add: aton_last [OF _ that])
  qed
  have v: "aton_value [ucast b0, ucast b1, ucast b2] (ucast b3) = Some (word4 b3 b2 b1 b0)"
  proof -
    have "\<not> (ucast b3 :: u32) > 0xff" using u8_unat_less [of b3] by (simp add: word_less_nat_alt del: u8_unat_less)
    then show ?thesis by (simp add: aton_value_def word4_def ac_simps)
  qed
  have "ipaddr_aton (?s @ cs) = Some a" if "cs = [] \<or> isspace (hd cs)" for cs
  proof -
    have "cur_char cs = 0 \<or> isspace (cur_char cs)" using that by (cases cs) (simp_all add: cur_char_def)
    then show ?thesis using addr_word4 [OF b] unfolding ipaddr_aton_def p [OF that] by (auto simp: v htonl_word4)
  qed
  from this [of "[]"] this [of "32 # rest"] have "ipaddr_aton ?s = Some a" "ipaddr_aton (?s @ 32 # rest) = Some a"
    by (simp_all add: isspace_def)
  with n r show ?thesis by blast
qed

text \<open>
  Of four parts only the last is checked to be a byte. A leading part above 255 is let
  through and runs into its neighbour: the text 1.256.0.0 is taken as an address, the same
  as 1.0.0.0.
\<close>

theorem aton_leading_unchecked:
  "(aton_value [p, q, r] v = None \<longleftrightarrow> v > 0xff)
   \<and> ipaddr_aton [49, 46, 50, 53, 54, 46, 48, 46, 48] = Some 1 \<and> ipaddr_aton [49, 46, 48, 46, 48, 46, 48] = Some 1"
proof -
  have "aton_value [p, q, r] v = None \<longleftrightarrow> v > 0xff" by (simp add: aton_value_def)
  moreover have "ipaddr_aton [49, 46, 50, 53, 54, 46, 48, 46, 48] = Some 1" by code_simp
  moreover have "ipaddr_aton [49, 46, 48, 46, 48, 46, 48] = Some 1" by code_simp
  ultimately show ?thesis by blast
qed

text \<open>
  A net mask is accepted exactly when its host order value is ones followed by zeros.
\<close>

theorem netmask_valid_iff:
  "ip4_addr_netmask_valid m \<longleftrightarrow> (\<exists>k\<le>32. lwip_htonl m = NOT (mask k))"
proof -
  have e: "(\<forall>b\<le>31. bit x b \<longleftrightarrow> k \<le> b) \<longleftrightarrow> x = NOT (mask k)" for x :: u32 and k
    by (auto simp: bit_eq_iff bit_simps less_Suc_eq_le [symmetric] dest: bit_imp_le_length)
  have "ip4_addr_netmask_valid m \<longleftrightarrow> (\<exists>k\<le>32. \<forall>b\<le>31. bit (lwip_htonl m) b \<longleftrightarrow> k \<le> b)"
    using netmask_bits [of 31 "lwip_htonl m"] by (simp add: ip4_addr_netmask_valid_def Let_def)
  then show ?thesis by (simp only: e)
qed

end
