(* ===== verification/Heap.thy ===== *)
theory Heap
  imports Lw_State
begin

text \<open>
  \<open>core/mem.c\<close>: the heap of lwIP, \<open>MEM_SIZE\<close> 10240 bytes cut into blocks that are linked by
  offsets in both directions. \<open>struct mem\<close> takes 8 bytes, a block at least 12 more. The result
  \<open>None\<close> is a failed assertion or a loop that does not end. Statistics are left out;
  the functions here are the critical sections, \<open>Heap_Lock\<close> puts the mutex around them.
\<close>

abbreviation (input) MEM_SIZE_ALIGNED :: nat where "MEM_SIZE_ALIGNED \<equiv> 10240"
abbreviation (input) SIZEOF_STRUCT_MEM :: nat where "SIZEOF_STRUCT_MEM \<equiv> 8"
abbreviation (input) MIN_SIZE_ALIGNED :: u16 where "MIN_SIZE_ALIGNED \<equiv> 12"

text \<open>\<open>LWIP_MEM_ALIGN_SIZE\<close> is computed in 32 bits and cut to \<open>mem_size_t\<close>, 16 bits.\<close>

definition LWIP_MEM_ALIGN_SIZE :: "u32 \<Rightarrow> u32" where
  "LWIP_MEM_ALIGN_SIZE sz = (sz + 4 - 1) AND NOT 3"

definition LWIP_MEM_ALIGN :: "ptr \<Rightarrow> ptr" where
  "LWIP_MEM_ALIGN addr = (addr + 3) div 4 * 4"

definition upd_hdr :: "ptr \<Rightarrow> (mem_hdr \<Rightarrow> mem_hdr) \<Rightarrow> lw \<Rightarrow> lw" where
  "upd_hdr p f w = w\<lparr>mem_hdrs := (mem_hdrs w)(p := f (mem_hdrs w p))\<rparr>"

text \<open>\<open>&ram[offset]\<close>, \<open>(u8_t *)mem - ram\<close> and \<open>ram_end\<close>.\<close>

definition mem_at :: "lw \<Rightarrow> u16 \<Rightarrow> ptr" where
  "mem_at w offset = mem_ram w + unat offset"

definition mem_off :: "lw \<Rightarrow> ptr \<Rightarrow> u16" where
  "mem_off w p = word_of_nat (p - mem_ram w)"

definition ram_end :: "lw \<Rightarrow> ptr" where
  "ram_end w = mem_ram w + MEM_SIZE_ALIGNED"

section \<open>Initialisation and release\<close>

definition mem_init :: "ptr \<Rightarrow> lw \<Rightarrow> lw" where
  "mem_init ram_heap w =
     (let w = w\<lparr>mem_ram := LWIP_MEM_ALIGN ram_heap\<rparr>;
          w = upd_hdr (mem_ram w) (\<lambda>h. h\<lparr>m_next := 10240, m_prev := 0, m_used := 0\<rparr>) w;
          w = upd_hdr (ram_end w) (\<lambda>h. h\<lparr>m_used := 1, m_next := 10240, m_prev := 10240\<rparr>) w
      in w\<lparr>lfree := mem_ram w\<rparr>)"

definition plug_next :: "ptr \<Rightarrow> lw \<Rightarrow> lw" where
  "plug_next mem w =
     (let nmem = mem_at w (m_next (mem_hdrs w mem))
      in if mem \<noteq> nmem \<and> m_used (mem_hdrs w nmem) = 0 \<and> nmem \<noteq> ram_end w
         then let w = (if lfree w = nmem then w\<lparr>lfree := mem\<rparr> else w);
                  w = upd_hdr mem (\<lambda>h. h\<lparr>m_next := m_next (mem_hdrs w nmem)\<rparr>) w
              in upd_hdr (mem_at w (m_next (mem_hdrs w nmem))) (\<lambda>h. h\<lparr>m_prev := mem_off w mem\<rparr>) w
         else w)"

definition plug_prev :: "ptr \<Rightarrow> lw \<Rightarrow> lw" where
  "plug_prev mem w =
     (let pmem = mem_at w (m_prev (mem_hdrs w mem))
      in if pmem \<noteq> mem \<and> m_used (mem_hdrs w pmem) = 0
         then let w = (if lfree w = mem then w\<lparr>lfree := pmem\<rparr> else w);
                  w = upd_hdr pmem (\<lambda>h. h\<lparr>m_next := m_next (mem_hdrs w mem)\<rparr>) w
              in upd_hdr (mem_at w (m_next (mem_hdrs w mem))) (\<lambda>h. h\<lparr>m_prev := mem_off w pmem\<rparr>) w
         else w)"

definition plug_holes :: "ptr \<Rightarrow> lw \<Rightarrow> lw option" where
  "plug_holes mem w =
     (if mem \<ge> mem_ram w \<and> mem < ram_end w \<and> m_used (mem_hdrs w mem) = 0
         \<and> unat (m_next (mem_hdrs w mem)) \<le> MEM_SIZE_ALIGNED
      then Some (plug_prev mem (plug_next mem w))
      else None)"

definition mem_free :: "ptr \<Rightarrow> lw \<Rightarrow> lw option" where
  "mem_free rmem w =
     (if rmem = NULL then Some w
      else if \<not> (rmem mod 4 = 0 \<and> rmem \<ge> mem_ram w \<and> rmem < ram_end w) then None
      else let mem = rmem - SIZEOF_STRUCT_MEM
           in if m_used (mem_hdrs w mem) = 0 then None
              else let w = upd_hdr mem (\<lambda>h. h\<lparr>m_used := 0\<rparr>) w;
                       w = (if mem < lfree w then w\<lparr>lfree := mem\<rparr> else w)
                   in plug_holes mem w)"

section \<open>Allocation\<close>

definition mem_round :: "u16 \<Rightarrow> u16" where
  "mem_round sz =
     (let sz = ucast (LWIP_MEM_ALIGN_SIZE (ucast sz))
      in if sz < MIN_SIZE_ALIGNED then MIN_SIZE_ALIGNED else sz)"

text \<open>The room in the block at \<open>ptr\<close>: \<open>mem->next - (ptr + SIZEOF_STRUCT_MEM)\<close>, unsigned.\<close>

definition mem_room :: "lw \<Rightarrow> u16 \<Rightarrow> u32" where
  "mem_room w ptr = ucast (m_next (mem_hdrs w (mem_at w ptr))) - (ucast ptr + 8)"

text \<open>The search for the first block that fits; the inner \<open>None\<close> is a search without success.\<close>

partial_function (option) mem_search :: "lw \<Rightarrow> u16 \<Rightarrow> u16 \<Rightarrow> u16 option option" where
  "mem_search w sz ptr =
     (if unat ptr < MEM_SIZE_ALIGNED - unat sz
      then if m_used (mem_hdrs w (mem_at w ptr)) = 0 \<and> mem_room w ptr \<ge> ucast sz
           then Some (Some ptr)
           else mem_search w sz (m_next (mem_hdrs w (mem_at w ptr)))
      else Some None)"

definition mem_take :: "u16 \<Rightarrow> u16 \<Rightarrow> lw \<Rightarrow> lw" where
  "mem_take ptr sz w =
     (let mem = mem_at w ptr
      in if mem_room w ptr \<ge> ucast sz + 8 + 12
         then let ptr2 = ptr + 8 + sz;
                  mem2 = mem_at w ptr2;
                  w = upd_hdr mem2 (\<lambda>h. h\<lparr>m_used := 0, m_next := m_next (mem_hdrs w mem), m_prev := ptr\<rparr>) w;
                  w = upd_hdr mem (\<lambda>h. h\<lparr>m_next := ptr2, m_used := 1\<rparr>) w
              in if m_next (mem_hdrs w mem2) \<noteq> 10240
                 then upd_hdr (mem_at w (m_next (mem_hdrs w mem2))) (\<lambda>h. h\<lparr>m_prev := ptr2\<rparr>) w
                 else w
         else upd_hdr mem (\<lambda>h. h\<lparr>m_used := 1\<rparr>) w)"

text \<open>The loop that moves \<open>lfree\<close> to the next free block.\<close>

partial_function (option) mem_next_free :: "lw \<Rightarrow> ptr \<Rightarrow> ptr option" where
  "mem_next_free w cur =
     (if m_used (mem_hdrs w cur) \<noteq> 0 \<and> cur \<noteq> ram_end w
      then mem_next_free w (mem_at w (m_next (mem_hdrs w cur)))
      else Some cur)"

definition mem_malloc :: "u16 \<Rightarrow> lw \<Rightarrow> (ptr \<times> lw) option" where
  "mem_malloc sz w =
     (if sz = 0 then Some (NULL, w)
      else let sz = mem_round sz
           in if unat sz > MEM_SIZE_ALIGNED then Some (NULL, w)
              else case mem_search w sz (mem_off w (lfree w)) of
                     None \<Rightarrow> None
                   | Some None \<Rightarrow> Some (NULL, w)
                   | Some (Some ptr) \<Rightarrow>
                       let mem = mem_at w ptr;
                           w1 = mem_take ptr sz w
                       in case (if mem = lfree w1 then mem_next_free w1 mem else Some (lfree w1)) of
                            None \<Rightarrow> None
                          | Some cur \<Rightarrow>
                              let w2 = w1\<lparr>lfree := cur\<rparr>
                              in if (mem = lfree w1 \<longrightarrow> cur = ram_end w2 \<or> m_used (mem_hdrs w2 cur) = 0)
                                    \<and> mem + SIZEOF_STRUCT_MEM + unat sz \<le> ram_end w2
                                    \<and> (mem + SIZEOF_STRUCT_MEM) mod 4 = 0 \<and> mem mod 4 = 0
                                 then Some (mem + SIZEOF_STRUCT_MEM, w2) else None)"

definition mem_calloc :: "u16 \<Rightarrow> u16 \<Rightarrow> lw \<Rightarrow> (ptr \<times> lw) option" where
  "mem_calloc count sz w =
     map_option (\<lambda>(p, w). (p, if p \<noteq> NULL
                               then w\<lparr>octet := store_bytes p (replicate (unat count * unat sz) 0) (octet w)\<rparr> else w))
       (mem_malloc (count * sz) w)"

section \<open>Shrinking\<close>

definition mem_split :: "u16 \<Rightarrow> u16 \<Rightarrow> u16 \<Rightarrow> lw \<Rightarrow> lw" where
  "mem_split ptr ptr2 next w =
     (let mem2 = mem_at w ptr2;
          w = upd_hdr mem2 (\<lambda>h. h\<lparr>m_used := 0, m_next := next, m_prev := ptr\<rparr>) w;
          w = upd_hdr (mem_at w ptr) (\<lambda>h. h\<lparr>m_next := ptr2\<rparr>) w
      in if m_next (mem_hdrs w mem2) \<noteq> 10240
         then upd_hdr (mem_at w (m_next (mem_hdrs w mem2))) (\<lambda>h. h\<lparr>m_prev := ptr2\<rparr>) w
         else w)"

definition mem_trim :: "ptr \<Rightarrow> u16 \<Rightarrow> lw \<Rightarrow> (ptr \<times> lw) option" where
  "mem_trim rmem newsize w =
     (let newsize = mem_round newsize
      in if unat newsize > MEM_SIZE_ALIGNED then Some (NULL, w)
         else if \<not> (rmem \<ge> mem_ram w \<and> rmem < ram_end w) then None
         else let mem = rmem - SIZEOF_STRUCT_MEM;
                  ptr = mem_off w mem;
                  sz = m_next (mem_hdrs w mem) - ptr - 8
              in if newsize > sz then None
                 else if newsize = sz then Some (rmem, w)
                 else let mem2 = mem_at w (m_next (mem_hdrs w mem));
                          ptr2 = ptr + 8 + newsize
                      in if m_used (mem_hdrs w mem2) = 0
                         then let next = m_next (mem_hdrs w mem2);
                                  w = (if lfree w = mem2 then w\<lparr>lfree := mem_at w ptr2\<rparr> else w)
                              in Some (rmem, mem_split ptr ptr2 next w)
                         else if unat newsize + 8 + 12 \<le> unat sz
                         then let w = (if mem_at w ptr2 < lfree w then w\<lparr>lfree := mem_at w ptr2\<rparr> else w)
                              in Some (rmem, mem_split ptr ptr2 (m_next (mem_hdrs w mem)) w)
                         else Some (rmem, w))"

end
