(* ===== verification/Heap_Inv.thy ===== *)
theory Heap_Inv
  imports Heap
begin

text \<open>
  The heap as a list of blocks. A block is its offset and whether it is in use; it ends where
  the next one starts. \<open>heap_ok w hs\<close>: the headers in memory form the doubly linked list \<open>hs\<close>
  from offset 0 to \<open>MEM_SIZE\<close>, blocks are aligned and large enough, no two free blocks are
  neighbours, and \<open>lfree\<close> is the first free block or \<open>ram_end\<close>.
\<close>

type_synonym blk = "nat \<times> bool"

section \<open>Blocks\<close>

fun start :: "nat \<Rightarrow> blk list \<Rightarrow> nat" where
  "start e [] = e"
| "start e ((a, u) # hs) = a"

fun rep :: "(nat \<Rightarrow> mem_hdr) \<Rightarrow> nat \<Rightarrow> blk list \<Rightarrow> nat \<Rightarrow> bool" where
  "rep h p [] e \<longleftrightarrow> True"
| "rep h p ((a, u) # hs) e \<longleftrightarrow> unat (m_next (h a)) = start e hs \<and> unat (m_prev (h a)) = p
     \<and> (m_used (h a) \<noteq> 0 \<longleftrightarrow> u) \<and> rep h a hs e"

fun blks_ok :: "nat \<Rightarrow> blk list \<Rightarrow> bool" where
  "blks_ok e [] \<longleftrightarrow> True"
| "blks_ok e ((a, u) # hs) \<longleftrightarrow> a + 20 \<le> start e hs \<and> 4 dvd a \<and> blks_ok e hs"

fun coalesced :: "blk list \<Rightarrow> bool" where
  "coalesced ((a, u) # (b, v) # hs) \<longleftrightarrow> (u \<or> v) \<and> coalesced ((b, v) # hs)"
| "coalesced _ \<longleftrightarrow> True"

fun first_free :: "nat \<Rightarrow> blk list \<Rightarrow> nat" where
  "first_free e [] = e"
| "first_free e ((a, u) # hs) = (if u then first_free e hs else a)"

fun lst :: "nat \<Rightarrow> blk list \<Rightarrow> nat" where
  "lst p [] = p"
| "lst p ((a, u) # hs) = lst a hs"

definition hdr :: "lw \<Rightarrow> nat \<Rightarrow> mem_hdr" where
  "hdr w o' = mem_hdrs w (mem_ram w + o')"

definition heap_ok :: "lw \<Rightarrow> blk list \<Rightarrow> bool" where
  "heap_ok w hs \<longleftrightarrow> hs \<noteq> [] \<and> start 10240 hs = 0 \<and> blks_ok 10240 hs \<and> coalesced hs \<and> rep (hdr w) 0 hs 10240
     \<and> lfree w = mem_ram w + first_free 10240 hs \<and> m_used (hdr w 10240) \<noteq> 0 \<and> 4 dvd mem_ram w \<and> mem_ram w \<noteq> 0"

lemma start_append [simp]: "start e (xs @ ys) = start (start e ys) xs"
  by (cases xs) auto

lemma rep_append: "rep h p (xs @ ys) e \<longleftrightarrow> rep h p xs (start e ys) \<and> rep h (lst p xs) ys e"
  by (induction h p xs "start e ys" rule: rep.induct) auto

lemma rep_cong: "(\<And>a. a \<in> fst ` set hs \<Longrightarrow> h a = h' a) \<Longrightarrow> rep h p hs e \<longleftrightarrow> rep h' p hs e"
proof (induction hs arbitrary: p)
  case (Cons b hs)
  then show ?case by (cases b) simp
qed simp

lemma rep_upd [simp]: "a \<notin> fst ` set hs \<Longrightarrow> rep (h(a := v)) p hs e \<longleftrightarrow> rep h p hs e"
  by (rule rep_cong) auto

lemma blks_append: "blks_ok e (xs @ ys) \<longleftrightarrow> blks_ok (start e ys) xs \<and> blks_ok e ys"
  by (induction xs) auto

lemma blks_bounds:
  "blks_ok e hs \<Longrightarrow> start e hs \<le> e" "blks_ok e hs \<Longrightarrow> (a, u) \<in> set hs \<Longrightarrow> start e hs \<le> a \<and> a + 20 \<le> e"
proof (induction hs arbitrary: a u)
  case (Cons b hs)
  obtain c v where b: "b = (c, v)" by (cases b)
  { case 1
    then show ?case using Cons.IH(1) b by auto
  next
    case 2
    then show ?case using Cons.IH b by (cases "(a, u) = b") fastforce+
  }
qed simp_all

lemma blks_split:
  assumes "blks_ok e (xs @ (a, u) # ys)"
  shows "(x, v) \<in> set xs \<Longrightarrow> x + 20 \<le> a" "(y, v) \<in> set ys \<Longrightarrow> start e ys \<le> y" "a + 20 \<le> start e ys" "start e ys \<le> e" "4 dvd a"
    "a \<notin> fst ` set xs" "a \<notin> fst ` set ys" "blks_ok a xs" "blks_ok e ys"
proof -
  show w: "blks_ok a xs" "blks_ok e ys" and a: "a + 20 \<le> start e ys" "4 dvd a" using assms by (simp_all add: blks_append)
  show xs: "(x, v) \<in> set xs \<Longrightarrow> x + 20 \<le> a" for x v using blks_bounds(2) [OF w(1)] by auto
  show ys: "(y, v) \<in> set ys \<Longrightarrow> start e ys \<le> y" for y v using blks_bounds(2) [OF w(2)] by auto
  show "start e ys \<le> e" by (rule blks_bounds(1) [OF w(2)])
  show "a \<notin> fst ` set xs" "a \<notin> fst ` set ys" using xs ys a by fastforce+
qed

lemma first_free_append: "first_free e (xs @ ys) = first_free (first_free e ys) xs"
  by (induction xs) auto

lemma first_free_cases:
  "blks_ok e hs \<Longrightarrow> (first_free e hs = e \<and> (\<forall>(a, u)\<in>set hs. u)) \<or> (first_free e hs, False) \<in> set hs"
  by (induction hs) (auto split: if_splits)

lemma first_free_all: "(\<And>a u. (a, u) \<in> set hs \<Longrightarrow> u) \<Longrightarrow> first_free e hs = e"
  by (induction hs) force+

lemma first_free_some: "(a, False) \<in> set xs \<Longrightarrow> first_free e xs = first_free e' xs"
  by (induction xs) auto

lemma coalesced_append:
  "coalesced (xs @ ys) \<longleftrightarrow> coalesced xs \<and> coalesced ys \<and> (xs \<noteq> [] \<and> ys \<noteq> [] \<longrightarrow> snd (last xs) \<or> snd (hd ys))"
proof (induction xs)
  case (Cons x xs)
  then show ?case by (cases x; cases xs; cases ys) auto
qed simp

lemma coalesced_Cons: "coalesced ((a, u) # ys) \<longleftrightarrow> coalesced ys \<and> (ys \<noteq> [] \<longrightarrow> u \<or> snd (hd ys))"
  by (cases ys) auto

section \<open>Headers in memory\<close>

lemma upd_hdr_sel [simp]:
  "mem_ram (upd_hdr p f w) = mem_ram w" "lfree (upd_hdr p f w) = lfree w" "octet (upd_hdr p f w) = octet w"
  "pbufs (upd_hdr p f w) = pbufs w" "memp_tab (upd_hdr p f w) = memp_tab w" "memp_next (upd_hdr p f w) = memp_next w"
  "ram_end (upd_hdr p f w) = ram_end w" "mem_at (upd_hdr p f w) = mem_at w" "mem_off (upd_hdr p f w) = mem_off w"
  by (simp_all add: upd_hdr_def ram_end_def mem_at_def mem_off_def fun_eq_iff)

lemma lfree_sel [simp]:
  "hdr (w\<lparr>lfree := p\<rparr>) = hdr w" "ram_end (w\<lparr>lfree := p\<rparr>) = ram_end w" "mem_at (w\<lparr>lfree := p\<rparr>) = mem_at w"
  "mem_off (w\<lparr>lfree := p\<rparr>) = mem_off w"
  by (simp_all add: hdr_def ram_end_def mem_at_def mem_off_def fun_eq_iff)

lemma hdr_upd [simp]: "mem_ram w = r \<Longrightarrow> hdr (upd_hdr (r + o') f w) = (hdr w)(o' := f (hdr w o'))"
  by (auto simp: hdr_def upd_hdr_def fun_eq_iff)

lemma mem_hdrs_hdr: "mem_ram w = r \<Longrightarrow> mem_hdrs w (r + o') = hdr w o'"
  by (auto simp: hdr_def)

lemma mem_at_off: "unat o' = a \<Longrightarrow> mem_at w o' = mem_ram w + a"
  by (simp add: mem_at_def)

lemma unat_16: "a \<le> 10240 \<Longrightarrow> unat (word_of_nat a :: u16) = a"
  by (simp add: unsigned_of_nat take_bit_nat_eq_self)

lemma mem_off_at: "a \<le> 10240 \<Longrightarrow> unat (mem_off w (mem_ram w + a)) = a"
  by (simp add: mem_off_def unat_16)

section \<open>Allocation\<close>

fun find_fit :: "nat \<Rightarrow> blk list \<Rightarrow> nat option" where
  "find_fit n [] = None"
| "find_fit n ((a, u) # hs) = (if \<not> u \<and> a + 8 + n \<le> start 10240 hs then Some a else find_fit n hs)"

lemma find_fit_late: "blks_ok 10240 hs \<Longrightarrow> 10240 - n \<le> start 10240 hs \<Longrightarrow> find_fit n hs = None"
proof (induction hs)
  case (Cons b hs)
  obtain a u where b: "b = (a, u)" by (cases b)
  then have "10240 - n \<le> start 10240 hs" "\<not> a + 8 + n \<le> start 10240 hs"
    using Cons.prems blks_bounds(1) [of 10240 hs] by auto
  then show ?case using Cons b by simp
qed simp

lemma find_fit_Some:
  "find_fit n hs = Some a \<Longrightarrow> \<exists>xs ys. hs = xs @ (a, False) # ys \<and> a + 8 + n \<le> start 10240 ys"
proof (induction hs)
  case (Cons b hs)
  obtain c u where b: "b = (c, u)" by (cases b)
  show ?case
  proof (cases "\<not> u \<and> c + 8 + n \<le> start 10240 hs")
    case True
    then show ?thesis using Cons.prems b by (intro exI [of _ "[]"] exI [of _ hs]) auto
  next
    case False
    then have "find_fit n hs = Some a" using Cons.prems b by auto
    from Cons.IH [OF this] show ?thesis by (metis append_Cons)
  qed
qed simp

lemma find_fit_None: "find_fit n (xs @ (a, False) # ys) = None \<Longrightarrow> start 10240 ys < a + 8 + n"
  by (induction xs) (auto split: if_splits)

lemma find_fit_used: "(\<And>a. (a, False) \<notin> set xs) \<Longrightarrow> find_fit n (xs @ ys) = find_fit n ys"
proof (induction xs)
  case (Cons b xs)
  obtain a u where b: "b = (a, u)" by (cases b)
  then have u using Cons.prems [of a] by auto
  moreover have "find_fit n (xs @ ys) = find_fit n ys" using Cons by auto
  ultimately show ?case by (simp add: b)
qed simp

lemma unat_room:
  assumes "unat ptr = a" "unat (m_next (hdr w a)) = b" "a + 8 \<le> b"
  shows "unat (mem_room w ptr) = b - a - 8"
proof -
  have b: "b < 65536" using unsigned_less [of "m_next (hdr w a)", where 'a = nat] assms(2) by simp
  let ?p = "ucast ptr + 8 :: u32" and ?n = "ucast (m_next (mem_hdrs w (mem_at w ptr))) :: u32"
  have "unat (ucast ptr :: u32) + unat (8 :: u32) < 4294967296"
    unfolding unat_promotions assms(1) using assms(3) b by simp
  from unat_add_small [OF this] have p: "unat ?p = a + 8" unfolding unat_promotions assms(1) by simp
  have n: "unat ?n = b" unfolding unat_promotions mem_at_off [OF assms(1)] mem_hdrs_hdr [OF refl] by (rule assms(2))
  have "?p \<le> ?n" using p n assms(3) by (simp only: word_le_nat_alt)
  then have "unat (mem_room w ptr) = unat ?n - unat ?p" unfolding mem_room_def by (rule unat_sub)
  then show ?thesis unfolding p n by (simp only: diff_diff_left)
qed

lemma mem_search_fit:
  assumes "blks_ok 10240 hs" "rep (hdr w) p hs 10240" "unat ptr = start 10240 hs"
  shows "mem_search w sz ptr = Some (map_option word_of_nat (find_fit (unat sz) hs))"
  using assms
proof (induction hs arbitrary: p ptr)
  case Nil
  moreover have "\<not> 10240 < 10240 - unat sz" by arith
  ultimately show ?case by (subst mem_search.simps) simp
next
  case (Cons b hs)
  obtain a u where b: "b = (a, u)" by (cases b)
  have ptr: "unat ptr = a" and nxt: "unat (m_next (hdr w a)) = start 10240 hs" "a + 20 \<le> start 10240 hs"
    and u: "m_used (hdr w a) \<noteq> 0 \<longleftrightarrow> u" and rest: "blks_ok 10240 hs" "rep (hdr w) a hs 10240"
    using Cons.prems b by auto
  have room: "mem_room w ptr \<ge> ucast sz \<longleftrightarrow> a + 8 + unat sz \<le> start 10240 hs"
    using unat_room [OF ptr nxt(1)] nxt(2) by (auto simp: word_le_nat_alt)
  have at: "mem_hdrs w (mem_at w ptr) = hdr w a" using ptr by (simp add: mem_at_off mem_hdrs_hdr)
  have w: "word_of_nat a = ptr" by (simp flip: ptr)
  show ?case
  proof (cases "unat ptr < 10240 - unat sz")
    case False
    then have "find_fit (unat sz) (b # hs) = None" using Cons.prems(1) b ptr by (intro find_fit_late) auto
    then show ?thesis using False by (subst mem_search.simps) simp
  next
    case True
    then show ?thesis using Cons.IH [OF rest nxt(1)] u room b w
      by (subst mem_search.simps) (auto simp: at)
  qed
qed

lemma mem_next_free_first:
  assumes "rep (hdr w) p hs 10240" "blks_ok 10240 hs" "m_used (hdr w 10240) \<noteq> 0"
  shows "mem_next_free w (mem_ram w + start 10240 hs) = Some (mem_ram w + first_free 10240 hs)"
  using assms(1,2)
proof (induction hs arbitrary: p)
  case Nil
  then show ?case by (subst mem_next_free.simps) (simp add: ram_end_def)
next
  case (Cons b hs)
  obtain a u where b: "b = (a, u)" by (cases b)
  have a: "a \<noteq> 10240" using Cons.prems(2) b blks_bounds(1) [of 10240 hs] by auto
  show ?case
  proof (cases u)
    case True
    then show ?thesis using Cons.prems Cons.IH [of a] b a
      by (subst mem_next_free.simps) (simp add: mem_hdrs_hdr ram_end_def mem_at_off [of _ "start 10240 hs"])
  next
    case False
    then show ?thesis using Cons b by (subst mem_next_free.simps) (simp add: mem_hdrs_hdr)
  qed
qed

lemma rep_prev:
  assumes "blks_ok e ys" "rep h p ys e"
  shows "rep (h(start e ys := (h (start e ys))\<lparr>m_prev := q\<rparr>)) (unat q) ys e"
proof (cases ys)
  case (Cons b zs)
  obtain a u where b: "b = (a, u)" by (cases b)
  have "a \<notin> fst ` set zs" using assms(1) blks_split(7) [of e "[]" a u zs] by (simp add: Cons b)
  then show ?thesis using assms(2) by (simp add: Cons b)
qed simp

lemma rep_start: "rep h p (xs @ (a, u) # ys) e \<Longrightarrow> unat (m_next (h a)) = start e ys \<and> unat (m_prev (h a)) = lst p xs \<and> (m_used (h a) \<noteq> 0 \<longleftrightarrow> u)"
  by (simp add: rep_append)

text \<open>Inserting a free block \<open>c\<close> after \<open>a\<close>, the common part of taking and shrinking.\<close>

lemma rep_insert:
  assumes rep: "rep h 0 (xs @ (a, u) # ys) 10240" and ok: "blks_ok 10240 (xs @ (a, u) # ys)"
    and c: "a + 20 \<le> c" "c + 20 \<le> start 10240 zs" "unat pc = c" "unat pa = a" "unat nx = start 10240 zs"
    and zs: "ys = vs @ zs" 
    and h': "h' c = (h c)\<lparr>m_used := 0, m_next := nx, m_prev := pa\<rparr>"
      "m_next (h' a) = pc" "m_prev (h' a) = m_prev (h a)" "m_used (h' a) \<noteq> 0 \<longleftrightarrow> v"
      "zs \<noteq> [] \<Longrightarrow> h' (start 10240 zs) = (h (start 10240 zs))\<lparr>m_prev := pc\<rparr>"
      "\<And>x. x \<noteq> c \<Longrightarrow> x \<noteq> a \<Longrightarrow> x \<noteq> start 10240 zs \<Longrightarrow> h' x = h x"
  shows "rep h' 0 (xs @ (a, v) # (c, False) # zs) 10240"
proof -
  have okz: "blks_ok 10240 zs" using ok by (simp add: zs blks_append)
  have xs: "\<And>x. x \<in> fst ` set xs \<Longrightarrow> x < a" using blks_split(1) [OF ok] by fastforce
  have zs_le: "\<And>x. x \<in> fst ` set zs \<Longrightarrow> start 10240 zs \<le> x" using blks_bounds(2) [OF okz] by fastforce
  have "rep h 0 xs a" using rep by (simp add: rep_append)
  moreover have "h x = h' x" if "x \<in> fst ` set xs" for x using xs [OF that] c h'(6) [of x] by simp
  ultimately have 1: "rep h' 0 xs a" using rep_cong [of xs h h'] by blast
  obtain q where q: "rep h q zs 10240" using rep by (auto simp: zs rep_append)
  have 2: "rep h' c zs 10240"
  proof (cases "zs = []")
    case False
    have "h' x = (h(start 10240 zs := (h (start 10240 zs))\<lparr>m_prev := pc\<rparr>)) x" if "x \<in> fst ` set zs" for x
      using zs_le [OF that] c h'(5,6) False by auto
    then show ?thesis using rep_prev [OF okz q, of pc] c(3) rep_cong [of zs] by metis
  qed simp
  have "unat (m_prev (h a)) = lst 0 xs" using rep_start [OF rep] by simp
  then show ?thesis using 1 2 h'(1-4) c by (simp add: rep_append)
qed

lemma mem_split_rep:
  assumes rep: "rep (hdr w) 0 (xs @ (a, u) # ys) 10240" and ok: "blks_ok 10240 (xs @ (a, u) # ys)"
    and c: "a + 20 \<le> c" "c + 20 \<le> start 10240 zs" "unat pc = c" "unat pa = a" "unat nx = start 10240 zs"
    and zs: "ys = vs @ zs"
  shows "rep (hdr (mem_split pa pc nx w)) 0 (xs @ (a, u) # (c, False) # zs) 10240"
    "mem_ram (mem_split pa pc nx w) = mem_ram w" "lfree (mem_split pa pc nx w) = lfree w"
    "m_used (hdr (mem_split pa pc nx w) 10240) = m_used (hdr w 10240)"
    "octet (mem_split pa pc nx w) = octet w" "pbufs (mem_split pa pc nx w) = pbufs w"
proof -
  let ?n = "start 10240 zs"
  have n: "?n \<le> 10240" using blks_bounds(1) [of 10240 zs] ok by (simp add: zs blks_append)
  have nx: "nx = 10240 \<longleftrightarrow> ?n = 10240" using c(5) by (auto simp: word_unat_eq_iff)
  let ?h = "(hdr w)(c := (hdr w c)\<lparr>m_used := 0, m_next := nx, m_prev := pa\<rparr>)"
  let ?h2 = "?h(a := (?h a)\<lparr>m_next := pc\<rparr>)"
  have at: "mem_at w pc = mem_ram w + c" "mem_at w pa = mem_ram w + a" "mem_at w nx = mem_ram w + ?n"
    using c(3-5) by (simp_all add: mem_at_def)
  have h: "hdr (mem_split pa pc nx w) = (if ?n \<noteq> 10240 then ?h2(?n := (?h2 ?n)\<lparr>m_prev := pc\<rparr>) else ?h2)"
    using c(1) nx by (simp add: mem_split_def Let_def at mem_hdrs_hdr)
  have zs10: "zs \<noteq> [] \<Longrightarrow> ?n \<noteq> 10240" using ok blks_bounds(1) [of 10240 "tl zs"] by (cases zs) (auto simp: zs blks_append)
  show "rep (hdr (mem_split pa pc nx w)) 0 (xs @ (a, u) # (c, False) # zs) 10240"
  proof (rule rep_insert [OF rep ok c zs])
    show "hdr (mem_split pa pc nx w) c = (hdr w c)\<lparr>m_used := 0, m_next := nx, m_prev := pa\<rparr>"
      "m_next (hdr (mem_split pa pc nx w) a) = pc" "m_prev (hdr (mem_split pa pc nx w) a) = m_prev (hdr w a)"
      "m_used (hdr (mem_split pa pc nx w) a) \<noteq> 0 \<longleftrightarrow> u"
      "zs \<noteq> [] \<Longrightarrow> hdr (mem_split pa pc nx w) ?n = (hdr w ?n)\<lparr>m_prev := pc\<rparr>"
      using c(1,2) zs10 rep_start [OF rep] unfolding h by auto
    show "\<And>x. x \<noteq> c \<Longrightarrow> x \<noteq> a \<Longrightarrow> x \<noteq> ?n \<Longrightarrow> hdr (mem_split pa pc nx w) x = hdr w x" unfolding h by simp
  qed
  show "mem_ram (mem_split pa pc nx w) = mem_ram w" "lfree (mem_split pa pc nx w) = lfree w"
    "octet (mem_split pa pc nx w) = octet w" "pbufs (mem_split pa pc nx w) = pbufs w"
    by (simp_all add: mem_split_def Let_def)
  show "m_used (hdr (mem_split pa pc nx w) 10240) = m_used (hdr w 10240)"
    unfolding h using c(1,2) n by auto
qed

section \<open>Rounding\<close>

lemma unat_ALIGN: "unat x + 3 < 4294967296 \<Longrightarrow> unat (LWIP_MEM_ALIGN_SIZE x) = (unat x + 3) div 4 * 4"
proof -
  assume x: "unat x + 3 < 4294967296"
  have m: "(3 :: u32) = mask 2" by (simp add: mask_numeral)
  have s: "2 \<le> n \<Longrightarrow> Suc (Suc (n - 2)) = n" for n :: nat by arith
  have "y AND NOT 3 = push_bit 2 (drop_bit 2 y)" for y :: u32
    unfolding m by (rule bit_word_eqI) (auto simp: bit_simps s not_less)
  moreover have "x + 4 - 1 = x + 3" by simp
  ultimately have a: "LWIP_MEM_ALIGN_SIZE x = push_bit 2 (drop_bit 2 (x + 3))" unfolding LWIP_MEM_ALIGN_SIZE_def by metis
  have s: "unat (x + 3) = unat x + 3" using unat_add_small [of x 3] x by simp
  have d: "unat (drop_bit 2 (x + 3)) = (unat x + 3) div 4" using s by (simp only: unat_shr) simp
  have "push_bit 2 (unat (drop_bit 2 (x + 3))) < 2 ^ LENGTH(32)" unfolding d push_bit_eq_mult using x by simp
  from unat_push [OF this] show ?thesis unfolding a d by (simp add: push_bit_eq_mult)
qed

lemma unat_round: "unat sz \<le> 65532 \<Longrightarrow> unat (mem_round sz) = max 12 ((unat sz + 3) div 4 * 4)"
proof -
  assume sz: "unat sz \<le> 65532"
  have "unat (LWIP_MEM_ALIGN_SIZE (ucast sz)) = (unat sz + 3) div 4 * 4"
    using unat_ALIGN [of "ucast sz"] sz by simp
  moreover have "(unat sz + 3) div 4 * 4 < 65536" using sz by linarith
  ultimately have "unat (ucast (LWIP_MEM_ALIGN_SIZE (ucast sz)) :: u16) = (unat sz + 3) div 4 * 4"
    by (simp only: unsigned_ucast_eq) (simp add: take_bit_nat_eq_self)
  then show ?thesis unfolding mem_round_def Let_def word_less_nat_alt by (simp add: max_def)
qed

lemma round_props: "unat sz \<le> 65532 \<Longrightarrow> 12 \<le> unat (mem_round sz) \<and> 4 dvd unat (mem_round sz) \<and> unat sz \<le> unat (mem_round sz)"
  unfolding unat_round by (simp add: max_def) linarith

section \<open>The operations keep the invariant\<close>

definition take_blk :: "blk list \<Rightarrow> nat \<Rightarrow> nat \<Rightarrow> blk list \<Rightarrow> blk list" where
  "take_blk xs a n ys = xs @ (a, True) # (if a + 28 + n \<le> start 10240 ys then (a + 8 + n, False) # ys else ys)"

lemma rep_use:
  assumes "rep h 0 (xs @ (a, u) # ys) 10240" "blks_ok 10240 (xs @ (a, u) # ys)" "b \<noteq> 0 \<longleftrightarrow> v"
  shows "rep (h(a := (h a)\<lparr>m_used := b\<rparr>)) 0 (xs @ (a, v) # ys) 10240"
  using assms(1,3) blks_split(6,7) [OF assms(2)] by (simp add: rep_append)

lemma mem_take_split:
  assumes "unat ptr + 8 + unat sz < 65536" 
  shows "mem_take ptr sz w = (let w1 = upd_hdr (mem_at w ptr) (\<lambda>h. h\<lparr>m_used := 1\<rparr>) w
     in if mem_room w ptr \<ge> ucast sz + 8 + 12
        then mem_split ptr (ptr + 8 + sz) (m_next (mem_hdrs w (mem_at w ptr))) w1 else w1)"
proof -
  have "unat (ptr + 8 + sz) = unat ptr + 8 + unat sz" using assms by (simp add: unat_word_ariths)
  then have ne: "mem_at w (ptr + 8 + sz) \<noteq> mem_at w ptr" by (simp add: mem_at_def)
  have f: "fun_upd (fun_upd f y b) x a = fun_upd (fun_upd f x a) y b" if "x \<noteq> y" for f :: "ptr \<Rightarrow> mem_hdr" and x y a b
    using that by (rule fun_upd_twist [symmetric])
  have r: "h\<lparr>m_next := x, m_used := y\<rparr> = h\<lparr>m_used := y, m_next := x\<rparr>" for h :: mem_hdr and x y by simp
  show ?thesis using ne
    by (simp add: mem_take_def mem_split_def Let_def upd_hdr_def mem_at_def f r)
qed

lemma mem_take_ok:
  assumes rep: "rep (hdr w) 0 (xs @ (a, False) # ys) 10240" and ok: "blks_ok 10240 (xs @ (a, False) # ys)"
    and co: "coalesced (xs @ (a, False) # ys)" and n: "4 dvd unat sz" "12 \<le> unat sz" "a + 8 + unat sz \<le> start 10240 ys" and a: "unat ptr = a"
  defines "w' \<equiv> mem_take ptr sz w"
  shows "rep (hdr w') 0 (take_blk xs a (unat sz) ys) 10240" "blks_ok 10240 (take_blk xs a (unat sz) ys)"
    "coalesced (take_blk xs a (unat sz) ys)" "mem_ram w' = mem_ram w" "lfree w' = lfree w"
    "m_used (hdr w' 10240) = m_used (hdr w 10240)" "octet w' = octet w" "pbufs w' = pbufs w"
proof -
  let ?n = "unat sz" and ?b = "start 10240 ys"
  note sp = blks_split [OF ok]
  have le: "?b \<le> 10240" by (rule sp(4))
  have nxt: "unat (m_next (hdr w a)) = ?b" using rep_start [OF rep] by simp
  have p2: "unat (ptr + 8 + sz) = a + 8 + ?n" using n(3) le a by (simp add: unat_word_ariths)
  have s20: "unat (ucast sz + 8 + 12 :: u32) = ?n + 20"
  proof -
    have "unat (ucast sz + 8 :: u32) = ?n + 8" using unat_add_small [of "ucast sz" 8] n(3) le by simp
    then show ?thesis using unat_add_small [of "ucast sz + 8" 12] n(3) le by simp
  qed
  have room: "mem_room w ptr \<ge> ucast sz + 8 + 12 \<longleftrightarrow> a + 28 + ?n \<le> ?b"
    unfolding word_le_nat_alt s20 unat_room [OF a nxt le_trans [OF _ sp(3)], simplified] using sp(3) by auto
  let ?w1 = "upd_hdr (mem_ram w + a) (\<lambda>h. h\<lparr>m_used := 1\<rparr>) w"
  have rep1: "rep (hdr ?w1) 0 (xs @ (a, True) # ys) 10240" using rep_use [OF rep ok, of 1 True] by simp
  have ok1: "blks_ok 10240 (xs @ (a, True) # ys)" using ok by (simp add: blks_append)
  have w': "w' = (if a + 28 + ?n \<le> ?b then mem_split ptr (ptr + 8 + sz) (m_next (hdr w a)) ?w1 else ?w1)"
  proof -
    have "unat ptr + 8 + unat sz < 65536" using n(3) le a by simp
    from mem_take_split [OF this, of w] show ?thesis
      unfolding w'_def Let_def room mem_at_off [OF a] mem_hdrs_hdr [OF refl] .
  qed
  have 4: "4 dvd a + 8 + ?n" using sp(5) n(1) by simp
  show "rep (hdr w') 0 (take_blk xs a ?n ys) 10240" "mem_ram w' = mem_ram w" "lfree w' = lfree w"
    "m_used (hdr w' 10240) = m_used (hdr w 10240)" "octet w' = octet w" "pbufs w' = pbufs w"
    using rep1 mem_split_rep [OF rep1 ok1, of "a + 8 + ?n" ys "ptr + 8 + sz" ptr "m_next (hdr w a)" "[]"] n(2) p2 a nxt le sp(3)
    by (auto simp: w' take_blk_def)
  show "blks_ok 10240 (take_blk xs a ?n ys)" using ok n(2,3) 4 by (auto simp: take_blk_def blks_append)
  show "coalesced (take_blk xs a ?n ys)" using co by (auto simp: take_blk_def coalesced_append coalesced_Cons)
qed

lemma heap_okD:
  assumes "heap_ok w hs"
  shows "hs \<noteq> []" "start 10240 hs = 0" "blks_ok 10240 hs" "coalesced hs" "rep (hdr w) 0 hs 10240"
    "lfree w = mem_ram w + first_free 10240 hs" "m_used (hdr w 10240) \<noteq> 0" "4 dvd mem_ram w" "mem_ram w \<noteq> 0"
  using assms by (auto simp: heap_ok_def)

lemma first_free_le: "blks_ok 10240 hs \<Longrightarrow> first_free 10240 hs \<le> 10240"
  using first_free_cases [of 10240 hs] blks_bounds(2) [of 10240 hs] by fastforce

lemma split_first_free:
  "blks_ok 10240 hs \<Longrightarrow> \<exists>xs ys. hs = xs @ ys \<and> (\<forall>a. (a, False) \<notin> set xs) \<and> start 10240 ys = first_free 10240 hs"
proof (induction hs)
  case (Cons b hs)
  obtain a u where b: "b = (a, u)" by (cases b)
  show ?case
  proof (cases u)
    case True
    obtain xs ys where "hs = xs @ ys" "\<forall>a. (a, False) \<notin> set xs" "start 10240 ys = first_free 10240 hs"
      using Cons b by auto
    then show ?thesis using True b by (intro exI [of _ "b # xs"] exI [of _ ys]) auto
  next
    case False
    then show ?thesis using b by (intro exI [of _ "[]"] exI [of _ "b # hs"]) auto
  qed
qed simp

lemma mem_search_heap:
  assumes "heap_ok w hs"
  shows "mem_search w sz (mem_off w (lfree w)) = Some (map_option word_of_nat (find_fit (unat sz) hs))"
proof -
  note h = heap_okD [OF assms]
  obtain xs ys where s: "hs = xs @ ys" "\<forall>a. (a, False) \<notin> set xs" "start 10240 ys = first_free 10240 hs"
    using split_first_free [OF h(3)] by blast
  have "unat (mem_off w (lfree w)) = start 10240 ys"
    using mem_off_at [OF first_free_le [OF h(3)]] s(3) by (simp add: h(6))
  moreover have "blks_ok 10240 ys" "rep (hdr w) (lst 0 xs) ys 10240" using h(3,5) by (simp_all add: s(1) blks_append rep_append)
  ultimately show ?thesis using mem_search_fit find_fit_used [of xs] s(2) by (simp add: s(1))
qed

lemma first_free_take:
  assumes "blks_ok 10240 (xs @ (a, False) # ys)"
  shows "first_free 10240 (xs @ (a, False) # ys) = a \<longleftrightarrow> (\<forall>x. (x, False) \<notin> set xs)"
    "first_free 10240 (xs @ (a, False) # ys) \<noteq> a \<Longrightarrow>
      first_free 10240 (xs @ (a, u) # zs) = first_free 10240 (xs @ (a, False) # ys)"
proof -
  have lt: "x < a" if "(x, v) \<in> set xs" for x v using blks_split(1) [OF assms that] by simp
  have all: "(\<forall>x. (x, False) \<notin> set xs) \<Longrightarrow> first_free e xs = e" for e by (rule first_free_all) (metis (full_types))
  have some: "\<not> (\<forall>x. (x, False) \<notin> set xs) \<Longrightarrow> first_free e xs = first_free e' xs \<and> first_free e xs < a" for e e'
  proof -
    assume "\<not> (\<forall>x. (x, False) \<notin> set xs)"
    then obtain x where x: "(x, False) \<in> set xs" by blast
    have "first_free e xs = first_free a xs" "first_free a xs = first_free e' xs" using first_free_some [OF x] by blast+
    moreover have "first_free a xs < a"
      using first_free_cases [of a xs] x lt blks_split(8) [OF assms] by fastforce
    ultimately show ?thesis by simp
  qed
  show "first_free 10240 (xs @ (a, False) # ys) = a \<longleftrightarrow> (\<forall>x. (x, False) \<notin> set xs)"
    using all some by (simp add: first_free_append) (metis less_irrefl)
  show "first_free 10240 (xs @ (a, u) # zs) = first_free 10240 (xs @ (a, False) # ys)"
    if "first_free 10240 (xs @ (a, False) # ys) \<noteq> a"
  proof -
    have "\<not> (\<forall>x. (x, False) \<notin> set xs)" using all that by (auto simp: first_free_append)
    then show ?thesis using some by (simp add: first_free_append)
  qed
qed

lemma mem_malloc_take:
  assumes ok: "heap_ok w hs" and sz: "sz \<noteq> 0" "unat sz \<le> 10240"
    and fit: "find_fit (unat (mem_round sz)) hs = Some a" and hs: "hs = xs @ (a, False) # ys" 
    and room: "a + 8 + unat (mem_round sz) \<le> start 10240 ys"
  obtains w' where "mem_malloc sz w = Some (mem_ram w + a + 8, w')" "heap_ok w' (take_blk xs a (unat (mem_round sz)) ys)"
    "mem_ram w' = mem_ram w" "octet w' = octet w" "pbufs w' = pbufs w"
proof -
  note h = heap_okD [OF ok, unfolded hs]
  let ?sz = "mem_round sz"
  let ?n = "unat ?sz" and ?hs = "take_blk xs a (unat ?sz) ys" and ?p = "word_of_nat a :: u16"
  have n: "12 \<le> ?n" "4 dvd ?n" using round_props [of sz] sz(2) by simp_all
  note sp = blks_split [OF h(3)]
  have a: "a + 20 \<le> 10240" "unat ?p = a" using sp(3,4) by (simp_all add: unat_16)
  have n10: "?n \<le> 10240" using room sp(4) by simp
  note t = mem_take_ok [OF h(5) h(3) h(4) n(2,1) room a(2)]
  let ?w1 = "mem_take ?p ?sz w"
  have used: "m_used (hdr ?w1 10240) \<noteq> 0" using t(6) h(7) by simp
  have at: "mem_at w ?p = mem_ram w + a" "mem_at ?w1 ?p = mem_ram ?w1 + a" using a(2) by (simp_all add: mem_at_def)
  let ?lf = "mem_ram w + first_free 10240 ?hs"
  have nf: "(if mem_ram w + a = lfree ?w1 then mem_next_free ?w1 (mem_ram w + a) else Some (lfree ?w1)) = Some ?lf"
  proof (cases "first_free 10240 (xs @ (a, False) # ys) = a")
    case True
    let ?r = "(a, True) # (if a + 28 + ?n \<le> start 10240 ys then (a + 8 + ?n, False) # ys else ys)"
    have r: "?hs = xs @ ?r" by (simp add: take_blk_def)
    have "rep (hdr ?w1) (lst 0 xs) ?r 10240" "blks_ok 10240 ?r" using t(1,2) by (simp_all add: r rep_append blks_append)
    from mem_next_free_first [OF this used] have "mem_next_free ?w1 (mem_ram w + a) = Some (mem_ram w + first_free 10240 ?r)"
      using t(4) by simp
    moreover have "first_free 10240 ?hs = first_free 10240 ?r"
      using True first_free_take(1) [OF h(3)] first_free_all [of xs] by (simp add: r first_free_append) (metis (full_types))
    ultimately show ?thesis using True h(6) t(5) by simp
  next
    case False
    have "first_free 10240 ?hs = first_free 10240 (xs @ (a, False) # ys)"
      unfolding take_blk_def by (rule first_free_take(2) [OF h(3) False])
    then show ?thesis using False h(6) t(5) by simp
  qed
  have ok': "heap_ok (?w1\<lparr>lfree := ?lf\<rparr>) ?hs"
  proof -
    have "start a xs = 0" using h(2) by simp
    then have "start 10240 ?hs = 0" "?hs \<noteq> []" by (simp_all add: take_blk_def)
    then show ?thesis using t used h(8,9) by (simp add: heap_ok_def)
  qed
  have lf: "?lf = ram_end ?w1 \<or> m_used (mem_hdrs ?w1 ?lf) = 0"
  proof -
    have "first_free 10240 ?hs = 10240 \<or> (first_free 10240 ?hs, False) \<in> set ?hs"
      using first_free_cases [OF t(2)] by blast
    moreover have "m_used (hdr ?w1 b) = 0" if "(b, False) \<in> set ?hs" for b
      using that rep_start [of "hdr ?w1" 0 _ b False _ 10240] t(1) by (metis split_list)
    ultimately show ?thesis using t(4) by (auto simp: ram_end_def mem_hdrs_hdr)
  qed
  have al: "(mem_ram w + a) mod 4 = 0" using sp(5) h(8) by (metis dvd_add mod_0_imp_dvd dvd_imp_mod_0)
  have "mem_malloc sz w = Some (mem_ram w + a + 8, ?w1\<lparr>lfree := ?lf\<rparr>)"
  proof -
    have "mem_search w ?sz (mem_off w (lfree w)) = Some (Some ?p)" using mem_search_heap [OF ok, of ?sz] fit by simp
    moreover have "(mem_ram w + a + 8) mod 4 = 0" using al by presburger
    moreover have "mem_ram w + a + 8 + ?n \<le> ram_end ?w1" using room sp(4) t(4) by (simp add: ram_end_def)
    ultimately show ?thesis using sz(1) n10 lf al
      by (simp only: mem_malloc_def Let_def at(1) nf if_False option.case lfree_sel simp_thms not_less) simp
  qed
  then show thesis using that ok' t(4,7,8) by simp
qed

lemma mem_malloc_none:
  assumes ok: "heap_ok w hs" and sz: "unat sz \<le> 65532" and "find_fit (unat (mem_round sz)) hs = None"
  shows "mem_malloc sz w = Some (NULL, w)"
  using mem_search_heap [OF ok, of "mem_round sz"] assms(3) by (simp add: mem_malloc_def Let_def)

section \<open>Release\<close>

text \<open>Dropping block \<open>b\<close> after \<open>a\<close>, the common part of both merges of \<open>plug_holes\<close>.\<close>

definition mem_merge :: "ptr \<Rightarrow> ptr \<Rightarrow> lw \<Rightarrow> lw" where
  "mem_merge p q w =
     (let w = upd_hdr p (\<lambda>h. h\<lparr>m_next := m_next (mem_hdrs w q)\<rparr>) w
      in upd_hdr (mem_at w (m_next (mem_hdrs w q))) (\<lambda>h. h\<lparr>m_prev := mem_off w p\<rparr>) w)"

lemma mem_merge_rep:
  assumes rep: "rep (hdr w) 0 (xs @ (a, u) # (b, v) # zs) 10240" and ok: "blks_ok 10240 (xs @ (a, u) # (b, v) # zs)"
  defines "w' \<equiv> mem_merge (mem_ram w + a) (mem_ram w + b) w"
  shows "rep (hdr w') 0 (xs @ (a, u) # zs) 10240" "mem_ram w' = mem_ram w" "lfree w' = lfree w"
    "m_used (hdr w' x) = m_used (hdr w x)" "octet w' = octet w" "pbufs w' = pbufs w"
proof -
  let ?n = "start 10240 zs"
  have ab: "a + 20 \<le> b" "b + 20 \<le> ?n" "?n \<le> 10240" and okz: "blks_ok 10240 zs"
    using blks_split(3,4,9) [OF ok] blks_split(3,4,9) [of 10240 "xs @ [(a, u)]" b v zs] ok by auto
  have nb: "unat (m_next (hdr w b)) = ?n" using rep_start [of "hdr w" 0 "xs @ [(a, u)]" b v zs 10240] rep by simp
  have off: "unat (mem_off w (mem_ram w + a)) = a" using ab by (intro mem_off_at) simp
  let ?h = "(hdr w)(a := (hdr w a)\<lparr>m_next := m_next (hdr w b)\<rparr>)"
  have h: "hdr w' = ?h(?n := (?h ?n)\<lparr>m_prev := mem_off w (mem_ram w + a)\<rparr>)"
    using ab nb by (simp add: w'_def mem_merge_def Let_def mem_hdrs_hdr mem_at_def)
  show "m_used (hdr w' x) = m_used (hdr w x)" unfolding h by simp
  show "mem_ram w' = mem_ram w" "lfree w' = lfree w" "octet w' = octet w" "pbufs w' = pbufs w"
    by (simp_all add: w'_def mem_merge_def Let_def)
  have xs: "x < a" if "x \<in> fst ` set xs" for x using blks_split(1) [OF ok] that by fastforce
  have zs: "?n \<le> x" if "x \<in> fst ` set zs" for x using blks_bounds(2) [OF okz] that by fastforce
  have 1: "rep (hdr w') 0 xs a"
  proof -
    have "rep (hdr w) 0 xs a" using rep by (simp add: rep_append)
    moreover have "hdr w x = hdr w' x" if "x \<in> fst ` set xs" for x using xs [OF that] ab by (simp add: h)
    ultimately show ?thesis using rep_cong [of xs "hdr w" "hdr w'"] by blast
  qed
  have 2: "rep (hdr w') a zs 10240"
  proof -
    have "rep (hdr w) b zs 10240" using rep by (simp add: rep_append)
    from rep_prev [OF okz this, of "mem_off w (mem_ram w + a)"] off
    have "rep ((hdr w)(?n := (hdr w ?n)\<lparr>m_prev := mem_off w (mem_ram w + a)\<rparr>)) a zs 10240" by simp
    moreover have "hdr w' x = ((hdr w)(?n := (hdr w ?n)\<lparr>m_prev := mem_off w (mem_ram w + a)\<rparr>)) x" if "x \<in> fst ` set zs" for x
      using zs [OF that] ab by (simp add: h)
    ultimately show ?thesis using rep_cong [of zs "hdr w'"] by blast
  qed
  have 3: "unat (m_next (hdr w' a)) = ?n" "m_prev (hdr w' a) = m_prev (hdr w a)" "m_used (hdr w' a) = m_used (hdr w a)"
    using ab nb by (simp_all add: h)
  have 4: "unat (m_prev (hdr w a)) = lst 0 xs" "m_used (hdr w a) \<noteq> 0 \<longleftrightarrow> u" using rep_start [OF rep] by simp_all
  show "rep (hdr w') 0 (xs @ (a, u) # zs) 10240" using 1 2 3 4 by (simp add: rep_append)
qed

definition merge_next :: "blk list \<Rightarrow> blk list" where
  "merge_next ys = (case ys of (b, False) # zs \<Rightarrow> zs | _ \<Rightarrow> ys)"

definition free_blk :: "blk list \<Rightarrow> nat \<Rightarrow> blk list \<Rightarrow> blk list" where
  "free_blk xs a ys = (if xs \<noteq> [] \<and> \<not> snd (last xs) then xs else xs @ [(a, False)]) @ merge_next ys"

lemma plug_next_ok:
  assumes rep: "rep (hdr w) 0 (xs @ (a, False) # ys) 10240" and ok: "blks_ok 10240 (xs @ (a, False) # ys)"
    and lf: "lfree w = mem_ram w + first_free 10240 (xs @ (a, False) # ys)" and fin: "m_used (hdr w 10240) \<noteq> 0"
  defines "w' \<equiv> plug_next (mem_ram w + a) w"
  shows "rep (hdr w') 0 (xs @ (a, False) # merge_next ys) 10240" "blks_ok 10240 (xs @ (a, False) # merge_next ys)"
    "lfree w' = mem_ram w + first_free 10240 (xs @ (a, False) # merge_next ys)"
    "m_used (hdr w' x) = m_used (hdr w x)" "mem_ram w' = mem_ram w" "octet w' = octet w" "pbufs w' = pbufs w"
proof -
  have na: "unat (m_next (hdr w a)) = start 10240 ys" using rep_start [OF rep] by simp
  have ff: "first_free 10240 (xs @ (a, False) # ys) = first_free 10240 (xs @ (a, False) # zs)" for zs
    by (simp add: first_free_append)
  have le: "first_free 10240 (xs @ (a, False) # ys) \<le> a"
    using first_free_cases [of a xs] blks_split(1,8) [OF ok] by (fastforce simp: first_free_append)
  have n: "mem_at w (m_next (mem_hdrs w (mem_ram w + a))) = mem_ram w + start 10240 ys"
    using na by (simp add: mem_hdrs_hdr mem_at_def)
  have keep: "w' = w" if "\<forall>b zs. ys \<noteq> (b, False) # zs"
  proof (cases ys)
    case Nil
    then show ?thesis using n fin by (simp add: w'_def plug_next_def Let_def ram_end_def)
  next
    case (Cons y zs)
    obtain b v where y: "y = (b, v)" by (cases y)
    have "m_used (hdr w b) \<noteq> 0 \<longleftrightarrow> v" using rep by (simp add: rep_append Cons y)
    then show ?thesis using that n by (simp add: w'_def plug_next_def Let_def Cons y mem_hdrs_hdr)
  qed
  consider b zs where "ys = (b, False) # zs" | "\<forall>b zs. ys \<noteq> (b, False) # zs" by blast
  note two = this
  have m: "w' = mem_merge (mem_ram w + a) (mem_ram w + b) w" if ys: "ys = (b, False) # zs" for b zs
  proof -
    have b: "a + 20 \<le> b" "b + 20 \<le> 10240" using ok blks_bounds(1) [of 10240 zs] by (auto simp: ys blks_append)
    have "m_used (hdr w b) = 0" using rep by (simp add: rep_append ys)
    then show ?thesis using b n lf le
      by (simp add: w'_def plug_next_def mem_merge_def Let_def ys mem_hdrs_hdr ram_end_def)
  qed
  from two show "rep (hdr w') 0 (xs @ (a, False) # merge_next ys) 10240" 
    by cases (use rep m keep mem_merge_rep(1) ok in \<open>auto simp: merge_next_def split: list.splits bool.splits\<close>)
  show "blks_ok 10240 (xs @ (a, False) # merge_next ys)"
    using ok by (auto simp: merge_next_def blks_append split: list.splits bool.splits)
  from two show "lfree w' = mem_ram w + first_free 10240 (xs @ (a, False) # merge_next ys)"
    unfolding ff [of "merge_next ys", symmetric] by cases (use lf m keep mem_merge_rep(3) rep ok in simp_all)
  from two show "m_used (hdr w' x) = m_used (hdr w x)" by cases (use m keep mem_merge_rep(4) rep ok in simp_all)
  from two show "mem_ram w' = mem_ram w" by cases (use m keep mem_merge_rep(2) rep ok in simp_all)
  from two show "octet w' = octet w" by cases (use m keep mem_merge_rep(5) rep ok in simp_all)
  from two show "pbufs w' = pbufs w" by cases (use m keep mem_merge_rep(6) rep ok in simp_all)
qed

lemma lst_append: "lst p (xs @ [(a, u)]) = a"
  by (induction xs arbitrary: p) auto

lemma plug_prev_ok:
  assumes rep: "rep (hdr w) 0 (xs @ (a, False) # ys) 10240" and ok: "blks_ok 10240 (xs @ (a, False) # ys)"
    and st: "start 10240 (xs @ (a, False) # ys) = 0"
    and lf: "lfree w = mem_ram w + first_free 10240 (xs @ (a, False) # ys)"
  defines "w' \<equiv> plug_prev (mem_ram w + a) w"
    and "zs \<equiv> (if xs \<noteq> [] \<and> \<not> snd (last xs) then xs else xs @ [(a, False)]) @ ys"
  shows "rep (hdr w') 0 zs 10240" "blks_ok 10240 zs" "lfree w' = mem_ram w + first_free 10240 zs" "start 10240 zs = 0"
    "m_used (hdr w' x) = m_used (hdr w x)" "mem_ram w' = mem_ram w" "octet w' = octet w" "pbufs w' = pbufs w"
proof -
  have pa: "unat (m_prev (hdr w a)) = lst 0 xs" using rep_start [OF rep] by simp
  then have p: "mem_at w (m_prev (mem_hdrs w (mem_ram w + a))) = mem_ram w + lst 0 xs"
    by (simp add: mem_hdrs_hdr mem_at_def)
  have all: "rep (hdr w') 0 zs 10240 \<and> blks_ok 10240 zs \<and> lfree w' = mem_ram w + first_free 10240 zs \<and> start 10240 zs = 0
    \<and> (\<forall>x. m_used (hdr w' x) = m_used (hdr w x)) \<and> mem_ram w' = mem_ram w \<and> octet w' = octet w \<and> pbufs w' = pbufs w"
  proof (cases xs rule: rev_cases)
    case Nil
    then have "w' = w" "zs = xs @ (a, False) # ys" using p st by (simp_all add: w'_def plug_prev_def zs_def Let_def)
    then show ?thesis
      using rep ok st lf by simp
  next
    case (snoc vs y)
    obtain b v where y: "y = (b, v)" by (cases y)
    have hs: "xs @ (a, False) # ys = vs @ (b, v) # (a, False) # ys" by (simp add: snoc y)
    have ub: "m_used (hdr w b) \<noteq> 0 \<longleftrightarrow> v" using rep_start [OF rep [unfolded hs]] by simp
    have l: "lst 0 xs = b" by (simp add: snoc y lst_append)
    have ba: "b < a" using blks_split(1) [OF ok, of b v] by (simp add: snoc y)
    show ?thesis
    proof (cases v)
      case True
      then have "w' = w" "zs = xs @ (a, False) # ys"
        using p l ub by (simp_all add: w'_def plug_prev_def zs_def Let_def mem_hdrs_hdr snoc y)
      then show ?thesis using rep ok st lf by simp
    next
      case False
      have zs: "zs = vs @ (b, False) # ys" using False by (simp add: zs_def snoc y)
      have ff: "first_free 10240 (vs @ (b, False) # (a, False) # ys) = first_free 10240 zs"
        by (simp add: zs first_free_append)
      have "first_free 10240 zs \<le> b"
        using first_free_cases [of b vs] blks_split(1,8) [OF ok [unfolded hs]] by (fastforce simp: zs first_free_append)
      then have "lfree w \<noteq> mem_ram w + a" using lf ba unfolding hs by (simp add: False ff)
      then have w': "w' = mem_merge (mem_ram w + b) (mem_ram w + a) w"
        using p l ub False ba by (simp add: w'_def plug_prev_def mem_merge_def Let_def mem_hdrs_hdr)
      have "blks_ok 10240 zs" using ok blks_split(3) [OF ok] ba unfolding hs by (auto simp: zs blks_append)
      moreover have "start 10240 zs = 0" using st unfolding hs by (simp add: zs)
      ultimately show ?thesis
        using mem_merge_rep [OF rep [unfolded hs] ok [unfolded hs]] lf ff unfolding w' hs by (simp add: False zs)
    qed
  qed
  then show "rep (hdr w') 0 zs 10240" "blks_ok 10240 zs" "lfree w' = mem_ram w + first_free 10240 zs" "start 10240 zs = 0"
    "m_used (hdr w' x) = m_used (hdr w x)" "mem_ram w' = mem_ram w" "octet w' = octet w" "pbufs w' = pbufs w"
    by blast+
qed

lemma coalesced_free:
  assumes "coalesced (xs @ (a, True) # ys)"
  shows "coalesced (free_blk xs a ys)"
proof -
  have xs: "coalesced xs" "coalesced ys" using assms by (simp_all add: coalesced_append coalesced_Cons)
  have m: "coalesced (merge_next ys) \<and> (merge_next ys \<noteq> [] \<longrightarrow> snd (hd (merge_next ys)))"
  proof (cases ys)
    case (Cons b zs)
    then show ?thesis using xs(2) by (cases b; cases "snd b") (auto simp: merge_next_def coalesced_Cons)
  qed (simp add: merge_next_def)
  then show ?thesis using xs by (auto simp: free_blk_def coalesced_append)
qed

lemma mem_free_ok:
  assumes ok: "heap_ok w (xs @ (a, True) # ys)"
  obtains w' where "mem_free (mem_ram w + a + 8) w = Some w'" "heap_ok w' (free_blk xs a ys)"
    "mem_ram w' = mem_ram w" "octet w' = octet w" "pbufs w' = pbufs w"
proof -
  note h = heap_okD [OF ok]
  note sp = blks_split [OF h(3)]
  let ?r = "mem_ram w"
  let ?w1 = "upd_hdr (?r + a) (\<lambda>h. h\<lparr>m_used := 0\<rparr>) w"
  define w2 where "w2 = (if ?r + a < lfree ?w1 then ?w1\<lparr>lfree := ?r + a\<rparr> else ?w1)"
  let ?hs = "xs @ (a, False) # ys"
  have w2: "hdr w2 = (hdr w)(a := (hdr w a)\<lparr>m_used := 0\<rparr>)" "mem_ram w2 = ?r" "octet w2 = octet w" "pbufs w2 = pbufs w"
    by (simp_all add: w2_def)
  have rep: "rep (hdr w2) 0 ?hs 10240" unfolding w2(1) by (rule rep_use [OF h(5,3)]) simp
  have bo: "blks_ok 10240 ?hs" using h(3) by (simp add: blks_append)
  have st: "start 10240 ?hs = 0" using h(2) by simp
  have lf: "lfree w2 = ?r + first_free 10240 ?hs"
  proof -
    have "first_free 10240 ?hs = min a (first_free 10240 (xs @ (a, True) # ys))"
    proof (cases "\<forall>x. (x, False) \<notin> set xs")
      case True
      then have all: "first_free e xs = e" for e by (intro first_free_all) (metis (full_types))
      have "a \<le> first_free 10240 ys" using first_free_cases [OF sp(9)] sp(2,3,4) by fastforce
      then show ?thesis by (simp add: first_free_append all)
    next
      case False
      then obtain x where x: "(x, False) \<in> set xs" by blast
      have "first_free a xs < a" using first_free_cases [OF sp(8)] x sp(1) by fastforce
      moreover have "first_free (first_free 10240 ys) xs = first_free a xs" by (rule first_free_some [OF x])
      ultimately show ?thesis by (simp add: first_free_append)
    qed
    then show ?thesis using h(6) by (auto simp: min_def w2_def)
  qed
  have fin: "m_used (hdr w2 10240) \<noteq> 0" using h(7) sp(3,4) by (simp add: w2(1))
  define w3 where "w3 = plug_next (?r + a) w2"
  have lf': "lfree w2 = mem_ram w2 + first_free 10240 ?hs" using lf w2(2) by simp
  have w3: "w3 = plug_next (mem_ram w2 + a) w2" by (simp add: w3_def w2(2))
  note pn = plug_next_ok [OF rep bo lf' fin, folded w3]
  have st3: "start 10240 (xs @ (a, False) # merge_next ys) = 0" using st by simp
  have r3: "mem_ram w3 = ?r" using pn(5) w2(2) by simp
  have lf3: "lfree w3 = mem_ram w3 + first_free 10240 (xs @ (a, False) # merge_next ys)" using pn(3) r3 w2(2) by simp
  define w4 where "w4 = plug_prev (?r + a) w3"
  have w4: "w4 = plug_prev (mem_ram w3 + a) w3" by (simp add: w4_def r3)
  note pp = plug_prev_ok [OF pn(1,2) st3 lf3, folded w4]
  have na: "unat (m_next (hdr w2 a)) = start 10240 ys" using rep_start [OF rep] by simp
  have used: "m_used (hdr w a) \<noteq> 0" using rep_start [OF h(5)] by simp
  have "mem_free (?r + a + 8) w = Some w4"
  proof -
    have "(?r + a + 8) mod 4 = 0" using sp(5) h(8) by (auto elim!: dvdE)
    moreover have "?r + a + 8 < ram_end w" using sp(3,4) by (simp add: ram_end_def)
    moreover have "plug_holes (?r + a) w2 = Some w4"
      using w2(1,2) na sp(3,4) by (simp add: plug_holes_def ram_end_def mem_hdrs_hdr w3_def w4_def)
    ultimately show ?thesis using used by (simp add: mem_free_def Let_def mem_hdrs_hdr w2_def)
  qed
  moreover have "heap_ok w4 (free_blk xs a ys)"
  proof -
    have "free_blk xs a ys \<noteq> []" by (auto simp: free_blk_def)
    moreover have "m_used (hdr w4 10240) \<noteq> 0" using pp(5) pn(4) fin by simp
    ultimately show ?thesis using pp(1-4,6) r3 coalesced_free [OF h(4)] h(8,9) by (simp add: heap_ok_def free_blk_def)
  qed
  moreover have "mem_ram w4 = mem_ram w" "octet w4 = octet w" "pbufs w4 = pbufs w"
    using pp(6,7,8) pn(6,7) r3 w2(3,4) by simp_all
  ultimately show thesis by (rule that)
qed

section \<open>Initialisation and shrinking\<close>

lemma mem_init_ok:
  assumes "ram_heap \<noteq> 0"
  shows "heap_ok (mem_init ram_heap w) [(0, False)]"
proof -
  let ?r = "LWIP_MEM_ALIGN ram_heap"
  let ?w0 = "w\<lparr>mem_ram := ?r\<rparr>"
  let ?w1 = "upd_hdr ?r (\<lambda>h. h\<lparr>m_next := 10240, m_prev := 0, m_used := 0\<rparr>) ?w0"
  let ?w2 = "upd_hdr (?r + 10240) (\<lambda>h. h\<lparr>m_used := 1, m_next := 10240, m_prev := 10240\<rparr>) ?w1"
  have "mem_init ram_heap w = ?w2\<lparr>lfree := ?r\<rparr>" by (simp add: mem_init_def Let_def ram_end_def)
  moreover have "hdr ?w1 = (hdr ?w0)(0 := (hdr ?w0 0)\<lparr>m_next := 10240, m_prev := 0, m_used := 0\<rparr>)"
    using hdr_upd [of ?w0 ?r 0] by simp
  moreover have "hdr ?w2 = (hdr ?w1)(10240 := (hdr ?w1 10240)\<lparr>m_used := 1, m_next := 10240, m_prev := 10240\<rparr>)"
    by (rule hdr_upd) simp
  moreover have "4 dvd ?r" "?r \<noteq> 0" using assms by (simp_all add: LWIP_MEM_ALIGN_def div_eq_0_iff)
  ultimately show ?thesis by (simp add: heap_ok_def)
qed

definition trim_blk :: "blk list \<Rightarrow> nat \<Rightarrow> nat \<Rightarrow> blk list \<Rightarrow> blk list" where
  "trim_blk xs a n ys =
     (if a + 8 + n = start 10240 ys then xs @ (a, True) # ys
      else case ys of
             (b, False) # zs \<Rightarrow> xs @ (a, True) # (a + 8 + n, False) # zs
           | _ \<Rightarrow> if a + 28 + n \<le> start 10240 ys then xs @ (a, True) # (a + 8 + n, False) # ys else xs @ (a, True) # ys)"

lemma first_free_used: "first_free e (xs @ (a, True) # ys) = first_free (first_free e ys) xs"
  by (simp add: first_free_append)

lemma first_free_bound:
  assumes "blks_ok 10240 (xs @ (a, u) # ys)"
  shows "(\<forall>e. first_free e xs = e) \<or> (\<exists>x<a. \<forall>e. first_free e xs = x)"
proof (cases "\<forall>x. (x, False) \<notin> set xs")
  case True
  then show ?thesis using first_free_all [of xs] by (metis (full_types))
next
  case False
  then obtain x where x: "(x, False) \<in> set xs" by blast
  have "first_free a xs < a"
    using first_free_cases [OF blks_split(8) [OF assms]] x blks_split(1) [OF assms] by fastforce
  moreover have "first_free e xs = first_free a xs" for e by (rule first_free_some [OF x])
  ultimately show ?thesis by blast
qed

lemma mem_trim_eq:
  assumes ok: "heap_ok w (xs @ (a, True) # ys)" and sz: "unat sz \<le> 65532"
    and fits: "a + 8 + unat (mem_round sz) \<le> start 10240 ys"
  defines "c \<equiv> a + 8 + unat (mem_round sz)" and "e \<equiv> start 10240 ys" and "r \<equiv> mem_ram w" and "p \<equiv> mem_off w (mem_ram w + a)"
  shows "unat p = a" "unat (p + 8 + mem_round sz) = c" "unat (m_next (hdr w a)) = e"
    "mem_trim (r + a + 8) sz w = Some (r + a + 8,
       if c = e then w
       else if m_used (hdr w e) = 0
       then mem_split p (p + 8 + mem_round sz) (m_next (hdr w e)) (if lfree w = r + e then w\<lparr>lfree := r + c\<rparr> else w)
       else if c + 20 \<le> e
       then mem_split p (p + 8 + mem_round sz) (m_next (hdr w a)) (if r + c < lfree w then w\<lparr>lfree := r + c\<rparr> else w)
       else w)"
proof -
  note h = heap_okD [OF ok]
  note sp = blks_split [OF h(3)]
  let ?n = "unat (mem_round sz)"
  show a: "unat p = a" unfolding p_def using sp(3,4) by (intro mem_off_at) simp
  show c: "unat (p + 8 + mem_round sz) = c" using fits sp(4) a by (simp add: unat_word_ariths c_def)
  show nx: "unat (m_next (hdr w a)) = e" using rep_start [OF h(5)] by (simp add: e_def)
  have size: "unat (m_next (hdr w a) - p - 8) = e - a - 8"
  proof -
    have 1: "unat (m_next (hdr w a) - p) = e - a"
      using unat_sub [of p "m_next (hdr w a)"] a nx sp(3) by (simp add: word_le_nat_alt e_def)
    then have "unat (m_next (hdr w a) - p - 8) = unat (m_next (hdr w a) - p) - unat (8 :: u16)"
      using sp(3) by (intro unat_sub) (simp add: word_le_nat_alt e_def)
    then show ?thesis using 1 by simp
  qed
  have rng: "r + a + 8 < ram_end w" using sp(3,4) by (simp add: ram_end_def r_def)
  have at: "mem_at w (p + 8 + mem_round sz) = r + c" "mem_at w (m_next (hdr w a)) = r + e"
    using c nx by (simp_all add: mem_at_def r_def)
  have gt: "\<not> mem_round sz > m_next (hdr w a) - p - 8"
    unfolding word_less_nat_alt size using fits by (simp add: e_def)
  have eq: "mem_round sz = m_next (hdr w a) - p - 8 \<longleftrightarrow> c = e"
    unfolding word_unat_eq_iff size using fits sp(3) by (auto simp: e_def c_def)
  have n10: "\<not> ?n > 10240" using fits sp(4) by simp
  have room: "?n + 8 + 12 \<le> e - a - 8 \<longleftrightarrow> c + 20 \<le> e" using sp(3) by (auto simp: c_def e_def)
  have m: "mem_hdrs w (r + x) = hdr w x" for x by (simp add: r_def hdr_def)
  have ge: "r \<le> r + a + 8" "r + a + 8 - 8 = r + a" by simp_all
  have off: "mem_off w (r + a) = p" by (simp add: r_def p_def)
  show "mem_trim (r + a + 8) sz w = Some (r + a + 8,
       if c = e then w
       else if m_used (hdr w e) = 0
       then mem_split p (p + 8 + mem_round sz) (m_next (hdr w e)) (if lfree w = r + e then w\<lparr>lfree := r + c\<rparr> else w)
       else if c + 20 \<le> e
       then mem_split p (p + 8 + mem_round sz) (m_next (hdr w a)) (if r + c < lfree w then w\<lparr>lfree := r + c\<rparr> else w)
       else w)"
    unfolding mem_trim_def Let_def ge(2) m off at eq size room
    using n10 rng gt ge(1) by (simp add: m r_def [symmetric])
qed

lemma trim_state:
  assumes ok: "heap_ok w (xs @ (a, True) # ys)" and c: "a + 20 \<le> c" "c + 20 \<le> start 10240 zs" "4 dvd c"
    and w: "unat pc = c" "unat pa = a" "unat nx = start 10240 zs" and ys: "ys = vs @ zs" "\<forall>(b, v)\<in>set vs. \<not> v \<and> c \<le> b"
    and co: "coalesced ((c, False) # zs)"
    and w1: "hdr w1 = hdr w" "mem_ram w1 = mem_ram w" "octet w1 = octet w" "pbufs w1 = pbufs w"
      "lfree w1 = mem_ram w + first_free 10240 (xs @ (a, True) # (c, False) # zs)"
  defines "w' \<equiv> mem_split pa pc nx w1"
  shows "heap_ok w' (xs @ (a, True) # (c, False) # zs)" "mem_ram w' = mem_ram w" "octet w' = octet w" "pbufs w' = pbufs w"
proof -
  note h = heap_okD [OF ok]
  have "rep (hdr w1) 0 (xs @ (a, True) # ys) 10240" using h(5) w1(1) by simp
  note sr = mem_split_rep [OF this h(3) c(1,2) w ys(1), folded w'_def]
  have st: "start a xs = 0" using h(2) by simp
  have "blks_ok 10240 (xs @ (a, True) # (c, False) # zs)"
    using h(3) c by (simp add: blks_append ys(1))
  moreover have "coalesced (xs @ (a, True) # (c, False) # zs)"
    using h(4) co by (simp add: coalesced_append coalesced_Cons)
  ultimately show "heap_ok w' (xs @ (a, True) # (c, False) # zs)"
    using sr(1-4) w1 st h(7,8,9) by (simp add: heap_ok_def)
  show "mem_ram w' = mem_ram w" "octet w' = octet w" "pbufs w' = pbufs w" using sr(2,5,6) w1 by simp_all
qed

lemma mem_trim_ok:
  assumes ok: "heap_ok w (xs @ (a, True) # ys)" and sz: "unat sz \<le> 65532"
    and fits: "a + 8 + unat (mem_round sz) \<le> start 10240 ys"
  obtains w' where "mem_trim (mem_ram w + a + 8) sz w = Some (mem_ram w + a + 8, w')"
    "heap_ok w' (trim_blk xs a (unat (mem_round sz)) ys)" "mem_ram w' = mem_ram w" "octet w' = octet w" "pbufs w' = pbufs w"
proof -
  note h = heap_okD [OF ok]
  note sp = blks_split [OF h(3)]
  note eq = mem_trim_eq [OF ok sz fits]
  let ?n = "unat (mem_round sz)" and ?c = "a + 8 + unat (mem_round sz)" and ?e = "start 10240 ys"
  have n: "12 \<le> ?n" "4 dvd ?n" using round_props [OF sz] by simp_all
  have c4: "4 dvd ?c" "a + 20 \<le> ?c" using n sp(5) by simp_all
  consider "?c = ?e" | b zs where "?c < ?e" "ys = (b, False) # zs" | "?c < ?e" "\<forall>b zs. ys \<noteq> (b, False) # zs"
    using fits by fastforce
  then show thesis
  proof cases
    case 1
    then show ?thesis using that ok eq(4) by (simp add: trim_blk_def)
  next
    case 2
    define w1 where "w1 = (if lfree w = mem_ram w + b then w\<lparr>lfree := mem_ram w + ?c\<rparr> else w)"
    let ?w' = "mem_split (mem_off w (mem_ram w + a)) (mem_off w (mem_ram w + a) + 8 + mem_round sz) (m_next (hdr w b)) w1"
    let ?hs = "xs @ (a, True) # (?c, False) # zs"
    have b: "b = ?e" "m_used (hdr w ?e) = 0" "unat (m_next (hdr w b)) = start 10240 zs" "b + 20 \<le> start 10240 zs"
      using h(3,5) by (simp_all add: 2 rep_append blks_append)
    have lf: "lfree w1 = mem_ram w + first_free 10240 ?hs"
      using h(6) first_free_bound [OF h(3)] 2 by (auto simp: first_free_used w1_def)
    have co: "coalesced ((?c, False) # zs)" using h(4) by (simp add: 2 coalesced_append coalesced_Cons)
    have w1: "hdr w1 = hdr w" "mem_ram w1 = mem_ram w" "octet w1 = octet w" "pbufs w1 = pbufs w" by (simp_all add: w1_def)
    have cz: "?c + 20 \<le> start 10240 zs" "ys = [(b, False)] @ zs" "\<forall>(b', v)\<in>set [(b, False)]. \<not> v \<and> ?c \<le> b'"
      using 2 b(4) by simp_all
    note ts = trim_state [OF ok c4(2) cz(1) c4(1) eq(2,1) b(3) cz(2,3) co w1 lf]
    have tb: "trim_blk xs a ?n ys = ?hs" using 2 by (simp add: trim_blk_def)
    have "?c \<noteq> ?e" using 2(1) by simp
    then have "mem_trim (mem_ram w + a + 8) sz w = Some (mem_ram w + a + 8, ?w')"
      using b(2) unfolding eq(4) w1_def b(1) by (simp only: if_False if_True simp_thms)
    then show ?thesis by (rule that) (use ts tb in simp_all)
  next
    case 3
    have nu: "m_used (hdr w ?e) \<noteq> 0"
    proof (cases ys)
      case Nil
      then show ?thesis using h(7) by simp
    next
      case (Cons y zs)
      then show ?thesis using h(5) 3 by (cases y; cases "snd y") (auto simp: rep_append)
    qed
    have tb: "trim_blk xs a ?n ys = (if ?c + 20 \<le> ?e then xs @ (a, True) # (?c, False) # ys else xs @ (a, True) # ys)"
      using 3 by (auto simp: trim_blk_def split: list.splits bool.splits)
    show ?thesis
    proof (cases "?c + 20 \<le> ?e")
      case False
      then show ?thesis using that ok eq(4) 3 nu tb by simp
    next
      case True
      define w1 where "w1 = (if mem_ram w + ?c < lfree w then w\<lparr>lfree := mem_ram w + ?c\<rparr> else w)"
      let ?w' = "mem_split (mem_off w (mem_ram w + a)) (mem_off w (mem_ram w + a) + 8 + mem_round sz) (m_next (hdr w a)) w1"
      let ?hs = "xs @ (a, True) # (?c, False) # ys"
      have "?e \<le> first_free 10240 ys" using first_free_cases [OF sp(9)] sp(2,4) by fastforce
      then have lf: "lfree w1 = mem_ram w + first_free 10240 ?hs"
        using h(6) first_free_bound [OF h(3)] 3 n by (auto simp: first_free_used w1_def)
      have co: "coalesced ((?c, False) # ys)" using h(4) 3
        by (cases ys) (auto simp: coalesced_append coalesced_Cons)
      have w1: "hdr w1 = hdr w" "mem_ram w1 = mem_ram w" "octet w1 = octet w" "pbufs w1 = pbufs w" by (simp_all add: w1_def)
      have cz: "ys = [] @ ys" "\<forall>(b', v)\<in>set []. \<not> v \<and> ?c \<le> b'" by simp_all
      note ts = trim_state [OF ok c4(2) True c4(1) eq(2,1,3) cz co w1 lf]
      have "?c \<noteq> ?e" using 3(1) by simp
      then have "mem_trim (mem_ram w + a + 8) sz w = Some (mem_ram w + a + 8, ?w')"
        using nu True unfolding eq(4) w1_def by (simp only: if_False if_True simp_thms)
      then show ?thesis by (rule that) (use ts tb True in simp_all)
    qed
  qed
qed

end
