(* ===== verification/Heap_Props.thy ===== *)
theory Heap_Props
  imports Heap_Inv Inet_Chksum_Props
begin

text \<open>
  What the heap of lwIP promises its users: \<open>heap_inv\<close>, the blocks in use \<open>live\<close>, and the
  interface \<open>allocator\<close> with its interpretation on \<open>mem_malloc\<close> and \<open>mem_free\<close>.
\<close>

section \<open>The interface of an allocator\<close>

locale allocator =
  fixes ok :: "'s \<Rightarrow> bool"
    and used :: "'s \<Rightarrow> (ptr \<times> nat) set"
    and limit :: nat
    and alloc :: "nat \<Rightarrow> 's \<Rightarrow> ptr \<times> 's"
    and release :: "ptr \<Rightarrow> 's \<Rightarrow> 's"
  assumes disjoint: "ok s \<Longrightarrow> (p, n) \<in> used s \<Longrightarrow> (q, k) \<in> used s \<Longrightarrow> (p, n) = (q, k) \<or> p + n \<le> q \<or> q + k \<le> p"
    and size_pos: "ok s \<Longrightarrow> (p, n) \<in> used s \<Longrightarrow> 0 < n \<and> p \<noteq> NULL"
    and alloc_fail: "ok s \<Longrightarrow> 0 < n \<Longrightarrow> n \<le> limit \<Longrightarrow> fst (alloc n s) = NULL \<Longrightarrow> snd (alloc n s) = s"
    and alloc: "ok s \<Longrightarrow> 0 < n \<Longrightarrow> n \<le> limit \<Longrightarrow> fst (alloc n s) \<noteq> NULL \<Longrightarrow> ok (snd (alloc n s))
      \<and> (\<exists>k\<ge>n. used (snd (alloc n s)) = insert (fst (alloc n s), k) (used s) \<and> (fst (alloc n s), k) \<notin> used s)"
    and release: "ok s \<Longrightarrow> (p, n) \<in> used s \<Longrightarrow> ok (release p s) \<and> used (release p s) = used s - {(p, n)}"
begin

lemma alloc_release:
  assumes "ok s" "0 < n" "n \<le> limit" "fst (alloc n s) \<noteq> NULL"
  shows "ok (release (fst (alloc n s)) (snd (alloc n s)))" "used (release (fst (alloc n s)) (snd (alloc n s))) = used s"
proof -
  obtain k where k: "ok (snd (alloc n s))" "used (snd (alloc n s)) = insert (fst (alloc n s), k) (used s)"
    "(fst (alloc n s), k) \<notin> used s" using alloc [OF assms] by blast
  then show "ok (release (fst (alloc n s)) (snd (alloc n s)))" "used (release (fst (alloc n s)) (snd (alloc n s))) = used s"
    using release [OF k(1), of "fst (alloc n s)" k] by auto
qed

lemma used_inj: "ok s \<Longrightarrow> (p, n) \<in> used s \<Longrightarrow> (p, k) \<in> used s \<Longrightarrow> n = k"
  using disjoint [of s p n p k] size_pos [of s p n] size_pos [of s p k] by auto

text \<open>Releasing a list of distinct blocks in any order leaves exactly the others.\<close>

lemma release_all:
  "ok s \<Longrightarrow> set bs \<subseteq> used s \<Longrightarrow> distinct bs \<Longrightarrow>
    ok (fold (\<lambda>b. release (fst b)) bs s) \<and> used (fold (\<lambda>b. release (fst b)) bs s) = used s - set bs"
proof (induction bs arbitrary: s)
  case (Cons b bs)
  obtain p n where b: "b = (p, n)" by (cases b)
  then have r: "ok (release p s)" "used (release p s) = used s - {(p, n)}"
    using release [of s p n] Cons.prems by auto
  then show ?case using Cons.IH [of "release p s"] Cons.prems b by auto
qed simp

end

section \<open>The blocks of the heap\<close>

fun walk :: "(nat \<Rightarrow> mem_hdr) \<Rightarrow> nat \<Rightarrow> nat \<Rightarrow> blk list" where
  "walk h 0 a = []"
| "walk h (Suc k) a = (if a \<ge> 10240 then [] else (a, m_used (h a) \<noteq> 0) # walk h k (unat (m_next (h a))))"

definition heap_blocks :: "lw \<Rightarrow> blk list" where
  "heap_blocks w = walk (hdr w) 600 0"

definition heap_inv :: "lw \<Rightarrow> bool" where
  "heap_inv w \<longleftrightarrow> heap_ok w (heap_blocks w)"

fun allocs :: "nat \<Rightarrow> blk list \<Rightarrow> (nat \<times> nat) list" where
  "allocs e [] = []"
| "allocs e ((a, u) # hs) = (if u then [(a + 8, start e hs - a - 8)] else []) @ allocs e hs"

definition live :: "lw \<Rightarrow> (ptr \<times> nat) set" where
  "live w = (\<lambda>(a, n). (mem_ram w + a, n)) ` set (allocs 10240 (heap_blocks w))"

text \<open>The sizes of the free blocks.\<close>

fun frees :: "nat \<Rightarrow> blk list \<Rightarrow> nat list" where
  "frees e [] = []"
| "frees e ((a, u) # hs) = (if u then [] else [start e hs - a - 8]) @ frees e hs"

lemma walk_rep:
  "rep h p hs 10240 \<Longrightarrow> blks_ok 10240 hs \<Longrightarrow> length hs < k \<Longrightarrow> walk h k (start 10240 hs) = hs"
proof (induction hs arbitrary: p k)
  case Nil
  then show ?case by (cases k) auto
next
  case (Cons b hs)
  obtain a u where b: "b = (a, u)" by (cases b)
  obtain j where k: "k = Suc j" using Cons.prems by (cases k) auto
  have "a < 10240" using Cons.prems(2) b blks_bounds(1) [of 10240 hs] by auto
  then show ?case using Cons b k by auto
qed

lemma blks_length: "blks_ok e hs \<Longrightarrow> start e hs + 20 * length hs \<le> e"
proof (induction hs)
  case (Cons b hs)
  then show ?case by (cases b) auto
qed simp

lemma heap_blocks: "heap_ok w hs \<Longrightarrow> heap_blocks w = hs"
proof -
  assume ok: "heap_ok w hs"
  note h = heap_okD [OF ok]
  have "length hs < 600" using blks_length [OF h(3)] by simp
  then show ?thesis using walk_rep [OF h(5,3), of 600] h(2) by (simp add: heap_blocks_def)
qed

lemma heap_invI: "heap_ok w hs \<Longrightarrow> heap_inv w"
  using heap_blocks by (simp add: heap_inv_def)

lemma allocs_append: "allocs e (xs @ ys) = allocs (start e ys) xs @ allocs e ys"
  by (induction xs rule: allocs.induct) auto

lemma allocs_end: "xs \<noteq> [] \<Longrightarrow> \<not> snd (last xs) \<Longrightarrow> allocs e xs = allocs e' xs"
  by (induction xs rule: allocs.induct) (auto split: if_splits, (metis start.simps(2) list.exhaust surj_pair)+)

lemma allocs_bounds:
  "blks_ok e hs \<Longrightarrow> (p, n) \<in> set (allocs e hs) \<Longrightarrow> start e hs + 8 \<le> p \<and> p + n \<le> e \<and> 12 \<le> n \<and> 4 dvd p"
proof (induction hs)
  case (Cons b hs)
  obtain a u where b: "b = (a, u)" by (cases b)
  have "start e hs \<le> e" using Cons.prems b blks_bounds(1) by auto
  then show ?case using Cons b by (auto split: if_splits)
qed simp

lemma allocs_disjoint:
  "blks_ok e hs \<Longrightarrow> (p, n) \<in> set (allocs e hs) \<Longrightarrow> (q, k) \<in> set (allocs e hs) \<Longrightarrow> (p, n) = (q, k) \<or> p + n \<le> q \<or> q + k \<le> p"
proof (induction hs)
  case (Cons b hs)
  obtain a u where b: "b = (a, u)" by (cases b)
  then have hs: "blks_ok e hs" using Cons.prems by simp
  note bd = allocs_bounds [OF hs]
  show ?case using Cons.IH [OF hs] Cons.prems(1,2,3) b bd [of p n] bd [of q k] by (auto split: if_splits)
qed simp

lemma live_ok: "heap_ok w hs \<Longrightarrow> live w = (\<lambda>(a, n). (mem_ram w + a, n)) ` set (allocs 10240 hs)"
  by (simp add: live_def heap_blocks)

text \<open>What a successful request does to the blocks in use.\<close>

lemma allocs_take:
  assumes ok: "blks_ok 10240 (xs @ (a, False) # ys)" and room: "a + 8 + n \<le> start 10240 ys"
  obtains k where "n \<le> k" "a + 8 + k \<le> start 10240 ys"
    "set (allocs 10240 (take_blk xs a n ys)) = insert (a + 8, k) (set (allocs 10240 (xs @ (a, False) # ys)))"
proof -
  let ?k = "if a + 28 + n \<le> start 10240 ys then n else start 10240 ys - a - 8"
  have "set (allocs 10240 (take_blk xs a n ys)) = insert (a + 8, ?k) (set (allocs 10240 (xs @ (a, False) # ys)))"
    by (auto simp: take_blk_def allocs_append)
  moreover have "n \<le> ?k" "a + 8 + ?k \<le> start 10240 ys" using room by auto
  ultimately show thesis by (rule that [rotated 2])
qed

lemma allocs_free:
  assumes ok: "blks_ok 10240 (xs @ (a, True) # ys)"
  shows "set (allocs 10240 (free_blk xs a ys)) = set (allocs 10240 (xs @ (a, True) # ys)) - {(a + 8, start 10240 ys - a - 8)}"
proof -
  note sp = blks_split [OF ok]
  have m: "allocs 10240 (merge_next ys) = allocs 10240 ys" by (auto simp: merge_next_def split: list.splits bool.splits)
  have f: "set (allocs 10240 (free_blk xs a ys)) = set (allocs a xs) \<union> set (allocs 10240 ys)"
  proof (cases "xs \<noteq> [] \<and> \<not> snd (last xs)")
    case True
    then have "allocs (start 10240 (merge_next ys)) xs = allocs a xs" using allocs_end by blast
    then show ?thesis using True by (simp add: free_blk_def allocs_append m)
  next
    case False
    then show ?thesis by (auto simp: free_blk_def allocs_append m)
  qed
  have "(a + 8, k) \<notin> set (allocs a xs) \<union> set (allocs 10240 ys)" for k
    using allocs_bounds [OF sp(8), of "a + 8" k] allocs_bounds [OF sp(9), of "a + 8" k] sp(3) by auto
  then show ?thesis unfolding f by (auto simp: allocs_append)
qed

lemma frees_split: "n \<in> set (frees e hs) \<Longrightarrow> \<exists>xs a ys. hs = xs @ (a, False) # ys \<and> n = start e ys - a - 8"
proof (induction hs)
  case (Cons b hs)
  obtain a u where b: "b = (a, u)" by (cases b)
  show ?case
  proof (cases "n \<in> set (frees e hs)")
    case True
    then show ?thesis using Cons.IH by (metis append_Cons)
  next
    case False
    then show ?thesis using Cons.prems b by (intro exI [of _ "[]"]) (auto split: if_splits)
  qed
qed simp

lemma malloc_cases:
  assumes inv: "heap_inv w" and sz: "sz \<noteq> 0" "unat sz \<le> 65532"
  obtains "mem_malloc sz w = Some (NULL, w)" "\<forall>n\<in>set (frees 10240 (heap_blocks w)). n < unat (mem_round sz)"
  | p n w' where "mem_malloc sz w = Some (p, w')" "p \<noteq> NULL" "heap_inv w'" "unat sz \<le> n" "4 dvd p"
      "live w' = insert (p, n) (live w)" "(p, n) \<notin> live w" "mem_ram w + 8 \<le> p" "p + n \<le> ram_end w"
      "mem_ram w' = mem_ram w" "octet w' = octet w" "pbufs w' = pbufs w"
proof (cases "find_fit (unat (mem_round sz)) (heap_blocks w)")
  case None
  have "\<forall>n\<in>set (frees 10240 (heap_blocks w)). n < unat (mem_round sz)"
  proof
    fix n assume "n \<in> set (frees 10240 (heap_blocks w))"
    then obtain xs a ys where "heap_blocks w = xs @ (a, False) # ys" "n = start 10240 ys - a - 8"
      using frees_split by blast
    then show "n < unat (mem_round sz)"
      using find_fit_None [of "unat (mem_round sz)" xs a ys] None round_props [OF sz(2)] by fastforce
  qed
  with mem_malloc_none [OF inv [unfolded heap_inv_def] sz(2) None] that(1) show thesis by blast
next
  case (Some a)
  let ?n = "unat (mem_round sz)"
  note ok = inv [unfolded heap_inv_def]
  note h = heap_okD [OF ok]
  obtain xs ys where hs: "heap_blocks w = xs @ (a, False) # ys" "a + 8 + ?n \<le> start 10240 ys"
    using find_fit_Some [OF Some] by blast
  note sp = blks_split [OF h(3) [unfolded hs(1)]]
  have "(unat sz + 3) div 4 * 4 \<le> 10240" using hs(2) sp(4) unat_round [OF sz(2)] by simp
  then have sz': "unat sz \<le> 10240" by linarith
  obtain w' where w': "mem_malloc sz w = Some (mem_ram w + a + 8, w')" "heap_ok w' (take_blk xs a ?n ys)"
    "mem_ram w' = mem_ram w" "octet w' = octet w" "pbufs w' = pbufs w"
    by (rule mem_malloc_take [OF ok sz(1) sz' Some hs])
  obtain k where k: "?n \<le> k" "a + 8 + k \<le> start 10240 ys"
    "set (allocs 10240 (take_blk xs a ?n ys)) = insert (a + 8, k) (set (allocs 10240 (xs @ (a, False) # ys)))"
    by (rule allocs_take [OF h(3) [unfolded hs(1)] hs(2)])
  have "(a + 8, k) \<notin> set (allocs 10240 (xs @ (a, False) # ys))"
    using allocs_bounds [OF sp(8), of "a + 8" k] allocs_bounds [OF sp(9), of "a + 8" k] sp(3) by (auto simp: allocs_append)
  then have "live w' = insert (mem_ram w + a + 8, k) (live w)" "(mem_ram w + a + 8, k) \<notin> live w"
    using live_ok [OF w'(2)] live_ok [OF ok] k(3) w'(3) by (auto simp: hs(1) add.assoc)
  moreover have "unat sz \<le> k" "4 dvd mem_ram w + a + 8" using round_props [OF sz(2)] k(1) h(8) sp(5) by auto
  ultimately show thesis using that(2) w' heap_invI [OF w'(2)] k(2) sp(4) by (simp add: ram_end_def)
qed

lemma live_split:
  assumes "heap_ok w hs" "(p, n) \<in> live w"
  obtains xs a ys where "hs = xs @ (a, True) # ys" "p = mem_ram w + a + 8" "n = start 10240 ys - a - 8"
proof -
  have "\<exists>xs a ys. hs = xs @ (a, True) # ys \<and> x = a + 8 \<and> n = start e ys - a - 8" if "(x, n) \<in> set (allocs e hs)" for x e
    using that
  proof (induction hs)
    case (Cons b hs)
    obtain a u where b: "b = (a, u)" by (cases b)
    show ?case
    proof (cases "(x, n) \<in> set (allocs e hs)")
      case True
      then show ?thesis using Cons.IH by (metis append_Cons)
    next
      case False
      then show ?thesis using Cons.prems b by (intro exI [of _ "[]"]) (auto split: if_splits)
    qed
  qed simp
  then show thesis using assms(2) that by (fastforce simp: live_ok [OF assms(1)])
qed

lemma free_live:
  assumes inv: "heap_inv w" and p: "(p, n) \<in> live w"
  obtains w' where "mem_free p w = Some w'" "heap_inv w'" "live w' = live w - {(p, n)}"
    "mem_ram w' = mem_ram w" "octet w' = octet w" "pbufs w' = pbufs w"
proof -
  note ok = inv [unfolded heap_inv_def]
  obtain xs a ys where s: "heap_blocks w = xs @ (a, True) # ys" "p = mem_ram w + a + 8" "n = start 10240 ys - a - 8"
    by (rule live_split [OF ok p])
  obtain w' where w': "mem_free p w = Some w'" "heap_ok w' (free_blk xs a ys)" "mem_ram w' = mem_ram w"
    "octet w' = octet w" "pbufs w' = pbufs w"
    using mem_free_ok [of w xs a ys] ok s(1,2) by metis
  have "live w' = live w - {(p, n)}"
    using live_ok [OF w'(2)] live_ok [OF ok] allocs_free [of xs a ys] heap_okD(3) [OF ok] w'(3) s by auto
  then show thesis using that w' heap_invI [OF w'(2)] by blast
qed

section \<open>Interpretation\<close>

definition heap_alloc :: "nat \<Rightarrow> lw \<Rightarrow> ptr \<times> lw" where
  "heap_alloc n w = (case mem_malloc (word_of_nat n) w of Some r \<Rightarrow> r | None \<Rightarrow> (NULL, w))"

definition heap_release :: "ptr \<Rightarrow> lw \<Rightarrow> lw" where
  "heap_release p w = (case mem_free p w of Some w' \<Rightarrow> w' | None \<Rightarrow> w)"

interpretation heap: allocator heap_inv live 65532 heap_alloc heap_release
proof unfold_locales
  fix w :: lw and p q :: ptr and n k :: nat
  assume inv: "heap_inv w"
  note ok = inv [unfolded heap_inv_def]
  note h = heap_okD [OF ok]
  show "(p, n) = (q, k) \<or> p + n \<le> q \<or> q + k \<le> p" if "(p, n) \<in> live w" "(q, k) \<in> live w"
    using that allocs_disjoint [OF h(3)] by (fastforce simp: live_ok [OF ok])
  show "0 < n \<and> p \<noteq> NULL" if "(p, n) \<in> live w"
    using that allocs_bounds [OF h(3)] by (fastforce simp: live_ok [OF ok])
  show "heap_inv (heap_release p w) \<and> live (heap_release p w) = live w - {(p, n)}" if "(p, n) \<in> live w"
    by (rule free_live [OF inv that]) (simp add: heap_release_def)
  assume n: "0 < n" "n \<le> 65532"
  then have u: "unat (word_of_nat n :: u16) = n" by (simp add: unsigned_of_nat take_bit_nat_eq_self)
  then have sz: "(word_of_nat n :: u16) \<noteq> 0" "unat (word_of_nat n :: u16) \<le> 65532" using n by auto
  show "fst (heap_alloc n w) = NULL \<Longrightarrow> snd (heap_alloc n w) = w"
    using malloc_cases [OF inv sz] by (force simp: heap_alloc_def)
  show "fst (heap_alloc n w) \<noteq> NULL \<Longrightarrow> heap_inv (snd (heap_alloc n w))
     \<and> (\<exists>k\<ge>n. live (snd (heap_alloc n w)) = insert (fst (heap_alloc n w), k) (live w) \<and> (fst (heap_alloc n w), k) \<notin> live w)"
    by (rule malloc_cases [OF inv sz]) (auto simp: heap_alloc_def u)
qed

section \<open>Properties\<close>

definition demo_heap :: lw where
  "demo_heap = mem_init 0x20005000 demo_lw"

lemma demo_heap: "heap_ok demo_heap [(0, False)]" "heap_inv demo_heap" "live demo_heap = {}"
proof -
  show ok: "heap_ok demo_heap [(0, False)]" unfolding demo_heap_def by (rule mem_init_ok) simp
  then show "heap_inv demo_heap" by (rule heap_invI)
  show "live demo_heap = {}" by (simp add: live_ok [OF ok])
qed

text \<open>
  C21: a request of 1 to 65532 bytes to a heap in order ends. It returns NULL and changes
  nothing only if every free block is too small for the rounded size. Otherwise it returns an
  aligned address inside the heap, of a block of at least that size that overlaps none of
  those in use, and the heap is in order with exactly this block more in use.
\<close>

theorem mem_malloc_spec:
  assumes "heap_inv w" "sz \<noteq> 0" "unat sz \<le> 65532"
  shows "(mem_malloc sz w = Some (NULL, w) \<and> (\<forall>n\<in>set (frees 10240 (heap_blocks w)). n < unat (mem_round sz)))
    \<or> (\<exists>p n w'. mem_malloc sz w = Some (p, w') \<and> p \<noteq> NULL \<and> heap_inv w' \<and> unat sz \<le> n \<and> 4 dvd p
        \<and> live w' = insert (p, n) (live w) \<and> mem_ram w + 8 \<le> p \<and> p + n \<le> ram_end w
        \<and> (\<forall>(q, k)\<in>live w. p + n \<le> q \<or> q + k \<le> p))"
proof (rule malloc_cases [OF assms])
  fix p n w'
  assume a: "mem_malloc sz w = Some (p, w')" "p \<noteq> NULL" "heap_inv w'" "unat sz \<le> n" "4 dvd p"
      "live w' = insert (p, n) (live w)" "(p, n) \<notin> live w" "mem_ram w + 8 \<le> p" "p + n \<le> ram_end w"
  have "p + n \<le> q \<or> q + k \<le> p" if "(q, k) \<in> live w" for q k
    using heap.disjoint [OF a(3), of p n q k] that a(6,7) by auto
  with a show ?thesis by blast
qed blast

lemma mem_malloc_spec_witness: "\<exists>p n w'. mem_malloc 100 demo_heap = Some (p, w') \<and> live w' = {(p, n)} \<and> 100 \<le> n"
proof -
  have "mem_round 100 = 100" by code_simp
  then have "\<not> (\<forall>n\<in>set (frees 10240 (heap_blocks demo_heap)). n < unat (mem_round 100))"
    by (simp add: heap_blocks [OF demo_heap(1)])
  then show ?thesis using mem_malloc_spec [OF demo_heap(2), of 100] demo_heap(3) by auto
qed

definition mem_free_all :: "(ptr \<times> nat) list \<Rightarrow> lw \<Rightarrow> lw option" where
  "mem_free_all bs w = fold (\<lambda>b r. Option.bind r (mem_free (fst b))) bs (Some w)"

text \<open>
  C22: freeing all blocks in use, in any order, always ends without a failed assertion and
  leaves one free block that is the whole heap: no space is lost to fragmentation or headers.
\<close>

theorem mem_free_all_whole:
  assumes "heap_inv w" "set bs = live w" "distinct bs"
  shows "\<exists>w'. mem_free_all bs w = Some w' \<and> heap_inv w' \<and> heap_blocks w' = [(0, False)]"
proof -
  have run: "mem_free_all bs v = Some (fold (\<lambda>b. heap_release (fst b)) bs v)"
    if "heap_inv v" "set bs \<subseteq> live v" "distinct bs" for v bs
    using that
  proof (induction bs arbitrary: v)
    case (Cons b bs)
    obtain p n where b: "b = (p, n)" by (cases b)
    obtain v' where v': "mem_free p v = Some v'" "heap_inv v'" "live v' = live v - {(p, n)}"
      by (rule free_live [OF Cons.prems(1), of p n]) (use Cons.prems(2) b in auto)
    then show ?case using Cons.IH [of v'] Cons.prems b by (auto simp: mem_free_all_def heap_release_def)
  qed (simp add: mem_free_all_def)
  let ?w = "fold (\<lambda>b. heap_release (fst b)) bs w"
  have r: "heap_inv ?w" "live ?w = {}" using heap.release_all [OF assms(1) _ assms(3)] assms(2) by auto
  note ok = r(1) [unfolded heap_inv_def]
  note h = heap_okD [OF ok]
  have none: "set (allocs 10240 (heap_blocks ?w)) = {}" using r(2) by (simp add: live_ok [OF ok])
  have "hs = [(start e hs, False)]" if "set (allocs e hs) = {}" "coalesced hs" "hs \<noteq> []" for hs e
    using that by (cases hs rule: coalesced.cases) (auto split: if_splits)
  from this [OF none h(4,1)] h(2) have "heap_blocks ?w = [(0, False)]" by simp
  then show ?thesis using run [OF assms(1) _ assms(3)] assms(2) r(1) by simp
qed

lemma mem_free_all_whole_witness:
  "\<exists>p n w1 w2. mem_malloc 100 demo_heap = Some (p, w1) \<and> mem_free_all [(p, n)] w1 = Some w2 \<and> heap_blocks w2 = [(0, False)]"
proof -
  have "mem_round 100 = 100" by code_simp
  then have nf: "\<not> (\<forall>n\<in>set (frees 10240 (heap_blocks demo_heap)). n < unat (mem_round 100))"
    by (simp add: heap_blocks [OF demo_heap(1)])
  obtain p n w1 where m: "mem_malloc 100 demo_heap = Some (p, w1)" "heap_inv w1" "live w1 = {(p, n)}"
    by (rule malloc_cases [OF demo_heap(2), of 100]) (use nf demo_heap(3) in auto)
  from mem_free_all_whole [OF m(2), of "[(p, n)]"] m show ?thesis by auto
qed

text \<open>
  C23: shrinking a block in use to a size that fits keeps the block where it is and the heap
  in order, and touches no other block in use; the block keeps at least the new size.
\<close>

theorem mem_trim_spec:
  assumes "heap_inv w" "(p, n) \<in> live w" "unat sz \<le> 65532" "unat (mem_round sz) \<le> n"
  shows "\<exists>w' k. mem_trim p sz w = Some (p, w') \<and> heap_inv w' \<and> unat sz \<le> k \<and> k \<le> n
    \<and> live w' = insert (p, k) (live w - {(p, n)})"
proof -
  note ok = assms(1) [unfolded heap_inv_def]
  obtain xs a ys where s: "heap_blocks w = xs @ (a, True) # ys" "p = mem_ram w + a + 8" "n = start 10240 ys - a - 8"
    by (rule live_split [OF ok assms(2)])
  note h = heap_okD [OF ok [unfolded s(1)]]
  note sp = blks_split [OF h(3)]
  let ?n = "unat (mem_round sz)"
  have fits: "a + 8 + ?n \<le> start 10240 ys" using assms(4) s(3) sp(3) by linarith
  obtain w' where w': "mem_trim (mem_ram w + a + 8) sz w = Some (mem_ram w + a + 8, w')"
    "heap_ok w' (trim_blk xs a ?n ys)" "mem_ram w' = mem_ram w"
    by (rule mem_trim_ok [OF ok [unfolded s(1)] assms(3) fits])
  define k where "k = (if trim_blk xs a ?n ys = xs @ (a, True) # ys then n else ?n)"
  have "set (allocs 10240 (trim_blk xs a ?n ys)) = insert (a + 8, k) (set (allocs a xs) \<union> set (allocs 10240 ys))"
    using fits s(3) by (auto simp: trim_blk_def allocs_append k_def split: list.splits bool.splits if_splits)
  moreover have "set (allocs 10240 (xs @ (a, True) # ys)) = insert (a + 8, n) (set (allocs a xs) \<union> set (allocs 10240 ys))"
    using s(3) by (auto simp: allocs_append)
  moreover have "(a + 8, n) \<notin> set (allocs a xs) \<union> set (allocs 10240 ys)"
    using allocs_bounds [OF sp(8), of "a + 8" n] allocs_bounds [OF sp(9), of "a + 8" n] sp(3) by auto
  ultimately have "live w' = insert (p, k) (live w - {(p, n)})"
    using live_ok [OF w'(2)] live_ok [OF ok] w'(3) s(1,2) by (auto simp: add.assoc)
  moreover have "unat sz \<le> k" "k \<le> n" using round_props [OF assms(3)] assms(4) by (auto simp: k_def)
  ultimately show ?thesis using w'(1) heap_invI [OF w'(2)] s(2) by auto
qed

lemma mem_trim_spec_witness:
  "\<exists>p n w1 w2. mem_malloc 100 demo_heap = Some (p, w1) \<and> mem_trim p 40 w1 = Some (p, w2) \<and> (\<exists>k. live w2 = {(p, k)} \<and> 40 \<le> k)"
proof -
  have r: "mem_round 100 = 100" "mem_round 40 = 40" by code_simp+
  then have nf: "\<not> (\<forall>n\<in>set (frees 10240 (heap_blocks demo_heap)). n < unat (mem_round 100))"
    by (simp add: heap_blocks [OF demo_heap(1)])
  obtain p n w1 where m: "mem_malloc 100 demo_heap = Some (p, w1)" "heap_inv w1" "live w1 = {(p, n)}" "100 \<le> n"
    by (rule malloc_cases [OF demo_heap(2), of 100]) (use nf demo_heap(3) in auto)
  from mem_trim_spec [OF m(2), of p n 40] m r show ?thesis by auto
qed

end
