(* ===== verification/Memp.thy ===== *)
theory Memp
  imports Heap Pool
begin

text \<open>
  \<open>core/memp.c\<close>: pools of fixed-size elements, one free list per pool. The number and size of
  the elements of each pool follow from the options and the sizes of the structures; they are
  the arguments \<open>memp_num\<close> and \<open>memp_sizes\<close> of \<open>memp_init\<close>. \<open>None\<close> is a failed assertion.
\<close>

abbreviation (input) MEMP_PBUF :: nat where "MEMP_PBUF \<equiv> 8"
abbreviation (input) MEMP_PBUF_POOL :: nat where "MEMP_PBUF_POOL \<equiv> 9"
abbreviation (input) MEMP_MAX :: nat where "MEMP_MAX \<equiv> 10"

text \<open>The element loop of one pool, then the loop over the pools.\<close>

fun memp_link :: "nat \<Rightarrow> nat \<Rightarrow> nat \<Rightarrow> ptr \<Rightarrow> lw \<Rightarrow> ptr \<times> lw" where
  "memp_link i sz 0 memp w = (memp, w)"
| "memp_link i sz (Suc j) memp w =
     memp_link i sz j (memp + sz)
       (w\<lparr>memp_next := (memp_next w)(memp := memp_tab w i), memp_tab := (memp_tab w)(i := memp)\<rparr>)"

fun memp_pools :: "(nat \<Rightarrow> nat) \<Rightarrow> (nat \<Rightarrow> nat) \<Rightarrow> nat list \<Rightarrow> ptr \<Rightarrow> lw \<Rightarrow> lw" where
  "memp_pools memp_num memp_sizes [] memp w = w"
| "memp_pools memp_num memp_sizes (i # is) memp w =
     (let (memp, w) = memp_link i (memp_sizes i) (memp_num i) memp (w\<lparr>memp_tab := (memp_tab w)(i := NULL)\<rparr>)
      in memp_pools memp_num memp_sizes is memp w)"

definition memp_init :: "(nat \<Rightarrow> nat) \<Rightarrow> (nat \<Rightarrow> nat) \<Rightarrow> ptr \<Rightarrow> lw \<Rightarrow> lw" where
  "memp_init memp_num memp_sizes memp_memory w =
     memp_pools memp_num memp_sizes [0..<MEMP_MAX] (LWIP_MEM_ALIGN memp_memory) w"

text \<open>Taking the first free element of a pool and putting one in front.\<close>

definition memp_take :: "nat \<Rightarrow> lw \<Rightarrow> lw" where
  "memp_take pool w = w\<lparr>memp_tab := (memp_tab w)(pool := memp_next w (memp_tab w pool))\<rparr>"

definition memp_give :: "nat \<Rightarrow> ptr \<Rightarrow> lw \<Rightarrow> lw" where
  "memp_give pool mem w =
     w\<lparr>memp_next := (memp_next w)(mem := memp_tab w pool), memp_tab := (memp_tab w)(pool := mem)\<rparr>"

definition memp_malloc :: "nat \<Rightarrow> lw \<Rightarrow> (ptr \<times> lw) option" where
  "memp_malloc pool w =
     (if pool \<ge> MEMP_MAX then Some (NULL, w)
      else let memp = memp_tab w pool
           in if memp \<noteq> NULL
              then if memp mod 4 = 0 then Some (memp, memp_take pool w) else None
              else Some (NULL, w))"

definition memp_free :: "nat \<Rightarrow> ptr \<Rightarrow> lw \<Rightarrow> lw option" where
  "memp_free pool mem w =
     (if mem = NULL then Some w
      else if mem mod 4 \<noteq> 0 then None
      else Some (memp_give pool mem w))"

section \<open>Pools are free lists\<close>

interpretation memp: free_list "\<lambda>w. memp_tab w pool" memp_next "memp_take pool" "memp_give pool" for pool
  by unfold_locales (auto simp: memp_take_def memp_give_def)

lemma memp_take_sel [simp]:
  "pbufs (memp_take i w) = pbufs w" "octet (memp_take i w) = octet w" "memp_next (memp_take i w) = memp_next w"
  "mem_hdrs (memp_take i w) = mem_hdrs w" "lfree (memp_take i w) = lfree w" "mem_ram (memp_take i w) = mem_ram w"
  by (simp_all add: memp_take_def)

lemma memp_give_sel [simp]:
  "pbufs (memp_give i p w) = pbufs w" "octet (memp_give i p w) = octet w" "mem_hdrs (memp_give i p w) = mem_hdrs w"
  "lfree (memp_give i p w) = lfree w" "mem_ram (memp_give i p w) = mem_ram w"
  by (simp_all add: memp_give_def)

text \<open>\<open>pool_ok i xs w\<close>: the elements \<open>xs\<close> of pool \<open>i\<close> are free, in this order.\<close>

definition pool_ok :: "nat \<Rightarrow> ptr list \<Rightarrow> lw \<Rightarrow> bool" where
  "pool_ok i xs w \<longleftrightarrow> chain (memp_next w) (memp_tab w i) xs \<and> distinct xs \<and> (\<forall>x\<in>set xs. x mod 4 = 0)"

lemma pool_ok_upd_pbuf [simp]: "pool_ok i xs (upd_pbuf p f w) = pool_ok i xs w"
  by (simp add: pool_ok_def)

lemma memp_malloc_empty: "pool_ok i [] w \<Longrightarrow> memp_malloc i w = Some (NULL, w)"
  by (simp add: memp_malloc_def pool_ok_def)

lemma memp_malloc_take:
  assumes "pool_ok i (x # xs) w" "i < MEMP_MAX"
  shows "memp_malloc i w = Some (x, memp_take i w)" "pool_ok i xs (memp_take i w)" "x \<noteq> NULL"
proof -
  have x: "memp_tab w i = x" "x \<noteq> NULL" using assms(1) by (auto simp: pool_ok_def)
  then show "x \<noteq> NULL" "memp_malloc i w = Some (x, memp_take i w)" using assms by (auto simp: memp_malloc_def pool_ok_def)
  show "pool_ok i xs (memp_take i w)" using memp.take_chain(2) [of w i x xs] assms(1) by (auto simp: pool_ok_def)
qed

lemma memp_free_give:
  assumes "pool_ok i xs w" "p \<noteq> NULL" "p mod 4 = 0" "p \<notin> set xs"
  shows "memp_free i p w = Some (memp_give i p w)" "pool_ok i (p # xs) (memp_give i p w)"
  using assms memp.give_chain [of w i xs p] by (auto simp: memp_free_def pool_ok_def)

end
