(* ===== verification/Pbuf.thy ===== *)
theory Pbuf
  imports Memp
begin

text \<open>
  \<open>core/pbuf.c\<close>: packet buffers. \<open>sizeof(struct pbuf)\<close> is 16, the buffers of the pool hold 1516
  bytes and \<open>PBUF_LINK_HLEN\<close> is 14. Custom buffers and the out-of-sequence queue of TCP are
  compiled out. \<open>None\<close> is a failed assertion or a loop over a cyclic chain.
\<close>

abbreviation (input) SIZEOF_STRUCT_PBUF :: nat where "SIZEOF_STRUCT_PBUF \<equiv> 16"
abbreviation (input) PBUF_POOL_BUFSIZE_ALIGNED :: nat where "PBUF_POOL_BUFSIZE_ALIGNED \<equiv> 1516"
abbreviation (input) ERR_OK :: int where "ERR_OK \<equiv> 0"
abbreviation (input) ERR_VAL :: int where "ERR_VAL \<equiv> -6"
abbreviation (input) ERR_ARG :: int where "ERR_ARG \<equiv> -14"

section \<open>Reference counts and release\<close>

partial_function (option) pbuf_free_loop :: "ptr \<Rightarrow> u8 \<Rightarrow> lw \<Rightarrow> (u8 \<times> lw) option" where
  "pbuf_free_loop p count w =
     (if p \<noteq> NULL
      then if pb_ref (pbufs w p) = 0 then None
           else let ref = pb_ref (pbufs w p) - 1;
                    w1 = upd_pbuf p (\<lambda>b. b\<lparr>pb_ref := ref\<rparr>) w
                in if ref = 0
                   then let q = pbuf_next w1 p;
                            ptype = pb_type (pbufs w1 p)
                        in Option.bind
                             (if ptype = PBUF_POOL then memp_free MEMP_PBUF_POOL p w1
                              else if ptype = PBUF_ROM \<or> ptype = PBUF_REF then memp_free MEMP_PBUF p w1
                              else mem_free p w1)
                             (\<lambda>w2. pbuf_free_loop q (count + 1) w2)
                   else Some (count, w1)
      else Some (count, w))"

definition pbuf_free :: "ptr \<Rightarrow> lw \<Rightarrow> (u8 \<times> lw) option" where
  "pbuf_free p w =
     (if p = NULL then None
      else if pb_type (pbufs w p) > 3 then None
      else pbuf_free_loop p 0 w)"

partial_function (option) pbuf_clen_loop :: "lw \<Rightarrow> ptr \<Rightarrow> u8 \<Rightarrow> u8 option" where
  "pbuf_clen_loop w p len = (if p \<noteq> NULL then pbuf_clen_loop w (pbuf_next w p) (len + 1) else Some len)"

definition pbuf_clen :: "lw \<Rightarrow> ptr \<Rightarrow> u8 option" where
  "pbuf_clen w p = pbuf_clen_loop w p 0"

definition pbuf_ref :: "ptr \<Rightarrow> lw \<Rightarrow> lw" where
  "pbuf_ref p w = (if p \<noteq> NULL then upd_pbuf p (\<lambda>b. b\<lparr>pb_ref := pb_ref b + 1\<rparr>) w else w)"

section \<open>Allocation\<close>

fun layer_offset :: "pbuf_layer \<Rightarrow> u16" where
  "layer_offset PBUF_TRANSPORT = 14 + 20 + 20"
| "layer_offset PBUF_IP = 14 + 20"
| "layer_offset PBUF_LINK = 14"
| "layer_offset PBUF_RAW = 0"

text \<open>
  The loop that allocates the tail of a chain from the pool. \<open>r\<close> is the last buffer so far; the
  result is whether it succeeded. The assertion on \<open>p->payload + p->len\<close> repeats the one made
  for the first buffer and is left to the caller.
\<close>

fun pool_tail :: "ptr \<Rightarrow> nat \<Rightarrow> lw \<Rightarrow> (bool \<times> lw) option" where
  "pool_tail r rem_len w =
     (if rem_len > 0
      then case memp_malloc MEMP_PBUF_POOL w of
             None \<Rightarrow> None
           | Some (q, w) \<Rightarrow>
               if q = NULL then Some (False, w)
               else let w = upd_pbuf q (\<lambda>b. b\<lparr>pb_type := PBUF_POOL, pb_flags := 0, pb_next := NULL\<rparr>) w;
                        w = upd_pbuf r (\<lambda>b. b\<lparr>pb_next := q\<rparr>) w;
                        len = min rem_len PBUF_POOL_BUFSIZE_ALIGNED;
                        w = upd_pbuf q (\<lambda>b. b\<lparr>tot_len := word_of_nat rem_len, pb_len := word_of_nat len,
                                             payload := q + SIZEOF_STRUCT_PBUF, pb_ref := 1\<rparr>) w
                    in if rem_len < 0xffff \<and> (q + SIZEOF_STRUCT_PBUF) mod 4 = 0
                       then pool_tail q (rem_len - len) w else None
      else Some (True, w))"

declare pool_tail.simps [simp del]

definition pbuf_alloc :: "pbuf_layer \<Rightarrow> u16 \<Rightarrow> u8 \<Rightarrow> lw \<Rightarrow> (ptr \<times> lw) option" where
  "pbuf_alloc layer len0 ptype w =
     (let offset = layer_offset layer;
          finish = (\<lambda>p w. Some (p, upd_pbuf p (\<lambda>b. b\<lparr>pb_ref := 1, pb_flags := 0\<rparr>) w))
      in if ptype = PBUF_POOL
         then case memp_malloc MEMP_PBUF_POOL w of
                None \<Rightarrow> None
              | Some (p, w) \<Rightarrow>
                  if p = NULL then Some (NULL, w)
                  else let off = unat (LWIP_MEM_ALIGN_SIZE (ucast offset));
                           pay = LWIP_MEM_ALIGN (p + SIZEOF_STRUCT_PBUF + unat offset);
                           len = min (unat len0) (PBUF_POOL_BUFSIZE_ALIGNED - off);
                           w = upd_pbuf p (\<lambda>b. b\<lparr>pb_type := ptype, pb_next := NULL, payload := pay, tot_len := len0,
                                                pb_len := word_of_nat len, pb_ref := 1\<rparr>) w
                       in if \<not> (pay mod 4 = 0 \<and> pay + len \<le> p + SIZEOF_STRUCT_PBUF + PBUF_POOL_BUFSIZE_ALIGNED
                                \<and> PBUF_POOL_BUFSIZE_ALIGNED - off > 0) then None
                          else case pool_tail p (unat len0 - len) w of
                                 None \<Rightarrow> None
                               | Some (False, w) \<Rightarrow> map_option (\<lambda>(n, w). (NULL, w)) (pbuf_free p w)
                               | Some (True, w) \<Rightarrow> finish p w
         else if ptype = PBUF_RAM
         then case mem_malloc (ucast (LWIP_MEM_ALIGN_SIZE (16 + ucast offset) + LWIP_MEM_ALIGN_SIZE (ucast len0))) w of
                None \<Rightarrow> None
              | Some (p, w) \<Rightarrow>
                  if p = NULL then Some (NULL, w)
                  else let pay = LWIP_MEM_ALIGN (p + SIZEOF_STRUCT_PBUF + unat offset);
                           w = upd_pbuf p (\<lambda>b. b\<lparr>payload := pay, pb_len := len0, tot_len := len0, pb_next := NULL,
                                                pb_type := ptype\<rparr>) w
                       in if pay mod 4 = 0 then finish p w else None
         else if ptype = PBUF_ROM \<or> ptype = PBUF_REF
         then case memp_malloc MEMP_PBUF w of
                None \<Rightarrow> None
              | Some (p, w) \<Rightarrow>
                  if p = NULL then Some (NULL, w)
                  else finish p (upd_pbuf p (\<lambda>b. b\<lparr>payload := NULL, pb_len := len0, tot_len := len0, pb_next := NULL,
                                                   pb_type := ptype\<rparr>) w)
         else None)"

section \<open>Changing a chain\<close>

text \<open>The loop of \<open>pbuf_realloc\<close> that finds the buffer in which the new end lies.\<close>

partial_function (option) realloc_loop :: "u16 \<Rightarrow> ptr \<Rightarrow> u16 \<Rightarrow> lw \<Rightarrow> (ptr \<times> u16 \<times> lw) option" where
  "realloc_loop grow q rem_len w =
     (if rem_len > pb_len (pbufs w q)
      then let rem_len = rem_len - pb_len (pbufs w q);
               w = upd_pbuf q (\<lambda>b. b\<lparr>tot_len := tot_len b + grow\<rparr>) w;
               q = pbuf_next w q
           in if q = NULL then None else realloc_loop grow q rem_len w
      else Some (q, rem_len, w))"

definition pbuf_realloc :: "ptr \<Rightarrow> u16 \<Rightarrow> lw \<Rightarrow> lw option" where
  "pbuf_realloc p new_len w =
     (if p = NULL \<or> pb_type (pbufs w p) > 3 then None
      else if new_len \<ge> tot_len (pbufs w p) then Some w
      else case realloc_loop (new_len - tot_len (pbufs w p)) p new_len w of
             None \<Rightarrow> None
           | Some (q, rem_len, w) \<Rightarrow>
               case (if pb_type (pbufs w q) = PBUF_RAM \<and> rem_len \<noteq> pb_len (pbufs w q)
                     then mem_trim q (word_of_nat (payload (pbufs w q) - q) + rem_len) w else Some (q, w)) of
                 None \<Rightarrow> None
               | Some (q, w) \<Rightarrow>
                   if q = NULL then None
                   else let w = upd_pbuf q (\<lambda>b. b\<lparr>pb_len := rem_len, tot_len := rem_len\<rparr>) w
                        in map_option (upd_pbuf q (\<lambda>b. b\<lparr>pb_next := NULL\<rparr>))
                             (if pbuf_next w q \<noteq> NULL then map_option snd (pbuf_free (pbuf_next w q) w) else Some w))"

text \<open>Moving the payload pointer; the result is 1 when there is no room.\<close>

definition pbuf_header :: "ptr \<Rightarrow> u16 \<Rightarrow> lw \<Rightarrow> (u8 \<times> lw) option" where
  "pbuf_header p header_size_increment w =
     (let inc = sint header_size_increment;
          magnitude = (if inc < 0 then - header_size_increment else header_size_increment);
          b = pbufs w p;
          new = int (payload b) - inc;
          moved = Some (0, upd_pbuf p (\<lambda>b. b\<lparr>payload := nat new, pb_len := pb_len b + header_size_increment,
                                            tot_len := tot_len b + header_size_increment\<rparr>) w)
      in if p = NULL then None
         else if inc = 0 then Some (0, w)
         else if inc < 0 \<and> \<not> magnitude \<le> pb_len b then Some (1, w)
         else if pb_type b = PBUF_RAM \<or> pb_type b = PBUF_POOL
         then if new < int (p + SIZEOF_STRUCT_PBUF) then Some (1, w) else moved
         else if pb_type b = PBUF_REF \<or> pb_type b = PBUF_ROM
         then if inc < 0 \<and> magnitude \<le> pb_len b then moved else Some (1, w)
         else None)"

partial_function (option) cat_loop :: "u16 \<Rightarrow> ptr \<Rightarrow> lw \<Rightarrow> (ptr \<times> lw) option" where
  "cat_loop t_len p w =
     (if pbuf_next w p \<noteq> NULL
      then cat_loop t_len (pbuf_next w p) (upd_pbuf p (\<lambda>b. b\<lparr>tot_len := tot_len b + t_len\<rparr>) w)
      else Some (p, w))"

definition pbuf_cat :: "ptr \<Rightarrow> ptr \<Rightarrow> lw \<Rightarrow> lw option" where
  "pbuf_cat h t w =
     (if h = NULL \<or> t = NULL then Some w
      else case cat_loop (tot_len (pbufs w t)) h w of
             None \<Rightarrow> None
           | Some (p, w) \<Rightarrow>
               if tot_len (pbufs w p) = pb_len (pbufs w p)
               then Some (upd_pbuf p (\<lambda>b. b\<lparr>tot_len := tot_len b + tot_len (pbufs w t), pb_next := t\<rparr>) w)
               else None)"

definition pbuf_chain :: "ptr \<Rightarrow> ptr \<Rightarrow> lw \<Rightarrow> lw option" where
  "pbuf_chain h t w = map_option (pbuf_ref t) (pbuf_cat h t w)"

definition pbuf_dechain :: "ptr \<Rightarrow> lw \<Rightarrow> (ptr \<times> lw) option" where
  "pbuf_dechain p w =
     (let q = pbuf_next w p
      in if q \<noteq> NULL
         then if int (unat (tot_len (pbufs w q))) = int (unat (tot_len (pbufs w p))) - int (unat (pb_len (pbufs w p)))
              then let w = upd_pbuf q (\<lambda>b. b\<lparr>tot_len := tot_len (pbufs w p) - pb_len (pbufs w p)\<rparr>) w;
                       w = upd_pbuf p (\<lambda>b. b\<lparr>pb_next := NULL, tot_len := pb_len b\<rparr>) w
                   in map_option (\<lambda>(tail_gone, w). (if tail_gone > 0 then NULL else q, w)) (pbuf_free q w)
              else None
         else if tot_len (pbufs w p) = pb_len (pbufs w p) then Some (NULL, w) else None)"

end
