(* ===== verification/Pbuf_Data.thy ===== *)
theory Pbuf_Data
  imports Pbuf
begin

text \<open>
  \<open>core/pbuf.c\<close>, second part: copying between packet buffers and plain memory, and searching.
  All offsets are 16 bits wide, as in the code.
\<close>

section \<open>Copying\<close>

text \<open>\<open>MEMCPY\<close>, and the do-while loop of \<open>pbuf_copy\<close>: one round, which also gives the return value when it ends.\<close>

definition MEMCPY :: "ptr \<Rightarrow> ptr \<Rightarrow> nat \<Rightarrow> lw \<Rightarrow> lw" where
  "MEMCPY dst src n w = w\<lparr>octet := store_bytes dst (bytes_at (octet w) src n) (octet w)\<rparr>"

definition copy_len :: "lw \<Rightarrow> ptr \<Rightarrow> ptr \<Rightarrow> u16 \<Rightarrow> u16 \<Rightarrow> u16" where
  "copy_len w p_to p_from offset_to offset_from =
     (if int (unat (pb_len (pbufs w p_to))) - int (unat offset_to) \<ge> int (unat (pb_len (pbufs w p_from))) - int (unat offset_from)
      then pb_len (pbufs w p_from) - offset_from else pb_len (pbufs w p_to) - offset_to)"

partial_function (option) copy_loop :: "ptr \<Rightarrow> ptr \<Rightarrow> u16 \<Rightarrow> u16 \<Rightarrow> lw \<Rightarrow> (int \<times> lw) option" where
  "copy_loop p_to p_from offset_to offset_from w =
     (let len = copy_len w p_to p_from offset_to offset_from;
          w = MEMCPY (payload (pbufs w p_to) + unat offset_to) (payload (pbufs w p_from) + unat offset_from) (unat len) w;
          offset_to = offset_to + len;
          offset_from = offset_from + len
      in if \<not> (offset_to \<le> pb_len (pbufs w p_to) \<and> offset_from \<le> pb_len (pbufs w p_from)) then None
         else let next_from = offset_from \<ge> pb_len (pbufs w p_from);
                  offset_from = (if next_from then 0 else offset_from);
                  p_from = (if next_from then pbuf_next w p_from else p_from);
                  next_to = offset_to = pb_len (pbufs w p_to);
                  offset_to = (if next_to then 0 else offset_to);
                  p_to = (if next_to then pbuf_next w p_to else p_to)
              in if next_to \<and> \<not> (p_to \<noteq> NULL \<or> p_from = NULL) then Some (ERR_ARG, w)
                 else if p_from \<noteq> NULL \<and> pb_len (pbufs w p_from) = tot_len (pbufs w p_from) \<and> pbuf_next w p_from \<noteq> NULL
                 then Some (ERR_VAL, w)
                 else if p_to \<noteq> NULL \<and> pb_len (pbufs w p_to) = tot_len (pbufs w p_to) \<and> pbuf_next w p_to \<noteq> NULL
                 then Some (ERR_VAL, w)
                 else if p_from \<noteq> NULL then copy_loop p_to p_from offset_to offset_from w
                 else Some (ERR_OK, w))"

definition pbuf_copy :: "ptr \<Rightarrow> ptr \<Rightarrow> lw \<Rightarrow> (int \<times> lw) option" where
  "pbuf_copy p_to p_from w =
     (if \<not> (p_to \<noteq> NULL \<and> p_from \<noteq> NULL \<and> tot_len (pbufs w p_to) \<ge> tot_len (pbufs w p_from)) then Some (ERR_ARG, w)
      else copy_loop p_to p_from 0 0 w)"

text \<open>From a chain into memory: the result is the number of bytes copied.\<close>

partial_function (option) copy_partial_loop :: "ptr \<Rightarrow> ptr \<Rightarrow> u16 \<Rightarrow> u16 \<Rightarrow> u16 \<Rightarrow> u16 \<Rightarrow> lw \<Rightarrow> (u16 \<times> lw) option" where
  "copy_partial_loop p dataptr len offset left copied_total w =
     (if len \<noteq> 0 \<and> p \<noteq> NULL
      then if offset \<noteq> 0 \<and> offset \<ge> pb_len (pbufs w p)
           then copy_partial_loop (pbuf_next w p) dataptr len (offset - pb_len (pbufs w p)) left copied_total w
           else let buf_copy_len = pb_len (pbufs w p) - offset;
                    buf_copy_len = (if buf_copy_len > len then len else buf_copy_len);
                    w = MEMCPY (dataptr + unat left) (payload (pbufs w p) + unat offset) (unat buf_copy_len) w
                in copy_partial_loop (pbuf_next w p) dataptr (len - buf_copy_len) 0 (left + buf_copy_len)
                     (copied_total + buf_copy_len) w
      else Some (copied_total, w))"

definition pbuf_copy_partial :: "ptr \<Rightarrow> ptr \<Rightarrow> u16 \<Rightarrow> u16 \<Rightarrow> lw \<Rightarrow> (u16 \<times> lw) option" where
  "pbuf_copy_partial buf dataptr len offset w =
     (if buf = NULL \<or> dataptr = NULL then Some (0, w) else copy_partial_loop buf dataptr len offset 0 0 w)"

text \<open>From memory into a chain. Without a buffer or data the result is 0, which is \<open>ERR_OK\<close>.\<close>

partial_function (option) take_loop :: "ptr \<Rightarrow> ptr \<Rightarrow> u16 \<Rightarrow> u16 \<Rightarrow> lw \<Rightarrow> (u16 \<times> lw) option" where
  "take_loop p dataptr total_copy_len copied_total w =
     (if total_copy_len \<noteq> 0
      then if p = NULL then None
           else let buf_copy_len = (if total_copy_len > pb_len (pbufs w p) then pb_len (pbufs w p) else total_copy_len);
                    w = MEMCPY (payload (pbufs w p)) (dataptr + unat copied_total) (unat buf_copy_len) w
                in take_loop (pbuf_next w p) dataptr (total_copy_len - buf_copy_len) (copied_total + buf_copy_len) w
      else Some (copied_total, w))"

definition pbuf_take :: "ptr \<Rightarrow> ptr \<Rightarrow> u16 \<Rightarrow> lw \<Rightarrow> (int \<times> lw) option" where
  "pbuf_take buf dataptr len w =
     (if buf = NULL \<or> dataptr = NULL then Some (0, w)
      else if tot_len (pbufs w buf) < len then Some (ERR_ARG, w)
      else case take_loop buf dataptr len 0 w of
             None \<Rightarrow> None
           | Some (copied_total, w) \<Rightarrow> if copied_total = len then Some (ERR_OK, w) else None)"

definition pbuf_coalesce :: "ptr \<Rightarrow> pbuf_layer \<Rightarrow> lw \<Rightarrow> (ptr \<times> lw) option" where
  "pbuf_coalesce p layer w =
     (if pbuf_next w p = NULL then Some (p, w)
      else case pbuf_alloc layer (tot_len (pbufs w p)) PBUF_RAM w of
             None \<Rightarrow> None
           | Some (q, w) \<Rightarrow>
               if q = NULL then Some (p, w)
               else case pbuf_copy q p w of
                      None \<Rightarrow> None
                    | Some (err, w) \<Rightarrow>
                        if err = ERR_OK then map_option (\<lambda>(n, w). (q, w)) (pbuf_free p w) else None)"

section \<open>Searching\<close>

text \<open>The loop that finds the buffer with a given offset, in \<open>pbuf_get_at\<close> and \<open>pbuf_memcmp\<close>.\<close>

partial_function (option) seek_loop :: "lw \<Rightarrow> ptr \<Rightarrow> u16 \<Rightarrow> (ptr \<times> u16) option" where
  "seek_loop w q off =
     (if q \<noteq> NULL \<and> pb_len (pbufs w q) \<le> off then seek_loop w (pbuf_next w q) (off - pb_len (pbufs w q))
      else Some (q, off))"

definition pbuf_get_at :: "lw \<Rightarrow> ptr \<Rightarrow> u16 \<Rightarrow> u8 option" where
  "pbuf_get_at w p offset =
     map_option (\<lambda>(q, copy_from). if q \<noteq> NULL \<and> pb_len (pbufs w q) > copy_from
                                   then octet w (payload (pbufs w q) + unat copy_from) else 0)
       (seek_loop w p offset)"

fun memcmp_loop :: "lw \<Rightarrow> ptr \<Rightarrow> u16 \<Rightarrow> ptr \<Rightarrow> nat \<Rightarrow> nat \<Rightarrow> u16 option" where
  "memcmp_loop w q start0 s2 i 0 = Some 0"
| "memcmp_loop w q start0 s2 i (Suc k) =
     (case pbuf_get_at w q (start0 + word_of_nat i) of
        None \<Rightarrow> None
      | Some a \<Rightarrow> if a \<noteq> octet w (s2 + i) then Some (word_of_nat i + 1) else memcmp_loop w q start0 s2 (i + 1) k)"

definition pbuf_memcmp :: "lw \<Rightarrow> ptr \<Rightarrow> u16 \<Rightarrow> ptr \<Rightarrow> u16 \<Rightarrow> u16 option" where
  "pbuf_memcmp w p offset s2 n =
     (case seek_loop w p offset of
        None \<Rightarrow> None
      | Some (q, start0) \<Rightarrow> if q \<noteq> NULL \<and> pb_len (pbufs w q) > start0 then memcmp_loop w q start0 s2 0 (unat n)
                            else Some 0xffff)"

partial_function (option) memfind_loop :: "lw \<Rightarrow> ptr \<Rightarrow> ptr \<Rightarrow> u16 \<Rightarrow> u16 \<Rightarrow> u16 \<Rightarrow> u16 option" where
  "memfind_loop w p mem mem_len max_off i =
     (if i \<le> max_off
      then case pbuf_memcmp w p i mem mem_len of
             None \<Rightarrow> None
           | Some plus0 \<Rightarrow> if plus0 = 0 then Some i else memfind_loop w p mem mem_len max_off (i + plus0)
      else Some 0xffff)"

definition pbuf_memfind :: "lw \<Rightarrow> ptr \<Rightarrow> ptr \<Rightarrow> u16 \<Rightarrow> u16 \<Rightarrow> u16 option" where
  "pbuf_memfind w p mem mem_len start_offset =
     (if unat (tot_len (pbufs w p)) \<ge> unat mem_len + unat start_offset
      then memfind_loop w p mem mem_len (tot_len (pbufs w p) - mem_len) start_offset
      else Some 0xffff)"

text \<open>\<open>strlen\<close>; it does not return where no zero follows.\<close>

partial_function (option) strlen :: "(ptr \<Rightarrow> u8) \<Rightarrow> ptr \<Rightarrow> nat option" where
  "strlen m s = (if m s = 0 then Some 0 else Option.bind (strlen m (s + 1)) (\<lambda>n. Some (Suc n)))"

definition pbuf_strstr :: "lw \<Rightarrow> ptr \<Rightarrow> ptr \<Rightarrow> u16 option" where
  "pbuf_strstr w p substr =
     (if substr = NULL \<or> octet w substr = 0 \<or> tot_len (pbufs w p) = 0xffff then Some 0xffff
      else case strlen (octet w) substr of
             None \<Rightarrow> None
           | Some substr_len \<Rightarrow> if substr_len \<ge> 0xffff then Some 0xffff
                               else pbuf_memfind w p substr (word_of_nat substr_len) 0)"

end
