(* ===== verification/Pbuf_Props.thy ===== *)
theory Pbuf_Props
  imports Pbuf_Data Heap_Props
begin

text \<open>
  Packet buffers as byte strings: a chain carries \<open>pbuf_bytes\<close>, and the operations that copy
  and search agree with the list operations on it.
\<close>

section \<open>Chains of buffers\<close>

definition buf_len :: "lw \<Rightarrow> ptr \<Rightarrow> nat" where
  "buf_len w p = unat (pb_len (pbufs w p))"

definition buf_span :: "lw \<Rightarrow> ptr \<Rightarrow> ptr set" where
  "buf_span w p = {payload (pbufs w p)..<payload (pbufs w p) + buf_len w p}"

definition buf_bytes :: "lw \<Rightarrow> ptr \<Rightarrow> u8 list" where
  "buf_bytes w p = bytes_at (octet w) (payload (pbufs w p)) (buf_len w p)"

definition chain_len :: "lw \<Rightarrow> ptr list \<Rightarrow> nat" where
  "chain_len w ps = sum_list (map (buf_len w) ps)"

lemma pbuf_bytes_simps [simp]:
  "pbuf_bytes w [] = []" "pbuf_bytes w (p # ps) = buf_bytes w p @ pbuf_bytes w ps"
  by (simp_all add: pbuf_bytes_def buf_bytes_def buf_len_def)

lemma chain_len_simps [simp]: "chain_len w [] = 0" "chain_len w (p # ps) = buf_len w p + chain_len w ps"
  by (simp_all add: chain_len_def)

lemma length_buf_bytes [simp]: "length (buf_bytes w p) = buf_len w p"
  by (simp add: buf_bytes_def)

lemma length_pbuf_bytes [simp]: "length (pbuf_bytes w ps) = chain_len w ps"
  by (induction ps) simp_all

lemma MEMCPY_pbufs [simp]: "pbufs (MEMCPY d s n w) = pbufs w"
  by (simp add: MEMCPY_def)

lemma same_pbufs:
  assumes "pbufs w' = pbufs w"
  shows "pbuf_next w' = pbuf_next w" "buf_len w' = buf_len w" "buf_span w' = buf_span w" "chain_len w' = chain_len w"
proof -
  show "pbuf_next w' = pbuf_next w" "buf_len w' = buf_len w" using assms by (auto simp: pbuf_next_def buf_len_def)
  then show "buf_span w' = buf_span w" "chain_len w' = chain_len w" using assms by (auto simp: buf_span_def chain_len_def)
qed

lemmas MEMCPY_sel [simp] = same_pbufs [OF MEMCPY_pbufs]

lemma MEMCPY_outside: "q \<notin> {d..<d + n} \<Longrightarrow> octet (MEMCPY d s n w) q = octet w q"
  by (auto simp: MEMCPY_def intro!: store_bytes_outside)

lemma bytes_MEMCPY: "bytes_at (octet (MEMCPY d s n w)) d n = bytes_at (octet w) s n"
  using bytes_store [of d "bytes_at (octet w) s n" "octet w"] by (simp add: MEMCPY_def)

lemma bytes_MEMCPY_outside: "{p..<p + k} \<inter> {d..<d + n} = {} \<Longrightarrow> bytes_at (octet (MEMCPY d s n w)) p k = bytes_at (octet w) p k"
  by (rule bytes_at_cong, rule MEMCPY_outside) auto

lemma buf_bytes_outside: "(\<And>q. q \<in> buf_span w p \<Longrightarrow> octet w' q = octet w q) \<Longrightarrow> pbufs w' = pbufs w \<Longrightarrow> buf_bytes w' p = buf_bytes w p"
  unfolding buf_bytes_def buf_len_def buf_span_def by (auto intro!: bytes_at_cong)

lemma pbuf_bytes_outside:
  "(\<And>p q. p \<in> set ps \<Longrightarrow> q \<in> buf_span w p \<Longrightarrow> octet w' q = octet w q) \<Longrightarrow> pbufs w' = pbufs w \<Longrightarrow> pbuf_bytes w' ps = pbuf_bytes w ps"
proof (induction ps)
  case (Cons p ps)
  have "buf_bytes w' p = buf_bytes w p" by (rule buf_bytes_outside) (use Cons.prems in auto)
  moreover have "pbuf_bytes w' ps = pbuf_bytes w ps" by (rule Cons.IH) (use Cons.prems in auto)
  ultimately show ?case by simp
qed simp

lemma bytes_at_take: "k \<le> n \<Longrightarrow> take k (bytes_at m p n) = bytes_at m p k"
  using bytes_at_append [of m p k "n - k"] by simp

lemma bytes_at_drop: "k \<le> n \<Longrightarrow> drop k (bytes_at m p n) = bytes_at m (p + k) (n - k)"
  using bytes_at_append [of m p k "n - k"] by simp

lemma u16_add_small: "unat (a :: u16) + unat b < 65536 \<Longrightarrow> unat (a + b) = unat a + unat b"
  by (simp add: unat_word_ariths)

lemma unat_u16: "n < 65536 \<Longrightarrow> unat (word_of_nat n :: u16) = n"
  by (simp add: unsigned_of_nat take_bit_nat_eq_self)

lemma u16_bound: "unat (a :: u16) < 65536"
  using unsigned_less [of a] by simp

lemma u16_sub: "(b :: u16) \<le> a \<Longrightarrow> unat (a - b) = unat a - unat b"
  by (rule unat_sub)

section \<open>Copying out of a chain\<close>

lemma copy_partial_end: "copy_partial_loop NULL e n off left tot w = Some (tot, w)"
  "copy_partial_loop p e 0 off left tot w = Some (tot, w)"
  by (subst copy_partial_loop.simps, simp)+

lemma copy_partial_skip:
  "n \<noteq> 0 \<Longrightarrow> p \<noteq> NULL \<Longrightarrow> off \<noteq> 0 \<Longrightarrow> pb_len (pbufs w p) \<le> off \<Longrightarrow>
    copy_partial_loop p e n off left tot w = copy_partial_loop (pbuf_next w p) e n (off - pb_len (pbufs w p)) left tot w"
  by (subst copy_partial_loop.simps) simp

lemma copy_partial_copy:
  "n \<noteq> 0 \<Longrightarrow> p \<noteq> NULL \<Longrightarrow> off = 0 \<or> off < pb_len (pbufs w p) \<Longrightarrow> k = min (pb_len (pbufs w p) - off) n \<Longrightarrow>
    copy_partial_loop p e n off left tot w =
    copy_partial_loop (pbuf_next w p) e (n - k) 0 (left + k) (tot + k)
      (MEMCPY (e + unat left) (payload (pbufs w p) + unat off) (unat k) w)"
  by (subst copy_partial_loop.simps) (auto simp: min_def Let_def not_le)

lemma unat_min: "unat (min a b :: 'a::len word) = min (unat a) (unat b)"
  by (auto simp: min_def word_le_nat_alt)

lemma copy_partial_loop_spec:
  assumes "chain (pbuf_next w) p ps" "unat left + unat n < 65536"
    "\<And>q. q \<in> set ps \<Longrightarrow> buf_span w q \<inter> {e + unat left..<e + unat left + unat n} = {}"
  obtains w' k where "copy_partial_loop p e n off left tot w = Some (tot + k, w')"
    "unat k = length (take (unat n) (drop (unat off) (pbuf_bytes w ps)))"
    "bytes_at (octet w') (e + unat left) (unat k) = take (unat n) (drop (unat off) (pbuf_bytes w ps))"
    "\<And>q. q \<notin> {e + unat left..<e + unat left + unat n} \<Longrightarrow> octet w' q = octet w q" "pbufs w' = pbufs w"
  using assms
proof (induction ps arbitrary: p n off left tot w thesis)
  case Nil
  show ?case by (rule Nil.prems(1) [of 0]) (use Nil.prems(2) copy_partial_end in auto)
next
  case (Cons x ps)
  have p: "p = x" "x \<noteq> NULL" "chain (pbuf_next w) (pbuf_next w x) ps" using Cons.prems(2) by auto
  let ?D = "{e + unat left..<e + unat left + unat n}"
  consider "n = 0" | "n \<noteq> 0" "off \<noteq> 0" "pb_len (pbufs w x) \<le> off" | "n \<noteq> 0" "off = 0 \<or> off < pb_len (pbufs w x)"
    by fastforce
  then show ?case
  proof cases
    case 1
    show ?thesis by (rule Cons.prems(1) [of 0]) (use 1 copy_partial_end in auto)
  next
    case 2
    have off: "unat (off - pb_len (pbufs w x)) = unat off - buf_len w x" using u16_sub [OF 2(3)] by (simp add: buf_len_def)
    have le: "buf_len w x \<le> unat off" using 2(3) by (simp add: buf_len_def word_le_nat_alt)
    obtain w' k where IH: "copy_partial_loop (pbuf_next w x) e n (off - pb_len (pbufs w x)) left tot w = Some (tot + k, w')"
      "unat k = length (take (unat n) (drop (unat off - buf_len w x) (pbuf_bytes w ps)))"
      "bytes_at (octet w') (e + unat left) (unat k) = take (unat n) (drop (unat off - buf_len w x) (pbuf_bytes w ps))"
      "\<And>q. q \<notin> ?D \<Longrightarrow> octet w' q = octet w q" "pbufs w' = pbufs w"
      by (rule Cons.IH [OF _ p(3) Cons.prems(3), where off = "off - pb_len (pbufs w x)" and tot = tot]) (use Cons.prems(4) off in auto)
    show ?thesis
      by (rule Cons.prems(1) [of k w']) (use IH le p 2 copy_partial_skip [of n x off w e left tot] in auto)
  next
    case 3
    define k where "k = min (pb_len (pbufs w x) - off) n"
    have off: "unat (pb_len (pbufs w x) - off) = buf_len w x - unat off" "unat off \<le> buf_len w x"
      using u16_sub [of off "pb_len (pbufs w x)"] 3(2) by (auto simp: buf_len_def word_less_nat_alt word_le_nat_alt)
    have uk: "unat k = min (buf_len w x - unat off) (unat n)" by (simp add: k_def unat_min off)
    have kn: "k \<le> n" by (simp add: k_def)
    have nk: "unat (n - k) = unat n - unat k" by (rule u16_sub [OF kn])
    have lk: "unat (left + k) = unat left + unat k" using Cons.prems(3) uk by (intro u16_add_small) simp
    define v where "v = MEMCPY (e + unat left) (payload (pbufs w x) + unat off) (unat k) w"
    have v: "pbufs v = pbufs w" "pbuf_next v = pbuf_next w" "buf_span v = buf_span w" by (simp_all add: v_def)
    have vo: "octet v q = octet w q" if "q \<notin> {e + unat left..<e + unat left + unat k}" for q
      unfolding v_def by (rule MEMCPY_outside [OF that])
    have vps: "pbuf_bytes v ps = pbuf_bytes w ps"
    proof (rule pbuf_bytes_outside [OF vo v(1)])
      fix y q assume "y \<in> set ps" "q \<in> buf_span w y"
      then show "q \<notin> {e + unat left..<e + unat left + unat k}" using Cons.prems(4) [of y] uk by auto
    qed
    obtain w' j where IH: "copy_partial_loop (pbuf_next w x) e (n - k) 0 (left + k) (tot + k) v = Some (tot + k + j, w')"
      "unat j = length (take (unat n - unat k) (pbuf_bytes w ps))"
      "bytes_at (octet w') (e + unat left + unat k) (unat j) = take (unat n - unat k) (pbuf_bytes w ps)"
      "\<And>q. q \<notin> {e + unat left + unat k..<e + unat left + unat k + (unat n - unat k)} \<Longrightarrow> octet w' q = octet v q" "pbufs w' = pbufs w"
    proof (rule Cons.IH [where w = v and p = "pbuf_next w x" and n = "n - k" and off = 0 and left = "left + k" and tot = "tot + k"])
      show "chain (pbuf_next v) (pbuf_next w x) ps" using p(3) v(2) by simp
      show "unat (left + k) + unat (n - k) < 65536" using lk nk Cons.prems(3) uk by simp
      fix q assume "q \<in> set ps"
      then show "buf_span v q \<inter> {e + unat (left + k)..<e + unat (left + k) + unat (n - k)} = {}"
        using Cons.prems(4) [of q] lk nk uk v(3) by auto
    qed (use lk nk vps v in \<open>auto simp: add.assoc\<close>)
    have run: "copy_partial_loop p e n off left tot w = Some (tot + (k + j), w')"
      using copy_partial_copy [OF 3(1) p(2) 3(2) k_def, of e left tot] IH(1) p(1) by (simp add: v_def add.assoc)
    have first: "take (unat n) (drop (unat off) (buf_bytes w x)) = bytes_at (octet w) (payload (pbufs w x) + unat off) (unat k)"
      using uk off(2) by (simp add: buf_bytes_def bytes_at_drop bytes_at_take min_def take_all_iff)
    have rest: "unat n - (buf_len w x - unat off) = unat n - unat k" using uk by simp
    have split: "take (unat n) (drop (unat off) (pbuf_bytes w (x # ps)))
        = bytes_at (octet w) (payload (pbufs w x) + unat off) (unat k) @ take (unat n - unat k) (pbuf_bytes w ps)"
      using off(2) first rest by simp
    have "unat j \<le> unat n - unat k" "unat k \<le> unat n" using IH(2) uk by simp_all
    then have kj: "unat (k + j) = unat k + unat j" using Cons.prems(3) by (intro u16_add_small) linarith
    have fk: "bytes_at (octet w') (e + unat left) (unat k) = bytes_at (octet w) (payload (pbufs w x) + unat off) (unat k)"
    proof -
      have "bytes_at (octet w') (e + unat left) (unat k) = bytes_at (octet v) (e + unat left) (unat k)"
        by (rule bytes_at_cong, rule IH(4)) auto
      then show ?thesis by (simp add: v_def bytes_MEMCPY)
    qed
    show ?thesis
    proof (rule Cons.prems(1) [OF run])
      show "unat (k + j) = length (take (unat n) (drop (unat off) (pbuf_bytes w (x # ps))))"
        unfolding split using kj IH(2) by simp
      show "bytes_at (octet w') (e + unat left) (unat (k + j)) = take (unat n) (drop (unat off) (pbuf_bytes w (x # ps)))"
        unfolding split kj bytes_at_append using fk IH(3) by simp
      fix q assume "q \<notin> ?D"
      then show "octet w' q = octet w q" using IH(4) [of q] vo [of q] uk by auto
    qed (use IH(5) in simp)
  qed
qed

section \<open>Copying into a chain\<close>

lemma take_loop_step:
  "n \<noteq> 0 \<Longrightarrow> p \<noteq> NULL \<Longrightarrow> k = min n (pb_len (pbufs w p)) \<Longrightarrow>
    take_loop p d n c w = take_loop (pbuf_next w p) d (n - k) (c + k) (MEMCPY (payload (pbufs w p)) (d + unat c) (unat k) w)"
  by (subst take_loop.simps) (auto simp: min_def Let_def not_le)

lemma take_loop_end: "take_loop p d 0 c w = Some (c, w)"
  by (subst take_loop.simps) simp

text \<open>The buffers of a chain do not overlap.\<close>

definition spans_apart :: "lw \<Rightarrow> ptr list \<Rightarrow> bool" where
  "spans_apart w ps \<longleftrightarrow> sorted_wrt (\<lambda>p q. buf_span w p \<inter> buf_span w q = {}) ps"

lemma spans_apart_Cons [simp]:
  "spans_apart w (p # ps) \<longleftrightarrow> (\<forall>q\<in>set ps. buf_span w p \<inter> buf_span w q = {}) \<and> spans_apart w ps"
  by (simp add: spans_apart_def)

lemma take_loop_spec:
  assumes "chain (pbuf_next w) p ps" "spans_apart w ps" "unat n \<le> chain_len w ps" "unat c + unat n < 65536"
    "\<And>q. q \<in> set ps \<Longrightarrow> buf_span w q \<inter> {d + unat c..<d + unat c + unat n} = {}"
  obtains w' where "take_loop p d n c w = Some (c + n, w')"
    "pbuf_bytes w' ps = bytes_at (octet w) (d + unat c) (unat n) @ drop (unat n) (pbuf_bytes w ps)"
    "\<And>a. (\<And>q. q \<in> set ps \<Longrightarrow> a \<notin> buf_span w q) \<Longrightarrow> octet w' a = octet w a" "pbufs w' = pbufs w"
  using assms
proof (induction ps arbitrary: p n c w thesis)
  case Nil
  then have "n = 0" by (simp add: unat_eq_zero)
  then show ?case using take_loop_end by (intro Nil.prems(1)) auto
next
  case (Cons x ps)
  have p: "p = x" "x \<noteq> NULL" "chain (pbuf_next w) (pbuf_next w x) ps" using Cons.prems(2) by auto
  show ?case
  proof (cases "n = 0")
    case True
    then show ?thesis using take_loop_end by (intro Cons.prems(1)) auto
  next
    case False
    define k where "k = min n (pb_len (pbufs w x))"
    have uk: "unat k = min (unat n) (buf_len w x)" by (simp add: k_def unat_min buf_len_def)
    have kn: "k \<le> n" by (simp add: k_def)
    have nk: "unat (n - k) = unat n - unat k" by (rule u16_sub [OF kn])
    have ck: "unat (c + k) = unat c + unat k" using Cons.prems(5) uk by (intro u16_add_small) simp
    define v where "v = MEMCPY (payload (pbufs w x)) (d + unat c) (unat k) w"
    have v: "pbufs v = pbufs w" "pbuf_next v = pbuf_next w" "buf_span v = buf_span w" "chain_len v = chain_len w" "buf_len v = buf_len w"
      by (simp_all add: v_def)
    have vo: "octet v q = octet w q" if "q \<notin> buf_span w x" for q
      unfolding v_def by (rule MEMCPY_outside) (use that uk in \<open>auto simp: buf_span_def\<close>)
    have apart: "buf_span w x \<inter> buf_span w q = {}" if "q \<in> set ps" for q using Cons.prems(3) that by simp
    have vps: "pbuf_bytes v ps = pbuf_bytes w ps" by (rule pbuf_bytes_outside [OF vo v(1)]) (use apart in auto)
    have src: "bytes_at (octet v) (d + unat c + unat k) (unat n - unat k) = bytes_at (octet w) (d + unat c + unat k) (unat n - unat k)"
      by (rule bytes_at_cong, rule vo) (use Cons.prems(6) [of x] uk in auto)
    obtain w' where IH: "take_loop (pbuf_next w x) d (n - k) (c + k) v = Some (c + k + (n - k), w')"
      "pbuf_bytes w' ps = bytes_at (octet v) (d + unat c + unat k) (unat n - unat k) @ drop (unat n - unat k) (pbuf_bytes v ps)"
      "\<And>a. (\<And>q. q \<in> set ps \<Longrightarrow> a \<notin> buf_span w q) \<Longrightarrow> octet w' a = octet v a" "pbufs w' = pbufs w"
    proof (rule Cons.IH [where w = v and p = "pbuf_next w x" and n = "n - k" and c = "c + k"])
      show "chain (pbuf_next v) (pbuf_next w x) ps" using p(3) v(2) by simp
      show "spans_apart v ps" using Cons.prems(3) v(3) by (simp add: spans_apart_def)
      show "unat (n - k) \<le> chain_len v ps" using Cons.prems(4) nk uk v(4) by auto
      show "unat (c + k) + unat (n - k) < 65536" using Cons.prems(5) nk uk ck by simp
      fix q assume "q \<in> set ps"
      then show "buf_span v q \<inter> {d + unat (c + k)..<d + unat (c + k) + unat (n - k)} = {}"
        using Cons.prems(6) [of q] nk uk ck v(3) by auto
    qed (use ck nk v in \<open>auto simp: add.assoc\<close>)
    have run: "take_loop p d n c w = Some (c + n, w')"
      using take_loop_step [OF False p(2) k_def, of d c] IH(1) p(1) by (simp add: v_def)
    have w'x: "octet w' q = octet v q" if "q \<in> buf_span w x" for q using IH(3) [of q] apart that by auto
    have "buf_bytes w' x = buf_bytes v x" by (rule buf_bytes_outside) (use w'x v IH(4) in auto)
    also have "\<dots> = bytes_at (octet v) (payload (pbufs w x)) (unat k + (buf_len w x - unat k))"
      using uk v by (simp add: buf_bytes_def)
    also have "\<dots> = bytes_at (octet w) (d + unat c) (unat k) @ bytes_at (octet v) (payload (pbufs w x) + unat k) (buf_len w x - unat k)"
      unfolding bytes_at_append by (simp add: v_def bytes_MEMCPY)
    also have "bytes_at (octet v) (payload (pbufs w x) + unat k) (buf_len w x - unat k)
        = bytes_at (octet w) (payload (pbufs w x) + unat k) (buf_len w x - unat k)"
      unfolding v_def by (rule bytes_MEMCPY_outside) auto
    also have "\<dots> = drop (unat k) (buf_bytes w x)" using uk by (simp add: buf_bytes_def bytes_at_drop)
    finally have bx: "buf_bytes w' x = bytes_at (octet w) (d + unat c) (unat k) @ drop (unat k) (buf_bytes w x)" .
    have total: "pbuf_bytes w' (x # ps) = bytes_at (octet w) (d + unat c) (unat n) @ drop (unat n) (pbuf_bytes w (x # ps))"
    proof (cases "unat n \<le> buf_len w x")
      case True
      then show ?thesis using bx IH(2) uk vps by simp
    next
      case F: False
      then have "unat k + (unat n - unat k) = unat n" "buf_len w x = unat k" using uk by auto
      then show ?thesis using bx IH(2) vps src bytes_at_append [of "octet w" "d + unat c" "unat k" "unat n - unat k"] by simp
    qed
    show ?thesis
    proof (rule Cons.prems(1) [OF run total])
      fix a assume "\<And>q. q \<in> set (x # ps) \<Longrightarrow> a \<notin> buf_span w q"
      then show "octet w' a = octet w a" using IH(3) [of a] vo [of a] by auto
    qed (rule IH(4))
  qed
qed

section \<open>Searching\<close>

lemma seek_loop_spec:
  assumes "chain (pbuf_next w) p ps"
  obtains q k where "seek_loop w p off = Some (q, k)" "q = NULL" "chain_len w ps \<le> unat off"
  | q k xs ys where "seek_loop w p off = Some (q, k)" "ps = xs @ q # ys" "q \<noteq> NULL" "k < pb_len (pbufs w q)"
      "chain_len w xs + unat k = unat off" "chain (pbuf_next w) q (q # ys)"
  using assms
proof (induction ps arbitrary: p off thesis)
  case Nil
  have "seek_loop w p off = Some (p, off)" using Nil.prems(3) by (subst seek_loop.simps) simp
  then show ?case using Nil.prems(1,3) by simp
next
  case (Cons x ps)
  have p: "p = x" "x \<noteq> NULL" "chain (pbuf_next w) (pbuf_next w x) ps" using Cons.prems(3) by auto
  show ?case
  proof (cases "pb_len (pbufs w x) \<le> off")
    case True
    have le: "buf_len w x \<le> unat off" using True by (simp add: buf_len_def word_le_nat_alt)
    have sub: "unat (off - pb_len (pbufs w x)) = unat off - buf_len w x" using u16_sub [OF True] by (simp add: buf_len_def)
    have run: "seek_loop w p off = seek_loop w (pbuf_next w x) (off - pb_len (pbufs w x))"
      using p True by (subst seek_loop.simps) simp
    show ?thesis
    proof (rule Cons.IH [OF _ _ p(3), of "off - pb_len (pbufs w x)"])
      fix q k assume "seek_loop w (pbuf_next w x) (off - pb_len (pbufs w x)) = Some (q, k)" "q = NULL"
        "chain_len w ps \<le> unat (off - pb_len (pbufs w x))"
      then show thesis using Cons.prems(1) run sub le by simp
    next
      fix q k xs ys
      assume a: "seek_loop w (pbuf_next w x) (off - pb_len (pbufs w x)) = Some (q, k)" "ps = xs @ q # ys" "q \<noteq> NULL"
        "k < pb_len (pbufs w q)" "chain_len w xs + unat k = unat (off - pb_len (pbufs w x))" "chain (pbuf_next w) q (q # ys)"
      show thesis by (rule Cons.prems(2) [of q k "x # xs" ys]) (use a run sub le in auto)
    qed
  next
    case False
    have "seek_loop w p off = Some (p, off)" using False p by (subst seek_loop.simps) simp
    then show ?thesis using Cons.prems(2) [of p off "[]" ps] Cons.prems(3) False p by simp
  qed
qed

lemma pbuf_bytes_append: "pbuf_bytes w (xs @ ys) = pbuf_bytes w xs @ pbuf_bytes w ys"
  by (simp add: pbuf_bytes_def)

lemma buf_len_bound: "buf_len w p < 65536"
  unfolding buf_len_def using unsigned_less [of "pb_len (pbufs w p)"] by simp

lemma pbuf_get_at_spec:
  assumes "chain (pbuf_next w) p ps"
  shows "pbuf_get_at w p off = Some (if unat off < chain_len w ps then pbuf_bytes w ps ! unat off else 0)"
  using assms
proof (cases rule: seek_loop_spec [of w p ps off, consumes 1, case_names none some])
  case (none q k)
  then show ?thesis by (simp add: pbuf_get_at_def)
next
  case (some q k xs ys)
  have k: "unat k < buf_len w q" using some(4) by (simp add: buf_len_def word_less_nat_alt)
  have "pbuf_bytes w ps ! unat off = buf_bytes w q ! unat k"
    using k by (simp add: some(2) pbuf_bytes_append nth_append some(5) [symmetric])
  moreover have "buf_bytes w q ! unat k = octet w (payload (pbufs w q) + unat k)"
    using k by (simp add: buf_bytes_def bytes_at_def)
  moreover have "unat off < chain_len w ps" using k some(5) by (simp add: some(2) chain_len_def)
  ultimately show ?thesis using some(1,3,4) by (simp add: pbuf_get_at_def)
qed

text \<open>Where two byte strings of the same length first differ, counted from 1; 0 when they are equal.\<close>

fun first_diff :: "u8 list \<Rightarrow> u8 list \<Rightarrow> nat" where
  "first_diff (a # as) (b # bs) = (if a \<noteq> b then 1 else if first_diff as bs = 0 then 0 else Suc (first_diff as bs))"
| "first_diff _ _ = 0"

lemma first_diff_0: "length as = length bs \<Longrightarrow> first_diff as bs = 0 \<longleftrightarrow> as = bs"
  by (induction as bs rule: first_diff.induct) (auto split: if_splits)

lemma first_diff_le: "first_diff as bs \<le> length bs"
  by (induction as bs rule: first_diff.induct) auto

lemma memcmp_loop_spec:
  assumes "chain (pbuf_next w) q ps" "unat off + (i + k) \<le> chain_len w ps" "chain_len w ps < 65536"
  shows "memcmp_loop w q off s2 i k =
    (let d = first_diff (take k (drop (unat off + i) (pbuf_bytes w ps))) (bytes_at (octet w) (s2 + i) k)
     in Some (if d = 0 then 0 else word_of_nat (i + d)))"
  using assms(2)
proof (induction k arbitrary: i)
  case (Suc k)
  have "unat (word_of_nat i :: u16) = i" using Suc.prems assms(3) by (intro unat_u16) simp
  then have u: "unat (off + word_of_nat i) = unat off + i" using Suc.prems assms(3) u16_add_small [of off "word_of_nat i"] by simp
  have len: "unat off + i < length (pbuf_bytes w ps)" using Suc.prems by simp
  have get: "pbuf_get_at w q (off + word_of_nat i) = Some (pbuf_bytes w ps ! (unat off + i))"
    using pbuf_get_at_spec [OF assms(1)] u len by simp
  have drop: "take (Suc k) (drop (unat off + i) (pbuf_bytes w ps)) =
      pbuf_bytes w ps ! (unat off + i) # take k (drop (unat off + (i + 1)) (pbuf_bytes w ps))"
    using Cons_nth_drop_Suc [OF len] by (metis take_Suc_Cons add.assoc Suc_eq_plus1)
  show ?case using Suc.IH [of "i + 1"] Suc.prems
    by (simp only: memcmp_loop.simps get drop bytes_at_Suc) (auto simp: Let_def add.assoc)
qed simp

lemma chain_len_append [simp]: "chain_len w (xs @ ys) = chain_len w xs + chain_len w ys"
  by (simp add: chain_len_def)

lemma pbuf_memcmp_spec:
  assumes "chain (pbuf_next w) p ps" "chain_len w ps < 65536" "unat off < chain_len w ps" "unat off + unat n \<le> chain_len w ps"
  shows "pbuf_memcmp w p off s2 n =
    Some (word_of_nat (first_diff (take (unat n) (drop (unat off) (pbuf_bytes w ps))) (bytes_at (octet w) s2 (unat n))))"
  using assms(1)
proof (cases rule: seek_loop_spec [of w p ps off, consumes 1, case_names none some])
  case (none q k)
  then show ?thesis using assms(3) by simp
next
  case (some q k xs ys)
  have "drop (unat off) (pbuf_bytes w ps) = drop (unat k) (pbuf_bytes w (q # ys))"
    by (simp add: some(2) some(5) [symmetric] pbuf_bytes_append del: pbuf_bytes_simps(2))
  moreover have "unat k + (0 + unat n) \<le> chain_len w (q # ys)" "chain_len w (q # ys) < 65536"
    using assms(2,4) some(2) some(5) [symmetric] by simp_all
  note memcmp_loop_spec [OF some(6) this, of s2]
  ultimately show ?thesis using some(1,3,4) by (simp add: pbuf_memcmp_def Let_def)
qed

lemma first_diff_take: "first_diff (take n xs) (bytes_at m s n) \<le> n"
  using first_diff_le [of "take n xs" "bytes_at m s n"] by (simp only: length_bytes_at)

text \<open>The scan of \<open>pbuf_memfind\<close>: it ends, and an index other than 0xffff is a match.\<close>

lemma memfind_loop_spec:
  assumes c: "chain (pbuf_next w) p ps" "chain_len w ps < 65536" "n \<noteq> 0" "unat n + unat maxi = chain_len w ps"
  shows "unat i \<le> chain_len w ps \<Longrightarrow> \<exists>r. memfind_loop w p s n maxi i = Some r \<and>
    (r = 0xffff \<or> i \<le> r \<and> unat r + unat n \<le> chain_len w ps \<and> take (unat n) (drop (unat r) (pbuf_bytes w ps)) = bytes_at (octet w) s (unat n))"
proof (induction "chain_len w ps - unat i" arbitrary: i rule: less_induct)
  case less
  show ?case
  proof (cases "i \<le> maxi")
    case False
    then show ?thesis by (subst memfind_loop.simps) simp
  next
    case True
    have n0: "0 < unat n" using c(3) by (simp add: unat_gt_0)
    have le: "unat i + unat n \<le> chain_len w ps" using True c(4) by (simp add: word_le_nat_alt)
    define d where "d = first_diff (take (unat n) (drop (unat i) (pbuf_bytes w ps))) (bytes_at (octet w) s (unat n))"
    have cmp: "pbuf_memcmp w p i s n = Some (word_of_nat d)"
      unfolding d_def by (rule pbuf_memcmp_spec [OF c(1,2) _ le]) (use le n0 in simp)
    have dn: "d \<le> unat n" unfolding d_def by (rule first_diff_take)
    have ud: "unat (word_of_nat d :: u16) = d" using dn le c(2) by (intro unat_u16) simp
    show ?thesis
    proof (cases "d = 0")
      case True
      have "take (unat n) (drop (unat i) (pbuf_bytes w ps)) = bytes_at (octet w) s (unat n)"
        using True le first_diff_0 [of "take (unat n) (drop (unat i) (pbuf_bytes w ps))" "bytes_at (octet w) s (unat n)"]
        by (simp add: d_def)
      moreover have "memfind_loop w p s n maxi i = Some i" using \<open>i \<le> maxi\<close> cmp True by (subst memfind_loop.simps) simp
      ultimately show ?thesis using le by auto
    next
      case False
      then have nz: "(word_of_nat d :: u16) \<noteq> 0" using ud by (metis unat_0)
      have step: "memfind_loop w p s n maxi i = memfind_loop w p s n maxi (i + word_of_nat d)"
        using \<open>i \<le> maxi\<close> cmp nz by (subst memfind_loop.simps) simp
      have ui: "unat (i + word_of_nat d) = unat i + d" using u16_add_small [of i "word_of_nat d"] ud dn le c(2) by simp
      then have "i \<le> i + word_of_nat d" by (simp add: word_le_nat_alt)
      moreover have "chain_len w ps - unat (i + word_of_nat d) < chain_len w ps - unat i" "unat (i + word_of_nat d) \<le> chain_len w ps"
        using ui dn le False by linarith+
      note less.hyps [OF this]
      then obtain r where "memfind_loop w p s n maxi (i + word_of_nat d) = Some r"
        "r = 0xffff \<or> i + word_of_nat d \<le> r \<and> unat r + unat n \<le> chain_len w ps
          \<and> take (unat n) (drop (unat r) (pbuf_bytes w ps)) = bytes_at (octet w) s (unat n)"
        by blast
      ultimately show ?thesis unfolding step using order_trans by blast
    qed
  qed
qed

section \<open>Properties\<close>

text \<open>Two buffers of 3 and 2 bytes that carry "aabxy", the text "ab" at 700 and room at 800.\<close>

definition demo_bufs :: lw where
  "demo_bufs = demo_lw\<lparr>octet := (\<lambda>_. 0)(500 := 97, 501 := 97, 502 := 98, 600 := 120, 601 := 121, 700 := 97, 701 := 98)\<rparr>"

lemma demo_bufs:
  "chain (pbuf_next demo_bufs) 100 [100, 200]" "pbuf_bytes demo_bufs [100, 200] = [97, 97, 98, 120, 121]"
  "spans_apart demo_bufs [100, 200]" "chain_len demo_bufs [100, 200] = 5" "unat (tot_len (pbufs demo_bufs 100)) = 5"
  "buf_span demo_bufs 100 = {500..<503}" "buf_span demo_bufs 200 = {600..<602}"
proof -
  show "chain (pbuf_next demo_bufs) 100 [100, 200]" by (simp add: demo_bufs_def demo_lw_def demo_pbuf_def pbuf_next_def)
  have len: "buf_len demo_bufs 100 = 3" "buf_len demo_bufs 200 = 2"
    by (simp_all add: demo_bufs_def demo_lw_def demo_pbuf_def buf_len_def)
  have pay: "payload (pbufs demo_bufs 100) = 500" "payload (pbufs demo_bufs 200) = 600"
    by (simp_all add: demo_bufs_def demo_lw_def demo_pbuf_def)
  show "unat (tot_len (pbufs demo_bufs 100)) = 5" by (simp add: demo_bufs_def demo_lw_def demo_pbuf_def)
  show s: "buf_span demo_bufs 100 = {500..<503}" "buf_span demo_bufs 200 = {600..<602}"
    by (simp_all add: buf_span_def len pay)
  show "spans_apart demo_bufs [100, 200]" by (simp add: s) (simp add: spans_apart_def)
  show "chain_len demo_bufs [100, 200] = 5" by (simp add: len)
  have "bytes_at (octet demo_bufs) 500 (Suc (Suc (Suc 0))) = [97, 97, 98]" "bytes_at (octet demo_bufs) 600 (Suc (Suc 0)) = [120, 121]"
    by (simp_all add: bytes_at_Suc demo_bufs_def)
  then show "pbuf_bytes demo_bufs [100, 200] = [97, 97, 98, 120, 121]"
    by (simp add: buf_bytes_def len pay numeral_3_eq_3 numeral_2_eq_2)
qed

text \<open>
  C24: what \<open>pbuf_take\<close> puts into a chain of buffers \<open>pbuf_copy_partial\<close> gets back: any part of
  the data, however the chain cuts it, with nothing written outside the chain and the target
  and the rest of the chain unchanged.
\<close>

theorem take_copy_roundtrip:
  assumes "chain (pbuf_next w) p ps" "ps \<noteq> []" "spans_apart w ps" "unat (tot_len (pbufs w p)) = chain_len w ps"
    "unat n \<le> chain_len w ps" "d \<noteq> NULL" "e \<noteq> NULL" "unat off + unat k \<le> unat n"
    "\<And>q. q \<in> set ps \<Longrightarrow> buf_span w q \<inter> {d..<d + unat n} = {} \<and> buf_span w q \<inter> {e..<e + unat k} = {}"
  shows "\<exists>w1 w2. pbuf_take p d n w = Some (ERR_OK, w1) \<and> pbuf_copy_partial p e k off w1 = Some (k, w2)
    \<and> pbuf_bytes w1 ps = bytes_at (octet w) d (unat n) @ drop (unat n) (pbuf_bytes w ps)
    \<and> bytes_at (octet w2) e (unat k) = bytes_at (octet w) (d + unat off) (unat k)
    \<and> (\<forall>a. (\<forall>q\<in>set ps. a \<notin> buf_span w q) \<longrightarrow> a \<notin> {e..<e + unat k} \<longrightarrow> octet w2 a = octet w a)"
proof -
  have n: "unat n < 65536" "p \<noteq> NULL" "\<not> tot_len (pbufs w p) < n"
    using unsigned_less [of n] assms(1,2,4,5) by (auto simp: word_less_nat_alt neq_Nil_conv)
  obtain w1 where w1: "take_loop p d n 0 w = Some (0 + n, w1)"
    "pbuf_bytes w1 ps = bytes_at (octet w) (d + unat (0 :: u16)) (unat n) @ drop (unat n) (pbuf_bytes w ps)"
    "\<And>a. (\<And>q. q \<in> set ps \<Longrightarrow> a \<notin> buf_span w q) \<Longrightarrow> octet w1 a = octet w a" "pbufs w1 = pbufs w"
    by (rule take_loop_spec [OF assms(1,3,5), where c = 0 and d = d]) (use n assms(9) in auto)
  note same = same_pbufs [OF w1(4)]
  obtain w2 j where w2: "copy_partial_loop p e k off 0 0 w1 = Some (0 + j, w2)"
    "unat j = length (take (unat k) (drop (unat off) (pbuf_bytes w1 ps)))"
    "bytes_at (octet w2) (e + unat (0 :: u16)) (unat j) = take (unat k) (drop (unat off) (pbuf_bytes w1 ps))"
    "\<And>q. q \<notin> {e + unat (0 :: u16)..<e + unat (0 :: u16) + unat k} \<Longrightarrow> octet w2 q = octet w1 q" "pbufs w2 = pbufs w1"
    by (rule copy_partial_loop_spec [where w = w1 and p = p and ps = ps and left = 0 and n = k and e = e and off = off and tot = 0])
      (use assms(1,8,9) n same in auto)
  have "unat j = unat k" using w2(2) assms(5,8) same by simp
  then have j: "j = k" by simp
  have "take (unat k) (drop (unat off) (pbuf_bytes w1 ps)) = bytes_at (octet w) (d + unat off) (unat k)"
    using assms(8) by (simp add: w1(2) bytes_at_drop bytes_at_take)
  then have "bytes_at (octet w2) e (unat k) = bytes_at (octet w) (d + unat off) (unat k)" using w2(3) j by simp
  moreover have "pbuf_take p d n w = Some (ERR_OK, w1)" using w1(1) n assms(6) by (simp add: pbuf_take_def)
  moreover have "pbuf_copy_partial p e k off w1 = Some (k, w2)" using w2(1) j n(2) assms(7) by (simp add: pbuf_copy_partial_def)
  ultimately show ?thesis using w1(2,3) w2(4) by auto
qed

lemma take_copy_roundtrip_witness:
  "\<exists>w1 w2. pbuf_take 100 700 2 demo_bufs = Some (ERR_OK, w1) \<and> pbuf_copy_partial 100 800 1 1 w1 = Some (1, w2)
    \<and> bytes_at (octet w2) 800 1 = bytes_at (octet demo_bufs) 701 1"
proof -
  have h: "buf_span demo_bufs q \<inter> {700..<700 + unat (2 :: u16)} = {} \<and> buf_span demo_bufs q \<inter> {800..<800 + unat (1 :: u16)} = {}"
    if "q \<in> set [100, 200]" for q using that by (auto simp: demo_bufs(6,7))
  have "unat (tot_len (pbufs demo_bufs 100)) = chain_len demo_bufs [100, 200]" by (simp only: demo_bufs(4,5))
  from take_copy_roundtrip [OF demo_bufs(1) _ demo_bufs(3) this, of 2 700 800 1 1, OF _ _ _ _ _ h]
  show ?thesis by (auto simp: demo_bufs(4) simp del: chain_len_simps)
qed

text \<open>
  C25: a search in a chain of buffers ends, and an index it returns, other than 0xffff, is one
  not before the start at which the pattern really stands.
\<close>

theorem memfind_sound:
  assumes "chain (pbuf_next w) p ps" "unat (tot_len (pbufs w p)) = chain_len w ps" "n \<noteq> 0"
  shows "\<exists>r. pbuf_memfind w p s n off = Some r \<and> (r = 0xffff \<or> off \<le> r \<and> unat r + unat n \<le> chain_len w ps
    \<and> take (unat n) (drop (unat r) (pbuf_bytes w ps)) = bytes_at (octet w) s (unat n))"
proof (cases "unat n + unat off \<le> chain_len w ps")
  case True
  have small: "chain_len w ps < 65536" using assms(2) u16_bound [of "tot_len (pbufs w p)"] by simp
  have "unat n + unat (tot_len (pbufs w p) - n) = chain_len w ps"
    using True assms(2) u16_sub [of n "tot_len (pbufs w p)"] by (simp add: word_le_nat_alt)
  from memfind_loop_spec [OF assms(1) small assms(3) this, of off s] True assms(2)
  show ?thesis by (simp add: pbuf_memfind_def)
qed (use assms(2) in \<open>simp add: pbuf_memfind_def\<close>)

lemma memfind_sound_witness: "\<exists>r. pbuf_memfind demo_bufs 100 700 2 0 = Some r"
  using memfind_sound [OF demo_bufs(1), of 2 700 0] demo_bufs(4,5) by auto

text \<open>
  C26: the search is not complete. After a mismatch it goes on behind the byte that differed,
  so it misses a match that begins with that byte: "ab" is not found in a buffer whose bytes
  begin with "aab", for any two different characters.
\<close>

theorem strstr_misses:
  assumes c: "chain (pbuf_next w) p ps" "unat (tot_len (pbufs w p)) = 3" "pbuf_bytes w ps = [a, a, b]"
    and s: "s \<noteq> NULL" "bytes_at (octet w) s 3 = [a, b, 0]" "a \<noteq> b" "a \<noteq> 0" "b \<noteq> 0"
  shows "pbuf_strstr w p s = Some 0xffff \<and> take 2 (drop 1 (pbuf_bytes w ps)) = bytes_at (octet w) s 2"
proof
  have oct: "octet w s = a" "octet w (Suc s) = b" "octet w (Suc (Suc s)) = 0"
    using s(2) by (simp_all add: numeral_3_eq_3 bytes_at_Suc)
  show "take 2 (drop 1 (pbuf_bytes w ps)) = bytes_at (octet w) s 2"
    using c(3) oct by (simp add: numeral_2_eq_2 bytes_at_Suc)
  have bs: "bytes_at (octet w) s 2 = [a, b]" using oct by (simp add: numeral_2_eq_2 bytes_at_Suc)
  have len: "chain_len w ps = 3" using arg_cong [OF c(3), of length] by simp
  have "strlen (octet w) s = Some 2"
    using oct s(4,5) by (subst strlen.simps, subst strlen.simps, subst strlen.simps) simp
  moreover have tot: "tot_len (pbufs w p) = 3" using c(2) by (intro word_unat_eq_iff [THEN iffD2]) simp
  moreover have "pbuf_memcmp w p 0 s 2 = Some 2"
    using pbuf_memcmp_spec [OF c(1), of 0 2 s] len c(3) bs s(3) by simp
  then have "memfind_loop w p s 2 1 0 = Some 0xffff"
    by (subst memfind_loop.simps, simp, subst memfind_loop.simps, simp add: word_le_nat_alt)
  ultimately show "pbuf_strstr w p s = Some 0xffff" using s oct by (simp add: pbuf_strstr_def pbuf_memfind_def)
qed

definition demo_aab :: lw where
  "demo_aab = upd_pbuf 100 (\<lambda>b. b\<lparr>pb_next := NULL, tot_len := 3\<rparr>) demo_bufs"

lemma strstr_misses_witness: "pbuf_strstr demo_aab 100 700 = Some 0xffff"
proof (rule strstr_misses [THEN conjunct1])
  show "chain (pbuf_next demo_aab) 100 [100]" "unat (tot_len (pbufs demo_aab 100)) = 3"
    by (simp_all add: demo_aab_def pbuf_next_def)
  have "buf_bytes demo_aab 100 = buf_bytes demo_bufs 100"
    by (simp add: demo_aab_def buf_bytes_def buf_len_def)
  moreover have "buf_bytes demo_bufs 100 = [97, 97, 98]"
  proof -
    have "buf_len demo_bufs 100 = 3" by (simp add: buf_len_def demo_bufs_def demo_lw_def demo_pbuf_def)
    then have "take 3 (pbuf_bytes demo_bufs [100, 200]) = buf_bytes demo_bufs 100" by simp
    then show ?thesis unfolding demo_bufs(2) by simp
  qed
  ultimately show "pbuf_bytes demo_aab [100] = [97, 97, 98]" by simp
  show "bytes_at (octet demo_aab) 700 3 = [97, 98, 0]"
    by (simp add: demo_aab_def demo_bufs_def numeral_3_eq_3 bytes_at_Suc)
qed simp_all

end
