(* ===== verification/Pbuf_Pool.thy ===== *)
theory Pbuf_Pool
  imports Pbuf_Props
begin

text \<open>
  Packet buffers from the pool: \<open>pbuf_alloc\<close> takes a chain of pool elements or none, and
  \<open>pbuf_free\<close> gives back the elements up to the first that is still referenced.
\<close>

text \<open>\<open>tot_len\<close> of every buffer of a chain is the length from there to the end.\<close>

fun tots_ok :: "lw \<Rightarrow> ptr list \<Rightarrow> bool" where
  "tots_ok w [] \<longleftrightarrow> True"
| "tots_ok w (p # ps) \<longleftrightarrow> unat (tot_len (pbufs w p)) = chain_len w (p # ps) \<and> tots_ok w ps"

definition fresh :: "lw \<Rightarrow> ptr \<Rightarrow> bool" where
  "fresh w p \<longleftrightarrow> pb_ref (pbufs w p) = 1 \<and> pb_type (pbufs w p) = PBUF_POOL"

text \<open>The payload lies in the pool element of the buffer.\<close>

definition own :: "lw \<Rightarrow> ptr \<Rightarrow> bool" where
  "own w p \<longleftrightarrow> p + SIZEOF_STRUCT_PBUF \<le> payload (pbufs w p)
     \<and> payload (pbufs w p) + buf_len w p \<le> p + SIZEOF_STRUCT_PBUF + PBUF_POOL_BUFSIZE_ALIGNED"

lemma pbufs_cong:
  assumes "\<And>p. p \<in> set ps \<Longrightarrow> pbufs w' p = pbufs w p"
  shows "chain_len w' ps = chain_len w ps" "tots_ok w' ps = tots_ok w ps" "list_all (fresh w') ps = list_all (fresh w) ps"
proof -
  have l: "chain_len w' ps = chain_len w ps" if "\<And>p. p \<in> set ps \<Longrightarrow> pbufs w' p = pbufs w p" for ps
    using that by (induction ps) (auto simp: buf_len_def)
  show "chain_len w' ps = chain_len w ps" by (rule l [OF assms])
  show "tots_ok w' ps = tots_ok w ps" using assms
  proof (induction ps)
    case (Cons p ps)
    then show ?case using l [of "p # ps"] by (simp del: chain_len_simps)
  qed simp
  show "list_all (fresh w') ps = list_all (fresh w) ps" using assms by (induction ps) (auto simp: fresh_def)
qed

section \<open>Allocation\<close>

text \<open>One buffer of the tail: the writes of one round of the loop.\<close>

definition pool_link :: "ptr \<Rightarrow> ptr \<Rightarrow> nat \<Rightarrow> lw \<Rightarrow> lw" where
  "pool_link r q n w = w\<lparr>pbufs := (pbufs w)(r := (pbufs w r)\<lparr>pb_next := q\<rparr>,
     q := (pbufs w q)\<lparr>pb_type := PBUF_POOL, pb_flags := 0, pb_next := NULL, tot_len := word_of_nat n,
       pb_len := word_of_nat (min n PBUF_POOL_BUFSIZE_ALIGNED), payload := q + SIZEOF_STRUCT_PBUF, pb_ref := 1\<rparr>)\<rparr>"

lemma pool_link_sel [simp]:
  "pool_ok i xs (pool_link r q n w) = pool_ok i xs w" "octet (pool_link r q n w) = octet w"
  by (simp_all add: pool_link_def pool_ok_def)

lemma pool_tail_empty: "pool_ok MEMP_PBUF_POOL [] w \<Longrightarrow> n > 0 \<Longrightarrow> pool_tail r n w = Some (False, w)"
  by (subst pool_tail.simps) (simp add: memp_malloc_empty)

lemma pool_tail_end: "pool_tail r 0 w = Some (True, w)"
  by (subst pool_tail.simps) simp

lemma pool_tail_step:
  assumes "pool_ok MEMP_PBUF_POOL (q # xs) w" "0 < n" "n < 65535" "r \<noteq> q"
  shows "pool_tail r n w = pool_tail q (n - min n PBUF_POOL_BUFSIZE_ALIGNED) (pool_link r q n (memp_take MEMP_PBUF_POOL w))"
proof -
  have q: "q \<noteq> NULL" "q mod 4 = 0" "memp_malloc MEMP_PBUF_POOL w = Some (q, memp_take MEMP_PBUF_POOL w)"
    using memp_malloc_take [OF assms(1)] assms(1) by (auto simp: pool_ok_def)
  have "(q + 16) mod 4 = 0" using q(2) by presburger
  then show ?thesis using assms q
    by (subst pool_tail.simps) (simp add: Let_def upd_pbuf_def pool_link_def fun_upd_twist)
qed

text \<open>The number of buffers \<open>n\<close> bytes take.\<close>

definition nbufs :: "nat \<Rightarrow> nat" where
  "nbufs n = (n + 1515) div 1516"

lemma nbufs_0 [simp]: "nbufs 0 = 0"
  by (simp add: nbufs_def)

lemma nbufs_step: "0 < n \<Longrightarrow> nbufs n = Suc (nbufs (n - min n 1516))"
proof (cases "n \<le> 1516")
  case True
  moreover assume "0 < n"
  moreover have "(n + 1515) div 1516 = 1" if "0 < n" "n \<le> 1516" using that by auto
  ultimately show ?thesis by (simp add: nbufs_def)
next
  case False
  then have "n + 1515 = (n - 1516) + 1515 + 1 * 1516" by simp
  then have "(n + 1515) div 1516 = ((n - 1516) + 1515 + 1 * 1516) div 1516" by (rule arg_cong)
  then show ?thesis using False by (simp add: nbufs_def min_def)
qed

lemma pb_next_id: "pbuf_next w r = q \<Longrightarrow> (pbufs w r)\<lparr>pb_next := q\<rparr> = pbufs w r"
  by (auto simp: pbuf_next_def)

lemma pool_tail_spec:
  assumes "pool_ok MEMP_PBUF_POOL xs w" "n < 65535" "r \<notin> set xs" "pbuf_next w r = NULL"
  obtains w' where "pool_tail r n w = Some (nbufs n \<le> length xs, w')"
    "chain (pbuf_next w') (pbuf_next w' r) (take (nbufs n) xs)"
    "pool_ok MEMP_PBUF_POOL (drop (nbufs n) xs) w'"
    "list_all (fresh w') (take (nbufs n) xs)" "list_all (own w') (take (nbufs n) xs)"
    "nbufs n \<le> length xs \<Longrightarrow> chain_len w' (take (nbufs n) xs) = n \<and> tots_ok w' (take (nbufs n) xs)"
    "\<And>p. p \<noteq> r \<Longrightarrow> p \<notin> set xs \<Longrightarrow> pbufs w' p = pbufs w p" "pbufs w' r = (pbufs w r)\<lparr>pb_next := pbuf_next w' r\<rparr>"
    "octet w' = octet w"
  using assms
proof (induction xs arbitrary: n r w thesis)
  case Nil
  show ?case
  proof (cases "n = 0")
    case True
    show ?thesis by (rule Nil.prems(1) [of w]) (use Nil.prems(2-) True pool_tail_end in \<open>auto simp: pb_next_id\<close>)
  next
    case False
    then have "nbufs n \<noteq> 0" by (simp add: nbufs_step)
    then show ?thesis
      by (intro Nil.prems(1) [of w]) (use Nil.prems(2-) False pool_tail_empty [of w n r] in \<open>auto simp: pb_next_id\<close>)
  qed
next
  case (Cons q xs)
  show ?case
  proof (cases "n = 0")
    case True
    show ?thesis by (rule Cons.prems(1) [of w]) (use Cons.prems(2-) True pool_tail_end in \<open>auto simp: pb_next_id\<close>)
  next
    case False
    define m where "m = n - min n 1516"
    have k: "nbufs n = Suc (nbufs m)" using nbufs_step [of n] False by (simp add: m_def)
    let ?k = "nbufs m"
    have rq: "r \<noteq> q" "r \<notin> set xs" "q \<notin> set xs" using Cons.prems(2,4) by (auto simp: pool_ok_def)
    define v where "v = pool_link r q n (memp_take MEMP_PBUF_POOL w)"
    have step: "pool_tail r n w = pool_tail q m v"
      using pool_tail_step [OF Cons.prems(2) _ Cons.prems(3) rq(1)] False by (simp add: v_def m_def)
    have q: "q \<noteq> NULL" "pool_ok MEMP_PBUF_POOL xs v" using memp_malloc_take [OF Cons.prems(2)] by (auto simp: v_def)
    have vq: "pbuf_next v q = NULL" "fresh v q" "buf_len v q = min n 1516" "unat (tot_len (pbufs v q)) = n"
      "payload (pbufs v q) = q + 16"
      using unat_u16 [of n] unat_u16 [of "min n 1516"] Cons.prems(3)
      by (simp_all add: v_def pool_link_def pbuf_next_def fresh_def buf_len_def)
    have vr: "pbufs v r = (pbufs w r)\<lparr>pb_next := q\<rparr>" using rq by (simp add: v_def pool_link_def)
    have vo: "pbufs v p = pbufs w p" if "p \<noteq> r" "p \<noteq> q" for p using that by (simp add: v_def pool_link_def)
    obtain w' where IH: "pool_tail q m v = Some (?k \<le> length xs, w')"
      "chain (pbuf_next w') (pbuf_next w' q) (take ?k xs)" "pool_ok MEMP_PBUF_POOL (drop ?k xs) w'"
      "list_all (fresh w') (take ?k xs)" "list_all (own w') (take ?k xs)"
      "?k \<le> length xs \<Longrightarrow> chain_len w' (take ?k xs) = m \<and> tots_ok w' (take ?k xs)"
      "\<And>p. p \<noteq> q \<Longrightarrow> p \<notin> set xs \<Longrightarrow> pbufs w' p = pbufs v p" "pbufs w' q = (pbufs v q)\<lparr>pb_next := pbuf_next w' q\<rparr>"
      "octet w' = octet v"
      by (rule Cons.IH [OF _ q(2) _ rq(3) vq(1), of m]) (use Cons.prems(3) in \<open>simp_all add: m_def\<close>)
    have w'q: "fresh w' q" "buf_len w' q = min n 1516" "unat (tot_len (pbufs w' q)) = n" "own w' q"
      using vq by (simp_all add: IH(8) fresh_def buf_len_def own_def)
    have w'r: "pbufs w' r = (pbufs w r)\<lparr>pb_next := q\<rparr>" using IH(7) [of r] rq vr by simp
    show ?thesis
    proof (rule Cons.prems(1) [of w'])
      show "pool_tail r n w = Some (nbufs n \<le> length (q # xs), w')" using step IH(1) k by simp
      show "chain (pbuf_next w') (pbuf_next w' r) (take (nbufs n) (q # xs))"
        using IH(2) q(1) w'r by (simp add: k pbuf_next_def)
      show "pool_ok MEMP_PBUF_POOL (drop (nbufs n) (q # xs)) w'" using IH(3) by (simp add: k)
      show "list_all (fresh w') (take (nbufs n) (q # xs))" using IH(4) w'q by (simp add: k)
      show "list_all (own w') (take (nbufs n) (q # xs))" using IH(5) w'q by (simp add: k)
      show "chain_len w' (take (nbufs n) (q # xs)) = n \<and> tots_ok w' (take (nbufs n) (q # xs))"
        if "nbufs n \<le> length (q # xs)" using that IH(6) w'q by (simp add: k m_def)
      show "pbufs w' p = pbufs w p" if "p \<noteq> r" "p \<notin> set (q # xs)" for p using that IH(7) [of p] vo [of p] by simp
      show "pbufs w' r = (pbufs w r)\<lparr>pb_next := pbuf_next w' r\<rparr>" using w'r by (simp add: pbuf_next_def)
      show "octet w' = octet w" using IH(9) by (simp add: v_def)
    qed
  qed
qed

section \<open>Release\<close>

lemma free_loop_NULL: "pbuf_free_loop NULL c w = Some (c, w)"
  by (subst pbuf_free_loop.simps) simp

text \<open>A buffer that stays referenced ends the loop; one that does not goes back to its pool.\<close>

lemma free_loop_keep:
  assumes "p \<noteq> NULL" "1 < pb_ref (pbufs w p)"
  shows "pbuf_free_loop p c w = Some (c, upd_pbuf p (\<lambda>b. b\<lparr>pb_ref := pb_ref b - 1\<rparr>) w)"
proof -
  have "pb_ref (pbufs w p) \<noteq> 0" "pb_ref (pbufs w p) - 1 \<noteq> 0" using assms(2) by auto
  then show ?thesis using assms(1) by (subst pbuf_free_loop.simps) (simp add: Let_def upd_pbuf_def)
qed

lemma free_loop_pool:
  assumes "p \<noteq> NULL" "fresh w p" "p mod 4 = 0" "pool_ok MEMP_PBUF_POOL fs w" "p \<notin> set fs"
  shows "pbuf_free_loop p c w =
    pbuf_free_loop (pbuf_next w p) (c + 1) (memp_give MEMP_PBUF_POOL p (upd_pbuf p (\<lambda>b. b\<lparr>pb_ref := 0\<rparr>) w))"
proof -
  have "memp_free MEMP_PBUF_POOL p (upd_pbuf p (\<lambda>b. b\<lparr>pb_ref := 0\<rparr>) w)
      = Some (memp_give MEMP_PBUF_POOL p (upd_pbuf p (\<lambda>b. b\<lparr>pb_ref := 0\<rparr>) w))"
    using assms by (intro memp_free_give(1) [of _ fs]) simp_all
  then show ?thesis using assms(1,2)
    by (subst pbuf_free_loop.simps) (simp add: Let_def fresh_def pbuf_next_def)
qed

lemma free_loop_spec:
  assumes "chain (pbuf_next w) p (xs @ ys)" "list_all (fresh w) xs" "pool_ok MEMP_PBUF_POOL fs w"
    "distinct (xs @ ys @ fs)" "\<forall>x\<in>set xs. x mod 4 = 0" "ys \<noteq> [] \<Longrightarrow> 1 < pb_ref (pbufs w (hd ys))"
  obtains w' where "pbuf_free_loop p c w = Some (c + word_of_nat (length xs), w')" "pool_ok MEMP_PBUF_POOL (rev xs @ fs) w'"
    "\<And>q. q \<notin> set xs \<Longrightarrow> pbufs w' q =
       (if ys \<noteq> [] \<and> q = hd ys then (pbufs w q)\<lparr>pb_ref := pb_ref (pbufs w q) - 1\<rparr> else pbufs w q)"
    "octet w' = octet w"
  using assms
proof (induction xs arbitrary: p c fs w thesis)
  case Nil
  show ?case
  proof (cases ys)
    case Nil
    then have "p = NULL" using Nil.prems(2) by simp
    then show ?thesis by (intro Nil.prems(1) [of w]) (use Nil.prems(4) Nil free_loop_NULL in simp_all)
  next
    case (Cons y zs)
    then have "p \<noteq> NULL" "p = y" "1 < pb_ref (pbufs w p)" using Nil.prems(2,7) by auto
    note keep = free_loop_keep [OF this(1,3), of c]
    show ?thesis
      by (rule Nil.prems(1) [of "upd_pbuf p (\<lambda>b. b\<lparr>pb_ref := pb_ref b - 1\<rparr>) w"])
        (use keep Nil.prems(4) Cons \<open>p = y\<close> in simp_all)
  qed
next
  case (Cons x xs)
  define v where "v = memp_give MEMP_PBUF_POOL x (upd_pbuf x (\<lambda>b. b\<lparr>pb_ref := 0\<rparr>) w)"
  have x: "p = x" "x \<noteq> NULL" "fresh w x" "x mod 4 = 0" "x \<notin> set fs" "x \<notin> set xs" "x \<notin> set ys" using Cons.prems(2-6) by auto
  have run: "pbuf_free_loop p c w = pbuf_free_loop (pbuf_next w x) (c + 1) v"
    using free_loop_pool [OF x(2,3,4) Cons.prems(4) x(5), of c] x(1) by (simp add: v_def)
  have vp: "pbufs v q = pbufs w q" if "q \<noteq> x" for q using that by (simp add: v_def)
  have nx: "pbuf_next v = pbuf_next w" by (auto simp: v_def pbuf_next_def)
  obtain w' where IH: "pbuf_free_loop (pbuf_next w x) (c + 1) v = Some (c + 1 + word_of_nat (length xs), w')"
    "pool_ok MEMP_PBUF_POOL (rev xs @ x # fs) w'"
    "\<And>q. q \<notin> set xs \<Longrightarrow> pbufs w' q =
       (if ys \<noteq> [] \<and> q = hd ys then (pbufs v q)\<lparr>pb_ref := pb_ref (pbufs v q) - 1\<rparr> else pbufs v q)"
    "octet w' = octet v"
  proof (rule Cons.IH [where w = v and p = "pbuf_next w x" and c = "c + 1" and fs = "x # fs"])
    show "chain (pbuf_next v) (pbuf_next w x) (xs @ ys)" using Cons.prems(2) x(1) nx by simp
    have "list_all (fresh v) xs = list_all (fresh w) xs" by (rule pbufs_cong(3), rule vp) (use x(6) in auto)
    then show "list_all (fresh v) xs" using Cons.prems(3) by simp
    show "pool_ok MEMP_PBUF_POOL (x # fs) v" unfolding v_def
      using Cons.prems(4) x by (intro memp_free_give(2)) simp_all
    show "distinct (xs @ ys @ x # fs)" using Cons.prems(5) by auto
    show "\<forall>y\<in>set xs. y mod 4 = 0" using Cons.prems(6) by simp
    show "1 < pb_ref (pbufs v (hd ys))" if "ys \<noteq> []" using Cons.prems(7) that vp [of "hd ys"] x(7) by (cases ys) auto
  qed auto
  show ?case
  proof (rule Cons.prems(1) [of w'])
    show "pbuf_free_loop p c w = Some (c + word_of_nat (length (x # xs)), w')" using run IH(1) by (simp add: ac_simps)
    show "pool_ok MEMP_PBUF_POOL (rev (x # xs) @ fs) w'" using IH(2) by simp
    show "octet w' = octet w" using IH(4) by (simp add: v_def)
    fix q assume "q \<notin> set (x # xs)"
    then show "pbufs w' q = (if ys \<noteq> [] \<and> q = hd ys then (pbufs w q)\<lparr>pb_ref := pb_ref (pbufs w q) - 1\<rparr> else pbufs w q)"
      using IH(3) [of q] vp [of q] by (cases "ys \<noteq> [] \<and> q = hd ys") auto
  qed
qed

section \<open>Properties\<close>

lemma layer_off: "unat (LWIP_MEM_ALIGN_SIZE (ucast (layer_offset layer))) = (unat (layer_offset layer) + 3) div 4 * 4"
  "unat (layer_offset layer) \<le> 54"
  by (cases layer; simp add: LWIP_MEM_ALIGN_SIZE_def)+

text \<open>The length of the first buffer of a chain of \<open>n\<close> bytes, and the number of buffers.\<close>

definition first_len :: "pbuf_layer \<Rightarrow> nat \<Rightarrow> nat" where
  "first_len layer n = min n (1516 - (unat (layer_offset layer) + 3) div 4 * 4)"

definition bufs_needed :: "pbuf_layer \<Rightarrow> nat \<Rightarrow> nat" where
  "bufs_needed layer n = Suc (nbufs (n - first_len layer n))"

text \<open>The first buffer as \<open>pbuf_alloc\<close> sets it up.\<close>

definition pool_first :: "pbuf_layer \<Rightarrow> u16 \<Rightarrow> ptr \<Rightarrow> lw \<Rightarrow> lw" where
  "pool_first layer len0 p w = upd_pbuf p (\<lambda>b. b\<lparr>pb_type := PBUF_POOL, pb_next := NULL,
     payload := p + 16 + (unat (layer_offset layer) + 3) div 4 * 4, tot_len := len0,
     pb_len := word_of_nat (first_len layer (unat len0)), pb_ref := 1\<rparr>) w"

lemma pbuf_alloc_pool_take:
  assumes "pool_ok MEMP_PBUF_POOL (p # xs) w"
  shows "pbuf_alloc layer len0 PBUF_POOL w =
    (case pool_tail p (unat len0 - first_len layer (unat len0)) (pool_first layer len0 p (memp_take MEMP_PBUF_POOL w)) of
       None \<Rightarrow> None
     | Some (False, w) \<Rightarrow> map_option (\<lambda>(n, w). (NULL, w)) (pbuf_free p w)
     | Some (True, w) \<Rightarrow> Some (p, upd_pbuf p (\<lambda>b. b\<lparr>pb_ref := 1, pb_flags := 0\<rparr>) w))"
proof -
  note t = memp_malloc_take [OF assms, simplified]
  have p4: "p mod 4 = 0" using assms by (simp add: pool_ok_def)
  let ?o = "(unat (layer_offset layer) + 3) div 4 * 4"
  have pay: "LWIP_MEM_ALIGN (p + 16 + unat (layer_offset layer)) = p + 16 + ?o"
    using p4 unfolding LWIP_MEM_ALIGN_def by presburger
  have o: "?o \<le> 56" using layer_off(2) [of layer] by (simp add: div_le_mono)
  have fits: "?o + first_len layer (unat len0) \<le> 1516" "1516 - ?o > 0" using o by (auto simp: first_len_def)
  have al: "(p + 16 + ?o) mod 4 = 0" using p4 by presburger
  show ?thesis using t fits al
    by (simp add: pbuf_alloc_def Let_def layer_off(1) pay pool_first_def first_len_def [symmetric])
qed

text \<open>Setting the reference count and the flags at the end changes nothing that matters here.\<close>

lemma finish_sel:
  assumes "pb_ref (pbufs w p) = 1"
  shows "pbuf_next (upd_pbuf p (\<lambda>b. b\<lparr>pb_ref := 1, pb_flags := 0\<rparr>) w) = pbuf_next w"
    "chain_len (upd_pbuf p (\<lambda>b. b\<lparr>pb_ref := 1, pb_flags := 0\<rparr>) w) ps = chain_len w ps"
    "tots_ok (upd_pbuf p (\<lambda>b. b\<lparr>pb_ref := 1, pb_flags := 0\<rparr>) w) ps = tots_ok w ps"
    "list_all (fresh (upd_pbuf p (\<lambda>b. b\<lparr>pb_ref := 1, pb_flags := 0\<rparr>) w)) ps = list_all (fresh w) ps"
    "list_all (own (upd_pbuf p (\<lambda>b. b\<lparr>pb_ref := 1, pb_flags := 0\<rparr>) w)) ps = list_all (own w) ps"
proof -
  let ?w = "upd_pbuf p (\<lambda>b. b\<lparr>pb_ref := 1, pb_flags := 0\<rparr>) w"
  show "pbuf_next ?w = pbuf_next w" by (auto simp: pbuf_next_def)
  have l: "chain_len ?w qs = chain_len w qs" for qs by (induction qs) (auto simp: buf_len_def)
  then show "chain_len ?w ps = chain_len w ps" .
  show "tots_ok ?w ps = tots_ok w ps" by (induction ps) (auto simp: l simp del: chain_len_simps)
  show "list_all (fresh ?w) ps = list_all (fresh w) ps" using assms by (induction ps) (auto simp: fresh_def)
  show "list_all (own ?w) ps = list_all (own w) ps" by (induction ps) (auto simp: own_def buf_len_def)
qed

lemma pool_first_facts:
  fixes w :: lw and layer :: pbuf_layer and len0 :: u16
  assumes "pool_ok MEMP_PBUF_POOL (p # xs) w"
  defines "w0 \<equiv> pool_first layer len0 p (memp_take MEMP_PBUF_POOL w)"
  shows "pool_ok MEMP_PBUF_POOL xs w0" "pbuf_next w0 p = NULL" "fresh w0 p" "own w0 p" "octet w0 = octet w"
    "buf_len w0 p = first_len layer (unat len0)" "tot_len (pbufs w0 p) = len0" "\<And>q. q \<noteq> p \<Longrightarrow> pbufs w0 q = pbufs w q"
proof -
  have "first_len layer (unat len0) < 65536" by (simp add: first_len_def)
  then show b: "buf_len w0 p = first_len layer (unat len0)" by (simp add: w0_def pool_first_def buf_len_def unat_u16)
  have "(unat (layer_offset layer) + 3) div 4 * 4 + first_len layer (unat len0) \<le> 1516"
  proof -
    have "(unat (layer_offset layer) + 3) div 4 * 4 \<le> 57" using layer_off(2) [of layer] by linarith
    then show ?thesis by (simp add: first_len_def)
  qed
  then show "own w0 p" unfolding own_def b by (simp add: w0_def pool_first_def)
  show "pool_ok MEMP_PBUF_POOL xs w0" "pbuf_next w0 p = NULL" "fresh w0 p" "octet w0 = octet w" "tot_len (pbufs w0 p) = len0"
    "\<And>q. q \<noteq> p \<Longrightarrow> pbufs w0 q = pbufs w q"
    using memp_malloc_take(2) [OF assms(1)] by (simp_all add: w0_def pool_first_def pbuf_next_def fresh_def)
qed

text \<open>
  C27: a buffer of \<open>n\<close> bytes from the pool takes exactly the buffers it needs, or none. When
  the pool holds enough, the result is a chain of the first ones whose lengths add up to
  \<open>n\<close>, with the right \<open>tot_len\<close> everywhere, each payload inside its own element and every
  reference count 1. Otherwise the result is \<open>NULL\<close> and the pool holds the same elements again.
\<close>

theorem pbuf_alloc_pool:
  fixes layer :: pbuf_layer and n :: u16
  assumes "pool_ok MEMP_PBUF_POOL xs w"
  defines "k \<equiv> bufs_needed layer (unat n)"
  shows "\<exists>w'. (if k \<le> length xs
    then pbuf_alloc layer n PBUF_POOL w = Some (hd xs, w') \<and> pool_ok MEMP_PBUF_POOL (drop k xs) w'
      \<and> chain (pbuf_next w') (hd xs) (take k xs) \<and> chain_len w' (take k xs) = unat n \<and> tots_ok w' (take k xs)
      \<and> list_all (own w') (take k xs) \<and> list_all (fresh w') (take k xs)
    else pbuf_alloc layer n PBUF_POOL w = Some (NULL, w') \<and> pool_ok MEMP_PBUF_POOL (rev xs) w')
    \<and> octet w' = octet w \<and> (\<forall>p. p \<notin> set xs \<longrightarrow> pbufs w' p = pbufs w p)"
proof (cases xs)
  case Nil
  then have "pbuf_alloc layer n PBUF_POOL w = Some (NULL, w)"
    using memp_malloc_empty [of MEMP_PBUF_POOL w] assms(1) by (simp add: pbuf_alloc_def Let_def)
  then show ?thesis using Nil assms by (auto simp: bufs_needed_def)
next
  case (Cons p ys)
  note ok = assms(1) [unfolded Cons]
  define w0 where "w0 = pool_first layer n p (memp_take MEMP_PBUF_POOL w)"
  note w0 = pool_first_facts [OF ok, where layer = layer and ?len0.0 = n, folded w0_def]
  have p: "p \<noteq> NULL" "p \<notin> set ys" "p mod 4 = 0" "distinct ys" "\<forall>y\<in>set ys. y mod 4 = 0" using ok by (auto simp: pool_ok_def)
  define r where "r = unat n - first_len layer (unat n)"
  have k: "k = Suc (nbufs r)" by (simp add: k_def bufs_needed_def r_def)
  have r: "r < 65535" "r + first_len layer (unat n) = unat n"
    using u16_bound [of n] layer_off(2) [of layer] by (auto simp: r_def first_len_def)
  obtain w' where t: "pool_tail p r w0 = Some (nbufs r \<le> length ys, w')"
    "chain (pbuf_next w') (pbuf_next w' p) (take (nbufs r) ys)" "pool_ok MEMP_PBUF_POOL (drop (nbufs r) ys) w'"
    "list_all (fresh w') (take (nbufs r) ys)" "list_all (own w') (take (nbufs r) ys)"
    "nbufs r \<le> length ys \<Longrightarrow> chain_len w' (take (nbufs r) ys) = r \<and> tots_ok w' (take (nbufs r) ys)"
    "\<And>q. q \<noteq> p \<Longrightarrow> q \<notin> set ys \<Longrightarrow> pbufs w' q = pbufs w0 q" "pbufs w' p = (pbufs w0 p)\<lparr>pb_next := pbuf_next w' p\<rparr>"
    "octet w' = octet w0"
    using pool_tail_spec [OF w0(1) r(1) p(2) w0(2)] by blast
  have p': "fresh w' p" "own w' p" "buf_len w' p = first_len layer (unat n)" "tot_len (pbufs w' p) = n"
    using w0(3,4,6,7) by (simp_all add: t(8) fresh_def own_def buf_len_def)
  have alloc: "pbuf_alloc layer n PBUF_POOL w = (case (nbufs r \<le> length ys, w') of
       (False, w) \<Rightarrow> map_option (\<lambda>(n, w). (NULL, w)) (pbuf_free p w)
     | (True, w) \<Rightarrow> Some (p, upd_pbuf p (\<lambda>b. b\<lparr>pb_ref := 1, pb_flags := 0\<rparr>) w))"
    using pbuf_alloc_pool_take [OF ok, of layer n] t(1) by (simp add: w0_def r_def)
  show ?thesis
  proof (cases "nbufs r \<le> length ys")
    case True
    define w2 where "w2 = upd_pbuf p (\<lambda>b. b\<lparr>pb_ref := 1, pb_flags := 0\<rparr>) w'"
    have ref: "pb_ref (pbufs w' p) = 1" using p'(1) by (simp add: fresh_def)
    note fin = finish_sel [OF ref, folded w2_def]
    have "pbuf_alloc layer n PBUF_POOL w = Some (hd xs, w2)" using alloc True Cons by (simp add: w2_def)
    moreover have "pool_ok MEMP_PBUF_POOL (drop k xs) w2" using t(3) by (simp add: w2_def Cons k)
    moreover have "chain (pbuf_next w2) (hd xs) (take k xs)" using t(2) p(1) by (simp add: fin Cons k)
    moreover have "chain_len w2 (take k xs) = unat n" "tots_ok w2 (take k xs)"
      unfolding fin using t(6) [OF True] p'(3,4) r(2) by (simp_all add: Cons k)
    moreover have "list_all (own w2) (take k xs)" "list_all (fresh w2) (take k xs)" 
      unfolding fin using t(4,5) p' by (simp_all add: Cons k)
    moreover have "pbufs w2 q = pbufs w q" if "q \<notin> set xs" for q
      using that t(7) [of q] w0(8) [of q] Cons by (simp add: w2_def)
    moreover have "octet w2 = octet w" using t(9) w0(5) by (simp add: w2_def)
    ultimately show ?thesis using True Cons k by auto
  next
    case False
    then have n: "take (nbufs r) ys = ys" "drop (nbufs r) ys = []" by simp_all
    note t = t [unfolded n]
    obtain w2 where w2: "pbuf_free_loop p 0 w' = Some (0 + word_of_nat (length (p # ys)), w2)"
      "pool_ok MEMP_PBUF_POOL (rev (p # ys) @ []) w2" "\<And>q. q \<notin> set (p # ys) \<Longrightarrow> pbufs w2 q = pbufs w' q" "octet w2 = octet w'"
      by (rule free_loop_spec [where w = w' and p = p and c = 0 and xs = "p # ys" and ys = "[]" and fs = "[]"])
        (use t(2-4) p p' in auto)
    have "pbuf_free p w' = Some (0 + word_of_nat (length (p # ys)), w2)"
      using w2(1) p(1) p'(1) by (simp add: pbuf_free_def fresh_def word_less_nat_alt)
    then have "pbuf_alloc layer n PBUF_POOL w = Some (NULL, w2)" using alloc False by simp
    moreover have "pbufs w2 q = pbufs w q" if "q \<notin> set xs" for q
      using that w2(3) [of q] t(7) [of q] w0(8) [of q] Cons by simp
    moreover have "octet w2 = octet w" using w2(4) t(9) w0(5) by simp
    ultimately show ?thesis using False Cons k w2(2) by auto
  qed
qed

definition demo_pool :: lw where
  "demo_pool = demo_lw\<lparr>memp_tab := (\<lambda>_. 0)(9 := 4000), memp_next := (\<lambda>_. 0)(4000 := 8000)\<rparr>"

lemma demo_pool: "pool_ok MEMP_PBUF_POOL [4000, 8000] demo_pool"
  by (simp add: pool_ok_def demo_pool_def)

lemma bufs_needed_demo: "bufs_needed PBUF_RAW (unat (2000 :: u16)) = 2" "bufs_needed PBUF_RAW (unat (5000 :: u16)) = 4"
  by (simp_all add: bufs_needed_def first_len_def nbufs_def)

lemma pbuf_alloc_pool_witness:
  "\<exists>w1 w2. pbuf_alloc PBUF_RAW 2000 PBUF_POOL demo_pool = Some (4000, w1) \<and> chain (pbuf_next w1) 4000 [4000, 8000]
    \<and> pbuf_alloc PBUF_RAW 5000 PBUF_POOL demo_pool = Some (NULL, w2) \<and> pool_ok MEMP_PBUF_POOL [8000, 4000] w2"
  using pbuf_alloc_pool [OF demo_pool, of PBUF_RAW 2000] pbuf_alloc_pool [OF demo_pool, of PBUF_RAW 5000]
  unfolding bufs_needed_demo by auto

text \<open>
  C28: \<open>pbuf_free\<close> on a chain of pool buffers gives back the buffers up to the first one that
  someone else still references, returns their number, takes one reference from that one and
  leaves the rest of the chain alone.
\<close>

theorem pbuf_free_pool:
  assumes "chain (pbuf_next w) p (xs @ ys)" "p \<noteq> NULL" "pb_type (pbufs w p) = PBUF_POOL" "list_all (fresh w) xs"
    "pool_ok MEMP_PBUF_POOL fs w" "distinct (xs @ ys @ fs)" "\<forall>x\<in>set xs. x mod 4 = 0" "ys \<noteq> [] \<Longrightarrow> 1 < pb_ref (pbufs w (hd ys))"
  shows "\<exists>w'. pbuf_free p w = Some (word_of_nat (length xs), w') \<and> pool_ok MEMP_PBUF_POOL (rev xs @ fs) w'
    \<and> (ys \<noteq> [] \<longrightarrow> pb_ref (pbufs w' (hd ys)) = pb_ref (pbufs w (hd ys)) - 1 \<and> chain (pbuf_next w') (hd ys) ys)
    \<and> pbuf_bytes w' ys = pbuf_bytes w ys \<and> (\<forall>q. q \<notin> set xs \<longrightarrow> q \<notin> set ys \<longrightarrow> pbufs w' q = pbufs w q)"
proof -
  obtain w' where w': "pbuf_free_loop p 0 w = Some (0 + word_of_nat (length xs), w')" "pool_ok MEMP_PBUF_POOL (rev xs @ fs) w'"
    "\<And>q. q \<notin> set xs \<Longrightarrow> pbufs w' q =
       (if ys \<noteq> [] \<and> q = hd ys then (pbufs w q)\<lparr>pb_ref := pb_ref (pbufs w q) - 1\<rparr> else pbufs w q)"
    "octet w' = octet w"
    by (rule free_loop_spec [OF assms(1,4,5,6,7,8), where c = 0]) auto
  have run: "pbuf_free p w = Some (word_of_nat (length xs), w')" using w'(1) assms(2,3) by (simp add: pbuf_free_def word_less_nat_alt)
  have same: "pbuf_next w' q = pbuf_next w q" "payload (pbufs w' q) = payload (pbufs w q)" "pb_len (pbufs w' q) = pb_len (pbufs w q)"
    if "q \<in> set ys" for q
  proof -
    have "q \<notin> set xs" using that assms(6) by auto
    from w'(3) [OF this] show "pbuf_next w' q = pbuf_next w q" "payload (pbufs w' q) = payload (pbufs w q)"
      "pb_len (pbufs w' q) = pb_len (pbufs w q)" by (simp_all add: pbuf_next_def split: if_splits)
  qed
  have bytes: "pbuf_bytes w' ys = pbuf_bytes w ys" unfolding pbuf_bytes_def
    by (rule arg_cong [of _ _ concat], rule map_cong) (simp_all add: same w'(4))
  have tail: "pb_ref (pbufs w' (hd ys)) = pb_ref (pbufs w (hd ys)) - 1 \<and> chain (pbuf_next w') (hd ys) ys" if ne: "ys \<noteq> []"
  proof
    obtain y zs where y: "ys = y # zs" using ne by (cases ys) auto
    then show "pb_ref (pbufs w' (hd ys)) = pb_ref (pbufs w (hd ys)) - 1" using w'(3) [of y] assms(6) by simp
    have "chain (pbuf_next w) (hd ys) ys" using chain_append [of "pbuf_next w" p xs y zs] assms(1) y by simp
    moreover have "chain (pbuf_next w') (hd ys) ys = chain (pbuf_next w) (hd ys) ys" by (rule chain_cong) (rule same)
    ultimately show "chain (pbuf_next w') (hd ys) ys" by simp
  qed
  have "pbufs w' q = pbufs w q" if "q \<notin> set xs" "q \<notin> set ys" for q using w'(3) [OF that(1)] that(2) by (cases ys) auto
  then show ?thesis using run w'(2) bytes tail by blast
qed

definition demo_free :: lw where
  "demo_free = upd_pbuf 200 (\<lambda>b. b\<lparr>pb_ref := 2\<rparr>) demo_pool"

lemma pbuf_free_pool_witness:
  "\<exists>w'. pbuf_free 100 demo_free = Some (1, w') \<and> pool_ok MEMP_PBUF_POOL [100, 4000, 8000] w' \<and> chain (pbuf_next w') 200 [200]"
proof -
  have "chain (pbuf_next demo_free) 100 ([100] @ [200])"
    by (simp add: demo_free_def demo_pool_def pbuf_next_def demo_lw_def demo_pbuf_def)
  moreover have "pb_type (pbufs demo_free 100) = PBUF_POOL" "list_all (fresh demo_free) [100]" "1 < pb_ref (pbufs demo_free (hd [200]))"
    by (simp_all add: demo_free_def demo_pool_def demo_lw_def demo_pbuf_def fresh_def word_less_nat_alt)
  moreover have "pool_ok MEMP_PBUF_POOL [4000, 8000] demo_free" using demo_pool by (simp add: demo_free_def)
  ultimately show ?thesis using pbuf_free_pool [of demo_free 100 "[100]" "[200]" "[4000, 8000]"] by auto
qed

end
