(* ===== verification/Enc28j60.thy ===== *)
theory Enc28j60
  imports Lw_State
begin

text \<open>
  \<open>arch/enc28j60.c\<close>: the driver of the Ethernet controller on the SPI bus. The controller is
  hardware: a bus of type \<open>'d bus\<close> says what selecting it, releasing it and exchanging one byte
  with it (\<open>SPI1_ReadWrite\<close> of \<open>arch/spi.c\<close>) do to its state. Nothing is assumed about it: a loop that waits for
  the controller need not end and is \<open>None\<close> then.
\<close>

record 'd bus =
  CSL :: "'d \<Rightarrow> 'd"
  CSH :: "'d \<Rightarrow> 'd"
  ReadWrite :: "u8 \<Rightarrow> 'd \<Rightarrow> u8 \<times> 'd"

record 'd nic =
  Enc28j60Bank :: u8
  NextPacketPtr :: u32
  dev :: 'd

section \<open>Registers and commands\<close>

abbreviation (input) ADDR_MASK :: u8 where "ADDR_MASK \<equiv> 0x1f"
abbreviation (input) BANK_MASK :: u8 where "BANK_MASK \<equiv> 0x60"

abbreviation (input) EIE :: u8 where "EIE \<equiv> 0x1b"
abbreviation (input) EIR :: u8 where "EIR \<equiv> 0x1c"
abbreviation (input) ESTAT :: u8 where "ESTAT \<equiv> 0x1d"
abbreviation (input) ECON2 :: u8 where "ECON2 \<equiv> 0x1e"
abbreviation (input) ECON1 :: u8 where "ECON1 \<equiv> 0x1f"
abbreviation (input) ERDPTL :: u8 where "ERDPTL \<equiv> 0x00"
abbreviation (input) ERDPTH :: u8 where "ERDPTH \<equiv> 0x01"
abbreviation (input) EWRPTL :: u8 where "EWRPTL \<equiv> 0x02"
abbreviation (input) EWRPTH :: u8 where "EWRPTH \<equiv> 0x03"
abbreviation (input) ETXSTL :: u8 where "ETXSTL \<equiv> 0x04"
abbreviation (input) ETXSTH :: u8 where "ETXSTH \<equiv> 0x05"
abbreviation (input) ETXNDL :: u8 where "ETXNDL \<equiv> 0x06"
abbreviation (input) ETXNDH :: u8 where "ETXNDH \<equiv> 0x07"
abbreviation (input) ERXSTL :: u8 where "ERXSTL \<equiv> 0x08"
abbreviation (input) ERXSTH :: u8 where "ERXSTH \<equiv> 0x09"
abbreviation (input) ERXNDL :: u8 where "ERXNDL \<equiv> 0x0a"
abbreviation (input) ERXNDH :: u8 where "ERXNDH \<equiv> 0x0b"
abbreviation (input) ERXRDPTL :: u8 where "ERXRDPTL \<equiv> 0x0c"
abbreviation (input) ERXRDPTH :: u8 where "ERXRDPTH \<equiv> 0x0d"
abbreviation (input) EPMM0 :: u8 where "EPMM0 \<equiv> 0x28"
abbreviation (input) EPMM1 :: u8 where "EPMM1 \<equiv> 0x29"
abbreviation (input) EPMCSL :: u8 where "EPMCSL \<equiv> 0x30"
abbreviation (input) EPMCSH :: u8 where "EPMCSH \<equiv> 0x31"
abbreviation (input) ERXFCON :: u8 where "ERXFCON \<equiv> 0x38"
abbreviation (input) EPKTCNT :: u8 where "EPKTCNT \<equiv> 0x39"
abbreviation (input) MACON1 :: u8 where "MACON1 \<equiv> 0xc0"
abbreviation (input) MACON2 :: u8 where "MACON2 \<equiv> 0xc1"
abbreviation (input) MACON3 :: u8 where "MACON3 \<equiv> 0xc2"
abbreviation (input) MABBIPG :: u8 where "MABBIPG \<equiv> 0xc4"
abbreviation (input) MAIPGL :: u8 where "MAIPGL \<equiv> 0xc6"
abbreviation (input) MAIPGH :: u8 where "MAIPGH \<equiv> 0xc7"
abbreviation (input) MAMXFLL :: u8 where "MAMXFLL \<equiv> 0xca"
abbreviation (input) MAMXFLH :: u8 where "MAMXFLH \<equiv> 0xcb"
abbreviation (input) MIREGADR :: u8 where "MIREGADR \<equiv> 0xd4"
abbreviation (input) MIWRL :: u8 where "MIWRL \<equiv> 0xd6"
abbreviation (input) MIWRH :: u8 where "MIWRH \<equiv> 0xd7"
abbreviation (input) MAADR1 :: u8 where "MAADR1 \<equiv> 0xe0"
abbreviation (input) MAADR0 :: u8 where "MAADR0 \<equiv> 0xe1"
abbreviation (input) MAADR3 :: u8 where "MAADR3 \<equiv> 0xe2"
abbreviation (input) MAADR2 :: u8 where "MAADR2 \<equiv> 0xe3"
abbreviation (input) MAADR5 :: u8 where "MAADR5 \<equiv> 0xe4"
abbreviation (input) MAADR4 :: u8 where "MAADR4 \<equiv> 0xe5"
abbreviation (input) MISTAT :: u8 where "MISTAT \<equiv> 0xea"
abbreviation (input) EREVID :: u8 where "EREVID \<equiv> 0x72"
abbreviation (input) ECOCON :: u8 where "ECOCON \<equiv> 0x75"
abbreviation (input) PHCON1 :: u8 where "PHCON1 \<equiv> 0x00"
abbreviation (input) PHCON2 :: u8 where "PHCON2 \<equiv> 0x10"
abbreviation (input) PHLCON :: u8 where "PHLCON \<equiv> 0x14"

abbreviation (input) READ_CTRL_REG :: u8 where "READ_CTRL_REG \<equiv> 0x00"
abbreviation (input) READ_BUF_MEM :: u8 where "READ_BUF_MEM \<equiv> 0x3a"
abbreviation (input) WRITE_CTRL_REG :: u8 where "WRITE_CTRL_REG \<equiv> 0x40"
abbreviation (input) WRITE_BUF_MEM :: u8 where "WRITE_BUF_MEM \<equiv> 0x7a"
abbreviation (input) BIT_FIELD_SET :: u8 where "BIT_FIELD_SET \<equiv> 0x80"
abbreviation (input) BIT_FIELD_CLR :: u8 where "BIT_FIELD_CLR \<equiv> 0xa0"
abbreviation (input) SOFT_RESET :: u8 where "SOFT_RESET \<equiv> 0xff"

abbreviation (input) RXSTART_INIT :: u32 where "RXSTART_INIT \<equiv> 0"
abbreviation (input) RXSTOP_INIT :: u32 where "RXSTOP_INIT \<equiv> 0x19fe"
abbreviation (input) TXSTART_INIT :: u32 where "TXSTART_INIT \<equiv> 0x19ff"
abbreviation (input) TXSTOP_INIT :: u32 where "TXSTOP_INIT \<equiv> 0x1fff"
abbreviation (input) MAX_FRAMELEN :: u32 where "MAX_FRAMELEN \<equiv> 1500"

section \<open>Commands on the bus\<close>

definition ENC28J60_CSL :: "'d bus \<Rightarrow> 'd nic \<Rightarrow> 'd nic" where
  "ENC28J60_CSL bus n = n\<lparr>dev := CSL bus (dev n)\<rparr>"

definition ENC28J60_CSH :: "'d bus \<Rightarrow> 'd nic \<Rightarrow> 'd nic" where
  "ENC28J60_CSH bus n = n\<lparr>dev := CSH bus (dev n)\<rparr>"

definition SPI1_ReadWrite :: "'d bus \<Rightarrow> u8 \<Rightarrow> 'd nic \<Rightarrow> u8 \<times> 'd nic" where
  "SPI1_ReadWrite bus dat n = (let (r, d) = ReadWrite bus dat (dev n) in (r, n\<lparr>dev := d\<rparr>))"

definition enc28j60ReadOp :: "'d bus \<Rightarrow> u8 \<Rightarrow> u8 \<Rightarrow> 'd nic \<Rightarrow> u8 \<times> 'd nic" where
  "enc28j60ReadOp bus opc address n =
     (let n = ENC28J60_CSL bus n;
          (_, n) = SPI1_ReadWrite bus (opc OR (address AND ADDR_MASK)) n;
          (dat, n) = SPI1_ReadWrite bus 0xff n;
          (dat, n) = (if address AND 0x80 \<noteq> 0 then SPI1_ReadWrite bus 0xff n else (dat, n))
      in (dat, ENC28J60_CSH bus n))"

definition enc28j60WriteOp :: "'d bus \<Rightarrow> u8 \<Rightarrow> u8 \<Rightarrow> u8 \<Rightarrow> 'd nic \<Rightarrow> 'd nic" where
  "enc28j60WriteOp bus opc address dat n =
     (let n = ENC28J60_CSL bus n;
          (_, n) = SPI1_ReadWrite bus (opc OR (address AND ADDR_MASK)) n;
          (_, n) = SPI1_ReadWrite bus dat n
      in ENC28J60_CSH bus n)"

text \<open>The buffer transfers: the loops, then the functions. Reading puts a zero behind the data.\<close>

fun read_loop :: "'d bus \<Rightarrow> nat \<Rightarrow> ptr \<Rightarrow> 'd nic \<Rightarrow> (ptr \<Rightarrow> u8) \<Rightarrow> ptr \<times> 'd nic \<times> (ptr \<Rightarrow> u8)" where
  "read_loop bus 0 data n m = (data, n, m)"
| "read_loop bus (Suc len) data n m =
     (let (b, n) = SPI1_ReadWrite bus 0 n in read_loop bus len (data + 1) n (m(data := b)))"

definition enc28j60ReadBuffer :: "'d bus \<Rightarrow> u32 \<Rightarrow> ptr \<Rightarrow> 'd nic \<Rightarrow> (ptr \<Rightarrow> u8) \<Rightarrow> 'd nic \<times> (ptr \<Rightarrow> u8)" where
  "enc28j60ReadBuffer bus len data n m =
     (let n = ENC28J60_CSL bus n;
          (_, n) = SPI1_ReadWrite bus READ_BUF_MEM n;
          (data, n, m) = read_loop bus (unat len) data n m
      in (ENC28J60_CSH bus n, m(data := 0)))"

fun write_loop :: "'d bus \<Rightarrow> nat \<Rightarrow> ptr \<Rightarrow> (ptr \<Rightarrow> u8) \<Rightarrow> 'd nic \<Rightarrow> 'd nic" where
  "write_loop bus 0 data m n = n"
| "write_loop bus (Suc len) data m n =
     (let (_, n) = SPI1_ReadWrite bus (m data) n in write_loop bus len (data + 1) m n)"

definition enc28j60WriteBuffer :: "'d bus \<Rightarrow> u32 \<Rightarrow> ptr \<Rightarrow> (ptr \<Rightarrow> u8) \<Rightarrow> 'd nic \<Rightarrow> 'd nic" where
  "enc28j60WriteBuffer bus len data m n =
     (let n = ENC28J60_CSL bus n;
          (_, n) = SPI1_ReadWrite bus WRITE_BUF_MEM n
      in ENC28J60_CSH bus (write_loop bus (unat len) data m n))"

section \<open>Registers\<close>

definition enc28j60SetBank :: "'d bus \<Rightarrow> u8 \<Rightarrow> 'd nic \<Rightarrow> 'd nic" where
  "enc28j60SetBank bus address n =
     (if address AND BANK_MASK \<noteq> Enc28j60Bank n
      then let n = enc28j60WriteOp bus BIT_FIELD_CLR ECON1 0x03 n;
               n = enc28j60WriteOp bus BIT_FIELD_SET ECON1 (drop_bit 5 (address AND BANK_MASK)) n
           in n\<lparr>Enc28j60Bank := address AND BANK_MASK\<rparr>
      else n)"

definition enc28j60Read :: "'d bus \<Rightarrow> u8 \<Rightarrow> 'd nic \<Rightarrow> u8 \<times> 'd nic" where
  "enc28j60Read bus address n = enc28j60ReadOp bus READ_CTRL_REG address (enc28j60SetBank bus address n)"

definition enc28j60Write :: "'d bus \<Rightarrow> u8 \<Rightarrow> u8 \<Rightarrow> 'd nic \<Rightarrow> 'd nic" where
  "enc28j60Write bus address dat n = enc28j60WriteOp bus WRITE_CTRL_REG address dat (enc28j60SetBank bus address n)"

text \<open>\<open>while(enc28j60Read(address) & bit)\<close>, and the same loop waiting for the bit.\<close>

partial_function (option) wait_clear :: "'d bus \<Rightarrow> u8 \<Rightarrow> u8 \<Rightarrow> 'd nic \<Rightarrow> 'd nic option" where
  "wait_clear bus address flag n =
     (if fst (enc28j60Read bus address n) AND flag \<noteq> 0 then wait_clear bus address flag (snd (enc28j60Read bus address n))
      else Some (snd (enc28j60Read bus address n)))"

partial_function (option) wait_set :: "'d bus \<Rightarrow> u8 \<Rightarrow> u8 \<Rightarrow> 'd nic \<Rightarrow> 'd nic option" where
  "wait_set bus address flag n =
     (if fst (enc28j60Read bus address n) AND flag = 0 then wait_set bus address flag (snd (enc28j60Read bus address n))
      else Some (snd (enc28j60Read bus address n)))"

definition enc28j60PhyWrite :: "'d bus \<Rightarrow> u8 \<Rightarrow> u32 \<Rightarrow> 'd nic \<Rightarrow> 'd nic option" where
  "enc28j60PhyWrite bus address dat n =
     (let n = enc28j60Write bus MIREGADR address n;
          n = enc28j60Write bus MIWRL (ucast dat) n;
          n = enc28j60Write bus MIWRH (ucast (drop_bit 8 dat)) n
      in wait_clear bus MISTAT 0x01 n)"

definition enc28j60clkout :: "'d bus \<Rightarrow> u8 \<Rightarrow> 'd nic \<Rightarrow> 'd nic" where
  "enc28j60clkout bus clk n = enc28j60Write bus ECOCON (clk AND 0x7) n"

definition enc28j60getrev :: "'d bus \<Rightarrow> 'd nic \<Rightarrow> u8 \<times> 'd nic" where
  "enc28j60getrev bus n = enc28j60Read bus EREVID n"

section \<open>Initialisation\<close>

text \<open>A list of register writes, and reads for their effect on the bus.\<close>

definition write_all :: "'d bus \<Rightarrow> (u8 \<times> u8) list \<Rightarrow> 'd nic \<Rightarrow> 'd nic" where
  "write_all bus ws n = fold (\<lambda>(a, d). enc28j60Write bus a d) ws n"

definition read_all :: "'d bus \<Rightarrow> u8 list \<Rightarrow> 'd nic \<Rightarrow> 'd nic" where
  "read_all bus rs n = fold (\<lambda>a n. snd (enc28j60Read bus a n)) rs n"

definition enc28j60Init :: "'d bus \<Rightarrow> (nat \<Rightarrow> u8) \<Rightarrow> 'd nic \<Rightarrow> 'd nic option" where
  "enc28j60Init bus macaddr n =
     Option.bind (wait_set bus ESTAT 0x01 (enc28j60WriteOp bus SOFT_RESET 0 SOFT_RESET (ENC28J60_CSH bus n)))
       (\<lambda>n. let n = n\<lparr>NextPacketPtr := RXSTART_INIT\<rparr>;
                n = write_all bus
                  [(ERXSTL, ucast (RXSTART_INIT AND 0xff)), (ERXSTH, ucast (drop_bit 8 RXSTART_INIT)),
                   (ERXRDPTL, ucast (RXSTART_INIT AND 0xff)), (ERXRDPTH, ucast (drop_bit 8 RXSTART_INIT)),
                   (ERXNDL, ucast (RXSTOP_INIT AND 0xff)), (ERXNDH, ucast (drop_bit 8 RXSTOP_INIT)),
                   (ETXSTL, ucast (TXSTART_INIT AND 0xff)), (ETXSTH, ucast (drop_bit 8 TXSTART_INIT)),
                   (ETXNDL, ucast (TXSTOP_INIT AND 0xff)), (ETXNDH, ucast (drop_bit 8 TXSTOP_INIT)),
                   (ERXFCON, 0x80 OR 0x20 OR 0x10), (EPMM0, 0x3f), (EPMM1, 0x30), (EPMCSL, 0xf9), (EPMCSH, 0xf7),
                   (MACON1, 0x01 OR 0x08 OR 0x04), (MACON2, 0x00)] n;
                n = enc28j60WriteOp bus BIT_FIELD_SET MACON3 (0x20 OR 0x10 OR 0x02 OR 0x01) n;
                n = write_all bus
                  [(MAIPGL, 0x12), (MAIPGH, 0x0c), (MABBIPG, 0x15),
                   (MAMXFLL, ucast (MAX_FRAMELEN AND 0xff)), (MAMXFLH, ucast (drop_bit 8 MAX_FRAMELEN)),
                   (MAADR5, macaddr 0), (MAADR4, macaddr 1), (MAADR3, macaddr 2),
                   (MAADR2, macaddr 3), (MAADR1, macaddr 4), (MAADR0, macaddr 5)] n;
                (b, n) = enc28j60Read bus MAADR5 n;
                n = (if b = macaddr 0 then read_all bus [MAADR5, MAADR4, MAADR3, MAADR2, MAADR1, MAADR0] n else n)
            in Option.bind (enc28j60PhyWrite bus PHCON1 0x0100 n)
                 (\<lambda>n. map_option
                        (\<lambda>n. let n = enc28j60SetBank bus ECON1 n;
                                 n = enc28j60WriteOp bus BIT_FIELD_SET EIE (0x80 OR 0x40 OR 0x01) n
                             in enc28j60WriteOp bus BIT_FIELD_SET ECON1 0x04 n)
                        (enc28j60PhyWrite bus PHCON2 0x0100 (enc28j60Write bus PHLCON 0x76 n))))"

definition mymacinit :: "'d bus \<Rightarrow> (nat \<Rightarrow> u8) \<Rightarrow> 'd nic \<Rightarrow> 'd nic option" where
  "mymacinit bus mymac n = map_option (enc28j60clkout bus 2) (enc28j60Init bus mymac n)"

section \<open>Frames\<close>

definition enc28j60PacketSend :: "'d bus \<Rightarrow> u32 \<Rightarrow> ptr \<Rightarrow> (ptr \<Rightarrow> u8) \<Rightarrow> 'd nic \<Rightarrow> 'd nic option" where
  "enc28j60PacketSend bus len packet m n =
     map_option
       (\<lambda>n. let n = write_all bus
                  [(EWRPTL, ucast (TXSTART_INIT AND 0xff)), (EWRPTH, ucast (drop_bit 8 TXSTART_INIT)),
                   (ETXNDL, ucast ((TXSTART_INIT + len) AND 0xff)), (ETXNDH, ucast (drop_bit 8 (TXSTART_INIT + len)))] n;
                n = enc28j60WriteOp bus WRITE_BUF_MEM 0 0x00 n;
                n = enc28j60WriteBuffer bus len packet m n;
                n = enc28j60WriteOp bus BIT_FIELD_SET ECON1 0x08 n;
                (eir, n) = enc28j60Read bus EIR n
            in if eir AND 0x02 \<noteq> 0
               then enc28j60WriteOp bus BIT_FIELD_CLR ECON1 0x08 (enc28j60SetBank bus ECON1 n)
               else n)
       (wait_clear bus ECON1 0x08 n)"

text \<open>Two bytes of the buffer, the low one first.\<close>

definition read_word :: "'d bus \<Rightarrow> 'd nic \<Rightarrow> u32 \<times> 'd nic" where
  "read_word bus n =
     (let (lo, n) = enc28j60ReadOp bus READ_BUF_MEM 0 n;
          (hi, n) = enc28j60ReadOp bus READ_BUF_MEM 0 n
      in (ucast lo OR push_bit 8 (ucast hi), n))"

definition enc28j60PacketReceive :: "'d bus \<Rightarrow> u32 \<Rightarrow> ptr \<Rightarrow> (ptr \<Rightarrow> u8) \<Rightarrow> 'd nic \<Rightarrow> u32 \<times> (ptr \<Rightarrow> u8) \<times> 'd nic" where
  "enc28j60PacketReceive bus maxlen packet m n =
     (let (cnt, n) = enc28j60Read bus EPKTCNT n
      in if cnt = 0 then (0, m, n)
         else let n = enc28j60Write bus ERDPTL (ucast (NextPacketPtr n)) n;
                  n = enc28j60Write bus ERDPTH (ucast (drop_bit 8 (NextPacketPtr n))) n;
                  (nxt, n) = read_word bus n;
                  n = n\<lparr>NextPacketPtr := nxt\<rparr>;
                  (len, n) = read_word bus n;
                  len = len - 4;
                  (rxstat, n) = read_word bus n;
                  len = (if len > maxlen - 1 then maxlen - 1 else len);
                  (len, n, m) = (if rxstat AND 0x80 = 0 then (0, n, m)
                                 else let (n, m) = enc28j60ReadBuffer bus len packet n m in (len, n, m));
                  n = enc28j60Write bus ERXRDPTL (ucast (NextPacketPtr n)) n;
                  n = enc28j60Write bus ERXRDPTH (ucast (drop_bit 8 (NextPacketPtr n))) n;
                  n = enc28j60WriteOp bus BIT_FIELD_SET ECON2 0x40 n
              in (len, m, n))"

end
