(* ===== verification/Ethernetif.thy ===== *)
theory Ethernetif
  imports Enc28j60 Pbuf_Data
begin

text \<open>
  \<open>netif/ethernetif.c\<close>: frames between packet buffers and the Ethernet controller. \<open>snd_buf\<close> and
  \<open>rcv_buf\<close> are the addresses of the arrays \<open>MySendbuf\<close> and \<open>MyRecvbuf\<close> of 1500 bytes. The
  state is that of the controller driver and of lwIP's memory; what \<open>netif->input\<close> may touch besides
  is the rest of the record. The critical sections around the driver calls are one step anyway.
\<close>

abbreviation (input) ERR_BUF :: int where "ERR_BUF \<equiv> -2"
abbreviation (input) BUF_LEN :: nat where "BUF_LEN \<equiv> 1500"

record 'd gw =
  nic :: "'d nic"
  lwm :: lw

section \<open>Sending\<close>

text \<open>The loop of \<open>PacketSend\<close>: whether it failed, and the length copied.\<close>

partial_function (option) send_loop :: "ptr \<Rightarrow> ptr \<Rightarrow> ptr \<Rightarrow> u32 \<Rightarrow> lw \<Rightarrow> (bool \<times> u32 \<times> lw) option" where
  "send_loop snd_buf p q templen w =
     (if q \<noteq> NULL
      then let w = MEMCPY (snd_buf + unat templen) (payload (pbufs w q)) (unat (pb_len (pbufs w q))) w;
               templen = templen + ucast (pb_len (pbufs w q))
           in if templen > 1500 \<or> templen > ucast (tot_len (pbufs w p)) then Some (True, templen, w)
              else send_loop snd_buf p (pbuf_next w q) templen w
      else Some (False, templen, w))"

definition PacketSend :: "'d bus \<Rightarrow> ptr \<Rightarrow> ptr \<Rightarrow> ('d, 'm) gw_scheme \<Rightarrow> (int \<times> ('d, 'm) gw_scheme) option" where
  "PacketSend bus snd_buf p g =
     (case send_loop snd_buf p p 0 (lwm g) of
        None \<Rightarrow> None
      | Some (failed, templen, w) \<Rightarrow>
          let g = g\<lparr>lwm := w\<rparr>
          in if failed then Some (ERR_BUF, g)
             else if templen = ucast (tot_len (pbufs w p))
             then map_option (\<lambda>n. (ERR_OK, g\<lparr>nic := n\<rparr>)) (enc28j60PacketSend bus templen snd_buf (octet w) (nic g))
             else Some (ERR_BUF, g))"

definition low_level_output :: "'d bus \<Rightarrow> ptr \<Rightarrow> ptr \<Rightarrow> ('d, 'm) gw_scheme \<Rightarrow> (int \<times> ('d, 'm) gw_scheme) option" where
  "low_level_output bus snd_buf p g = PacketSend bus snd_buf p g"

section \<open>Receiving\<close>

partial_function (option) recv_loop :: "ptr \<Rightarrow> u32 \<Rightarrow> ptr \<Rightarrow> u32 \<Rightarrow> lw \<Rightarrow> lw option" where
  "recv_loop rcv_buf recvlen q i w =
     (if q \<noteq> NULL
      then let w = MEMCPY (payload (pbufs w q)) (rcv_buf + unat i) (unat (pb_len (pbufs w q))) w;
               i = i + ucast (pb_len (pbufs w q))
           in if i \<ge> recvlen then Some w else recv_loop rcv_buf recvlen (pbuf_next w q) i w
      else Some w)"

definition PacketReceive :: "'d bus \<Rightarrow> ptr \<Rightarrow> ('d, 'm) gw_scheme \<Rightarrow> (ptr \<times> ('d, 'm) gw_scheme) option" where
  "PacketReceive bus rcv_buf g =
     (let (recvlen, m, n) = enc28j60PacketReceive bus 1500 rcv_buf (octet (lwm g)) (nic g);
          w = (lwm g)\<lparr>octet := m\<rparr>
      in if recvlen = 0 then Some (NULL, g\<lparr>nic := n, lwm := w\<rparr>)
         else case pbuf_alloc PBUF_RAW (ucast recvlen) PBUF_POOL w of
                None \<Rightarrow> None
              | Some (p, w) \<Rightarrow>
                  if p = NULL then Some (NULL, g\<lparr>nic := n, lwm := w\<rparr>)
                  else map_option (\<lambda>w. (p, g\<lparr>nic := n, lwm := w\<rparr>)) (recv_loop rcv_buf recvlen p 0 w))"

definition low_level_input :: "'d bus \<Rightarrow> ptr \<Rightarrow> ('d, 'm) gw_scheme \<Rightarrow> (ptr \<times> ('d, 'm) gw_scheme) option" where
  "low_level_input bus rcv_buf g = PacketReceive bus rcv_buf g"

text \<open>A 16-bit field in memory, as the processor reads it: the low byte first.\<close>

definition load16 :: "(ptr \<Rightarrow> u8) \<Rightarrow> ptr \<Rightarrow> u16" where
  "load16 m a = ucast (m a) OR push_bit 8 (ucast (m (a + 1)))"

text \<open>
  The frame goes to \<open>netif->input\<close> if its type, at offset 12, is IP or ARP; a frame that is not
  taken is freed. The result tells whether a frame was read.
\<close>

definition ethernetif_input ::
  "'d bus \<Rightarrow> ptr \<Rightarrow> (ptr \<Rightarrow> ('d, 'm) gw_scheme \<Rightarrow> (int \<times> ('d, 'm) gw_scheme) option) \<Rightarrow> ('d, 'm) gw_scheme
    \<Rightarrow> (bool \<times> ('d, 'm) gw_scheme) option" where
  "ethernetif_input bus rcv_buf input g =
     (let drop = (\<lambda>p g. map_option (\<lambda>(_, w). (True, g\<lparr>lwm := w\<rparr>)) (pbuf_free p (lwm g)))
      in case low_level_input bus rcv_buf g of
           None \<Rightarrow> None
         | Some (p, g) \<Rightarrow>
             if p = NULL then Some (False, g)
             else if lwip_htons (load16 (octet (lwm g)) (payload (pbufs (lwm g) p) + 12)) \<in> {0x0800, 0x0806}
             then case input p g of
                    None \<Rightarrow> None
                  | Some (err, g) \<Rightarrow> if err \<noteq> ERR_OK then drop p g else Some (True, g)
             else drop p g)"

text \<open>\<open>process_mac\<close> polls until no frame is left; \<open>None\<close> also when frames never end.\<close>

partial_function (option) process_mac ::
  "'d bus \<Rightarrow> ptr \<Rightarrow> (ptr \<Rightarrow> ('d, 'm) gw_scheme \<Rightarrow> (int \<times> ('d, 'm) gw_scheme) option) \<Rightarrow> ('d, 'm) gw_scheme
    \<Rightarrow> ('d, 'm) gw_scheme option" where
  "process_mac bus rcv_buf input g =
     Option.bind (ethernetif_input bus rcv_buf input g)
       (\<lambda>(ret, g). if ret then process_mac bus rcv_buf input g else Some g)"

end
