(* ===== verification/Ethernetif_Props.thy ===== *)
theory Ethernetif_Props
  imports Ethernetif Pbuf_Pool
begin

text \<open>
  Frames between the controller and packet buffers, for every behaviour of the controller: what
  the driver may write, that the bytes of a chain are what is sent, and what a frame that is too long does.
\<close>

lemma u32_sub: "(b :: u32) \<le> a \<Longrightarrow> unat (a - b) = unat a - unat b"
  by (rule unat_sub)

section \<open>The driver and memory\<close>

lemma read_loop_spec:
  "fst (read_loop bus k data n m) = data + k"
  "q < data \<or> data + k \<le> q \<Longrightarrow> snd (snd (read_loop bus k data n m)) q = m q"
proof (induction k arbitrary: data n m)
  case (Suc k)
  { case 1 then show ?case using Suc.IH(1) by (simp add: split_beta) }
  { case 2
    then have "q < data + 1 \<or> data + 1 + k \<le> q" "q \<noteq> data" by auto
    then show ?case using Suc.IH(2) by (simp add: split_beta) }
qed simp_all

lemma ReadBuffer_outside:
  "q < data \<or> data + unat len < q \<Longrightarrow> snd (enc28j60ReadBuffer bus len data n m) q = m q"
  using read_loop_spec(2) [of q data "unat len" bus "snd (SPI1_ReadWrite bus READ_BUF_MEM (ENC28J60_CSL bus n))" m]
  by (auto simp: enc28j60ReadBuffer_def Let_def split_beta read_loop_spec(1))

text \<open>Whatever the controller answers, the driver stays inside the buffer it was given.\<close>

lemma PacketReceive_bounds:
  assumes "0 < unat maxlen"
  shows "unat (fst (enc28j60PacketReceive bus maxlen packet m n)) < unat maxlen"
    "q < packet \<or> packet + unat maxlen \<le> q \<Longrightarrow> fst (snd (enc28j60PacketReceive bus maxlen packet m n)) q = m q"
proof -
  have one: "unat (maxlen - 1) = unat maxlen - 1" using assms u32_sub [of 1 maxlen] by (simp add: word_le_nat_alt)
  have cut: "unat (if len > maxlen - 1 then maxlen - 1 else len) < unat maxlen" for len
    using one assms by (auto simp: word_less_nat_alt not_less)
  show "unat (fst (enc28j60PacketReceive bus maxlen packet m n)) < unat maxlen"
    using cut assms by (simp add: enc28j60PacketReceive_def Let_def split_beta del: if_split split: if_split)
  assume "q < packet \<or> packet + unat maxlen \<le> q"
  then have "q < packet \<or> packet + unat (if len > maxlen - 1 then maxlen - 1 else len) < q" for len
    using cut [of len] by linarith
  then show "fst (snd (enc28j60PacketReceive bus maxlen packet m n)) q = m q"
    by (simp add: enc28j60PacketReceive_def Let_def split_beta ReadBuffer_outside del: if_split split: if_split)
qed

section \<open>Sending\<close>

lemma send_loop_step:
  fixes w :: lw and templen :: u32 and snd_buf :: ptr
  assumes "q \<noteq> NULL"
  defines "t \<equiv> templen + ucast (pb_len (pbufs w q))"
  defines "v \<equiv> MEMCPY (snd_buf + unat templen) (payload (pbufs w q)) (buf_len w q) w"
  shows "send_loop snd_buf p q templen w =
    (if t > 1500 \<or> t > ucast (tot_len (pbufs w p)) then Some (True, t, v) else send_loop snd_buf p (pbuf_next w q) t v)"
  using assms(1) by (subst send_loop.simps) (simp add: t_def v_def Let_def buf_len_def)








section \<open>Receiving\<close>

lemma recv_loop_one:
  assumes "p \<noteq> NULL" "unat recvlen = buf_len w p"
  shows "recv_loop rcv_buf recvlen p 0 w = Some (MEMCPY (payload (pbufs w p)) rcv_buf (buf_len w p) w)"
proof -
  have "recvlen \<le> ucast (pb_len (pbufs w p))" using assms(2) by (simp add: word_le_nat_alt buf_len_def)
  then show ?thesis using assms(1) by (subst recv_loop.simps) (simp add: Let_def buf_len_def)
qed

section \<open>Properties\<close>

text \<open>A controller that answers every byte with zero and records what it is sent.\<close>

definition demo_bus :: "u8 list bus" where
  "demo_bus = \<lparr>CSL = (\<lambda>d. d), CSH = (\<lambda>d. d), ReadWrite = (\<lambda>b d. (0, d @ [b]))\<rparr>"

definition demo_gw :: "u8 list gw" where
  "demo_gw = \<lparr>nic = \<lparr>Enc28j60Bank = 0, NextPacketPtr = 0, dev = []\<rparr>, lwm = demo_bufs\<rparr>"


lemma demo_gw: "lwm demo_gw = demo_bufs"
  by (simp add: demo_gw_def)


text \<open>
  A frame in one buffer of more than 1500 bytes, which an IP packet of more than 1486 bytes
  becomes although the interface declares an MTU of 1500, is refused only after it was copied:
  nothing is sent, and its bytes from 1500 on have been written behind the send buffer.
\<close>

theorem PacketSend_overflow:
  assumes "p \<noteq> NULL" "1500 < buf_len (lwm g) p" "buf_span (lwm g) p \<inter> {snd_buf..<snd_buf + buf_len (lwm g) p} = {}"
  shows "\<exists>w'. PacketSend bus snd_buf p g = Some (ERR_BUF, g\<lparr>lwm := w'\<rparr>)
    \<and> bytes_at (octet w') (snd_buf + 1500) (buf_len (lwm g) p - 1500) = drop 1500 (buf_bytes (lwm g) p)"
proof -
  let ?w = "lwm g" and ?n = "buf_len (lwm g) p"
  define v where "v = MEMCPY snd_buf (payload (pbufs ?w p)) ?n ?w"
  have "(0 :: u32) + ucast (pb_len (pbufs ?w p)) > 1500" using assms(2) by (simp add: buf_len_def word_less_nat_alt)
  then have "send_loop snd_buf p p 0 ?w = Some (True, ucast (pb_len (pbufs ?w p)), v)"
    using send_loop_step [OF assms(1), where templen = 0 and w = ?w and snd_buf = snd_buf and p = p] by (simp add: v_def)
  then have run: "PacketSend bus snd_buf p g = Some (ERR_BUF, g\<lparr>lwm := v\<rparr>)" by (simp add: PacketSend_def)
  have "drop 1500 (bytes_at (octet v) snd_buf ?n) = bytes_at (octet v) (snd_buf + 1500) (?n - 1500)"
    using assms(2) by (intro bytes_at_drop) simp
  moreover have "bytes_at (octet v) snd_buf ?n = buf_bytes ?w p" by (simp add: v_def bytes_MEMCPY buf_bytes_def)
  ultimately show ?thesis using run by auto
qed

lemma PacketSend_overflow_witness:
  "\<exists>w'. PacketSend demo_bus 5000 100 (demo_gw\<lparr>lwm := upd_pbuf 100 (\<lambda>b. b\<lparr>pb_len := 1514, tot_len := 1514\<rparr>) demo_bufs\<rparr>) = Some (ERR_BUF, w')"
proof -
  define g where "g = demo_gw\<lparr>lwm := upd_pbuf 100 (\<lambda>b. b\<lparr>pb_len := 1514, tot_len := 1514\<rparr>) demo_bufs\<rparr>"
  have l: "buf_len (lwm g) 100 = 1514" by (simp add: g_def buf_len_def)
  have s: "buf_span (lwm g) 100 = {500..<2014}" unfolding buf_span_def l
    by (simp add: g_def demo_bufs_def demo_lw_def demo_pbuf_def)
  have "buf_span (lwm g) 100 \<inter> {5000..<5000 + buf_len (lwm g) 100} = {}" unfolding s by auto
  from PacketSend_overflow [OF _ _ this, of demo_bus] l show ?thesis unfolding g_def by auto
qed

text \<open>
  C30: whatever the controller answers, receiving a frame returns, hands up at most 1499 bytes
  and writes nothing outside the receive buffer and the buffer it hands up. Without a frame or
  a free buffer the result is \<open>NULL\<close> and no buffer is lost; else it is the first free buffer, with
  exactly the bytes the driver has read.
\<close>

theorem PacketReceive_spec:
  fixes g :: "('d, 'm) gw_scheme" and bus :: "'d bus"
  assumes "pool_ok MEMP_PBUF_POOL xs (lwm g)" "\<And>x. x \<in> set xs \<Longrightarrow> {x..<x + 1532} \<inter> {rcv_buf..<rcv_buf + 1500} = {}"
  defines "r \<equiv> enc28j60PacketReceive bus 1500 rcv_buf (octet (lwm g)) (nic g)"
  shows "unat (fst r) < 1500 \<and> (\<exists>p g'. PacketReceive bus rcv_buf g = Some (p, g') \<and> nic g' = snd (snd r)
    \<and> (if fst r = 0 \<or> xs = [] then p = NULL \<and> pool_ok MEMP_PBUF_POOL xs (lwm g')
       else p = hd xs \<and> pool_ok MEMP_PBUF_POOL (tl xs) (lwm g') \<and> chain (pbuf_next (lwm g')) p [p]
         \<and> pbuf_bytes (lwm g') [p] = bytes_at (fst (snd r)) rcv_buf (unat (fst r)))
    \<and> (\<forall>a. a \<notin> {rcv_buf..<rcv_buf + 1500} \<longrightarrow> (p \<noteq> NULL \<longrightarrow> a \<notin> {p..<p + 1532}) \<longrightarrow> octet (lwm g') a = octet (lwm g) a))"
proof -
  obtain recvlen m n where r: "r = (recvlen, m, n)" by (cases r)
  note eq = r [unfolded r_def]
  have bound: "unat recvlen < 1500" "\<And>a. a \<notin> {rcv_buf..<rcv_buf + 1500} \<Longrightarrow> m a = octet (lwm g) a"
    using PacketReceive_bounds [where maxlen = 1500 and bus = bus and packet = rcv_buf and m = "octet (lwm g)" and n = "nic g"] by (auto simp: eq)
  define w where "w = (lwm g)\<lparr>octet := m\<rparr>"
  have ok: "pool_ok MEMP_PBUF_POOL xs w" using assms(1) by (simp add: w_def pool_ok_def)
  have run: "PacketReceive bus rcv_buf g = (if recvlen = 0 then Some (NULL, g\<lparr>nic := n, lwm := w\<rparr>)
    else case pbuf_alloc PBUF_RAW (ucast recvlen) PBUF_POOL w of None \<Rightarrow> None
       | Some (p, w) \<Rightarrow> if p = NULL then Some (NULL, g\<lparr>nic := n, lwm := w\<rparr>)
           else map_option (\<lambda>w. (p, g\<lparr>nic := n, lwm := w\<rparr>)) (recv_loop rcv_buf recvlen p 0 w))"
    by (simp add: PacketReceive_def eq w_def)
  have mw: "octet w = m" by (simp add: w_def)
  consider "recvlen = 0" | "recvlen \<noteq> 0" "xs = []" | x ys where "recvlen \<noteq> 0" "xs = x # ys" by (cases xs) auto
  then show ?thesis
  proof cases
    case 1
    then show ?thesis using run ok mw bound by (auto simp: r)
  next
    case 2
    have "pbuf_alloc PBUF_RAW (ucast recvlen) PBUF_POOL w = Some (NULL, w)"
      using memp_malloc_empty [of MEMP_PBUF_POOL w] ok 2 by (simp add: pbuf_alloc_def Let_def)
    then show ?thesis using run ok mw bound 2 by (auto simp: r)
  next
    case 3
    have u: "unat (ucast recvlen :: u16) = unat recvlen" using bound(1)
      by (simp add: unsigned_ucast_eq take_bit_nat_eq_self)
    have k: "bufs_needed PBUF_RAW (unat (ucast recvlen :: u16)) = 1"
      using bound(1) by (simp add: u bufs_needed_def first_len_def)
    obtain w' where a: "pbuf_alloc PBUF_RAW (ucast recvlen) PBUF_POOL w = Some (x, w')" "pool_ok MEMP_PBUF_POOL ys w'"
      "chain (pbuf_next w') x [x]" "buf_len w' x = unat recvlen" "own w' x" "octet w' = m"
      using pbuf_alloc_pool [OF ok, of PBUF_RAW "ucast recvlen"] unfolding k by (auto simp: 3 u mw)
    have x: "x \<noteq> NULL" using a(3) by simp
    define v where "v = MEMCPY (payload (pbufs w' x)) rcv_buf (buf_len w' x) w'"
    have "recv_loop rcv_buf recvlen x 0 w' = Some v" unfolding v_def using x a(4) by (intro recv_loop_one) simp_all
    then have res: "PacketReceive bus rcv_buf g = Some (x, g\<lparr>nic := n, lwm := v\<rparr>)" using run a(1) 3(1) x by simp
    have "pool_ok MEMP_PBUF_POOL ys v" using a(2) by (simp add: v_def pool_ok_def MEMCPY_def)
    moreover have "chain (pbuf_next v) x [x]" using a(3) by (simp add: v_def)
    moreover have "pbuf_bytes v [x] = bytes_at m rcv_buf (unat recvlen)"
      using bytes_MEMCPY [of "payload (pbufs w' x)" rcv_buf "buf_len w' x" w'] a(4,6) by (simp add: v_def buf_bytes_def)
    moreover have "octet v b = octet (lwm g) b" if "b \<notin> {rcv_buf..<rcv_buf + 1500}" "b \<notin> {x..<x + 1532}" for b
    proof -
      have "b \<notin> {payload (pbufs w' x)..<payload (pbufs w' x) + buf_len w' x}" using that(2) a(5) by (auto simp: own_def)
      then show ?thesis unfolding v_def by (simp add: MEMCPY_outside a(6) bound(2) [OF that(1)])
    qed
    ultimately show ?thesis using res bound(1) 3 x by (auto simp: r)
  qed
qed

text \<open>A controller that answers every byte with 0x81: a frame that claims more than 1499 bytes.\<close>

definition demo_rx_bus :: "unit bus" where
  "demo_rx_bus = \<lparr>CSL = (\<lambda>d. d), CSH = (\<lambda>d. d), ReadWrite = (\<lambda>b d. (0x81, d))\<rparr>"

definition demo_rx :: "unit gw" where
  "demo_rx = \<lparr>nic = \<lparr>Enc28j60Bank = 0, NextPacketPtr = 0, dev = ()\<rparr>, lwm = demo_pool\<rparr>"

lemma demo_rx_bus: "SPI1_ReadWrite demo_rx_bus b n = (0x81, n)" "ENC28J60_CSL demo_rx_bus n = n" "ENC28J60_CSH demo_rx_bus n = n"
  by (simp_all add: demo_rx_bus_def SPI1_ReadWrite_def ENC28J60_CSL_def ENC28J60_CSH_def)

lemma demo_rx_len: "fst (enc28j60PacketReceive demo_rx_bus 1500 20000 m n) = 1499"
proof -
  have op: "enc28j60ReadOp demo_rx_bus c a n = (0x81, n)" for c a n
    by (simp add: enc28j60ReadOp_def demo_rx_bus)
  then have "fst (enc28j60Read demo_rx_bus a n) = 0x81" for a n by (simp add: enc28j60Read_def)
  moreover have "fst (read_word demo_rx_bus n) = 0x8181" for n :: "unit nic" by (simp add: read_word_def op)
  ultimately show ?thesis
    by (simp add: enc28j60PacketReceive_def Let_def split_beta word_less_nat_alt)
qed

lemma PacketReceive_spec_witness:
  "\<exists>g'. PacketReceive demo_rx_bus 20000 demo_rx = Some (4000, g') \<and> pool_ok MEMP_PBUF_POOL [8000] (lwm g')"
proof -
  have "pool_ok MEMP_PBUF_POOL [4000, 8000] (lwm demo_rx)" using demo_pool by (simp add: demo_rx_def)
  moreover have "{x..<x + 1532} \<inter> {20000..<20000 + 1500} = {}" if "x \<in> set [4000, 8000 :: nat]" for x using that by auto
  ultimately show ?thesis
    using PacketReceive_spec [of "[4000, 8000]" demo_rx 20000 demo_rx_bus] by (auto simp: demo_rx_len)
qed

end
