(* ===== verification/Timers.thy ===== *)
theory Timers
  imports Memp Sys_Arch
begin

text \<open>
  \<open>core/timers.c\<close>: the one list of pending timeouts. Each entry holds the time from the entry
  before it, so that only the first one is counted down. \<open>None\<close> is a failed assertion, a call
  that does not return, or a cyclic list. A handler is an address; \<open>run\<close> is what calling it does.
\<close>

abbreviation (input) MEMP_SYS_TIMEOUT :: nat where "MEMP_SYS_TIMEOUT \<equiv> 7"
abbreviation (input) IP_TMR_INTERVAL :: u32 where "IP_TMR_INTERVAL \<equiv> 1000"
abbreviation (input) ARP_TMR_INTERVAL :: u32 where "ARP_TMR_INTERVAL \<equiv> 5000"

record sys_timeo =
  t_next :: ptr
  t_time :: u32
  t_h :: ptr
  t_arg :: ptr

record tmo =
  tlw :: lw
  tnet :: net
  timeos :: "ptr \<Rightarrow> sys_timeo"
  next_timeout :: ptr

definition upd_timeo :: "ptr \<Rightarrow> (sys_timeo \<Rightarrow> sys_timeo) \<Rightarrow> tmo \<Rightarrow> tmo" where
  "upd_timeo p f s = s\<lparr>timeos := (timeos s)(p := f (timeos s p))\<rparr>"

section \<open>Registering\<close>

text \<open>The loop of \<open>sys_timeout\<close> that looks for the place of a new entry behind the first one.\<close>

partial_function (option) timeout_loop :: "ptr \<Rightarrow> ptr \<Rightarrow> tmo \<Rightarrow> tmo option" where
  "timeout_loop timeout t s =
     (if t \<noteq> NULL
      then let s = upd_timeo timeout (\<lambda>e. e\<lparr>t_time := t_time e - t_time (timeos s t)\<rparr>) s;
               nxt = t_next (timeos s t)
           in if nxt = NULL \<or> t_time (timeos s nxt) > t_time (timeos s timeout)
              then let s = (if nxt \<noteq> NULL
                            then upd_timeo nxt (\<lambda>e. e\<lparr>t_time := t_time e - t_time (timeos s timeout)\<rparr>) s else s);
                       s = upd_timeo timeout (\<lambda>e. e\<lparr>t_next := nxt\<rparr>) s
                   in Some (upd_timeo t (\<lambda>e. e\<lparr>t_next := timeout\<rparr>) s)
              else timeout_loop timeout nxt s
      else Some s)"

definition sys_timeout :: "u32 \<Rightarrow> ptr \<Rightarrow> ptr \<Rightarrow> tmo \<Rightarrow> tmo option" where
  "sys_timeout msecs handler arg s =
     (case memp_malloc MEMP_SYS_TIMEOUT (tlw s) of
        None \<Rightarrow> None
      | Some (timeout, w) \<Rightarrow>
          if timeout = NULL then None
          else let s = upd_timeo timeout (\<lambda>_. \<lparr>t_next = NULL, t_time = msecs, t_h = handler, t_arg = arg\<rparr>) (s\<lparr>tlw := w\<rparr>);
                   first = next_timeout s
               in if first = NULL then Some (s\<lparr>next_timeout := timeout\<rparr>)
                  else if t_time (timeos s first) > msecs
                  then let s = upd_timeo first (\<lambda>e. e\<lparr>t_time := t_time e - msecs\<rparr>) s;
                           s = upd_timeo timeout (\<lambda>e. e\<lparr>t_next := first\<rparr>) s
                       in Some (s\<lparr>next_timeout := timeout\<rparr>)
                  else timeout_loop timeout first s)"

definition sys_timeouts_init :: "ptr \<Rightarrow> ptr \<Rightarrow> tmo \<Rightarrow> tmo option" where
  "sys_timeouts_init ip_reass_timer arp_timer s =
     Option.bind (sys_timeout IP_TMR_INTERVAL ip_reass_timer NULL s) (sys_timeout ARP_TMR_INTERVAL arp_timer NULL)"

section \<open>Removing\<close>

partial_function (option) untimeout_loop :: "ptr \<Rightarrow> ptr \<Rightarrow> ptr \<Rightarrow> ptr \<Rightarrow> tmo \<Rightarrow> tmo option" where
  "untimeout_loop handler arg prev_t t s =
     (if t \<noteq> NULL
      then if t_h (timeos s t) = handler \<and> t_arg (timeos s t) = arg
           then let nxt = t_next (timeos s t);
                    s = (if prev_t = NULL then s\<lparr>next_timeout := nxt\<rparr> else upd_timeo prev_t (\<lambda>e. e\<lparr>t_next := nxt\<rparr>) s);
                    s = (if nxt \<noteq> NULL then upd_timeo nxt (\<lambda>e. e\<lparr>t_time := t_time e + t_time (timeos s t)\<rparr>) s else s)
                in map_option (\<lambda>w. s\<lparr>tlw := w\<rparr>) (memp_free MEMP_SYS_TIMEOUT t (tlw s))
           else untimeout_loop handler arg t (t_next (timeos s t)) s
      else Some s)"

definition sys_untimeout :: "ptr \<Rightarrow> ptr \<Rightarrow> tmo \<Rightarrow> tmo option" where
  "sys_untimeout handler arg s =
     (if next_timeout s = NULL then Some s else untimeout_loop handler arg NULL (next_timeout s) s)"

section \<open>Waiting for a message\<close>

text \<open>The first timeout has expired: it is unlinked and freed, then its handler is called.\<close>

definition run_timeout :: "(ptr \<Rightarrow> ptr \<Rightarrow> tmo \<Rightarrow> tmo option) \<Rightarrow> tmo \<Rightarrow> tmo option" where
  "run_timeout run s =
     (let tmptimeout = next_timeout s;
          e = timeos s tmptimeout;
          s = s\<lparr>next_timeout := t_next e\<rparr>
      in Option.bind (memp_free MEMP_SYS_TIMEOUT tmptimeout (tlw s))
           (\<lambda>w. let s = s\<lparr>tlw := w\<rparr> in if t_h e \<noteq> NULL then run (t_h e) (t_arg e) s else Some s))"

text \<open>A message came after \<open>time_needed\<close> milliseconds.\<close>

definition count_down :: "u32 \<Rightarrow> tmo \<Rightarrow> tmo" where
  "count_down time_needed s =
     upd_timeo (next_timeout s)
       (\<lambda>e. e\<lparr>t_time := (if time_needed < t_time e then t_time e - time_needed else 0)\<rparr>) s"

partial_function (option) sys_timeouts_mbox_fetch ::
  "(net \<Rightarrow> net) \<Rightarrow> (ptr \<Rightarrow> ptr \<Rightarrow> tmo \<Rightarrow> tmo option) \<Rightarrow> ptr \<Rightarrow> tmo \<Rightarrow> (ptr \<times> tmo) option" where
  "sys_timeouts_mbox_fetch others run mbox s =
     (if next_timeout s = NULL
      then case sys_arch_mbox_fetch others mbox 0 (tnet s) of
             None \<Rightarrow> None
           | Some ((_, msg), n) \<Rightarrow> Some (msg, s\<lparr>tnet := n\<rparr>)
      else Option.bind
             (if t_time (timeos s (next_timeout s)) > 0
              then map_option (\<lambda>((t, msg), n). (t, msg, s\<lparr>tnet := n\<rparr>))
                     (sys_arch_mbox_fetch others mbox (t_time (timeos s (next_timeout s))) (tnet s))
              else Some (SYS_ARCH_TIMEOUT, NULL, s))
             (\<lambda>(time_needed, msg, s).
                if time_needed = SYS_ARCH_TIMEOUT
                then Option.bind (run_timeout run s) (sys_timeouts_mbox_fetch others run mbox)
                else Some (msg, count_down time_needed s)))"

end
