(* ===== verification/Timers_Props.thy ===== *)
theory Timers_Props
  imports Timers Heap_Props Sys_Arch_Props
begin

text \<open>
  The list of timeouts against its specification: a list of deadlines, counted from now, in
  order; an entry is inserted behind those that are not later, and removed without moving the others.
\<close>

section \<open>Deadlines\<close>

type_synonym deadline = "nat \<times> ptr \<times> ptr"

fun deadlines :: "(ptr \<Rightarrow> sys_timeo) \<Rightarrow> nat \<Rightarrow> ptr list \<Rightarrow> deadline list" where
  "deadlines m d [] = []"
| "deadlines m d (p # ps) =
     (d + unat (t_time (m p)), t_h (m p), t_arg (m p)) # deadlines m (d + unat (t_time (m p))) ps"

definition insert_deadline :: "deadline \<Rightarrow> deadline list \<Rightarrow> deadline list" where
  "insert_deadline e es = takeWhile (\<lambda>x. fst x \<le> fst e) es @ e # dropWhile (\<lambda>x. fst x \<le> fst e) es"

fun remove_deadline :: "ptr \<Rightarrow> ptr \<Rightarrow> deadline list \<Rightarrow> deadline list" where
  "remove_deadline h a [] = []"
| "remove_deadline h a (x # xs) = (if snd x = (h, a) then xs else x # remove_deadline h a xs)"

lemma deadlines_cong: "(\<And>p. p \<in> set ps \<Longrightarrow> t_time (m p) = t_time (m' p) \<and> t_h (m p) = t_h (m' p) \<and> t_arg (m p) = t_arg (m' p))
    \<Longrightarrow> deadlines m d ps = deadlines m' d ps"
  by (induction ps arbitrary: d) auto

lemma deadlines_ge: "x \<in> set (deadlines m d ps) \<Longrightarrow> d \<le> fst x"
proof (induction ps arbitrary: d)
  case (Cons p ps)
  then show ?case using Cons.IH [of "d + unat (t_time (m p))"] by (auto dest: add_leD1)
qed simp

lemma deadlines_sorted: "sorted_wrt (\<lambda>x y. fst x \<le> fst y) (deadlines m d ps)"
  by (induction ps arbitrary: d) (auto dest: deadlines_ge)

lemma upd_timeo_sel [simp]:
  "timeos (upd_timeo p f s) q = (if q = p then f (timeos s p) else timeos s q)"
  "tlw (upd_timeo p f s) = tlw s" "tnet (upd_timeo p f s) = tnet s" "next_timeout (upd_timeo p f s) = next_timeout s"
  by (simp_all add: upd_timeo_def)

definition tnexts :: "tmo \<Rightarrow> ptr \<Rightarrow> ptr" where
  "tnexts s p = t_next (timeos s p)"

section \<open>Insertion\<close>

lemma insert_second:
  "b \<le> c \<Longrightarrow> c < e \<Longrightarrow> insert_deadline (c, h) ((b, k) # (e, l) # es) = (b, k) # (c, h) # (e, l) # es"
  by (simp add: insert_deadline_def)

lemma timeout_loop_spec:
  assumes "chain (tnexts s) t (t # ts)" "x \<noteq> NULL" "distinct (x # t # ts)" "t_time (timeos s t) \<le> t_time (timeos s x)"
  obtains s' ts' where "timeout_loop x t s = Some s'" "chain (tnexts s') t (t # ts')" "set ts' = insert x (set ts)" "distinct (t # ts')"
    "deadlines (timeos s') d (t # ts') =
       insert_deadline (d + unat (t_time (timeos s x)), t_h (timeos s x), t_arg (timeos s x)) (deadlines (timeos s) d (t # ts))"
    "\<And>p. p \<notin> set (x # t # ts) \<Longrightarrow> timeos s' p = timeos s p"
    "t_time (timeos s' t) = t_time (timeos s t)" "t_h (timeos s' t) = t_h (timeos s t)" "t_arg (timeos s' t) = t_arg (timeos s t)"
    "tlw s' = tlw s" "tnet s' = tnet s" "next_timeout s' = next_timeout s"
  using assms
proof (induction ts arbitrary: t s d thesis)
  case Nil
  have n: "t_next (timeos s t) = NULL" "t \<noteq> NULL" using Nil.prems(2) by (auto simp: tnexts_def)
  have tx: "t \<noteq> x" using Nil.prems(4) by auto
  have sub: "unat (t_time (timeos s x) - t_time (timeos s t)) = unat (t_time (timeos s x)) - unat (t_time (timeos s t))"
    "unat (t_time (timeos s t)) \<le> unat (t_time (timeos s x))"
    using Nil.prems(5) by (auto simp: unat_sub word_le_nat_alt)
  define s' where "s' = upd_timeo t (\<lambda>e. e\<lparr>t_next := x\<rparr>) (upd_timeo x (\<lambda>e. e\<lparr>t_next := NULL\<rparr>)
      (upd_timeo x (\<lambda>e. e\<lparr>t_time := t_time e - t_time (timeos s t)\<rparr>) s))"
  have run: "timeout_loop x t s = Some s'" using n tx by (subst timeout_loop.simps) (simp add: Let_def s'_def)
  show ?case
    by (rule Nil.prems(1) [OF run, of "[x]"])
      (use n tx sub Nil.prems(3) in \<open>auto simp: s'_def tnexts_def insert_deadline_def\<close>)
next
  case (Cons u us)
  have "tnexts s t = u" "t \<noteq> NULL" "u \<noteq> NULL" "chain (tnexts s) u (u # us)" using Cons.prems(2) by auto
  then have n: "t_next (timeos s t) = u" "t \<noteq> NULL" "u \<noteq> NULL" "chain (tnexts s) u (u # us)" by (simp_all add: tnexts_def)
  have ne: "t \<noteq> x" "u \<noteq> x" "u \<noteq> t" "x \<notin> set us" "t \<notin> set us" "u \<notin> set us" "distinct us" using Cons.prems(4) by auto
  let ?T = "\<lambda>p. t_time (timeos s p)"
  have sub: "unat (?T x - ?T t) = unat (?T x) - unat (?T t)" "unat (?T t) \<le> unat (?T x)"
    using Cons.prems(5) by (auto simp: unat_sub word_le_nat_alt)
  define s1 where "s1 = upd_timeo x (\<lambda>e. e\<lparr>t_time := t_time e - ?T t\<rparr>) s"
  have s1: "timeos s1 p = timeos s p" if "p \<noteq> x" for p using that by (simp add: s1_def)
  have s1x: "timeos s1 x = (timeos s x)\<lparr>t_time := ?T x - ?T t\<rparr>" by (simp add: s1_def)
  show ?case
  proof (cases "?T u > ?T x - ?T t")
    case True
    have subu: "unat (?T u - (?T x - ?T t)) = unat (?T u) - (unat (?T x) - unat (?T t))" "unat (?T x) - unat (?T t) < unat (?T u)"
      using True sub by (auto simp: unat_sub word_le_nat_alt word_less_nat_alt)
    define s' where "s' = upd_timeo t (\<lambda>e. e\<lparr>t_next := x\<rparr>) (upd_timeo x (\<lambda>e. e\<lparr>t_next := u\<rparr>)
      (upd_timeo u (\<lambda>e. e\<lparr>t_time := t_time e - (?T x - ?T t)\<rparr>) s1))"
    have run: "timeout_loop x t s = Some s'" using n ne True
      by (subst timeout_loop.simps) (simp add: Let_def s'_def s1_def)
    have s': "timeos s' p = timeos s p" if "p \<noteq> x" "p \<noteq> t" "p \<noteq> u" for p using that by (simp add: s'_def s1)
    have st: "timeos s' t = (timeos s t)\<lparr>t_next := x\<rparr>" "timeos s' x = (timeos s x)\<lparr>t_time := ?T x - ?T t, t_next := u\<rparr>"
      "timeos s' u = (timeos s u)\<lparr>t_time := ?T u - (?T x - ?T t)\<rparr>"
      using ne s1 by (simp_all add: s'_def s1x)
    have eq: "timeos s' q = timeos s q" if "q \<in> set us" for q by (rule s') (use that ne in auto)
    have us: "chain (tnexts s') (tnexts s u) us \<longleftrightarrow> chain (tnexts s) (tnexts s u) us"
      by (rule chain_cong) (simp add: tnexts_def eq)
    have dl: "deadlines (timeos s') e us = deadlines (timeos s) e us" for e
      by (rule deadlines_cong) (simp add: eq)
    have sel: "t_time (timeos s' t) = ?T t" "t_h (timeos s' t) = t_h (timeos s t)" "t_arg (timeos s' t) = t_arg (timeos s t)"
      "t_time (timeos s' x) = ?T x - ?T t" "t_h (timeos s' x) = t_h (timeos s x)" "t_arg (timeos s' x) = t_arg (timeos s x)"
      "t_time (timeos s' u) = ?T u - (?T x - ?T t)" "t_h (timeos s' u) = t_h (timeos s u)" "t_arg (timeos s' u) = t_arg (timeos s u)"
      by (simp_all add: st)
    have e1: "d + unat (?T t) + unat (?T x - ?T t) = d + unat (?T x)" using sub by simp
    have e2: "d + unat (?T x) + unat (?T u - (?T x - ?T t)) = d + unat (?T t) + unat (?T u)"
      unfolding subu(1) using subu(2) sub(2) by linarith
    have ins: "d + unat (?T t) \<le> d + unat (?T x)" "d + unat (?T x) < d + unat (?T t) + unat (?T u)"
      using subu(2) sub(2) by linarith+
    show ?thesis
    proof (rule Cons.prems(1) [OF run, of "x # u # us"])
      have "tnexts s' u = tnexts s u" by (simp add: tnexts_def st)
      then show "chain (tnexts s') t (t # x # u # us)"
        using us n(4) n(2,3) Cons.prems(3) ne by (simp add: tnexts_def st)
      show "deadlines (timeos s') d (t # x # u # us) =
        insert_deadline (d + unat (?T x), t_h (timeos s x), t_arg (timeos s x)) (deadlines (timeos s) d (t # u # us))"
        by (simp only: deadlines.simps sel e1 e2 dl insert_second [OF ins])
      show "timeos s' p = timeos s p" if "p \<notin> set (x # t # u # us)" for p using that s' by auto
      show "tlw s' = tlw s" "tnet s' = tnet s" "next_timeout s' = next_timeout s" by (simp_all add: s'_def s1_def)
    qed (use ne st in auto)
  next
    case False
    have step: "timeout_loop x t s = timeout_loop x u s1" using n ne False
      by (subst timeout_loop.simps) (simp add: Let_def s1_def)
    have eq: "timeos s1 q = timeos s q" if "q \<in> set (u # us)" for q by (rule s1) (use that ne in auto)
    have "chain (tnexts s1) u (u # us) \<longleftrightarrow> chain (tnexts s) u (u # us)"
      by (rule chain_cong) (simp only: tnexts_def eq)
    then have us: "chain (tnexts s1) u (u # us)" using n(4) by simp
    have dl: "deadlines (timeos s1) e (u # us) = deadlines (timeos s) e (u # us)" for e
      by (rule deadlines_cong) (simp only: eq)
    have le: "t_time (timeos s1 u) \<le> t_time (timeos s1 x)" using False ne by (simp add: s1 s1x)
    obtain s' ts' where IH: "timeout_loop x u s1 = Some s'" "chain (tnexts s') u (u # ts')" "set ts' = insert x (set us)" "distinct (u # ts')"
      "deadlines (timeos s') (d + unat (?T t)) (u # ts') =
         insert_deadline (d + unat (?T t) + unat (t_time (timeos s1 x)), t_h (timeos s1 x), t_arg (timeos s1 x))
           (deadlines (timeos s1) (d + unat (?T t)) (u # us))"
      "\<And>p. p \<notin> set (x # u # us) \<Longrightarrow> timeos s' p = timeos s1 p"
      "tlw s' = tlw s1" "tnet s' = tnet s1" "next_timeout s' = next_timeout s1"
      by (rule Cons.IH [OF _ us Cons.prems(3) _ le, of "d + unat (?T t)"]) (use ne in auto)
    have t': "timeos s' t = timeos s t" using IH(6) [of t] s1 ne by auto
    have val: "d + unat (?T t) + unat (t_time (timeos s1 x)) = d + unat (?T x)" using sub by (simp add: s1x)
    show ?thesis
    proof (rule Cons.prems(1) [of s' "u # ts'"])
      show "timeout_loop x t s = Some s'" using step IH(1) by simp
      show "chain (tnexts s') t (t # u # ts')" using IH(2) n(1,2) t' by (simp add: tnexts_def)
      show "deadlines (timeos s') d (t # u # ts') =
        insert_deadline (d + unat (?T x), t_h (timeos s x), t_arg (timeos s x)) (deadlines (timeos s) d (t # u # us))"
        using IH(5) sub(2) unfolding val dl by (simp add: t' insert_deadline_def s1x)
      show "timeos s' p = timeos s p" if "p \<notin> set (x # t # u # us)" for p using that IH(6) [of p] s1 by auto
      show "tlw s' = tlw s" "tnet s' = tnet s" "next_timeout s' = next_timeout s" using IH(7-9) by (simp_all add: s1_def)
    qed (use IH(3,4) ne t' in auto)
  qed
qed

section \<open>The list and the pool\<close>

text \<open>
  \<open>tm_ok s ts fs\<close>: the entries \<open>ts\<close> are pending, in this order, and \<open>fs\<close> free; all deadlines fit in 32 bits.
\<close>

definition tm_ok :: "tmo \<Rightarrow> ptr list \<Rightarrow> ptr list \<Rightarrow> bool" where
  "tm_ok s ts fs \<longleftrightarrow> chain (tnexts s) (next_timeout s) ts \<and> pool_ok MEMP_SYS_TIMEOUT fs (tlw s) \<and> distinct (ts @ fs)
     \<and> (\<forall>p\<in>set ts. p mod 4 = 0) \<and> (\<forall>x\<in>set (deadlines (timeos s) 0 ts). fst x < 2 ^ 32)"

lemma insert_first: "(\<And>x. x \<in> set es \<Longrightarrow> fst e < fst x) \<Longrightarrow> insert_deadline e es = e # es"
proof (cases es)
  case (Cons y ys)
  moreover assume "\<And>x. x \<in> set es \<Longrightarrow> fst e < fst x"
  ultimately have "fst e < fst y" by simp
  then show ?thesis by (simp add: insert_deadline_def Cons)
qed (simp add: insert_deadline_def)

lemma set_insert_deadline: "set (insert_deadline e es) = insert e (set es)"
  unfolding insert_deadline_def by (auto simp: set_append dest: set_takeWhileD set_dropWhileD)
    (metis UnE set_append takeWhile_dropWhile_id)

lemma sys_timeout_step:
  assumes "tm_ok s ts (x # fs)"
  obtains s' ts' where "sys_timeout ms h a s = Some s'" "tm_ok s' ts' fs" "set ts' = insert x (set ts)"
    "deadlines (timeos s') 0 ts' = insert_deadline (unat ms, h, a) (deadlines (timeos s) 0 ts)" "tnet s' = tnet s"
proof -
  note out = that
  note ok = assms [unfolded tm_ok_def]
  have pool: "pool_ok MEMP_SYS_TIMEOUT (x # fs) (tlw s)" using ok by simp
  note m = memp_malloc_take [OF pool, simplified]
  have x: "x \<notin> set ts" "distinct (x # ts)" "x mod 4 = 0" "x \<notin> set fs" using ok by (auto simp: pool_ok_def)
  have ms: "unat ms < 2 ^ 32" using unsigned_less [of ms] by simp
  define s0 where "s0 = upd_timeo x (\<lambda>_. \<lparr>t_next = NULL, t_time = ms, t_h = h, t_arg = a\<rparr>) (s\<lparr>tlw := memp_take MEMP_SYS_TIMEOUT (tlw s)\<rparr>)"
  have s0: "timeos s0 p = timeos s p" if "p \<noteq> x" for p using that by (simp add: s0_def upd_timeo_def)
  have s0x: "timeos s0 x = \<lparr>t_next = NULL, t_time = ms, t_h = h, t_arg = a\<rparr>" by (simp add: s0_def)
  have s0s: "tlw s0 = memp_take MEMP_SYS_TIMEOUT (tlw s)" "tnet s0 = tnet s" "next_timeout s0 = next_timeout s"
    by (simp_all add: s0_def)
  have eq: "timeos s0 p = timeos s p" if "p \<in> set ts" for p by (rule s0) (use that x in auto)
  have dl: "deadlines (timeos s0) e ts = deadlines (timeos s) e ts" for e by (rule deadlines_cong) (simp add: eq)
  have ch: "chain (tnexts s0) (next_timeout s) ts"
  proof -
    have "chain (tnexts s0) (next_timeout s) ts \<longleftrightarrow> chain (tnexts s) (next_timeout s) ts"
      by (rule chain_cong) (simp add: tnexts_def eq)
    then show ?thesis using ok by simp
  qed
  have run: "sys_timeout ms h a s = (if next_timeout s = NULL then Some (s0\<lparr>next_timeout := x\<rparr>)
    else if t_time (timeos s0 (next_timeout s)) > ms
    then Some (upd_timeo x (\<lambda>e. e\<lparr>t_next := next_timeout s\<rparr>) (upd_timeo (next_timeout s) (\<lambda>e. e\<lparr>t_time := t_time e - ms\<rparr>) s0)\<lparr>next_timeout := x\<rparr>)
    else timeout_loop x (next_timeout s) s0)"
    using m by (simp add: sys_timeout_def Let_def s0_def)
  have bound: "\<forall>y\<in>set (insert_deadline (unat ms, h, a) (deadlines (timeos s) 0 ts)). fst y < 2 ^ 32"
    using ok ms by (simp add: set_insert_deadline)
  have fin: thesis if r: "sys_timeout ms h a s = Some s'" "chain (tnexts s') (next_timeout s') ts'" "set ts' = insert x (set ts)" "distinct ts'"
    "deadlines (timeos s') 0 ts' = insert_deadline (unat ms, h, a) (deadlines (timeos s) 0 ts)" "tlw s' = tlw s0" "tnet s' = tnet s" for s' ts'
  proof (rule out [OF r(1) _ r(3,5,7)])
    have "distinct (ts' @ fs)" using ok x r(3,4) by auto
    then show "tm_ok s' ts' fs" using r ok m(2) x bound by (auto simp: tm_ok_def s0s)
  qed
  show thesis
  proof (cases ts)
    case Nil
    then have "next_timeout s = NULL" using ok by simp
    then show thesis using Nil m(3) run
      by (intro fin [of "s0\<lparr>next_timeout := x\<rparr>" "[x]"]) (auto simp: tnexts_def s0s s0x insert_deadline_def)
  next
    case (Cons t us)
    then have t: "next_timeout s = t" "t \<noteq> NULL" "t \<noteq> x" "x \<notin> set us" "t \<notin> set us" using ok x by auto
    show thesis
    proof (cases "t_time (timeos s0 t) > ms")
      case True
      define s1 where "s1 = upd_timeo t (\<lambda>e. e\<lparr>t_time := t_time e - ms\<rparr>) s0"
      define s2 where "s2 = upd_timeo x (\<lambda>e. e\<lparr>t_next := t\<rparr>) s1\<lparr>next_timeout := x\<rparr>"
      have r: "sys_timeout ms h a s = Some s2" using run t True by (simp add: s2_def s1_def)
      have T: "timeos s2 t = (timeos s t)\<lparr>t_time := t_time (timeos s t) - ms\<rparr>" "timeos s2 x = \<lparr>t_next = t, t_time = ms, t_h = h, t_arg = a\<rparr>"
        using t s0 by (simp_all add: s2_def s1_def upd_timeo_def s0x)
      have o: "timeos s2 p = timeos s p" if "p \<in> set us" for p
      proof -
        have "p \<noteq> t" "p \<noteq> x" using that t by auto
        then show ?thesis using s0 by (simp add: s2_def s1_def upd_timeo_def)
      qed
      have sub: "unat (t_time (timeos s t) - ms) = unat (t_time (timeos s t)) - unat ms" "unat ms < unat (t_time (timeos s t))"
        using True s0 t by (auto simp: unat_sub word_less_nat_alt word_le_nat_alt)
      have cus: "chain (tnexts s2) (tnexts s t) us"
      proof -
        have "chain (tnexts s2) (tnexts s t) us \<longleftrightarrow> chain (tnexts s) (tnexts s t) us" by (rule chain_cong) (simp add: tnexts_def o)
        then show ?thesis using ok Cons by simp
      qed
      have dus: "deadlines (timeos s2) e us = deadlines (timeos s) e us" for e by (rule deadlines_cong) (simp add: o)
      have "fst y > unat ms" if "y \<in> set (deadlines (timeos s) 0 ts)" for y
        using that sub(2) deadlines_ge [of y "timeos s" "unat (t_time (timeos s t))" us] by (auto simp: Cons)
      then have ins: "insert_deadline (unat ms, h, a) (deadlines (timeos s) 0 ts) = (unat ms, h, a) # deadlines (timeos s) 0 ts"
        by (intro insert_first) simp
      show thesis
      proof (rule fin [OF r, of "x # ts"])
        show "chain (tnexts s2) (next_timeout s2) (x # ts)"
          using cus m(3) t by (simp add: Cons tnexts_def T) (simp add: s2_def tnexts_def)
        show "deadlines (timeos s2) 0 (x # ts) = insert_deadline (unat ms, h, a) (deadlines (timeos s) 0 ts)"
          unfolding ins using sub by (simp add: Cons T dus)
        show "tlw s2 = tlw s0" "tnet s2 = tnet s" by (simp_all add: s2_def s1_def s0s)
      qed (use x in auto)
    next
      case False
      have dist: "distinct (x # t # us)" and xn: "x \<noteq> NULL" and ch': "chain (tnexts s0) t (t # us)"
        and le: "t_time (timeos s0 t) \<le> t_time (timeos s0 x)"
        using x Cons m(3) ch t False by (auto simp: s0x not_less)
      obtain s' ts' where l: "timeout_loop x t s0 = Some s'" "chain (tnexts s') t (t # ts')" "set ts' = insert x (set us)" "distinct (t # ts')"
        "deadlines (timeos s') 0 (t # ts') =
           insert_deadline (0 + unat (t_time (timeos s0 x)), t_h (timeos s0 x), t_arg (timeos s0 x)) (deadlines (timeos s0) 0 (t # us))"
        "tlw s' = tlw s0" "tnet s' = tnet s0" "next_timeout s' = next_timeout s0"
        by (rule timeout_loop_spec [OF ch' xn dist le])
      show thesis
      proof (rule fin [of s' "t # ts'"])
        show "sys_timeout ms h a s = Some s'" using run t False l(1) by simp
        show "deadlines (timeos s') 0 (t # ts') = insert_deadline (unat ms, h, a) (deadlines (timeos s) 0 ts)"
          using l(5) dl [of 0] by (simp add: s0x Cons del: deadlines.simps)
      qed (use l t s0s Cons in auto)
    qed
  qed
qed

section \<open>Removal\<close>

lemma chain_unlink:
  "chain f p (rs @ x # us) \<Longrightarrow> rs \<noteq> [] \<Longrightarrow> distinct (rs @ x # us) \<Longrightarrow> chain (f(last rs := f x)) p (rs @ us)"
proof (induction rs arbitrary: p)
  case (Cons r rs)
  show ?case
  proof (cases "rs = []")
    case True
    then have "f r = x" "x \<noteq> r" "r \<notin> set us" "p = r" "r \<noteq> NULL" "chain f (f x) us" using Cons.prems by auto
    then have "chain (f(r := f x)) r (r # us)" by (simp add: chain_upd_notin del: fun_upd_apply) (simp add: fun_upd_same)
    then show ?thesis using True \<open>p = r\<close> by (simp only: append_Nil append_Cons last.simps if_True simp_thms)
  next
    case False
    then have "r \<noteq> last rs" using Cons.prems(3) last_in_set [OF False] by auto
    then show ?thesis using Cons.IH [of "f r"] Cons.prems False by auto
  qed
qed simp

definition span :: "(ptr \<Rightarrow> sys_timeo) \<Rightarrow> ptr list \<Rightarrow> nat" where
  "span m ps = sum_list (map (\<lambda>p. unat (t_time (m p))) ps)"

lemma deadlines_append: "deadlines m d (ps @ qs) = deadlines m d ps @ deadlines m (d + span m ps) qs"
  by (induction ps arbitrary: d) (simp_all add: span_def add.assoc)

definition matches :: "ptr \<Rightarrow> ptr \<Rightarrow> tmo \<Rightarrow> ptr \<Rightarrow> bool" where
  "matches h a s p \<longleftrightarrow> t_h (timeos s p) = h \<and> t_arg (timeos s p) = a"

lemma remove_deadline_append:
  "(\<And>x. x \<in> set xs \<Longrightarrow> snd x \<noteq> (h, a)) \<Longrightarrow> remove_deadline h a (xs @ ys) = xs @ remove_deadline h a ys"
  by (induction xs) auto

lemma deadlines_no_match: "(\<And>p. p \<in> set ps \<Longrightarrow> \<not> matches h a s p) \<Longrightarrow> x \<in> set (deadlines (timeos s) d ps) \<Longrightarrow> snd x \<noteq> (h, a)"
proof (induction ps arbitrary: d)
  case (Cons p ps)
  have "\<not> matches h a s p" by (rule Cons.prems(1)) simp
  moreover have "x \<in> set (deadlines (timeos s) (d + unat (t_time (timeos s p))) ps) \<Longrightarrow> snd x \<noteq> (h, a)"
    by (rule Cons.IH) (use Cons.prems(1) in auto)
  ultimately show ?case using Cons.prems(2) by (auto simp: matches_def)
qed simp

lemma untimeout_skip:
  "chain (tnexts s) t (rs @ ts) \<Longrightarrow> (\<And>p. p \<in> set rs \<Longrightarrow> \<not> matches h a s p) \<Longrightarrow>
    untimeout_loop h a q t s = untimeout_loop h a (last (q # rs)) (if ts = [] then NULL else hd ts) s"
proof (induction rs arbitrary: t q)
  case Nil
  then show ?case by (cases ts) auto
next
  case (Cons r rs)
  then have "t = r" "t \<noteq> NULL" "\<not> matches h a s r" by auto
  then have "untimeout_loop h a q t s = untimeout_loop h a r (tnexts s r) s"
    by (subst untimeout_loop.simps) (auto simp: matches_def tnexts_def)
  then show ?case using Cons.IH [of "tnexts s r" r] Cons.prems by simp
qed

lemma first_match:
  obtains "\<And>p. p \<in> set ts \<Longrightarrow> \<not> matches h a s p"
  | rs x us where "ts = rs @ x # us" "matches h a s x" "\<And>p. p \<in> set rs \<Longrightarrow> \<not> matches h a s p"
  using split_list_first_prop [of ts "matches h a s"] by blast

lemma sys_untimeout_step:
  assumes "tm_ok s ts fs"
  obtains s' ts' fs' where "sys_untimeout h a s = Some s'" "tm_ok s' ts' fs'" "set (ts' @ fs') = set (ts @ fs)"
    "deadlines (timeos s') 0 ts' = remove_deadline h a (deadlines (timeos s) 0 ts)" "tnet s' = tnet s"
proof -
  note out = that
  note ok = assms [unfolded tm_ok_def]
  have ch: "chain (tnexts s) (next_timeout s) ts" using ok by simp
  have nul: "untimeout_loop h a q NULL s = Some s" for q by (subst untimeout_loop.simps, simp)
  then have loop: "sys_untimeout h a s = untimeout_loop h a NULL (next_timeout s) s"
    by (simp add: sys_untimeout_def)
  show thesis
  proof (rule first_match [of ts h a s])
    assume none: "\<And>p. p \<in> set ts \<Longrightarrow> \<not> matches h a s p"
    have run: "sys_untimeout h a s = Some s"
      using untimeout_skip [of s "next_timeout s" ts "[]" h a NULL] none ch loop nul by simp
    have "remove_deadline h a (deadlines (timeos s) 0 ts @ []) = deadlines (timeos s) 0 ts @ remove_deadline h a []"
      by (rule remove_deadline_append) (use deadlines_no_match [of ts h a s _ 0] none in blast)
    then show thesis using out [OF run assms] by simp
  next
    fix rs x us
    assume ts: "ts = rs @ x # us" and mx: "matches h a s x" and none: "\<And>p. p \<in> set rs \<Longrightarrow> \<not> matches h a s p"
    have c: "x \<noteq> NULL" "chain (tnexts s) (tnexts s x) us" "x mod 4 = 0" "x \<notin> set fs" "distinct (rs @ x # us)"
      using ok ts chain_append [of "tnexts s" "next_timeout s" rs x us] by auto
    let ?q = "last (NULL # rs)" and ?n = "t_next (timeos s x)"
    have qn: "?q = NULL \<longleftrightarrow> rs = []"
    proof (cases "rs = []")
      case False
      then have "last rs \<in> set ts" by (simp add: ts)
      then have "last rs \<noteq> NULL" using chain_not_NULL [OF ch] by metis
      then show ?thesis using False by simp
    qed simp
    have qx: "?q \<noteq> x" "?q \<notin> set us" if "rs \<noteq> []"
    proof -
      have "last rs \<in> set rs" "set rs \<inter> set us = {}" "x \<notin> set rs" using c(5) that by auto
      then show "?q \<noteq> x" "?q \<notin> set us" using that by (auto simp: disjoint_iff)
    qed
    define s1 where "s1 = (if rs = [] then s\<lparr>next_timeout := ?n\<rparr> else upd_timeo ?q (\<lambda>e. e\<lparr>t_next := ?n\<rparr>) s)"
    define s2 where "s2 = (if ?n \<noteq> NULL then upd_timeo ?n (\<lambda>e. e\<lparr>t_time := t_time e + t_time (timeos s1 x)\<rparr>) s1 else s1)"
    define s' where "s' = s2\<lparr>tlw := memp_give MEMP_SYS_TIMEOUT x (tlw s)\<rparr>"
    have tl: "tlw s2 = tlw s" "tnet s2 = tnet s" by (simp_all add: s2_def s1_def)
    have pool: "memp_free MEMP_SYS_TIMEOUT x (tlw s) = Some (memp_give MEMP_SYS_TIMEOUT x (tlw s))"
      "pool_ok MEMP_SYS_TIMEOUT (x # fs) (memp_give MEMP_SYS_TIMEOUT x (tlw s))"
      using memp_free_give [of MEMP_SYS_TIMEOUT fs "tlw s" x] ok c by auto
    have "sys_untimeout h a s = untimeout_loop h a ?q x s"
      using untimeout_skip [of s "next_timeout s" rs "x # us" h a NULL] none ch loop ts by simp
    also have "\<dots> = map_option (\<lambda>w. s2\<lparr>tlw := w\<rparr>) (memp_free MEMP_SYS_TIMEOUT x (tlw s2))"
      using c(1) mx qn by (subst untimeout_loop.simps, auto simp: matches_def Let_def s2_def s1_def)
    finally have run: "sys_untimeout h a s = Some s'" using pool(1) tl by (simp add: s'_def)
    have T1: "t_time (timeos s1 p) = t_time (timeos s p)" for p by (simp add: s1_def)
    have other: "t_time (timeos s' p) = t_time (timeos s p)" if "p \<noteq> ?n \<or> p = NULL" for p
      using that by (auto simp: s'_def s2_def T1)
    have attr: "t_h (timeos s' p) = t_h (timeos s p)" "t_arg (timeos s' p) = t_arg (timeos s p)" for p
      by (simp_all add: s'_def s2_def s1_def)
    have nexts: "tnexts s' = (if rs = [] then tnexts s else (tnexts s)(?q := tnexts s x))"
      by (auto simp: s'_def s2_def s1_def tnexts_def fun_eq_iff)
    have nt: "next_timeout s' = (if rs = [] then tnexts s x else next_timeout s)"
      by (simp add: s'_def s2_def s1_def tnexts_def)
    have ch': "chain (tnexts s') (next_timeout s') (rs @ us)"
    proof (cases "rs = []")
      case True
      then show ?thesis using c(2) by (simp add: nexts nt)
    next
      case False
      then show ?thesis using chain_unlink [of "tnexts s" "next_timeout s" rs x us] ch ts c(5) by (simp add: nexts nt)
    qed
    have nus: "?n = (if us = [] then NULL else hd us)" using c(2) by (cases us) (auto simp: tnexts_def)
    have nrs: "?n \<notin> set rs" using nus c(5) chain_not_NULL [OF ch] by (cases us) (auto simp: ts)
    have ors: "t_time (timeos s' p) = t_time (timeos s p)" if "p \<in> set rs" for p using other [of p] nrs that by auto
    have drs: "deadlines (timeos s') d rs = deadlines (timeos s) d rs" for d
      by (rule deadlines_cong) (simp add: ors attr)
    have sp: "span (timeos s') rs = span (timeos s) rs"
      unfolding span_def by (rule arg_cong [of _ _ sum_list], rule map_cong) (simp_all add: ors)
    let ?D = "span (timeos s) rs"
    have dus: "deadlines (timeos s') ?D us = deadlines (timeos s) (?D + unat (t_time (timeos s x))) us"
    proof (cases us)
      case (Cons u vs)
      have u: "?n = u" "u \<noteq> NULL" "u \<notin> set vs" using nus Cons c(2,5) by auto
      have "?D + unat (t_time (timeos s x)) + unat (t_time (timeos s u)) < 2 ^ 32"
        using ok by (simp add: ts Cons deadlines_append)
      then have "unat (t_time (timeos s u) + t_time (timeos s x)) = unat (t_time (timeos s u)) + unat (t_time (timeos s x))"
        by (intro unat_add_small, simp)
      moreover have "t_time (timeos s' u) = t_time (timeos s u) + t_time (timeos s x)"
        using u by (simp add: s'_def s2_def T1)
      moreover have "t_time (timeos s' p) = t_time (timeos s p)" if "p \<in> set vs" for p using other [of p] u that by auto
      then have "deadlines (timeos s') e vs = deadlines (timeos s) e vs" for e
        by (intro deadlines_cong) (simp add: attr)
      ultimately show ?thesis by (simp add: Cons attr ac_simps)
    qed simp
    have "remove_deadline h a (deadlines (timeos s) 0 rs @ deadlines (timeos s) ?D (x # us)) =
        deadlines (timeos s) 0 rs @ remove_deadline h a (deadlines (timeos s) ?D (x # us))"
      by (rule remove_deadline_append) (use deadlines_no_match [of rs h a s _ 0] none in blast)
    then have dl: "deadlines (timeos s') 0 (rs @ us) = remove_deadline h a (deadlines (timeos s) 0 ts)"
      using mx by (simp add: ts deadlines_append drs sp dus matches_def)
    have "set (remove_deadline h a es) \<subseteq> set es" for es by (induction es, auto)
    then have bound: "\<forall>y\<in>set (deadlines (timeos s') 0 (rs @ us)). fst y < 2 ^ 32" using ok unfolding dl by blast
    have "tm_ok s' (rs @ us) (x # fs)"
      unfolding tm_ok_def using ch' pool(2) ok c bound by (auto simp: ts s'_def)
    then show thesis using out [OF run, of "rs @ us" "x # fs"] dl by (auto simp: ts s'_def tl)
  qed
qed

section \<open>Time\<close>

definition earlier :: "nat \<Rightarrow> deadline \<Rightarrow> deadline" where
  "earlier k x = (fst x - k, snd x)"

lemma deadlines_earlier: "k \<le> d \<Longrightarrow> map (earlier k) (deadlines m d ps) = deadlines m (d - k) ps"
proof (induction ps arbitrary: d)
  case (Cons p ps)
  have "d + unat (t_time (m p)) - k = d - k + unat (t_time (m p))" using Cons.prems by simp
  then show ?case using Cons.IH [of "d + unat (t_time (m p))"] Cons.prems by (simp add: earlier_def)
qed simp

lemma run_timeout_step:
  assumes "tm_ok s (t # us) fs"
  obtains s' where "run_timeout call s = (if t_h (timeos s t) \<noteq> NULL then call (t_h (timeos s t)) (t_arg (timeos s t)) s' else Some s')"
    "tm_ok s' us (t # fs)" "deadlines (timeos s') 0 us = map (earlier (unat (t_time (timeos s t)))) (deadlines (timeos s) (unat (t_time (timeos s t))) us)"
proof -
  note ok = assms [unfolded tm_ok_def]
  have t: "next_timeout s = t" "t \<noteq> NULL" "t \<notin> set fs" "t mod 4 = 0" "pool_ok MEMP_SYS_TIMEOUT fs (tlw s)" using ok by auto
  define s' where "s' = s\<lparr>next_timeout := t_next (timeos s t), tlw := memp_give MEMP_SYS_TIMEOUT t (tlw s)\<rparr>"
  note f = memp_free_give [OF t(5,2,4,3)]
  have run: "run_timeout call s = (if t_h (timeos s t) \<noteq> NULL then call (t_h (timeos s t)) (t_arg (timeos s t)) s' else Some s')"
    using f(1) t(1) by (simp add: run_timeout_def Let_def s'_def)
  have dl: "deadlines (timeos s') 0 us = map (earlier (unat (t_time (timeos s t)))) (deadlines (timeos s) (unat (t_time (timeos s t))) us)"
    by (simp add: deadlines_earlier s'_def)
  have "tnexts s' = tnexts s" by (auto simp: tnexts_def s'_def)
  then have "chain (tnexts s') (next_timeout s') us" using ok by (simp add: s'_def tnexts_def)
  moreover have "\<forall>x\<in>set (deadlines (timeos s') 0 us). fst x < 2 ^ 32"
    unfolding dl using ok by (auto simp: earlier_def less_imp_diff_less)
  ultimately have "tm_ok s' us (t # fs)" using ok f(2) by (auto simp: tm_ok_def s'_def)
  then show thesis using that run dl by blast
qed

lemma count_down_step:
  assumes "tm_ok s (t # us) fs"
  shows "tm_ok (count_down k s) (t # us) fs"
    "deadlines (timeos (count_down k s)) 0 (t # us) = map (earlier (min (unat k) (unat (t_time (timeos s t))))) (deadlines (timeos s) 0 (t # us))"
proof -
  note ok = assms [unfolded tm_ok_def]
  have t: "next_timeout s = t" "t \<notin> set us" using ok by auto
  let ?s = "count_down k s" and ?d = "unat (t_time (timeos s t))"
  have o: "timeos ?s p = timeos s p" if "p \<in> set us" for p using that t by (auto simp: count_down_def)
  have "t_time (timeos ?s t) = (if k < t_time (timeos s t) then t_time (timeos s t) - k else 0)" by (simp add: count_down_def t)
  then have T: "unat (t_time (timeos ?s t)) = ?d - min (unat k) ?d"
    using unat_sub [of k "t_time (timeos s t)"] by (auto simp: word_less_nat_alt word_le_nat_alt min_def)
  have a: "t_h (timeos ?s t) = t_h (timeos s t)" "t_arg (timeos ?s t) = t_arg (timeos s t)" by (simp_all add: count_down_def t)
  have us: "deadlines (timeos ?s) e us = deadlines (timeos s) e us" for e by (rule deadlines_cong) (simp add: o)
  show dl: "deadlines (timeos ?s) 0 (t # us) = map (earlier (min (unat k) ?d)) (deadlines (timeos s) 0 (t # us))"
    by (simp add: T a us deadlines_earlier) (simp add: earlier_def)
  have n: "tnexts ?s = tnexts s" "next_timeout ?s = next_timeout s" "tlw ?s = tlw s"
    by (auto simp: tnexts_def count_down_def)
  have "\<forall>x\<in>set (deadlines (timeos ?s) 0 (t # us)). fst x < 2 ^ 32"
    unfolding dl using ok by (auto simp: earlier_def less_imp_diff_less simp del: deadlines.simps)
  then show "tm_ok ?s (t # us) fs" using ok unfolding tm_ok_def n by blast
qed

section \<open>Properties\<close>

text \<open>
  C31: the list of timeouts refines a list of deadlines. Registering inserts the deadline behind those
  that are not later, or is a failed assertion when the pool is empty; unregistering removes the
  first entry with the handler and argument; when the first one expires it is freed and called with
  all others moved by its time; a message that comes earlier moves all deadlines by the time waited.
  No deadline moves against another one, and no entry is lost.
\<close>

theorem timeouts_refine:
  assumes "tm_ok s ts fs"
  defines "ds \<equiv> deadlines (timeos s) 0 ts"
  shows "(if fs = [] then sys_timeout ms h a s = None
      else \<exists>s' ts'. sys_timeout ms h a s = Some s' \<and> tm_ok s' ts' (tl fs) \<and> set ts' = insert (hd fs) (set ts)
        \<and> deadlines (timeos s') 0 ts' = insert_deadline (unat ms, h, a) ds)
    \<and> (\<exists>s' ts' fs'. sys_untimeout h a s = Some s' \<and> tm_ok s' ts' fs' \<and> set (ts' @ fs') = set (ts @ fs)
        \<and> deadlines (timeos s') 0 ts' = remove_deadline h a ds)
    \<and> (\<forall>d h' a'. ds \<noteq> [] \<longrightarrow> hd ds = (d, h', a') \<longrightarrow>
        (\<exists>s'. run_timeout call s = (if h' \<noteq> NULL then call h' a' s' else Some s')
          \<and> tm_ok s' (tl ts) (hd ts # fs) \<and> deadlines (timeos s') 0 (tl ts) = map (earlier d) (tl ds))
        \<and> tm_ok (count_down k s) ts fs \<and> deadlines (timeos (count_down k s)) 0 ts = map (earlier (min (unat k) d)) ds)"
proof (intro conjI allI impI)
  show "if fs = [] then sys_timeout ms h a s = None
      else \<exists>s' ts'. sys_timeout ms h a s = Some s' \<and> tm_ok s' ts' (tl fs) \<and> set ts' = insert (hd fs) (set ts)
        \<and> deadlines (timeos s') 0 ts' = insert_deadline (unat ms, h, a) ds"
  proof (cases fs)
    case Nil
    then show ?thesis using assms(1) memp_malloc_empty [of MEMP_SYS_TIMEOUT "tlw s"] by (simp add: sys_timeout_def tm_ok_def)
  next
    case (Cons x xs)
    obtain s' ts' where "sys_timeout ms h a s = Some s'" "tm_ok s' ts' xs" "set ts' = insert x (set ts)"
      "deadlines (timeos s') 0 ts' = insert_deadline (unat ms, h, a) (deadlines (timeos s) 0 ts)"
      by (rule sys_timeout_step [OF assms(1) [unfolded Cons]])
    then show ?thesis by (auto simp: Cons ds_def)
  qed
  show "\<exists>s' ts' fs'. sys_untimeout h a s = Some s' \<and> tm_ok s' ts' fs' \<and> set (ts' @ fs') = set (ts @ fs)
        \<and> deadlines (timeos s') 0 ts' = remove_deadline h a ds"
    by (rule sys_untimeout_step [OF assms(1), of h a]) (auto simp: ds_def)
next
  fix d h' a' assume "ds \<noteq> []" "hd ds = (d, h', a')"
  then obtain t us where ts: "ts = t # us" "d = unat (t_time (timeos s t))" "h' = t_h (timeos s t)" "a' = t_arg (timeos s t)"
    by (cases ts) (auto simp: ds_def)
  note ok = assms(1) [unfolded ts(1)]
  show "\<exists>s'. run_timeout call s = (if h' \<noteq> NULL then call h' a' s' else Some s')
      \<and> tm_ok s' (tl ts) (hd ts # fs) \<and> deadlines (timeos s') 0 (tl ts) = map (earlier d) (tl ds)"
    by (rule run_timeout_step [OF ok, of call]) (auto simp: ts ds_def)
  show "tm_ok (count_down k s) ts fs" "deadlines (timeos (count_down k s)) 0 ts = map (earlier (min (unat k) d)) ds"
    using count_down_step [OF ok, of k] by (simp_all add: ts ds_def)
qed

definition demo_tmo :: tmo where
  "demo_tmo = \<lparr>tlw = demo_lw\<lparr>memp_tab := (\<lambda>_. 0)(7 := 4000), memp_next := (\<lambda>_. 0)(4000 := 8000)\<rparr>, tnet = demo_net,
     timeos = (\<lambda>_. \<lparr>t_next = 0, t_time = 0, t_h = 0, t_arg = 0\<rparr>)(100 := \<lparr>t_next = 200, t_time = 1000, t_h = 1, t_arg = 0\<rparr>,
       200 := \<lparr>t_next = 0, t_time = 4000, t_h = 2, t_arg = 0\<rparr>), next_timeout = 100\<rparr>"

lemma demo_tmo: "tm_ok demo_tmo [100, 200] [4000, 8000]" "deadlines (timeos demo_tmo) 0 [100, 200] = [(1000, 1, 0), (5000, 2, 0)]"
  by (simp_all add: tm_ok_def tnexts_def demo_tmo_def pool_ok_def)

lemma timeouts_refine_witness:
  "(\<exists>s' ts'. sys_timeout 2500 3 0 demo_tmo = Some s' \<and> deadlines (timeos s') 0 ts' = [(1000, 1, 0), (2500, 3, 0), (5000, 2, 0)])
    \<and> (\<exists>s' ts'. sys_untimeout 1 0 demo_tmo = Some s' \<and> deadlines (timeos s') 0 ts' = [(5000, 2, 0)])
    \<and> deadlines (timeos (count_down 300 demo_tmo)) 0 [100, 200] = [(700, 1, 0), (4700, 2, 0)]"
  using timeouts_refine [OF demo_tmo(1), of 2500 3 0 "\<lambda>_ _. Some" 300] timeouts_refine [OF demo_tmo(1), of 2500 1 0 "\<lambda>_ _. Some" 300]
  unfolding demo_tmo(2) by (fastforce simp: insert_deadline_def earlier_def)

end
