(* ===== verification/Etharp.thy ===== *)
theory Etharp
  imports Ethernetif Ip_Addr
begin

text \<open>
  \<open>netif/etharp.c\<close>: the ARP cache, and the Ethernet layer above the driver. As configured:
  one waiting packet per entry (\<open>ARP_QUEUEING\<close> is 0), no static entries, one cached index, and
  entries are cleared when they are freed (\<open>LWIP_DEBUG\<close> is defined in \<open>cc.h\<close>). The function
  pointer \<open>netif->linkoutput\<close> is the argument \<open>linkout\<close>; the program sets it to
  \<open>low_level_output\<close> only. \<open>None\<close> is a failed assertion, here or in the packet buffers.
\<close>

abbreviation (input) ERR_MEM :: int where "ERR_MEM \<equiv> -1"
abbreviation (input) ERR_RTE :: int where "ERR_RTE \<equiv> -4"
abbreviation (input) ARP_TABLE_SIZE :: nat where "ARP_TABLE_SIZE \<equiv> 10"
abbreviation (input) ARP_MAXAGE :: u8 where "ARP_MAXAGE \<equiv> 240"
abbreviation (input) ARP_AGE_REREQUEST_USED :: u8 where "ARP_AGE_REREQUEST_USED \<equiv> 228"
abbreviation (input) ARP_MAXPENDING :: u8 where "ARP_MAXPENDING \<equiv> 2"
abbreviation (input) ETHARP_FLAG_TRY_HARD :: u8 where "ETHARP_FLAG_TRY_HARD \<equiv> 1"
abbreviation (input) ETHARP_FLAG_FIND_ONLY :: u8 where "ETHARP_FLAG_FIND_ONLY \<equiv> 2"
abbreviation (input) ETHTYPE_ARP :: u16 where "ETHTYPE_ARP \<equiv> 0x0806"
abbreviation (input) ETHTYPE_IP :: u16 where "ETHTYPE_IP \<equiv> 0x0800"
abbreviation (input) ARP_REQUEST :: u16 where "ARP_REQUEST \<equiv> 1"
abbreviation (input) ARP_REPLY :: u16 where "ARP_REPLY \<equiv> 2"
abbreviation (input) NETIF_FLAG_ETHARP :: u8 where "NETIF_FLAG_ETHARP \<equiv> 0x20"
abbreviation (input) PBUF_FLAG_LLBCAST :: u8 where "PBUF_FLAG_LLBCAST \<equiv> 0x08"
abbreviation (input) PBUF_FLAG_LLMCAST :: u8 where "PBUF_FLAG_LLMCAST \<equiv> 0x10"

section \<open>State\<close>

text \<open>\<open>struct netif\<close> of \<open>netif.h\<close>, without its function pointers.\<close>

record netif = netif_addr +
  nif_next :: ptr
  nif_gw :: u32
  nif_state :: ptr
  nif_mtu :: u16
  nif_hwaddr_len :: u8
  nif_hwaddr :: "u8 list"
  nif_name :: "u8 \<times> u8"
  nif_num :: u8

datatype etharp_state = ETHARP_STATE_EMPTY | ETHARP_STATE_PENDING | ETHARP_STATE_STABLE | ETHARP_STATE_STABLE_REREQUESTING

record etharp_entry =
  e_q :: ptr
  e_ipaddr :: u32
  e_netif :: ptr
  e_ethaddr :: "u8 list"
  e_state :: etharp_state
  e_ctime :: u8

record 'd eth = "'d gw" +
  netifs :: "ptr \<Rightarrow> netif"
  netif_list :: ptr
  netif_default :: ptr
  netif_num :: u8
  arp_table :: "etharp_entry list"
  etharp_cached_entry :: nat

type_synonym ('d, 'm) linkout = "ptr \<Rightarrow> ptr \<Rightarrow> ('d, 'm) eth_scheme \<Rightarrow> (int \<times> ('d, 'm) eth_scheme) option"

definition ethbroadcast :: "u8 list" where "ethbroadcast = [0xff, 0xff, 0xff, 0xff, 0xff, 0xff]"
definition ethzero :: "u8 list" where "ethzero = [0, 0, 0, 0, 0, 0]"

text \<open>The test \<open>state >= ETHARP_STATE_STABLE\<close>.\<close>

fun is_stable :: "etharp_state \<Rightarrow> bool" where
  "is_stable ETHARP_STATE_EMPTY \<longleftrightarrow> False"
| "is_stable ETHARP_STATE_PENDING \<longleftrightarrow> False"
| "is_stable ETHARP_STATE_STABLE \<longleftrightarrow> True"
| "is_stable ETHARP_STATE_STABLE_REREQUESTING \<longleftrightarrow> True"

definition upd_entry :: "nat \<Rightarrow> (etharp_entry \<Rightarrow> etharp_entry) \<Rightarrow> ('d, 'm) eth_scheme \<Rightarrow> ('d, 'm) eth_scheme" where
  "upd_entry i f g = g\<lparr>arp_table := (arp_table g)[i := f (arp_table g ! i)]\<rparr>"

text \<open>Writing to the memory of a packet, and 16- and 32-bit fields as they lie there.\<close>

definition poke :: "ptr \<Rightarrow> u8 list \<Rightarrow> ('d, 'm) gw_scheme \<Rightarrow> ('d, 'm) gw_scheme" where
  "poke a bs g = g\<lparr>lwm := (lwm g)\<lparr>octet := store_bytes a bs (octet (lwm g))\<rparr>\<rparr>"

definition peek :: "ptr \<Rightarrow> nat \<Rightarrow> ('d, 'm) gw_scheme \<Rightarrow> u8 list" where
  "peek a n g = bytes_at (octet (lwm g)) a n"

definition u16_bytes :: "u16 \<Rightarrow> u8 list" where
  "u16_bytes x = [ucast x, ucast (drop_bit 8 x)]"

definition load32 :: "(ptr \<Rightarrow> u8) \<Rightarrow> ptr \<Rightarrow> u32" where
  "load32 m a = ucast (m a) OR push_bit 8 (ucast (m (a + 1))) OR push_bit 16 (ucast (m (a + 2)))
     OR push_bit 24 (ucast (m (a + 3)))"

definition payload_of :: "ptr \<Rightarrow> ('d, 'm) gw_scheme \<Rightarrow> ptr" where
  "payload_of p g = payload (pbufs (lwm g) p)"

definition free_in :: "ptr \<Rightarrow> ('d, 'm) gw_scheme \<Rightarrow> ('d, 'm) gw_scheme option" where
  "free_in p g = map_option (\<lambda>(n, w). g\<lparr>lwm := w\<rparr>) (pbuf_free p (lwm g))"

section \<open>The macros of \<open>ip_addr.h\<close>\<close>

definition ip_addr_netcmp :: "u32 \<Rightarrow> u32 \<Rightarrow> u32 \<Rightarrow> bool" where
  "ip_addr_netcmp a b m \<longleftrightarrow> a AND m = b AND m"

definition ip_addr_ismulticast :: "u32 \<Rightarrow> bool" where
  "ip_addr_ismulticast a \<longleftrightarrow> a AND lwip_htonl 0xf0000000 = lwip_htonl 0xe0000000"

definition ip_addr_islinklocal :: "u32 \<Rightarrow> bool" where
  "ip_addr_islinklocal a \<longleftrightarrow> a AND lwip_htonl 0xffff0000 = lwip_htonl 0xa9fe0000"

section \<open>The table\<close>

definition etharp_free_entry :: "nat \<Rightarrow> ('d, 'm) eth_scheme \<Rightarrow> ('d, 'm) eth_scheme option" where
  "etharp_free_entry i g =
     map_option
       (upd_entry i (\<lambda>e. e\<lparr>e_q := NULL, e_state := ETHARP_STATE_EMPTY, e_ctime := 0, e_netif := NULL, e_ipaddr := 0, e_ethaddr := ethzero\<rparr>))
       (if e_q (arp_table g ! i) \<noteq> NULL then free_in (e_q (arp_table g ! i)) g else Some g)"

text \<open>One round of the loop of \<open>etharp_tmr\<close>.\<close>

definition tmr_entry :: "nat \<Rightarrow> ('d, 'm) eth_scheme \<Rightarrow> ('d, 'm) eth_scheme option" where
  "tmr_entry i g =
     (if e_state (arp_table g ! i) \<noteq> ETHARP_STATE_EMPTY
      then let g = upd_entry i (\<lambda>e. e\<lparr>e_ctime := e_ctime e + 1\<rparr>) g; e = arp_table g ! i
           in if e_ctime e \<ge> ARP_MAXAGE \<or> e_state e = ETHARP_STATE_PENDING \<and> e_ctime e \<ge> ARP_MAXPENDING
              then etharp_free_entry i g
              else if e_state e = ETHARP_STATE_STABLE_REREQUESTING
              then Some (upd_entry i (\<lambda>e. e\<lparr>e_state := ETHARP_STATE_STABLE\<rparr>) g)
              else Some g
      else Some g)"

text \<open>A loop over the indices of the table.\<close>

fun each_entry :: "nat list \<Rightarrow> (nat \<Rightarrow> 's \<Rightarrow> 's option) \<Rightarrow> 's \<Rightarrow> 's option" where
  "each_entry [] f g = Some g"
| "each_entry (i # is) f g = Option.bind (f i g) (each_entry is f)"

definition etharp_tmr :: "('d, 'm) eth_scheme \<Rightarrow> ('d, 'm) eth_scheme option" where
  "etharp_tmr g = each_entry [0..<ARP_TABLE_SIZE] tmr_entry g"

definition cleanup_entry :: "ptr \<Rightarrow> nat \<Rightarrow> ('d, 'm) eth_scheme \<Rightarrow> ('d, 'm) eth_scheme option" where
  "cleanup_entry nif i g =
     (if e_state (arp_table g ! i) \<noteq> ETHARP_STATE_EMPTY \<and> e_netif (arp_table g ! i) = nif then etharp_free_entry i g else Some g)"

definition etharp_cleanup_netif :: "ptr \<Rightarrow> ('d, 'm) eth_scheme \<Rightarrow> ('d, 'm) eth_scheme option" where
  "etharp_cleanup_netif nif g = each_entry [0..<ARP_TABLE_SIZE] (cleanup_entry nif) g"

text \<open>What the search of \<open>etharp_find_entry\<close> remembers: indices, and the ages that go with them.\<close>

record cand =
  empty_i :: nat
  old_pending :: nat
  age_pending :: u8
  old_stable :: nat
  age_stable :: u8
  old_queue :: nat
  age_queue :: u8

definition no_cand :: cand where
  "no_cand = \<lparr>empty_i = ARP_TABLE_SIZE, old_pending = ARP_TABLE_SIZE, age_pending = 0, old_stable = ARP_TABLE_SIZE, age_stable = 0,
     old_queue = ARP_TABLE_SIZE, age_queue = 0\<rparr>"

definition note_entry :: "nat \<Rightarrow> etharp_entry \<Rightarrow> cand \<Rightarrow> cand" where
  "note_entry i e c =
     (if e_state e = ETHARP_STATE_PENDING
      then if e_q e \<noteq> NULL
           then if e_ctime e \<ge> age_queue c then c\<lparr>old_queue := i, age_queue := e_ctime e\<rparr> else c
           else if e_ctime e \<ge> age_pending c then c\<lparr>old_pending := i, age_pending := e_ctime e\<rparr> else c
      else if is_stable (e_state e)
      then if e_ctime e \<ge> age_stable c then c\<lparr>old_stable := i, age_stable := e_ctime e\<rparr> else c
      else c)"

text \<open>The search: the index of a match, or the candidates for a new entry.\<close>

fun find_loop :: "u32 option \<Rightarrow> nat \<Rightarrow> etharp_entry list \<Rightarrow> cand \<Rightarrow> nat + cand" where
  "find_loop ip i [] c = Inr c"
| "find_loop ip i (e # es) c =
     (if empty_i c = ARP_TABLE_SIZE \<and> e_state e = ETHARP_STATE_EMPTY then find_loop ip (i + 1) es (c\<lparr>empty_i := i\<rparr>)
      else if e_state e \<noteq> ETHARP_STATE_EMPTY
      then if ip = Some (e_ipaddr e) then Inl i else find_loop ip (i + 1) es (note_entry i e c)
      else find_loop ip (i + 1) es c)"

text \<open>The entry to recycle, if no entry is empty.\<close>

definition pick_old :: "cand \<Rightarrow> nat" where
  "pick_old c = (if old_stable c < ARP_TABLE_SIZE then old_stable c
     else if old_pending c < ARP_TABLE_SIZE then old_pending c
     else if old_queue c < ARP_TABLE_SIZE then old_queue c else ARP_TABLE_SIZE)"

definition etharp_find_entry :: "u32 option \<Rightarrow> u8 \<Rightarrow> ('d, 'm) eth_scheme \<Rightarrow> (int \<times> ('d, 'm) eth_scheme) option" where
  "etharp_find_entry ip flags g =
     (let create = (\<lambda>i g. if e_state (arp_table g ! i) \<noteq> ETHARP_STATE_EMPTY then None
        else Some (int i, upd_entry i (\<lambda>e. (case ip of None \<Rightarrow> e | Some a \<Rightarrow> e\<lparr>e_ipaddr := a\<rparr>)\<lparr>e_ctime := 0\<rparr>) g))
      in case find_loop ip 0 (arp_table g) no_cand of
           Inl i \<Rightarrow> Some (int i, g)
         | Inr c \<Rightarrow>
             if flags AND ETHARP_FLAG_FIND_ONLY \<noteq> 0 \<or> empty_i c = ARP_TABLE_SIZE \<and> flags AND ETHARP_FLAG_TRY_HARD = 0 then Some (ERR_MEM, g)
             else if empty_i c < ARP_TABLE_SIZE then create (empty_i c) g
             else let i = pick_old c
                  in if i = ARP_TABLE_SIZE then Some (ERR_MEM, g)
                     else if old_stable c < ARP_TABLE_SIZE \<and> e_q (arp_table g ! i) \<noteq> NULL then None
                     else Option.bind (etharp_free_entry i g) (create i))"

definition etharp_find_addr :: "u32 \<Rightarrow> ('d, 'm) eth_scheme \<Rightarrow> (int \<times> (u8 list \<times> u32) option \<times> ('d, 'm) eth_scheme) option" where
  "etharp_find_addr ip g =
     map_option (\<lambda>(i, g). if i \<ge> 0 \<and> is_stable (e_state (arp_table g ! nat i))
                 then (i, Some (e_ethaddr (arp_table g ! nat i), e_ipaddr (arp_table g ! nat i)), g) else (-1, None, g))
       (etharp_find_entry (Some ip) ETHARP_FLAG_FIND_ONLY g)"

end
