(* ===== verification/Etharp_IO.thy ===== *)
theory Etharp_IO
  imports Etharp
begin

text \<open>
  \<open>netif/etharp.c\<close>, the packets: requests and replies, updating the cache, the lookup for
  outgoing IP packets and the dispatch of incoming frames. A frame lies at the payload of its
  first buffer: the Ethernet header has its destination at 0, its source at 6 and its type at 12,
  the ARP header behind it starts at 14. \<open>ip_input\<close>, the entry of the IP layer, is an argument.
\<close>

section \<open>Sending\<close>

definition etharp_send_ip :: "('d, 'm) linkout \<Rightarrow> ptr \<Rightarrow> ptr \<Rightarrow> u8 list \<Rightarrow> u8 list \<Rightarrow> ('d, 'm) eth_scheme \<Rightarrow> (int \<times> ('d, 'm) eth_scheme) option" where
  "etharp_send_ip linkout nif p src dst g =
     (let ethhdr = payload_of p g
      in if nif_hwaddr_len (netifs g nif) \<noteq> 6 then None
         else let g = poke ethhdr dst g;
                  g = poke (ethhdr + 6) src g;
                  g = poke (ethhdr + 12) (u16_bytes (lwip_htons ETHTYPE_IP)) g
              in linkout nif p g)"

definition etharp_raw ::
  "('d, 'm) linkout \<Rightarrow> ptr \<Rightarrow> u8 list \<Rightarrow> u8 list \<Rightarrow> u8 list \<Rightarrow> u32 \<Rightarrow> u8 list \<Rightarrow> u32 \<Rightarrow> u16 \<Rightarrow> ('d, 'm) eth_scheme
    \<Rightarrow> (int \<times> ('d, 'm) eth_scheme) option" where
  "etharp_raw linkout nif ethsrc_addr ethdst_addr hwsrc_addr ipsrc_addr hwdst_addr ipdst_addr opcode g =
     (case pbuf_alloc PBUF_RAW 42 PBUF_RAM (lwm g) of
        None \<Rightarrow> None
      | Some (p, w) \<Rightarrow>
          if p = NULL then Some (ERR_MEM, g\<lparr>lwm := w\<rparr>)
          else if pb_len (pbufs w p) < 42 \<or> nif_hwaddr_len (netifs g nif) \<noteq> 6 then None
          else let g = g\<lparr>lwm := w\<rparr>;
                   ethhdr = payload_of p g;
                   hdr = ethhdr + 14;
                   g = poke (hdr + 6) (u16_bytes (lwip_htons opcode)) g;
                   g = poke (hdr + 8) hwsrc_addr g;
                   g = poke (hdr + 18) hwdst_addr g;
                   g = poke ethhdr ethdst_addr g;
                   g = poke (ethhdr + 6) ethsrc_addr g;
                   g = poke (hdr + 14) (addr_bytes ipsrc_addr) g;
                   g = poke (hdr + 24) (addr_bytes ipdst_addr) g;
                   g = poke hdr (u16_bytes (lwip_htons 1)) g;
                   g = poke (hdr + 2) (u16_bytes (lwip_htons ETHTYPE_IP)) g;
                   g = poke (hdr + 4) [6] g;
                   g = poke (hdr + 5) [4] g;
                   g = poke (ethhdr + 12) (u16_bytes (lwip_htons ETHTYPE_ARP)) g
               in Option.bind (linkout nif p g) (\<lambda>(result, g). map_option (Pair result) (free_in p g)))"

definition etharp_request :: "('d, 'm) linkout \<Rightarrow> ptr \<Rightarrow> u32 \<Rightarrow> ('d, 'm) eth_scheme \<Rightarrow> (int \<times> ('d, 'm) eth_scheme) option" where
  "etharp_request linkout nif ipaddr g =
     (let hw = nif_hwaddr (netifs g nif)
      in etharp_raw linkout nif hw ethbroadcast hw (nif_ip_addr (netifs g nif)) ethzero ipaddr ARP_REQUEST g)"

text \<open>
  A new address pair. The waiting packet goes out with the address that was given; \<open>ethaddr\<close>
  points into the ARP packet, which the table operations do not write.
\<close>

definition update_entry :: "nat \<Rightarrow> ('d, 'm) linkout \<Rightarrow> ptr \<Rightarrow> u8 list \<Rightarrow> ('d, 'm) eth_scheme \<Rightarrow> (int \<times> ('d, 'm) eth_scheme) option" where
  "update_entry i linkout nif ethaddr g =
     (let g = upd_entry i (\<lambda>e. e\<lparr>e_state := ETHARP_STATE_STABLE, e_netif := nif, e_ethaddr := ethaddr, e_ctime := 0\<rparr>) g;
          p = e_q (arp_table g ! i)
      in if p \<noteq> NULL
         then let g = upd_entry i (\<lambda>e. e\<lparr>e_q := NULL\<rparr>) g
              in Option.bind (etharp_send_ip linkout nif p (nif_hwaddr (netifs g nif)) ethaddr g)
                   (\<lambda>(_, g). map_option (Pair ERR_OK) (free_in p g))
         else Some (ERR_OK, g))"

definition etharp_update_arp_entry ::
  "('d, 'm) linkout \<Rightarrow> ptr \<Rightarrow> u32 \<Rightarrow> u8 list \<Rightarrow> u8 \<Rightarrow> ('d, 'm) eth_scheme \<Rightarrow> (int \<times> ('d, 'm) eth_scheme) option" where
  "etharp_update_arp_entry linkout nif ipaddr ethaddr flags g =
     (if nif_hwaddr_len (netifs g nif) \<noteq> 6 then None
      else if ipaddr = IPADDR_ANY \<or> ip4_addr_isbroadcast ipaddr (netifs g nif) \<or> ip_addr_ismulticast ipaddr then Some (ERR_ARG, g)
      else Option.bind (etharp_find_entry (Some ipaddr) flags g)
             (\<lambda>(i, g). if i < 0 then Some (i, g) else update_entry (nat i) linkout nif ethaddr g))"

section \<open>Asking for an address\<close>

text \<open>The first buffer of a packet that is not in ROM, for which it has to be copied; \<open>NULL\<close> without one.\<close>

partial_function (option) copy_needed :: "lw \<Rightarrow> ptr \<Rightarrow> ptr option" where
  "copy_needed w p =
     (if p \<noteq> NULL
      then if \<not> (pb_len (pbufs w p) \<noteq> tot_len (pbufs w p) \<or> pb_next (pbufs w p) = NULL) then None
           else if pb_type (pbufs w p) \<noteq> PBUF_ROM then Some p
           else copy_needed w (pbuf_next w p)
      else Some NULL)"

text \<open>
  The packet that is kept on the entry: \<open>q\<close> itself or a copy, \<open>NULL\<close> without memory. The copy is
  given the length from the buffer on at which the search stopped.
\<close>

definition take_over :: "ptr \<Rightarrow> lw \<Rightarrow> (ptr \<times> lw) option" where
  "take_over q w =
     (case copy_needed w q of
        None \<Rightarrow> None
      | Some r \<Rightarrow>
          if r \<noteq> NULL
          then Option.bind (pbuf_alloc PBUF_RAW (tot_len (pbufs w r)) PBUF_RAM w)
            (\<lambda>(p, w). if p = NULL then Some (NULL, w)
               else Option.bind (pbuf_copy p q w)
                 (\<lambda>(err, w). if err \<noteq> ERR_OK then map_option (\<lambda>(n, w). (NULL, w)) (pbuf_free p w) else Some (p, w)))
          else Some (q, pbuf_ref q w))"

text \<open>Keeping the packet on entry \<open>i\<close> instead of the one that waits there.\<close>

definition queue_on :: "nat \<Rightarrow> ptr \<Rightarrow> ('d, 'm) eth_scheme \<Rightarrow> (int \<times> ('d, 'm) eth_scheme) option" where
  "queue_on i q g =
     (case take_over q (lwm g) of
        None \<Rightarrow> None
      | Some (p, w) \<Rightarrow>
          let g = g\<lparr>lwm := w\<rparr>
          in if p \<noteq> NULL
             then map_option (\<lambda>g. (ERR_OK, upd_entry i (\<lambda>e. e\<lparr>e_q := p\<rparr>) g))
                    (if e_q (arp_table g ! i) \<noteq> NULL then free_in (e_q (arp_table g ! i)) g else Some g)
             else Some (ERR_MEM, g))"

text \<open>The rest of \<open>etharp_query\<close>, once it has the entry \<open>i\<close>.\<close>

definition query_send :: "nat \<Rightarrow> ('d, 'm) linkout \<Rightarrow> ptr \<Rightarrow> ptr \<Rightarrow> int \<Rightarrow> ('d, 'm) eth_scheme \<Rightarrow> (int \<times> ('d, 'm) eth_scheme) option" where
  "query_send i linkout nif q result g =
     (if q = NULL then Some (result, g)
      else if is_stable (e_state (arp_table g ! i))
      then etharp_send_ip linkout nif q (nif_hwaddr (netifs g nif)) (e_ethaddr (arp_table g ! i)) (g\<lparr>etharp_cached_entry := i\<rparr>)
      else if e_state (arp_table g ! i) = ETHARP_STATE_PENDING then queue_on i q g
      else Some (result, g))"

definition query_entry :: "nat \<Rightarrow> ('d, 'm) linkout \<Rightarrow> ptr \<Rightarrow> u32 \<Rightarrow> ptr \<Rightarrow> ('d, 'm) eth_scheme \<Rightarrow> (int \<times> ('d, 'm) eth_scheme) option" where
  "query_entry i linkout nif ipaddr q g =
     (let g = (if e_state (arp_table g ! i) = ETHARP_STATE_EMPTY then upd_entry i (\<lambda>e. e\<lparr>e_state := ETHARP_STATE_PENDING\<rparr>) g else g)
      in if e_state (arp_table g ! i) = ETHARP_STATE_PENDING \<or> q = NULL
         then Option.bind (etharp_request linkout nif ipaddr g) (\<lambda>(result, g). query_send i linkout nif q result g)
         else query_send i linkout nif q ERR_MEM g)"

definition etharp_query :: "('d, 'm) linkout \<Rightarrow> ptr \<Rightarrow> u32 \<Rightarrow> ptr \<Rightarrow> ('d, 'm) eth_scheme \<Rightarrow> (int \<times> ('d, 'm) eth_scheme) option" where
  "etharp_query linkout nif ipaddr q g =
     (if ip4_addr_isbroadcast ipaddr (netifs g nif) \<or> ip_addr_ismulticast ipaddr \<or> ipaddr = IPADDR_ANY then Some (ERR_ARG, g)
      else Option.bind (etharp_find_entry (Some ipaddr) ETHARP_FLAG_TRY_HARD g)
             (\<lambda>(i, g). if i < 0 then Some (i, g) else query_entry (nat i) linkout nif ipaddr q g))"

section \<open>Outgoing packets\<close>

definition etharp_output_to_arp_index ::
  "('d, 'm) linkout \<Rightarrow> ptr \<Rightarrow> ptr \<Rightarrow> nat \<Rightarrow> ('d, 'm) eth_scheme \<Rightarrow> (int \<times> ('d, 'm) eth_scheme) option" where
  "etharp_output_to_arp_index linkout nif q i g =
     (if \<not> is_stable (e_state (arp_table g ! i)) then None
      else case (if e_state (arp_table g ! i) = ETHARP_STATE_STABLE \<and> e_ctime (arp_table g ! i) \<ge> ARP_AGE_REREQUEST_USED
                 then map_option (\<lambda>(err, g). if err = ERR_OK then upd_entry i (\<lambda>e. e\<lparr>e_state := ETHARP_STATE_STABLE_REREQUESTING\<rparr>) g else g)
                        (etharp_request linkout nif (e_ipaddr (arp_table g ! i)) g)
                 else Some g) of
             None \<Rightarrow> None
           | Some g \<Rightarrow> etharp_send_ip linkout nif q (nif_hwaddr (netifs g nif)) (e_ethaddr (arp_table g ! i)) g)"

text \<open>The loop that looks for a stable entry.\<close>

fun stable_index :: "u32 \<Rightarrow> nat \<Rightarrow> etharp_entry list \<Rightarrow> nat option" where
  "stable_index ip i [] = None"
| "stable_index ip i (e # es) = (if is_stable (e_state e) \<and> ip = e_ipaddr e then Some i else stable_index ip (i + 1) es)"

definition mcast_addr :: "u32 \<Rightarrow> u8 list" where
  "mcast_addr ip = [1, 0, 0x5e, addr_bytes ip ! 1 AND 0x7f, addr_bytes ip ! 2, addr_bytes ip ! 3]"

text \<open>The next hop: the address itself, or the gateway for an address outside the network.\<close>

definition next_hop :: "u32 \<Rightarrow> netif \<Rightarrow> u32 option" where
  "next_hop ip nif =
     (if \<not> ip_addr_netcmp ip (nif_ip_addr nif) (nif_netmask nif) \<and> \<not> ip_addr_islinklocal ip
      then if nif_gw nif \<noteq> IPADDR_ANY then Some (nif_gw nif) else None
      else Some ip)"

definition etharp_output :: "('d, 'm) linkout \<Rightarrow> ptr \<Rightarrow> ptr \<Rightarrow> u32 \<Rightarrow> ('d, 'm) eth_scheme \<Rightarrow> (int \<times> ('d, 'm) eth_scheme) option" where
  "etharp_output linkout nif q ipaddr g =
     (if nif = NULL \<or> q = NULL then None
      else case pbuf_header q 14 (lwm g) of
             None \<Rightarrow> None
           | Some (r, w) \<Rightarrow>
               let g = g\<lparr>lwm := w\<rparr>
               in if r \<noteq> 0 then Some (ERR_BUF, g)
                  else if ip4_addr_isbroadcast ipaddr (netifs g nif)
                  then etharp_send_ip linkout nif q (nif_hwaddr (netifs g nif)) ethbroadcast g
                  else if ip_addr_ismulticast ipaddr
                  then etharp_send_ip linkout nif q (nif_hwaddr (netifs g nif)) (mcast_addr ipaddr) g
                  else case next_hop ipaddr (netifs g nif) of
                         None \<Rightarrow> Some (ERR_RTE, g)
                       | Some dst \<Rightarrow>
                           let c = etharp_cached_entry g
                           in if is_stable (e_state (arp_table g ! c)) \<and> dst = e_ipaddr (arp_table g ! c)
                              then etharp_output_to_arp_index linkout nif q c g
                              else case stable_index dst 0 (arp_table g) of
                                     Some i \<Rightarrow> etharp_output_to_arp_index linkout nif q i (g\<lparr>etharp_cached_entry := i\<rparr>)
                                   | None \<Rightarrow> etharp_query linkout nif dst q g)"

section \<open>Incoming frames\<close>

text \<open>A request that lies at \<open>ethhdr\<close> becomes the reply to it; \<open>hw\<close> and \<open>ip\<close> are our own addresses.\<close>

definition make_reply :: "u8 list \<Rightarrow> u32 \<Rightarrow> ptr \<Rightarrow> ('d, 'm) gw_scheme \<Rightarrow> ('d, 'm) gw_scheme" where
  "make_reply hw ip ethhdr g =
     (let hdr = ethhdr + 14;
          g = poke (hdr + 6) (u16_bytes (lwip_htons ARP_REPLY)) g;
          g = poke (hdr + 24) (peek (hdr + 14) 4 g) g;
          g = poke (hdr + 14) (addr_bytes ip) g;
          g = poke (hdr + 18) (peek (hdr + 8) 6 g) g;
          g = poke ethhdr (peek (hdr + 8) 6 g) g;
          g = poke (hdr + 8) hw g
      in poke (ethhdr + 6) hw g)"

text \<open>The end of \<open>etharp_arp_input\<close>: acting on the message and freeing it.\<close>

definition arp_act :: "('d, 'm) linkout \<Rightarrow> ptr \<Rightarrow> u8 list \<Rightarrow> ptr \<Rightarrow> ptr \<Rightarrow> bool \<Rightarrow> ('d, 'm) eth_scheme \<Rightarrow> ('d, 'm) eth_scheme option" where
  "arp_act linkout nif hw p ethhdr for_us g =
     (if load16 (octet (lwm g)) (ethhdr + 20) = lwip_htons ARP_REQUEST \<and> for_us
      then let g = make_reply hw (nif_ip_addr (netifs g nif)) ethhdr g
           in if nif_hwaddr_len (netifs g nif) \<noteq> 6 then None
              else Option.bind (linkout nif p g) (\<lambda>(_, g). free_in p g)
      else free_in p g)"

definition bad_arp_header :: "(ptr \<Rightarrow> u8) \<Rightarrow> ptr \<Rightarrow> bool" where
  "bad_arp_header m hdr \<longleftrightarrow> load16 m hdr \<noteq> lwip_htons 1 \<or> m (hdr + 4) \<noteq> 6 \<or> m (hdr + 5) \<noteq> 4 \<or> load16 m (hdr + 2) \<noteq> lwip_htons ETHTYPE_IP"

definition etharp_arp_input :: "('d, 'm) linkout \<Rightarrow> ptr \<Rightarrow> ptr \<Rightarrow> ('d, 'm) eth_scheme \<Rightarrow> ('d, 'm) eth_scheme option" where
  "etharp_arp_input linkout nif p g =
     (if nif = NULL then Some g
      else if pb_len (pbufs (lwm g) p) < 42 then free_in p g
      else let ethhdr = payload_of p g;
               hdr = ethhdr + 14;
               m = octet (lwm g)
           in if bad_arp_header m hdr
              then free_in p g
              else let sipaddr = load32 m (hdr + 14);
                       dipaddr = load32 m (hdr + 24);
                       for_us = (nif_ip_addr (netifs g nif) \<noteq> IPADDR_ANY \<and> dipaddr = nif_ip_addr (netifs g nif))
                   in Option.bind (etharp_update_arp_entry linkout nif sipaddr (peek (hdr + 8) 6 g)
                                     (if for_us then ETHARP_FLAG_TRY_HARD else ETHARP_FLAG_FIND_ONLY) g)
                        (\<lambda>(_, g). arp_act linkout nif (nif_hwaddr (netifs g nif)) p ethhdr for_us g))"

definition ethernet_input ::
  "('d, 'm) linkout \<Rightarrow> (ptr \<Rightarrow> ptr \<Rightarrow> ('d, 'm) eth_scheme \<Rightarrow> (int \<times> ('d, 'm) eth_scheme) option) \<Rightarrow> ptr \<Rightarrow> ptr \<Rightarrow> ('d, 'm) eth_scheme
    \<Rightarrow> (int \<times> ('d, 'm) eth_scheme) option" where
  "ethernet_input linkout ip_input p nif g =
     (let drop = map_option (Pair ERR_OK) \<circ> free_in p;
          ethhdr = payload_of p g;
          etype = load16 (octet (lwm g)) (ethhdr + 12);
          dest = peek ethhdr 6 g;
          mark = (\<lambda>f g. g\<lparr>lwm := upd_pbuf p (\<lambda>b. b\<lparr>pb_flags := pb_flags b OR f\<rparr>) (lwm g)\<rparr>)
      in if pb_len (pbufs (lwm g) p) \<le> 14 then drop g
         else let g = (if dest ! 0 AND 1 = 0 then g
                       else if dest ! 0 = 1 then if dest ! 1 = 0 \<and> dest ! 2 = 0x5e then mark PBUF_FLAG_LLMCAST g else g
                       else if dest = ethbroadcast then mark PBUF_FLAG_LLBCAST g else g)
              in if etype = lwip_htons ETHTYPE_IP
                 then if nif_flags (netifs g nif) AND NETIF_FLAG_ETHARP = 0 then drop g
                      else case pbuf_header p (- 14) (lwm g) of
                             None \<Rightarrow> None
                           | Some (r, w) \<Rightarrow>
                               if r \<noteq> 0 then None
                               else map_option (\<lambda>(_, g). (ERR_OK, g)) (ip_input p nif (g\<lparr>lwm := w\<rparr>))
                 else if etype = lwip_htons ETHTYPE_ARP
                 then if nif_flags (netifs g nif) AND NETIF_FLAG_ETHARP = 0 then drop g
                      else map_option (Pair ERR_OK) (etharp_arp_input linkout nif p g)
                 else drop g)"

end
