(* ===== verification/Etharp_Table.thy ===== *)
theory Etharp_Table
  imports Etharp
begin

text \<open>
  The ARP cache is a well-formed table: at most one entry for an address, packets wait only on
  entries that are not resolved, no entry is older than its state allows. What
  the search finds and which entry it gives up, and how entries age.
\<close>

section \<open>Well-formed tables\<close>

definition entry_ok :: "etharp_entry \<Rightarrow> bool" where
  "entry_ok e \<longleftrightarrow> length (e_ethaddr e) = 6 \<and> (e_q e \<noteq> NULL \<longrightarrow> e_state e = ETHARP_STATE_PENDING)
     \<and> (e_state e = ETHARP_STATE_PENDING \<longrightarrow> e_ctime e < ARP_MAXPENDING) \<and> e_ctime e < ARP_MAXAGE"

definition one_entry :: "etharp_entry list \<Rightarrow> bool" where
  "one_entry tab \<longleftrightarrow> (\<forall>i<length tab. \<forall>j<length tab. e_state (tab ! i) \<noteq> ETHARP_STATE_EMPTY \<longrightarrow> e_state (tab ! j) \<noteq> ETHARP_STATE_EMPTY
     \<longrightarrow> e_ipaddr (tab ! i) = e_ipaddr (tab ! j) \<longrightarrow> i = j)"

definition tab_ok :: "etharp_entry list \<Rightarrow> bool" where
  "tab_ok tab \<longleftrightarrow> length tab = ARP_TABLE_SIZE \<and> (\<forall>i<ARP_TABLE_SIZE. entry_ok (tab ! i)) \<and> one_entry tab"

definition arp_ok :: "('d, 'm) eth_scheme \<Rightarrow> bool" where
  "arp_ok g \<longleftrightarrow> tab_ok (arp_table g) \<and> etharp_cached_entry g < ARP_TABLE_SIZE"

abbreviation clear_entry :: "etharp_entry \<Rightarrow> etharp_entry" where
  "clear_entry \<equiv> (\<lambda>e. e\<lparr>e_q := NULL, e_state := ETHARP_STATE_EMPTY, e_ctime := 0, e_netif := NULL, e_ipaddr := 0, e_ethaddr := ethzero\<rparr>)"

lemma is_stable_iff: "is_stable s \<longleftrightarrow> s = ETHARP_STATE_STABLE \<or> s = ETHARP_STATE_STABLE_REREQUESTING"
  by (cases s) simp_all

lemma not_stable: "\<not> is_stable s \<longleftrightarrow> s = ETHARP_STATE_EMPTY \<or> s = ETHARP_STATE_PENDING"
  by (cases s) simp_all

lemma upd_entry_sel [simp]:
  "arp_table (upd_entry i f g) = (arp_table g)[i := f (arp_table g ! i)]" "lwm (upd_entry i f g) = lwm g"
  "netifs (upd_entry i f g) = netifs g" "etharp_cached_entry (upd_entry i f g) = etharp_cached_entry g" "nic (upd_entry i f g) = nic g"
  by (simp_all add: upd_entry_def)

lemma tab_okD:
  "tab_ok tab \<Longrightarrow> length tab = 10" "tab_ok tab \<Longrightarrow> i < 10 \<Longrightarrow> entry_ok (tab ! i)"
  "tab_ok tab \<Longrightarrow> i < 10 \<Longrightarrow> j < 10 \<Longrightarrow> e_state (tab ! i) \<noteq> ETHARP_STATE_EMPTY \<Longrightarrow> e_state (tab ! j) \<noteq> ETHARP_STATE_EMPTY
     \<Longrightarrow> e_ipaddr (tab ! i) = e_ipaddr (tab ! j) \<Longrightarrow> i = j"
  by (auto simp: tab_ok_def one_entry_def)

text \<open>Changing one entry keeps the table well-formed if its address stays, or is new, or it is emptied.\<close>

lemma tab_ok_upd:
  assumes "tab_ok tab" "i < 10" "entry_ok e"
    "e_state e \<noteq> ETHARP_STATE_EMPTY \<Longrightarrow> \<forall>j<10. j \<noteq> i \<longrightarrow> e_state (tab ! j) \<noteq> ETHARP_STATE_EMPTY \<longrightarrow> e_ipaddr (tab ! j) \<noteq> e_ipaddr e"
  shows "tab_ok (tab[i := e])"
proof -
  have len: "length tab = 10" using assms(1) by (rule tab_okD)
  have "entry_ok (tab[i := e] ! j)" if "j < 10" for j
    using assms(2,3) len that tab_okD(2) [OF assms(1) that] by (simp add: nth_list_update)
  moreover have "one_entry (tab[i := e])"
    unfolding one_entry_def
  proof (intro allI impI)
    fix k j assume kj: "k < length (tab[i := e])" "j < length (tab[i := e])" "e_state (tab[i := e] ! k) \<noteq> ETHARP_STATE_EMPTY"
      "e_state (tab[i := e] ! j) \<noteq> ETHARP_STATE_EMPTY" "e_ipaddr (tab[i := e] ! k) = e_ipaddr (tab[i := e] ! j)"
    consider "k = i" "j = i" | "k = i" "j \<noteq> i" | "k \<noteq> i" "j = i" | "k \<noteq> i" "j \<noteq> i" by blast
    then show "k = j"
    proof cases
      case 2
      then show ?thesis using kj assms(2,4) len by fastforce
    next
      case 3
      then show ?thesis using kj assms(2,4) len by fastforce
    next
      case 4
      then show ?thesis using kj len tab_okD(3) [OF assms(1), of k j] by simp
    qed simp
  qed
  ultimately show ?thesis by (simp add: tab_ok_def len)
qed

lemma tab_ok_upd_same:
  assumes "tab_ok tab" "i < 10" "entry_ok e" "e_ipaddr e = e_ipaddr (tab ! i)" "e_state (tab ! i) \<noteq> ETHARP_STATE_EMPTY"
  shows "tab_ok (tab[i := e])"
  using assms(4,5) tab_okD(3) [OF assms(1) _ assms(2)] by (intro tab_ok_upd [OF assms(1-3)]) auto

lemma entry_ok_clear [simp]: "entry_ok (clear_entry e)"
  by (simp add: entry_ok_def ethzero_def)

section \<open>Loops over the table\<close>

lemma each_entry_append: "each_entry (is @ js) f g = Option.bind (each_entry is f g) (each_entry js f)"
  by (induction "is" arbitrary: g) (auto intro!: bind_option_cong simp: Option.bind_assoc)

lemma each_entry_table:
  assumes "\<And>i g g'. i < length (arp_table g) \<Longrightarrow> f i g = Some g' \<Longrightarrow> arp_table g' = (arp_table g)[i := F (arp_table g ! i)]" "each_entry [0..<n] f g = Some g'" "n \<le> length (arp_table g)"
  shows "arp_table g' = map F (take n (arp_table g)) @ drop n (arp_table g)"
  using assms(2,3)
proof (induction n arbitrary: g')
  case (Suc n)
  then obtain h where h: "each_entry [0..<n] f g = Some h" "f n h = Some g'" by (auto simp: each_entry_append bind_eq_Some_conv)
  have th: "arp_table h = map F (take n (arp_table g)) @ drop n (arp_table g)" using Suc.IH [OF h(1)] Suc.prems(2) by simp
  have "arp_table g' = (arp_table h)[n := F (arp_table h ! n)]" using Suc.prems(2) by (intro assms(1) [OF _ h(2)]) (simp add: th)
  then show ?case using Suc.prems(2)
    by (simp add: th nth_append list_update_append take_Suc_conv_app_nth Cons_nth_drop_Suc [symmetric])
qed simp

lemma each_entry_keeps:
  assumes "\<And>i g g'. P g \<Longrightarrow> f i g = Some g' \<Longrightarrow> P g'" "each_entry is f g = Some g'" "P g"
  shows "P g'"
  using assms(2,3) by (induction "is" arbitrary: g) (auto simp: bind_eq_Some_conv dest: assms(1))

lemma each_entry_total:
  assumes "\<And>i g. P g \<Longrightarrow> \<exists>g'. f i g = Some g' \<and> P g'" "P g"
  shows "\<exists>g'. each_entry is f g = Some g' \<and> P g'"
  using assms(2)
proof (induction "is" arbitrary: g)
  case (Cons i "is")
  then show ?case using assms(1) [of g i] by auto
qed simp

lemma free_in_sel:
  assumes "free_in p g = Some g'"
  shows "arp_table g' = arp_table g" "etharp_cached_entry g' = etharp_cached_entry g" "netifs g' = netifs g" "nic g' = nic g"
  using assms by (auto simp: free_in_def)

lemma free_entry_sel:
  assumes "etharp_free_entry i g = Some g'"
  shows "arp_table g' = (arp_table g)[i := clear_entry (arp_table g ! i)]" "etharp_cached_entry g' = etharp_cached_entry g" "netifs g' = netifs g"
  using assms free_in_sel [where g = g] by (auto simp: etharp_free_entry_def split: if_splits)

lemma free_entry_no_queue:
  "e_q (arp_table g ! i) = NULL \<Longrightarrow> etharp_free_entry i g = Some (upd_entry i clear_entry g)"
  by (simp add: etharp_free_entry_def)

section \<open>Ageing\<close>

definition age_entry :: "etharp_entry \<Rightarrow> etharp_entry" where
  "age_entry e =
     (if e_state e = ETHARP_STATE_EMPTY then e
      else if e_ctime e + 1 \<ge> ARP_MAXAGE \<or> e_state e = ETHARP_STATE_PENDING \<and> e_ctime e + 1 \<ge> ARP_MAXPENDING then clear_entry e
      else e\<lparr>e_ctime := e_ctime e + 1,
             e_state := (if e_state e = ETHARP_STATE_STABLE_REREQUESTING then ETHARP_STATE_STABLE else e_state e)\<rparr>)"

lemma list_update_idem: "i < length xs \<Longrightarrow> xs ! i = y \<Longrightarrow> xs[i := y] = xs"
  by auto

lemma tmr_entry_table:
  assumes "i < length (arp_table g)" "tmr_entry i g = Some g'"
  shows "arp_table g' = (arp_table g)[i := age_entry (arp_table g ! i)]"
  using assms by (auto simp: tmr_entry_def age_entry_def Let_def free_entry_sel(1) split: if_splits)

lemma etharp_tmr_table:
  assumes "etharp_tmr g = Some g'" "length (arp_table g) = 10"
  shows "arp_table g' = map age_entry (arp_table g)"
  using each_entry_table [OF tmr_entry_table assms(1) [unfolded etharp_tmr_def]] assms(2) by simp

lemma cleanup_table:
  assumes "etharp_cleanup_netif nif g = Some g'" "length (arp_table g) = 10"
  shows "arp_table g' = map (\<lambda>e. if e_state e \<noteq> ETHARP_STATE_EMPTY \<and> e_netif e = nif then clear_entry e else e) (arp_table g)"
proof -
  have "arp_table h' = (arp_table h)[i := (\<lambda>e. if e_state e \<noteq> ETHARP_STATE_EMPTY \<and> e_netif e = nif then clear_entry e else e) (arp_table h ! i)]"
    if "i < length (arp_table h)" "cleanup_entry nif i h = Some h'" for i and h h' :: "('a, 'b) eth_scheme"
    using that by (auto simp: cleanup_entry_def free_entry_sel(1) split: if_splits)
  from each_entry_table [OF this assms(1) [unfolded etharp_cleanup_netif_def]] assms(2) show ?thesis by simp
qed


text \<open>Replacing every entry by one that is cleared or keeps its address.\<close>

lemma tab_ok_map:
  assumes "tab_ok tab" "\<And>e. entry_ok e \<Longrightarrow> entry_ok (F e)"
    "\<And>e. e_state (F e) \<noteq> ETHARP_STATE_EMPTY \<Longrightarrow> e_state e \<noteq> ETHARP_STATE_EMPTY \<and> e_ipaddr (F e) = e_ipaddr e"
  shows "tab_ok (map F tab)"
  unfolding tab_ok_def one_entry_def using assms tab_okD [OF assms(1)] by (auto; metis)

lemma entry_ok_age: "entry_ok e \<Longrightarrow> entry_ok (age_entry e)"
  by (auto simp: entry_ok_def age_entry_def ethzero_def not_le)

lemma tmr_keeps: "tmr_entry i g = Some g' \<Longrightarrow> etharp_cached_entry g' = etharp_cached_entry g \<and> netifs g' = netifs g"
  by (auto simp: tmr_entry_def Let_def free_entry_sel split: if_splits)

lemma etharp_tmr_keeps: "etharp_tmr g = Some g' \<Longrightarrow> etharp_cached_entry g' = etharp_cached_entry g \<and> netifs g' = netifs g"
  unfolding etharp_tmr_def
  by (erule each_entry_keeps [where P = "\<lambda>h. etharp_cached_entry h = etharp_cached_entry g \<and> netifs h = netifs g", rotated])
    (auto dest: tmr_keeps)

lemma etharp_tmr_ok:
  assumes "arp_ok g" "etharp_tmr g = Some g'"
  shows "arp_ok g'"
proof -
  have "arp_table g' = map age_entry (arp_table g)" using assms by (intro etharp_tmr_table) (auto simp: arp_ok_def tab_ok_def)
  moreover have "tab_ok (map age_entry (arp_table g))"
    using assms(1) by (intro tab_ok_map entry_ok_age) (auto simp: arp_ok_def age_entry_def split: if_splits)
  ultimately show ?thesis using assms(1) etharp_tmr_keeps [OF assms(2)] by (simp add: arp_ok_def)
qed

lemma cleanup_keeps: "cleanup_entry nif i g = Some g' \<Longrightarrow> etharp_cached_entry g' = etharp_cached_entry g \<and> netifs g' = netifs g"
  by (auto simp: cleanup_entry_def free_entry_sel split: if_splits)

lemma etharp_cleanup_ok:
  assumes "arp_ok g" "etharp_cleanup_netif nif g = Some g'"
  shows "arp_ok g'"
proof -
  let ?F = "\<lambda>e. if e_state e \<noteq> ETHARP_STATE_EMPTY \<and> e_netif e = nif then clear_entry e else e"
  have "arp_table g' = map ?F (arp_table g)" using assms by (intro cleanup_table) (auto simp: arp_ok_def tab_ok_def)
  moreover have "tab_ok (map ?F (arp_table g))"
    using assms(1) by (intro tab_ok_map) (auto simp: arp_ok_def split: if_splits)
  moreover have "etharp_cached_entry g' = etharp_cached_entry g \<and> netifs g' = netifs g"
    using assms(2) unfolding etharp_cleanup_netif_def
    by (elim each_entry_keeps [where P = "\<lambda>h. etharp_cached_entry h = etharp_cached_entry g \<and> netifs h = netifs g", rotated])
      (auto dest: cleanup_keeps)
  ultimately show ?thesis using assms(1) by (simp add: arp_ok_def)
qed

section \<open>The search\<close>

definition oldest :: "(etharp_entry \<Rightarrow> bool) \<Rightarrow> nat \<Rightarrow> u8 \<Rightarrow> etharp_entry list \<Rightarrow> bool" where
  "oldest P k a tab \<longleftrightarrow> (k = 10 \<and> a = 0 \<and> (\<forall>e\<in>set tab. \<not> P e))
     \<or> (k < length tab \<and> P (tab ! k) \<and> a = e_ctime (tab ! k) \<and> (\<forall>e\<in>set tab. P e \<longrightarrow> e_ctime e \<le> a))"

abbreviation "is_empty e \<equiv> e_state e = ETHARP_STATE_EMPTY"
abbreviation "is_pending e \<equiv> e_state e = ETHARP_STATE_PENDING \<and> e_q e = NULL"
abbreviation "is_queued e \<equiv> e_state e = ETHARP_STATE_PENDING \<and> e_q e \<noteq> NULL"

definition first_empty :: "nat \<Rightarrow> etharp_entry list \<Rightarrow> bool" where
  "first_empty k tab \<longleftrightarrow> (k = 10 \<and> (\<forall>e\<in>set tab. \<not> is_empty e))
     \<or> (k < length tab \<and> is_empty (tab ! k) \<and> (\<forall>j<k. \<not> is_empty (tab ! j)))"

definition cand_ok :: "etharp_entry list \<Rightarrow> cand \<Rightarrow> bool" where
  "cand_ok tab c \<longleftrightarrow> first_empty (empty_i c) tab \<and> oldest is_pending (old_pending c) (age_pending c) tab
     \<and> oldest (\<lambda>e. is_stable (e_state e)) (old_stable c) (age_stable c) tab \<and> oldest is_queued (old_queue c) (age_queue c) tab"

lemma oldest_skip: "oldest P k a tab \<Longrightarrow> \<not> P e \<or> e_ctime e < a \<Longrightarrow> oldest P k a (tab @ [e])"
  by (fastforce simp: oldest_def nth_append)

lemma oldest_take: "oldest P k a tab \<Longrightarrow> P e \<Longrightarrow> a \<le> e_ctime e \<Longrightarrow> oldest P (length tab) (e_ctime e) (tab @ [e])"
  by (fastforce simp: oldest_def nth_append)

lemma first_empty_skip: "first_empty k tab \<Longrightarrow> \<not> is_empty e \<or> k \<noteq> 10 \<Longrightarrow> length tab < 10 \<Longrightarrow> first_empty k (tab @ [e])"
  by (fastforce simp: first_empty_def nth_append)

lemma first_empty_take: "first_empty 10 tab \<Longrightarrow> is_empty e \<Longrightarrow> length tab < 10 \<Longrightarrow> first_empty (length tab) (tab @ [e])"
  by (auto simp: first_empty_def nth_append)

lemma oldest_step:
  "oldest P k a tab \<Longrightarrow> oldest P (if P e \<and> a \<le> e_ctime e then length tab else k) (if P e \<and> a \<le> e_ctime e then e_ctime e else a) (tab @ [e])"
  using oldest_take [of P k a tab e] oldest_skip [of P k a tab e] by (auto simp: not_le)

lemma cand_ok_note:
  assumes "cand_ok tab c" "length tab < 10" "\<not> is_empty e"
  shows "cand_ok (tab @ [e]) (note_entry (length tab) e c)"
proof -
  note c = assms(1) [unfolded cand_ok_def]
  have f: "first_empty (empty_i c) (tab @ [e])" using c assms(2,3) by (intro first_empty_skip) auto
  note o = oldest_step [where e = e and tab = tab]
  have "oldest is_pending (old_pending c) (age_pending c) tab" "oldest (\<lambda>e. is_stable (e_state e)) (old_stable c) (age_stable c) tab"
    "oldest is_queued (old_queue c) (age_queue c) tab" using c by auto
  note p = this [THEN o]
  show ?thesis
  proof (cases "e_state e")
    case ETHARP_STATE_PENDING
    then show ?thesis using f p by (cases "e_q e = NULL") (simp_all add: cand_ok_def note_entry_def split: if_splits)
  qed (use f p assms(3) in \<open>simp_all add: cand_ok_def note_entry_def split: if_splits\<close>)
qed

lemma cand_ok_empty:
  assumes "cand_ok tab c" "length tab < 10" "is_empty e"
  shows "cand_ok (tab @ [e]) (if empty_i c = 10 then c\<lparr>empty_i := length tab\<rparr> else c)"
  using assms by (auto simp: cand_ok_def intro!: oldest_skip first_empty_skip first_empty_take)

definition no_match :: "u32 option \<Rightarrow> etharp_entry list \<Rightarrow> bool" where
  "no_match ip tab \<longleftrightarrow> (\<forall>e\<in>set tab. \<not> is_empty e \<longrightarrow> ip \<noteq> Some (e_ipaddr e))"

lemma find_loop_spec:
  assumes "cand_ok pre c" "no_match ip pre" "length (pre @ es) \<le> 10"
  shows "case find_loop ip (length pre) es c of
      Inl i \<Rightarrow> i < length (pre @ es) \<and> \<not> is_empty ((pre @ es) ! i) \<and> ip = Some (e_ipaddr ((pre @ es) ! i))
    | Inr c' \<Rightarrow> cand_ok (pre @ es) c' \<and> no_match ip (pre @ es)"
  using assms
proof (induction es arbitrary: pre c)
  case (Cons e es)
  have l: "length pre < 10" using Cons.prems(3) by simp
  note IH = Cons.IH [of "pre @ [e]"]
  consider "is_empty e" | "\<not> is_empty e" "ip = Some (e_ipaddr e)" | "\<not> is_empty e" "ip \<noteq> Some (e_ipaddr e)" by blast
  then show ?case
  proof cases
    case 1
    have "no_match ip (pre @ [e])" using Cons.prems(2) 1 by (simp add: no_match_def)
    then show ?thesis using IH [OF cand_ok_empty [OF Cons.prems(1) l 1]] Cons.prems(3) 1 by (auto split: sum.splits if_splits)
  next
    case 2
    then show ?thesis by (simp add: nth_append)
  next
    case 3
    have "no_match ip (pre @ [e])" using Cons.prems(2) 3 by (simp add: no_match_def)
    then show ?thesis using IH [OF cand_ok_note [OF Cons.prems(1) l 3(1)]] Cons.prems(3) 3 by (auto split: sum.splits)
  qed
qed simp

lemma find_loop_table:
  assumes "length tab = 10"
  shows "case find_loop ip 0 tab no_cand of
      Inl i \<Rightarrow> i < 10 \<and> \<not> is_empty (tab ! i) \<and> ip = Some (e_ipaddr (tab ! i))
    | Inr c \<Rightarrow> cand_ok tab c \<and> no_match ip tab"
proof -
  have "cand_ok [] no_cand" by (simp add: cand_ok_def no_cand_def first_empty_def oldest_def)
  then show ?thesis using find_loop_spec [of "[]" no_cand ip tab] assms by (auto simp: no_match_def split: sum.splits)
qed


lemma first_emptyD: "first_empty k tab \<Longrightarrow> length tab = 10 \<Longrightarrow> k < 10 \<Longrightarrow> is_empty (tab ! k)"
  by (auto simp: first_empty_def)

lemma oldestD: "oldest P k a tab \<Longrightarrow> length tab = 10 \<Longrightarrow> k < 10 \<Longrightarrow> P (tab ! k)"
  by (auto simp: oldest_def)

lemma no_matchD: "no_match (Some ip) tab \<Longrightarrow> length tab = 10 \<Longrightarrow> j < 10 \<Longrightarrow> \<not> is_empty (tab ! j) \<Longrightarrow> e_ipaddr (tab ! j) \<noteq> ip"
  by (auto simp: no_match_def)

lemma pick_old_cases:
  assumes "cand_ok tab c" "length tab = 10" "pick_old c \<noteq> 10"
  shows "pick_old c < 10" "old_stable c < 10 \<Longrightarrow> is_stable (e_state (tab ! pick_old c))"
  using assms oldestD [of "\<lambda>e. is_stable (e_state e)" "old_stable c" _ tab] by (auto simp: pick_old_def cand_ok_def split: if_splits)

text \<open>The table with a new entry at \<open>k\<close>, as the search leaves it.\<close>

definition new_entry :: "u32 \<Rightarrow> etharp_entry \<Rightarrow> etharp_entry" where
  "new_entry ip e = e\<lparr>e_ipaddr := ip, e_ctime := 0\<rparr>"

lemma find_entry_Inr:
  assumes "find_loop (Some ip) 0 (arp_table g) no_cand = Inr c" "length (arp_table g) = 10"
  shows "etharp_find_entry (Some ip) flags g =
    (if flags AND 2 \<noteq> 0 \<or> empty_i c = 10 \<and> flags AND 1 = 0 then Some (-1, g)
     else if empty_i c < 10 then Some (int (empty_i c), upd_entry (empty_i c) (new_entry ip) g)
     else if pick_old c = 10 then Some (-1, g)
     else if old_stable c < 10 \<and> e_q (arp_table g ! pick_old c) \<noteq> NULL then None
     else map_option (\<lambda>g. (int (pick_old c), upd_entry (pick_old c) (new_entry ip) g)) (etharp_free_entry (pick_old c) g))"
proof -
  have c: "cand_ok (arp_table g) c" using find_loop_table [OF assms(2), of "Some ip"] assms(1) by simp
  have e: "is_empty (arp_table g ! empty_i c)" if "empty_i c < 10"
    using c that assms(2) by (auto simp: cand_ok_def intro: first_emptyD)
  have v: "is_empty (arp_table h ! pick_old c)" if "etharp_free_entry (pick_old c) g = Some h" "pick_old c \<noteq> 10" for h
    using free_entry_sel(1) [OF that(1)] pick_old_cases(1) [OF c assms(2) that(2)] assms(2) by simp
  have b: "Option.bind (etharp_free_entry (pick_old c) g) (\<lambda>h. if \<not> is_empty (arp_table h ! pick_old c) then None else Some (f h))
      = map_option f (etharp_free_entry (pick_old c) g)" if "pick_old c \<noteq> 10" for f :: "_ \<Rightarrow> int \<times> _"
    using v [OF _ that] by (cases "etharp_free_entry (pick_old c) g") auto
  show ?thesis
    by (simp add: etharp_find_entry_def assms(1) Let_def e b new_entry_def [abs_def] split: if_split)
qed

lemma entry_ok_empty: "entry_ok e \<Longrightarrow> is_empty e \<Longrightarrow> e_q e = NULL"
  by (auto simp: entry_ok_def)

definition owns_ip :: "u32 \<Rightarrow> nat \<Rightarrow> etharp_entry list \<Rightarrow> bool" where
  "owns_ip ip k tab \<longleftrightarrow> k < 10 \<and> e_ipaddr (tab ! k) = ip
     \<and> (\<forall>j<10. j \<noteq> k \<longrightarrow> \<not> is_empty (tab ! j) \<longrightarrow> e_ipaddr (tab ! j) \<noteq> ip)"

lemma owns_ip_match:
  assumes "tab_ok tab" "k < 10" "\<not> is_empty (tab ! k)"
  shows "owns_ip (e_ipaddr (tab ! k)) k tab"
  unfolding owns_ip_def using assms(2,3) tab_okD(3) [OF assms(1) _ assms(2) _ assms(3)] by blast

lemma owns_ip_new:
  assumes "tab_ok tab" "k < 10" "no_match (Some ip) tab" "entry_ok e" "is_empty e"
  shows "owns_ip ip k (tab[k := new_entry ip e])" "tab_ok (tab[k := new_entry ip e])"
proof -
  have len: "length tab = 10" by (rule tab_okD(1) [OF assms(1)])
  show "owns_ip ip k (tab[k := new_entry ip e])"
    unfolding owns_ip_def using no_matchD [OF assms(3) len] assms(2) len by (simp add: new_entry_def)
  show "tab_ok (tab[k := new_entry ip e])"
    by (rule tab_ok_upd [OF assms(1,2)]) (use assms(4,5) in \<open>auto simp: new_entry_def entry_ok_def\<close>)
qed

lemma find_entry_cases:
  assumes "arp_ok g" "etharp_find_entry (Some ip) flags g = Some (i, g')"
  obtains (none) "i = -1" "g' = g"
    | (found) "g' = g" "owns_ip ip (nat i) (arp_table g)" "0 \<le> i" "\<not> is_empty (arp_table g ! nat i)"
    | (new) e where "0 \<le> i" "nat i < 10" "no_match (Some ip) (arp_table g)" "arp_table g' = (arp_table g)[nat i := new_entry ip e]"
        "entry_ok e" "is_empty e" "etharp_cached_entry g' = etharp_cached_entry g" "netifs g' = netifs g"
proof -
  have t: "tab_ok (arp_table g)" and len: "length (arp_table g) = 10" using assms(1) by (auto simp: arp_ok_def tab_ok_def)
  note out = find_loop_table [OF len, of "Some ip"]
  show thesis
  proof (cases "find_loop (Some ip) 0 (arp_table g) no_cand")
    case (Inl k)
    then have k: "k < 10" "\<not> is_empty (arp_table g ! k)" "e_ipaddr (arp_table g ! k) = ip" and r: "i = int k" "g' = g"
      using out assms(2) by (simp_all add: etharp_find_entry_def)
    show thesis using owns_ip_match [OF t k(1,2)] k r by (intro found) simp_all
  next
    case (Inr c)
    then have c: "cand_ok (arp_table g) c" and nm: "no_match (Some ip) (arp_table g)" using out by simp_all
    consider "i = -1" "g' = g" | "empty_i c < 10" "i = int (empty_i c)" "g' = upd_entry (empty_i c) (new_entry ip) g"
      | h where "pick_old c \<noteq> 10" "i = int (pick_old c)" "g' = upd_entry (pick_old c) (new_entry ip) h" "etharp_free_entry (pick_old c) g = Some h"
      using assms(2) unfolding find_entry_Inr [OF Inr len] by (auto split: if_splits)
    then show thesis
    proof cases
      case 1
      then show thesis by (rule none)
    next
      case 2
      have "is_empty (arp_table g ! empty_i c)" using c 2(1) len unfolding cand_ok_def by (blast intro: first_emptyD)
      then show thesis using 2 nm tab_okD(2) [OF t 2(1)] by (intro new [where e = "arp_table g ! empty_i c"]) simp_all
    next
      case 3
      have k: "pick_old c < 10" by (rule pick_old_cases(1) [OF c len 3(1)])
      show thesis using 3(2,3) k nm len free_entry_sel [OF 3(4)]
        by (intro new [where e = "clear_entry (arp_table g ! pick_old c)"]) simp_all
    qed
  qed
qed

lemma find_entry_ok:
  assumes "arp_ok g" "etharp_find_entry (Some ip) flags g = Some (i, g')"
  shows "arp_ok g'" "netifs g' = netifs g" "i < 0 \<Longrightarrow> i = -1 \<and> g' = g" "0 \<le> i \<Longrightarrow> owns_ip ip (nat i) (arp_table g')"
proof -
  have t: "tab_ok (arp_table g)" using assms(1) by (simp add: arp_ok_def)
  have "arp_ok g' \<and> netifs g' = netifs g \<and> (i < 0 \<longrightarrow> i = -1 \<and> g' = g) \<and> (0 \<le> i \<longrightarrow> owns_ip ip (nat i) (arp_table g'))"
    using assms
  proof (cases rule: find_entry_cases)
    case (new e)
    then show ?thesis using owns_ip_new [OF t new(2,3,5,6)] assms(1) by (simp add: arp_ok_def)
  qed (use assms(1) in auto)
  then show "arp_ok g'" "netifs g' = netifs g" "i < 0 \<Longrightarrow> i = -1 \<and> g' = g" "0 \<le> i \<Longrightarrow> owns_ip ip (nat i) (arp_table g')" by auto
qed

text \<open>Giving the entry a state keeps the table well-formed.\<close>

lemma put_entry_ok:
  assumes "arp_ok h" "owns_ip ip k (arp_table h)" "arp_table g' = (arp_table h)[k := e]" "etharp_cached_entry g' < 10" "entry_ok e" "e_ipaddr e = ip"
  shows "arp_ok g'"
proof -
  have t: "tab_ok (arp_table h)" using assms(1) by (simp add: arp_ok_def)
  have k: "k < 10" using assms(2) by (simp add: owns_ip_def)
  have "tab_ok ((arp_table h)[k := e])"
    by (rule tab_ok_upd [OF t k assms(5)]) (use assms(2,6) in \<open>simp add: owns_ip_def\<close>)
  then show ?thesis using assms(3,4) by (simp add: arp_ok_def)
qed

end
