(* ===== verification/Etharp_Props.thy ===== *)
theory Etharp_Props
  imports Etharp_IO Etharp_Table Ethernetif_Props
begin

text \<open>
  The packet side of ARP on the table: every function of \<open>etharp.c\<close> keeps the cache
  well-formed, whatever frames arrive; which entry a new address takes; the life of an entry;
  and the answer to a request.
\<close>

section \<open>The link below\<close>

text \<open>What the cache relies on: sending a frame does not touch it.\<close>

locale link =
  fixes out :: "('d, 'm) linkout"
  assumes keeps: "out nif p g = Some (r, g') \<Longrightarrow> arp_table g' = arp_table g \<and> etharp_cached_entry g' = etharp_cached_entry g \<and> netifs g' = netifs g"

definition same_arp :: "('d, 'm) eth_scheme \<Rightarrow> ('d, 'm) eth_scheme \<Rightarrow> bool" where
  "same_arp g g' \<longleftrightarrow> arp_table g' = arp_table g \<and> etharp_cached_entry g' = etharp_cached_entry g \<and> netifs g' = netifs g"

lemma same_arp_refl [simp]: "same_arp g g"
  by (simp add: same_arp_def)

lemma same_arp_trans: "same_arp f g \<Longrightarrow> same_arp g h \<Longrightarrow> same_arp f h"
  by (simp add: same_arp_def)

lemma same_arp_ok: "same_arp g g' \<Longrightarrow> arp_ok g' \<longleftrightarrow> arp_ok g"
  by (simp add: same_arp_def arp_ok_def)

lemma same_arp_sel [simp]:
  "same_arp (g\<lparr>lwm := w\<rparr>) h = same_arp g h" "same_arp g (h\<lparr>lwm := w\<rparr>) = same_arp g h"
  "same_arp (poke a bs g) h = same_arp g h" "same_arp g (poke a bs h) = same_arp g h"
  by (simp_all add: same_arp_def poke_def)

lemma poke_sel [simp]:
  "arp_table (poke a bs g) = arp_table g" "etharp_cached_entry (poke a bs g) = etharp_cached_entry g" "netifs (poke a bs g) = netifs g"
  "pbufs (lwm (poke a bs g)) = pbufs (lwm g)" "nic (poke a bs g) = nic g"
  by (simp_all add: poke_def)

lemma free_in_same: "free_in p g = Some g' \<Longrightarrow> same_arp g g'"
  using free_in_sel [of p g g'] by (simp add: same_arp_def)

lemma queue_on_ok:
  assumes "arp_ok g" "k < 10" "e_state (arp_table g ! k) = ETHARP_STATE_PENDING" "queue_on k q g = Some (r, g')"
  shows "arp_ok g' \<and> netifs g' = netifs g"
proof -
  have t: "tab_ok (arp_table g)" "length (arp_table g) = 10" "etharp_cached_entry g < 10" using assms(1) by (auto simp: arp_ok_def tab_ok_def)
  have put: "arp_ok h' \<and> netifs h' = netifs g" if "h' = upd_entry k (\<lambda>e. e\<lparr>e_q := p\<rparr>) h" "same_arp g h" for p h h'
  proof -
    have "tab_ok ((arp_table g)[k := (arp_table g ! k)\<lparr>e_q := p\<rparr>])"
      using tab_okD(2) [OF t(1) assms(2)] assms(3) by (intro tab_ok_upd_same [OF t(1) assms(2)], simp_all add: entry_ok_def)
    then show ?thesis using that t(3) by (simp add: arp_ok_def same_arp_def)
  qed
  obtain p w where w: "take_over q (lwm g) = Some (p, w)"
    using assms(4) by (auto simp: queue_on_def split: option.splits)
  show ?thesis
  proof (cases "p = NULL")
    case True
    then show ?thesis using assms(1,4) w by (auto simp: queue_on_def Let_def arp_ok_def)
  next
    case False
    with assms(4) w obtain h where "g' = upd_entry k (\<lambda>e. e\<lparr>e_q := p\<rparr>) h" "same_arp (g\<lparr>lwm := w\<rparr>) h"
      by (auto simp: queue_on_def Let_def split: if_splits dest: free_in_same)
    then show ?thesis using put [of g' p h] by simp
  qed
qed

lemma stable_indexD:
  "stable_index ip i tab = Some k \<Longrightarrow> i \<le> k \<and> k < i + length tab \<and> is_stable (e_state (tab ! (k - i))) \<and> e_ipaddr (tab ! (k - i)) = ip"
proof (induction tab arbitrary: i)
  case (Cons e es)
  show ?case
  proof (cases "is_stable (e_state e) \<and> ip = e_ipaddr e")
    case False
    then have s: "stable_index ip (i + 1) es = Some k" using Cons.prems by auto
    note IH = Cons.IH [OF s]
    have "k - i = Suc (k - (i + 1))" using conjunct1 [OF IH] by arith
    then show ?thesis using IH by auto
  qed (use Cons.prems in auto)
qed simp

lemma make_reply_same: "same_arp g (make_reply hw ip a g)"
  unfolding make_reply_def Let_def same_arp_sel by (rule same_arp_refl)

definition for_us :: "ptr \<Rightarrow> ptr \<Rightarrow> ('d, 'm) eth_scheme \<Rightarrow> bool" where
  "for_us nif p g \<longleftrightarrow> nif_ip_addr (netifs g nif) \<noteq> IPADDR_ANY
     \<and> load32 (octet (lwm g)) (payload_of p g + 14 + 24) = nif_ip_addr (netifs g nif)"

lemma arp_input_run:
  assumes "nif \<noteq> NULL" "\<not> pb_len (pbufs (lwm g) p) < 42" "\<not> bad_arp_header (octet (lwm g)) (payload_of p g + 14)"
  shows "etharp_arp_input out nif p g =
    Option.bind (etharp_update_arp_entry out nif (load32 (octet (lwm g)) (payload_of p g + 14 + 14)) (peek (payload_of p g + 14 + 8) 6 g)
                   (if for_us nif p g then ETHARP_FLAG_TRY_HARD else ETHARP_FLAG_FIND_ONLY) g)
      (\<lambda>(_, h). arp_act out nif (nif_hwaddr (netifs h nif)) p (payload_of p g) (for_us nif p g) h)"
  unfolding etharp_arp_input_def Let_def for_us_def using assms by (simp only: if_False if_True)

lemma arp_input_drop:
  assumes "nif \<noteq> NULL" "pb_len (pbufs (lwm g) p) < 42 \<or> bad_arp_header (octet (lwm g)) (payload_of p g + 14)"
  shows "etharp_arp_input out nif p g = free_in p g"
  unfolding etharp_arp_input_def Let_def using assms by (cases "pb_len (pbufs (lwm g) p) < 42", simp_all only: if_False if_True simp_thms)

context link
begin

lemma out_same: "out nif p g = Some (r, g') \<Longrightarrow> same_arp g g'"
  using keeps by (simp add: same_arp_def)

lemma send_ip_same: "etharp_send_ip out nif p src dst g = Some (r, g') \<Longrightarrow> same_arp g g'"
  by (auto simp: etharp_send_ip_def Let_def split: if_splits dest: out_same)

lemma raw_same:
  assumes "etharp_raw out nif a b c d e f k g = Some (r, g')"
  shows "same_arp g g'"
proof -
  have *: "same_arp g g'" if "out nif p h = Some (x, h1)" "free_in p h1 = Some g'" "same_arp g h" for p x and h h1 :: "('d, 'm) eth_scheme"
    using same_arp_trans [OF that(3) same_arp_trans [OF out_same [OF that(1)] free_in_same [OF that(2)]]] .
  show ?thesis using assms
    by (auto simp: etharp_raw_def Let_def bind_eq_Some_conv split: option.splits if_splits elim!: *)
qed

lemma request_same: "etharp_request out nif ip g = Some (r, g') \<Longrightarrow> same_arp g g'"
  unfolding etharp_request_def Let_def by (rule raw_same)

lemma same_ok: "same_arp k k' \<Longrightarrow> arp_ok k \<and> netifs k = n \<Longrightarrow> arp_ok k' \<and> netifs k' = n"
  by (simp add: same_arp_ok) (simp add: same_arp_def)

text \<open>A new address pair.\<close>

lemma update_entry_ok:
  assumes "arp_ok h" "owns_ip ip i (arp_table h)" "length eth = 6" "update_entry i out nif eth h = Some (r, g')"
  shows "arp_ok g' \<and> netifs g' = netifs h"
proof -
  define e where "e = (arp_table h ! i)\<lparr>e_state := ETHARP_STATE_STABLE, e_netif := nif, e_ethaddr := eth, e_ctime := 0, e_q := NULL\<rparr>"
  have e: "entry_ok e" "e_ipaddr e = ip" using assms(2,3) by (simp_all add: e_def entry_ok_def owns_ip_def)
  have put: "arp_ok k" if "arp_table k = (arp_table h)[i := e]" "etharp_cached_entry k = etharp_cached_entry h" for k :: "('d, 'm) eth_scheme"
    using put_entry_ok [OF assms(1,2) that(1) _ e] that(2) assms(1) by (simp add: arp_ok_def)
  have len: "i < length (arp_table h)" using assms(1,2) by (simp add: owns_ip_def arp_ok_def tab_ok_def)
  define k where "k = upd_entry i (\<lambda>e. e\<lparr>e_state := ETHARP_STATE_STABLE, e_netif := nif, e_ethaddr := eth, e_ctime := 0\<rparr>) h"
  have q: "e_q (arp_table k ! i) = e_q (arp_table h ! i)" "netifs k = netifs h" using len by (simp_all add: k_def)
  show ?thesis
  proof (cases "e_q (arp_table h ! i) = NULL")
    case True
    have "(arp_table h ! i)\<lparr>e_state := ETHARP_STATE_STABLE, e_netif := nif, e_ethaddr := eth, e_ctime := 0\<rparr> = e"
      by (rule etharp_entry.equality) (simp_all add: e_def True)
    then have "arp_ok k" by (intro put) (simp_all add: k_def)
    then show ?thesis using assms(4) True q by (simp add: update_entry_def k_def [symmetric] Let_def)
  next
    case False
    define k1 where "k1 = upd_entry i (\<lambda>e. e\<lparr>e_q := NULL\<rparr>) k"
    have k1: "arp_ok k1" "netifs k1 = netifs h" using len q by (auto intro!: put simp: k1_def k_def e_def)
    obtain x k2 where s: "etharp_send_ip out nif (e_q (arp_table h ! i)) (nif_hwaddr (netifs k1 nif)) eth k1 = Some (x, k2)"
      "free_in (e_q (arp_table h ! i)) k2 = Some g'"
      using assms(4) False q(1) by (auto simp: update_entry_def k_def [symmetric] k1_def [symmetric] Let_def bind_eq_Some_conv)
    show ?thesis using same_ok [OF same_arp_trans [OF send_ip_same [OF s(1)] free_in_same [OF s(2)]]] k1 by simp
  qed
qed

lemma update_ok:
  assumes "arp_ok g" "length eth = 6" "etharp_update_arp_entry out nif ip eth flags g = Some (r, g')"
  shows "arp_ok g' \<and> netifs g' = netifs g"
proof -
  have "g' = g \<or> (\<exists>i h. etharp_find_entry (Some ip) flags g = Some (i, h) \<and> (if i < 0 then Some (i, h) else update_entry (nat i) out nif eth h) = Some (r, g'))"
    using assms(3) by (simp add: etharp_update_arp_entry_def bind_eq_Some_conv split: if_splits) (blast+)?
  then consider "g' = g" | i h where "etharp_find_entry (Some ip) flags g = Some (i, h)" "i < 0" "g' = h"
    | i h where "etharp_find_entry (Some ip) flags g = Some (i, h)" "0 \<le> i" "update_entry (nat i) out nif eth h = Some (r, g')"
    by (metis Pair_inject linorder_not_less option.inject)
  then show ?thesis
  proof cases
    case 2
    then show ?thesis using find_entry_ok [OF assms(1) 2(1)] by simp
  next
    case 3
    note f = find_entry_ok [OF assms(1) 3(1)]
    show ?thesis using update_entry_ok [OF f(1) f(4) [OF 3(2)] assms(2) 3(3)] f(2) by simp
  qed (use assms(1) in simp)
qed

text \<open>Asking for an address, and sending to it.\<close>

lemma query_send_ok:
  assumes "arp_ok g" "k < 10" "query_send k out nif q x g = Some (r, g')"
  shows "arp_ok g' \<and> netifs g' = netifs g"
proof -
  consider "g' = g" | "etharp_send_ip out nif q (nif_hwaddr (netifs g nif)) (e_ethaddr (arp_table g ! k)) (g\<lparr>etharp_cached_entry := k\<rparr>) = Some (r, g')"
    | "e_state (arp_table g ! k) = ETHARP_STATE_PENDING" "queue_on k q g = Some (r, g')"
    using assms(3) by (auto simp: query_send_def split: if_splits)
  then show ?thesis
  proof cases
    case 2
    show ?thesis by (rule same_ok [OF send_ip_same [OF 2]]) (use assms(1,2) in \<open>simp add: arp_ok_def\<close>)
  next
    case 3
    then show ?thesis by (rule queue_on_ok [OF assms(1,2)])
  qed (use assms(1) in simp)
qed

lemma query_entry_ok:
  assumes "arp_ok h" "owns_ip ip k (arp_table h)" "is_empty (arp_table h ! k) \<Longrightarrow> e_ctime (arp_table h ! k) = 0"
    "query_entry k out nif ip q h = Some (r, g')"
  shows "arp_ok g' \<and> netifs g' = netifs h"
proof -
  define h1 where "h1 = (if is_empty (arp_table h ! k) then upd_entry k (\<lambda>e. e\<lparr>e_state := ETHARP_STATE_PENDING\<rparr>) h else h)"
  have kb: "k < 10" using assms(2) by (simp add: owns_ip_def)
  have h1: "arp_ok h1 \<and> netifs h1 = netifs h"
  proof (cases "is_empty (arp_table h ! k)")
    case True
    have "entry_ok (arp_table h ! k)" using assms(1) kb by (simp add: arp_ok_def tab_okD)
    then have e: "entry_ok ((arp_table h ! k)\<lparr>e_state := ETHARP_STATE_PENDING\<rparr>)" using True assms(3) by (simp add: entry_ok_def)
    have "arp_ok h1"
      by (rule put_entry_ok [OF assms(1,2) _ _ e]) (use True assms(1,2) in \<open>simp_all add: h1_def owns_ip_def arp_ok_def\<close>)
    then show ?thesis by (simp add: h1_def)
  qed (use assms(1) in \<open>simp add: h1_def\<close>)
  consider x h2 where "etharp_request out nif ip h1 = Some (x, h2)" "query_send k out nif q x h2 = Some (r, g')"
    | "query_send k out nif q ERR_MEM h1 = Some (r, g')"
    using assms(4) unfolding query_entry_def h1_def [symmetric] Let_def by (auto simp: bind_eq_Some_conv split: if_splits)
  then show ?thesis
  proof cases
    case 1
    have h2: "arp_ok h2 \<and> netifs h2 = netifs h" by (rule same_ok [OF request_same [OF 1(1)] h1])
    then show ?thesis using query_send_ok [OF _ kb 1(2)] by simp
  next
    case 2
    then show ?thesis using query_send_ok [OF _ kb 2] h1 by simp
  qed
qed

lemma query_ok:
  assumes "arp_ok g" "etharp_query out nif ip q g = Some (r, g')"
  shows "arp_ok g' \<and> netifs g' = netifs g"
proof -
  have "g' = g \<or> (\<exists>i h. etharp_find_entry (Some ip) ETHARP_FLAG_TRY_HARD g = Some (i, h) \<and> (if i < 0 then Some (i, h) else query_entry (nat i) out nif ip q h) = Some (r, g'))"
    using assms(2) by (simp add: etharp_query_def bind_eq_Some_conv split: if_splits) (blast+)?
  then consider "g' = g" | i h where "etharp_find_entry (Some ip) ETHARP_FLAG_TRY_HARD g = Some (i, h)" "i < 0" "g' = h"
    | i h where "etharp_find_entry (Some ip) ETHARP_FLAG_TRY_HARD g = Some (i, h)" "0 \<le> i" "query_entry (nat i) out nif ip q h = Some (r, g')"
    by (metis Pair_inject linorder_not_less option.inject)
  then show ?thesis
  proof cases
    case 2
    then show ?thesis using find_entry_ok [OF assms(1) 2(1)] by simp
  next
    case 3
    note f = find_entry_ok [OF assms(1) 3(1)]
    have len: "length (arp_table g) = 10" using assms(1) by (simp add: arp_ok_def tab_ok_def)
    have "e_ctime (arp_table h ! nat i) = 0" if "is_empty (arp_table h ! nat i)" using assms(1) 3(1)
    proof (cases rule: find_entry_cases)
      case (new e)
      then show ?thesis using len by (simp add: new_entry_def)
    qed (use that 3(2) in simp_all)
    then show ?thesis using query_entry_ok [OF f(1) f(4) [OF 3(2)] _ 3(3)] f(2) by simp
  qed (use assms(1) in simp)
qed

lemma to_index_ok:
  assumes "arp_ok g" "k < 10" "etharp_output_to_arp_index out nif q k g = Some (r, g')"
  shows "arp_ok g' \<and> netifs g' = netifs g"
proof -
  have st: "is_stable (e_state (arp_table g ! k))" using assms(3) by (simp add: etharp_output_to_arp_index_def split: if_splits)
  then obtain h where h: "etharp_send_ip out nif q (nif_hwaddr (netifs h nif)) (e_ethaddr (arp_table h ! k)) h = Some (r, g')"
    "(if e_state (arp_table g ! k) = ETHARP_STATE_STABLE \<and> e_ctime (arp_table g ! k) \<ge> ARP_AGE_REREQUEST_USED
      then map_option (\<lambda>(err, g). if err = ERR_OK then upd_entry k (\<lambda>e. e\<lparr>e_state := ETHARP_STATE_STABLE_REREQUESTING\<rparr>) g else g)
             (etharp_request out nif (e_ipaddr (arp_table g ! k)) g)
      else Some g) = Some h"
    using assms(3) unfolding etharp_output_to_arp_index_def by (auto split: option.splits)
  have t: "tab_ok (arp_table g)" using assms(1) by (simp add: arp_ok_def)
  have rr: "tab_ok ((arp_table g)[k := (arp_table g ! k)\<lparr>e_state := ETHARP_STATE_STABLE_REREQUESTING\<rparr>])"
    by (rule tab_ok_upd_same [OF t assms(2)]) (use tab_okD(2) [OF t assms(2)] st in \<open>auto simp: entry_ok_def\<close>)
  have "arp_ok h \<and> netifs h = netifs g"
    using h(2) assms(1) rr by (auto simp: arp_ok_def same_arp_def split: if_splits dest!: request_same)
  then show ?thesis using send_ip_same [OF h(1)] by (simp add: same_arp_ok) (simp add: same_arp_def)
qed

lemma output_ok:
  assumes "arp_ok g" "etharp_output out nif q ip g = Some (r, g')"
  shows "arp_ok g' \<and> netifs g' = netifs g"
proof -
  have "nif \<noteq> NULL \<and> q \<noteq> NULL" using assms(2) by (simp add: etharp_output_def split: if_splits)
  then obtain x w where w: "pbuf_header q 14 (lwm g) = Some (x, w)" using assms(2) by (auto simp: etharp_output_def split: option.splits if_splits)
  define h where "h = g\<lparr>lwm := w\<rparr>"
  have h: "arp_ok h" "netifs h = netifs g" "arp_table h = arp_table g" using assms(1) by (simp_all add: h_def arp_ok_def)
  consider "g' = h" | d where "etharp_send_ip out nif q (nif_hwaddr (netifs h nif)) d h = Some (r, g')"
    | "etharp_output_to_arp_index out nif q (etharp_cached_entry h) h = Some (r, g')"
    | k d where "stable_index d 0 (arp_table h) = Some k" "etharp_output_to_arp_index out nif q k (h\<lparr>etharp_cached_entry := k\<rparr>) = Some (r, g')"
    | d where "etharp_query out nif d q h = Some (r, g')"
    using assms(2) w by (auto simp: etharp_output_def Let_def h_def split: if_splits option.splits)
  then show ?thesis
  proof cases
    case 1
    then show ?thesis using h by simp
  next
    case 2
    then show ?thesis using send_ip_same [OF 2] h by (simp add: same_arp_ok) (simp add: same_arp_def)
  next
    case 3
    then show ?thesis using to_index_ok [OF h(1) _ 3] h by (simp add: arp_ok_def)
  next
    case 4
    have k: "k < 10" using stable_indexD [OF 4(1)] h(1) by (simp add: arp_ok_def tab_ok_def)
    then have "arp_ok (h\<lparr>etharp_cached_entry := k\<rparr>)" using h(1) by (simp add: arp_ok_def)
    then show ?thesis using to_index_ok [OF _ k 4(2)] h by simp
  next
    case 5
    then show ?thesis using query_ok [OF h(1) 5] h by simp
  qed
qed

text \<open>Incoming frames.\<close>

lemma arp_act_same:
  assumes "arp_act out nif hw p a us g = Some g'"
  shows "same_arp g g'"
proof -
  obtain h where h: "same_arp g h" "free_in p h = Some g'"
  proof (cases "load16 (octet (lwm g)) (a + 20) = lwip_htons ARP_REQUEST \<and> us")
    case True
    define r where "r = make_reply hw (nif_ip_addr (netifs g nif)) a g"
    have r: "same_arp g r" unfolding r_def by (rule make_reply_same)
    obtain x h where h: "out nif p r = Some (x, h)" "free_in p h = Some g'"
      using assms True unfolding arp_act_def Let_def r_def [symmetric] by (auto simp: bind_eq_Some_conv split: if_splits)
    show thesis by (rule that [OF same_arp_trans [OF r out_same [OF h(1)]] h(2)])
  next
    case False
    then have "free_in p g = Some g'" using assms unfolding arp_act_def by (simp only: if_False)
    then show thesis by (rule that [OF same_arp_refl])
  qed
  show ?thesis by (rule same_arp_trans [OF h(1) free_in_same [OF h(2)]])
qed

lemma arp_input_ok:
  assumes "arp_ok g" "etharp_arp_input out nif p g = Some g'"
  shows "arp_ok g' \<and> netifs g' = netifs g"
proof -
  let ?a = "payload_of p g"
  let ?upd = "etharp_update_arp_entry out nif (load32 (octet (lwm g)) (?a + 14 + 14)) (peek (?a + 14 + 8) 6 g)
    (if for_us nif p g then ETHARP_FLAG_TRY_HARD else ETHARP_FLAG_FIND_ONLY) g"
  consider (none) "nif = NULL" | (drop) "free_in p g = Some g'"
    | (upd) x h where "?upd = Some (x, h)" "arp_act out nif (nif_hwaddr (netifs h nif)) p ?a (for_us nif p g) h = Some g'"
  proof (cases "nif \<noteq> NULL \<and> \<not> pb_len (pbufs (lwm g) p) < 42 \<and> \<not> bad_arp_header (octet (lwm g)) (?a + 14)")
    case True
    then show thesis using assms(2) upd by (cases ?upd) (auto simp: arp_input_run)
  next
    case False
    then show thesis using assms(2) none drop arp_input_drop [of nif g p out] by fastforce
  qed
  then show ?thesis
  proof cases
    case drop
    show ?thesis by (rule same_ok [OF free_in_same [OF drop]]) (use assms(1) in simp)
  next
    case upd
    have "length (peek (?a + 14 + 8) 6 g) = 6" by (simp add: peek_def)
    from same_ok [OF arp_act_same [OF upd(2)]] update_ok [OF assms(1) this upd(1)] show ?thesis by simp
  qed (use assms in \<open>simp add: etharp_arp_input_def\<close>)
qed

end

text \<open>The program's link, \<open>low_level_output\<close>, writes memory and the controller only.\<close>

lemma low_level_output_same:
  assumes "low_level_output bus snd_buf p g = Some (r, g')"
  shows "\<exists>w n. g' = g\<lparr>lwm := w, nic := n\<rparr>"
proof -
  have "\<exists>u n. g\<lparr>lwm := w\<rparr> = g\<lparr>lwm := u, nic := n\<rparr>" for w by (rule exI [of _ w], rule exI [of _ "nic g"], simp)
  then show ?thesis using assms
    by (auto simp: low_level_output_def PacketSend_def Let_def split: option.splits prod.splits if_splits)
qed

interpretation eth: link "\<lambda>_. low_level_output bus snd_buf" for bus snd_buf
proof
  show "arp_table g' = arp_table g \<and> etharp_cached_entry g' = etharp_cached_entry g \<and> netifs g' = netifs g"
    if "low_level_output bus snd_buf p g = Some (r, g')" for p r and g g' :: "('a, 'b) eth_scheme"
    using low_level_output_same [OF that] by auto
qed

section \<open>Time\<close>


definition no_queue :: "etharp_entry list \<Rightarrow> bool" where
  "no_queue tab \<longleftrightarrow> (\<forall>i. i < length tab \<longrightarrow> e_q (tab ! i) = NULL)"

lemma tmr_entry_total:
  assumes "i < length (arp_table g)" "no_queue (arp_table g)"
  shows "\<exists>g'. tmr_entry i g = Some g' \<and> no_queue (arp_table g') \<and> length (arp_table g') = length (arp_table g)"
proof -
  have q: "e_q (arp_table g ! i) = NULL" using assms by (simp add: no_queue_def)
  have "\<exists>g'. tmr_entry i g = Some g'"
    using free_entry_no_queue [of "upd_entry i (\<lambda>e. e\<lparr>e_ctime := e_ctime e + 1\<rparr>) g" i] assms(1) q
    by (auto simp: tmr_entry_def Let_def)
  then obtain g' where g': "tmr_entry i g = Some g'" by blast
  have "no_queue (arp_table g')" using assms tmr_entry_table [OF assms(1) g']
    by (auto simp: no_queue_def nth_list_update age_entry_def)
  then show ?thesis using g' tmr_entry_table [OF assms(1) g'] by auto
qed

lemma each_entry_bounded:
  assumes "\<And>i g. i \<in> set is \<Longrightarrow> P g \<Longrightarrow> \<exists>g'. f i g = Some g' \<and> P g'" "P g"
  shows "\<exists>g'. each_entry is f g = Some g' \<and> P g'"
  using assms
proof (induction "is" arbitrary: g)
  case (Cons i "is")
  obtain h where "f i g = Some h" "P h" using Cons.prems(1) [of i g] Cons.prems(2) by auto
  then show ?case using Cons.IH [of h] Cons.prems(1) by auto
qed simp

lemma etharp_tmr_total:
  assumes "arp_ok g" "no_queue (arp_table g)"
  shows "\<exists>g'. etharp_tmr g = Some g' \<and> arp_ok g' \<and> no_queue (arp_table g') \<and> arp_table g' = map age_entry (arp_table g)"
proof -
  have len: "length (arp_table g) = 10" using assms(1) by (simp add: arp_ok_def tab_ok_def)
  have "\<exists>g'. etharp_tmr g = Some g' \<and> (no_queue (arp_table g') \<and> length (arp_table g') = 10)"
    unfolding etharp_tmr_def
  proof (rule each_entry_bounded)
    show "\<exists>g'. tmr_entry i g = Some g' \<and> (no_queue (arp_table g') \<and> length (arp_table g') = 10)"
      if "i \<in> set [0..<10]" "no_queue (arp_table g) \<and> length (arp_table g) = 10" for i and g :: "('a, 'b) eth_scheme"
      using tmr_entry_total [of i g] that by simp
  qed (use assms(2) len in simp)
  then show ?thesis using etharp_tmr_ok [OF assms(1)] etharp_tmr_table [OF _ len] by blast
qed





section \<open>Which entry a new address takes\<close>

definition oldest_of :: "(etharp_entry \<Rightarrow> bool) \<Rightarrow> nat \<Rightarrow> etharp_entry list \<Rightarrow> bool" where
  "oldest_of P k tab \<longleftrightarrow> k < length tab \<and> P (tab ! k) \<and> (\<forall>e\<in>set tab. P e \<longrightarrow> e_ctime e \<le> e_ctime (tab ! k))"

definition is_victim :: "nat \<Rightarrow> etharp_entry list \<Rightarrow> bool" where
  "is_victim k tab \<longleftrightarrow>
     (if \<exists>e\<in>set tab. is_empty e then k < length tab \<and> is_empty (tab ! k) \<and> (\<forall>j<k. \<not> is_empty (tab ! j))
      else if \<exists>e\<in>set tab. is_stable (e_state e) then oldest_of (\<lambda>e. is_stable (e_state e)) k tab
      else if \<exists>e\<in>set tab. is_pending e then oldest_of is_pending k tab
      else oldest_of is_queued k tab)"

lemma oldest_10: "oldest P k a tab \<Longrightarrow> length tab = 10 \<Longrightarrow> (if \<exists>e\<in>set tab. P e then k < 10 \<and> oldest_of P k tab else k = 10)"
  by (auto simp: oldest_def oldest_of_def)

lemma first_empty_10: "first_empty k tab \<Longrightarrow> length tab = 10
    \<Longrightarrow> (if \<exists>e\<in>set tab. is_empty e then k < 10 \<and> is_empty (tab ! k) \<and> (\<forall>j<k. \<not> is_empty (tab ! j)) else k = 10)"
  by (auto simp: first_empty_def)

lemma pick_victim:
  assumes "cand_ok tab c" "length tab = 10"
  shows "empty_i c < 10 \<Longrightarrow> is_victim (empty_i c) tab" "\<not> empty_i c < 10 \<Longrightarrow> pick_old c < 10 \<and> is_victim (pick_old c) tab \<and> \<not> is_empty (tab ! pick_old c)"
proof -
  note c = assms(1) [unfolded cand_ok_def]
  note e = first_empty_10 [OF conjunct1 [OF c] assms(2)]
  have s: "if \<exists>e\<in>set tab. is_stable (e_state e) then old_stable c < 10 \<and> oldest_of (\<lambda>e. is_stable (e_state e)) (old_stable c) tab else old_stable c = 10"
    and p: "if \<exists>e\<in>set tab. is_pending e then old_pending c < 10 \<and> oldest_of is_pending (old_pending c) tab else old_pending c = 10"
    and q: "if \<exists>e\<in>set tab. is_queued e then old_queue c < 10 \<and> oldest_of is_queued (old_queue c) tab else old_queue c = 10"
    using c oldest_10 [OF _ assms(2)] by blast+
  show "empty_i c < 10 \<Longrightarrow> is_victim (empty_i c) tab" using e assms(2) by (auto simp: is_victim_def split: if_splits)
  assume "\<not> empty_i c < 10"
  then have ne: "\<not> (\<exists>e\<in>set tab. is_empty e)" using e by (auto split: if_splits)
  have all: "is_stable (e_state e) \<or> is_pending e \<or> is_queued e" if "e \<in> set tab" for e
    using ne that by (cases "e_state e") auto
  have mem: "tab ! 0 \<in> set tab" using assms(2) by simp
  have v: "pick_old c < 10 \<and> is_victim (pick_old c) tab"
  proof (cases "\<exists>e\<in>set tab. is_stable (e_state e)")
    case True
    then show ?thesis using s ne by (simp add: pick_old_def is_victim_def)
  next
    case st: False
    show ?thesis
    proof (cases "\<exists>e\<in>set tab. is_pending e")
      case True
      then show ?thesis using s p ne st by (simp add: pick_old_def is_victim_def)
    next
      case False
      then have "\<exists>e\<in>set tab. is_queued e" using all [OF mem] mem st by blast
      then show ?thesis using s p q ne st False by (simp only: pick_old_def is_victim_def if_True if_False simp_thms, simp)
    qed
  qed
  then show "pick_old c < 10 \<and> is_victim (pick_old c) tab \<and> \<not> is_empty (tab ! pick_old c)" using ne assms(2) by auto
qed

lemma find_entry_spec:
  assumes "arp_ok g"
  shows "(\<forall>k<10. \<not> is_empty (arp_table g ! k) \<longrightarrow> e_ipaddr (arp_table g ! k) = ip \<longrightarrow> etharp_find_entry (Some ip) flags g = Some (int k, g))
    \<and> (no_match (Some ip) (arp_table g) \<longrightarrow>
        etharp_find_entry (Some ip) ETHARP_FLAG_FIND_ONLY g = Some (ERR_MEM, g)
        \<and> (\<exists>k<10. is_victim k (arp_table g) \<and> etharp_find_entry (Some ip) ETHARP_FLAG_TRY_HARD g =
             map_option (\<lambda>h. (int k, upd_entry k (new_entry ip) h)) (if is_empty (arp_table g ! k) then Some g else etharp_free_entry k g)))"
proof -
  have t: "tab_ok (arp_table g)" and len: "length (arp_table g) = 10" using assms by (auto simp: arp_ok_def tab_ok_def)
  note out = find_loop_table [OF len, of "Some ip"]
  show ?thesis
  proof (cases "find_loop (Some ip) 0 (arp_table g) no_cand")
    case (Inl i)
    then have i: "i < 10" "\<not> is_empty (arp_table g ! i)" "e_ipaddr (arp_table g ! i) = ip" using out by auto
    have u: "k = i" if "k < 10" "\<not> is_empty (arp_table g ! k)" "e_ipaddr (arp_table g ! k) = ip" for k
      using tab_okD(3) [OF t that(1) i(1) that(2) i(2)] that(3) i(3) by simp
    have "\<not> no_match (Some ip) (arp_table g)" using i len by (auto simp: no_match_def)
    then show ?thesis using u Inl by (auto simp: etharp_find_entry_def)
  next
    case (Inr c)
    then have c: "cand_ok (arp_table g) c" and nm: "no_match (Some ip) (arp_table g)" using out by auto
    note run = find_entry_Inr [OF Inr len]
    note v = pick_victim [OF c len]
    have none: "\<not> (k < 10 \<and> \<not> is_empty (arp_table g ! k) \<and> e_ipaddr (arp_table g ! k) = ip)" for k
      using no_matchD [OF nm len] by blast
    have hard: "\<exists>k<10. is_victim k (arp_table g) \<and> etharp_find_entry (Some ip) ETHARP_FLAG_TRY_HARD g =
        map_option (\<lambda>h. (int k, upd_entry k (new_entry ip) h)) (if is_empty (arp_table g ! k) then Some g else etharp_free_entry k g)"
    proof (cases "empty_i c < 10")
      case True
      have "is_empty (arp_table g ! empty_i c)" using c True len unfolding cand_ok_def by (blast intro: first_emptyD)
      then show ?thesis using v(1) [OF True] True run [of ETHARP_FLAG_TRY_HARD] by (intro exI [of _ "empty_i c"]) simp
    next
      case False
      have "\<not> (old_stable c < 10 \<and> e_q (arp_table g ! pick_old c) \<noteq> NULL)"
      proof
        assume st: "old_stable c < 10 \<and> e_q (arp_table g ! pick_old c) \<noteq> NULL"
        have "is_stable (e_state (arp_table g ! pick_old c))" using pick_old_cases(2) [OF c len] st v(2) [OF False] by auto
        then show False using st tab_okD(2) [OF t, of "pick_old c"] v(2) [OF False] by (auto simp: entry_ok_def)
      qed
      then show ?thesis using v(2) [OF False] False run [of ETHARP_FLAG_TRY_HARD] by (intro exI [of _ "pick_old c"]) auto
    qed
    show ?thesis using none hard nm run [of ETHARP_FLAG_FIND_ONLY] by auto
  qed
qed

section \<open>Properties\<close>

text \<open>
  An example: the interface 10.0.0.2/24 with gateway 10.0.0.1, whose address is resolved and has
  aged 3 times; 10.0.0.9 is being asked for.
\<close>

definition demo_entry :: etharp_entry where
  "demo_entry = \<lparr>e_q = NULL, e_ipaddr = 0, e_netif = NULL, e_ethaddr = ethzero, e_state = ETHARP_STATE_EMPTY, e_ctime = 0\<rparr>"

definition demo_table :: "etharp_entry list" where
  "demo_table = [demo_entry\<lparr>e_ipaddr := 0x0100000a, e_netif := 1, e_ethaddr := [7, 7, 7, 7, 7, 7], e_state := ETHARP_STATE_STABLE, e_ctime := 3\<rparr>,
     demo_entry\<lparr>e_ipaddr := 0x0900000a, e_state := ETHARP_STATE_PENDING\<rparr>] @ replicate 8 demo_entry"

definition demo_eth :: "u8 list eth" where
  "demo_eth = \<lparr>nic = nic demo_gw, lwm = demo_bufs\<lparr>pbufs := (pbufs demo_bufs)(300 := \<lparr>pb_next = 0, payload = 700, tot_len = 60, pb_len = 60, pb_type = 0, pb_flags = 0, pb_ref = 1\<rparr>)\<rparr>,
     netifs = (\<lambda>_. \<lparr>nif_ip_addr = 0x0200000a, nif_netmask = 0x00ffffff, nif_flags = 0x33, nif_next = 0, nif_gw = 0x0100000a, nif_state = 0,
        nif_mtu = 1500, nif_hwaddr_len = 6, nif_hwaddr = [1, 1, 1, 1, 1, 1], nif_name = (101, 110), nif_num = 0\<rparr>),
     netif_list = 1, netif_default = 1, netif_num = 1, arp_table = demo_table, etharp_cached_entry = 0\<rparr>"

lemma less_10: "i < 10 \<longleftrightarrow> i = 0 \<or> i = 1 \<or> i = 2 \<or> i = 3 \<or> i = 4 \<or> i = 5 \<or> i = 6 \<or> i = 7 \<or> i = 8 \<or> i = (9 :: nat)"
  by auto

lemma demo_table:
  "length demo_table = 10" "demo_table ! 0 = demo_entry\<lparr>e_ipaddr := 0x0100000a, e_netif := 1, e_ethaddr := [7, 7, 7, 7, 7, 7], e_state := ETHARP_STATE_STABLE, e_ctime := 3\<rparr>"
  "demo_table ! Suc 0 = demo_entry\<lparr>e_ipaddr := 0x0900000a, e_state := ETHARP_STATE_PENDING\<rparr>" "2 \<le> i \<Longrightarrow> i < 10 \<Longrightarrow> demo_table ! i = demo_entry"
  by (auto simp: demo_table_def nth_append nth_Cons')

lemma demo_eth_sel:
  "arp_table demo_eth = demo_table" "etharp_cached_entry demo_eth = 0" "nif_ip_addr (netifs demo_eth i) = 0x0200000a" "nif_netmask (netifs demo_eth i) = 0x00ffffff"
  "nif_flags (netifs demo_eth i) = 0x33" "nif_hwaddr_len (netifs demo_eth i) = 6" "nif_hwaddr (netifs demo_eth i) = [1, 1, 1, 1, 1, 1]"
  "pbufs (lwm demo_eth) 300 = \<lparr>pb_next = 0, payload = 700, tot_len = 60, pb_len = 60, pb_type = 0, pb_flags = 0, pb_ref = 1\<rparr>"
  by (simp_all add: demo_eth_def)

lemma demo_tab_cases: "i < 10 \<Longrightarrow> i = 0 \<or> i = 1 \<or> 2 \<le> i \<and> demo_table ! i = demo_entry"
  using demo_table(4) [of i] by linarith

lemma demo_eth: "arp_ok demo_eth" "no_queue (arp_table demo_eth)"
proof -
  have "entry_ok (demo_table ! i)" "e_q (demo_table ! i) = NULL" if "i < 10" for i
    using demo_tab_cases [OF that] by (auto simp: demo_table demo_entry_def entry_ok_def ethzero_def)
  moreover have "one_entry demo_table"
    unfolding one_entry_def demo_table(1)
  proof (intro allI impI)
    fix i j assume ij: "i < 10" "j < 10" "\<not> is_empty (demo_table ! i)" "\<not> is_empty (demo_table ! j)" "e_ipaddr (demo_table ! i) = e_ipaddr (demo_table ! j)"
    show "i = j" using demo_tab_cases [OF ij(1)] demo_tab_cases [OF ij(2)] ij(3-5) by (auto simp: demo_table(2,3) demo_entry_def)
  qed
  ultimately show "arp_ok demo_eth" "no_queue (arp_table demo_eth)"
    by (simp_all add: arp_ok_def tab_ok_def no_queue_def demo_eth_sel demo_table(1))
qed

text \<open>
  C32: the ARP cache stays well-formed whatever the program does and whatever frames arrive: ten
  entries with 6-byte addresses, at most one entry in use for an IP address, packets waiting only on
  unresolved entries, no entry older than its state allows, the cached index within the table.
\<close>

theorem arp_table_wf:
  fixes g :: "('d, 'm) eth_scheme" and bus :: "'d bus" and snd_buf :: ptr
  assumes "arp_ok g"
  defines "out \<equiv> \<lambda>_. low_level_output bus snd_buf"
  shows "(\<forall>g'. etharp_tmr g = Some g' \<longrightarrow> arp_ok g')
    \<and> (\<forall>g'. etharp_cleanup_netif nif g = Some g' \<longrightarrow> arp_ok g')
    \<and> (\<forall>r g'. etharp_query out nif ip q g = Some (r, g') \<longrightarrow> arp_ok g')
    \<and> (\<forall>r g'. etharp_output out nif q ip g = Some (r, g') \<longrightarrow> arp_ok g')
    \<and> (\<forall>g'. etharp_arp_input out nif p g = Some g' \<longrightarrow> arp_ok g')"
  unfolding out_def using assms(1) by (auto dest: etharp_tmr_ok etharp_cleanup_ok eth.query_ok eth.output_ok eth.arp_input_ok)

lemma arp_table_wf_witness: "\<exists>g'. etharp_tmr demo_eth = Some g' \<and> e_ctime (arp_table g' ! 0) = 4 \<and> arp_ok g'"
proof -
  obtain g' where g': "etharp_tmr demo_eth = Some g'" "arp_table g' = map age_entry demo_table"
    using etharp_tmr_total [OF demo_eth] by (auto simp: demo_eth_sel)
  moreover have "arp_ok g'" using arp_table_wf [OF demo_eth(1)] g'(1) by blast
  moreover have "e_ctime (arp_table g' ! 0) = 4" by (simp add: g'(2) demo_table age_entry_def)
  ultimately show ?thesis by blast
qed




text \<open>
  C34: a search finds the entry of the address if there is one. Without one, a search only reports
  that; a caller that insists always gets an entry: the first empty one, or else the oldest
  resolved one, or else the oldest unresolved one, those with a waiting packet last. The entry is
  freed first, and only it changes.
\<close>

theorem arp_find_spec:
  assumes "arp_ok g"
  shows "(\<forall>k<10. \<not> is_empty (arp_table g ! k) \<longrightarrow> e_ipaddr (arp_table g ! k) = ip \<longrightarrow> etharp_find_entry (Some ip) flags g = Some (int k, g))
    \<and> (no_match (Some ip) (arp_table g) \<longrightarrow>
        etharp_find_entry (Some ip) ETHARP_FLAG_FIND_ONLY g = Some (ERR_MEM, g)
        \<and> (\<exists>k<10. is_victim k (arp_table g) \<and> etharp_find_entry (Some ip) ETHARP_FLAG_TRY_HARD g =
             map_option (\<lambda>h. (int k, upd_entry k (new_entry ip) h)) (if is_empty (arp_table g ! k) then Some g else etharp_free_entry k g)))"
  by (rule find_entry_spec [OF assms])


lemma arp_find_spec_witness:
  "etharp_find_entry (Some 0x0100000a) ETHARP_FLAG_FIND_ONLY demo_eth = Some (0, demo_eth)
    \<and> etharp_find_entry (Some 0x0500000a) ETHARP_FLAG_FIND_ONLY demo_eth = Some (-1, demo_eth)"
proof -
  have "etharp_find_entry (Some 0x0100000a) ETHARP_FLAG_FIND_ONLY demo_eth = Some (int 0, demo_eth)"
    using conjunct1 [OF arp_find_spec [OF demo_eth(1), of "0x0100000a" ETHARP_FLAG_FIND_ONLY], THEN spec, of 0] by (simp add: demo_eth_sel demo_table(2))
  moreover have "no_match (Some 0x0500000a) demo_table"
    unfolding no_match_def demo_table_def by (auto simp: demo_entry_def)
  ultimately show ?thesis
    using arp_find_spec [OF demo_eth(1), of "0x0500000a" ETHARP_FLAG_FIND_ONLY] by (simp add: demo_eth_sel)
qed

end
