(* ===== verification/Etharp_Reply.thy ===== *)
theory Etharp_Reply
  imports Etharp_Props
begin

text \<open>
  The bytes of ARP frames: how writes and reads at offsets combine, and the reply that a request
  becomes in place.
\<close>

definition splice :: "nat \<Rightarrow> u8 list \<Rightarrow> u8 list \<Rightarrow> u8 list" where
  "splice k bs xs = take k xs @ bs @ drop (k + length bs) xs"

lemma bytes_at_nth: "i < n \<Longrightarrow> bytes_at m a n ! i = m (a + i)"
  by (simp add: bytes_at_def)

lemma peek_poke:
  assumes "k + length bs \<le> n"
  shows "peek a n (poke (a + k) bs g) = splice k bs (peek a n g)"
proof (rule nth_equalityI)
  show "length (peek a n (poke (a + k) bs g)) = length (splice k bs (peek a n g))"
    using assms by (simp add: peek_def splice_def)
  fix i assume "i < length (peek a n (poke (a + k) bs g))"
  then have i: "i < n" by (simp add: peek_def)
  have l: "octet (lwm (poke (a + k) bs g)) (a + i) = (if k \<le> i \<and> i < k + length bs then bs ! (i - k) else octet (lwm g) (a + i))"
    using store_bytes_inside [of "i - k" bs "a + k" "octet (lwm g)"] store_bytes_outside [of "a + i" "a + k" bs "octet (lwm g)"]
    by (auto simp: poke_def)
  show "peek a n (poke (a + k) bs g) ! i = splice k bs (peek a n g) ! i"
    using i assms unfolding splice_def peek_def by (auto simp: bytes_at_nth nth_append l)
qed

lemma peek_part: "k + n \<le> l \<Longrightarrow> peek (a + k) n g = take n (drop k (peek a l g))"
  by (rule nth_equalityI) (simp_all add: peek_def bytes_at_nth add.assoc)

lemma load16_peek: "peek a 2 g = [b, c] \<Longrightarrow> load16 (octet (lwm g)) a = ucast b OR push_bit 8 (ucast c)"
  by (simp add: peek_def numeral_2_eq_2 bytes_at_Suc load16_def)

lemma load32_addr:
  assumes "peek a 4 g = addr_bytes x"
  shows "load32 (octet (lwm g)) a = x"
proof -
  have "octet (lwm g) a = ucast x" "octet (lwm g) (a + 1) = ucast (drop_bit 8 x)" "octet (lwm g) (a + 2) = ucast (drop_bit 16 x)"
    "octet (lwm g) (a + 3) = ucast (drop_bit 24 x)"
    using assms by (simp_all add: peek_def addr_bytes_def numeral_eq_Suc bytes_at_Suc)
  note m = this [simplified]
  show ?thesis
  proof (rule bit_word_eqI)
    fix n assume n: "n < LENGTH(32)"
    consider "n < 8" | "8 \<le> n" "n < 16" | "16 \<le> n" "n < 24" | "24 \<le> n" "n < 32" using n by fastforce
    then show "bit (load32 (octet (lwm g)) a) n = bit x n"
      by cases (auto simp: load32_def m bit_simps)
  qed
qed

definition arp_frame :: "u8 list \<Rightarrow> u8 list \<Rightarrow> u8 \<Rightarrow> u8 list \<Rightarrow> u32 \<Rightarrow> u8 list \<Rightarrow> u32 \<Rightarrow> u8 list" where
  "arp_frame dst src opcode sha spa tha tpa =
     dst @ src @ [8, 6, 0, 1, 8, 0, 6, 4, 0, opcode] @ sha @ addr_bytes spa @ tha @ addr_bytes tpa"

lemma length_frame: "length dst = 6 \<Longrightarrow> length src = 6 \<Longrightarrow> length sha = 6 \<Longrightarrow> length tha = 6 \<Longrightarrow> length (arp_frame dst src op sha spa tha tpa) = 42"
  by (simp add: arp_frame_def addr_bytes_def)

lemma htons_bytes: "u16_bytes (lwip_htons 2) = [0, 2]" "lwip_htons 1 = 256" "lwip_htons 2048 = 8"
  by (simp_all add: u16_bytes_def lwip_htons_def)

text \<open>The fields of a frame.\<close>

lemma frame_fields:
  assumes "peek a 42 g = arp_frame dst src op sha spa tha tpa" "length dst = 6" "length src = 6" "length sha = 6" "length tha = 6"
  shows "\<not> bad_arp_header (octet (lwm g)) (a + 14)" "load16 (octet (lwm g)) (a + 20) = push_bit 8 (ucast op)"
    "peek (a + 14 + 8) 6 g = sha" "load32 (octet (lwm g)) (a + 14 + 14) = spa" "load32 (octet (lwm g)) (a + 14 + 24) = tpa"
proof -
  have part: "peek (a + k) n g = take n (drop k (arp_frame dst src op sha spa tha tpa))" if "k + n \<le> 42" for k n
    using peek_part [OF that, of a g] assms(1) by simp
  have l: "length (addr_bytes x) = 4" for x by (simp add: addr_bytes_def)
  have f: "peek (a + 14) 2 g = [0, 1]" "peek (a + 16) 2 g = [8, 0]" "peek (a + 18) 2 g = [6, 4]" "peek (a + 20) 2 g = [0, op]"
    "peek (a + 22) 6 g = sha" "peek (a + 28) 4 g = addr_bytes spa" "peek (a + 38) 4 g = addr_bytes tpa"
    by (simp_all add: part arp_frame_def assms(2-5) l)
  have b: "octet (lwm g) (a + 14 + 4) = 6" "octet (lwm g) (a + 14 + 5) = 4"
    using f(3) by (simp_all add: peek_def numeral_2_eq_2 bytes_at_Suc ac_simps)
  have h: "load16 (octet (lwm g)) (a + 14) = 256" "load16 (octet (lwm g)) (a + 16) = 8"
    using load16_peek [OF f(1)] load16_peek [OF f(2)] by simp_all
  show "\<not> bad_arp_header (octet (lwm g)) (a + 14)" using b h by (simp add: bad_arp_header_def htons_bytes ac_simps)
  show "load16 (octet (lwm g)) (a + 20) = push_bit 8 (ucast op)" using load16_peek [OF f(4)] by simp
  show "peek (a + 14 + 8) 6 g = sha" using f(5) by (simp add: add.assoc)
  show "load32 (octet (lwm g)) (a + 14 + 14) = spa" using load32_addr [OF f(6)] by (simp add: add.assoc)
  show "load32 (octet (lwm g)) (a + 14 + 24) = tpa" using load32_addr [OF f(7)] by (simp add: add.assoc)
qed

lemma list_of_6: "length xs = 6 \<Longrightarrow> \<exists>a b c d e f. xs = [a, b, c, d, e, f]"
  by (auto simp: numeral_eq_Suc length_Suc_conv)

lemma addr_bytes_4: "\<exists>a b c d. addr_bytes x = [a, b, c, d]"
  by (simp add: addr_bytes_def)

lemma make_reply_bytes:
  assumes "peek a 42 g = arp_frame dst src op sha spa tha tpa" "length dst = 6" "length src = 6" "length sha = 6" "length tha = 6" "length hw = 6"
  shows "peek a 42 (make_reply hw ip a g) = arp_frame sha hw 2 hw ip sha spa"
proof -
  obtain d0 d1 d2 d3 d4 d5 where d: "dst = [d0, d1, d2, d3, d4, d5]" using list_of_6 [OF assms(2)] by blast
  obtain s0 s1 s2 s3 s4 s5 where s: "src = [s0, s1, s2, s3, s4, s5]" using list_of_6 [OF assms(3)] by blast
  obtain h0 h1 h2 h3 h4 h5 where h: "sha = [h0, h1, h2, h3, h4, h5]" using list_of_6 [OF assms(4)] by blast
  obtain t0 t1 t2 t3 t4 t5 where t: "tha = [t0, t1, t2, t3, t4, t5]" using list_of_6 [OF assms(5)] by blast
  obtain w0 w1 w2 w3 w4 w5 where w: "hw = [w0, w1, w2, w3, w4, w5]" using list_of_6 [OF assms(6)] by blast
  obtain p0 p1 p2 p3 where p: "addr_bytes spa = [p0, p1, p2, p3]" using addr_bytes_4 by blast
  obtain q0 q1 q2 q3 where q: "addr_bytes tpa = [q0, q1, q2, q3]" using addr_bytes_4 by blast
  obtain i0 i1 i2 i3 where i: "addr_bytes ip = [i0, i1, i2, i3]" using addr_bytes_4 by blast
  note F = assms(1) [unfolded arp_frame_def d s h t p q append.simps]
  define g1 where "g1 = poke (a + 20) [0, 2] g"
  have F1: "peek a 42 g1 = [d0, d1, d2, d3, d4, d5, s0, s1, s2, s3, s4, s5, 8, 6, 0, 1, 8, 0, 6, 4, 0, 2,
      h0, h1, h2, h3, h4, h5, p0, p1, p2, p3, t0, t1, t2, t3, t4, t5, q0, q1, q2, q3]"
    unfolding g1_def by (subst peek_poke, simp, subst F, simp add: splice_def)
  define g2 where "g2 = poke (a + 38) (peek (a + 28) 4 g1) g1"
  have F2: "peek a 42 g2 = [d0, d1, d2, d3, d4, d5, s0, s1, s2, s3, s4, s5, 8, 6, 0, 1, 8, 0, 6, 4, 0, 2,
      h0, h1, h2, h3, h4, h5, p0, p1, p2, p3, t0, t1, t2, t3, t4, t5, p0, p1, p2, p3]"
    unfolding g2_def by (subst peek_part [where l = 42], simp, subst F1, subst peek_poke, simp, subst F1, simp add: splice_def)
  define g3 where "g3 = poke (a + 28) [i0, i1, i2, i3] g2"
  have F3: "peek a 42 g3 = [d0, d1, d2, d3, d4, d5, s0, s1, s2, s3, s4, s5, 8, 6, 0, 1, 8, 0, 6, 4, 0, 2,
      h0, h1, h2, h3, h4, h5, i0, i1, i2, i3, t0, t1, t2, t3, t4, t5, p0, p1, p2, p3]"
    unfolding g3_def by (subst peek_poke, simp, subst F2, simp add: splice_def)
  define g4 where "g4 = poke (a + 32) (peek (a + 22) 6 g3) g3"
  have F4: "peek a 42 g4 = [d0, d1, d2, d3, d4, d5, s0, s1, s2, s3, s4, s5, 8, 6, 0, 1, 8, 0, 6, 4, 0, 2,
      h0, h1, h2, h3, h4, h5, i0, i1, i2, i3, h0, h1, h2, h3, h4, h5, p0, p1, p2, p3]"
    unfolding g4_def by (subst peek_part [where l = 42], simp, subst F3, subst peek_poke, simp, subst F3, simp add: splice_def)
  define g5 where "g5 = poke (a + 0) (peek (a + 22) 6 g4) g4"
  have F5: "peek a 42 g5 = [h0, h1, h2, h3, h4, h5, s0, s1, s2, s3, s4, s5, 8, 6, 0, 1, 8, 0, 6, 4, 0, 2,
      h0, h1, h2, h3, h4, h5, i0, i1, i2, i3, h0, h1, h2, h3, h4, h5, p0, p1, p2, p3]"
    unfolding g5_def by (subst peek_part [where l = 42], simp, subst F4, subst peek_poke, simp, subst F4, simp add: splice_def)
  define g6 where "g6 = poke (a + 22) hw g5"
  have F6: "peek a 42 g6 = [h0, h1, h2, h3, h4, h5, s0, s1, s2, s3, s4, s5, 8, 6, 0, 1, 8, 0, 6, 4, 0, 2,
      w0, w1, w2, w3, w4, w5, i0, i1, i2, i3, h0, h1, h2, h3, h4, h5, p0, p1, p2, p3]"
    unfolding g6_def w by (subst peek_poke, simp, subst F5, simp add: splice_def)
  have r: "make_reply hw ip a g = poke (a + 6) hw g6"
    by (simp add: make_reply_def Let_def g1_def g2_def g3_def g4_def g5_def g6_def htons_bytes i add.assoc)
  show ?thesis
    unfolding r by (subst peek_poke, simp add: assms(6), subst F6, simp add: splice_def arp_frame_def w h i p)
qed


section \<open>Answering\<close>

lemma update_no_queue:
  assumes "arp_ok g" "no_queue (arp_table g)" "nif_hwaddr_len (netifs g nif) = 6"
    "\<not> (ip = IPADDR_ANY \<or> ip4_addr_isbroadcast ip (netifs g nif) \<or> ip_addr_ismulticast ip)"
  shows "\<exists>k h. k < 10 \<and> etharp_update_arp_entry out nif ip eth ETHARP_FLAG_TRY_HARD g = Some (ERR_OK, h)
    \<and> lwm h = lwm g \<and> netifs h = netifs g \<and> is_stable (e_state (arp_table h ! k)) \<and> e_ipaddr (arp_table h ! k) = ip
    \<and> e_ethaddr (arp_table h ! k) = eth \<and> e_ctime (arp_table h ! k) = 0"
proof -
  have len: "length (arp_table g) = 10" using assms(1) by (simp add: arp_ok_def tab_ok_def)
  note spec = find_entry_spec [OF assms(1), of ip ETHARP_FLAG_TRY_HARD]
  obtain k f where f: "k < 10" "etharp_find_entry (Some ip) ETHARP_FLAG_TRY_HARD g = Some (int k, f)" "lwm f = lwm g" "netifs f = netifs g"
    "length (arp_table f) = 10" "e_ipaddr (arp_table f ! k) = ip" "e_q (arp_table f ! k) = NULL"
  proof (cases "no_match (Some ip) (arp_table g)")
    case False
    then obtain k where k: "k < 10" "\<not> is_empty (arp_table g ! k)" "e_ipaddr (arp_table g ! k) = ip"
      by (auto simp: no_match_def in_set_conv_nth len)
    have "etharp_find_entry (Some ip) ETHARP_FLAG_TRY_HARD g = Some (int k, g)" using spec k by blast
    then show thesis using that k assms(2) len by (simp add: no_queue_def)
  next
    case True
    then obtain k where k: "k < 10" "etharp_find_entry (Some ip) ETHARP_FLAG_TRY_HARD g =
        map_option (\<lambda>h. (int k, upd_entry k (new_entry ip) h)) (if is_empty (arp_table g ! k) then Some g else etharp_free_entry k g)"
      using spec by blast
    have q: "e_q (arp_table g ! k) = NULL" using assms(2) k(1) len by (simp add: no_queue_def)
    show thesis
    proof (cases "is_empty (arp_table g ! k)")
      case True
      then show thesis using that [OF k(1), of "upd_entry k (new_entry ip) g"] k q len by (simp add: new_entry_def)
    next
      case False
      then show thesis using that [OF k(1), of "upd_entry k (new_entry ip) (upd_entry k clear_entry g)"] k q len
        by (simp add: new_entry_def free_entry_no_queue)
    qed
  qed
  have u: "etharp_update_arp_entry out nif ip eth ETHARP_FLAG_TRY_HARD g = update_entry k out nif eth f"
    using assms(3,4) f(2) by (simp add: etharp_update_arp_entry_def)
  show ?thesis unfolding u
    by (rule exI [of _ k], rule exI [of _ "upd_entry k (\<lambda>e. e\<lparr>e_state := ETHARP_STATE_STABLE, e_netif := nif, e_ethaddr := eth, e_ctime := 0\<rparr>) f"])
      (use f in \<open>simp add: update_entry_def\<close>)
qed

text \<open>
  C35: a request for our address is answered in its own buffer: the frame that goes to the link is
  addressed to the sender of the request, is a reply from our addresses to its, and leaves nothing
  else in memory changed; afterwards the cache knows the sender, and the buffer is freed.
\<close>

theorem arp_request_answered:
  fixes g :: "('d, 'm) eth_scheme" and nif p :: ptr
  defines "us \<equiv> nif_ip_addr (netifs g nif)" and "hw \<equiv> nif_hwaddr (netifs g nif)" and "a \<equiv> payload_of p g"
  assumes "arp_ok g" "no_queue (arp_table g)" "nif \<noteq> NULL" "42 \<le> pb_len (pbufs (lwm g) p)" "nif_hwaddr_len (netifs g nif) = 6" "length hw = 6"
    "us \<noteq> IPADDR_ANY" "peek a 42 g = arp_frame dst src 1 sha spa tha us" "length dst = 6" "length src = 6" "length sha = 6" "length tha = 6"
    "\<not> (spa = IPADDR_ANY \<or> ip4_addr_isbroadcast spa (netifs g nif) \<or> ip_addr_ismulticast spa)"
  shows "\<exists>h. etharp_arp_input out nif p g = Option.bind (out nif p h) (\<lambda>(_, h). free_in p h)
    \<and> peek a 42 h = arp_frame sha hw 2 hw us sha spa
    \<and> pbufs (lwm h) = pbufs (lwm g) \<and> (\<forall>x. x \<notin> {a..<a + 42} \<longrightarrow> octet (lwm h) x = octet (lwm g) x)
    \<and> (\<exists>k<10. is_stable (e_state (arp_table h ! k)) \<and> e_ipaddr (arp_table h ! k) = spa \<and> e_ethaddr (arp_table h ! k) = sha
          \<and> e_ctime (arp_table h ! k) = 0)"
proof -
  obtain k f where f: "k < 10" "etharp_update_arp_entry out nif spa sha ETHARP_FLAG_TRY_HARD g = Some (ERR_OK, f)" "lwm f = lwm g" "netifs f = netifs g"
    "is_stable (e_state (arp_table f ! k))" "e_ipaddr (arp_table f ! k) = spa" "e_ethaddr (arp_table f ! k) = sha" "e_ctime (arp_table f ! k) = 0"
    using update_no_queue [OF assms(4,5,8,16), of out sha] by blast
  note fields = frame_fields [OF assms(11-15)]
  define h where "h = make_reply hw us a f"
  have fu: "for_us nif p g" using assms(10) fields(5) by (simp add: for_us_def us_def a_def)
  have pf: "peek b n f = peek b n g" for b n by (simp add: peek_def f(3))
  have "etharp_arp_input out nif p g = arp_act out nif hw p a True f"
    using arp_input_run [of nif g p out] assms(6,7) fields(1,3,4) fu f(2,4)
    by (simp add: not_less a_def [symmetric] hw_def)
  moreover have "load16 (octet (lwm f)) (a + 20) = lwip_htons ARP_REQUEST" using fields(2) by (simp add: f(3) htons_bytes)
  moreover have hs: "netifs h = netifs f" "arp_table h = arp_table f" "etharp_cached_entry h = etharp_cached_entry f"
    using make_reply_same [of f hw us a] by (simp_all add: h_def same_arp_def)
  ultimately have run: "etharp_arp_input out nif p g = Option.bind (out nif p h) (\<lambda>(_, h). free_in p h)"
    using assms(8) f(4) unfolding arp_act_def Let_def by (simp add: h_def us_def)
  have bytes: "peek a 42 h = arp_frame sha hw 2 hw us sha spa"
    unfolding h_def by (rule make_reply_bytes [OF _ assms(12-15,9)]) (use assms(11) pf in simp)
  have pb: "pbufs (lwm h) = pbufs (lwm g)" by (simp add: h_def make_reply_def Let_def f(3))
  have po: "octet (lwm (poke b bs u)) x = octet (lwm u) x" if "x \<notin> {a..<a + 42}" "a \<le> b" "b + length bs \<le> a + 42" for b bs x and u :: "('d, 'm) eth_scheme"
    using that by (auto simp: poke_def intro!: store_bytes_outside)
  have "octet (lwm h) x = octet (lwm g) x" if "x \<notin> {a..<a + 42}" for x
    unfolding h_def make_reply_def Let_def by (simp add: po [OF that] peek_def assms(9) addr_bytes_def u16_bytes_def f(3))
  then show ?thesis using run bytes pb f hs by (intro exI [of _ h] conjI allI impI exI [of _ k]) simp_all
qed


definition demo_request :: "u8 list" where
  "demo_request = arp_frame ethbroadcast [2, 2, 2, 2, 2, 2] 1 [2, 2, 2, 2, 2, 2] 0x0300000a ethzero 0x0200000a"

lemma arp_request_answered_witness:
  "\<exists>h. etharp_arp_input (\<lambda>_ _ g. Some (0, g)) 1 300 (poke 700 demo_request demo_eth) = free_in 300 h
    \<and> peek 700 42 h = arp_frame [2, 2, 2, 2, 2, 2] [1, 1, 1, 1, 1, 1] 2 [1, 1, 1, 1, 1, 1] 0x0200000a [2, 2, 2, 2, 2, 2] 0x0300000a"
proof -
  define g where "g = poke 700 demo_request demo_eth"
  have l: "length demo_request = 42" by (simp add: demo_request_def length_frame ethbroadcast_def ethzero_def)
  have n: "netifs g 1 = netifs demo_eth 1" "pbufs (lwm g) 300 = pbufs (lwm demo_eth) 300" "arp_table g = arp_table demo_eth"
    "etharp_cached_entry g = etharp_cached_entry demo_eth"
    by (simp_all add: g_def)
  have a: "payload_of 300 g = 700" by (simp add: payload_of_def n demo_eth_sel)
  have "peek 700 42 g = demo_request" using bytes_store [of 700 demo_request] by (simp add: g_def peek_def poke_def l)
  then have F: "peek (payload_of 300 g) 42 g = arp_frame ethbroadcast [2, 2, 2, 2, 2, 2] 1 [2, 2, 2, 2, 2, 2] 0x0300000a ethzero (nif_ip_addr (netifs g 1))"
    by (simp only: a n demo_eth_sel demo_request_def)
  have ok: "arp_ok g" "no_queue (arp_table g)" using demo_eth by (simp_all add: arp_ok_def n)
  have u: "\<not> (0x0300000a = IPADDR_ANY \<or> ip4_addr_isbroadcast 0x0300000a (netifs g 1) \<or> ip_addr_ismulticast 0x0300000a)"
    unfolding n ip4_addr_isbroadcast_def demo_eth_sel by (simp add: ip_addr_ismulticast_def lwip_htonl_def)
  have s: "(1 :: ptr) \<noteq> NULL" "42 \<le> pb_len (pbufs (lwm g) 300)" "nif_hwaddr_len (netifs g 1) = 6" "length (nif_hwaddr (netifs g 1)) = 6"
    "nif_ip_addr (netifs g 1) \<noteq> IPADDR_ANY" unfolding n demo_eth_sel by simp_all
  have len: "length ethbroadcast = 6" "length [2, 2, 2, 2, 2, 2 :: u8] = 6" "length ethzero = 6" by (simp_all add: ethbroadcast_def ethzero_def)
  obtain h where h: "etharp_arp_input (\<lambda>_ _ g. Some (0, g)) 1 300 g = Option.bind (Some (0 :: int, h)) (\<lambda>(_, h). free_in 300 h)"
    "peek (payload_of 300 g) 42 h = arp_frame [2, 2, 2, 2, 2, 2] (nif_hwaddr (netifs g 1)) 2 (nif_hwaddr (netifs g 1)) (nif_ip_addr (netifs g 1)) [2, 2, 2, 2, 2, 2] 0x0300000a"
    using arp_request_answered [OF ok s F len(1,2,2,3) u, of "\<lambda>_ _ g. Some (0, g)"] by blast
  show ?thesis using h unfolding g_def [symmetric] a n demo_eth_sel by (intro exI [of _ h]) simp
qed

end
