(* ===== verification/Ip_Out.thy ===== *)
theory Ip_Out
  imports Etharp_IO Inet_Chksum
begin

text \<open>
  Sending IP packets: \<open>ip_route\<close>, \<open>ip_output_if\<close> and \<open>ip_output\<close> of \<open>core/ipv4/ip.c\<close> and
  \<open>ip_frag\<close> of \<open>core/ipv4/ip_frag.c\<close>, with a static buffer for fragments, without loopback,
  IP options on sending and hints. \<open>ifout\<close> is the function pointer \<open>netif->output\<close>, which the
  program sets to \<open>etharp_output\<close>; \<open>frag_buf\<close> is the aligned address of the array \<open>buf\<close>.
  An IP header at \<open>h\<close> has its length at \<open>h + 2\<close>, identification at 4, fragment field at 6,
  time to live at 8, protocol at 9, checksum at 10 and addresses at 12 and 16.
\<close>

abbreviation (input) IP_HLEN :: nat where "IP_HLEN \<equiv> 20"
abbreviation (input) IP_PROTO_ICMP :: u8 where "IP_PROTO_ICMP \<equiv> 1"
abbreviation (input) IP_PROTO_UDP :: u8 where "IP_PROTO_UDP \<equiv> 17"
abbreviation (input) IP_MF :: u16 where "IP_MF \<equiv> 0x2000"
abbreviation (input) IP_OFFMASK :: u16 where "IP_OFFMASK \<equiv> 0x1fff"
abbreviation (input) NETIF_FLAG_UP :: u8 where "NETIF_FLAG_UP \<equiv> 1"

record 'd ip = "'d eth" +
  ip_id :: u16
  current_netif :: ptr
  current_header :: ptr
  current_iphdr_src :: u32
  current_iphdr_dest :: u32

type_synonym ('d, 'm) ifout = "ptr \<Rightarrow> ptr \<Rightarrow> u32 \<Rightarrow> ('d, 'm) ip_scheme \<Rightarrow> (int \<times> ('d, 'm) ip_scheme) option"

definition netif_is_up :: "netif \<Rightarrow> bool" where
  "netif_is_up nif \<longleftrightarrow> nif_flags nif AND NETIF_FLAG_UP \<noteq> 0"

section \<open>Routes\<close>

partial_function (option) route_loop :: "u32 \<Rightarrow> ptr \<Rightarrow> ('d, 'm) eth_scheme \<Rightarrow> ptr option" where
  "route_loop dest nif g =
     (if nif \<noteq> NULL
      then if netif_is_up (netifs g nif) \<and> ip_addr_netcmp dest (nif_ip_addr (netifs g nif)) (nif_netmask (netifs g nif)) then Some nif
           else route_loop dest (nif_next (netifs g nif)) g
      else Some NULL)"

definition ip_route :: "u32 \<Rightarrow> ('d, 'm) eth_scheme \<Rightarrow> ptr option" where
  "ip_route dest g =
     map_option (\<lambda>nif. if nif \<noteq> NULL then nif
                        else if netif_default g = NULL \<or> \<not> netif_is_up (netifs g (netif_default g)) then NULL
                        else netif_default g)
       (route_loop dest (netif_list g) g)"

section \<open>Fragments\<close>

definition move_header :: "ptr \<Rightarrow> u16 \<Rightarrow> ('d, 'm) gw_scheme \<Rightarrow> (u8 \<times> ('d, 'm) gw_scheme) option" where
  "move_header p n g = map_option (\<lambda>(r, w). (r, g\<lparr>lwm := w\<rparr>)) (pbuf_header p n (lwm g))"

text \<open>Setting the checksum of the header at \<open>h\<close>.\<close>

definition set_hdr_chksum :: "ptr \<Rightarrow> ('d, 'm) gw_scheme \<Rightarrow> ('d, 'm) gw_scheme" where
  "set_hdr_chksum h g =
     (let g = poke (h + 10) [0, 0] g
      in poke (h + 10) (u16_bytes (inet_chksum (octet (lwm g)) h 20)) g)"

text \<open>Sending one fragment behind a header buffer of its own; the result is whether there was memory.\<close>

definition send_frag :: "('d, 'm) ifout \<Rightarrow> ptr \<Rightarrow> ptr \<Rightarrow> u32 \<Rightarrow> ('d, 'm) ip_scheme \<Rightarrow> (bool \<times> ('d, 'm) ip_scheme) option" where
  "send_frag ifout rambuf nif dest g =
     (case pbuf_alloc PBUF_LINK 0 PBUF_RAM (lwm g) of
        None \<Rightarrow> None
      | Some (header, w) \<Rightarrow>
          if header \<noteq> NULL
          then Option.bind (pbuf_chain header rambuf w)
            (\<lambda>w. Option.bind (ifout nif header dest (g\<lparr>lwm := w\<rparr>))
              (\<lambda>(_, g). map_option (Pair True) (free_in header g)))
          else map_option (Pair False) (free_in rambuf (g\<lparr>lwm := w\<rparr>)))"

partial_function (option) frag_loop ::
  "('d, 'm) ifout \<Rightarrow> ptr \<Rightarrow> ptr \<Rightarrow> ptr \<Rightarrow> ptr \<Rightarrow> u32 \<Rightarrow> u16 \<Rightarrow> u16 \<Rightarrow> u16 \<Rightarrow> u16 \<Rightarrow> u16 \<Rightarrow> u16 \<Rightarrow> ('d, 'm) ip_scheme
    \<Rightarrow> (int \<times> ('d, 'm) ip_scheme) option" where
  "frag_loop ifout p rambuf iphdr nif dest mtu nfb omf ofo left poff g =
     (if left \<noteq> 0
      then let last = (int (unat left) \<le> int (unat mtu) - 20);
               tmp = omf OR (IP_OFFMASK AND ofo);
               tmp = (if \<not> last then tmp OR IP_MF else tmp);
               cop = (if last then left else nfb * 8)
           in case pbuf_copy_partial p (iphdr + 20) cop poff (lwm g) of
                None \<Rightarrow> None
              | Some (n, w) \<Rightarrow>
                  let g = g\<lparr>lwm := w\<rparr>;
                      g = poke (iphdr + 6) (u16_bytes (lwip_htons tmp)) g;
                      g = poke (iphdr + 2) (u16_bytes (lwip_htons (cop + 20))) g;
                      g = set_hdr_chksum iphdr g
                  in case (if last then pbuf_realloc rambuf (left + 20) (lwm g) else Some (lwm g)) of
                       None \<Rightarrow> None
                     | Some w \<Rightarrow>
                         Option.bind (send_frag ifout rambuf nif dest (g\<lparr>lwm := w\<rparr>))
                           (\<lambda>(sent, g). if \<not> sent then Some (ERR_MEM, g)
                              else frag_loop ifout p rambuf iphdr nif dest mtu nfb omf (ofo + nfb) (left - cop) (poff + n) g)
      else map_option (Pair ERR_OK) (free_in rambuf g))"

definition ip_frag :: "('d, 'm) ifout \<Rightarrow> ptr \<Rightarrow> ptr \<Rightarrow> ptr \<Rightarrow> u32 \<Rightarrow> ('d, 'm) ip_scheme \<Rightarrow> (int \<times> ('d, 'm) ip_scheme) option" where
  "ip_frag ifout frag_buf p nif dest g =
     (case pbuf_alloc PBUF_LINK 0 PBUF_REF (lwm g) of
        None \<Rightarrow> None
      | Some (rambuf, w) \<Rightarrow>
          if rambuf = NULL then Some (ERR_MEM, g\<lparr>lwm := w\<rparr>)
          else let mtu = nif_mtu (netifs g nif);
                   g = g\<lparr>lwm := upd_pbuf rambuf (\<lambda>b. b\<lparr>pb_len := mtu, tot_len := mtu, payload := frag_buf\<rparr>) w\<rparr>;
                   g = poke frag_buf (peek (payload_of p g) 20 g) g;
                   tmp = lwip_ntohs (load16 (octet (lwm g)) (frag_buf + 6));
                   ofo = tmp AND IP_OFFMASK;
                   omf = tmp AND IP_MF;
                   left = tot_len (pbufs (lwm g) p) - 20;
                   d = int (unat mtu) - 20;
                   nfb = word_of_int (if d \<ge> 0 then d div 8 else - ((- d) div 8))
               in frag_loop ifout p rambuf frag_buf nif dest mtu nfb omf ofo left 20 g)"

section \<open>The header\<close>

definition make_u16 :: "u8 \<Rightarrow> u8 \<Rightarrow> u32" where
  "make_u16 a b = push_bit 8 (ucast b) OR ucast a"

definition add_addr :: "u32 \<Rightarrow> u32 \<Rightarrow> u32" where
  "add_addr a chk = chk + (a AND 0xffff) + drop_bit 16 a"

definition fold_chksum :: "u32 \<Rightarrow> u16" where
  "fold_chksum chk =
     (let chk = drop_bit 16 chk + (chk AND 0xffff);
          chk = drop_bit 16 chk + chk
      in ucast (NOT chk))"

text \<open>Writing the header at \<open>h\<close>, with the sum for its checksum on the way.\<close>

definition write_iphdr :: "ptr \<Rightarrow> ptr \<Rightarrow> u32 \<Rightarrow> u32 \<Rightarrow> u8 \<Rightarrow> u8 \<Rightarrow> u8 \<Rightarrow> ptr \<Rightarrow> ('d, 'm) ip_scheme \<Rightarrow> ('d, 'm) ip_scheme" where
  "write_iphdr h p src dest ttl tos proto nif g =
     (let g = poke (h + 8) [ttl] g;
          g = poke (h + 9) [proto] g;
          chk = make_u16 proto ttl;
          g = poke (h + 16) (addr_bytes dest) g;
          chk = add_addr dest chk;
          g = poke h [0x45] g;
          g = poke (h + 1) [tos] g;
          chk = chk + make_u16 tos 0x45;
          len = lwip_htons (tot_len (pbufs (lwm g) p));
          g = poke (h + 2) (u16_bytes len) g;
          chk = chk + ucast len;
          g = poke (h + 6) [0, 0] g;
          ident = lwip_htons (ip_id g);
          g = poke (h + 4) (u16_bytes ident) g;
          chk = chk + ucast ident;
          g = g\<lparr>ip_id := ip_id g + 1\<rparr>;
          src = (if src = IPADDR_ANY then nif_ip_addr (netifs g nif) else src);
          g = poke (h + 12) (addr_bytes src) g;
          chk = add_addr src chk
      in poke (h + 10) (u16_bytes (fold_chksum chk)) g)"

text \<open>\<open>dest\<close> is \<open>None\<close> for \<open>IP_HDRINCL\<close>: the packet has its header already. A \<open>src\<close> of \<open>NULL\<close> is 0.\<close>

definition ip_output_if ::
  "('d, 'm) ifout \<Rightarrow> ptr \<Rightarrow> ptr \<Rightarrow> u32 \<Rightarrow> u32 option \<Rightarrow> u8 \<Rightarrow> u8 \<Rightarrow> u8 \<Rightarrow> ptr \<Rightarrow> ('d, 'm) ip_scheme \<Rightarrow> (int \<times> ('d, 'm) ip_scheme) option" where
  "ip_output_if ifout frag_buf p src dest ttl tos proto nif g =
     (if pb_ref (pbufs (lwm g) p) \<noteq> 1 then None
      else let send = (\<lambda>dest g. if nif_mtu (netifs g nif) \<noteq> 0 \<and> tot_len (pbufs (lwm g) p) > nif_mtu (netifs g nif)
                        then ip_frag ifout frag_buf p nif dest g else ifout nif p dest g)
           in case dest of
                None \<Rightarrow> send (load32 (octet (lwm g)) (payload_of p g + 16)) g
              | Some dest \<Rightarrow>
                  (case move_header p 20 g of
                     None \<Rightarrow> None
                   | Some (r, g) \<Rightarrow>
                       if r \<noteq> 0 then Some (ERR_BUF, g)
                       else if pb_len (pbufs (lwm g) p) < 20 then None
                       else send dest (write_iphdr (payload_of p g) p src dest ttl tos proto nif g)))"

definition ip_output ::
  "('d, 'm) ifout \<Rightarrow> ptr \<Rightarrow> ptr \<Rightarrow> u32 \<Rightarrow> u32 \<Rightarrow> u8 \<Rightarrow> u8 \<Rightarrow> u8 \<Rightarrow> ('d, 'm) ip_scheme \<Rightarrow> (int \<times> ('d, 'm) ip_scheme) option" where
  "ip_output ifout frag_buf p src dest ttl tos proto g =
     (if pb_ref (pbufs (lwm g) p) \<noteq> 1 then None
      else case ip_route dest g of
             None \<Rightarrow> None
           | Some nif \<Rightarrow>
               if nif = NULL then Some (ERR_RTE, g)
               else ip_output_if ifout frag_buf p src (Some dest) ttl tos proto nif g)"

end
