(* ===== verification/Icmp.thy ===== *)
theory Icmp
  imports Ip_Out
begin

text \<open>
  \<open>core/ipv4/icmp.c\<close>: answering echo requests and reporting errors. An echo header has its type at
  0, its code at 1, its checksum at 2, its identifier at 4 and its sequence number at 6.
  \<open>p\<close> has its payload at the IP header when a function is entered.
\<close>

abbreviation (input) ICMP_ER :: u8 where "ICMP_ER \<equiv> 0"
abbreviation (input) ICMP_DUR :: u8 where "ICMP_DUR \<equiv> 3"
abbreviation (input) ICMP_ECHO :: u8 where "ICMP_ECHO \<equiv> 8"
abbreviation (input) ICMP_TE :: u8 where "ICMP_TE \<equiv> 11"
abbreviation (input) ICMP_TTL :: u8 where "ICMP_TTL \<equiv> 255"

section \<open>Echo\<close>

text \<open>The checksum of the reply from that of the request.\<close>

definition echo_chksum :: "u16 \<Rightarrow> u16" where
  "echo_chksum c =
     (if c \<ge> lwip_htons (0xffff - push_bit 8 8) then c + lwip_htons (push_bit 8 8) + 1
      else c + lwip_htons (push_bit 8 8))"

text \<open>Turning the request at \<open>iecho\<close>, with its IP header at \<open>iphdr\<close>, into the reply.\<close>

definition make_echo_reply :: "ptr \<Rightarrow> ptr \<Rightarrow> ('d, 'm) ip_scheme \<Rightarrow> ('d, 'm) ip_scheme" where
  "make_echo_reply iphdr iecho g =
     (let g = poke (iphdr + 12) (addr_bytes (current_iphdr_dest g)) g;
          g = poke (iphdr + 16) (addr_bytes (current_iphdr_src g)) g;
          g = poke iecho [ICMP_ER] g;
          g = poke (iecho + 2) (u16_bytes (echo_chksum (load16 (octet (lwm g)) (iecho + 2)))) g;
          g = poke (iphdr + 8) [ICMP_TTL] g
      in set_hdr_chksum iphdr g)"

text \<open>
  A buffer with room for the link header: \<open>p\<close> itself, or a copy of the whole packet in a new one.
  The result is the buffer and the address of its IP header; \<open>NULL\<close> when the copy fails.
\<close>

definition echo_buffer :: "ptr \<Rightarrow> u16 \<Rightarrow> ptr \<Rightarrow> ('d, 'm) ip_scheme \<Rightarrow> (ptr \<times> ptr \<times> ('d, 'm) ip_scheme) option" where
  "echo_buffer p hlen iphdr g =
     (case move_header p 34 g of
        None \<Rightarrow> None
      | Some (r, g) \<Rightarrow>
          if r \<noteq> 0
          then case move_header p hlen g of
                 None \<Rightarrow> None
               | Some (r, g) \<Rightarrow>
                   if r \<noteq> 0 then None
                   else case pbuf_alloc PBUF_LINK (tot_len (pbufs (lwm g) p)) PBUF_RAM (lwm g) of
                          None \<Rightarrow> None
                        | Some (q, w) \<Rightarrow>
                            if q = NULL then Some (NULL, NULL, g\<lparr>lwm := w\<rparr>)
                            else if unat (pb_len (pbufs w q)) < unat hlen + 8 then None
                            else case pbuf_copy q p w of
                                   None \<Rightarrow> None
                                 | Some (err, w) \<Rightarrow>
                                     if err \<noteq> ERR_OK then None
                                     else Option.bind (move_header q (- hlen) (g\<lparr>lwm := w\<rparr>))
                                       (\<lambda>(r, h). if r \<noteq> 0 then None
                                          else map_option (\<lambda>h. (q, payload (pbufs w q), h)) (free_in p h))
          else Option.bind (move_header p (- 34) g) (\<lambda>(r, g). if r \<noteq> 0 then None else Some (p, iphdr, g)))"

definition echo_reply :: "('d, 'm) ifout \<Rightarrow> ptr \<Rightarrow> ptr \<Rightarrow> ptr \<Rightarrow> u16 \<Rightarrow> ptr \<Rightarrow> ('d, 'm) ip_scheme \<Rightarrow> ('d, 'm) ip_scheme option" where
  "echo_reply ifout frag_buf p iphdr hlen inp g =
     (let g = make_echo_reply iphdr (payload_of p g) g
      in case move_header p hlen g of
           None \<Rightarrow> None
         | Some (r, g) \<Rightarrow>
             if r \<noteq> 0 then None
             else Option.bind (ip_output_if ifout frag_buf p (current_iphdr_dest g) None ICMP_TTL 0 IP_PROTO_ICMP inp g)
                    (\<lambda>(_, g). free_in p g))"

definition icmp_input :: "('d, 'm) ifout \<Rightarrow> ptr \<Rightarrow> ptr \<Rightarrow> ptr \<Rightarrow> ('d, 'm) ip_scheme \<Rightarrow> ('d, 'm) ip_scheme option" where
  "icmp_input ifout frag_buf p inp g =
     (let iphdr = payload_of p g;
          hlen = ucast (octet (lwm g) iphdr AND 0xf) * 4
      in case move_header p (- hlen) g of
           None \<Rightarrow> None
         | Some (r, g) \<Rightarrow>
             if r \<noteq> 0 \<or> tot_len (pbufs (lwm g) p) < 4 then free_in p g
             else if octet (lwm g) (payload_of p g) = ICMP_ECHO
             then if ip_addr_ismulticast (current_iphdr_dest g) \<or> ip4_addr_isbroadcast (current_iphdr_dest g) (netifs g inp)
                  then free_in p g
                  else if tot_len (pbufs (lwm g) p) < 8 then free_in p g
                  else case inet_chksum_pbuf (lwm g) p of
                         None \<Rightarrow> None
                       | Some c \<Rightarrow>
                           if c \<noteq> 0 then free_in p g
                           else case echo_buffer p hlen iphdr g of
                                  None \<Rightarrow> None
                                | Some (q, iphdr, g) \<Rightarrow>
                                    if q = NULL then free_in p g
                                    else echo_reply ifout frag_buf q iphdr hlen inp g
             else free_in p g)"

section \<open>Errors\<close>

definition icmp_send_response :: "('d, 'm) ifout \<Rightarrow> ptr \<Rightarrow> ptr \<Rightarrow> u8 \<Rightarrow> u8 \<Rightarrow> ('d, 'm) ip_scheme \<Rightarrow> ('d, 'm) ip_scheme option" where
  "icmp_send_response ifout frag_buf p ty code g =
     (case pbuf_alloc PBUF_IP 36 PBUF_RAM (lwm g) of
        None \<Rightarrow> None
      | Some (q, w) \<Rightarrow>
          if q = NULL then Some (g\<lparr>lwm := w\<rparr>)
          else if pb_len (pbufs w q) < 36 then None
          else let g = g\<lparr>lwm := w\<rparr>;
                   iphdr = payload_of p g;
                   icmphdr = payload_of q g;
                   g = poke icmphdr [ty] g;
                   g = poke (icmphdr + 1) [code] g;
                   g = poke (icmphdr + 4) [0, 0] g;
                   g = poke (icmphdr + 6) [0, 0] g;
                   g = poke (icmphdr + 8) (peek iphdr 28 g) g;
                   g = poke (icmphdr + 2) [0, 0] g;
                   g = poke (icmphdr + 2) (u16_bytes (inet_chksum (octet (lwm g)) icmphdr (pb_len (pbufs (lwm g) q)))) g
               in Option.bind (ip_output ifout frag_buf q 0 (load32 (octet (lwm g)) (iphdr + 12)) ICMP_TTL 0 IP_PROTO_ICMP g)
                    (\<lambda>(_, g). free_in q g))"

definition icmp_dest_unreach :: "('d, 'm) ifout \<Rightarrow> ptr \<Rightarrow> ptr \<Rightarrow> u8 \<Rightarrow> ('d, 'm) ip_scheme \<Rightarrow> ('d, 'm) ip_scheme option" where
  "icmp_dest_unreach ifout frag_buf p t g = icmp_send_response ifout frag_buf p ICMP_DUR t g"

definition icmp_time_exceeded :: "('d, 'm) ifout \<Rightarrow> ptr \<Rightarrow> ptr \<Rightarrow> u8 \<Rightarrow> ('d, 'm) ip_scheme \<Rightarrow> ('d, 'm) ip_scheme option" where
  "icmp_time_exceeded ifout frag_buf p t g = icmp_send_response ifout frag_buf p ICMP_TE t g"

end
