(* ===== verification/Icmp_Props.thy ===== *)
theory Icmp_Props
  imports Icmp Etharp_Reply Inet_Chksum_Props
begin

text \<open>
  The header that \<open>ip_output_if\<close> writes, and the answer to an echo request: what becomes of the
  addresses and the checksums when a packet is turned round in place.
\<close>

section \<open>Sums of bytes\<close>

lemma wsum_u16: "wsum (u16_bytes x @ bs) = 256 * (unat x mod 256) + unat x div 256 + wsum bs"
proof -
  have "unat x < 65536" using unsigned_less [of x, where 'a = nat] by simp
  then have "unat x div 256 < 256" by linarith
  then show ?thesis by (simp add: u16_bytes_def unat_low8 unat_drop_bit_eq drop_bit_eq_div unat_div_distrib)
qed

lemma ones_u16: "ones (wsum (u16_bytes x @ bs)) = ones (256 * unat x + wsum bs)"
proof -
  have "unat x \<le> 65535" using unsigned_less [of x, where 'a = nat] by simp
  from swap_nat [OF this] show ?thesis unfolding wsum_u16 by (simp only: ones_add)
qed

lemma wsum_0: "wsum bs = 0 \<longleftrightarrow> set bs \<subseteq> {0}"
  by (induction bs rule: wsum.induct) (auto simp: unat_eq_0)

lemma chksum_0: "inet_chksum m a len = 0 \<longleftrightarrow> 0 < wsum (bytes_at m a (unat len)) \<and> wsum (bytes_at m a (unat len)) mod 65535 = 0"
proof -
  let ?s = "wsum (bytes_at m a (unat len))"
  have "inet_chksum m a len = 0 \<longleftrightarrow> unat (inet_chksum m a len) = 0" by (simp add: unat_eq_0)
  also have "\<dots> \<longleftrightarrow> ones (256 * ?s) = 65535" using ones_le [of "256 * ?s"] by (auto simp: inet_chksum_nat)
  also have "\<dots> \<longleftrightarrow> 0 < ?s \<and> 256 * ?s mod 65535 = 0"
  proof
    assume o: "ones (256 * ?s) = 65535"
    then have "256 * ?s mod 65535 = 0" using ones_mod [of "256 * ?s"] by simp
    moreover have "?s \<noteq> 0" using o by (auto simp: ones_def split: if_splits)
    ultimately show "0 < ?s \<and> 256 * ?s mod 65535 = 0" by simp
  next
    assume "0 < ?s \<and> 256 * ?s mod 65535 = 0"
    then show "ones (256 * ?s) = 65535" by (intro ones_unique [symmetric]) auto
  qed
  also have "256 * ?s mod 65535 = 0 \<longleftrightarrow> ?s mod 65535 = 0"
  proof -
    have "coprime (65535 :: nat) 256" by (simp add: coprime_iff_gcd_eq_1 gcd_non_0_nat)
    then show ?thesis by (simp only: mod_eq_0_iff_dvd coprime_dvd_mult_right_iff)
  qed
  finally show ?thesis .
qed

lemma chksum_ffff: "wsum (bytes_at m a (unat len)) = 0 \<Longrightarrow> inet_chksum m a len = 0xffff"
  using inet_chksum_nat [of m a len] by (simp add: word_unat_eq_iff ones_def)

section \<open>Echo\<close>

lemma echo_chksum_mod: "unat (echo_chksum c) mod 65535 = (unat c + 8) mod 65535"
proof -
  have c: "unat c < 65536" using unsigned_less [of c, where 'a = nat] by simp
  have e: "echo_chksum c = (if c \<ge> 0xfff7 then c + 9 else c + 8)" by (simp add: echo_chksum_def lwip_htons_def)
  show ?thesis
  proof (cases "c \<ge> 0xfff7")
    case True
    then have "65527 \<le> unat c" by (simp add: word_le_nat_alt)
    moreover have "unat (c + 9) = (unat c + 9) mod 65536" by (simp add: unat_word_ariths)
    moreover have "(unat c + 9) mod 65536 = unat c + 9 - 65536" if "65527 \<le> unat c" using c that by (simp add: mod_if)
    ultimately have "unat (echo_chksum c) = unat c - 65527" using True e by simp
    moreover have "(unat c + 8) mod 65535 = (unat c - 65527) mod 65535" if "65527 \<le> unat c" using that by (simp add: mod_if)
    ultimately show ?thesis using \<open>65527 \<le> unat c\<close> by simp
  next
    case False
    then have "unat c < 65527" by (simp add: word_le_nat_alt not_le)
    then have "unat (c + 8) = unat c + 8" by (simp add: unat_word_ariths)
    then show ?thesis using False e by simp
  qed
qed

lemma echo_sum:
  "wsum (0 # code # u16_bytes (echo_chksum c) @ rest) mod 65535 = wsum (8 # code # u16_bytes c @ rest) mod 65535"
proof -
  have s: "wsum (u16_bytes x @ rest) mod 65535 = (256 * unat x + wsum rest) mod 65535" for x
    using ones_mod [of "wsum (u16_bytes x @ rest)"] ones_mod [of "256 * unat x + wsum rest"] by (simp only: ones_u16)
  have e: "(256 * unat (echo_chksum c)) mod 65535 = (256 * (unat c + 8)) mod 65535"
    using mod_mult_cong [OF refl echo_chksum_mod [of c], of 256] by simp
  have "wsum (0 # code # u16_bytes (echo_chksum c) @ rest) mod 65535
      = (unat code + wsum (u16_bytes (echo_chksum c) @ rest)) mod 65535" by simp
  also have "\<dots> = (unat code + (256 * unat (echo_chksum c) + wsum rest)) mod 65535"
    by (rule mod_add_cong [OF refl s])
  also have "\<dots> = (unat code + (256 * (unat c + 8) + wsum rest)) mod 65535"
    by (rule mod_add_cong [OF refl mod_add_cong [OF e refl]])
  also have "\<dots> = (2048 + unat code + (256 * unat c + wsum rest)) mod 65535"
    by (rule arg_cong [of _ _ "\<lambda>n. n mod 65535"]) simp
  also have "\<dots> = (2048 + unat code + wsum (u16_bytes c @ rest)) mod 65535"
    by (rule mod_add_cong [OF refl s [symmetric]])
  finally show ?thesis by simp
qed

lemma swapped_63487:
  fixes n :: nat
  assumes "256 * (n mod 256) + n div 256 = 63487" "n < 65536"
  shows "n = 65527"
proof -
  have "n div 256 < 256" using assms(2) by (simp add: less_mult_imp_div_less)
  then have "n div 256 = 63487 mod 256" using assms(1) by (metis mod_less mod_mult_self4)
  then have d: "n div 256 = 255" by simp
  then have "n mod 256 = 247" using assms(1) by simp
  then show ?thesis using d div_mult_mod_eq [of n 256] by simp
qed

lemma only_63487: "b \<le> 65535 \<Longrightarrow> (2048 + b) mod 65535 = 0 \<Longrightarrow> b = (63487 :: nat)"
  by (cases "2048 + b < 65535") (auto simp: mod_if split: if_splits)

text \<open>
  C36: the checksum that is adjusted rather than computed again. If the request is valid, then so
  is the reply, except when everything in it but the type and the checksum is zero: then the checksum field
  becomes 0 where 0xffff would be right, and the receiver computes 0xffff instead of 0.
\<close>

theorem echo_chksum_valid:
  assumes "bytes_at m a (unat len) = ICMP_ECHO # code # u16_bytes c @ rest" "inet_chksum m a len = 0"
    "bytes_at m' a' (unat len) = ICMP_ER # code # u16_bytes (echo_chksum c) @ rest"
  shows "inet_chksum m' a' len = (if code = 0 \<and> set rest \<subseteq> {0} then 0xffff else 0)"
proof -
  let ?q = "ICMP_ECHO # code # u16_bytes c @ rest" and ?r = "ICMP_ER # code # u16_bytes (echo_chksum c) @ rest"
  have q: "wsum ?q mod 65535 = 0" using assms(2) unfolding chksum_0 assms(1) by simp
  then have r: "wsum ?r mod 65535 = 0" by (simp only: echo_sum)
  show ?thesis
  proof (cases "code = 0 \<and> set rest \<subseteq> {0}")
    case True
    then have z: "wsum rest = 0" by (simp add: wsum_0)
    have c: "unat c < 65536" using unsigned_less [of c, where 'a = nat] by simp
    then have b: "256 * (unat c mod 256) + unat c div 256 \<le> 65535" by linarith
    have "wsum ?q = 2048 + (256 * (unat c mod 256) + unat c div 256)" using True z by (simp add: wsum_u16)
    with q have "(2048 + (256 * (unat c mod 256) + unat c div 256)) mod 65535 = 0" by (simp only:)
    then have "unat c = 65527" by (rule swapped_63487 [OF only_63487 [OF b] c])
    then have "c = 0xfff7" by (simp add: word_unat_eq_iff)
    then have "wsum ?r = 0" using True z by (simp add: wsum_u16 echo_chksum_def lwip_htons_def)
    then show ?thesis using True chksum_ffff [of m' a' len] by (simp add: assms(3))
  next
    case False
    then have "wsum ?r \<noteq> 0" by (auto simp: wsum_0 unat_eq_0)
    then show ?thesis using False r chksum_0 [of m' a' len] by (simp add: assms(3))
  qed
qed

text \<open>An echo request with identifier 1 and one with everything zero.\<close>

theorem echo_chksum_valid_witness:
  "inet_chksum (\<lambda>a. [0, 0, 0xff, 0xfe, 0, 1, 0, 0] ! a) 0 8 = 0
   \<and> inet_chksum (\<lambda>a. [0, 0, 0, 0, 0, 0, 0, 0] ! a) 0 8 = 0xffff"
proof -
  have l: "bytes_at ((!) [t, u, v, w, x, y, z, q]) 0 8 = [t, u, v, w, x, y, z, q]"
    for t u v w x y z q :: u8
    by (simp add: bytes_at_def upt_rec)
  have u: "u16_bytes 0xfef7 = [0xf7, 0xfe]" "u16_bytes 0xfff7 = [0xf7, 0xff]" by (simp_all add: u16_bytes_def word_eq_iff_unsigned unsigned_ucast_eq unsigned_drop_bit_eq)
  have e: "u16_bytes (echo_chksum 0xfef7) = [0xff, 0xfe]" "u16_bytes (echo_chksum 0xfff7) = [0, 0]"
    by (simp_all add: u16_bytes_def echo_chksum_def lwip_htons_def)
  show ?thesis
    using echo_chksum_valid [where m = "\<lambda>a. [8, 0, 0xf7, 0xfe, 0, 1, 0, 0] ! a" and a = 0 and len = 8 and code = 0
        and c = "0xfef7" and rest = "[0, 1, 0, 0]" and m' = "\<lambda>a. [0, 0, 0xff, 0xfe, 0, 1, 0, 0] ! a" and a' = 0]
      echo_chksum_valid [where m = "\<lambda>a. [8, 0, 0xf7, 0xff, 0, 0, 0, 0] ! a" and a = 0 and len = 8 and code = 0
        and c = "0xfff7" and rest = "[0, 0, 0, 0]" and m' = "\<lambda>a. [0, 0, 0, 0, 0, 0, 0, 0] ! a" and a' = 0]
    by (simp add: l u e chksum_0)
qed

end
