(* ===== verification/Ip_Reass.thy ===== *)
theory Ip_Reass
  imports Icmp
begin

text \<open>
  \<open>core/ipv4/ip_frag.c\<close>, reassembly. The datagrams that are being put together are a linked list
  of \<open>ip_reassdata\<close>; the fragments of a datagram are a list whose links lie in the packets: the first 8
  bytes of the IP header of a fragment become an \<open>ip_reass_helper\<close>, with the next fragment at 0 and
  the bounds of its data at 4 and 6. A header is given as its address. \<open>None\<close> is a failed
  assertion, after which the program stands still, or a list that does not end.
\<close>

abbreviation (input) MEMP_REASSDATA :: nat where "MEMP_REASSDATA \<equiv> 2"
abbreviation (input) IP_REASS_MAXAGE :: u8 where "IP_REASS_MAXAGE \<equiv> 3"
abbreviation (input) IP_REASS_MAX_PBUFS :: nat where "IP_REASS_MAX_PBUFS \<equiv> 10"
abbreviation (input) IP_REASS_FLAG_LASTFRAG :: u8 where "IP_REASS_FLAG_LASTFRAG \<equiv> 1"
abbreviation (input) ICMP_TE_FRAG :: u8 where "ICMP_TE_FRAG \<equiv> 1"

record ip_reassdata =
  r_next :: ptr
  r_p :: ptr
  r_iphdr :: "u8 list"
  datagram_len :: u16
  r_flags :: u8
  r_timer :: u8

record 'd reass = "'d ip" +
  reassdatagrams :: ptr
  reassdata :: "ptr \<Rightarrow> ip_reassdata"
  ip_reass_pbufcount :: u16

type_synonym ('d, 'm) reass_out = "ptr \<Rightarrow> ptr \<Rightarrow> u32 \<Rightarrow> ('d, 'm) reass_scheme \<Rightarrow> (int \<times> ('d, 'm) reass_scheme) option"

definition upd_reass :: "ptr \<Rightarrow> (ip_reassdata \<Rightarrow> ip_reassdata) \<Rightarrow> ('d, 'm) reass_scheme \<Rightarrow> ('d, 'm) reass_scheme" where
  "upd_reass r f g = g\<lparr>reassdata := (reassdata g)(r := f (reassdata g r))\<rparr>"

section \<open>The fields of a fragment\<close>

definition frag_next :: "ptr \<Rightarrow> ('d, 'm) gw_scheme \<Rightarrow> ptr" where
  "frag_next h g = unat (load32 (octet (lwm g)) h)"

definition frag_start :: "ptr \<Rightarrow> ('d, 'm) gw_scheme \<Rightarrow> u16" where
  "frag_start h g = load16 (octet (lwm g)) (h + 4)"

definition frag_end :: "ptr \<Rightarrow> ('d, 'm) gw_scheme \<Rightarrow> u16" where
  "frag_end h g = load16 (octet (lwm g)) (h + 6)"

definition set_frag_next :: "ptr \<Rightarrow> ptr \<Rightarrow> ('d, 'm) gw_scheme \<Rightarrow> ('d, 'm) gw_scheme" where
  "set_frag_next h q g = poke h (addr_bytes (word_of_nat q)) g"

definition hdr_hlen :: "ptr \<Rightarrow> ('d, 'm) gw_scheme \<Rightarrow> u16" where
  "hdr_hlen h g = ucast (octet (lwm g) h AND 0xf) * 4"

definition hdr_len :: "ptr \<Rightarrow> ('d, 'm) gw_scheme \<Rightarrow> u16" where
  "hdr_len h g = lwip_ntohs (load16 (octet (lwm g)) (h + 2))"

definition hdr_offset :: "ptr \<Rightarrow> ('d, 'm) gw_scheme \<Rightarrow> u16" where
  "hdr_offset h g = load16 (octet (lwm g)) (h + 6)"

text \<open>\<open>IP_ADDRESSES_AND_ID_MATCH\<close>: a saved header and the one at \<open>h\<close>.\<close>

definition same_datagram :: "u8 list \<Rightarrow> ptr \<Rightarrow> ('d, 'm) gw_scheme \<Rightarrow> bool" where
  "same_datagram hdr h g \<longleftrightarrow> take 4 (drop 12 hdr) = peek (h + 12) 4 g \<and> take 4 (drop 16 hdr) = peek (h + 16) 4 g
     \<and> take 2 (drop 4 hdr) = peek (h + 4) 2 g"

section \<open>Freeing a datagram\<close>

definition ip_reass_dequeue_datagram :: "ptr \<Rightarrow> ptr \<Rightarrow> ('d, 'm) reass_scheme \<Rightarrow> ('d, 'm) reass_scheme option" where
  "ip_reass_dequeue_datagram ipr prev g =
     Option.bind
       (if reassdatagrams g = ipr then Some (g\<lparr>reassdatagrams := r_next (reassdata g ipr)\<rparr>)
        else if prev = NULL then None
        else Some (upd_reass prev (\<lambda>r. r\<lparr>r_next := r_next (reassdata g ipr)\<rparr>) g))
       (\<lambda>g. map_option (\<lambda>w. g\<lparr>lwm := w\<rparr>) (memp_free MEMP_REASSDATA ipr (lwm g)))"

text \<open>Freeing one fragment; the result counts its buffers.\<close>

definition free_frag :: "ptr \<Rightarrow> u16 \<Rightarrow> ('d, 'm) gw_scheme \<Rightarrow> (u16 \<times> ('d, 'm) gw_scheme) option" where
  "free_frag p freed g =
     (case pbuf_clen (lwm g) p of
        None \<Rightarrow> None
      | Some clen \<Rightarrow> if unat freed + unat clen > 0xffff then None else map_option (Pair (freed + ucast clen)) (free_in p g))"

partial_function (option) free_frags :: "ptr \<Rightarrow> u16 \<Rightarrow> ('d, 'm) gw_scheme \<Rightarrow> (u16 \<times> ('d, 'm) gw_scheme) option" where
  "free_frags p freed g =
     (if p \<noteq> NULL
      then case free_frag p freed g of
             None \<Rightarrow> None
           | Some (freed', g') \<Rightarrow> free_frags (frag_next (payload_of p g) g) freed' g'
      else Some (freed, g))"

text \<open>The first fragment goes back to its sender, in an ICMP message.\<close>

definition report_first :: "('d, 'm) reass_out \<Rightarrow> ptr \<Rightarrow> ptr \<Rightarrow> ('d, 'm) reass_scheme \<Rightarrow> (u16 \<times> ('d, 'm) reass_scheme) option" where
  "report_first ifout frag_buf ipr g =
     (let p = r_p (reassdata g ipr);
          iprh = payload_of p g
      in if frag_start iprh g = 0
         then let g = upd_reass ipr (\<lambda>r. r\<lparr>r_p := frag_next iprh g\<rparr>) g;
                  g = poke (payload_of p g) (r_iphdr (reassdata g ipr)) g
              in Option.bind (icmp_time_exceeded ifout frag_buf p ICMP_TE_FRAG g) (free_frag p 0)
         else Some (0, g))"

definition ip_reass_free_complete_datagram ::
  "('d, 'm) reass_out \<Rightarrow> ptr \<Rightarrow> ptr \<Rightarrow> ptr \<Rightarrow> ('d, 'm) reass_scheme \<Rightarrow> (u16 \<times> ('d, 'm) reass_scheme) option" where
  "ip_reass_free_complete_datagram ifout frag_buf ipr prev g =
     (if prev = ipr \<or> prev \<noteq> NULL \<and> r_next (reassdata g prev) \<noteq> ipr then None
      else Option.bind (report_first ifout frag_buf ipr g)
        (\<lambda>(freed, g). Option.bind (free_frags (r_p (reassdata g ipr)) freed g)
          (\<lambda>(freed, g). Option.bind (ip_reass_dequeue_datagram ipr prev g)
            (\<lambda>g. if ip_reass_pbufcount g < freed then None
                 else Some (freed, g\<lparr>ip_reass_pbufcount := ip_reass_pbufcount g - freed\<rparr>)))))"

partial_function (option) reass_tmr_loop :: "('d, 'm) reass_out \<Rightarrow> ptr \<Rightarrow> ptr \<Rightarrow> ptr \<Rightarrow> ('d, 'm) reass_scheme \<Rightarrow> ('d, 'm) reass_scheme option" where
  "reass_tmr_loop ifout frag_buf r prev g =
     (if r \<noteq> NULL
      then if r_timer (reassdata g r) > 0
           then let g = upd_reass r (\<lambda>d. d\<lparr>r_timer := r_timer d - 1\<rparr>) g
                in reass_tmr_loop ifout frag_buf (r_next (reassdata g r)) r g
           else case ip_reass_free_complete_datagram ifout frag_buf r prev g of
                  None \<Rightarrow> None
                | Some (freed, g') \<Rightarrow> reass_tmr_loop ifout frag_buf (r_next (reassdata g r)) prev g'
      else Some g)"

definition ip_reass_tmr :: "('d, 'm) reass_out \<Rightarrow> ptr \<Rightarrow> ('d, 'm) reass_scheme \<Rightarrow> ('d, 'm) reass_scheme option" where
  "ip_reass_tmr ifout frag_buf g = reass_tmr_loop ifout frag_buf (reassdatagrams g) NULL g"

section \<open>Making room\<close>

text \<open>The search for the oldest other datagram: it, the value of \<open>prev\<close>, and how many others there are.\<close>

partial_function (option) oldest_loop :: "ptr \<Rightarrow> ptr \<Rightarrow> ptr \<Rightarrow> ptr \<Rightarrow> nat \<Rightarrow> ('d, 'm) reass_scheme \<Rightarrow> (ptr \<times> ptr \<times> nat) option" where
  "oldest_loop fraghdr r old prev others g =
     (if r \<noteq> NULL
      then let other = (\<not> same_datagram (r_iphdr (reassdata g r)) fraghdr g);
               old' = (if other \<and> (old = NULL \<or> r_timer (reassdata g r) \<le> r_timer (reassdata g old)) then r else old);
               nxt = r_next (reassdata g r)
           in oldest_loop fraghdr nxt old' (if nxt \<noteq> NULL then r else prev) (if other then others + 1 else others) g
      else Some (old, prev, others))"

partial_function (option) remove_oldest_loop ::
  "('d, 'm) reass_out \<Rightarrow> ptr \<Rightarrow> ptr \<Rightarrow> nat \<Rightarrow> nat \<Rightarrow> ('d, 'm) reass_scheme \<Rightarrow> (nat \<times> ('d, 'm) reass_scheme) option" where
  "remove_oldest_loop ifout frag_buf fraghdr needed freed g =
     (case oldest_loop fraghdr (reassdatagrams g) NULL NULL 0 g of
        None \<Rightarrow> None
      | Some (old, prev, others) \<Rightarrow>
          case (if old \<noteq> NULL
                then map_option (\<lambda>(n, g). (freed + unat n, g)) (ip_reass_free_complete_datagram ifout frag_buf old prev g)
                else Some (freed, g)) of
            None \<Rightarrow> None
          | Some (freed, g) \<Rightarrow>
              if freed < needed \<and> others > 1 then remove_oldest_loop ifout frag_buf fraghdr needed freed g else Some (freed, g))"

definition ip_reass_remove_oldest_datagram ::
  "('d, 'm) reass_out \<Rightarrow> ptr \<Rightarrow> ptr \<Rightarrow> nat \<Rightarrow> ('d, 'm) reass_scheme \<Rightarrow> (nat \<times> ('d, 'm) reass_scheme) option" where
  "ip_reass_remove_oldest_datagram ifout frag_buf fraghdr needed g = remove_oldest_loop ifout frag_buf fraghdr needed 0 g"

text \<open>The control block for a new datagram, after making room if need be.\<close>

definition alloc_reassdata :: "('d, 'm) reass_out \<Rightarrow> ptr \<Rightarrow> ptr \<Rightarrow> nat \<Rightarrow> ('d, 'm) reass_scheme \<Rightarrow> (ptr \<times> ('d, 'm) reass_scheme) option" where
  "alloc_reassdata ifout frag_buf fraghdr clen g =
     Option.bind (memp_malloc MEMP_REASSDATA (lwm g))
       (\<lambda>(ipr, w). if ipr \<noteq> NULL then Some (ipr, g\<lparr>lwm := w\<rparr>)
          else Option.bind (ip_reass_remove_oldest_datagram ifout frag_buf fraghdr clen (g\<lparr>lwm := w\<rparr>))
            (\<lambda>(n, g). if n \<ge> clen then map_option (\<lambda>(ipr, w). (ipr, g\<lparr>lwm := w\<rparr>)) (memp_malloc MEMP_REASSDATA (lwm g))
                      else Some (NULL, g)))"

definition ip_reass_enqueue_new_datagram ::
  "('d, 'm) reass_out \<Rightarrow> ptr \<Rightarrow> ptr \<Rightarrow> nat \<Rightarrow> ('d, 'm) reass_scheme \<Rightarrow> (ptr \<times> ('d, 'm) reass_scheme) option" where
  "ip_reass_enqueue_new_datagram ifout frag_buf fraghdr clen g =
     map_option
       (\<lambda>(ipr, g). if ipr = NULL then (NULL, g)
          else let g = upd_reass ipr (\<lambda>_. \<lparr>r_next = reassdatagrams g, r_p = NULL, r_iphdr = peek fraghdr 20 g,
                                           datagram_len = 0, r_flags = 0, r_timer = IP_REASS_MAXAGE\<rparr>) g
               in (ipr, g\<lparr>reassdatagrams := ipr\<rparr>))
       (alloc_reassdata ifout frag_buf fraghdr clen g)"

section \<open>Inserting a fragment\<close>

text \<open>
  The loop that looks for the place of \<open>new_p\<close>, whose helper is at \<open>iprh\<close>; \<open>prev\<close> is the helper of the fragment
  before \<open>q\<close>. The result is whether the fragment is to be thrown away, the fragment where the
  loop stopped, the last helper passed, and whether all fragments so far were contiguous.
\<close>

partial_function (option) place_loop ::
  "ptr \<Rightarrow> ptr \<Rightarrow> ptr \<Rightarrow> ptr \<Rightarrow> ptr \<Rightarrow> bool \<Rightarrow> ('d, 'm) reass_scheme \<Rightarrow> (bool \<times> ptr \<times> ptr \<times> bool \<times> ('d, 'm) reass_scheme) option" where
  "place_loop ipr new_p iprh q prev valid g =
     (if q \<noteq> NULL
      then let tmp = payload_of q g
           in if frag_start iprh g < frag_start tmp g
              then let g = set_frag_next iprh q g
                   in if prev \<noteq> NULL
                      then if frag_start iprh g < frag_end prev g \<or> frag_end iprh g > frag_start tmp g
                           then Some (True, q, prev, valid, g)
                           else Some (False, q, prev, valid, set_frag_next prev new_p g)
                      else Some (False, q, prev, valid, upd_reass ipr (\<lambda>r. r\<lparr>r_p := new_p\<rparr>) g)
              else if frag_start iprh g = frag_start tmp g then Some (True, q, prev, valid, g)
              else if frag_start iprh g < frag_end tmp g then Some (True, q, prev, valid, g)
              else let valid = (valid \<and> (prev \<noteq> NULL \<longrightarrow> frag_end prev g = frag_start tmp g))
                   in place_loop ipr new_p iprh (frag_next tmp g) tmp valid g
      else Some (False, NULL, prev, valid, g))"

text \<open>Appending, when the loop came to the end.\<close>

definition append_frag :: "ptr \<Rightarrow> ptr \<Rightarrow> ptr \<Rightarrow> ptr \<Rightarrow> bool \<Rightarrow> ('d, 'm) reass_scheme \<Rightarrow> (bool \<times> ('d, 'm) reass_scheme) option" where
  "append_frag ipr new_p iprh prev valid g =
     (if prev \<noteq> NULL
      then if frag_end prev g > frag_start iprh g then None
           else let g = set_frag_next prev new_p g in Some (valid \<and> frag_end prev g = frag_start iprh g, g)
      else if r_p (reassdata g ipr) \<noteq> NULL then None
      else Some (valid, upd_reass ipr (\<lambda>r. r\<lparr>r_p := new_p\<rparr>) g))"

text \<open>Whether the fragments from the helper \<open>h\<close> on are contiguous, and the helper where the loop stopped.\<close>

partial_function (option) contig_loop :: "ptr \<Rightarrow> ptr \<Rightarrow> ('d, 'm) gw_scheme \<Rightarrow> (bool \<times> ptr) option" where
  "contig_loop h q g =
     (if q \<noteq> NULL
      then let tmp = payload_of q g
           in if frag_end h g \<noteq> frag_start tmp g then Some (False, tmp) else contig_loop tmp (frag_next tmp g) g
      else Some (True, h))"

text \<open>The validation: whether the datagram is complete.\<close>

definition all_received :: "ptr \<Rightarrow> ptr \<Rightarrow> bool \<Rightarrow> ('d, 'm) reass_scheme \<Rightarrow> bool option" where
  "all_received ipr iprh valid g =
     (let first = payload_of (r_p (reassdata g ipr)) g
      in if r_flags (reassdata g ipr) AND IP_REASS_FLAG_LASTFRAG = 0 \<or> \<not> valid \<or> frag_start first g \<noteq> 0 then Some False
         else case contig_loop iprh (frag_next iprh g) g of
                None \<Rightarrow> None
              | Some (False, h) \<Rightarrow> Some False
              | Some (True, h) \<Rightarrow>
                  if r_p (reassdata g ipr) = NULL \<or> first = h \<or> frag_next h g \<noteq> NULL \<or> frag_end h g \<noteq> datagram_len (reassdata g ipr)
                  then None else Some True)"

definition make_helper :: "ptr \<Rightarrow> ('d, 'm) gw_scheme \<Rightarrow> ('d, 'm) gw_scheme" where
  "make_helper fraghdr g =
     (let len = hdr_len fraghdr g - hdr_hlen fraghdr g;
          offset = (lwip_ntohs (hdr_offset fraghdr g) AND IP_OFFMASK) * 8;
          g = set_frag_next fraghdr NULL g;
          g = poke (fraghdr + 4) (u16_bytes offset) g
      in poke (fraghdr + 6) (u16_bytes (offset + len)) g)"

text \<open>Throwing away a fragment that does not fit.\<close>

definition throw_away :: "ptr \<Rightarrow> ('d, 'm) reass_scheme \<Rightarrow> (bool \<times> ('d, 'm) reass_scheme) option" where
  "throw_away new_p g =
     (case pbuf_clen (lwm g) new_p of
        None \<Rightarrow> None
      | Some clen \<Rightarrow> map_option (Pair False) (free_in new_p (g\<lparr>ip_reass_pbufcount := ip_reass_pbufcount g - ucast clen\<rparr>)))"

definition ip_reass_chain_frag_into_datagram_and_validate ::
  "ptr \<Rightarrow> ptr \<Rightarrow> ('d, 'm) reass_scheme \<Rightarrow> (bool \<times> ('d, 'm) reass_scheme) option" where
  "ip_reass_chain_frag_into_datagram_and_validate ipr new_p g =
     (let iprh = payload_of new_p g;
          g = make_helper iprh g
      in case place_loop ipr new_p iprh (r_p (reassdata g ipr)) NULL True g of
           None \<Rightarrow> None
         | Some (True, q, prev, valid, g) \<Rightarrow> throw_away new_p g
         | Some (False, q, prev, valid, g) \<Rightarrow>
             Option.bind (if q = NULL then append_frag ipr new_p iprh prev valid g else Some (valid, g))
               (\<lambda>(valid, g). map_option (\<lambda>v. (v, g)) (all_received ipr iprh valid g)))"

section \<open>\<open>ip_reass\<close>\<close>

partial_function (option) match_loop :: "ptr \<Rightarrow> ptr \<Rightarrow> ptr \<Rightarrow> ('d, 'm) reass_scheme \<Rightarrow> (ptr \<times> ptr) option" where
  "match_loop fraghdr ipr prev g =
     (if ipr \<noteq> NULL
      then if same_datagram (r_iphdr (reassdata g ipr)) fraghdr g then Some (ipr, prev)
           else match_loop fraghdr (r_next (reassdata g ipr)) ipr g
      else Some (NULL, prev))"

text \<open>Chaining the fragments from \<open>r\<close> on behind \<open>p\<close>, without their headers.\<close>

partial_function (option) join_loop :: "ptr \<Rightarrow> ptr \<Rightarrow> ('d, 'm) gw_scheme \<Rightarrow> ('d, 'm) gw_scheme option" where
  "join_loop p r g =
     (if r \<noteq> NULL
      then let iprh = payload_of r g
           in case move_header r (- 20) g of
                None \<Rightarrow> None
              | Some (e, g) \<Rightarrow>
                  case pbuf_cat p r (lwm g) of
                    None \<Rightarrow> None
                  | Some w \<Rightarrow> let g = g\<lparr>lwm := w\<rparr> in join_loop p (frag_next iprh g) g
      else Some g)"

text \<open>A complete datagram becomes one packet again.\<close>

definition reass_complete :: "ptr \<Rightarrow> ptr \<Rightarrow> ('d, 'm) reass_scheme \<Rightarrow> (ptr \<times> ('d, 'm) reass_scheme) option" where
  "reass_complete ipr prev g =
     (let g = upd_reass ipr (\<lambda>d. d\<lparr>datagram_len := datagram_len d + 20\<rparr>) g;
          p = r_p (reassdata g ipr);
          fraghdr = payload_of p g;
          r = frag_next fraghdr g;
          g = poke fraghdr (r_iphdr (reassdata g ipr)) g;
          g = poke (fraghdr + 2) (u16_bytes (lwip_htons (datagram_len (reassdata g ipr)))) g;
          g = poke (fraghdr + 6) [0, 0] g;
          g = set_hdr_chksum fraghdr g
      in Option.bind (join_loop p r g)
           (\<lambda>g. Option.bind (ip_reass_dequeue_datagram ipr prev g)
             (\<lambda>g. map_option (\<lambda>clen. (p, g\<lparr>ip_reass_pbufcount := ip_reass_pbufcount g - ucast clen\<rparr>)) (pbuf_clen (lwm g) p))))"

text \<open>Room for \<open>clen\<close> more buffers, by removing other datagrams if need be.\<close>

definition reass_room :: "('d, 'm) reass_out \<Rightarrow> ptr \<Rightarrow> ptr \<Rightarrow> nat \<Rightarrow> ('d, 'm) reass_scheme \<Rightarrow> (bool \<times> ('d, 'm) reass_scheme) option" where
  "reass_room ifout frag_buf fraghdr clen g =
     (if unat (ip_reass_pbufcount g) + clen > IP_REASS_MAX_PBUFS
      then map_option (\<lambda>(n, g). (n \<noteq> 0 \<and> unat (ip_reass_pbufcount g) + clen \<le> IP_REASS_MAX_PBUFS, g))
             (ip_reass_remove_oldest_datagram ifout frag_buf fraghdr clen g)
      else Some (True, g))"

text \<open>The datagram of the fragment and the one before it in the list: one that is there, or a new one.\<close>

definition reass_datagram :: "('d, 'm) reass_out \<Rightarrow> ptr \<Rightarrow> ptr \<Rightarrow> nat \<Rightarrow> ('d, 'm) reass_scheme \<Rightarrow> (ptr \<times> ptr \<times> ('d, 'm) reass_scheme) option" where
  "reass_datagram ifout frag_buf fraghdr clen g =
     (case match_loop fraghdr (reassdatagrams g) NULL g of
        None \<Rightarrow> None
      | Some (ipr, prev) \<Rightarrow>
          if ipr = NULL
          then map_option (\<lambda>(ipr, g). (ipr, prev, g)) (ip_reass_enqueue_new_datagram ifout frag_buf fraghdr clen g)
          else let first = (lwip_ntohs (hdr_offset fraghdr g) AND IP_OFFMASK = 0
                     \<and> lwip_ntohs (let h = r_iphdr (reassdata g ipr) in ucast (h ! 6) OR push_bit 8 (ucast (h ! 7))) AND IP_OFFMASK \<noteq> 0)
               in Some (ipr, prev, if first then upd_reass ipr (\<lambda>d. d\<lparr>r_iphdr := peek fraghdr 20 g\<rparr>) g else g))"

definition note_last :: "ptr \<Rightarrow> ptr \<Rightarrow> u16 \<Rightarrow> ('d, 'm) reass_scheme \<Rightarrow> ('d, 'm) reass_scheme" where
  "note_last ipr fraghdr dlen g =
     (if hdr_offset fraghdr g AND lwip_ntohs IP_MF = 0
      then upd_reass ipr (\<lambda>d. d\<lparr>r_flags := r_flags d OR IP_REASS_FLAG_LASTFRAG, datagram_len := dlen\<rparr>) g else g)"

definition ip_reass :: "('d, 'm) reass_out \<Rightarrow> ptr \<Rightarrow> ptr \<Rightarrow> ('d, 'm) reass_scheme \<Rightarrow> (ptr \<times> ('d, 'm) reass_scheme) option" where
  "ip_reass ifout frag_buf p g =
     (let fraghdr = payload_of p g;
          drop = map_option (Pair NULL) \<circ> free_in p;
          offset = (lwip_ntohs (hdr_offset fraghdr g) AND IP_OFFMASK) * 8;
          len = hdr_len fraghdr g - hdr_hlen fraghdr g
      in if hdr_hlen fraghdr g \<noteq> 20 then drop g
         else Option.bind (pbuf_clen (lwm g) p)
           (\<lambda>clen. Option.bind (reass_room ifout frag_buf fraghdr (unat clen) g)
             (\<lambda>(room, g). if \<not> room then drop g
                else Option.bind (reass_datagram ifout frag_buf fraghdr (unat clen) g)
                  (\<lambda>(ipr, prev, g). if ipr = NULL then drop g
                     else let g = g\<lparr>ip_reass_pbufcount := ip_reass_pbufcount g + ucast clen\<rparr>;
                              g = note_last ipr fraghdr (offset + len) g
                          in Option.bind (ip_reass_chain_frag_into_datagram_and_validate ipr p g)
                               (\<lambda>(complete, g). if complete then reass_complete ipr prev g else Some (NULL, g))))))"

end
