(* ===== verification/Raw.thy ===== *)
theory Raw
  imports Ip_Reass
begin

text \<open>
  \<open>core/raw.c\<close>: control blocks for protocols of the application. A receive callback is an address;
  \<open>rcall\<close> is what calling it does, and says whether the packet was eaten.
\<close>

abbreviation (input) MEMP_RAW_PCB :: nat where "MEMP_RAW_PCB \<equiv> 0"
abbreviation (input) RAW_TTL :: u8 where "RAW_TTL \<equiv> 255"

text \<open>The part that all control blocks have (\<open>IP_PCB\<close>).\<close>

record ip_pcb =
  local_ip :: u32
  remote_ip :: u32
  so_options :: u8
  pcb_tos :: u8
  pcb_ttl :: u8

record raw_pcb = ip_pcb +
  rw_next :: ptr
  rw_protocol :: u8
  rw_recv :: ptr
  rw_recv_arg :: ptr

record 'd raw = "'d reass" +
  raw_pcbs :: ptr
  raw_mem :: "ptr \<Rightarrow> raw_pcb"

type_synonym ('d, 'm) raw_out = "ptr \<Rightarrow> ptr \<Rightarrow> u32 \<Rightarrow> ('d, 'm) raw_scheme \<Rightarrow> (int \<times> ('d, 'm) raw_scheme) option"
type_synonym ('d, 'm) raw_call = "ptr \<Rightarrow> ptr \<Rightarrow> ptr \<Rightarrow> ptr \<Rightarrow> u32 \<Rightarrow> ('d, 'm) raw_scheme \<Rightarrow> (u8 \<times> ('d, 'm) raw_scheme) option"

definition upd_raw :: "ptr \<Rightarrow> (raw_pcb \<Rightarrow> raw_pcb) \<Rightarrow> ('d, 'm) raw_scheme \<Rightarrow> ('d, 'm) raw_scheme" where
  "upd_raw p f g = g\<lparr>raw_mem := (raw_mem g)(p := f (raw_mem g p))\<rparr>"

section \<open>Receiving\<close>

definition raw_to_front :: "ptr \<Rightarrow> ptr \<Rightarrow> ('d, 'm) raw_scheme \<Rightarrow> ('d, 'm) raw_scheme" where
  "raw_to_front prev pcb g =
     (if prev \<noteq> NULL
      then let g = upd_raw prev (\<lambda>c. c\<lparr>rw_next := rw_next (raw_mem g pcb)\<rparr>) g;
               g = upd_raw pcb (\<lambda>c. c\<lparr>rw_next := raw_pcbs g\<rparr>) g
           in g\<lparr>raw_pcbs := pcb\<rparr>
      else g)"

partial_function (option) raw_loop :: "('d, 'm) raw_call \<Rightarrow> ptr \<Rightarrow> u8 \<Rightarrow> ptr \<Rightarrow> ptr \<Rightarrow> ('d, 'm) raw_scheme \<Rightarrow> (u8 \<times> ('d, 'm) raw_scheme) option" where
  "raw_loop rcall p proto pcb prev g =
     (if pcb \<noteq> NULL
      then let c = raw_mem g pcb
           in if rw_protocol c = proto \<and> (local_ip c = IPADDR_ANY \<or> local_ip c = current_iphdr_dest g) \<and> rw_recv c \<noteq> NULL
              then case rcall (rw_recv c) (rw_recv_arg c) pcb p (current_iphdr_src g) g of
                     None \<Rightarrow> None
                   | Some (eaten, g) \<Rightarrow>
                       if eaten \<noteq> 0 then Some (1, raw_to_front prev pcb g)
                       else raw_loop rcall p proto (rw_next (raw_mem g pcb)) pcb g
              else raw_loop rcall p proto (rw_next c) pcb g
      else Some (0, g))"

definition raw_input :: "('d, 'm) raw_call \<Rightarrow> ptr \<Rightarrow> ('d, 'm) raw_scheme \<Rightarrow> (u8 \<times> ('d, 'm) raw_scheme) option" where
  "raw_input rcall p g = raw_loop rcall p (octet (lwm g) (payload_of p g + 9)) (raw_pcbs g) NULL g"

section \<open>Control blocks\<close>

definition raw_bind :: "ptr \<Rightarrow> u32 \<Rightarrow> ('d, 'm) raw_scheme \<Rightarrow> int \<times> ('d, 'm) raw_scheme" where
  "raw_bind pcb ip g = (ERR_OK, upd_raw pcb (\<lambda>c. c\<lparr>local_ip := ip\<rparr>) g)"

definition raw_connect :: "ptr \<Rightarrow> u32 \<Rightarrow> ('d, 'm) raw_scheme \<Rightarrow> int \<times> ('d, 'm) raw_scheme" where
  "raw_connect pcb ip g = (ERR_OK, upd_raw pcb (\<lambda>c. c\<lparr>remote_ip := ip\<rparr>) g)"

definition raw_recv :: "ptr \<Rightarrow> ptr \<Rightarrow> ptr \<Rightarrow> ('d, 'm) raw_scheme \<Rightarrow> ('d, 'm) raw_scheme" where
  "raw_recv pcb recv arg g = upd_raw pcb (\<lambda>c. c\<lparr>rw_recv := recv, rw_recv_arg := arg\<rparr>) g"

partial_function (option) raw_unlink_loop :: "ptr \<Rightarrow> ptr \<Rightarrow> ('d, 'm) raw_scheme \<Rightarrow> ('d, 'm) raw_scheme option" where
  "raw_unlink_loop pcb pcb2 g =
     (if pcb2 \<noteq> NULL
      then let nxt = rw_next (raw_mem g pcb2);
               g = (if nxt \<noteq> NULL \<and> nxt = pcb then upd_raw pcb2 (\<lambda>c. c\<lparr>rw_next := rw_next (raw_mem g pcb)\<rparr>) g else g)
           in raw_unlink_loop pcb (rw_next (raw_mem g pcb2)) g
      else Some g)"

definition raw_remove :: "ptr \<Rightarrow> ('d, 'm) raw_scheme \<Rightarrow> ('d, 'm) raw_scheme option" where
  "raw_remove pcb g =
     Option.bind
       (if raw_pcbs g = pcb then Some (g\<lparr>raw_pcbs := rw_next (raw_mem g (raw_pcbs g))\<rparr>) else raw_unlink_loop pcb (raw_pcbs g) g)
       (\<lambda>g. map_option (\<lambda>w. g\<lparr>lwm := w\<rparr>) (memp_free MEMP_RAW_PCB pcb (lwm g)))"

definition raw_new :: "u8 \<Rightarrow> ('d, 'm) raw_scheme \<Rightarrow> (ptr \<times> ('d, 'm) raw_scheme) option" where
  "raw_new proto g =
     map_option
       (\<lambda>(pcb, w). let g = g\<lparr>lwm := w\<rparr>
          in if pcb \<noteq> NULL
             then (pcb, (upd_raw pcb (\<lambda>_. \<lparr>local_ip = 0, remote_ip = 0, so_options = 0, pcb_tos = 0, pcb_ttl = RAW_TTL,
                            rw_next = raw_pcbs g, rw_protocol = proto, rw_recv = NULL, rw_recv_arg = NULL\<rparr>) g)\<lparr>raw_pcbs := pcb\<rparr>)
             else (NULL, g))
       (memp_malloc MEMP_RAW_PCB (lwm g))"

section \<open>Sending\<close>

text \<open>
  The packet to send: \<open>p\<close>, or a new buffer for the header of length \<open>n\<close> of layer \<open>l\<close> in front of it; \<open>NULL\<close> without
  memory. The headers of \<open>p\<close> are as they were, except that \<open>keep\<close> leaves the room in \<open>p\<close> taken.
\<close>

definition with_header :: "bool \<Rightarrow> u16 \<Rightarrow> u16 \<Rightarrow> ptr \<Rightarrow> ('d, 'm) gw_scheme \<Rightarrow> (ptr \<times> ('d, 'm) gw_scheme) option" where
  "with_header keep n len p g =
     Option.bind (move_header p n g)
       (\<lambda>(r, g). if r \<noteq> 0
          then Option.bind (pbuf_alloc PBUF_IP len PBUF_RAM (lwm g))
            (\<lambda>(q, w). let g = g\<lparr>lwm := w\<rparr>
               in if q = NULL then Some (NULL, g)
                  else if tot_len (pbufs w p) \<noteq> 0 then map_option (\<lambda>w. (q, g\<lparr>lwm := w\<rparr>)) (pbuf_chain q p w) else Some (q, g))
          else if keep then Some (p, g)
          else Option.bind (move_header p (- n) g) (\<lambda>(r, g). if r \<noteq> 0 then None else Some (p, g)))"

definition free_header :: "ptr \<Rightarrow> ptr \<Rightarrow> ('d, 'm) gw_scheme \<Rightarrow> ('d, 'm) gw_scheme option" where
  "free_header q p g = (if q \<noteq> p then free_in q g else Some g)"

definition raw_sendto :: "('d, 'm) raw_out \<Rightarrow> ptr \<Rightarrow> ptr \<Rightarrow> ptr \<Rightarrow> u32 \<Rightarrow> ('d, 'm) raw_scheme \<Rightarrow> (int \<times> ('d, 'm) raw_scheme) option" where
  "raw_sendto ifout frag_buf pcb p ipaddr g =
     Option.bind (with_header False 20 0 p g)
       (\<lambda>(q, g). if q = NULL then Some (ERR_MEM, g)
          else Option.bind (ip_route ipaddr g)
            (\<lambda>nif. if nif = NULL then map_option (Pair ERR_RTE) (free_header q p g)
               else let c = raw_mem g pcb;
                        src = (if local_ip c = IPADDR_ANY then nif_ip_addr (netifs g nif) else local_ip c)
                    in Option.bind (ip_output_if ifout frag_buf q src (Some ipaddr) (pcb_ttl c) (pcb_tos c) (rw_protocol c) nif g)
                         (\<lambda>(err, g). map_option (Pair err) (free_header q p g))))"

definition raw_send :: "('d, 'm) raw_out \<Rightarrow> ptr \<Rightarrow> ptr \<Rightarrow> ptr \<Rightarrow> ('d, 'm) raw_scheme \<Rightarrow> (int \<times> ('d, 'm) raw_scheme) option" where
  "raw_send ifout frag_buf pcb p g = raw_sendto ifout frag_buf pcb p (remote_ip (raw_mem g pcb)) g"

end
