(* ===== verification/Udp.thy ===== *)
theory Udp
  imports Raw
begin

text \<open>
  \<open>core/udp.c\<close>, without UDP-Lite, address reuse and IGMP. A receive callback is an address;
  \<open>ucall\<close> is what calling it does, and it frees the packet. \<open>None\<close> is a failed assertion or a
  list that does not end. A UDP header has the ports at 0 and 2, the length at 4 and the
  checksum at 6.
\<close>

abbreviation (input) MEMP_UDP_PCB :: nat where "MEMP_UDP_PCB \<equiv> 1"
abbreviation (input) ERR_USE :: int where "ERR_USE \<equiv> -8"
abbreviation (input) UDP_TTL :: u8 where "UDP_TTL \<equiv> 255"
abbreviation (input) UDP_FLAGS_NOCHKSUM :: u8 where "UDP_FLAGS_NOCHKSUM \<equiv> 1"
abbreviation (input) UDP_FLAGS_CONNECTED :: u8 where "UDP_FLAGS_CONNECTED \<equiv> 4"
abbreviation (input) UDP_LOCAL_PORT_RANGE_START :: u16 where "UDP_LOCAL_PORT_RANGE_START \<equiv> 0xc000"
abbreviation (input) UDP_LOCAL_PORT_RANGE_END :: u16 where "UDP_LOCAL_PORT_RANGE_END \<equiv> 0xffff"
abbreviation (input) ICMP_DUR_PORT :: u8 where "ICMP_DUR_PORT \<equiv> 3"

record udp_pcb = ip_pcb +
  u_next :: ptr
  u_flags :: u8
  local_port :: u16
  remote_port :: u16
  u_recv :: ptr
  u_recv_arg :: ptr

record 'd udp = "'d raw" +
  udp_port :: u16
  udp_pcbs :: ptr
  udp_mem :: "ptr \<Rightarrow> udp_pcb"

type_synonym ('d, 'm) udp_out = "ptr \<Rightarrow> ptr \<Rightarrow> u32 \<Rightarrow> ('d, 'm) udp_scheme \<Rightarrow> (int \<times> ('d, 'm) udp_scheme) option"
type_synonym ('d, 'm) udp_call = "ptr \<Rightarrow> ptr \<Rightarrow> ptr \<Rightarrow> ptr \<Rightarrow> u32 \<Rightarrow> u16 \<Rightarrow> ('d, 'm) udp_scheme \<Rightarrow> ('d, 'm) udp_scheme option"

definition upd_udp :: "ptr \<Rightarrow> (udp_pcb \<Rightarrow> udp_pcb) \<Rightarrow> ('d, 'm) udp_scheme \<Rightarrow> ('d, 'm) udp_scheme" where
  "upd_udp p f g = g\<lparr>udp_mem := (udp_mem g)(p := f (udp_mem g p))\<rparr>"

section \<open>Ports\<close>

text \<open>The loop over the control blocks: whether one has the port.\<close>

partial_function (option) port_used :: "u16 \<Rightarrow> ptr \<Rightarrow> ('d, 'm) udp_scheme \<Rightarrow> bool option" where
  "port_used port pcb g =
     (if pcb \<noteq> NULL
      then if local_port (udp_mem g pcb) = port then Some True else port_used port (u_next (udp_mem g pcb)) g
      else Some False)"

partial_function (option) new_port_loop :: "u16 \<Rightarrow> ('d, 'm) udp_scheme \<Rightarrow> (u16 \<times> ('d, 'm) udp_scheme) option" where
  "new_port_loop n g =
     (let port = (if udp_port g = UDP_LOCAL_PORT_RANGE_END then UDP_LOCAL_PORT_RANGE_START else udp_port g + 1);
          g = g\<lparr>udp_port := port\<rparr>
      in case port_used port (udp_pcbs g) g of
           None \<Rightarrow> None
         | Some used \<Rightarrow>
             if used
             then if n + 1 > UDP_LOCAL_PORT_RANGE_END - UDP_LOCAL_PORT_RANGE_START then Some (0, g) else new_port_loop (n + 1) g
             else Some (port, g))"

definition udp_new_port :: "('d, 'm) udp_scheme \<Rightarrow> (u16 \<times> ('d, 'm) udp_scheme) option" where
  "udp_new_port g = new_port_loop 0 g"

text \<open>The loop of \<open>udp_bind\<close>: whether another control block has the port, and whether \<open>pcb\<close> is in the list.\<close>

partial_function (option) bind_loop :: "ptr \<Rightarrow> u32 \<Rightarrow> u16 \<Rightarrow> ptr \<Rightarrow> bool \<Rightarrow> ('d, 'm) udp_scheme \<Rightarrow> (bool \<times> bool) option" where
  "bind_loop pcb ip port ipcb rebind g =
     (if ipcb \<noteq> NULL
      then let c = udp_mem g ipcb
           in if pcb = ipcb
              then if rebind then None else bind_loop pcb ip port (u_next c) True g
              else if local_port c = port \<and> (local_ip c = IPADDR_ANY \<or> ip = IPADDR_ANY \<or> local_ip c = ip)
              then Some (True, rebind)
              else bind_loop pcb ip port (u_next c) rebind g
      else Some (False, rebind))"

definition udp_bind :: "ptr \<Rightarrow> u32 \<Rightarrow> u16 \<Rightarrow> ('d, 'm) udp_scheme \<Rightarrow> (int \<times> ('d, 'm) udp_scheme) option" where
  "udp_bind pcb ip port g =
     (case bind_loop pcb ip port (udp_pcbs g) False g of
        None \<Rightarrow> None
      | Some (taken, rebind) \<Rightarrow>
          if taken then Some (ERR_USE, g)
          else Option.bind
                 (let g = upd_udp pcb (\<lambda>c. c\<lparr>local_ip := ip\<rparr>) g in if port = 0 then udp_new_port g else Some (port, g))
                 (\<lambda>(port, g). if port = 0 then Some (ERR_USE, g)
                    else let g = upd_udp pcb (\<lambda>c. c\<lparr>local_port := port\<rparr>) g
                         in Some (ERR_OK, if \<not> rebind then (upd_udp pcb (\<lambda>c. c\<lparr>u_next := udp_pcbs g\<rparr>) g)\<lparr>udp_pcbs := pcb\<rparr> else g)))"

partial_function (option) udp_listed :: "ptr \<Rightarrow> ptr \<Rightarrow> ('d, 'm) udp_scheme \<Rightarrow> bool option" where
  "udp_listed pcb ipcb g =
     (if ipcb \<noteq> NULL then if pcb = ipcb then Some True else udp_listed pcb (u_next (udp_mem g ipcb)) g else Some False)"

text \<open>Binding a control block that has no port yet, before it is used.\<close>

definition udp_autobind :: "ptr \<Rightarrow> ('d, 'm) udp_scheme \<Rightarrow> (int \<times> ('d, 'm) udp_scheme) option" where
  "udp_autobind pcb g =
     (if local_port (udp_mem g pcb) = 0 then udp_bind pcb (local_ip (udp_mem g pcb)) (local_port (udp_mem g pcb)) g else Some (ERR_OK, g))"

definition udp_connect :: "ptr \<Rightarrow> u32 \<Rightarrow> u16 \<Rightarrow> ('d, 'm) udp_scheme \<Rightarrow> (int \<times> ('d, 'm) udp_scheme) option" where
  "udp_connect pcb ip port g =
     Option.bind (udp_autobind pcb g)
       (\<lambda>(err, g). if err \<noteq> ERR_OK then Some (err, g)
          else let g = upd_udp pcb (\<lambda>c. c\<lparr>remote_ip := ip, remote_port := port, u_flags := u_flags c OR UDP_FLAGS_CONNECTED\<rparr>) g
               in map_option
                    (\<lambda>listed. (ERR_OK, if listed then g else (upd_udp pcb (\<lambda>c. c\<lparr>u_next := udp_pcbs g\<rparr>) g)\<lparr>udp_pcbs := pcb\<rparr>))
                    (udp_listed pcb (udp_pcbs g) g))"

definition udp_disconnect :: "ptr \<Rightarrow> ('d, 'm) udp_scheme \<Rightarrow> ('d, 'm) udp_scheme" where
  "udp_disconnect pcb g =
     upd_udp pcb (\<lambda>c. c\<lparr>remote_ip := IPADDR_ANY, remote_port := 0, u_flags := u_flags c AND NOT UDP_FLAGS_CONNECTED\<rparr>) g"

definition udp_recv :: "ptr \<Rightarrow> ptr \<Rightarrow> ptr \<Rightarrow> ('d, 'm) udp_scheme \<Rightarrow> ('d, 'm) udp_scheme" where
  "udp_recv pcb recv arg g = upd_udp pcb (\<lambda>c. c\<lparr>u_recv := recv, u_recv_arg := arg\<rparr>) g"

partial_function (option) udp_unlink_loop :: "ptr \<Rightarrow> ptr \<Rightarrow> ('d, 'm) udp_scheme \<Rightarrow> ('d, 'm) udp_scheme option" where
  "udp_unlink_loop pcb pcb2 g =
     (if pcb2 \<noteq> NULL
      then let nxt = u_next (udp_mem g pcb2);
               g = (if nxt \<noteq> NULL \<and> nxt = pcb then upd_udp pcb2 (\<lambda>c. c\<lparr>u_next := u_next (udp_mem g pcb)\<rparr>) g else g)
           in udp_unlink_loop pcb (u_next (udp_mem g pcb2)) g
      else Some g)"

definition udp_remove :: "ptr \<Rightarrow> ('d, 'm) udp_scheme \<Rightarrow> ('d, 'm) udp_scheme option" where
  "udp_remove pcb g =
     Option.bind
       (if udp_pcbs g = pcb then Some (g\<lparr>udp_pcbs := u_next (udp_mem g (udp_pcbs g))\<rparr>) else udp_unlink_loop pcb (udp_pcbs g) g)
       (\<lambda>g. map_option (\<lambda>w. g\<lparr>lwm := w\<rparr>) (memp_free MEMP_UDP_PCB pcb (lwm g)))"

definition new_udp_pcb :: udp_pcb where
  "new_udp_pcb = \<lparr>local_ip = 0, remote_ip = 0, so_options = 0, pcb_tos = 0, pcb_ttl = UDP_TTL,
     u_next = NULL, u_flags = 0, local_port = 0, remote_port = 0, u_recv = NULL, u_recv_arg = NULL\<rparr>"

definition udp_new :: "('d, 'm) udp_scheme \<Rightarrow> (ptr \<times> ('d, 'm) udp_scheme) option" where
  "udp_new g =
     map_option
       (\<lambda>(pcb, w). let g = g\<lparr>lwm := w\<rparr> in if pcb \<noteq> NULL then (pcb, upd_udp pcb (\<lambda>_. new_udp_pcb) g) else (NULL, g))
       (memp_malloc MEMP_UDP_PCB (lwm g))"

section \<open>Receiving\<close>

text \<open>The first test of \<open>udp_input\<close> on a control block: whether the datagram is for its local port and address.\<close>

definition local_match :: "bool \<Rightarrow> u16 \<Rightarrow> u32 \<Rightarrow> u32 \<Rightarrow> udp_pcb \<Rightarrow> bool" where
  "local_match broadcast dest ip nm c \<longleftrightarrow>
     local_port c = dest \<and>
     (\<not> broadcast \<and> local_ip c = IPADDR_ANY \<or> local_ip c = ip
      \<or> broadcast \<and> (local_ip c = IPADDR_ANY \<or> ip_addr_netcmp (local_ip c) ip nm))"

text \<open>The second one: whether it comes from the address the control block is connected to.\<close>

definition remote_match :: "u16 \<Rightarrow> u32 \<Rightarrow> udp_pcb \<Rightarrow> bool" where
  "remote_match src ip c \<longleftrightarrow> remote_port c = src \<and> (remote_ip c = IPADDR_ANY \<or> remote_ip c = ip)"

text \<open>
  The search: the control block that matches fully with the one before it, or \<open>NULL\<close>, and the
  first one that matches and is not connected.
\<close>

partial_function (option) udp_search :: "(udp_pcb \<Rightarrow> bool) \<Rightarrow> (udp_pcb \<Rightarrow> bool) \<Rightarrow> ptr \<Rightarrow> ptr \<Rightarrow> ptr \<Rightarrow> ('d, 'm) udp_scheme \<Rightarrow> (ptr \<times> ptr \<times> ptr) option" where
  "udp_search lm rm pcb prev uncon g =
     (if pcb \<noteq> NULL
      then let c = udp_mem g pcb;
               uncon = (if lm c \<and> uncon = NULL \<and> u_flags c AND UDP_FLAGS_CONNECTED = 0 then pcb else uncon)
           in if lm c \<and> rm c then Some (pcb, prev, uncon) else udp_search lm rm (u_next c) pcb uncon g
      else Some (NULL, prev, uncon))"

text \<open>The control block for a datagram; one that matches fully moves to the front.\<close>

definition udp_lookup :: "bool \<Rightarrow> u16 \<Rightarrow> u16 \<Rightarrow> ptr \<Rightarrow> ('d, 'm) udp_scheme \<Rightarrow> (ptr \<times> ('d, 'm) udp_scheme) option" where
  "udp_lookup broadcast src dest inp g =
     map_option
       (\<lambda>(pcb, prev, uncon).
          if pcb = NULL then (uncon, g)
          else (pcb, if prev \<noteq> NULL
                     then let g = upd_udp prev (\<lambda>c. c\<lparr>u_next := u_next (udp_mem g pcb)\<rparr>) g
                          in (upd_udp pcb (\<lambda>c. c\<lparr>u_next := udp_pcbs g\<rparr>) g)\<lparr>udp_pcbs := pcb\<rparr>
                     else g))
       (udp_search (local_match broadcast dest (current_iphdr_dest g) (nif_netmask (netifs g inp)))
          (remote_match src (current_iphdr_src g)) (udp_pcbs g) NULL NULL g)"

text \<open>A datagram that nobody wants is reported to its sender, unless it was for many.\<close>

definition udp_unreach :: "('d, 'm) udp_out \<Rightarrow> ptr \<Rightarrow> bool \<Rightarrow> ptr \<Rightarrow> ptr \<Rightarrow> u16 \<Rightarrow> ('d, 'm) udp_scheme \<Rightarrow> ('d, 'm) udp_scheme option" where
  "udp_unreach ifout frag_buf broadcast p iphdr hlen g =
     Option.bind
       (if \<not> broadcast \<and> \<not> ip_addr_ismulticast (current_iphdr_dest g)
        then Option.bind (move_header p (hlen + 8) g)
               (\<lambda>(r, g). if payload_of p g \<noteq> iphdr then None else icmp_dest_unreach ifout frag_buf p ICMP_DUR_PORT g)
        else Some g)
       (free_in p)"

text \<open>Handing over a datagram to \<open>pcb\<close>, once it is known to be for us and valid.\<close>

definition udp_deliver ::
  "('d, 'm) udp_call \<Rightarrow> ('d, 'm) udp_out \<Rightarrow> ptr \<Rightarrow> bool \<Rightarrow> ptr \<Rightarrow> ptr \<Rightarrow> u16 \<Rightarrow> u16 \<Rightarrow> ptr \<Rightarrow> ('d, 'm) udp_scheme \<Rightarrow> ('d, 'm) udp_scheme option" where
  "udp_deliver ucall ifout frag_buf broadcast p iphdr hlen src pcb g =
     Option.bind (move_header p (- 8) g)
       (\<lambda>(r, g). if r \<noteq> 0 then None
          else if pcb = NULL then udp_unreach ifout frag_buf broadcast p iphdr hlen g
          else let c = udp_mem g pcb
               in if u_recv c \<noteq> NULL then ucall (u_recv c) (u_recv_arg c) pcb p (current_iphdr_src g) src g else free_in p g)"

text \<open>Whether the checksum is right; a field of 0 means that there is none.\<close>

definition udp_chksum_ok :: "ptr \<Rightarrow> ('d, 'm) udp_scheme \<Rightarrow> bool option" where
  "udp_chksum_ok p g =
     (if load16 (octet (lwm g)) (payload_of p g + 6) = 0 then Some True
      else map_option (\<lambda>c. c = 0)
             (inet_chksum_pseudo (lwm g) p (current_iphdr_src g) (current_iphdr_dest g) IP_PROTO_UDP (tot_len (pbufs (lwm g) p))))"

definition udp_input ::
  "('d, 'm) udp_call \<Rightarrow> ('d, 'm) udp_out \<Rightarrow> ptr \<Rightarrow> ptr \<Rightarrow> ptr \<Rightarrow> ('d, 'm) udp_scheme \<Rightarrow> ('d, 'm) udp_scheme option" where
  "udp_input ucall ifout frag_buf p inp g =
     (let iphdr = payload_of p g;
          hlen = hdr_hlen iphdr g
      in if tot_len (pbufs (lwm g) p) < hlen + 8 then free_in p g
         else Option.bind (move_header p (- hlen) g)
           (\<lambda>(r, g). if r \<noteq> 0 then free_in p g
              else let udphdr = payload_of p g;
                       broadcast = ip4_addr_isbroadcast (current_iphdr_dest g) (netifs g inp);
                       src = lwip_ntohs (load16 (octet (lwm g)) udphdr);
                       dest = lwip_ntohs (load16 (octet (lwm g)) (udphdr + 2))
                   in Option.bind (udp_lookup broadcast src dest inp g)
                        (\<lambda>(pcb, g). if pcb \<noteq> NULL \<or> nif_ip_addr (netifs g inp) = current_iphdr_dest g
                           then Option.bind (udp_chksum_ok p g)
                                  (\<lambda>ok. if ok then udp_deliver ucall ifout frag_buf broadcast p iphdr hlen src pcb g else free_in p g)
                           else free_in p g)))"

section \<open>Sending\<close>

text \<open>Writing the header of the packet \<open>q\<close>; the checksum is that of the whole packet, and 0 becomes 0xffff.\<close>

definition write_udphdr :: "udp_pcb \<Rightarrow> u32 \<Rightarrow> u32 \<Rightarrow> ptr \<Rightarrow> ('d, 'm) gw_scheme \<Rightarrow> ('d, 'm) gw_scheme option" where
  "write_udphdr c src dst q g =
     (let udphdr = payload_of q g;
          g = poke (udphdr + 4) (u16_bytes (lwip_htons (tot_len (pbufs (lwm g) q)))) g
      in if u_flags c AND UDP_FLAGS_NOCHKSUM = 0
         then map_option (\<lambda>s. poke (udphdr + 6) (u16_bytes (if s = 0 then 0xffff else s)) g)
                (inet_chksum_pseudo (lwm g) q src dst IP_PROTO_UDP (tot_len (pbufs (lwm g) q)))
         else Some g)"

definition udp_sendto_if :: "('d, 'm) udp_out \<Rightarrow> ptr \<Rightarrow> ptr \<Rightarrow> ptr \<Rightarrow> u32 \<Rightarrow> u16 \<Rightarrow> ptr \<Rightarrow> ('d, 'm) udp_scheme \<Rightarrow> (int \<times> ('d, 'm) udp_scheme) option" where
  "udp_sendto_if ifout frag_buf pcb p dst dst_port nif g =
     Option.bind (udp_autobind pcb g)
       (\<lambda>(err, g). if err \<noteq> ERR_OK then Some (err, g)
          else Option.bind (with_header True 8 8 p g)
            (\<lambda>(q, g). if q = NULL then Some (ERR_MEM, g)
               else if pb_len (pbufs (lwm g) q) < 8 then None
               else let c = udp_mem g pcb;
                        udphdr = payload_of q g;
                        g = poke udphdr (u16_bytes (lwip_htons (local_port c))) g;
                        g = poke (udphdr + 2) (u16_bytes (lwip_htons dst_port)) g;
                        g = poke (udphdr + 6) [0, 0] g;
                        src = (if local_ip c = IPADDR_ANY then nif_ip_addr (netifs g nif) else local_ip c)
                    in if src \<noteq> nif_ip_addr (netifs g nif) then map_option (Pair ERR_VAL) (free_header q p g)
                       else Option.bind (write_udphdr c src dst q g)
                         (\<lambda>g. Option.bind (ip_output_if ifout frag_buf q src (Some dst) (pcb_ttl c) (pcb_tos c) IP_PROTO_UDP nif g)
                           (\<lambda>(err, g). map_option (Pair err) (free_header q p g)))))"

definition udp_sendto :: "('d, 'm) udp_out \<Rightarrow> ptr \<Rightarrow> ptr \<Rightarrow> ptr \<Rightarrow> u32 \<Rightarrow> u16 \<Rightarrow> ('d, 'm) udp_scheme \<Rightarrow> (int \<times> ('d, 'm) udp_scheme) option" where
  "udp_sendto ifout frag_buf pcb p dst dst_port g =
     Option.bind (ip_route dst g)
       (\<lambda>nif. if nif = NULL then Some (ERR_RTE, g) else udp_sendto_if ifout frag_buf pcb p dst dst_port nif g)"

definition udp_send :: "('d, 'm) udp_out \<Rightarrow> ptr \<Rightarrow> ptr \<Rightarrow> ptr \<Rightarrow> ('d, 'm) udp_scheme \<Rightarrow> (int \<times> ('d, 'm) udp_scheme) option" where
  "udp_send ifout frag_buf pcb p g =
     udp_sendto ifout frag_buf pcb p (remote_ip (udp_mem g pcb)) (remote_port (udp_mem g pcb)) g"

end
