(* ===== verification/Ip_In.thy ===== *)
theory Ip_In
  imports Udp
begin

text \<open>
  \<open>ip_input\<close> of \<open>core/ipv4/ip.c\<close>: checking, accepting and handing over an IP packet, without
  forwarding, IGMP, TCP and DHCP. \<open>rcall\<close> and \<open>ucall\<close> are the callbacks of raw and UDP control blocks.
\<close>

abbreviation (input) ICMP_DUR_PROTO :: u8 where "ICMP_DUR_PROTO \<equiv> 2"

text \<open>Whether an interface takes packets for an address, and the walk over the interfaces, \<open>inp\<close> first.\<close>

definition netif_accepts :: "u32 \<Rightarrow> netif \<Rightarrow> bool" where
  "netif_accepts dest nif \<longleftrightarrow> netif_is_up nif \<and> nif_ip_addr nif \<noteq> IPADDR_ANY \<and> (dest = nif_ip_addr nif \<or> ip4_addr_isbroadcast dest nif)"

partial_function (option) accept_loop :: "u32 \<Rightarrow> ptr \<Rightarrow> bool \<Rightarrow> ptr \<Rightarrow> ('d, 'm) eth_scheme \<Rightarrow> ptr option" where
  "accept_loop dest inp first nif g =
     (if netif_accepts dest (netifs g nif) then Some nif
      else let nxt = (if first then netif_list g else nif_next (netifs g nif));
               nxt = (if nxt = inp then nif_next (netifs g nxt) else nxt)
           in if nxt \<noteq> NULL then accept_loop dest inp False nxt g else Some NULL)"

definition ip_hdr_ok :: "ptr \<Rightarrow> ('d, 'm) gw_scheme \<Rightarrow> bool" where
  "ip_hdr_ok p g \<longleftrightarrow>
     (let iphdr = payload_of p g
      in drop_bit 4 (octet (lwm g) iphdr) = 4
         \<and> \<not> (hdr_hlen iphdr g > pb_len (pbufs (lwm g) p) \<or> hdr_len iphdr g > tot_len (pbufs (lwm g) p))
         \<and> inet_chksum (octet (lwm g)) iphdr (hdr_hlen iphdr g) = 0)"

text \<open>The end of \<open>ip_input\<close>: to the protocols.\<close>

definition ip_proto_unreach :: "('d, 'm) udp_out \<Rightarrow> ptr \<Rightarrow> ptr \<Rightarrow> ptr \<Rightarrow> ptr \<Rightarrow> ('d, 'm) udp_scheme \<Rightarrow> ('d, 'm) udp_scheme option" where
  "ip_proto_unreach ifout frag_buf p iphdr inp g =
     Option.bind
       (if \<not> ip4_addr_isbroadcast (current_iphdr_dest g) (netifs g inp) \<and> \<not> ip_addr_ismulticast (current_iphdr_dest g)
        then icmp_dest_unreach ifout frag_buf p ICMP_DUR_PROTO (g\<lparr>lwm := upd_pbuf p (\<lambda>b. b\<lparr>payload := iphdr\<rparr>) (lwm g)\<rparr>)
        else Some g)
       (free_in p)"

definition ip_deliver ::
  "('d, 'm udp_ext) raw_call \<Rightarrow> ('d, 'm) udp_call \<Rightarrow> ('d, 'm) udp_out \<Rightarrow> ptr \<Rightarrow> ptr \<Rightarrow> ptr \<Rightarrow> ('d, 'm) udp_scheme \<Rightarrow> ('d, 'm) udp_scheme option" where
  "ip_deliver rcall ucall ifout frag_buf p inp g =
     (let iphdr = payload_of p g;
          g = g\<lparr>current_netif := inp, current_header := iphdr\<rparr>
      in map_option (\<lambda>g. g\<lparr>current_netif := NULL, current_header := NULL, current_iphdr_src := IPADDR_ANY, current_iphdr_dest := IPADDR_ANY\<rparr>)
           (Option.bind (raw_input rcall p g)
             (\<lambda>(eaten, g). if eaten \<noteq> 0 then Some g
                else let proto = octet (lwm g) (iphdr + 9)
                     in if proto = IP_PROTO_UDP then udp_input ucall ifout frag_buf p inp g
                        else if proto = IP_PROTO_ICMP then icmp_input ifout frag_buf p inp g
                        else ip_proto_unreach ifout frag_buf p iphdr inp g)))"

text \<open>The middle: reassembly of a packet that is for us.\<close>

definition ip_accepted ::
  "('d, 'm udp_ext) raw_call \<Rightarrow> ('d, 'm) udp_call \<Rightarrow> ('d, 'm) udp_out \<Rightarrow> ptr \<Rightarrow> ptr \<Rightarrow> ptr \<Rightarrow> ('d, 'm) udp_scheme \<Rightarrow> ('d, 'm) udp_scheme option" where
  "ip_accepted rcall ucall ifout frag_buf p inp g =
     (if hdr_offset (payload_of p g) g AND lwip_htons (IP_OFFMASK OR IP_MF) \<noteq> 0
      then Option.bind (ip_reass ifout frag_buf p g)
             (\<lambda>(p, g). if p = NULL then Some g else ip_deliver rcall ucall ifout frag_buf p inp g)
      else ip_deliver rcall ucall ifout frag_buf p inp g)"

definition ip_input ::
  "('d, 'm udp_ext) raw_call \<Rightarrow> ('d, 'm) udp_call \<Rightarrow> ('d, 'm) udp_out \<Rightarrow> ptr \<Rightarrow> ptr \<Rightarrow> ptr \<Rightarrow> ('d, 'm) udp_scheme \<Rightarrow> (int \<times> ('d, 'm) udp_scheme) option" where
  "ip_input rcall ucall ifout frag_buf p inp g =
     map_option (Pair ERR_OK)
       (if \<not> ip_hdr_ok p g then free_in p g
        else let iphdr = payload_of p g
             in Option.bind (pbuf_realloc p (hdr_len iphdr g) (lwm g))
               (\<lambda>w. let g = g\<lparr>lwm := w\<rparr>;
                        g = g\<lparr>current_iphdr_dest := load32 (octet (lwm g)) (iphdr + 16), current_iphdr_src := load32 (octet (lwm g)) (iphdr + 12)\<rparr>
                    in Option.bind (accept_loop (current_iphdr_dest g) inp True inp g)
                      (\<lambda>nif. if ip4_addr_isbroadcast (current_iphdr_src g) (netifs g inp) \<or> ip_addr_ismulticast (current_iphdr_src g)
                         then free_in p g
                         else if nif = NULL then free_in p g
                         else ip_accepted rcall ucall ifout frag_buf p inp g)))"

end
