(* ===== verification/Netif.thy ===== *)
theory Netif
  imports Ip_Out
begin

text \<open>
  \<open>core/netif.c\<close>: the list of network interfaces, and the set-up of the one interface of the gateway in
  \<open>netif/ethernetif.c\<close> and \<open>netapp/lwipconfig.c\<close>. The function pointers \<open>input\<close>, \<open>output\<close> and
  \<open>linkoutput\<close> of an interface are arguments of the functions that call them; the callbacks,
  loopback and SNMP are compiled out. An address argument of \<open>NULL\<close> is 0.
\<close>

abbreviation (input) NETIF_FLAG_LINK_UP :: u8 where "NETIF_FLAG_LINK_UP \<equiv> 0x10"

definition upd_netif :: "ptr \<Rightarrow> (netif \<Rightarrow> netif) \<Rightarrow> ('d, 'm) eth_scheme \<Rightarrow> ('d, 'm) eth_scheme" where
  "upd_netif nif f g = g\<lparr>netifs := (netifs g)(nif := f (netifs g nif))\<rparr>"

section \<open>Addresses\<close>

definition netif_set_ipaddr :: "ptr \<Rightarrow> u32 \<Rightarrow> ('d, 'm) eth_scheme \<Rightarrow> ('d, 'm) eth_scheme" where
  "netif_set_ipaddr nif ip g = upd_netif nif (\<lambda>n. n\<lparr>nif_ip_addr := ip\<rparr>) g"

definition netif_set_gw :: "ptr \<Rightarrow> u32 \<Rightarrow> ('d, 'm) eth_scheme \<Rightarrow> ('d, 'm) eth_scheme" where
  "netif_set_gw nif gw g = upd_netif nif (\<lambda>n. n\<lparr>nif_gw := gw\<rparr>) g"

definition netif_set_netmask :: "ptr \<Rightarrow> u32 \<Rightarrow> ('d, 'm) eth_scheme \<Rightarrow> ('d, 'm) eth_scheme" where
  "netif_set_netmask nif nmask g = upd_netif nif (\<lambda>n. n\<lparr>nif_netmask := nmask\<rparr>) g"

definition netif_set_addr :: "ptr \<Rightarrow> u32 \<Rightarrow> u32 \<Rightarrow> u32 \<Rightarrow> ('d, 'm) eth_scheme \<Rightarrow> ('d, 'm) eth_scheme" where
  "netif_set_addr nif ip nmask gw g = netif_set_gw nif gw (netif_set_netmask nif nmask (netif_set_ipaddr nif ip g))"

section \<open>The list\<close>

definition netif_add ::
  "ptr \<Rightarrow> u32 \<Rightarrow> u32 \<Rightarrow> u32 \<Rightarrow> ptr \<Rightarrow> (ptr \<Rightarrow> ('d, 'm) eth_scheme \<Rightarrow> (int \<times> ('d, 'm) eth_scheme) option) \<Rightarrow> ('d, 'm) eth_scheme
    \<Rightarrow> (ptr \<times> ('d, 'm) eth_scheme) option" where
  "netif_add nif ip nmask gw state init g =
     (let g = upd_netif nif (\<lambda>n. n\<lparr>nif_ip_addr := 0, nif_netmask := 0, nif_gw := 0, nif_flags := 0, nif_state := state,
                                    nif_num := netif_num g\<rparr>) g;
          g = g\<lparr>netif_num := netif_num g + 1\<rparr>;
          g = netif_set_addr nif ip nmask gw g
      in map_option
           (\<lambda>(err, g). if err \<noteq> ERR_OK then (NULL, g)
              else let g = upd_netif nif (\<lambda>n. n\<lparr>nif_next := netif_list g\<rparr>) g in (nif, g\<lparr>netif_list := nif\<rparr>))
           (init nif g))"

definition netif_set_default :: "ptr \<Rightarrow> ('d, 'm) eth_scheme \<Rightarrow> ('d, 'm) eth_scheme" where
  "netif_set_default nif g = g\<lparr>netif_default := nif\<rparr>"

text \<open>Announcing the address of an interface that can send (\<open>etharp_gratuitous\<close>).\<close>

definition etharp_gratuitous :: "('d, 'm) linkout \<Rightarrow> ptr \<Rightarrow> ('d, 'm) eth_scheme \<Rightarrow> (int \<times> ('d, 'm) eth_scheme) option" where
  "etharp_gratuitous linkout nif g = etharp_request linkout nif (nif_ip_addr (netifs g nif)) g"

definition netif_set_up :: "('d, 'm) linkout \<Rightarrow> ptr \<Rightarrow> ('d, 'm) eth_scheme \<Rightarrow> ('d, 'm) eth_scheme option" where
  "netif_set_up linkout nif g =
     (if nif_flags (netifs g nif) AND NETIF_FLAG_UP = 0
      then let g = upd_netif nif (\<lambda>n. n\<lparr>nif_flags := nif_flags n OR NETIF_FLAG_UP\<rparr>) g
           in if nif_flags (netifs g nif) AND NETIF_FLAG_LINK_UP \<noteq> 0 \<and> nif_flags (netifs g nif) AND NETIF_FLAG_ETHARP \<noteq> 0
              then map_option snd (etharp_gratuitous linkout nif g) else Some g
      else Some g)"

definition netif_set_down :: "ptr \<Rightarrow> ('d, 'm) eth_scheme \<Rightarrow> ('d, 'm) eth_scheme option" where
  "netif_set_down nif g =
     (if nif_flags (netifs g nif) AND NETIF_FLAG_UP \<noteq> 0
      then let g = upd_netif nif (\<lambda>n. n\<lparr>nif_flags := nif_flags n AND NOT NETIF_FLAG_UP\<rparr>) g
           in if nif_flags (netifs g nif) AND NETIF_FLAG_ETHARP \<noteq> 0 then etharp_cleanup_netif nif g else Some g
      else Some g)"

definition netif_set_link_up :: "('d, 'm) linkout \<Rightarrow> ptr \<Rightarrow> ('d, 'm) eth_scheme \<Rightarrow> ('d, 'm) eth_scheme option" where
  "netif_set_link_up linkout nif g =
     (if nif_flags (netifs g nif) AND NETIF_FLAG_LINK_UP = 0
      then let g = upd_netif nif (\<lambda>n. n\<lparr>nif_flags := nif_flags n OR NETIF_FLAG_LINK_UP\<rparr>) g
           in if nif_flags (netifs g nif) AND NETIF_FLAG_UP \<noteq> 0 \<and> nif_flags (netifs g nif) AND NETIF_FLAG_ETHARP \<noteq> 0
              then map_option snd (etharp_gratuitous linkout nif g) else Some g
      else Some g)"

definition netif_set_link_down :: "ptr \<Rightarrow> ('d, 'm) eth_scheme \<Rightarrow> ('d, 'm) eth_scheme" where
  "netif_set_link_down nif g =
     (if nif_flags (netifs g nif) AND NETIF_FLAG_LINK_UP \<noteq> 0
      then upd_netif nif (\<lambda>n. n\<lparr>nif_flags := nif_flags n AND NOT NETIF_FLAG_LINK_UP\<rparr>) g else g)"

text \<open>The loop of \<open>netif_remove\<close> behind the first interface; whether the interface was found.\<close>

partial_function (option) netif_unlink_loop :: "ptr \<Rightarrow> ptr \<Rightarrow> ('d, 'm) eth_scheme \<Rightarrow> (bool \<times> ('d, 'm) eth_scheme) option" where
  "netif_unlink_loop nif tmp g =
     (if tmp \<noteq> NULL
      then if nif_next (netifs g tmp) = nif
           then Some (True, upd_netif tmp (\<lambda>n. n\<lparr>nif_next := nif_next (netifs g nif)\<rparr>) g)
           else netif_unlink_loop nif (nif_next (netifs g tmp)) g
      else Some (False, g))"

definition netif_unlink :: "ptr \<Rightarrow> ('d, 'm) eth_scheme \<Rightarrow> (bool \<times> ('d, 'm) eth_scheme) option" where
  "netif_unlink nif g =
     (if netif_list g = nif then Some (True, g\<lparr>netif_list := nif_next (netifs g nif)\<rparr>)
      else netif_unlink_loop nif (netif_list g) g)"

definition netif_remove :: "ptr \<Rightarrow> ('d, 'm) eth_scheme \<Rightarrow> ('d, 'm) eth_scheme option" where
  "netif_remove nif g =
     (if nif = NULL then Some g
      else Option.bind (if netif_is_up (netifs g nif) then netif_set_down nif g else Some g)
        (\<lambda>g. map_option
           (\<lambda>(found, g). if found \<and> netif_default g = nif then netif_set_default NULL g else g)
           (netif_unlink nif g)))"

text \<open>The name is given as its first three characters.\<close>

partial_function (option) netif_find_loop :: "u8 \<times> u8 \<Rightarrow> u8 \<Rightarrow> ptr \<Rightarrow> ('d, 'm) eth_scheme \<Rightarrow> ptr option" where
  "netif_find_loop name n nif g =
     (if nif \<noteq> NULL
      then if n = nif_num (netifs g nif) \<and> name = nif_name (netifs g nif) then Some nif
           else netif_find_loop name n (nif_next (netifs g nif)) g
      else Some NULL)"

definition netif_find :: "(u8 \<times> u8 \<times> u8) option \<Rightarrow> ('d, 'm) eth_scheme \<Rightarrow> ptr option" where
  "netif_find name g =
     (case name of None \<Rightarrow> Some NULL | Some (a, b, c) \<Rightarrow> netif_find_loop (a, b) (c - 0x30) (netif_list g) g)"

section \<open>The interface of the gateway\<close>

definition MyMacID :: "u8 list" where
  "MyMacID = [0x54, 0x55, 0x58, 0x10, 0x00, 0x24]"

definition low_level_init :: "'d bus \<Rightarrow> ptr \<Rightarrow> ('d, 'm) eth_scheme \<Rightarrow> ('d, 'm) eth_scheme option" where
  "low_level_init bus nif g =
     (let g = upd_netif nif (\<lambda>n. n\<lparr>nif_hwaddr_len := 6, nif_hwaddr := MyMacID, nif_mtu := 1500,
                                    nif_flags := NETIF_FLAG_BROADCAST OR NETIF_FLAG_ETHARP OR NETIF_FLAG_LINK_UP\<rparr>) g
      in map_option (\<lambda>n. g\<lparr>nic := n\<rparr>) (mymacinit bus (\<lambda>i. MyMacID ! i) (nic g)))"

text \<open>\<open>hw\<close> is the address of \<open>netif->hwaddr\<close>, which the private structure points to.\<close>

definition ethernetif_init :: "'d bus \<Rightarrow> ptr \<Rightarrow> ptr \<Rightarrow> ('d, 'm) eth_scheme \<Rightarrow> (int \<times> ('d, 'm) eth_scheme) option" where
  "ethernetif_init bus hw nif g =
     (if nif = NULL then None
      else case mem_malloc 4 (lwm g) of
             None \<Rightarrow> None
           | Some (e, w) \<Rightarrow>
               if e = NULL then Some (ERR_MEM, g\<lparr>lwm := w\<rparr>)
               else let g = upd_netif nif (\<lambda>n. n\<lparr>nif_state := e, nif_name := (0x65, 0x6e)\<rparr>) (g\<lparr>lwm := w\<rparr>);
                        g = poke e (addr_bytes (word_of_nat hw)) g
                    in map_option (Pair ERR_OK) (low_level_init bus nif g))"

definition IP4_ADDR :: "u32 \<Rightarrow> u32 \<Rightarrow> u32 \<Rightarrow> u32 \<Rightarrow> u32" where
  "IP4_ADDR a b c d = push_bit 24 (d AND 0xff) OR push_bit 16 (c AND 0xff) OR push_bit 8 (b AND 0xff) OR (a AND 0xff)"

text \<open>
  The part of \<open>lwip_init_task\<close> that sets up the interface \<open>enc28j60_netif\<close>; the calls before it
  start the protocol stack, the one after it prints.
\<close>

definition lwip_init_netif :: "'d bus \<Rightarrow> ptr \<Rightarrow> ('d, 'm) linkout \<Rightarrow> ptr \<Rightarrow> ('d, 'm) eth_scheme \<Rightarrow> ('d, 'm) eth_scheme option" where
  "lwip_init_netif bus hw linkout nif g =
     Option.bind (netif_add nif (IP4_ADDR 192 168 0 18) (IP4_ADDR 255 255 255 0) (IP4_ADDR 192 168 0 1) NULL (ethernetif_init bus hw) g)
       (\<lambda>(_, g). netif_set_up linkout nif (netif_set_default nif g))"

end
