(* ===== verification/Netapp.thy ===== *)
theory Netapp
  imports Ip_In Netif
begin

text \<open>
  The applications on the stack: the UDP echo server of \<open>netapp/udp_demo.c\<close> and \<open>netapp/ping.c\<close>. The
  callbacks are the functions below at the addresses \<open>udp_demo_fn\<close> and \<open>ping_recv_fn\<close>; \<open>tmout\<close> is
  \<open>sys_timeout\<close> on the state they share with the stack, \<open>now\<close> the time. Debug output is left out.
\<close>

abbreviation (input) UDP_ECHO_PORT :: u16 where "UDP_ECHO_PORT \<equiv> 7"
abbreviation (input) PING_DELAY :: u32 where "PING_DELAY \<equiv> 1000"
abbreviation (input) PING_ID :: u16 where "PING_ID \<equiv> 0xAFAF"

section \<open>UDP echo\<close>

definition udp_demo_callback :: "('d, 'm) udp_out \<Rightarrow> ptr \<Rightarrow> ptr \<Rightarrow> ptr \<Rightarrow> u32 \<Rightarrow> u16 \<Rightarrow> ('d, 'm) udp_scheme \<Rightarrow> ('d, 'm) udp_scheme option" where
  "udp_demo_callback ifout frag_buf pcb p addr port g =
     Option.bind (udp_sendto ifout frag_buf pcb p addr port g) (\<lambda>(_, g). free_in p g)"

definition udp_demo_init :: "ptr \<Rightarrow> ('d, 'm) udp_scheme \<Rightarrow> ('d, 'm) udp_scheme option" where
  "udp_demo_init udp_demo_fn g =
     Option.bind (udp_new g)
       (\<lambda>(upcb, g). map_option (\<lambda>(_, g). udp_recv upcb udp_demo_fn NULL g) (udp_bind upcb IPADDR_ANY UDP_ECHO_PORT g))"

section \<open>Ping\<close>

record 'd ping = "'d udp" +
  ping_pcb :: ptr
  ping_seq_num :: u16
  ping_time :: u32
  ping_dst :: u32
  ping_state :: u8

text \<open>The header is at 20 in a packet that is received; the sequence number is assigned.\<close>

definition ping_raw_recv_fn :: "ptr \<Rightarrow> ('d, 'm) ping_scheme \<Rightarrow> (u8 \<times> ('d, 'm) ping_scheme) option" where
  "ping_raw_recv_fn p g =
     (let h = payload_of p g + 20;
          seqno = lwip_htons (ping_seq_num g)
      in if tot_len (pbufs (lwm g) p) \<ge> 28 \<and> octet (lwm g) h = ICMP_ER \<and> load16 (octet (lwm g)) (h + 4) = PING_ID
         then let g = poke (h + 6) (u16_bytes seqno) g
              in if seqno \<noteq> 0 then map_option (Pair 1) (free_in p (g\<lparr>ping_state := 1\<rparr>)) else Some (0, g)
         else Some (0, g))"

definition ping_prepare_echo :: "ptr \<Rightarrow> u16 \<Rightarrow> ('d, 'm) ping_scheme \<Rightarrow> ('d, 'm) ping_scheme" where
  "ping_prepare_echo h len g =
     (let data_len = len - 8;
          g = poke h [ICMP_ECHO] g;
          g = poke (h + 1) [0] g;
          g = poke (h + 2) [0, 0] g;
          g = poke (h + 4) (u16_bytes PING_ID) g;
          g = g\<lparr>ping_seq_num := ping_seq_num g + 1\<rparr>;
          g = poke (h + 6) (u16_bytes (lwip_htons (ping_seq_num g))) g;
          g = poke (h + 8) (map word_of_nat [0..<unat data_len]) g
      in poke (h + 2) (u16_bytes (inet_chksum (octet (lwm g)) h len)) g)"

definition ping_send :: "('d, 'm ping_ext) udp_out \<Rightarrow> ptr \<Rightarrow> u32 \<Rightarrow> ptr \<Rightarrow> u32 \<Rightarrow> ('d, 'm) ping_scheme \<Rightarrow> ('d, 'm) ping_scheme option" where
  "ping_send ifout frag_buf now pcb des g =
     Option.bind (pbuf_alloc PBUF_IP 40 PBUF_RAM (lwm g))
       (\<lambda>(p, w). let g = g\<lparr>lwm := w\<rparr>; b = pbufs w p
          in if p = NULL then Some g
             else Option.bind
               (if pb_len b = tot_len b \<and> pb_next b = NULL
                then map_option (\<lambda>(_, g). g\<lparr>ping_time := now\<rparr>)
                       (raw_sendto ifout frag_buf pcb p des (ping_prepare_echo (payload b) 40 g))
                else Some g)
               (free_in p))"

definition ping_timeout ::
  "(u32 \<Rightarrow> ptr \<Rightarrow> ptr \<Rightarrow> ('d, 'm) ping_scheme \<Rightarrow> ('d, 'm) ping_scheme option) \<Rightarrow> ('d, 'm ping_ext) udp_out \<Rightarrow> ptr \<Rightarrow> u32 \<Rightarrow> ptr \<Rightarrow> ptr
    \<Rightarrow> ('d, 'm) ping_scheme \<Rightarrow> ('d, 'm) ping_scheme option" where
  "ping_timeout tmout ifout frag_buf now ping_timeout_fn pcb g =
     (if ping_state g = 0
      then Option.bind (ping_send ifout frag_buf now pcb (ping_dst g) g) (tmout PING_DELAY ping_timeout_fn pcb)
      else raw_remove (ping_pcb g) g)"

definition ping_raw_init ::
  "(u32 \<Rightarrow> ptr \<Rightarrow> ptr \<Rightarrow> ('d, 'm) ping_scheme \<Rightarrow> ('d, 'm) ping_scheme option) \<Rightarrow> ptr \<Rightarrow> ptr \<Rightarrow> ('d, 'm) ping_scheme \<Rightarrow> ('d, 'm) ping_scheme option" where
  "ping_raw_init tmout ping_recv_fn ping_timeout_fn g =
     Option.bind (raw_new IP_PROTO_ICMP g)
       (\<lambda>(pcb, g). let g = raw_recv pcb ping_recv_fn NULL (g\<lparr>ping_pcb := pcb\<rparr>);
                       (_, g) = raw_bind pcb IPADDR_ANY g
                   in tmout PING_DELAY ping_timeout_fn pcb g)"

definition ping_init ::
  "(u32 \<Rightarrow> ptr \<Rightarrow> ptr \<Rightarrow> ('d, 'm) ping_scheme \<Rightarrow> ('d, 'm) ping_scheme option) \<Rightarrow> ptr \<Rightarrow> ptr \<Rightarrow> ('d, 'm) ping_scheme \<Rightarrow> ('d, 'm) ping_scheme option" where
  "ping_init tmout ping_recv_fn ping_timeout_fn g =
     map_option (\<lambda>g. g\<lparr>ping_state := 0\<rparr>)
       (ping_raw_init tmout ping_recv_fn ping_timeout_fn (g\<lparr>ping_dst := IP4_ADDR 172 20 199 194\<rparr>))"

text \<open>\<open>ping_ip\<close>: the same with an address in text, which is not set when it is not one.\<close>

definition ping_ip ::
  "(u32 \<Rightarrow> ptr \<Rightarrow> ptr \<Rightarrow> ('d, 'm) ping_scheme \<Rightarrow> ('d, 'm) ping_scheme option) \<Rightarrow> ptr \<Rightarrow> ptr \<Rightarrow> u8 list \<Rightarrow> ('d, 'm) ping_scheme \<Rightarrow> ('d, 'm) ping_scheme option" where
  "ping_ip tmout ping_recv_fn ping_timeout_fn pip g =
     map_option (\<lambda>g. g\<lparr>ping_state := 0\<rparr>)
       (ping_raw_init tmout ping_recv_fn ping_timeout_fn
         (case ipaddr_aton pip of None \<Rightarrow> g | Some a \<Rightarrow> g\<lparr>ping_dst := a\<rparr>))"

end
