(* ===== verification/Usart.thy ===== *)
theory Usart
  imports Lw_State
begin

text \<open>
  \<open>bsp/usart1.c\<close>, the output on the serial port: what a function sends is a list of bytes, and the
  waits for the transmitter, which end, are left out. Text lies in the memory \<open>m\<close> and ends
  with a zero. \<open>None\<close> is text without an end or an argument of the wrong type.
\<close>

section \<open>Strings\<close>

partial_function (option) send_string_loop :: "(ptr \<Rightarrow> u8) \<Rightarrow> ptr \<Rightarrow> u16 \<Rightarrow> u8 list option" where
  "send_string_loop m str k =
     (if m (str + unat (k + 1)) \<noteq> 0
      then Option.bind (send_string_loop m str (k + 1)) (\<lambda>out. Some (m (str + unat k) # out))
      else Some [m (str + unat k)])"

definition USART_SendString :: "(ptr \<Rightarrow> u8) \<Rightarrow> ptr \<Rightarrow> u8 list option" where
  "USART_SendString m str = send_string_loop m str 0"

partial_function (option) send_chars :: "(ptr \<Rightarrow> u8) \<Rightarrow> ptr \<Rightarrow> u8 list option" where
  "send_chars m s =
     (if m s \<noteq> 0 then Option.bind (send_chars m (s + 1)) (\<lambda>out. Some (m s # out)) else Some [])"

section \<open>Numbers\<close>

text \<open>The digit loop; \<open>i\<close> runs through the powers of ten from 10000 on. The result is the text without its end.\<close>

fun itoa_loop :: "nat \<Rightarrow> int \<Rightarrow> bool \<Rightarrow> u8 list" where
  "itoa_loop i v flag =
     (if i > 0
      then let d = v div int i
           in if d \<noteq> 0 \<or> flag then word_of_int (d + 0x30) # itoa_loop (i div 10) (v - d * int i) True
              else itoa_loop (i div 10) v flag
      else [])"

definition itoa :: "int \<Rightarrow> int \<Rightarrow> u8 list" where
  "itoa v radix =
     (if radix \<noteq> 10 then []
      else if v = 0 then [0x30]
      else (if v < 0 then [0x2d] else []) @ itoa_loop 10000 (if v < 0 then - v else v) False)"

section \<open>Formatted output\<close>

datatype va = Va_str ptr | Va_int int

text \<open>The digits of \<open>%d\<close> go through a local buffer, from which they are sent.\<close>

partial_function (option) printf_loop :: "(ptr \<Rightarrow> u8) \<Rightarrow> ptr \<Rightarrow> va list \<Rightarrow> u8 list option" where
  "printf_loop m data ap =
     (if m data \<noteq> 0
      then let c = m (data + 1)
           in if m data = 0x5c
              then Option.bind (printf_loop m (data + 2) ap)
                     (\<lambda>out. Some ((if c = 0x72 then [0x0d] else if c = 0x6e then [0x0a] else []) @ out))
              else if m data = 0x25
              then if c = 0x73
                   then case ap of
                          Va_str s # ap \<Rightarrow>
                            Option.bind (send_chars m s) (\<lambda>t. Option.bind (printf_loop m (data + 2) ap) (\<lambda>out. Some (t @ out)))
                        | _ \<Rightarrow> None
                   else if c = 0x64
                   then case ap of
                          Va_int d # ap \<Rightarrow>
                            Option.bind (printf_loop m (data + 2) ap) (\<lambda>out. Some (itoa d 10 @ out))
                        | _ \<Rightarrow> None
                   else printf_loop m (data + 2) ap
              else Option.bind (printf_loop m (data + 1) ap) (\<lambda>out. Some (m data # out))
      else Some [])"

definition USART1_printf :: "(ptr \<Rightarrow> u8) \<Rightarrow> ptr \<Rightarrow> va list \<Rightarrow> u8 list option" where
  "USART1_printf m data ap = printf_loop m data ap"

end
