(* ===== verification/Usart_Props.thy ===== *)
theory Usart_Props
  imports Usart
begin

text \<open>
  Serial output: numbers of up to five digits are printed right, larger ones are not, and a format
  text of well-formed pieces prints their values.
\<close>

section \<open>Numbers\<close>

text \<open>The decimal text of a number.\<close>

fun decimal :: "nat \<Rightarrow> u8 list" where
  "decimal n = (if n < 10 then [word_of_nat (48 + n)] else decimal (n div 10) @ [word_of_nat (48 + n mod 10)])"

definition decimal_int :: "int \<Rightarrow> u8 list" where
  "decimal_int v = (if v < 0 then [0x2d] else []) @ decimal (nat \<bar>v\<bar>)"

declare decimal.simps [simp del] itoa_loop.simps [simp del]

text \<open>The digits of \<open>n\<close> from the power \<open>10 ^ k\<close> on, with leading zeros.\<close>

fun digits_from :: "nat \<Rightarrow> nat \<Rightarrow> u8 list" where
  "digits_from 0 n = [word_of_nat (48 + n)]"
| "digits_from (Suc k) n = digits_from k (n div 10) @ [word_of_nat (48 + n mod 10)]"

lemma digits_from_first: "digits_from (Suc k) n = word_of_nat (48 + n div 10 ^ Suc k) # digits_from k (n mod 10 ^ Suc k)"
proof (induction k arbitrary: n)
  case (Suc k)
  have "digits_from (Suc (Suc k)) n = digits_from (Suc k) (n div 10) @ [word_of_nat (48 + n mod 10)]" by simp
  also have "\<dots> = word_of_nat (48 + n div 10 div 10 ^ Suc k) # digits_from k (n div 10 mod 10 ^ Suc k) @ [word_of_nat (48 + n mod 10)]"
    by (simp only: Suc.IH append_Cons)
  also have "n div 10 div 10 ^ Suc k = n div 10 ^ Suc (Suc k)" by (simp only: power_Suc [of _ "Suc k"] div_mult2_eq)
  also have "n div 10 mod 10 ^ Suc k = n mod 10 ^ Suc (Suc k) div 10" using mod_mult2_eq [of n 10 "10 ^ Suc k"] by simp
  also have "n mod 10 = n mod 10 ^ Suc (Suc k) mod 10" by (simp add: mod_mod_cancel)
  finally show ?case by simp
qed simp

lemma itoa_loop_digits: "n < 10 ^ Suc k * 10 \<Longrightarrow> itoa_loop (10 ^ k) (int n) True = digits_from k n"
proof (induction k arbitrary: n)
  case 0
  show ?case by (subst itoa_loop.simps, subst itoa_loop.simps) (simp add: Let_def)
next
  case (Suc k)
  have d: "int n div int (10 ^ Suc k) = int (n div 10 ^ Suc k)" by (simp add: zdiv_int)
  have m: "int n - int (n div 10 ^ Suc k) * int (10 ^ Suc k) = int (n mod 10 ^ Suc k)"
    by (simp add: minus_div_mult_eq_mod [symmetric] of_nat_diff del: of_nat_mult flip: of_nat_mult)
  have "itoa_loop (10 ^ Suc k) (int n) True = word_of_int (int (n div 10 ^ Suc k) + 0x30) # itoa_loop (10 ^ k) (int (n mod 10 ^ Suc k)) True"
    by (subst itoa_loop.simps) (simp only: Let_def d m, simp)
  also have "itoa_loop (10 ^ k) (int (n mod 10 ^ Suc k)) True = digits_from k (n mod 10 ^ Suc k)"
    by (rule Suc.IH) (simp add: less_le_trans [OF mod_less_divisor])
  also have "(word_of_int (int (n div 10 ^ Suc k) + 0x30) :: u8) = word_of_nat (48 + n div 10 ^ Suc k)" by (simp add: add.commute)
  finally show ?case by (simp only: digits_from_first)
qed

lemma decimal_digits: "n < 10 ^ Suc k \<Longrightarrow> 10 ^ k \<le> n \<or> k = 0 \<Longrightarrow> decimal n = digits_from k n"
proof (induction k arbitrary: n)
  case 0
  then show ?case by (simp add: decimal.simps)
next
  case (Suc k)
  then have "decimal (n div 10) = digits_from k (n div 10)" by (intro Suc.IH) (auto simp: less_mult_imp_div_less less_eq_div_iff_mult_less_eq)
  moreover have "\<not> n < 10"
  proof -
    have "(1 :: nat) \<le> 10 ^ k" by simp
    then show ?thesis using Suc.prems(2) unfolding power_Suc by linarith
  qed
  ultimately show ?case by (subst decimal.simps) simp
qed

lemma itoa_loop_skip: "n < 10 ^ Suc k \<Longrightarrow> 0 < n \<Longrightarrow> itoa_loop (10 ^ k) (int n) False = decimal n"
proof (induction k)
  case 0
  then show ?case using itoa_loop_digits [of n 0] decimal_digits [of n 0]
    by (simp add: itoa_loop.simps [of "Suc 0"] Let_def)
next
  case (Suc k)
  show ?case
  proof (cases "n < 10 ^ Suc k")
    case True
    then have "int n div int (10 ^ Suc k) = 0" by (simp only: zdiv_int [symmetric] div_less of_nat_0)
    then have "itoa_loop (10 ^ Suc k) (int n) False = itoa_loop (10 ^ k) (int n) False"
      by (subst itoa_loop.simps) (simp add: Let_def)
    then show ?thesis using Suc True by simp
  next
    case False
    then have "int n div int (10 ^ Suc k) \<noteq> 0" by (simp only: zdiv_int [symmetric] of_nat_eq_0_iff div_eq_0_iff) simp
    then have "itoa_loop (10 ^ Suc k) (int n) False = itoa_loop (10 ^ Suc k) (int n) True"
      by (subst (1 2) itoa_loop.simps) (simp add: Let_def)
    then show ?thesis using itoa_loop_digits [of n "Suc k"] decimal_digits [of n "Suc k"] Suc.prems False by simp
  qed
qed

lemma itoa_decimal:
  assumes "\<bar>v\<bar> < 100000"
  shows "itoa v 10 = decimal_int v"
proof (cases "v = 0")
  case True
  then show ?thesis by (simp add: itoa_def decimal_int_def decimal.simps)
next
  case False
  have "(if v < 0 then - v else v) = int (nat \<bar>v\<bar>)" by simp
  moreover have "itoa_loop (10 ^ 4) (int (nat \<bar>v\<bar>)) False = decimal (nat \<bar>v\<bar>)" using assms False by (intro itoa_loop_skip) auto
  ultimately show ?thesis using False by (simp add: itoa_def decimal_int_def)
qed

lemma length_digits_from: "length (digits_from k n) = Suc k"
  by (induction k arbitrary: n) simp_all

lemma itoa_six:
  assumes "100000 \<le> v" "v < 1000000"
  shows "itoa v 10 = word_of_int (v div 10000 + 0x30) # digits_from 3 (nat v mod 10000)"
proof -
  have d: "v div int 10000 \<noteq> 0" using assms by simp
  have "itoa v 10 = itoa_loop 10000 v False" using assms by (simp add: itoa_def)
  also have "\<dots> = word_of_int (v div int 10000 + 0x30) # itoa_loop (10000 div 10) (v - v div int 10000 * int 10000) True"
    by (subst itoa_loop.simps) (simp only: Let_def d, simp)
  finally have "itoa v 10 = word_of_int (v div 10000 + 0x30) # itoa_loop 1000 (v - v div 10000 * 10000) True" by simp
  also have "v - v div 10000 * 10000 = int (nat v mod 10000)"
    using assms minus_div_mult_eq_mod [of v 10000] by (simp add: nat_mod_as_int)
  also have "itoa_loop 1000 \<dots> True = digits_from 3 (nat v mod 10000)"
    using itoa_loop_digits [of "nat v mod 10000" 3] by (simp add: less_le_trans [OF mod_less_divisor])
  finally show ?thesis .
qed

text \<open>
  \<open>itoa\<close> writes the decimal text of every number of up to five digits, with its sign. For six
  digits it does not: it writes five characters, and the first, for the leading two digits, is beyond 9.
\<close>

theorem itoa_five_digits:
  "if \<bar>v\<bar> < 100000 then itoa v 10 = decimal_int v
   else if 0 \<le> v \<and> v < 1000000 then length (itoa v 10) = 5 \<and> unat (hd (itoa v 10)) > 0x39
   else True"
proof -
  have u: "unat (word_of_int (d + 0x30) :: u8) = nat d + 0x30" if "0 \<le> d" "d < 100" for d
  proof -
    have "(word_of_int (d + 0x30) :: u8) = word_of_nat (nat d + 0x30)" using that by simp
    then show ?thesis using that by (simp only: unat_of_nat) simp
  qed
  have "unat (hd (itoa v 10)) > 0x39" "length (itoa v 10) = 5" if v: "100000 \<le> v" "v < 1000000"
  proof -
    have d: "10 \<le> v div 10000" "v div 10000 < 100" using v by linarith+
    then have "unat (word_of_int (v div 10000 + 0x30) :: u8) = nat (v div 10000) + 0x30" by (intro u) linarith+
    moreover have "10 \<le> nat (v div 10000)" using d(1) by linarith
    ultimately show "unat (hd (itoa v 10)) > 0x39" "length (itoa v 10) = 5"
      by (simp_all only: itoa_six [OF v] list.sel list.size length_digits_from)
  qed
  then show ?thesis by (simp add: itoa_decimal)
qed

section \<open>Formatted output\<close>

text \<open>The pieces of a format text: how they are written, what they take, what they print.\<close>

datatype piece = Plain u8 | Cr | Lf | Dec int | Str ptr

fun piece_text :: "piece \<Rightarrow> u8 list" where
  "piece_text (Plain c) = [c]"
| "piece_text Cr = [0x5c, 0x72]"
| "piece_text Lf = [0x5c, 0x6e]"
| "piece_text (Dec v) = [0x25, 0x64]"
| "piece_text (Str s) = [0x25, 0x73]"

fun piece_args :: "piece \<Rightarrow> va list" where
  "piece_args (Dec v) = [Va_int v]"
| "piece_args (Str s) = [Va_str s]"
| "piece_args _ = []"

definition text_at :: "(ptr \<Rightarrow> u8) \<Rightarrow> ptr \<Rightarrow> u8 list \<Rightarrow> bool" where
  "text_at m s t \<longleftrightarrow> bytes_at m s (length t) = t \<and> m (s + length t) = 0 \<and> 0 \<notin> set t"

fun piece_out :: "(ptr \<Rightarrow> u8 list) \<Rightarrow> piece \<Rightarrow> u8 list" where
  "piece_out str (Plain c) = [c]"
| "piece_out str Cr = [0x0d]"
| "piece_out str Lf = [0x0a]"
| "piece_out str (Dec v) = decimal_int v"
| "piece_out str (Str s) = str s"

fun piece_ok :: "(ptr \<Rightarrow> u8) \<Rightarrow> (ptr \<Rightarrow> u8 list) \<Rightarrow> piece \<Rightarrow> bool" where
  "piece_ok m str (Plain c) \<longleftrightarrow> c \<notin> {0, 0x5c, 0x25}"
| "piece_ok m str (Dec v) \<longleftrightarrow> \<bar>v\<bar> < 100000"
| "piece_ok m str (Str s) \<longleftrightarrow> text_at m s (str s)"
| "piece_ok m str _ \<longleftrightarrow> True"

lemma text_at_Cons: "text_at m s (c # t) \<longleftrightarrow> m s = c \<and> c \<noteq> 0 \<and> text_at m (s + 1) t"
  by (auto simp: text_at_def bytes_at_Suc)

lemma text_at_Nil: "text_at m s [] \<longleftrightarrow> m s = 0"
  by (simp add: text_at_def)

lemma send_chars_text: "text_at m s t \<Longrightarrow> send_chars m s = Some t"
proof (induction t arbitrary: s)
  case Nil
  then show ?case by (subst send_chars.simps) (simp add: text_at_Nil)
next
  case (Cons c t)
  then show ?case by (subst send_chars.simps) (simp add: text_at_Cons)
qed

lemma printf_pieces:
  assumes "text_at m data (concat (map piece_text ps))" "list_all (piece_ok m str) ps"
  shows "printf_loop m data (concat (map piece_args ps)) = Some (concat (map (piece_out str) ps))"
  using assms
proof (induction ps arbitrary: data)
  case Nil
  then show ?case by (subst printf_loop.simps) (simp add: text_at_Nil)
next
  case (Cons q ps)
  then show ?case
    by (cases q; subst printf_loop.simps; auto simp: text_at_Cons send_chars_text itoa_decimal)
qed

text \<open>
  C37: \<open>USART1_printf\<close> with a format text of well-formed pieces ends and sends the pieces in order: plain
  characters as they are, the two escapes, numbers of up to five digits in decimal, and texts.
\<close>

theorem printf_output:
  assumes "text_at m data (concat (map piece_text ps))" "list_all (piece_ok m str) ps"
  shows "USART1_printf m data (concat (map piece_args ps)) = Some (concat (map (piece_out str) ps))"
  unfolding USART1_printf_def by (rule printf_pieces [OF assms])

text \<open>\<open>x=%d\n\<close> with -42.\<close>

theorem printf_output_witness:
  "USART1_printf ((!) [0x78, 0x3d, 0x25, 0x64, 0x5c, 0x6e, 0]) 0 [Va_int (- 42)] = Some [0x78, 0x3d, 0x2d, 0x34, 0x32, 0x0a]"
proof -
  have "text_at ((!) [0x78, 0x3d, 0x25, 0x64, 0x5c, 0x6e, 0]) 0 (concat (map piece_text [Plain 0x78, Plain 0x3d, Dec (- 42), Lf]))"
    by (simp add: text_at_Cons text_at_Nil)
  from printf_output [OF this, of "\<lambda>_. []"] show ?thesis by (simp add: decimal_int_def decimal.simps)
qed

text \<open>
  A format text that ends in a percent sign is read beyond its end: what is sent goes on with the memory
  behind the terminating zero.
\<close>

lemma printf_runs_past: "m data = 0x25 \<Longrightarrow> m (data + 1) = 0 \<Longrightarrow> USART1_printf m data ap = USART1_printf m (data + 2) ap"
  unfolding USART1_printf_def by (subst printf_loop.simps) simp

end
