(* ===== verification/Ip_Reass_Props.thy ===== *)
theory Ip_Reass_Props
  imports Ip_Reass Etharp_Reply
begin

text \<open>
  Reassembly: the fragments of a datagram, linked through the packets, are a list ordered by offset,
  and inserting a fragment is an operation on that list. What counts as complete is not always so.
\<close>

section \<open>The list of fragments\<close>

definition frag_link :: "('d, 'm) gw_scheme \<Rightarrow> ptr \<Rightarrow> ptr" where
  "frag_link g p = frag_next (payload_of p g) g"

definition fstart :: "('d, 'm) gw_scheme \<Rightarrow> ptr \<Rightarrow> u16" where
  "fstart g p = frag_start (payload_of p g) g"

definition fend :: "('d, 'm) gw_scheme \<Rightarrow> ptr \<Rightarrow> u16" where
  "fend g p = frag_end (payload_of p g) g"

text \<open>The first 8 bytes of the packets are apart from each other.\<close>

definition helpers_ok :: "ptr list \<Rightarrow> ('d, 'm) gw_scheme \<Rightarrow> bool" where
  "helpers_ok ps g \<longleftrightarrow> distinct ps \<and> (\<forall>p\<in>set ps. 0 < p \<and> p < 2 ^ 32 \<and> 0 < payload_of p g)
     \<and> (\<forall>p\<in>set ps. \<forall>q\<in>set ps. p \<noteq> q \<longrightarrow> payload_of p g + 8 \<le> payload_of q g \<or> payload_of q g + 8 \<le> payload_of p g)"

text \<open>Where a fragment goes in the list: between the two parts of the result, or nowhere.\<close>

fun place :: "u16 \<Rightarrow> u16 \<Rightarrow> (ptr \<Rightarrow> u16) \<Rightarrow> (ptr \<Rightarrow> u16) \<Rightarrow> ptr list \<Rightarrow> ptr list \<Rightarrow> (ptr list \<times> ptr list) option" where
  "place s e st en ys [] = Some (ys, [])"
| "place s e st en ys (z # zs) =
     (if s < st z then if ys \<noteq> [] \<and> (s < en (last ys) \<or> e > st z) then None else Some (ys, z # zs)
      else if s = st z \<or> s < en z then None
      else place s e st en (ys @ [z]) zs)"

fun contig :: "(ptr \<Rightarrow> u16) \<Rightarrow> (ptr \<Rightarrow> u16) \<Rightarrow> ptr list \<Rightarrow> bool" where
  "contig st en (x # y # ps) \<longleftrightarrow> en x = st y \<and> contig st en (y # ps)"
| "contig st en ps \<longleftrightarrow> True"

text \<open>
  What the code takes for complete: the fragments before the new one are contiguous, and so are those from
  it on. Between the two it looks only when the new one comes last.
\<close>

definition seems_complete :: "(ptr \<Rightarrow> u16) \<Rightarrow> (ptr \<Rightarrow> u16) \<Rightarrow> ptr \<Rightarrow> ptr list \<Rightarrow> ptr list \<Rightarrow> bool" where
  "seems_complete st en p ys zs \<longleftrightarrow> contig st en ys \<and> (zs = [] \<and> ys \<noteq> [] \<longrightarrow> en (last ys) = st p) \<and> contig st en (p # zs)
     \<and> st (hd (ys @ [p])) = 0"

lemma contig_snoc: "contig st en (ys @ [z]) \<longleftrightarrow> contig st en ys \<and> (ys \<noteq> [] \<longrightarrow> en (last ys) = st z)"
  by (induction st en ys rule: contig.induct) auto

section \<open>Writing links\<close>

lemma addr_word: "load32 (store_bytes a (addr_bytes x) m) a = x"
proof -
  have "store_bytes a (addr_bytes x) m (a + i) = addr_bytes x ! i" if "i < 4" for i
    using that by (intro store_bytes_inside) (simp add: addr_bytes_def)
  from this [of 0] this [of 1] this [of 2] this [of 3]
  have m: "store_bytes a (addr_bytes x) m a = ucast x" "store_bytes a (addr_bytes x) m (a + 1) = ucast (drop_bit 8 x)"
    "store_bytes a (addr_bytes x) m (a + 2) = ucast (drop_bit 16 x)" "store_bytes a (addr_bytes x) m (a + 3) = ucast (drop_bit 24 x)"
    by (simp_all add: addr_bytes_def)
  show ?thesis
  proof (rule bit_word_eqI)
    fix n assume n: "n < LENGTH(32)"
    consider "n < 8" | "8 \<le> n" "n < 16" | "16 \<le> n" "n < 24" | "24 \<le> n" "n < 32" using n by fastforce
    then show "bit (load32 (store_bytes a (addr_bytes x) m) a) n = bit x n"
      unfolding load32_def m by cases (auto simp: bit_simps)
  qed
qed

lemma half_word: "load16 (store_bytes a (u16_bytes x) m) a = x"
proof -
  have "store_bytes a (u16_bytes x) m (a + i) = u16_bytes x ! i" if "i < 2" for i
    using that by (intro store_bytes_inside) (simp add: u16_bytes_def)
  from this [of 0] this [of 1]
  have m: "store_bytes a (u16_bytes x) m a = ucast x" "store_bytes a (u16_bytes x) m (a + 1) = ucast (drop_bit 8 x)"
    by (simp_all add: u16_bytes_def)
  show ?thesis
  proof (rule bit_word_eqI)
    fix n assume n: "n < LENGTH(16)"
    then show "bit (load16 (store_bytes a (u16_bytes x) m) a) n = bit x n"
      unfolding load16_def m by (cases "n < 8") (auto simp: bit_simps)
  qed
qed

lemma load_outside:
  "a + 4 \<le> p \<or> p + length bs \<le> a \<Longrightarrow> load32 (store_bytes p bs m) a = load32 m a"
  "a + 2 \<le> p \<or> p + length bs \<le> a \<Longrightarrow> load16 (store_bytes p bs m) a = load16 m a"
  by (auto simp: load32_def load16_def store_bytes_outside)

lemma payload_poke [simp]: "payload_of p (poke a bs g) = payload_of p g" "payload_of p (set_frag_next a q g) = payload_of p g"
  by (simp_all add: payload_of_def poke_def set_frag_next_def)

lemma length_addr [simp]: "length (addr_bytes x) = 4" "length (u16_bytes y) = 2"
  by (simp_all add: addr_bytes_def u16_bytes_def)

lemma octet_poke: "octet (lwm (poke a bs g)) = store_bytes a bs (octet (lwm g))"
  by (simp add: poke_def)

lemma set_link:
  assumes "helpers_ok ps g" "p \<in> set ps" "x \<in> set ps" "q < 2 ^ 32"
  shows "frag_link (set_frag_next (payload_of p g) q g) x = (if x = p then q else frag_link g x)"
    "fstart (set_frag_next (payload_of p g) q g) x = fstart g x" "fend (set_frag_next (payload_of p g) q g) x = fend g x"
proof -
  let ?p = "payload_of p g" and ?x = "payload_of x g"
  have d: "x = p \<or> ?p + 8 \<le> ?x \<or> ?x + 8 \<le> ?p" using assms(1-3) by (auto simp: helpers_ok_def)
  have q: "unat (word_of_nat q :: u32) = q" using assms(4) by (simp add: unat_of_nat)
  show "frag_link (set_frag_next ?p q g) x = (if x = p then q else frag_link g x)"
    using d by (auto simp: frag_link_def frag_next_def set_frag_next_def octet_poke addr_word load_outside q)
  show "fstart (set_frag_next ?p q g) x = fstart g x" "fend (set_frag_next ?p q g) x = fend g x"
    using d by (auto simp: fstart_def fend_def frag_start_def frag_end_def set_frag_next_def octet_poke load_outside)
qed

lemma helpers_set [simp]: "helpers_ok ps (set_frag_next a q g) = helpers_ok ps g"
  by (simp add: helpers_ok_def)


section \<open>Linking a fragment in\<close>

fun first_of :: "ptr list \<Rightarrow> ptr" where
  "first_of [] = NULL"
| "first_of (z # zs) = z"

lemma chain_first_of: "chain nxt p xs \<Longrightarrow> p = first_of xs"
  by (cases xs) auto

lemma chain_insert:
  assumes "chain nxt p (ys @ zs)" "distinct (ys @ zs)" "n \<notin> set (ys @ zs)" "n \<noteq> NULL"
  shows "chain (if ys = [] then nxt(n := first_of zs) else nxt(n := first_of zs, last ys := n)) (if ys = [] then n else p) (ys @ n # zs)"
  using assms
proof (induction ys arbitrary: p)
  case Nil
  have "chain (nxt(n := first_of zs)) p zs" using Nil by simp
  then show ?case using Nil(4) chain_first_of [of nxt p zs] Nil(1) by (simp add: fun_upd_def)
next
  case (Cons y ys)
  show ?case
  proof (cases "ys = []")
    case True
    have "chain (nxt(n := first_of zs, y := n)) (first_of zs) zs"
      using Cons.prems chain_first_of [of nxt "nxt y" zs] True by simp
    then show ?thesis using Cons.prems True by (auto simp: fun_upd_def)
  next
    case False
    then have "chain (nxt(n := first_of zs, last ys := n)) (nxt y) (ys @ n # zs)" using Cons by (auto simp: fun_upd_def)
    moreover have "y \<noteq> last ys" "y \<noteq> n" using Cons.prems False last_in_set [of ys] by auto
    ultimately show ?thesis using Cons.prems False by (simp add: fun_upd_def)
  qed
qed

definition link_in :: "ptr \<Rightarrow> ptr \<Rightarrow> ptr list \<Rightarrow> ptr list \<Rightarrow> ('d, 'm) reass_scheme \<Rightarrow> ('d, 'm) reass_scheme" where
  "link_in ipr n ys zs g =
     (let g = (if zs = [] then g else set_frag_next (payload_of n g) (hd zs) g)
      in if ys = [] then upd_reass ipr (\<lambda>r. r\<lparr>r_p := n\<rparr>) g else set_frag_next (payload_of (last ys) g) n g)"

lemma upd_reass_sel [simp]:
  "payload_of p (upd_reass r f g) = payload_of p g" "frag_link (upd_reass r f g) = frag_link g" "fstart (upd_reass r f g) = fstart g"
  "fend (upd_reass r f g) = fend g" "reassdata (upd_reass r f g) r = f (reassdata g r)" "lwm (upd_reass r f g) = lwm g"
  by (simp_all add: fun_eq_iff frag_link_def fstart_def fend_def frag_next_def frag_start_def frag_end_def payload_of_def upd_reass_def)

lemma reass_poke_sel [simp]:
  "reassdata (poke a bs g) = reassdata g" "reassdata (set_frag_next a q g) = reassdata g" "pbufs (lwm (poke a bs g)) = pbufs (lwm g)"
  by (simp_all add: poke_def set_frag_next_def)

lemma link_in_same:
  assumes "helpers_ok (n # ys @ zs) g" "x \<in> set (n # ys @ zs)"
  shows "fstart (link_in ipr n ys zs g) x = fstart g x" "fend (link_in ipr n ys zs g) x = fend g x"
proof -
  note l = set_link [OF assms(1) _ assms(2)]
  have small: "n < 2 ^ 32" "zs \<noteq> [] \<Longrightarrow> hd zs < 2 ^ 32" using assms(1) by (auto simp: helpers_ok_def)
  define g1 where "g1 = (if zs = [] then g else set_frag_next (payload_of n g) (hd zs) g)"
  have 1: "fstart g1 x = fstart g x" "fend g1 x = fend g x"
    using small l(2,3) [of n "hd zs"] by (auto simp: g1_def)
  have ok: "helpers_ok (n # ys @ zs) g1" using assms(1) unfolding g1_def by (cases "zs = []") simp_all
  have "fstart (set_frag_next (payload_of (last ys) g1) n g1) x = fstart g1 x" "fend (set_frag_next (payload_of (last ys) g1) n g1) x = fend g1 x"
    if "ys \<noteq> []" using set_link(2,3) [OF ok _ assms(2) small(1), of "last ys"] that by simp_all
  then show "fstart (link_in ipr n ys zs g) x = fstart g x" "fend (link_in ipr n ys zs g) x = fend g x"
    using 1 by (auto simp: link_in_def Let_def g1_def [symmetric])
qed

lemma link_in_chain:
  assumes "helpers_ok (n # ys @ zs) g" "chain (frag_link g) (r_p (reassdata g ipr)) (ys @ zs)" "frag_link g n = NULL"
  shows "chain (frag_link (link_in ipr n ys zs g)) (r_p (reassdata (link_in ipr n ys zs g) ipr)) (ys @ n # zs)"
proof -
  have n: "distinct (ys @ zs)" "n \<notin> set (ys @ zs)" "n \<noteq> NULL" and small: "n < 2 ^ 32" "zs \<noteq> [] \<Longrightarrow> hd zs < 2 ^ 32"
    using assms(1) by (auto simp: helpers_ok_def)
  define g1 where "g1 = (if zs = [] then g else set_frag_next (payload_of n g) (hd zs) g)"
  have ok: "helpers_ok (n # ys @ zs) g1" using assms(1) unfolding g1_def by (cases "zs = []") simp_all
  have 1: "frag_link g1 x = ((frag_link g)(n := first_of zs)) x" if "x \<in> set (n # ys @ zs)" for x
    using set_link(1) [OF assms(1) _ that, of n "hd zs"] small assms(3) by (cases zs) (auto simp: g1_def)
  have 2: "frag_link (link_in ipr n ys zs g) x =
      (if ys = [] then (frag_link g)(n := first_of zs) else (frag_link g)(n := first_of zs, last ys := n)) x"
    if "x \<in> set (n # ys @ zs)" for x
    using set_link(1) [OF ok _ that small(1), of "last ys"] 1 [OF that]
    by (simp add: link_in_def Let_def g1_def [symmetric])
  have 3: "r_p (reassdata (link_in ipr n ys zs g) ipr) = (if ys = [] then n else r_p (reassdata g ipr))"
    by (simp add: link_in_def Let_def)
  show ?thesis unfolding 3 using chain_insert [OF assms(2) n] by (subst chain_cong [OF 2]) auto
qed


section \<open>Finding the place\<close>

lemma place_append: "place s e st en ys zs = Some (ys', zs') \<Longrightarrow> ys' @ zs' = ys @ zs"
  by (induction s e st en ys zs rule: place.induct) (auto split: if_splits)

definition before :: "ptr list \<Rightarrow> ('d, 'm) gw_scheme \<Rightarrow> ptr" where
  "before ys g = (if ys = [] then NULL else payload_of (last ys) g)"

text \<open>The loop finds the place; a fragment without one has been given a link at most.\<close>

lemma place_loop_spec:
  fixes g :: "('d, 'm) reass_scheme"
  assumes "helpers_ok (n # ys @ zs) g" "chain (frag_link g) q zs"
  shows "case place (fstart g n) (fend g n) (fstart g) (fend g) ys zs of
      None \<Rightarrow> \<exists>q' prev' v' g'. place_loop ipr n (payload_of n g) q (before ys g) (contig (fstart g) (fend g) ys) g = Some (True, q', prev', v', g')
        \<and> (g' = g \<or> (\<exists>z\<in>set zs. g' = set_frag_next (payload_of n g) z g))
    | Some (ys', zs') \<Rightarrow>
        place_loop ipr n (payload_of n g) q (before ys g) (contig (fstart g) (fend g) ys) g
          = Some (False, first_of zs', before ys' g, contig (fstart g) (fend g) ys', if zs' = [] then g else link_in ipr n ys' zs' g)"
  using assms
proof (induction zs arbitrary: ys q)
  case Nil
  then show ?case by (subst place_loop.simps) simp
next
  case (Cons z zs)
  let ?st = "fstart g" and ?en = "fend g" and ?g = "set_frag_next (payload_of n g) z g"
  have q: "q = z" "z \<noteq> NULL" and ch: "chain (frag_link g) (frag_link g z) zs" using Cons.prems by auto
  have z: "z < 2 ^ 32" using Cons.prems(1) by (simp add: helpers_ok_def)
  have pos: "before ys g \<noteq> NULL \<longleftrightarrow> ys \<noteq> []" using Cons.prems(1) last_in_set [of ys] by (auto simp: before_def helpers_ok_def)
  note same = set_link(2,3) [OF Cons.prems(1) _ _ z, of n]
  have s: "frag_start (payload_of x g) ?g = ?st x" "frag_end (payload_of x g) ?g = ?en x"
    "frag_start (payload_of x g) g = ?st x" "frag_end (payload_of x g) g = ?en x" if "x \<in> set (n # ys @ z # zs)" for x
    using same [OF _ that] by (simp_all add: fstart_def fend_def)
  have l: "ys \<noteq> [] \<Longrightarrow> last ys \<in> set (n # ys @ z # zs)" by simp
  have b: "frag_start (before ys g) ?g = ?st (last ys)" "frag_end (before ys g) ?g = ?en (last ys)"
    "frag_end (before ys g) g = ?en (last ys)" if "ys \<noteq> []" using s [OF l [OF that]] that by (simp_all add: before_def)
  have c: "contig ?st ?en (ys @ [z]) \<longleftrightarrow> contig ?st ?en ys \<and> (before ys g \<noteq> NULL \<longrightarrow> frag_end (before ys g) g = frag_start (payload_of z g) g)"
    using pos b(3) s(3) [of z] by (auto simp: contig_snoc)
  have "helpers_ok (n # (ys @ [z]) @ zs) g" using Cons.prems(1) by simp
  note IH = Cons.IH [OF this ch]
  have bz: "before (ys @ [z]) g = payload_of z g" by (simp add: before_def)
  have fl: "frag_next (payload_of z g) g = frag_link g z" by (simp add: frag_link_def)
  note sn = s [of n, simplified] and sz = s [of z, simplified]
  let ?V = "contig ?st ?en ys" and ?b = "before ys g"
  have pl: "place_loop ipr n (payload_of n g) q ?b ?V g =
    (if ?st n < ?st z
     then if ys \<noteq> []
          then if ?st n < ?en (last ys) \<or> ?en n > ?st z then Some (True, z, ?b, ?V, ?g)
               else Some (False, z, ?b, ?V, set_frag_next ?b n ?g)
          else Some (False, z, ?b, ?V, upd_reass ipr (\<lambda>r. r\<lparr>r_p := n\<rparr>) ?g)
     else if ?st n = ?st z \<or> ?st n < ?en z then Some (True, z, ?b, ?V, g)
     else place_loop ipr n (payload_of n g) (frag_link g z) (payload_of z g) (contig ?st ?en (ys @ [z])) g)"
  proof (cases "ys = []")
    case True
    then have "?b = NULL" by (simp add: before_def)
    then show ?thesis using q True sn sz unfolding c by (subst place_loop.simps) (simp add: Let_def fl)
  next
    case False
    then show ?thesis using q pos sn sz unfolding c by (subst place_loop.simps) (simp add: Let_def b fl)
  qed
  show ?case
  proof (cases "?st n < ?st z")
    case True
    then show ?thesis using pl by (cases "ys = []") (auto simp: link_in_def before_def)
  next
    case ge: False
    show ?thesis
    proof (cases "?st n = ?st z \<or> ?st n < ?en z")
      case True
      then show ?thesis using ge pl by auto
    next
      case False
      then show ?thesis using IH pl ge unfolding bz by (auto split: option.splits prod.splits)
    qed
  qed
qed


section \<open>The validation\<close>

lemma contig_loop_spec:
  assumes "chain (frag_link g) (frag_link g p) zs"
  shows "if contig (fstart g) (fend g) (p # zs) then contig_loop (payload_of p g) (frag_link g p) g = Some (True, payload_of (last (p # zs)) g)
    else \<exists>h. contig_loop (payload_of p g) (frag_link g p) g = Some (False, h)"
  using assms
proof (induction zs arbitrary: p)
  case Nil
  then show ?case by (subst contig_loop.simps) simp
next
  case (Cons z zs)
  have "contig_loop (payload_of p g) (frag_link g p) g =
    (if fend g p \<noteq> fstart g z then Some (False, payload_of z g) else contig_loop (payload_of z g) (frag_link g z) g)"
    using Cons.prems by (subst contig_loop.simps) (simp add: Let_def fstart_def fend_def frag_link_def)
  then show ?case using Cons.IH [of z] Cons.prems by auto
qed

lemma place_end: "place s e st en ys zs = Some (ys', []) \<Longrightarrow> zs \<noteq> [] \<Longrightarrow> \<not> s < en (last ys')"
  by (induction s e st en ys zs rule: place.induct) (auto split: if_splits, metis last_snoc place.simps(1) option.inject prod.inject)

lemma chain_last: "chain nxt p (ys @ n # zs) \<Longrightarrow> chain nxt (nxt n) zs \<and> nxt (last (n # zs)) = NULL"
proof -
  assume a: "chain nxt p (ys @ n # zs)"
  have "chain nxt q zs \<Longrightarrow> zs \<noteq> [] \<Longrightarrow> nxt (last zs) = NULL" for q
    by (induction zs arbitrary: q) (auto split: if_splits)
  then show ?thesis using chain_append [OF a] by (cases "zs = []") auto
qed

lemma all_received_spec:
  fixes g :: "('d, 'm) reass_scheme"
  assumes ok: "helpers_ok (n # ys @ zs) g" and ch: "chain (frag_link g) (r_p (reassdata g ipr)) (ys @ n # zs)"
  defines "st \<equiv> fstart g" and "en \<equiv> fend g"
  shows "all_received ipr (payload_of n g) v g =
    (if r_flags (reassdata g ipr) AND IP_REASS_FLAG_LASTFRAG \<noteq> 0 \<and> v \<and> st (hd (ys @ [n])) = 0 \<and> contig st en (n # zs)
     then if ys @ zs \<noteq> [] \<and> en (last (n # zs)) = datagram_len (reassdata g ipr) then Some True else None
     else Some False)"
proof -
  have p: "r_p (reassdata g ipr) = hd (ys @ [n])" "r_p (reassdata g ipr) \<noteq> NULL" using ch by (cases ys; simp)+
  have s: "frag_start (payload_of (hd (ys @ [n])) g) g = st (hd (ys @ [n]))" "frag_end (payload_of (last (n # zs)) g) g = en (last (n # zs))"
    by (simp_all add: st_def en_def fstart_def fend_def)
  have e: "frag_next (payload_of (last (n # zs)) g) g = NULL" using chain_last [OF ch] by (simp add: frag_link_def)
  have i: "payload_of (hd (ys @ [n])) g = payload_of (last (n # zs)) g \<longleftrightarrow> ys @ zs = []"
  proof -
    have "hd (ys @ [n]) = last (n # zs) \<longleftrightarrow> ys @ zs = []"
      using ok last_in_set [of zs] by (cases ys) (auto simp: helpers_ok_def)
    moreover have "hd (ys @ [n]) \<in> set (n # ys @ zs)" "last (n # zs) \<in> set (n # ys @ zs)"
      using last_in_set [of "n # zs"] by (cases ys; force)+
    ultimately show ?thesis using ok unfolding helpers_ok_def by (metis add_leD1 add_le_same_cancel1 le_zero_eq zero_neq_numeral)
  qed
  have l: "frag_next (payload_of n g) g = frag_link g n" by (simp add: frag_link_def)
  note cl = contig_loop_spec [OF conjunct1 [OF chain_last [OF ch]], folded st_def en_def]
  show ?thesis
  proof (cases "contig st en (n # zs)")
    case True
    then show ?thesis using cl p e i s unfolding all_received_def Let_def l p(1) by simp
  next
    case False
    then show ?thesis using cl p s unfolding all_received_def Let_def l p(1) by auto
  qed
qed


section \<open>The insertion\<close>

text \<open>The bounds of the data of a fragment, from its header.\<close>

definition offset_of :: "('d, 'm) gw_scheme \<Rightarrow> ptr \<Rightarrow> u16" where
  "offset_of g n = (lwip_ntohs (hdr_offset (payload_of n g) g) AND IP_OFFMASK) * 8"

definition end_of :: "('d, 'm) gw_scheme \<Rightarrow> ptr \<Rightarrow> u16" where
  "end_of g n = offset_of g n + (hdr_len (payload_of n g) g - hdr_hlen (payload_of n g) g)"

lemma make_helper_spec:
  assumes "helpers_ok (n # fs) g"
  shows "frag_link (make_helper (payload_of n g) g) n = NULL" "fstart (make_helper (payload_of n g) g) n = offset_of g n"
    "fend (make_helper (payload_of n g) g) n = end_of g n"
    "x \<in> set fs \<Longrightarrow> frag_link (make_helper (payload_of n g) g) x = frag_link g x"
    "x \<in> set fs \<Longrightarrow> fstart (make_helper (payload_of n g) g) x = fstart g x"
    "x \<in> set fs \<Longrightarrow> fend (make_helper (payload_of n g) g) x = fend g x"
proof -
  let ?p = "payload_of n g" and ?x = "payload_of x g"
  have d: "?p + 8 \<le> ?x \<or> ?x + 8 \<le> ?p" if "x \<in> set fs" using assms that by (auto simp: helpers_ok_def)
  note defs = make_helper_def Let_def set_frag_next_def octet_poke frag_link_def fstart_def fend_def frag_next_def frag_start_def frag_end_def
  show "frag_link (make_helper ?p g) n = NULL" by (simp add: defs load_outside addr_word)
  show "fstart (make_helper ?p g) n = offset_of g n" by (simp add: defs load_outside half_word offset_of_def)
  show "fend (make_helper ?p g) n = end_of g n" by (simp add: defs half_word offset_of_def end_of_def)
  assume "x \<in> set fs"
  from d [OF this] show "frag_link (make_helper ?p g) x = frag_link g x" "fstart (make_helper ?p g) x = fstart g x"
    "fend (make_helper ?p g) x = fend g x" by (auto simp: defs load_outside)
qed

lemma make_helper_sel [simp]:
  "reassdata (make_helper a g) = reassdata g" "payload_of p (make_helper a g) = payload_of p g" "helpers_ok ps (make_helper a g) = helpers_ok ps g"
  by (simp_all add: make_helper_def Let_def helpers_ok_def)

lemma place_cong:
  "(\<And>x. x \<in> set (ys @ zs) \<Longrightarrow> st x = st' x \<and> en x = en' x) \<Longrightarrow> place s e st en ys zs = place s e st' en' ys zs"
proof (induction s e st en ys zs rule: place.induct)
  case (2 s e st en ys z zs)
  have "ys \<noteq> [] \<Longrightarrow> en (last ys) = en' (last ys)" "st z = st' z" "en z = en' z" using 2(2) by auto
  moreover have "place s e st en (ys @ [z]) zs = place s e st' en' (ys @ [z]) zs" if "\<not> s < st z" "\<not> (s = st z \<or> s < en z)"
    using 2(1) [OF that] 2(2) by simp
  ultimately show ?case by auto
qed simp


lemma contig_cong: "(\<And>x. x \<in> set ps \<Longrightarrow> st x = st' x \<and> en x = en' x) \<Longrightarrow> contig st en ps = contig st' en' ps"
  by (induction st en ps rule: contig.induct) auto

text \<open>The fragments of a datagram, in order, with the bounds of their data.\<close>

definition frags_are :: "('d, 'm) reass_scheme \<Rightarrow> ptr \<Rightarrow> ptr list \<Rightarrow> (ptr \<Rightarrow> u16) \<Rightarrow> (ptr \<Rightarrow> u16) \<Rightarrow> bool" where
  "frags_are g ipr ps st en \<longleftrightarrow> chain (frag_link g) (r_p (reassdata g ipr)) ps \<and> (\<forall>p\<in>set ps. fstart g p = st p \<and> fend g p = en p)"

text \<open>What is known of the end of the datagram.\<close>

definition noted :: "('d, 'm) reass_scheme \<Rightarrow> ptr \<Rightarrow> bool \<times> u16" where
  "noted g ipr = (r_flags (reassdata g ipr) AND IP_REASS_FLAG_LASTFRAG \<noteq> 0, datagram_len (reassdata g ipr))"

lemma noted_same [simp]:
  "noted (make_helper a g) ipr = noted g ipr" "noted (set_frag_next a q g) ipr = noted g ipr" "noted (link_in ipr n ys zs g) ipr = noted g ipr"
  by (simp_all add: noted_def make_helper_def link_in_def Let_def)

text \<open>The end of the insertion, for a fragment with a place.\<close>

lemma linked_in:
  fixes g :: "('d, 'm) reass_scheme"
  assumes ok: "helpers_ok (n # ys @ zs) g" and fr: "frags_are g ipr (ys @ zs) st en"
    and n: "fstart g n = st n" "fend g n = en n" "frag_link g n = NULL" and pl: "place (st n) (en n) st en [] (ys @ zs) = Some (ys, zs)"
  defines "g' \<equiv> link_in ipr n ys zs g" and "d \<equiv> reassdata g ipr"
  shows "frags_are g' ipr (ys @ n # zs) st en"
    "Option.bind (if first_of zs = NULL then append_frag ipr n (payload_of n g) (before ys g) (contig (fstart g) (fend g) ys) (if zs = [] then g else g')
        else Some (contig (fstart g) (fend g) ys, if zs = [] then g else g'))
      (\<lambda>(valid, h). map_option (\<lambda>v. (v, h)) (all_received ipr (payload_of n g) valid h))
     = (if r_flags d AND IP_REASS_FLAG_LASTFRAG \<noteq> 0 \<and> seems_complete st en n ys zs
        then if ys @ zs \<noteq> [] \<and> en (last (n # zs)) = datagram_len d then Some (True, g') else None
        else Some (False, g'))"
proof -
  have ch: "chain (frag_link g) (r_p (reassdata g ipr)) (ys @ zs)" using fr by (simp add: frags_are_def)
  have eq: "fstart g x = st x" "fend g x = en x" if "x \<in> set (n # ys @ zs)" for x
    using fr n that by (auto simp: frags_are_def)
  have eq': "fstart g' x = st x" "fend g' x = en x" if "x \<in> set (n # ys @ zs)" for x
    using link_in_same [OF ok that] eq [OF that] by (simp_all add: g'_def)
  have ch': "chain (frag_link g') (r_p (reassdata g' ipr)) (ys @ n # zs)" unfolding g'_def by (rule link_in_chain [OF ok ch n(3)])
  then show "frags_are g' ipr (ys @ n # zs) st en" using eq' by (simp add: frags_are_def)
  have ok': "helpers_ok (n # ys @ zs) g'" and pay: "payload_of x g' = payload_of x g" for x
    using ok by (simp_all add: g'_def link_in_def Let_def) (simp_all add: helpers_ok_def)
  have d': "r_flags (reassdata g' ipr) = r_flags d" "datagram_len (reassdata g' ipr) = datagram_len d"
    by (simp_all add: g'_def link_in_def Let_def d_def)
  have cv: "contig (fstart g) (fend g) ys = contig st en ys" "contig (fstart g') (fend g') (n # zs) = contig st en (n # zs)"
    using eq eq' by (auto intro!: contig_cong)
  have hl: "hd (ys @ [n]) \<in> set (n # ys @ zs)" "last (n # zs) \<in> set (n # ys @ zs)" using last_in_set [of "n # zs"] by (cases ys; force)+
  have ar: "all_received ipr (payload_of n g) v g' =
    (if r_flags d AND IP_REASS_FLAG_LASTFRAG \<noteq> 0 \<and> v \<and> st (hd (ys @ [n])) = 0 \<and> contig st en (n # zs)
     then if ys @ zs \<noteq> [] \<and> en (last (n # zs)) = datagram_len d then Some True else None
     else Some False)" for v
    using all_received_spec [OF ok' ch', of v] unfolding pay d' cv eq' [OF hl(1)] eq' [OF hl(2)] .
  have first: "first_of zs = NULL \<longleftrightarrow> zs = []" using ok by (cases zs) (auto simp: helpers_ok_def)
  have ap: "append_frag ipr n (payload_of n g) (before ys g) v g = Some (v \<and> (ys \<noteq> [] \<longrightarrow> en (last ys) = st n), g')" if zs: "zs = []" for v
  proof (cases "ys = []")
    case True
    then have "r_p (reassdata g ipr) = NULL" using ch zs by simp
    then show ?thesis using True zs by (simp add: append_frag_def before_def g'_def link_in_def)
  next
    case False
    then have l: "last ys \<in> set (n # ys @ zs)" by simp
    then have "payload_of (last ys) g \<noteq> NULL" using ok by (auto simp: helpers_ok_def)
    moreover have "\<not> st n < en (last ys)" using place_end [of "st n" "en n" st en "[]" "ys @ zs" ys] pl zs False by simp
    moreover have "frag_end (payload_of (last ys) g) g = en (last ys)" "frag_start (payload_of n g) g = st n"
      "frag_end (payload_of (last ys) g) g' = en (last ys)" "frag_start (payload_of n g) g' = st n"
      using eq [OF l] eq' [OF l] n(1) eq'(1) [of n] pay by (simp_all add: fstart_def fend_def)
    ultimately show ?thesis using False zs unfolding append_frag_def before_def g'_def link_in_def Let_def by simp
  qed
  show "Option.bind (if first_of zs = NULL then append_frag ipr n (payload_of n g) (before ys g) (contig (fstart g) (fend g) ys) (if zs = [] then g else g')
        else Some (contig (fstart g) (fend g) ys, if zs = [] then g else g'))
      (\<lambda>(valid, h). map_option (\<lambda>v. (v, h)) (all_received ipr (payload_of n g) valid h))
     = (if r_flags d AND IP_REASS_FLAG_LASTFRAG \<noteq> 0 \<and> seems_complete st en n ys zs
        then if ys @ zs \<noteq> [] \<and> en (last (n # zs)) = datagram_len d then Some (True, g') else None
        else Some (False, g'))"
    unfolding first cv by (cases "zs = []") (auto simp: ap ar seems_complete_def)
qed


lemma chain_frag:
  fixes g :: "('d, 'm) reass_scheme"
  assumes ok: "helpers_ok (n # fs) g" and ch: "chain (frag_link g) (r_p (reassdata g ipr)) fs"
  defines "st \<equiv> (fstart g)(n := offset_of g n)" and "en \<equiv> (fend g)(n := end_of g n)"
  shows "case place (st n) (en n) st en [] fs of
      None \<Rightarrow> \<exists>g'. frags_are g' ipr fs st en \<and> noted g' ipr = noted g ipr \<and> ip_reass_chain_frag_into_datagram_and_validate ipr n g = throw_away n g'
    | Some (ys, zs) \<Rightarrow> \<exists>g'. frags_are g' ipr (ys @ n # zs) st en \<and> noted g' ipr = noted g ipr \<and> ip_reass_chain_frag_into_datagram_and_validate ipr n g
        = (if fst (noted g ipr) \<and> seems_complete st en n ys zs
           then if fs \<noteq> [] \<and> en (last (n # zs)) = snd (noted g ipr) then Some (True, g') else None
           else Some (False, g'))"
proof -
  define g1 where "g1 = make_helper (payload_of n g) g"
  define d where "d = reassdata g ipr"
  note mh = make_helper_spec [OF ok, folded g1_def]
  have nfs: "n \<notin> set fs" and small: "x \<in> set fs \<Longrightarrow> x < 2 ^ 32" for x using ok by (auto simp: helpers_ok_def)
  have eq: "fstart g1 x = st x" "fend g1 x = en x" if "x \<in> set (n # fs)" for x
    using that mh nfs by (auto simp: st_def en_def)
  have ok1: "helpers_ok (n # fs) g1" and d1: "reassdata g1 ipr = d" and pay: "payload_of n g1 = payload_of n g" "r_p (reassdata g1 ipr) = r_p d"
    using ok by (simp_all add: g1_def d_def)
  have ch1: "chain (frag_link g1) (r_p d) fs" using ch mh(4) unfolding d_def by (subst chain_cong [of fs "frag_link g1" "frag_link g"]) auto
  then have fr: "frags_are g1 ipr fs st en" using eq pay by (simp add: frags_are_def)
  have pl: "place (fstart g1 n) (fend g1 n) (fstart g1) (fend g1) [] fs = place (st n) (en n) st en [] fs"
    using eq by (subst place_cong [of "[]" fs "fstart g1" st "fend g1" en]) auto
  note loop = place_loop_spec [of n "[]" fs g1 "r_p d" ipr, simplified, OF ok1 ch1, unfolded pl, simplified before_def, simplified]
  have v: "ip_reass_chain_frag_into_datagram_and_validate ipr n g =
    (case place_loop ipr n (payload_of n g1) (r_p d) NULL True g1 of
       None \<Rightarrow> None
     | Some (True, q, prev, valid, g) \<Rightarrow> throw_away n g
     | Some (False, q, prev, valid, g) \<Rightarrow>
         Option.bind (if q = NULL then append_frag ipr n (payload_of n g1) prev valid g else Some (valid, g))
           (\<lambda>(valid, g). map_option (\<lambda>v. (v, g)) (all_received ipr (payload_of n g1) valid g)))"
    unfolding ip_reass_chain_frag_into_datagram_and_validate_def Let_def g1_def [symmetric] pay by simp
  show ?thesis
  proof (cases "place (st n) (en n) st en [] fs")
    case None
    then obtain q' prev' v' g' where l: "place_loop ipr n (payload_of n g1) (r_p d) NULL True g1 = Some (True, q', prev', v', g')"
      and g': "g' = g1 \<or> (\<exists>z\<in>set fs. g' = set_frag_next (payload_of n g1) z g1)"
      using loop None by (simp only: option.case contig.simps simp_thms if_True) blast
    have "frags_are g' ipr fs st en" using g'
    proof
      assume "\<exists>z\<in>set fs. g' = set_frag_next (payload_of n g1) z g1"
      then obtain z where z: "z \<in> set fs" "g' = set_frag_next (payload_of n g1) z g1" by blast
      have "frag_link g' x = frag_link g1 x" "fstart g' x = fstart g1 x" "fend g' x = fend g1 x" if "x \<in> set fs" for x
        using set_link [OF ok1 _ _ small [OF z(1)], of n x] that nfs z(2) by auto
      moreover have "reassdata g' = reassdata g1" using z(2) by simp
      ultimately show ?thesis using fr using chain_cong [of fs "frag_link g'" "frag_link g1" "r_p (reassdata g' ipr)"] unfolding frags_are_def by auto
    qed (simp add: fr)
    moreover have "noted g' ipr = noted g ipr" using g' by (auto simp: g1_def)
    ultimately show ?thesis unfolding None v l by auto
  next
    case (Some r)
    obtain ys zs where r: "r = (ys, zs)" by (cases r)
    have f: "fs = ys @ zs" using place_append [OF Some [unfolded r]] by simp
    have l: "place_loop ipr n (payload_of n g1) (r_p d) NULL True g1
        = Some (False, first_of zs, before ys g1, contig (fstart g1) (fend g1) ys, if zs = [] then g1 else link_in ipr n ys zs g1)"
      using loop Some r by (simp add: before_def)
    note li = linked_in [of n ys zs g1 ipr st en, folded f, OF ok1 fr _ _ mh(1), unfolded d1]
    have n: "fstart g1 n = st n" "fend g1 n = en n" using eq by auto
    have "frags_are (link_in ipr n ys zs g1) ipr (ys @ n # zs) st en" using li(1) n Some r f by simp
    moreover have "ip_reass_chain_frag_into_datagram_and_validate ipr n g
        = (if fst (noted g ipr) \<and> seems_complete st en n ys zs
           then if fs \<noteq> [] \<and> en (last (n # zs)) = snd (noted g ipr) then Some (True, link_in ipr n ys zs g1) else None
           else Some (False, link_in ipr n ys zs g1))"
      using li(2) n Some r unfolding v l by (simp add: f [symmetric] noted_def d_def)
    moreover have "noted (link_in ipr n ys zs g1) ipr = noted g ipr" by (simp add: g1_def)
    ultimately show ?thesis unfolding Some r by (simp only: option.case prod.case) blast
  qed
qed


section \<open>The properties\<close>

text \<open>A datagram of three packets: two are fragments of it with the bounds of \<open>bs\<close>, the third has the header \<open>h\<close>.\<close>

definition demo_reass :: "u8 list \<Rightarrow> u8 list \<Rightarrow> u8 list \<Rightarrow> u16 \<Rightarrow> u8 list reass" where
  "demo_reass a c h dl = \<lparr>nic = nic demo_eth,
     lwm = (lwm demo_eth)\<lparr>octet := (\<lambda>i. if 1000 \<le> i \<and> i < 1008 then a ! (i - 1000) else if 1100 \<le> i \<and> i < 1108 then c ! (i - 1100)
              else if 1200 \<le> i \<and> i < 1208 then h ! (i - 1200) else 0),
            pbufs := (\<lambda>p. \<lparr>pb_next = 0, payload = 900 + p, tot_len = 60, pb_len = 60, pb_type = 0, pb_flags = 0, pb_ref = 1\<rparr>)\<rparr>,
     netifs = netifs demo_eth, netif_list = 1, netif_default = 1, netif_num = 1, arp_table = demo_table, etharp_cached_entry = 0,
     ip_id = 0, current_netif = 1, current_header = 0, current_iphdr_src = 0, current_iphdr_dest = 0, reassdatagrams = 10,
     reassdata = (\<lambda>_. \<lparr>r_next = 0, r_p = 100, r_iphdr = [], datagram_len = dl, r_flags = 1, r_timer = 3\<rparr>), ip_reass_pbufcount = 3\<rparr>"

lemma demo_reass:
  "payload_of p (demo_reass a c h dl) = 900 + p" "r_p (reassdata (demo_reass a c h dl) r) = 100" "noted (demo_reass a c h dl) r = (True, dl)"
  "octet (lwm (demo_reass a c h dl)) = (\<lambda>i. if 1000 \<le> i \<and> i < 1008 then a ! (i - 1000) else if 1100 \<le> i \<and> i < 1108 then c ! (i - 1100)
              else if 1200 \<le> i \<and> i < 1208 then h ! (i - 1200) else 0)"
  by (simp_all add: demo_reass_def payload_of_def noted_def)

lemma demo_helpers: "helpers_ok [300, 100, 200] (demo_reass a c h dl)" "helpers_ok [300, 100] (demo_reass a c h dl)"
  by (simp_all add: helpers_ok_def demo_reass)

lemmas demo_fields = frag_link_def fstart_def fend_def frag_next_def frag_start_def frag_end_def demo_reass load16_def load32_def
  offset_of_def end_of_def hdr_offset_def hdr_len_def hdr_hlen_def lwip_ntohs_def lwip_htons_def

text \<open>
  C38: inserting a fragment is insertion into the list of fragments that is ordered by offset. A fragment without
  a place, because it overlaps its neighbours, is thrown away, and the list stays. One with a place is linked in there, all
  bounds and what is known of the end are kept, and the datagram is reported complete exactly when the last
  fragment has been seen, the first byte is there, and the fragments before and from the new one on are
  contiguous. If then the end is not the one noted, or the fragment is alone, the program stops.
\<close>

theorem reass_insert:
  fixes g :: "('d, 'm) reass_scheme"
  assumes "helpers_ok (n # fs) g" "chain (frag_link g) (r_p (reassdata g ipr)) fs"
  defines "st \<equiv> (fstart g)(n := offset_of g n)" and "en \<equiv> (fend g)(n := end_of g n)"
  shows "case place (st n) (en n) st en [] fs of
      None \<Rightarrow> \<exists>g'. frags_are g' ipr fs st en \<and> noted g' ipr = noted g ipr \<and> ip_reass_chain_frag_into_datagram_and_validate ipr n g = throw_away n g'
    | Some (ys, zs) \<Rightarrow> \<exists>g'. frags_are g' ipr (ys @ n # zs) st en \<and> noted g' ipr = noted g ipr \<and> ip_reass_chain_frag_into_datagram_and_validate ipr n g
        = (if fst (noted g ipr) \<and> seems_complete st en n ys zs
           then if fs \<noteq> [] \<and> en (last (n # zs)) = snd (noted g ipr) then Some (True, g') else None
           else Some (False, g'))"
  unfolding st_def en_def by (rule chain_frag [OF assms(1,2)])

text \<open>Bytes 8 to 23 are put between 0 to 7 and 24 to 31.\<close>

theorem reass_insert_witness:
  "\<exists>g'. ip_reass_chain_frag_into_datagram_and_validate 10 300 (demo_reass [200, 0, 0, 0, 0, 0, 8, 0] [0, 0, 0, 0, 24, 0, 32, 0] [0x45, 0, 0, 36, 0, 0, 0x20, 1] 32)
      = Some (True, g') \<and> chain (frag_link g') 100 [100, 300, 200]"
proof -
  let ?g = "demo_reass [200, 0, 0, 0, 0, 0, 8, 0] [0, 0, 0, 0, 24, 0, 32, 0] [0x45, 0, 0, 36, 0, 0, 0x20, 1] 32"
  have f: "frag_link ?g 100 = 200" "frag_link ?g 200 = 0" "fstart ?g 100 = 0" "fend ?g 100 = 8" "fstart ?g 200 = 24" "fend ?g 200 = 32"
    "offset_of ?g 300 = 8" "end_of ?g 300 = 24"
    by (simp_all add: demo_fields)
  have ch: "chain (frag_link ?g) (r_p (reassdata ?g 10)) [100, 200]" by (simp add: f demo_reass)
  from reass_insert [OF demo_helpers(1) ch] f show ?thesis
    by (auto simp: demo_reass seems_complete_def frags_are_def)
qed


lemma hole_complete:
  fixes g :: "('d, 'm) reass_scheme"
  assumes "helpers_ok [n, a, c] g" "chain (frag_link g) (r_p (reassdata g ipr)) [a, c]" "noted g ipr = (True, fend g c)"
    "fstart g a = 0" "fend g a < offset_of g n" "offset_of g n < end_of g n" "end_of g n = fstart g c"
  shows "\<exists>g'. ip_reass_chain_frag_into_datagram_and_validate ipr n g = Some (True, g') \<and> frags_are g' ipr [a, n, c]
      ((fstart g)(n := offset_of g n)) ((fend g)(n := end_of g n))"
proof -
  have "n \<noteq> a" "n \<noteq> c" "offset_of g n \<noteq> 0" using assms(1,5) by (auto simp: helpers_ok_def)
  then have "place (offset_of g n) (end_of g n) ((fstart g)(n := offset_of g n)) ((fend g)(n := end_of g n)) [] [a, c] = Some ([a], [c])"
    using assms(4-7) by auto
  moreover have "seems_complete ((fstart g)(n := offset_of g n)) ((fend g)(n := end_of g n)) n [a] [c]"
    using assms(4,7) \<open>n \<noteq> a\<close> \<open>n \<noteq> c\<close> by (simp add: seems_complete_def)
  ultimately show ?thesis using chain_frag [OF assms(1,2)] assms(3) \<open>n \<noteq> c\<close> by auto
qed

text \<open>
  C39: a datagram with a hole is taken for complete. When the fragment that arrives last ends where its
  successor begins, but begins behind the end of its predecessor, the datagram is reported complete with the
  three fragments, although the bytes between the first two never came.
\<close>

theorem reass_hole:
  fixes g :: "('d, 'm) reass_scheme"
  assumes "helpers_ok [n, a, c] g" "chain (frag_link g) (r_p (reassdata g ipr)) [a, c]" "noted g ipr = (True, fend g c)"
    "fstart g a = 0" "fend g a < offset_of g n" "offset_of g n < end_of g n" "end_of g n = fstart g c"
  shows "\<exists>g'. ip_reass_chain_frag_into_datagram_and_validate ipr n g = Some (True, g') \<and> frags_are g' ipr [a, n, c]
      ((fstart g)(n := offset_of g n)) ((fend g)(n := end_of g n))"
  by (rule hole_complete [OF assms])

text \<open>Bytes 8 to 15 of 32 are missing.\<close>

theorem reass_hole_witness:
  "\<exists>g'. ip_reass_chain_frag_into_datagram_and_validate 10 300 (demo_reass [200, 0, 0, 0, 0, 0, 8, 0] [0, 0, 0, 0, 24, 0, 32, 0] [0x45, 0, 0, 28, 0, 0, 0x20, 2] 32)
      = Some (True, g') \<and> frags_are g' 10 [100, 300, 200] (\<lambda>p. if p = 100 then 0 else if p = 300 then 16 else 24) (\<lambda>p. if p = 100 then 8 else if p = 300 then 24 else 32)"
proof -
  let ?g = "demo_reass [200, 0, 0, 0, 0, 0, 8, 0] [0, 0, 0, 0, 24, 0, 32, 0] [0x45, 0, 0, 28, 0, 0, 0x20, 2] 32"
  have f: "frag_link ?g 100 = 200" "frag_link ?g 200 = 0" "fstart ?g 100 = 0" "fend ?g 100 = 8" "fstart ?g 200 = 24" "fend ?g 200 = 32"
    "offset_of ?g 300 = 16" "end_of ?g 300 = 24"
    by (simp_all add: demo_fields)
  have ch: "chain (frag_link ?g) (r_p (reassdata ?g 10)) [100, 200]" by (simp add: f demo_reass)
  from reass_hole [OF demo_helpers(1) ch] f show ?thesis
    by (auto simp: demo_reass frags_are_def)
qed

text \<open>A last fragment that is thrown away has been noted all the same.\<close>

lemma note_last_sel:
  "noted (note_last ipr (payload_of n g) (end_of g n) g) ipr
     = (if hdr_offset (payload_of n g) g AND lwip_ntohs IP_MF = 0 then (True, end_of g n) else noted g ipr)"
  "payload_of p (note_last ipr h e g) = payload_of p g" "frag_link (note_last ipr h e g) = frag_link g" "fstart (note_last ipr h e g) = fstart g"
  "fend (note_last ipr h e g) = fend g" "r_p (reassdata (note_last ipr h e g) ipr) = r_p (reassdata g ipr)"
  "offset_of (note_last ipr h e g) n = offset_of g n" "end_of (note_last ipr h e g) n = end_of g n"
  "helpers_ok ps (note_last ipr h e g) = helpers_ok ps g"
  by (auto simp: note_last_def noted_def upd_reass_def fun_eq_iff frag_link_def fstart_def fend_def frag_next_def frag_start_def frag_end_def payload_of_def
    offset_of_def end_of_def hdr_offset_def hdr_len_def hdr_hlen_def helpers_ok_def bit.conj_disj_distrib2 or_eq_0_iff)

lemma dropped_then_stops:
  fixes g h :: "('d, 'm) reass_scheme"
  assumes n: "helpers_ok [n, a] g" "chain (frag_link g) (r_p (reassdata g ipr)) [a]" "fstart g a = 0"
    "hdr_offset (payload_of n g) g AND lwip_ntohs IP_MF = 0" "offset_of g n < fend g a"
  shows "\<exists>g'. ip_reass_chain_frag_into_datagram_and_validate ipr n (note_last ipr (payload_of n g) (end_of g n) g) = throw_away n g'
      \<and> frags_are g' ipr [a] (fstart g) (fend g) \<and> noted g' ipr = (True, end_of g n)"
    and "helpers_ok [m, a] h \<Longrightarrow> frags_are h ipr [a] (fstart g) (fend g) \<Longrightarrow> noted h ipr = (True, end_of g n) \<Longrightarrow> offset_of h m = fend g a
      \<Longrightarrow> end_of h m \<noteq> end_of g n \<Longrightarrow> ip_reass_chain_frag_into_datagram_and_validate ipr m h = None"
proof -
  let ?g = "note_last ipr (payload_of n g) (end_of g n) g"
  have na: "n \<noteq> a" using n(1) by (simp add: helpers_ok_def)
  have "place (offset_of g n) (end_of g n) ((fstart g)(n := offset_of g n)) ((fend g)(n := end_of g n)) [] [a] = None"
    using n(3,5) na by simp
  then show "\<exists>g'. ip_reass_chain_frag_into_datagram_and_validate ipr n ?g = throw_away n g'
      \<and> frags_are g' ipr [a] (fstart g) (fend g) \<and> noted g' ipr = (True, end_of g n)"
    using chain_frag [of n "[a]" ?g ipr] n(1,2,4) na by (auto simp: note_last_sel frags_are_def)
  assume h: "helpers_ok [m, a] h" "frags_are h ipr [a] (fstart g) (fend g)" "noted h ipr = (True, end_of g n)" "offset_of h m = fend g a" "end_of h m \<noteq> end_of g n"
  have fr: "fstart h a = 0" "fend h a = fend g a" "chain (frag_link h) (r_p (reassdata h ipr)) [a]" using h(2) n(3) by (simp_all add: frags_are_def)
  have ma: "m \<noteq> a" and pos: "fend g a \<noteq> 0" using h(1) n(5) by (auto simp: helpers_ok_def)
  have "place (offset_of h m) (end_of h m) ((fstart h)(m := offset_of h m)) ((fend h)(m := end_of h m)) [] [a] = Some ([a], [])"
    using fr ma h(4) pos by simp
  moreover have "seems_complete ((fstart h)(m := offset_of h m)) ((fend h)(m := end_of h m)) m [a] []"
    using fr h(4) ma by (simp add: seems_complete_def)
  ultimately show "ip_reass_chain_frag_into_datagram_and_validate ipr m h = None"
    using chain_frag [OF h(1) fr(3)] h(3,5) by auto
qed

text \<open>
  C40: two fragments stop the program. A last fragment that begins inside the first one is thrown away and
  the list stays, but the flag and the length have been set from it. A fragment that then
  continues the first one, with another end, fails an assertion, which loops for ever.
\<close>

theorem reass_stops:
  fixes g h :: "('d, 'm) reass_scheme"
  assumes "helpers_ok [n, a] g" "chain (frag_link g) (r_p (reassdata g ipr)) [a]" "fstart g a = 0"
    "hdr_offset (payload_of n g) g AND lwip_ntohs IP_MF = 0" "offset_of g n < fend g a"
    and "helpers_ok [m, a] h" "frags_are h ipr [a] (fstart g) (fend g)" "noted h ipr = (True, end_of g n)" "offset_of h m = fend g a" "end_of h m \<noteq> end_of g n"
  shows "(\<exists>g'. ip_reass_chain_frag_into_datagram_and_validate ipr n (note_last ipr (payload_of n g) (end_of g n) g) = throw_away n g'
      \<and> frags_are g' ipr [a] (fstart g) (fend g) \<and> noted g' ipr = (True, end_of g n))
    \<and> ip_reass_chain_frag_into_datagram_and_validate ipr m h = None"
  by (intro conjI dropped_then_stops(1) [OF assms(1-5)] dropped_then_stops(2) [OF assms])

text \<open>Bytes 0 to 15 are there; a last fragment with 8 to 19 comes, then one with 16 to 31.\<close>

theorem reass_stops_witness:
  "ip_reass_chain_frag_into_datagram_and_validate 10 300 (demo_reass [0, 0, 0, 0, 0, 0, 16, 0] [] [0x45, 0, 0, 36, 0, 0, 0x20, 2] 20) = None"
proof -
  let ?g = "demo_reass [0, 0, 0, 0, 0, 0, 16, 0] [] [0x45, 0, 0, 32, 0, 0, 0, 1] 0"
  let ?h = "demo_reass [0, 0, 0, 0, 0, 0, 16, 0] [] [0x45, 0, 0, 36, 0, 0, 0x20, 2] 20"
  have f: "frag_link ?g 100 = 0" "fstart ?g 100 = 0" "fend ?g 100 = 16" "offset_of ?g 300 = 8" "end_of ?g 300 = 20"
    "hdr_offset 1200 ?g AND lwip_ntohs IP_MF = 0"
    and h: "frag_link ?h 100 = 0" "fstart ?h 100 = 0" "fend ?h 100 = 16" "offset_of ?h 300 = 16" "end_of ?h 300 = 32"
    by (simp_all add: demo_fields)
  have ch: "chain (frag_link ?g) (r_p (reassdata ?g 10)) [100]" and fr: "frags_are ?h 10 [100] (fstart ?g) (fend ?g)"
    by (simp_all add: f h demo_reass frags_are_def)
  from reass_stops [OF demo_helpers(2) ch _ _ _ demo_helpers(2) fr] f h show ?thesis by (simp add: demo_reass)
qed

end
