(* ===== verification/Spec2Isabelle.thy ===== *)
theory Spec2Isabelle
  imports OS_Props OS_Q_Props OS_Mem_Props OS_Event_Props OS_Mutex_Props Sys_Arch_Props Inet_Chksum_Props
    Ip_Addr_Props Heap_Props Pbuf_Pool Ethernetif_Props
    Timers_Props Etharp_Reply Icmp_Props Netapp Usart_Props Ip_Reass_Props
begin

text \<open>
  A model of the firmware of the LoRa gateway
  (\<open>src/QH_UCOSII+LWIP1.4/lora_network_platform/\<close>): an STM32F103 that runs the uC/OS-II
  kernel, and on it lwIP 1.4.1 with an ENC28J60 Ethernet controller on SPI. Paths below are
  relative to that directory. What is modelled is the code as it is configured
  (\<open>os_app/os_cfg.h\<close>, \<open>lwip1.4/src/arch/lwipopts.h\<close>): 64 priorities, 200 ticks a
  second, no event flags and timers; no TCP, DHCP and DNS, a heap of 10240 bytes.

  How the parts interact. The tick interrupt (\<open>user/stm32f10x_it.c\<close>) drives the kernel
  (\<open>ucosII/Source\<close>), which always runs the most urgent ready task. Tasks block on semaphores,
  mailboxes, queues and mutexes, which share the event control block, its wait list and
  the functions of \<open>os_core.c\<close>. lwIP reaches the kernel only through
  \<open>lwip1.4/src/arch/sys_arch.c\<close>, which builds its semaphores, mailboxes and threads from kernel
  services. Packets are chains of buffers (\<open>pbuf.c\<close>) that come from pools (\<open>memp.c\<close>) or the heap
  (\<open>mem.c\<close>); the checksum code and the protocols read and write the bytes of the chains.

  Conventions. A C structure is a record, a pointer a natural number with \<open>NULL\<close> 0, an array
  of structures a total map from pointers to records; integers keep their width as words.
  Fatal assertions and loops that need not end are \<open>None\<close>; errors that the code returns are
  returned. A critical section is one step: interrupts are the steps between them.

  Theories, in the order of the code:
  \<^item> \<open>Prelude\<close>, \<open>Pool\<close>, \<open>Fifo\<close>: shared vocabulary; the interfaces \<open>free_list\<close>,
    \<open>bounded_fifo\<close>, \<open>bounded_deque\<close> as locales.
  \<^item> \<open>Bitmap\<close>: \<open>OSRdyGrp\<close>/\<open>OSRdyTbl\<close> and the wait lists, \<open>OSUnMapTbl\<close>; the bitmap is a
    set of priorities and the lookup its minimum.
  \<^item> \<open>Kernel\<close>, \<open>OS_Core\<close>, \<open>OS_Init\<close>, \<open>OS_Time\<close>, \<open>OS_Task\<close>, \<open>OS_Clock\<close>: the state
    \<open>os\<close> (the globals of \<open>ucos_ii.h\<close>) and the functions of \<open>os_core.c\<close>, \<open>os_time.c\<close>,
    \<open>os_task.c\<close>, \<open>os_cpu_c.c\<close> and the tick handler.
  \<^item> \<open>OS_Event\<close>, \<open>OS_Sem\<close>, \<open>OS_Mbox\<close>, \<open>OS_Q\<close>, \<open>OS_Mem\<close>, \<open>OS_Mutex\<close>: the services. A
    call that blocks is cut in two at the context switch: \<open>..._enter\<close> and \<open>..._resume\<close>.
  \<^item> \<open>OS_Invariant\<close>, \<open>OS_Sched_Inv\<close>, \<open>OS_Steps\<close>, \<open>OS_Task_Inv\<close>, \<open>OS_Tick_Inv\<close>,
    \<open>OS_Event_Inv\<close>, \<open>OS_Init_Inv\<close>, \<open>OS_Lock\<close>: the invariant that ties ready list, wait lists,
    priority table and control blocks together, kept by every operation.
  \<^item> \<open>OS_Reach\<close>: the kernel as an inductive step relation, one step a kernel call, the resumption
    of one, or an interrupt; the invariant holds in every reachable state. \<open>OS_Demo\<close> is a
    concrete run that the witnesses use.
  \<^item> \<open>OS_Props\<close> (C1 to C7), \<open>OS_Q_Props\<close> (C8, C9), \<open>OS_Mem_Props\<close> (C10, C11),
    \<open>OS_Event_Props\<close> (C12 to C16), \<open>OS_Mutex_Props\<close> (C17 to C20): the most urgent task runs,
    no control block is lost, no switch under a lock, exact delays; queues refine lists,
    partitions are stacks; who is woken, hand-over, timeouts, overflow; exclusion and inheritance.
  \<^item> \<open>Sys_Arch\<close>, \<open>Sys_Arch_Props\<close> (C21 to C24): \<open>arch/sys_arch.c\<close>; mailboxes refine bounded
    queues, the exact conversion of timeouts, which stack a thread gets.
  \<^item> \<open>Lw_State\<close>: the memory of lwIP. \<open>Inet_Chksum\<close>, \<open>Inet_Chksum_Props\<close> (C25 to C27):
    \<open>core/ipv4/inet_chksum.c\<close> against RFC 1071. \<open>Ip_Addr\<close>, \<open>Ip_Addr_Props\<close> (C28 to C30):
    \<open>core/ipv4/ip_addr.c\<close>, text conversion and net masks.
  \<^item> \<open>Heap\<close>, \<open>Heap_Inv\<close>, \<open>Heap_Props\<close> (C31 to C33): \<open>core/mem.c\<close>; the heap is a list of blocks, and an
    instance of the interface \<open>allocator\<close>.
  \<^item> \<open>Memp\<close>, \<open>Pbuf\<close>, \<open>Pbuf_Data\<close>, \<open>Pbuf_Props\<close>, \<open>Pbuf_Pool\<close> (C34 to C38): \<open>core/memp.c\<close> and
    \<open>core/pbuf.c\<close>; chains of buffers carry byte strings, pools are free lists.

  Bounds and fuel. Loops over linked structures of unknown shape are \<open>partial_function (option)\<close>,
  and the theorems prove that the result is \<open>Some\<close>. The tick walks the task list with as many steps as there
  can be tasks. \<open>walk\<close> in \<open>Heap_Props\<close> reads at most 600 headers, more than the
  512 that 20 bytes a block allow in 10240 bytes.

  Not modelled: the peripheral library of the STM32 and CMSIS (vendor code), newlib stubs, the
  assembly of the port (its context switch is the switch of the current task in \<open>OS_Core\<close>),
  the parts that the configuration leaves out (event flags, software timers, TCP, DHCP, DNS,
  IGMP, SNMP, PPP, SLIP, IPv6), statistics and debug output.
\<close>

end
